(* ===== verification/Prelude.thy ===== *)
theory Prelude
  imports
    Main
    "HOL-Library.AList"
    "HOL-Library.Char_ord"
    "HOL-Library.List_Lexorder"
    "HOL-Library.Product_Lexorder"
    "HOL-Library.Multiset"
begin

text \<open>
  The part of Python and its standard library that the modelled modules use, and the generic
  lemmas the components share.

  \<^item> A Python \<open>str\<close> is an Isabelle \<^typ>\<open>string\<close>: one \<^typ>\<open>char\<close> per code point, so the model
    covers the code points U+0000 to U+00FF. \<open><\<close> and \<open>sorted\<close> on strings are the lexicographic
    order of the code points (\<open>List_Lexorder\<close> over \<open>Char_ord\<close>), as in Python; tuples are
    compared by \<open>Product_Lexorder\<close>.
  \<^item> A \<open>dict\<close> whose iteration order matters is an association list: \<^const>\<open>AList.update\<close> keeps
    the position of a key that is already there and appends a new one, as \<open>d[k] = v\<close> does.
  \<^item> \<open>sorted(set(xs))\<close> is \<open>sort (remdups xs)\<close>, \<open>sorted(xs, key=f)\<close> is the stable
    \<open>sort_key f xs\<close>.
  \<^item> An exception is a value of \<open>py_error\<close> in the left summand of the result.
\<close>

named_theorems py_simps "defining equations of the Python string library"

datatype py_error = ValueError string | KeyError string | AssertionError

type_synonym 'a py = "py_error + 'a"

subsection \<open>Strings\<close>

primrec join :: "string \<Rightarrow> string list \<Rightarrow> string" where
  "join sep [] = []"
| "join sep (x # xs) = (if xs = [] then x else x @ sep @ join sep xs)"

fun split_on :: "char \<Rightarrow> string \<Rightarrow> string list" where
  "split_on c [] = [[]]"
| "split_on c (x # xs) =
     (if x = c then [] # split_on c xs
      else (case split_on c xs of [] \<Rightarrow> [[x]] | p # ps \<Rightarrow> (x # p) # ps))"

text \<open>\<open>s.partition(c)\<close>: the text before the first \<open>c\<close> and, if there is one, the text after it.\<close>

fun partition_at :: "char \<Rightarrow> string \<Rightarrow> string \<times> string option" where
  "partition_at c [] = ([], None)"
| "partition_at c (x # xs) =
     (if x = c then ([], Some xs)
      else (case partition_at c xs of (l, r) \<Rightarrow> (x # l, r)))"

definition between :: "char \<Rightarrow> char \<Rightarrow> char \<Rightarrow> bool" where
  [py_simps]: "between a b c \<longleftrightarrow> a \<le> c \<and> c \<le> b"

definition is_digit :: "char \<Rightarrow> bool" where
  [py_simps]: "is_digit c \<longleftrightarrow> between CHR ''0'' CHR ''9'' c"

definition is_lower :: "char \<Rightarrow> bool" where
  [py_simps]: "is_lower c \<longleftrightarrow> between CHR ''a'' CHR ''z'' c"

definition is_upper :: "char \<Rightarrow> bool" where
  [py_simps]: "is_upper c \<longleftrightarrow> between CHR ''A'' CHR ''Z'' c"

definition is_lower_hex :: "char \<Rightarrow> bool" where
  [py_simps]: "is_lower_hex c \<longleftrightarrow> is_digit c \<or> between CHR ''a'' CHR ''f'' c"

text \<open>\<open>str(n)\<close> and \<open>int(s)\<close> for decimal numbers.\<close>

definition digit_char :: "nat \<Rightarrow> char" where
  "digit_char n = char_of (48 + n)"

definition digit_val :: "char \<Rightarrow> nat" where
  "digit_val c = of_char c - 48"

fun str_nat :: "nat \<Rightarrow> string" where
  "str_nat n = (if n < 10 then [digit_char n] else str_nat (n div 10) @ [digit_char (n mod 10)])"

declare str_nat.simps [simp del]

definition str_int :: "int \<Rightarrow> string" where
  "str_int i = (if i < 0 then CHR ''-'' # str_nat (nat (- i)) else str_nat (nat i))"

definition nat_of_digits :: "string \<Rightarrow> nat" where
  "nat_of_digits s = foldl (\<lambda>a c. a * 10 + digit_val c) 0 s"

text \<open>
  \<open>repr\<close> of a string: single quotes unless the text has a single and no double quote; backslash,
  the quote, newline, carriage return and tab escaped; other non-printable code points as
  \<open>\xNN\<close>. Up to U+00FF the non-printable ones are below U+0020, U+007F to U+00A0 and U+00AD.
\<close>

definition hex_digit :: "nat \<Rightarrow> char" where
  "hex_digit n = (if n < 10 then char_of (48 + n) else char_of (87 + n))"

definition repr_char :: "char \<Rightarrow> char \<Rightarrow> string" where
  "repr_char q c =
     (let n = (of_char c :: nat) in
      if c = q \<or> n = 92 then [CHR 0x5C, c]
      else if n = 10 then [CHR 0x5C, CHR ''n'']
      else if n = 13 then [CHR 0x5C, CHR ''r'']
      else if n = 9 then [CHR 0x5C, CHR ''t'']
      else if n < 32 \<or> (127 \<le> n \<and> n \<le> 160) \<or> n = 173
        then [CHR 0x5C, CHR ''x'', hex_digit (n div 16), hex_digit (n mod 16)]
      else [c])"

definition repr_str :: "string \<Rightarrow> string" where
  "repr_str s =
     (let q = (if CHR 0x27 \<in> set s \<and> CHR 0x22 \<notin> set s then CHR 0x22 else CHR 0x27)
      in q # concat (map (repr_char q) s) @ [q])"

text \<open>\<open>s.strip()\<close>: the white space code points up to U+00FF.\<close>

definition is_space :: "char \<Rightarrow> bool" where
  "is_space c \<longleftrightarrow> (let n = (of_char c :: nat) in
     (9 \<le> n \<and> n \<le> 13) \<or> (28 \<le> n \<and> n \<le> 32) \<or> n = 133 \<or> n = 160)"

definition strip :: "string \<Rightarrow> string" where
  "strip s = rev (dropWhile is_space (rev (dropWhile is_space s)))"

subsection \<open>Sets and dictionaries\<close>

text \<open>\<open>tuple(sorted(set(xs)))\<close>\<close>

definition sorted_set :: "'a::linorder list \<Rightarrow> 'a list" where
  "sorted_set xs = sort (remdups xs)"

abbreviation dict_get :: "('k \<times> 'v) list \<Rightarrow> 'k \<Rightarrow> 'v option" where
  "dict_get d k \<equiv> map_of d k"

abbreviation dict_set :: "'k \<Rightarrow> 'v \<Rightarrow> ('k \<times> 'v) list \<Rightarrow> ('k \<times> 'v) list" where
  "dict_set k v d \<equiv> AList.update k v d"

abbreviation dict_keys :: "('k \<times> 'v) list \<Rightarrow> 'k list" where
  "dict_keys d \<equiv> map fst d"

abbreviation dict_values :: "('k \<times> 'v) list \<Rightarrow> 'v list" where
  "dict_values d \<equiv> map snd d"

text \<open>A dictionary comprehension \<open>{key(x): x for x in xs}\<close>: later entries win.\<close>

definition dict_by :: "('a \<Rightarrow> 'k) \<Rightarrow> 'a list \<Rightarrow> ('k \<times> 'a) list" where
  "dict_by key xs = fold (\<lambda>x d. dict_set (key x) x d) xs []"

subsection \<open>Lemmas on strings\<close>

lemma split_on_not_Nil [simp]: "split_on c s \<noteq> []"
  by (induction s) (auto split: list.splits)

lemma join_Cons_ne: "xs \<noteq> [] \<Longrightarrow> join sep (x # xs) = x @ sep @ join sep xs"
  by simp

lemma join_split_on: "join [c] (split_on c s) = s"
proof (induction s)
  case (Cons x s)
  obtain p ps where "split_on c s = p # ps"
    using split_on_not_Nil by (meson neq_Nil_conv)
  with Cons show ?case by (cases ps) auto
qed simp

lemma split_on_no_sep: "c \<notin> set s \<Longrightarrow> split_on c s = [s]"
  by (induction s) auto

lemma split_on_append: "c \<notin> set p \<Longrightarrow> split_on c (p @ c # s) = p # split_on c s"
  by (induction p) auto

lemma split_on_join:
  "ps \<noteq> [] \<Longrightarrow> (\<And>p. p \<in> set ps \<Longrightarrow> c \<notin> set p) \<Longrightarrow> split_on c (join [c] ps) = ps"
  by (induction ps) (auto simp: split_on_no_sep split_on_append)

lemma split_on_append_sep: "split_on c (p @ c # s) = split_on c p @ split_on c s"
proof (induction p)
  case (Cons x p)
  then show ?case by (cases "split_on c p") (simp_all del: split_on_not_Nil, metis split_on_not_Nil)
qed simp

lemma split_on_parts_no_sep: "p \<in> set (split_on c s) \<Longrightarrow> c \<notin> set p"
  by (induction s arbitrary: p) (auto split: list.splits if_splits)

lemma set_split_on: "p \<in> set (split_on c s) \<Longrightarrow> set p \<subseteq> set s"
  by (induction s arbitrary: p) (fastforce split: list.splits if_splits)+

lemma partition_at_absent: "c \<notin> set s \<Longrightarrow> partition_at c s = (s, None)"
  by (induction s) auto

lemma partition_at_present: "c \<notin> set l \<Longrightarrow> partition_at c (l @ c # r) = (l, Some r)"
  by (induction l) auto

lemma partition_at_None: "partition_at c s = (l, None) \<longleftrightarrow> l = s \<and> c \<notin> set s"
proof (cases "c \<in> set s")
  case True
  then obtain p q where "s = p @ c # q" "c \<notin> set p"
    by (meson split_list_first)
  then show ?thesis by (simp add: partition_at_present)
qed (auto simp: partition_at_absent)

lemma partition_at_Some: "partition_at c s = (l, Some r) \<longleftrightarrow> s = l @ c # r \<and> c \<notin> set l"
proof (cases "c \<in> set s")
  case True
  then obtain p q where "s = p @ c # q" "c \<notin> set p"
    by (meson split_list_first)
  then show ?thesis
    by (metis Pair_inject option.inject partition_at_present)
qed (auto simp: partition_at_absent)

lemma digit_char_digit: "n < 10 \<Longrightarrow> is_digit (digit_char n)"
  by (simp add: is_digit_def between_def digit_char_def less_eq_char_def)

lemma digit_val_char: "n < 10 \<Longrightarrow> digit_val (digit_char n) = n"
  by (simp add: digit_val_def digit_char_def)

lemma is_digit_of_char: "is_digit c \<longleftrightarrow> 48 \<le> (of_char c :: nat) \<and> (of_char c :: nat) \<le> 57"
  by (simp add: is_digit_def between_def less_eq_char_def)

lemma digit_char_val: "is_digit c \<Longrightarrow> digit_char (digit_val c) = c"
  by (simp add: is_digit_of_char digit_char_def digit_val_def)

lemma digit_val_bound: "is_digit c \<Longrightarrow> digit_val c < 10"
  unfolding is_digit_of_char digit_val_def by linarith

lemma nat_of_digits_Nil [simp]: "nat_of_digits [] = 0"
  by (simp add: nat_of_digits_def)

lemma nat_of_digits_snoc [simp]: "nat_of_digits (s @ [c]) = nat_of_digits s * 10 + digit_val c"
  by (simp add: nat_of_digits_def)

lemma str_nat_not_Nil [simp]: "str_nat n \<noteq> []"
  by (subst str_nat.simps) simp

lemma str_nat_digits: "list_all is_digit (str_nat n)"
proof (induction n rule: str_nat.induct)
  case (1 n)
  then show ?case
    by (subst str_nat.simps) (auto simp: digit_char_digit)
qed

lemma nat_of_digits_str_nat: "nat_of_digits (str_nat n) = n"
proof (induction n rule: str_nat.induct)
  case (1 n)
  show ?case
  proof (cases "n < 10")
    case True
    then show ?thesis
      by (subst str_nat.simps) (simp add: nat_of_digits_def digit_val_char)
  next
    case False
    with "1.IH" show ?thesis
      by (subst str_nat.simps) (simp add: digit_val_char)
  qed
qed

subsection \<open>Lemmas on sorting\<close>

lemma str_nat_inj: "str_nat i = str_nat j \<longleftrightarrow> i = j"
  by (metis nat_of_digits_str_nat)

lemma set_sorted_set [simp]: "set (sorted_set xs) = set xs"
  by (simp add: sorted_set_def)

lemma sorted_sorted_set [simp]: "sorted (sorted_set xs)"
  by (simp add: sorted_set_def)

lemma distinct_sorted_set [simp]: "distinct (sorted_set xs)"
  by (simp add: sorted_set_def)

lemma sorted_set_Nil_iff [simp]: "sorted_set xs = [] \<longleftrightarrow> xs = []"
  by (metis set_empty set_sorted_set)

lemma sorted_set_eq: "sorted_set xs = sorted_list_of_set (set xs)"
  by (simp add: sorted_set_def sorted_list_of_set_sort_remdups)

lemma sorted_set_cong: "set xs = set ys \<Longrightarrow> sorted_set xs = sorted_set ys"
  by (simp add: sorted_set_eq)

lemma sorted_set_id: "sorted xs \<Longrightarrow> distinct xs \<Longrightarrow> sorted_set xs = xs"
  by (simp add: sorted_set_def sorted_sort_id distinct_remdups_id)

lemma sorted_set_idem [simp]: "sorted_set (sorted_set xs) = sorted_set xs"
  by (simp add: sorted_set_id)

lemma sort_key_perm_unique:
  assumes "mset xs = mset ys" and "inj_on f (set xs)"
  shows "sort_key f xs = sort_key f ys"
  by (rule sort_key_inj_key_eq) (use assms in simp_all)

lemma sorted_keys_unique:
  assumes "mset xs = mset ys" and "sorted (map f xs)" and "sorted (map f ys)"
  shows "map f xs = map f ys"
  using assms properties_for_sort[of "map f xs" "map f ys"] sorted_sort_id
  by (metis mset_map)

lemma map_sort_key_perm:
  "mset xs = mset ys \<Longrightarrow> map f (sort_key f xs) = map f (sort_key f ys)"
  by (rule sorted_keys_unique) simp_all

lemma sort_key_idem [simp]: "sort_key f (sort_key f xs) = sort_key f xs"
  by (rule sort_key_id_if_sorted) simp

subsection \<open>Lemmas on dictionaries\<close>

lemma distinct_dict_set [simp]: "distinct (dict_keys d) \<Longrightarrow> distinct (dict_keys (dict_set k v d))"
  by (rule distinct_update)

lemma set_dict_keys_set [simp]: "fst ` set (dict_set k v d) = insert k (fst ` set d)"
  by (simp add: dom_map_of_conv_image_fst[symmetric] update_conv' dom_fun_upd)

lemma map_of_Some_values: "dict_get d k = Some v \<Longrightarrow> v \<in> set (dict_values d)"
  by (force dest: map_of_SomeD)

lemma dict_values_map_of:
  "distinct (dict_keys d) \<Longrightarrow> v \<in> set (dict_values d) \<longleftrightarrow> (\<exists>k. dict_get d k = Some v)"
  by (force simp: map_of_eq_Some_iff)

lemma dict_set_fresh: "k \<notin> set (dict_keys d) \<Longrightarrow> dict_set k v d = d @ [(k, v)]"
  by (induction d) auto

subsection \<open>Canonical decimal numbers\<close>

text \<open>The regular expression \<open>(?:0|[1-9][0-9]*)\<close>.\<close>

definition is_number :: "string \<Rightarrow> bool" where
  "is_number s \<longleftrightarrow> s = ''0'' \<or> (s \<noteq> [] \<and> hd s \<noteq> CHR ''0'' \<and> list_all is_digit s)"

lemma str_nat_ge_10: "\<not> n < 10 \<Longrightarrow> str_nat n = str_nat (n div 10) @ [digit_char (n mod 10)]"
  by (subst str_nat.simps) simp

lemma str_nat_lt_10: "n < 10 \<Longrightarrow> str_nat n = [digit_char n]"
  by (subst str_nat.simps) simp

lemma str_nat_0 [simp]: "str_nat 0 = ''0''"
  by code_simp

lemma hd_str_nat: "0 < n \<Longrightarrow> hd (str_nat n) \<noteq> CHR ''0''"
proof (induction n rule: str_nat.induct)
  case (1 n)
  show ?case
  proof (cases "n < 10")
    case True
    with "1.prems" have "digit_val (digit_char n) \<noteq> digit_val CHR ''0''"
      by (simp add: digit_val_char) (simp add: digit_val_def)
    with True show ?thesis by (auto simp: str_nat_lt_10)
  next
    case False
    with "1.IH" show ?thesis by (simp add: str_nat_ge_10 hd_append)
  qed
qed

lemma is_number_str_nat: "is_number (str_nat n)"
proof (cases n)
  case (Suc m)
  then show ?thesis
    by (simp add: is_number_def hd_str_nat str_nat_digits)
qed (simp add: is_number_def)

lemma is_number_digits: "is_number s \<Longrightarrow> s \<noteq> [] \<and> list_all is_digit s"
  by (auto simp: is_number_def py_simps less_eq_char_def)

lemma is_number_snoc: "is_number (t @ [c]) \<Longrightarrow> t \<noteq> [] \<Longrightarrow> is_number t \<and> t \<noteq> ''0'' \<and> is_digit c"
  by (auto simp: is_number_def hd_append)

lemma str_nat_of_digits: "is_number s \<Longrightarrow> str_nat (nat_of_digits s) = s"
proof (induction s rule: rev_induct)
  case (snoc c t)
  show ?case
  proof (cases "t = []")
    case True
    with snoc.prems have "is_digit c" using is_number_digits by fastforce
    then show ?thesis
      using True by (simp add: nat_of_digits_def str_nat_lt_10 digit_val_bound digit_char_val)
  next
    case False
    with snoc.prems have t: "is_number t" "t \<noteq> ''0''" and c: "is_digit c"
      using is_number_snoc by blast+
    then have "str_nat (nat_of_digits t) = t" by (blast intro: snoc.IH)
    with t(2) have "0 < nat_of_digits t" by (metis gr0I str_nat_0)
    with c \<open>str_nat (nat_of_digits t) = t\<close> show ?thesis
      by (simp add: str_nat_ge_10 digit_val_bound digit_char_val)
  qed
qed (simp add: is_number_def)

lemma length_str_nat: "n < 10 ^ k \<Longrightarrow> 0 < k \<Longrightarrow> length (str_nat n) \<le> k"
proof (induction n arbitrary: k rule: str_nat.induct)
  case (1 n)
  show ?case
  proof (cases "n < 10")
    case True
    with "1.prems" show ?thesis by (simp add: str_nat_lt_10)
  next
    case False
    with "1.prems" obtain j where k: "k = Suc j" "0 < j"
      by (cases k; cases "k - 1") auto
    with "1.prems" have "n div 10 < 10 ^ j" by auto
    with "1.IH"[OF False] k have "length (str_nat (n div 10)) \<le> j" by blast
    with False k show ?thesis by (simp add: str_nat_ge_10)
  qed
qed

lemma not_in_digits: "list_all is_digit s \<Longrightarrow> \<not> is_digit c \<Longrightarrow> c \<notin> set s"
  by (auto simp: list_all_iff)

end
