(* ===== verification/Domain.thy ===== *)
theory Domain
  imports Prelude
begin

text \<open>
  The IO-free domain kernel (\<open>agent_artifacts/domain\<close>): nominal identifiers, diagnostics with
  their canonical order, the \<open>Result\<close> algebra, the sorted immutable collections and the terminal
  outcome of an operation. The ordered dataclasses are datatypes with a \<open>linorder\<close>
  instance, the other dataclasses are records; a constructor whose \<open>__post_init__\<close> normalises or
  raises is a function \<open>mk_...\<close>.
\<close>

named_theorems dom_order "the orders of the nominal identifiers"

subsection \<open>Identifiers\<close>

datatype source_alias = SourceAlias (alias_value: string)
datatype source_id = SourceId (source_id_value: string)
datatype source_origin = SourceOrigin (origin_value: string)
datatype artifact_identity = ArtifactIdentity (identity_kind: string) (identity_name: string)
datatype object_digest = ObjectDigest (digest_algorithm: string) (digest_value: string)
datatype artifact_coordinate =
  ArtifactCoordinate (coord_source: source_alias) (coord_artifact: artifact_identity)
    (coord_version: "string option")

definition identity_str :: "artifact_identity \<Rightarrow> string" where
  "identity_str i = identity_kind i @ ''/'' @ identity_name i"

definition coordinate_str :: "artifact_coordinate \<Rightarrow> string" where
  "coordinate_str c =
     alias_value (coord_source c) @ ''/'' @ identity_str (coord_artifact c)
       @ (case coord_version c of None \<Rightarrow> '''' | Some v \<Rightarrow> ''@'' @ v)"

definition digest_str :: "object_digest \<Rightarrow> string" where
  "digest_str d = digest_algorithm d @ '':'' @ digest_value d"

instantiation source_alias :: linorder
begin
definition less_eq_source_alias :: "source_alias \<Rightarrow> source_alias \<Rightarrow> bool" where
  [dom_order]: "less_eq_source_alias a b \<longleftrightarrow> alias_value a \<le> alias_value b"
definition less_source_alias :: "source_alias \<Rightarrow> source_alias \<Rightarrow> bool" where
  [dom_order]: "less_source_alias a b \<longleftrightarrow> alias_value a < alias_value b"
instance
  by standard (auto simp: dom_order intro: source_alias.expand)
end

instantiation source_id :: linorder
begin
definition less_eq_source_id :: "source_id \<Rightarrow> source_id \<Rightarrow> bool" where
  [dom_order]: "less_eq_source_id a b \<longleftrightarrow> source_id_value a \<le> source_id_value b"
definition less_source_id :: "source_id \<Rightarrow> source_id \<Rightarrow> bool" where
  [dom_order]: "less_source_id a b \<longleftrightarrow> source_id_value a < source_id_value b"
instance
  by standard (auto simp: dom_order intro: source_id.expand)
end

definition identity_key :: "artifact_identity \<Rightarrow> string \<times> string" where
  [dom_order]: "identity_key i = (identity_kind i, identity_name i)"

definition digest_key :: "object_digest \<Rightarrow> string \<times> string" where
  [dom_order]: "digest_key d = (digest_algorithm d, digest_value d)"

instantiation artifact_identity :: linorder
begin
definition less_eq_artifact_identity :: "artifact_identity \<Rightarrow> artifact_identity \<Rightarrow> bool" where
  [dom_order]: "less_eq_artifact_identity a b \<longleftrightarrow> identity_key a \<le> identity_key b"
definition less_artifact_identity :: "artifact_identity \<Rightarrow> artifact_identity \<Rightarrow> bool" where
  [dom_order]: "less_artifact_identity a b \<longleftrightarrow> identity_key a < identity_key b"
instance
  by standard (auto simp: dom_order intro: artifact_identity.expand)
end

instantiation object_digest :: linorder
begin
definition less_eq_object_digest :: "object_digest \<Rightarrow> object_digest \<Rightarrow> bool" where
  [dom_order]: "less_eq_object_digest a b \<longleftrightarrow> digest_key a \<le> digest_key b"
definition less_object_digest :: "object_digest \<Rightarrow> object_digest \<Rightarrow> bool" where
  [dom_order]: "less_object_digest a b \<longleftrightarrow> digest_key a < digest_key b"
instance
  by standard (auto simp: dom_order intro: object_digest.expand)
end

subsection \<open>Diagnostics\<close>

datatype severity = INFO | WARNING | ERROR

fun severity_value :: "severity \<Rightarrow> string" where
  "severity_value INFO = ''info''"
| "severity_value WARNING = ''warning''"
| "severity_value ERROR = ''error''"

type_synonym diagnostic_code = string

record source_location =
  loc_source :: "source_alias option"
  loc_path :: "string option"
  loc_pointer :: "string option"
  loc_line :: "int option"
  loc_column :: "int option"

record diagnostic =
  diag_code :: diagnostic_code
  diag_severity :: severity
  diag_message :: string
  diag_location :: "source_location option"
  diag_remediation :: "string list"
  diag_details :: "(string \<times> string) list"

definition mk_diagnostic ::
  "diagnostic_code \<Rightarrow> severity \<Rightarrow> string \<Rightarrow> source_location option \<Rightarrow> string list
    \<Rightarrow> (string \<times> string) list \<Rightarrow> diagnostic" where
  "mk_diagnostic code severity message location remediation details =
     \<lparr>diag_code = code, diag_severity = severity, diag_message = message,
      diag_location = location, diag_remediation = sorted_set remediation,
      diag_details = sort details\<rparr>"

abbreviation error_diagnostic :: "diagnostic_code \<Rightarrow> string \<Rightarrow> diagnostic" where
  "error_diagnostic code message \<equiv> mk_diagnostic code ERROR message None [] []"

text \<open>\<open>location.path or ""\<close>: an absent and an empty value give the same text.\<close>

definition or_empty :: "string option \<Rightarrow> string" where
  "or_empty x = (case x of None \<Rightarrow> '''' | Some s \<Rightarrow> s)"

definition or_minus_one :: "int option \<Rightarrow> int" where
  "or_minus_one x = (case x of None \<Rightarrow> - 1 | Some n \<Rightarrow> n)"

definition location_key ::
  "source_location option \<Rightarrow> string \<times> string \<times> int \<times> int \<times> string" where
  "location_key location =
     (case location of
        None \<Rightarrow> ('''', '''', - 1, - 1, '''')
      | Some l \<Rightarrow>
          (case loc_source l of None \<Rightarrow> '''' | Some a \<Rightarrow> alias_value a, or_empty (loc_path l),
           or_minus_one (loc_line l), or_minus_one (loc_column l), or_empty (loc_pointer l)))"

type_synonym diagnostic_key =
  "(string \<times> string \<times> int \<times> int \<times> string)
     \<times> string \<times> string \<times> string \<times> string list \<times> (string \<times> string) list"

definition diagnostic_sort_key :: "diagnostic \<Rightarrow> diagnostic_key" where
  "diagnostic_sort_key d =
     (location_key (diag_location d), severity_value (diag_severity d), diag_code d,
      diag_message d, diag_remediation d, diag_details d)"

definition sort_diagnostics :: "diagnostic list \<Rightarrow> diagnostic list" where
  "sort_diagnostics ds = sort_key diagnostic_sort_key ds"

definition is_error :: "diagnostic \<Rightarrow> bool" where
  "is_error d \<longleftrightarrow> diag_severity d = ERROR"

text \<open>JSON-shaped Python data, the target of the \<open>..._to_data\<close> projections.\<close>

datatype py_data =
    PyNone
  | PyBool bool
  | PyInt int
  | PyStr string
  | PyList "py_data list"
  | PyDict "(string \<times> py_data) list"

definition py_opt_str :: "string option \<Rightarrow> py_data" where
  "py_opt_str x = (case x of None \<Rightarrow> PyNone | Some s \<Rightarrow> PyStr s)"

definition py_opt_int :: "int option \<Rightarrow> py_data" where
  "py_opt_int x = (case x of None \<Rightarrow> PyNone | Some n \<Rightarrow> PyInt n)"

definition source_location_to_data :: "source_location \<Rightarrow> py_data" where
  "source_location_to_data l =
     PyDict [(''source'', py_opt_str (map_option alias_value (loc_source l))),
             (''path'', py_opt_str (loc_path l)),
             (''pointer'', py_opt_str (loc_pointer l)),
             (''line'', py_opt_int (loc_line l)),
             (''column'', py_opt_int (loc_column l))]"

text \<open>\<open>dict(pairs)\<close>: a later pair with the same key replaces the value in place.\<close>

definition dict_of :: "('k \<times> 'v) list \<Rightarrow> ('k \<times> 'v) list" where
  "dict_of ps = fold (\<lambda>(k, v) d. dict_set k v d) ps []"

definition diagnostic_to_data :: "diagnostic \<Rightarrow> py_data" where
  "diagnostic_to_data d =
     PyDict ([(''code'', PyStr (diag_code d)),
              (''severity'', PyStr (severity_value (diag_severity d))),
              (''message'', PyStr (diag_message d)),
              (''location'', case diag_location d of None \<Rightarrow> PyNone
                             | Some l \<Rightarrow> source_location_to_data l),
              (''remediation'', PyList (map PyStr (diag_remediation d)))]
             @ (if diag_details d = [] then []
                else [(''details'',
                       PyDict (map (\<lambda>(k, v). (k, PyStr v)) (dict_of (diag_details d))))]))"

subsection \<open>The Result algebra\<close>

datatype 'a result = Ok 'a | Err "diagnostic list"

definition err_ctor :: "diagnostic list \<Rightarrow> 'a result py" where
  "err_ctor ds =
     (if ds = [] then Inl (ValueError ''Err requires at least one diagnostic'')
      else Inr (Err (sort_diagnostics ds)))"

text \<open>The constructor where the caller has already made sure that there is a diagnostic.\<close>

definition mk_err :: "diagnostic list \<Rightarrow> 'a result" where
  "mk_err ds = Err (sort_diagnostics ds)"

definition is_ok :: "'a result \<Rightarrow> bool" where
  "is_ok r \<longleftrightarrow> (case r of Ok _ \<Rightarrow> True | Err _ \<Rightarrow> False)"

definition is_err :: "'a result \<Rightarrow> bool" where
  "is_err r \<longleftrightarrow> (case r of Ok _ \<Rightarrow> False | Err _ \<Rightarrow> True)"

definition map_ok :: "'a result \<Rightarrow> ('a \<Rightarrow> 'b) \<Rightarrow> 'b result" where
  "map_ok r f = (case r of Ok v \<Rightarrow> Ok (f v) | Err ds \<Rightarrow> Err ds)"

definition bind_result :: "'a result \<Rightarrow> ('a \<Rightarrow> 'b result) \<Rightarrow> 'b result" where
  "bind_result r f = (case r of Ok v \<Rightarrow> f v | Err ds \<Rightarrow> Err ds)"

definition map_err :: "'a result \<Rightarrow> (diagnostic \<Rightarrow> diagnostic) \<Rightarrow> 'a result" where
  "map_err r f = (case r of Ok v \<Rightarrow> Ok v | Err ds \<Rightarrow> mk_err (map f ds))"

fun collect_loop ::
  "'a result list \<Rightarrow> 'a list \<Rightarrow> diagnostic list \<Rightarrow> 'a list \<times> diagnostic list" where
  "collect_loop [] values diagnostics = (values, diagnostics)"
| "collect_loop (Ok v # rs) values diagnostics = collect_loop rs (values @ [v]) diagnostics"
| "collect_loop (Err ds # rs) values diagnostics = collect_loop rs values (diagnostics @ ds)"

definition collect :: "'a result list \<Rightarrow> 'a list result" where
  "collect results =
     (case collect_loop results [] [] of (values, diagnostics) \<Rightarrow>
        if diagnostics \<noteq> [] then mk_err diagnostics else Ok values)"

text \<open>What the \<open>__post_init__\<close> of \<open>Err\<close> guarantees of every failure.\<close>

definition wf_result :: "'a result \<Rightarrow> bool" where
  "wf_result r \<longleftrightarrow>
     (case r of Ok _ \<Rightarrow> True | Err ds \<Rightarrow> ds \<noteq> [] \<and> sorted (map diagnostic_sort_key ds))"

subsection \<open>Sorted collections\<close>

definition sorted_values :: "('a \<Rightarrow> string) \<Rightarrow> 'a list \<Rightarrow> 'a list" where
  "sorted_values key values = sort_key key values"

definition upsert_sorted :: "('a \<Rightarrow> string) \<Rightarrow> 'a list \<Rightarrow> 'a \<Rightarrow> 'a list" where
  "upsert_sorted key values replacement =
     sorted_values key ([v \<leftarrow> values. key v \<noteq> key replacement] @ [replacement])"

definition remove_sorted :: "('a \<Rightarrow> string) \<Rightarrow> 'a list \<Rightarrow> string \<Rightarrow> 'a list" where
  "remove_sorted key values target = sorted_values key [v \<leftarrow> values. key v \<noteq> target]"

subsection \<open>Terminal outcomes\<close>

datatype terminal_status = CHANGED | CURRENT | SKIPPED | CONFLICTED | FAILED | CANCELLED

fun terminal_status_value :: "terminal_status \<Rightarrow> string" where
  "terminal_status_value CHANGED = ''changed''"
| "terminal_status_value CURRENT = ''current''"
| "terminal_status_value SKIPPED = ''skipped''"
| "terminal_status_value CONFLICTED = ''conflicted''"
| "terminal_status_value FAILED = ''failed''"
| "terminal_status_value CANCELLED = ''cancelled''"

datatype session_status = S_SUCCEEDED | S_PARTIAL | S_FAILED | S_CANCELLED

fun session_status_value :: "session_status \<Rightarrow> string" where
  "session_status_value S_SUCCEEDED = ''succeeded''"
| "session_status_value S_PARTIAL = ''partial''"
| "session_status_value S_FAILED = ''failed''"
| "session_status_value S_CANCELLED = ''cancelled''"

record terminal_item =
  item_key :: string
  item_status :: terminal_status
  item_diagnostics :: "diagnostic list"
  item_detail :: "string option"

definition mk_terminal_item ::
  "string \<Rightarrow> terminal_status \<Rightarrow> diagnostic list \<Rightarrow> string option \<Rightarrow> terminal_item" where
  "mk_terminal_item key status diagnostics detail =
     \<lparr>item_key = key, item_status = status,
      item_diagnostics = sort_diagnostics diagnostics, item_detail = detail\<rparr>"

record operation_outcome =
  out_operation :: string
  out_selected :: int
  out_items :: "terminal_item list"
  out_diagnostics :: "diagnostic list"
  out_remediation :: "string list"

definition mk_operation_outcome ::
  "string \<Rightarrow> int \<Rightarrow> terminal_item list \<Rightarrow> diagnostic list \<Rightarrow> string list
    \<Rightarrow> operation_outcome py" where
  "mk_operation_outcome operation selected items diagnostics remediation =
     (if selected < 0 then Inl (ValueError ''selected cannot be negative'')
      else Inr \<lparr>out_operation = operation, out_selected = selected,
                out_items = sort_key (\<lambda>i. (item_key i, terminal_status_value (item_status i))) items,
                out_diagnostics = sort_diagnostics diagnostics,
                out_remediation = sorted_set remediation\<rparr>)"

fun count_statuses :: "terminal_item list \<Rightarrow> (string \<times> int) list \<Rightarrow> (string \<times> int) list" where
  "count_statuses [] counts = counts"
| "count_statuses (i # is) counts =
     (let s = terminal_status_value (item_status i) in
      count_statuses is
        (dict_set s ((case dict_get counts s of None \<Rightarrow> 0 | Some n \<Rightarrow> n) + 1) counts))"

definition outcome_counts :: "operation_outcome \<Rightarrow> (string \<times> int) list" where
  "outcome_counts outcome = sort (count_statuses (out_items outcome) [])"

definition changed_count :: "operation_outcome \<Rightarrow> int" where
  "changed_count outcome = (\<Sum>i\<leftarrow>out_items outcome. if item_status i = CHANGED then 1 else 0)"

definition session_status :: "operation_outcome \<Rightarrow> session_status" where
  "session_status outcome =
     (let statuses = map item_status (out_items outcome);
          unsuccessful = (CONFLICTED \<in> set statuses \<or> FAILED \<in> set statuses)
                         \<or> list_ex is_error (out_diagnostics outcome);
          successful = (CHANGED \<in> set statuses \<or> CURRENT \<in> set statuses)
      in if unsuccessful \<and> successful then S_PARTIAL
         else if unsuccessful then S_FAILED
         else if CANCELLED \<in> set statuses then (if successful then S_PARTIAL else S_CANCELLED)
         else S_SUCCEEDED)"

definition terminal_item_to_data :: "terminal_item \<Rightarrow> py_data" where
  "terminal_item_to_data i =
     PyDict [(''key'', PyStr (item_key i)),
             (''status'', PyStr (terminal_status_value (item_status i))),
             (''detail'', py_opt_str (item_detail i)),
             (''diagnostics'', PyList (map diagnostic_to_data (item_diagnostics i)))]"

definition operation_outcome_to_data :: "operation_outcome \<Rightarrow> py_data" where
  "operation_outcome_to_data outcome =
     PyDict [(''schema_version'', PyInt 1),
             (''operation'', PyStr (out_operation outcome)),
             (''outcome'', PyStr (session_status_value (session_status outcome))),
             (''selected'', PyInt (out_selected outcome)),
             (''changed'', PyInt (changed_count outcome)),
             (''counts'', PyDict (map (\<lambda>(k, n). (k, PyInt n)) (outcome_counts outcome))),
             (''items'', PyList (map terminal_item_to_data (out_items outcome))),
             (''diagnostics'', PyList (map diagnostic_to_data (out_diagnostics outcome))),
             (''remediation'', PyList (map PyStr (out_remediation outcome)))]"

subsection \<open>Diagnostics: canonical order\<close>

lemma sort_diagnostics_Nil [simp]: "sort_diagnostics ds = [] \<longleftrightarrow> ds = []"
  by (simp add: sort_diagnostics_def) (metis length_0_conv length_sort)

lemma set_sort_diagnostics [simp]: "set (sort_diagnostics ds) = set ds"
  by (simp add: sort_diagnostics_def)

lemma mset_sort_diagnostics [simp]: "mset (sort_diagnostics ds) = mset ds"
  by (simp add: sort_diagnostics_def)

lemma sorted_sort_diagnostics [simp]: "sorted (map diagnostic_sort_key (sort_diagnostics ds))"
  by (simp add: sort_diagnostics_def)

lemma sort_diagnostics_idem [simp]: "sort_diagnostics (sort_diagnostics ds) = sort_diagnostics ds"
  by (simp add: sort_diagnostics_def)

lemma sort_diagnostics_single [simp]: "sort_diagnostics [d] = [d]"
  by (simp add: sort_diagnostics_def)

lemma sort_diagnostics_sorted: "sorted (map diagnostic_sort_key ds) \<Longrightarrow> sort_diagnostics ds = ds"
  by (simp add: sort_diagnostics_def sort_key_id_if_sorted)

lemma mk_diagnostic_sel [simp]:
  "diag_code (mk_diagnostic c s m l r ds) = c"
  "diag_severity (mk_diagnostic c s m l r ds) = s"
  "diag_message (mk_diagnostic c s m l r ds) = m"
  "diag_location (mk_diagnostic c s m l r ds) = l"
  by (simp_all add: mk_diagnostic_def)

lemma is_error_mk_diagnostic [simp]: "is_error (mk_diagnostic c s m l r ds) \<longleftrightarrow> s = ERROR"
  by (simp add: is_error_def)

text \<open>
  Two different locations can have the same key (a location with no field set and no location;
  an empty and an absent path). The emitted diagnostics never have such a location: a field is
  set to a real value or not at all.
\<close>

definition plain_location :: "source_location \<Rightarrow> bool" where
  "plain_location l \<longleftrightarrow>
     loc_source l \<noteq> Some (SourceAlias '''') \<and> loc_path l \<noteq> Some '''' \<and> loc_pointer l \<noteq> Some ''''
     \<and> loc_line l \<noteq> Some (- 1) \<and> loc_column l \<noteq> Some (- 1)
     \<and> (loc_source l, loc_path l, loc_pointer l, loc_line l, loc_column l)
         \<noteq> (None, None, None, None, None)"

definition plain_diagnostic :: "diagnostic \<Rightarrow> bool" where
  "plain_diagnostic d \<longleftrightarrow> (case diag_location d of None \<Rightarrow> True | Some l \<Rightarrow> plain_location l)"

lemma or_empty_inj: "or_empty x = or_empty y \<Longrightarrow> x \<noteq> Some '''' \<Longrightarrow> y \<noteq> Some '''' \<Longrightarrow> x = y"
  by (auto simp: or_empty_def split: option.splits)

lemma or_minus_one_inj:
  "or_minus_one x = or_minus_one y \<Longrightarrow> x \<noteq> Some (- 1) \<Longrightarrow> y \<noteq> Some (- 1) \<Longrightarrow> x = y"
  by (auto simp: or_minus_one_def split: option.splits)

lemma alias_text_inj:
  "(case a of None \<Rightarrow> '''' | Some x \<Rightarrow> alias_value x) = (case b of None \<Rightarrow> '''' | Some x \<Rightarrow> alias_value x)
    \<Longrightarrow> a \<noteq> Some (SourceAlias '''') \<Longrightarrow> b \<noteq> Some (SourceAlias '''') \<Longrightarrow> a = b"
  by (cases a; cases b) (auto, (metis source_alias.collapse)+)

lemma location_key_inj:
  assumes "location_key a = location_key b"
    and "case a of None \<Rightarrow> True | Some l \<Rightarrow> plain_location l"
    and "case b of None \<Rightarrow> True | Some l \<Rightarrow> plain_location l"
  shows "a = b"
proof -
  have fields: "loc_source l = loc_source m \<and> loc_path l = loc_path m \<and> loc_pointer l = loc_pointer m
      \<and> loc_line l = loc_line m \<and> loc_column l = loc_column m"
    if "location_key (Some l) = location_key (Some m)" "plain_location l" "plain_location m" for l m
    using that alias_text_inj or_empty_inj or_minus_one_inj
    by (simp add: location_key_def plain_location_def)
  have blank: "\<not> plain_location l" if "location_key (Some l) = location_key None" for l
    using that alias_text_inj[of "loc_source l" None] or_empty_inj[of "loc_path l" None]
      or_empty_inj[of "loc_pointer l" None] or_minus_one_inj[of "loc_line l" None]
      or_minus_one_inj[of "loc_column l" None]
    by (auto simp: location_key_def plain_location_def or_empty_def or_minus_one_def)
  show ?thesis
  proof (cases a; cases b)
    fix l m assume ab: "a = Some l" "b = Some m"
    with fields[of l m] assms show ?thesis by (simp add: source_location.equality)
  qed (use assms blank in auto)
qed

lemma severity_value_inj: "severity_value a = severity_value b \<Longrightarrow> a = b"
  by (cases a; cases b) simp_all

lemma diagnostic_sort_key_inj: "inj_on diagnostic_sort_key {d. plain_diagnostic d}"
proof (rule inj_onI)
  fix a b
  assume "a \<in> {d. plain_diagnostic d}" "b \<in> {d. plain_diagnostic d}"
    and key: "diagnostic_sort_key a = diagnostic_sort_key b"
  then have "diag_location a = diag_location b"
    by (auto simp: diagnostic_sort_key_def plain_diagnostic_def intro!: location_key_inj)
  with key show "a = b"
    by (auto simp: diagnostic_sort_key_def intro!: diagnostic.equality severity_value_inj)
qed

text \<open>
  The order in which a computation reports its diagnostics does not matter: for the same
  multiset of diagnostics (with locations that set at least one field to a real value)
  \<open>sort_diagnostics\<close> returns the same tuple, and it is sorted by the diagnostic key.
\<close>

theorem sort_diagnostics_canonical:
  assumes "mset xs = mset ys" and "list_all plain_diagnostic xs"
  shows "sort_diagnostics xs = sort_diagnostics ys
    \<and> sorted (map diagnostic_sort_key (sort_diagnostics xs)) \<and> mset (sort_diagnostics xs) = mset xs"
proof -
  have "inj_on diagnostic_sort_key (set xs)"
    using diagnostic_sort_key_inj assms(2) by (auto simp: list_all_iff intro: inj_on_subset)
  with assms(1) have "sort_diagnostics xs = sort_diagnostics ys"
    unfolding sort_diagnostics_def by (rule sort_key_perm_unique)
  with assms(1) show ?thesis by simp
qed

theorem sort_diagnostics_canonical_witness:
  "sort_diagnostics [error_diagnostic ''b'' ''x'', error_diagnostic ''a'' ''y''] =
   sort_diagnostics [error_diagnostic ''a'' ''y'', error_diagnostic ''b'' ''x'']"
  using sort_diagnostics_canonical
    [of "[error_diagnostic ''b'' ''x'', error_diagnostic ''a'' ''y'']"
        "[error_diagnostic ''a'' ''y'', error_diagnostic ''b'' ''x'']"]
  by (simp add: plain_diagnostic_def)

subsection \<open>Result: laws\<close>

lemma wf_mk_err [simp]: "wf_result (mk_err ds :: 'a result) \<longleftrightarrow> ds \<noteq> []"
  by (simp add: wf_result_def mk_err_def)

lemma wf_Ok [simp]: "wf_result (Ok v)"
  by (simp add: wf_result_def)

lemma err_ctor_mk_err: "ds \<noteq> [] \<Longrightarrow> err_ctor ds = Inr (mk_err ds)"
  by (simp add: err_ctor_def mk_err_def)

lemma mk_err_not_Ok [simp]: "mk_err ds \<noteq> Ok v" "Ok v \<noteq> mk_err ds"
  by (simp_all add: mk_err_def)

lemma wf_bind_result: "wf_result r \<Longrightarrow> (\<And>v. r = Ok v \<Longrightarrow> wf_result (f v)) \<Longrightarrow> wf_result (bind_result r f)"
  by (auto simp: bind_result_def wf_result_def split: result.splits)

lemma wf_map_err: "wf_result r \<Longrightarrow> wf_result (map_err r f)"
  by (cases r) (simp_all add: map_err_def wf_result_def mk_err_def)

lemma bind_result_assoc:
  "bind_result (bind_result r f) g = bind_result r (\<lambda>v. bind_result (f v) g)"
  by (simp add: bind_result_def split: result.splits)

lemma is_ok_is_err_simps [simp]:
  "is_ok (Ok v)" "\<not> is_ok (Err ds)" "is_err (Err ds)" "\<not> is_err (Ok v)"
  by (simp_all add: is_ok_def is_err_def)

lemma is_err_iff: "is_err r \<longleftrightarrow> \<not> is_ok r"
  by (cases r) simp_all

definition err_list :: "'a result \<Rightarrow> diagnostic list" where
  "err_list r = (case r of Ok _ \<Rightarrow> [] | Err ds \<Rightarrow> ds)"

definition ok_list :: "'a result \<Rightarrow> 'a list" where
  "ok_list r = (case r of Ok v \<Rightarrow> [v] | Err _ \<Rightarrow> [])"

lemma err_ok_list_simps [simp]:
  "err_list (Ok v) = []" "err_list (Err ds) = ds" "ok_list (Ok v) = [v]" "ok_list (Err ds) = []"
  by (simp_all add: err_list_def ok_list_def)

lemma collect_loop_eq:
  "collect_loop rs vs ds = (vs @ concat (map ok_list rs), ds @ concat (map err_list rs))"
  by (induction rs vs ds rule: collect_loop.induct) auto

lemma all_ok_values: "list_all is_ok rs \<Longrightarrow> map Ok (concat (map ok_list rs)) = rs"
proof (induction rs)
  case (Cons r rs)
  then show ?case by (cases r) auto
qed simp

lemma failures_Nil_iff:
  "list_all wf_result rs \<Longrightarrow> concat (map err_list rs) = [] \<longleftrightarrow> list_all is_ok rs"
proof (induction rs)
  case (Cons r rs)
  then show ?case by (cases r) (auto simp: wf_result_def)
qed simp

text \<open>
  \<open>collect\<close> is all or nothing and loses no failure: it succeeds exactly when every result
  succeeded, then with all the values in order; otherwise it reports the diagnostics of every
  failed result, sorted, and that failure is again well formed.
\<close>

theorem collect_all_or_every_failure:
  assumes wf: "list_all wf_result rs"
  shows "(collect rs = Ok vs \<longleftrightarrow> rs = map Ok vs)
    \<and> (list_ex is_err rs \<longrightarrow> collect rs = Err (sort_diagnostics (concat (map err_list rs))))
    \<and> wf_result (collect rs)"
proof (cases "list_all is_ok rs")
  case True
  then have ok: "map Ok (concat (map ok_list rs)) = rs" by (rule all_ok_values)
  have c: "collect rs = Ok (concat (map ok_list rs))"
    using True wf by (simp add: collect_def collect_loop_eq failures_Nil_iff del: concat_eq_Nil_conv)
  have "inj Ok" by (simp add: inj_def)
  with ok have "concat (map ok_list rs) = vs \<longleftrightarrow> rs = map Ok vs"
    by (metis inj_map_eq_map)
  with c True show ?thesis
    by (auto simp: list_ex_iff list_all_iff is_err_iff)
next
  case False
  then have "rs \<noteq> map Ok vs" by (auto simp: list_all_iff)
  moreover have "collect rs = mk_err (concat (map err_list rs))"
    using False wf by (simp add: collect_def collect_loop_eq failures_Nil_iff del: concat_eq_Nil_conv)
  moreover have "concat (map err_list rs) \<noteq> []"
    using False wf failures_Nil_iff by blast
  ultimately show ?thesis by (simp add: mk_err_def wf_result_def)
qed

theorem collect_all_or_every_failure_witness:
  "collect [Ok (1::nat), mk_err [error_diagnostic ''c'' ''m'']] =
     Err [error_diagnostic ''c'' ''m'']"
  using collect_all_or_every_failure
    [of "[Ok (1::nat), mk_err [error_diagnostic ''c'' ''m'']]" "[]"]
  by (simp add: mk_err_def wf_result_def)

subsection \<open>Sorted collections implement keyed tables\<close>

text \<open>
  The contract of a collection that holds at most one value per key: what a lookup returns after
  an update, that the representation invariant is kept, and that a table is determined by its
  lookups. The clients (configuration, installation state) use only these laws.
\<close>

locale keyed_table =
  fixes key :: "'a \<Rightarrow> string"
    and upsert :: "'t \<Rightarrow> 'a \<Rightarrow> 't"
    and remove :: "'t \<Rightarrow> string \<Rightarrow> 't"
    and find :: "'t \<Rightarrow> string \<Rightarrow> 'a option"
    and invar :: "'t \<Rightarrow> bool"
  assumes find_upsert: "invar t \<Longrightarrow> find (upsert t v) k = (if k = key v then Some v else find t k)"
    and find_remove: "invar t \<Longrightarrow> find (remove t j) k = (if k = j then None else find t k)"
    and invar_upsert: "invar t \<Longrightarrow> invar (upsert t v)"
    and invar_remove: "invar t \<Longrightarrow> invar (remove t j)"
    and ext: "invar s \<Longrightarrow> invar t \<Longrightarrow> (\<And>k. find s k = find t k) \<Longrightarrow> s = t"
begin

lemma upsert_overwrites: "invar t \<Longrightarrow> key v = key w \<Longrightarrow> upsert (upsert t v) w = upsert t w"
  by (rule ext) (simp_all add: find_upsert invar_upsert)

lemma upsert_commute:
  "invar t \<Longrightarrow> key v \<noteq> key w \<Longrightarrow> upsert (upsert t v) w = upsert (upsert t w) v"
  by (rule ext) (simp_all add: find_upsert invar_upsert)

lemma remove_upsert: "invar t \<Longrightarrow> remove (upsert t v) (key v) = remove t (key v)"
  by (rule ext) (simp_all add: find_upsert find_remove invar_upsert invar_remove)

lemma upsert_present: "invar t \<Longrightarrow> find t (key v) = Some v \<Longrightarrow> upsert t v = t"
  by (rule ext) (simp_all add: find_upsert invar_upsert)

lemma remove_absent: "invar t \<Longrightarrow> find t j = None \<Longrightarrow> remove t j = t"
  by (rule ext) (simp_all add: find_remove invar_remove)

lemma remove_commute: "invar t \<Longrightarrow> remove (remove t i) j = remove (remove t j) i"
  by (rule ext) (simp_all add: find_remove invar_remove)

end

definition table_find :: "('a \<Rightarrow> string) \<Rightarrow> 'a list \<Rightarrow> string \<Rightarrow> 'a option" where
  "table_find key xs k = List.find (\<lambda>v. key v = k) xs"

definition table_invar :: "('a \<Rightarrow> string) \<Rightarrow> 'a list \<Rightarrow> bool" where
  "table_invar key xs \<longleftrightarrow> sorted (map key xs) \<and> distinct (map key xs)"

lemma table_invar_distinct: "table_invar key xs \<Longrightarrow> distinct (map key xs)"
  by (simp add: table_invar_def)

lemma table_invar_inj: "table_invar key xs \<Longrightarrow> inj_on key (set xs)"
  by (simp add: table_invar_def distinct_map)

lemma table_find_iff:
  "distinct (map key xs) \<Longrightarrow> table_find key xs k = Some v \<longleftrightarrow> v \<in> set xs \<and> key v = k"
proof (induction xs)
  case (Cons x xs)
  then show ?case by (auto simp: table_find_def)
qed (simp add: table_find_def)

lemma table_find_None: "table_find key xs k = None \<longleftrightarrow> k \<notin> key ` set xs"
  by (auto simp: table_find_def find_None_iff)

lemma distinct_map_sort_key [simp]: "distinct (map key (sort_key f xs)) = distinct (map key xs)"
  by (metis mset_map mset_sort mset_eq_imp_distinct_iff)

lemma invar_upsert_sorted: "table_invar key xs \<Longrightarrow> table_invar key (upsert_sorted key xs v)"
  by (auto simp: table_invar_def upsert_sorted_def sorted_values_def distinct_map_filter)

lemma invar_remove_sorted: "table_invar key xs \<Longrightarrow> table_invar key (remove_sorted key xs j)"
  by (simp add: table_invar_def remove_sorted_def sorted_values_def distinct_map_filter)

lemma find_upsert_sorted:
  assumes "table_invar key xs"
  shows "table_find key (upsert_sorted key xs v) k =
    (if k = key v then Some v else table_find key xs k)"
proof -
  have "distinct (map key (upsert_sorted key xs v))" "distinct (map key xs)"
    using assms by (simp_all add: table_invar_distinct invar_upsert_sorted)
  moreover have "set (upsert_sorted key xs v) = insert v {x \<in> set xs. key x \<noteq> key v}"
    by (auto simp: upsert_sorted_def sorted_values_def)
  ultimately have "table_find key (upsert_sorted key xs v) k = Some y \<longleftrightarrow>
      (if k = key v then Some v else table_find key xs k) = Some y" for y
    by (auto simp: table_find_iff)
  then show ?thesis by (metis option.exhaust)
qed

lemma find_remove_sorted:
  assumes "table_invar key xs"
  shows "table_find key (remove_sorted key xs j) k = (if k = j then None else table_find key xs k)"
proof -
  have "distinct (map key (remove_sorted key xs j))" "distinct (map key xs)"
    using assms by (simp_all add: table_invar_distinct invar_remove_sorted)
  moreover have "set (remove_sorted key xs j) = {x \<in> set xs. key x \<noteq> j}"
    by (auto simp: remove_sorted_def sorted_values_def)
  ultimately have "table_find key (remove_sorted key xs j) k = Some y \<longleftrightarrow>
      (if k = j then None else table_find key xs k) = Some y" for y
    by (auto simp: table_find_iff)
  then show ?thesis by (metis option.exhaust)
qed

lemma table_find_ext:
  assumes "table_invar key xs" "table_invar key ys" "\<And>k. table_find key xs k = table_find key ys k"
  shows "xs = ys"
proof -
  have mem: "x \<in> set zs \<longleftrightarrow> table_find key zs (key x) = Some x" if "table_invar key zs" for x zs
    using that by (simp add: table_find_iff table_invar_distinct)
  have "set xs = set ys"
    by (rule set_eqI) (simp only: mem[OF assms(1)] mem[OF assms(2)] assms(3))
  moreover have "distinct xs" "distinct ys"
    using assms(1,2) by (auto simp: table_invar_def distinct_map)
  ultimately have "mset xs = mset ys" by (simp add: set_eq_iff_mset_eq_distinct)
  then have "sort_key key xs = sort_key key ys"
    using table_invar_inj[OF assms(1)] by (rule sort_key_perm_unique)
  with assms(1,2) show ?thesis
    by (simp add: table_invar_def sort_key_id_if_sorted)
qed

interpretation sorted_tab: keyed_table key "upsert_sorted key" "remove_sorted key"
  "table_find key" "table_invar key" for key :: "'a \<Rightarrow> string"
  by unfold_locales
    (simp_all add: find_upsert_sorted find_remove_sorted invar_upsert_sorted invar_remove_sorted
      table_find_ext)

text \<open>
  C39. The sorted tuples kept by \<open>upsert_sorted\<close> and \<open>remove_sorted\<close> are keyed tables: on a
  tuple sorted by key without duplicate keys, updates keep that invariant, a lookup after an
  upsert or a removal returns what a dictionary would, and updates of different keys commute, so
  the tuple does not depend on the order of the updates.
\<close>

theorem sorted_collection_is_table:
  assumes "table_invar key xs" and "key v \<noteq> key w"
  shows "table_invar key (upsert_sorted key xs v) \<and> table_invar key (remove_sorted key xs j)
    \<and> table_find key (upsert_sorted key xs v) k = (if k = key v then Some v else table_find key xs k)
    \<and> table_find key (remove_sorted key xs j) k = (if k = j then None else table_find key xs k)
    \<and> upsert_sorted key (upsert_sorted key xs v) w = upsert_sorted key (upsert_sorted key xs w) v
    \<and> remove_sorted key (upsert_sorted key xs v) (key v) = remove_sorted key xs (key v)"
  using assms by (simp add: sorted_tab.invar_upsert sorted_tab.invar_remove sorted_tab.find_upsert
    sorted_tab.find_remove sorted_tab.upsert_commute[of key xs v w] sorted_tab.remove_upsert)

theorem sorted_collection_is_table_witness:
  "upsert_sorted id (upsert_sorted id [''b''] ''a'') ''c'' =
   upsert_sorted id (upsert_sorted id [''b''] ''c'') ''a''"
  using sorted_collection_is_table[of id "[''b'']" "''a''" "''c''" "''b''" "''a''"]
  by (simp add: table_invar_def)

subsection \<open>Outcomes: counting\<close>

lemma count_statuses_lookup:
  "(case dict_get (count_statuses is counts) s of None \<Rightarrow> 0 | Some n \<Rightarrow> n) =
   (case dict_get counts s of None \<Rightarrow> 0 | Some n \<Rightarrow> n)
     + int (length [i \<leftarrow> is. terminal_status_value (item_status i) = s])"
  by (induction "is" counts rule: count_statuses.induct)
    (auto simp: Let_def update_conv' split: option.splits)

lemma count_statuses_keys:
  "set (dict_keys (count_statuses is counts)) =
     set (dict_keys counts) \<union> (\<lambda>i. terminal_status_value (item_status i)) ` set is"
  by (induction "is" counts rule: count_statuses.induct) (auto simp: Let_def)

lemma count_statuses_distinct:
  "distinct (dict_keys counts) \<Longrightarrow> distinct (dict_keys (count_statuses is counts))"
  by (induction "is" counts rule: count_statuses.induct) (simp_all add: Let_def)

lemma map_of_sort:
  assumes "distinct (dict_keys d)"
  shows "dict_get (sort d) k = dict_get d k"
  by (metis assms distinct_map_sort_key map_of_inject_set set_sort)

lemma sum_list_count: "(\<Sum>x\<leftarrow>xs. if P x then 1 else 0) = int (length (filter P xs))"
  by (induction xs) simp_all

text \<open>
  \<open>outcome_counts\<close> counts: it lists a status exactly when some item has it, then with the
  number of items that have it, once per status and in the order of the status names;
  \<open>changed_count\<close> is the count of the status \<open>changed\<close>.
\<close>

theorem outcome_counts_exact:
  "(dict_get (outcome_counts outcome) s = Some n \<longleftrightarrow>
      n = int (length [i \<leftarrow> out_items outcome. terminal_status_value (item_status i) = s]) \<and> 0 < n)
   \<and> sorted (dict_keys (outcome_counts outcome)) \<and> distinct (dict_keys (outcome_counts outcome))
   \<and> changed_count outcome = int (length [i \<leftarrow> out_items outcome. item_status i = CHANGED])"
proof -
  let ?c = "count_statuses (out_items outcome) []"
  have d: "distinct (dict_keys ?c)" by (simp add: count_statuses_distinct)
  have v: "(case dict_get ?c s of None \<Rightarrow> 0 | Some n \<Rightarrow> n) =
      int (length [i \<leftarrow> out_items outcome. terminal_status_value (item_status i) = s])"
    by (simp add: count_statuses_lookup)
  have k: "dict_get ?c s \<noteq> None \<longleftrightarrow>
      0 < length [i \<leftarrow> out_items outcome. terminal_status_value (item_status i) = s]"
    using count_statuses_keys[of "out_items outcome" "[]"]
    by (auto simp: map_of_eq_None_iff filter_empty_conv)
  have "dict_get (outcome_counts outcome) s = dict_get ?c s"
    unfolding outcome_counts_def by (rule map_of_sort[OF d])
  with v k have "dict_get (outcome_counts outcome) s = Some n \<longleftrightarrow>
      n = int (length [i \<leftarrow> out_items outcome. terminal_status_value (item_status i) = s]) \<and> 0 < n"
    by (cases "dict_get ?c s") auto
  moreover have "sorted (dict_keys (outcome_counts outcome))"
    unfolding outcome_counts_def by (rule sorted_map_mono[where f = fst]) (auto simp: mono_on_def)
  moreover have "distinct (dict_keys (outcome_counts outcome))"
    using d by (simp add: outcome_counts_def)
  moreover have "changed_count outcome = int (length [i \<leftarrow> out_items outcome. item_status i = CHANGED])"
    by (simp add: changed_count_def sum_list_count)
  ultimately show ?thesis by blast
qed

end
