(* ===== verification/Bytes.thy ===== *)
theory Bytes
  imports Prelude "HOL-Library.Word"
begin

text \<open>
  Byte strings of the source as lists of \<open>8 word\<close>, with the standard library's conversions
  between text, integers and bytes: UTF-8, fixed-width big-endian integers and hexadecimal.
\<close>

type_synonym byte = "8 word"
type_synonym bytes = "byte list"

subsection \<open>UTF-8\<close>

text \<open>\<open>s.encode("utf-8")\<close> for code points up to U+00FF: one or two bytes each.\<close>

definition utf8_char :: "char \<Rightarrow> bytes" where
  "utf8_char c =
     (let n = (of_char c :: nat) in
      if n < 0x80 then [of_nat n] else [of_nat (0xC0 + n div 64), of_nat (0x80 + n mod 64)])"

definition utf8_encode :: "string \<Rightarrow> bytes" where
  "utf8_encode s = concat (map utf8_char s)"

text \<open>
  \<open>data.decode("utf-8", errors="strict")\<close>: the code points, or \<open>None\<close> for
  \<open>UnicodeDecodeError\<close> (overlong forms, surrogates and truncated sequences included).
\<close>

definition is_cont :: "nat \<Rightarrow> bool" where
  "is_cont b \<longleftrightarrow> 0x80 \<le> b \<and> b \<le> 0xBF"

fun utf8_points :: "nat list \<Rightarrow> nat list option" where
  "utf8_points [] = Some []"
| "utf8_points (b # bs) =
     (if b < 0x80 then map_option ((#) b) (utf8_points bs)
      else if 0xC2 \<le> b \<and> b \<le> 0xDF then
        (case bs of
           c # cs \<Rightarrow> if is_cont c then map_option ((#) ((b - 0xC0) * 64 + (c - 0x80))) (utf8_points cs)
                     else None
         | [] \<Rightarrow> None)
      else if 0xE0 \<le> b \<and> b \<le> 0xEF then
        (case bs of
           c # d # cs \<Rightarrow>
             if is_cont c \<and> is_cont d \<and> (b = 0xE0 \<longrightarrow> 0xA0 \<le> c) \<and> (b = 0xED \<longrightarrow> c \<le> 0x9F)
             then map_option ((#) ((b - 0xE0) * 4096 + (c - 0x80) * 64 + (d - 0x80))) (utf8_points cs)
             else None
         | _ \<Rightarrow> None)
      else if 0xF0 \<le> b \<and> b \<le> 0xF4 then
        (case bs of
           c # d # e # cs \<Rightarrow>
             if is_cont c \<and> is_cont d \<and> is_cont e \<and> (b = 0xF0 \<longrightarrow> 0x90 \<le> c) \<and> (b = 0xF4 \<longrightarrow> c \<le> 0x8F)
             then map_option ((#) ((b - 0xF0) * 262144 + (c - 0x80) * 4096 + (d - 0x80) * 64 + (e - 0x80)))
                    (utf8_points cs)
             else None
         | _ \<Rightarrow> None)
      else None)"

datatype decoded = Text string | DecodeError | BeyondLatin

definition utf8_decode :: "bytes \<Rightarrow> decoded" where
  "utf8_decode bs =
     (case utf8_points (map unat bs) of
        None \<Rightarrow> DecodeError
      | Some ps \<Rightarrow> if list_all (\<lambda>p. p < 256) ps then Text (map char_of ps) else BeyondLatin)"

lemma unat_of_nat_byte [simp]: "n < 256 \<Longrightarrow> unat (of_nat n :: byte) = n"
  by (simp add: unat_of_nat)

lemma unat_byte_less: "unat (b :: byte) < 256"
  using unsigned_less[of b] by simp

lemma utf8_points_char:
  "utf8_points (map unat (utf8_char c) @ bs) = map_option ((#) (of_char c)) (utf8_points bs)"
proof -
  let ?n = "of_char c :: nat"
  have n: "?n < 256" by (rule nat_of_char_less_256)
  show ?thesis
  proof (cases "?n < 128")
    case True
    then show ?thesis using n by (simp add: utf8_char_def)
  next
    case False
    have b: "?n div 64 = 2 \<or> ?n div 64 = 3" using n False by linarith
    then have "192 + ?n div 64 < 256" "\<not> 192 + ?n div 64 < 128" "194 \<le> 192 + ?n div 64"
      "192 + ?n div 64 \<le> 223" by linarith+
    moreover have "?n mod 64 < 64" by simp
    then have "128 + ?n mod 64 < 256" "is_cont (128 + ?n mod 64)"
      unfolding is_cont_def by linarith+
    ultimately have u: "map unat (utf8_char c) = [192 + ?n div 64, 128 + ?n mod 64]"
      using False by (simp add: utf8_char_def Let_def del: of_nat_add)
    have "(192 + ?n div 64 - 192) * 64 + (128 + ?n mod 64 - 128) = ?n" by simp
    with \<open>is_cont (128 + ?n mod 64)\<close> b show ?thesis
      unfolding u by auto
  qed
qed

lemma utf8_points_encode: "utf8_points (map unat (utf8_encode s)) = Some (map of_char s)"
  by (induction s) (simp_all add: utf8_encode_def utf8_points_char)

lemma utf8_decode_encode [simp]: "utf8_decode (utf8_encode s) = Text s"
  by (simp add: utf8_decode_def utf8_points_encode list_all_iff o_def)

lemma utf8_encode_inj [simp]: "utf8_encode s = utf8_encode t \<longleftrightarrow> s = t"
  by (metis decoded.inject utf8_decode_encode)

lemma utf8_encode_append [simp]: "utf8_encode (s @ t) = utf8_encode s @ utf8_encode t"
  by (simp add: utf8_encode_def)

subsection \<open>Fixed-width integers\<close>

text \<open>\<open>n.to_bytes(8, "big")\<close>; Python raises \<open>OverflowError\<close> when \<open>n\<close> does not fit.\<close>

primrec to_bytes_be :: "nat \<Rightarrow> nat \<Rightarrow> bytes" where
  "to_bytes_be 0 n = []"
| "to_bytes_be (Suc w) n = to_bytes_be w (n div 256) @ [of_nat (n mod 256)]"

definition from_bytes_be :: "bytes \<Rightarrow> nat" where
  "from_bytes_be bs = foldl (\<lambda>a b. a * 256 + unat b) 0 bs"

lemma length_to_bytes_be [simp]: "length (to_bytes_be w n) = w"
  by (induction w arbitrary: n) simp_all

lemma from_to_bytes_be: "from_bytes_be (to_bytes_be w n) = n mod 256 ^ w"
proof (induction w arbitrary: n)
  case (Suc w)
  have "from_bytes_be (to_bytes_be (Suc w) n) = n div 256 mod 256 ^ w * 256 + n mod 256"
    using Suc.IH[of "n div 256"] by (simp add: from_bytes_be_def)
  also have "\<dots> = n mod 256 ^ Suc w"
    by (metis mod_mult2_eq mult.commute power_Suc)
  finally show ?case .
qed (simp add: from_bytes_be_def)

lemma to_bytes_be_inj:
  "m < 256 ^ w \<Longrightarrow> n < 256 ^ w \<Longrightarrow> to_bytes_be w m = to_bytes_be w n \<longleftrightarrow> m = n"
  by (metis from_to_bytes_be mod_less)

subsection \<open>Hexadecimal\<close>

definition hex_val :: "char \<Rightarrow> nat" where
  "hex_val c = (if is_digit c then of_char c - 48 else of_char c - 87)"

text \<open>\<open>bytes.fromhex\<close> on a text of lower-case hexadecimal digits of even length.\<close>

fun from_hex :: "string \<Rightarrow> bytes" where
  "from_hex (a # b # s) = of_nat (hex_val a * 16 + hex_val b) # from_hex s"
| "from_hex _ = []"

definition hex_byte :: "byte \<Rightarrow> string" where
  "hex_byte b = [hex_digit (unat b div 16), hex_digit (unat b mod 16)]"

definition to_hex :: "bytes \<Rightarrow> string" where
  "to_hex bs = concat (map hex_byte bs)"

lemma is_lower_hex_cases:
  "is_lower_hex c \<longleftrightarrow> (48 \<le> (of_char c :: nat) \<and> of_char c \<le> (57 :: nat))
      \<or> (97 \<le> (of_char c :: nat) \<and> of_char c \<le> (102 :: nat))"
  by (simp add: py_simps less_eq_char_def)

lemma hex_val_less: "is_lower_hex c \<Longrightarrow> hex_val c < 16"
  unfolding is_lower_hex_cases hex_val_def is_digit_of_char by auto

lemma hex_digit_val: "is_lower_hex c \<Longrightarrow> hex_digit (hex_val c) = c"
  unfolding is_lower_hex_cases hex_val_def is_digit_of_char hex_digit_def by auto

lemma is_lower_hex_digit: "n < 16 \<Longrightarrow> is_lower_hex (hex_digit n)"
  unfolding is_lower_hex_cases hex_digit_def by auto

lemma to_from_hex: "list_all is_lower_hex s \<Longrightarrow> even (length s) \<Longrightarrow> to_hex (from_hex s) = s"
proof (induction s rule: from_hex.induct)
  case (1 a b s)
  have "hex_val a < 16" "hex_val b < 16" using 1 by (simp_all add: hex_val_less)
  then have "hex_val a * 16 + hex_val b < 256" "(hex_val a * 16 + hex_val b) div 16 = hex_val a"
    "(hex_val a * 16 + hex_val b) mod 16 = hex_val b" by auto
  with 1 show ?case
    by (simp add: to_hex_def hex_byte_def hex_digit_val del: of_nat_add of_nat_mult)
qed (simp_all add: to_hex_def)

lemma from_hex_inj:
  "list_all is_lower_hex s \<Longrightarrow> list_all is_lower_hex t \<Longrightarrow> even (length s) \<Longrightarrow> even (length t)
    \<Longrightarrow> from_hex s = from_hex t \<longleftrightarrow> s = t"
  by (metis to_from_hex)

lemma length_from_hex: "length (from_hex s) = length s div 2"
  by (induction s rule: from_hex.induct) simp_all

lemma to_hex_hex: "list_all is_lower_hex (to_hex bs)"
proof (induction bs)
  case (Cons b bs)
  have "unat b < 256" by (rule unat_byte_less)
  then have "unat b div 16 < 16" "unat b mod 16 < 16" by auto
  with Cons show ?case by (simp add: to_hex_def hex_byte_def is_lower_hex_digit)
qed (simp add: to_hex_def)

lemma length_to_hex [simp]: "length (to_hex bs) = 2 * length bs"
  by (induction bs) (simp_all add: to_hex_def hex_byte_def)

lemma hex_val_digit: "n < 16 \<Longrightarrow> hex_val (hex_digit n) = n"
  unfolding hex_val_def hex_digit_def is_digit_of_char by auto

lemma hex_digit_inj: "m < 16 \<Longrightarrow> n < 16 \<Longrightarrow> hex_digit m = hex_digit n \<longleftrightarrow> m = n"
  by (metis hex_val_digit)

lemma to_hex_inj: "to_hex a = to_hex b \<longleftrightarrow> a = b"
proof
  show "to_hex a = to_hex b \<Longrightarrow> a = b"
  proof (induction a arbitrary: b)
    case Nil
    then show ?case by (cases b) (simp_all add: to_hex_def hex_byte_def)
  next
    case (Cons x a)
    then obtain y b' where b: "b = y # b'" by (cases b) (auto simp: to_hex_def hex_byte_def)
    have "unat x < 256" "unat y < 256" by (rule unat_byte_less)+
    then have "unat x div 16 < 16" "unat y div 16 < 16" "unat x mod 16 < 16" "unat y mod 16 < 16" by auto
    moreover have "hex_digit (unat x div 16) = hex_digit (unat y div 16)"
      "hex_digit (unat x mod 16) = hex_digit (unat y mod 16)" "to_hex a = to_hex b'"
      using Cons.prems b by (simp_all add: to_hex_def hex_byte_def)
    ultimately have "unat x div 16 = unat y div 16 \<and> unat x mod 16 = unat y mod 16"
      by (simp add: hex_digit_inj)
    then have "unat x = unat y" by (metis div_mult_mod_eq)
    then show ?case using b Cons.IH[OF \<open>to_hex a = to_hex b'\<close>] by (simp add: word_unat_eq_iff)
  qed
qed simp

end
