(* ===== verification/Json.thy ===== *)
theory Json
  imports Domain Bytes
begin

text \<open>
  Strict JSON (\<open>agent_artifacts/protocol/json.py\<close>): frozen JSON values, the reader of the standard
  library with the hooks the module passes to it, the freezing of its result, and the canonical
  serialisation. The reader follows the scanner of CPython; it returns the parsed Python value, or
  the exception of a hook, or the \<open>JSONDecodeError\<close> with its message and position.

  The model has no interpreter stack, so \<open>RecursionError\<close> does not occur; a \<^typ>\<open>string\<close> holds code
  points up to U+00FF, and an input that denotes another one is reported as \<open>Unrepresented\<close>.
\<close>

subsection \<open>Diagnostic codes\<close>

definition JSON_INVALID :: diagnostic_code where
  "JSON_INVALID = ''protocol-json-invalid''"
definition JSON_DUPLICATE_KEY :: diagnostic_code where
  "JSON_DUPLICATE_KEY = ''protocol-json-duplicate-key''"
definition JSON_FLOAT :: diagnostic_code where
  "JSON_FLOAT = ''protocol-json-float''"
definition JSON_INTEGER_RANGE :: diagnostic_code where
  "JSON_INTEGER_RANGE = ''protocol-json-integer-range''"
definition JSON_UNICODE :: diagnostic_code where
  "JSON_UNICODE = ''protocol-json-unicode''"
definition JSON_DEPTH :: diagnostic_code where
  "JSON_DEPTH = ''protocol-json-depth''"
definition JSON_STRING_LENGTH :: diagnostic_code where
  "JSON_STRING_LENGTH = ''protocol-json-string-length''"

definition MIN_PROTOCOL_INTEGER :: int where
  "MIN_PROTOCOL_INTEGER = - (2 ^ 63)"
definition MAX_PROTOCOL_INTEGER :: int where
  "MAX_PROTOCOL_INTEGER = 2 ^ 63 - 1"

subsection \<open>Values\<close>

datatype json_value =
    JNull
  | JBool bool
  | JInt int
  | JStr string
  | JObject "(string \<times> json_value) list"
  | JArray "json_value list"

type_synonym json_entries = "(string \<times> json_value) list"

definition mk_json_object :: "json_entries \<Rightarrow> json_value py" where
  "mk_json_object entries =
     (if length (remdups (map fst entries)) \<noteq> length (map fst entries)
      then Inl (ValueError ''JsonObject entries must have unique keys'')
      else Inr (JObject (sort_key fst entries)))"

text \<open>The constructor at the places where the keys are literals or the keys of a dictionary.\<close>

definition json_object :: "json_entries \<Rightarrow> json_value" where
  "json_object entries = JObject (sort_key fst entries)"

definition json_get :: "json_entries \<Rightarrow> string \<Rightarrow> json_value option" where
  "json_get entries key = map_of entries key"

definition json_keys :: "json_entries \<Rightarrow> string list" where
  "json_keys entries = map fst entries"

subsection \<open>The hooks\<close>

datatype json_error =
    ParseProblem diagnostic_code string
  | JSONDecodeError string nat
  | Unrepresented

definition parse_integer :: "string \<Rightarrow> json_error + int" where
  "parse_integer raw =
     (let negative = (raw \<noteq> [] \<and> hd raw = CHR ''-'');
          digits = (if negative then tl raw else raw)
      in if 19 < length digits then
           Inl (ParseProblem JSON_INTEGER_RANGE ''JSON integer is outside signed 64-bit range'')
         else let v = (if negative then - int (nat_of_digits digits) else int (nat_of_digits digits))
              in if \<not> (MIN_PROTOCOL_INTEGER \<le> v \<and> v \<le> MAX_PROTOCOL_INTEGER) then
                   Inl (ParseProblem JSON_INTEGER_RANGE ''JSON integer is outside signed 64-bit range'')
                 else Inr v)"

definition reject_float :: "string \<Rightarrow> json_error" where
  "reject_float raw = ParseProblem JSON_FLOAT (''floating-point JSON number is forbidden: '' @ raw)"

definition reject_constant :: "string \<Rightarrow> json_error" where
  "reject_constant raw =
     ParseProblem JSON_INVALID (''non-standard JSON constant is forbidden: '' @ raw)"

fun object_pairs ::
  "(string \<times> py_data) list \<Rightarrow> (string \<times> py_data) list \<Rightarrow> json_error + (string \<times> py_data) list" where
  "object_pairs [] result = Inr result"
| "object_pairs ((key, value) # pairs) result =
     (if key \<in> set (map fst result) then
        Inl (ParseProblem JSON_DUPLICATE_KEY (''duplicate JSON object key: '' @ repr_str key))
      else object_pairs pairs (dict_set key value result))"

subsection \<open>The reader of the standard library\<close>

datatype 'a reading = Read 'a string | Fail json_error | NoFuel

definition is_ws :: "char \<Rightarrow> bool" where
  "is_ws c \<longleftrightarrow> c \<in> {CHR '' '', CHR 0x09, CHR 0x0A, CHR 0x0D}"

definition skip_ws :: "string \<Rightarrow> string" where
  "skip_ws s = dropWhile is_ws s"

definition is_hex :: "char \<Rightarrow> bool" where
  "is_hex c \<longleftrightarrow> is_lower_hex c \<or> between CHR ''A'' CHR ''F'' c"

definition any_hex_val :: "char \<Rightarrow> nat" where
  "any_hex_val c = (if is_digit c then of_char c - 48
                    else if is_lower c then of_char c - 87 else of_char c - 55)"

text \<open>
  Positions are counted from the end of the text: the second argument of \<open>JSONDecodeError\<close> is the
  number of characters from the position on. \<open>scan_string b s acc\<close> reads after an opening quote
  at position \<open>b\<close>.
\<close>

definition simple_escape :: "char \<Rightarrow> char option" where
  "simple_escape e =
     (if e = CHR 0x22 \<or> e = CHR 0x5C \<or> e = CHR ''/'' then Some e
      else if e = CHR ''b'' then Some (CHR 0x08)
      else if e = CHR ''f'' then Some (CHR 0x0C)
      else if e = CHR ''n'' then Some (CHR 0x0A)
      else if e = CHR ''r'' then Some (CHR 0x0D)
      else if e = CHR ''t'' then Some (CHR 0x09)
      else None)"

function scan_string :: "nat \<Rightarrow> string \<Rightarrow> string \<Rightarrow> string reading" where
  "scan_string b s acc =
     (case s of
        [] \<Rightarrow> Fail (JSONDecodeError ''Unterminated string starting at'' b)
      | c # r \<Rightarrow>
          if c = CHR 0x22 then Read acc r
          else if c = CHR 0x5C then
            (case r of
               [] \<Rightarrow> Fail (JSONDecodeError ''Unterminated string starting at'' b)
             | e # t \<Rightarrow>
                 if e \<noteq> CHR ''u'' then
                   (case simple_escape e of
                      None \<Rightarrow> Fail (JSONDecodeError (''Invalid '' @ [CHR 0x5C] @ ''escape'') (length s))
                    | Some d \<Rightarrow> scan_string b t (acc @ [d]))
                 else
                   (if \<not> (4 < length t \<and> list_all is_hex (take 4 t)) then
                      Fail (JSONDecodeError (''Invalid '' @ [CHR 0x5C] @ ''uXXXX escape'') (length r))
                    else
                      (let u = foldl (\<lambda>a h. a * 16 + any_hex_val h) 0 (take 4 t) in
                       if 256 \<le> u then Fail Unrepresented
                       else scan_string b (drop 4 t) (acc @ [char_of u]))))
          else if (of_char c :: nat) < 32 then
            Fail (JSONDecodeError ''Invalid control character at'' (length s))
          else scan_string b r (acc @ [c]))"
  by pat_completeness auto
termination
  by (relation "measure (\<lambda>(b, s, acc). length s)") auto

declare scan_string.simps [simp del]

text \<open>The regular expression of numbers: integer part, fraction, exponent.\<close>

definition match_integer :: "string \<Rightarrow> (string \<times> string) option" where
  "match_integer s =
     (let (sign, r) = (if s \<noteq> [] \<and> hd s = CHR ''-'' then (''-'', tl s) else ('''', s)) in
      if r = [] \<or> \<not> is_digit (hd r) then None
      else if hd r = CHR ''0'' then Some (sign @ ''0'', tl r)
      else Some (sign @ takeWhile is_digit r, dropWhile is_digit r))"

definition match_fraction :: "string \<Rightarrow> string \<times> string" where
  "match_fraction s =
     (if s \<noteq> [] \<and> hd s = CHR ''.'' \<and> takeWhile is_digit (tl s) \<noteq> []
      then (CHR ''.'' # takeWhile is_digit (tl s), dropWhile is_digit (tl s)) else ('''', s))"

definition match_exponent :: "string \<Rightarrow> string \<times> string" where
  "match_exponent s =
     (if s \<noteq> [] \<and> (hd s = CHR ''e'' \<or> hd s = CHR ''E'') then
        (let r = tl s;
             (sign, q) = (if r \<noteq> [] \<and> (hd r = CHR ''-'' \<or> hd r = CHR ''+'') then ([hd r], tl r) else ('''', r))
         in if takeWhile is_digit q \<noteq> [] then (hd s # sign @ takeWhile is_digit q, dropWhile is_digit q)
            else ('''', s))
      else ('''', s))"

definition starts :: "string \<Rightarrow> string \<Rightarrow> bool" where
  "starts p s \<longleftrightarrow> take (length p) s = p"

definition read_number :: "string \<Rightarrow> py_data reading" where
  "read_number s =
     (case match_integer s of
        None \<Rightarrow> Fail (JSONDecodeError ''Expecting value'' (length s))
      | Some (integer, r) \<Rightarrow>
          (case match_fraction r of (frac, r2) \<Rightarrow>
           case match_exponent r2 of (expo, r3) \<Rightarrow>
             if frac \<noteq> [] \<or> expo \<noteq> [] then Fail (reject_float (integer @ frac @ expo))
             else (case parse_integer integer of Inl e \<Rightarrow> Fail e | Inr n \<Rightarrow> Read (PyInt n) r3)))"

text \<open>
  One unit of fuel per value, member or element: \<open>json_loads\<close> starts with enough for any text
  (\<open>read_enough_fuel\<close>).
\<close>

fun read_value :: "nat \<Rightarrow> string \<Rightarrow> py_data reading"
and read_elements :: "nat \<Rightarrow> string \<Rightarrow> py_data list \<Rightarrow> py_data list reading"
and read_members :: "nat \<Rightarrow> string \<Rightarrow> (string \<times> py_data) list \<Rightarrow> (string \<times> py_data) list reading" where
  "read_value 0 s = NoFuel"
| "read_value (Suc n) s =
     (case s of
        [] \<Rightarrow> Fail (JSONDecodeError ''Expecting value'' 0)
      | c # r \<Rightarrow>
          if c = CHR 0x22 then
            (case scan_string (length s) r [] of
               Read t rest \<Rightarrow> Read (PyStr t) rest | Fail e \<Rightarrow> Fail e | NoFuel \<Rightarrow> NoFuel)
          else if c = CHR ''{'' then
            (let t = skip_ws r in
             if t \<noteq> [] \<and> hd t = CHR ''}'' then Read (PyDict []) (tl t)
             else (case read_members n t [] of
                     Read ms rest \<Rightarrow>
                       (case object_pairs ms [] of Inl e \<Rightarrow> Fail e | Inr d \<Rightarrow> Read (PyDict d) rest)
                   | Fail e \<Rightarrow> Fail e | NoFuel \<Rightarrow> NoFuel))
          else if c = CHR ''['' then
            (let t = skip_ws r in
             if t \<noteq> [] \<and> hd t = CHR '']'' then Read (PyList []) (tl t)
             else (case read_elements n t [] of
                     Read vs rest \<Rightarrow> Read (PyList vs) rest | Fail e \<Rightarrow> Fail e | NoFuel \<Rightarrow> NoFuel))
          else if starts ''null'' s then Read PyNone (drop 4 s)
          else if starts ''true'' s then Read (PyBool True) (drop 4 s)
          else if starts ''false'' s then Read (PyBool False) (drop 5 s)
          else if starts ''NaN'' s then Fail (reject_constant ''NaN'')
          else if starts ''Infinity'' s then Fail (reject_constant ''Infinity'')
          else if starts ''-Infinity'' s then Fail (reject_constant ''-Infinity'')
          else read_number s)"
| "read_elements 0 s acc = NoFuel"
| "read_elements (Suc n) s acc =
     (case read_value n s of
        Fail e \<Rightarrow> Fail e | NoFuel \<Rightarrow> NoFuel
      | Read v rest \<Rightarrow>
          (let t = skip_ws rest in
           if t \<noteq> [] \<and> hd t = CHR '']'' then Read (acc @ [v]) (tl t)
           else if t = [] \<or> hd t \<noteq> CHR '','' then
             Fail (JSONDecodeError (''Expecting '' @ [CHR 0x27, CHR '','', CHR 0x27] @ '' delimiter'') (length t))
           else read_elements n (skip_ws (tl t)) (acc @ [v])))"
| "read_members 0 s acc = NoFuel"
| "read_members (Suc n) s acc =
     (if s = [] \<or> hd s \<noteq> CHR 0x22 then
        Fail (JSONDecodeError ''Expecting property name enclosed in double quotes'' (length s))
      else
        (case scan_string (length s) (tl s) [] of
           Fail e \<Rightarrow> Fail e | NoFuel \<Rightarrow> NoFuel
         | Read k rest \<Rightarrow>
             (let t = skip_ws rest in
              if t = [] \<or> hd t \<noteq> CHR '':'' then
                Fail (JSONDecodeError (''Expecting '' @ [CHR 0x27, CHR '':'', CHR 0x27] @ '' delimiter'') (length t))
              else
                (case read_value n (skip_ws (tl t)) of
                   Fail e \<Rightarrow> Fail e | NoFuel \<Rightarrow> NoFuel
                 | Read v rest2 \<Rightarrow>
                     (let u = skip_ws rest2 in
                      if u \<noteq> [] \<and> hd u = CHR ''}'' then Read (acc @ [(k, v)]) (tl u)
                      else if u = [] \<or> hd u \<noteq> CHR '','' then
                        Fail (JSONDecodeError (''Expecting '' @ [CHR 0x27, CHR '','', CHR 0x27] @ '' delimiter'')
                                (length u))
                      else read_members n (skip_ws (tl u)) (acc @ [(k, v)]))))))"

declare read_value.simps [simp del] read_elements.simps [simp del] read_members.simps [simp del]

definition json_loads :: "string \<Rightarrow> py_data reading" where
  "json_loads text =
     (case read_value (2 * length text + 2) (skip_ws text) of
        Read v rest \<Rightarrow>
          (let t = skip_ws rest in
           if t \<noteq> [] then Fail (JSONDecodeError ''Extra data'' (length t)) else Read v [])
      | Fail e \<Rightarrow> Fail e
      | NoFuel \<Rightarrow> NoFuel)"

subsection \<open>Freezing and parsing\<close>

definition validated_text :: "nat \<Rightarrow> string \<Rightarrow> json_error + string" where
  "validated_text max_string_length value =
     (if max_string_length < length value then
        Inl (ParseProblem JSON_STRING_LENGTH
               (''JSON string exceeds '' @ str_nat max_string_length @ '' code points''))
      else if list_ex (\<lambda>c. 0xD800 \<le> (of_char c :: nat) \<and> (of_char c :: nat) \<le> 0xDFFF) value then
        Inl (ParseProblem JSON_UNICODE ''JSON contains an unpaired Unicode surrogate'')
      else Inr value)"

fun freeze :: "nat \<Rightarrow> nat \<Rightarrow> nat \<Rightarrow> py_data \<Rightarrow> json_error + json_value"
and freeze_items :: "nat \<Rightarrow> nat \<Rightarrow> nat \<Rightarrow> py_data list \<Rightarrow> json_error + json_value list"
and freeze_entries :: "nat \<Rightarrow> nat \<Rightarrow> nat \<Rightarrow> (string \<times> py_data) list \<Rightarrow> json_error + json_entries" where
  "freeze depth max_depth max_len value =
     (if max_depth < depth then
        Inl (ParseProblem JSON_DEPTH (''JSON nesting exceeds maximum depth '' @ str_nat max_depth))
      else (case value of
          PyNone \<Rightarrow> Inr JNull
        | PyBool b \<Rightarrow> Inr (JBool b)
        | PyInt n \<Rightarrow>
            if \<not> (MIN_PROTOCOL_INTEGER \<le> n \<and> n \<le> MAX_PROTOCOL_INTEGER) then
              Inl (ParseProblem JSON_INTEGER_RANGE ''JSON integer is outside signed 64-bit range'')
            else Inr (JInt n)
        | PyStr s \<Rightarrow> (case validated_text max_len s of Inl e \<Rightarrow> Inl e | Inr t \<Rightarrow> Inr (JStr t))
        | PyList vs \<Rightarrow>
            (case freeze_items (Suc depth) max_depth max_len vs of Inl e \<Rightarrow> Inl e | Inr js \<Rightarrow> Inr (JArray js))
        | PyDict es \<Rightarrow>
            (case freeze_entries (Suc depth) max_depth max_len es of
               Inl e \<Rightarrow> Inl e | Inr js \<Rightarrow> Inr (json_object js))))"
| "freeze_items depth max_depth max_len [] = Inr []"
| "freeze_items depth max_depth max_len (v # vs) =
     (case freeze depth max_depth max_len v of Inl e \<Rightarrow> Inl e
      | Inr j \<Rightarrow> (case freeze_items depth max_depth max_len vs of Inl e \<Rightarrow> Inl e | Inr js \<Rightarrow> Inr (j # js)))"
| "freeze_entries depth max_depth max_len [] = Inr []"
| "freeze_entries depth max_depth max_len ((k, v) # es) =
     (case validated_text max_len k of Inl e \<Rightarrow> Inl e
      | Inr key \<Rightarrow>
          (case freeze depth max_depth max_len v of Inl e \<Rightarrow> Inl e
           | Inr j \<Rightarrow>
               (case freeze_entries depth max_depth max_len es of Inl e \<Rightarrow> Inl e
                | Inr js \<Rightarrow> Inr ((key, j) # js))))"

definition json_problem :: "diagnostic_code \<Rightarrow> string \<Rightarrow> source_location option \<Rightarrow> 'a result" where
  "json_problem code message location = mk_err [mk_diagnostic code ERROR message location [] []]"

text \<open>\<open>JSONDecodeError\<close> derives line and column from the position.\<close>

definition decode_location :: "source_location option \<Rightarrow> string \<Rightarrow> nat \<Rightarrow> source_location" where
  "decode_location location text remaining =
     (let before = take (length text - remaining) text in
      \<lparr>loc_source = (case location of None \<Rightarrow> None | Some l \<Rightarrow> loc_source l),
       loc_path = (case location of None \<Rightarrow> None | Some l \<Rightarrow> loc_path l),
       loc_pointer = (case location of None \<Rightarrow> None | Some l \<Rightarrow> loc_pointer l),
       loc_line = Some (int (length [c \<leftarrow> before. c = CHR 0x0A]) + 1),
       loc_column = Some (int (length (takeWhile (\<lambda>c. c \<noteq> CHR 0x0A) (rev before))) + 1)\<rparr>)"

text \<open>
  \<open>parse_json\<close> on text and on bytes. \<open>None\<close>: the input denotes a code point above U+00FF, about
  which the model says nothing.
\<close>

definition parse_json_text ::
  "string \<Rightarrow> source_location option \<Rightarrow> nat \<Rightarrow> nat \<Rightarrow> json_value result option" where
  "parse_json_text text location max_depth max_len =
     (let failure = (\<lambda>e. (case e of
            ParseProblem code message \<Rightarrow> Some (json_problem code message location)
          | JSONDecodeError msg remaining \<Rightarrow>
              Some (json_problem JSON_INVALID (''invalid JSON: '' @ msg)
                      (Some (decode_location location text remaining)))
          | Unrepresented \<Rightarrow> None))
      in case json_loads text of
           Fail e \<Rightarrow> failure e
         | NoFuel \<Rightarrow> None
         | Read parsed _ \<Rightarrow>
             (case freeze 0 max_depth max_len parsed of Inl e \<Rightarrow> failure e | Inr v \<Rightarrow> Some (Ok v)))"

definition parse_json ::
  "bytes \<Rightarrow> source_location option \<Rightarrow> nat \<Rightarrow> nat \<Rightarrow> json_value result option" where
  "parse_json data location max_depth max_len =
     (case utf8_decode data of
        DecodeError \<Rightarrow> Some (json_problem JSON_UNICODE ''JSON input is not valid UTF-8'' location)
      | BeyondLatin \<Rightarrow> None
      | Text text \<Rightarrow> parse_json_text text location max_depth max_len)"

text \<open>The default bounds.\<close>

abbreviation MAX_DEPTH :: nat where "MAX_DEPTH \<equiv> 64"
abbreviation MAX_STRING_LENGTH :: nat where "MAX_STRING_LENGTH \<equiv> 1000000"

subsection \<open>Canonical serialisation\<close>

fun to_python :: "json_value \<Rightarrow> py_data" where
  "to_python JNull = PyNone"
| "to_python (JBool b) = PyBool b"
| "to_python (JInt n) = PyInt n"
| "to_python (JStr s) = PyStr s"
| "to_python (JObject es) = PyDict (map (\<lambda>(k, v). (k, to_python v)) es)"
| "to_python (JArray vs) = PyList (map to_python vs)"

definition escape_char :: "char \<Rightarrow> string" where
  "escape_char c =
     (let n = (of_char c :: nat) in
      if c = CHR 0x22 \<or> c = CHR 0x5C then [CHR 0x5C, c]
      else if c = CHR 0x0A then [CHR 0x5C, CHR ''n'']
      else if c = CHR 0x0D then [CHR 0x5C, CHR ''r'']
      else if c = CHR 0x09 then [CHR 0x5C, CHR ''t'']
      else if c = CHR 0x08 then [CHR 0x5C, CHR ''b'']
      else if c = CHR 0x0C then [CHR 0x5C, CHR ''f'']
      else if n < 32 then [CHR 0x5C, CHR ''u'', CHR ''0'', CHR ''0'', hex_digit (n div 16), hex_digit (n mod 16)]
      else [c])"

definition json_text :: "string \<Rightarrow> string" where
  "json_text s = [CHR 0x22] @ concat (map escape_char s) @ [CHR 0x22]"

text \<open>\<open>json.dumps(..., ensure_ascii=False, sort_keys=True, separators=(",", ":"))\<close>\<close>

fun dumps :: "py_data \<Rightarrow> string" where
  "dumps PyNone = ''null''"
| "dumps (PyBool b) = (if b then ''true'' else ''false'')"
| "dumps (PyInt n) = str_int n"
| "dumps (PyStr s) = json_text s"
| "dumps (PyList vs) = ''['' @ join '','' (map dumps vs) @ '']''"
| "dumps (PyDict es) =
     ''{'' @ join '','' (map (\<lambda>(k, t). json_text k @ '':'' @ t)
               (sort_key fst (map (\<lambda>(k, v). (k, dumps v)) es))) @ ''}''"

definition canonical_json_bytes :: "json_value \<Rightarrow> bytes" where
  "canonical_json_bytes value = utf8_encode (dumps (to_python value) @ [CHR 0x0A])"

subsection \<open>Reading back strings and numbers\<close>

lemma hex_digit_is_hex: "n < 16 \<Longrightarrow> is_hex (hex_digit n)"
  by (simp add: is_hex_def is_lower_hex_digit)

lemma any_hex_val_digit: "n < 16 \<Longrightarrow> any_hex_val (hex_digit n) = n"
  unfolding any_hex_val_def hex_digit_def is_digit_of_char is_lower_def between_def less_eq_char_def
  by auto

lemma hex_digit_0 [simp]: "hex_digit 0 = CHR ''0''"
  by code_simp

lemma scan_plain_char:
  assumes "c \<noteq> CHR 0x22" "c \<noteq> CHR 0x5C" "\<not> (of_char c :: nat) < 32"
  shows "scan_string b (c # t) acc = scan_string b t (acc @ [c])"
  using assms by (subst scan_string.simps) simp

lemma scan_simple_escape:
  assumes "simple_escape e = Some d" "e \<noteq> CHR ''u''"
  shows "scan_string b (CHR 0x5C # e # t) acc = scan_string b t (acc @ [d])"
  using assms by (subst scan_string.simps) simp

lemma scan_unicode_escape:
  assumes "n < 32" "t \<noteq> []"
  shows "scan_string b (CHR 0x5C # CHR ''u'' # CHR ''0'' # CHR ''0'' # hex_digit (n div 16)
      # hex_digit (n mod 16) # t) acc = scan_string b t (acc @ [char_of n])"
proof -
  have d: "n div 16 < 16" "n mod 16 < 16" using assms(1) by auto
  let ?h = "[CHR ''0'', CHR ''0'', hex_digit (n div 16), hex_digit (n mod 16)]"
  have "is_hex CHR ''0''" "any_hex_val CHR ''0'' = 0"
    using hex_digit_is_hex[of 0] any_hex_val_digit[of 0] by simp_all
  then have "list_all is_hex ?h" "foldl (\<lambda>a h. a * 16 + any_hex_val h) 0 ?h = n"
    using d by (simp_all add: hex_digit_is_hex any_hex_val_digit)
  moreover have "4 < length (?h @ t)" using assms(2) by (cases t) simp_all
  ultimately show ?thesis using assms(1)
    by (subst scan_string.simps) (simp add: Let_def)
qed

lemma scan_escape_char:
  assumes "t \<noteq> []"
  shows "scan_string b (escape_char c @ t) acc = scan_string b t (acc @ [c])"
proof -
  consider (simple) e where "escape_char c = [CHR 0x5C, e]" "simple_escape e = Some c" "e \<noteq> CHR ''u''"
    | (unicode) "(of_char c :: nat) < 32" "escape_char c = [CHR 0x5C, CHR ''u'', CHR ''0'', CHR ''0'',
        hex_digit (of_char c div 16), hex_digit (of_char c mod 16)]"
    | (plain) "escape_char c = [c]" "c \<noteq> CHR 0x22" "c \<noteq> CHR 0x5C" "\<not> (of_char c :: nat) < 32"
    unfolding escape_char_def simple_escape_def Let_def
    by (cases "c = CHR 0x22"; cases "c = CHR 0x5C"; cases "c = CHR 0x0A"; cases "c = CHR 0x0D";
        cases "c = CHR 0x09"; cases "c = CHR 0x08"; cases "c = CHR 0x0C";
        cases "(of_char c :: nat) < 32") simp_all
  then show ?thesis
  proof cases
    case (simple e)
    then show ?thesis by (simp add: scan_simple_escape)
  next
    case unicode
    then show ?thesis using assms scan_unicode_escape[of "of_char c" t b acc] by simp
  next
    case plain
    then show ?thesis by (simp add: scan_plain_char)
  qed
qed

lemma scan_json_text:
  "scan_string b (concat (map escape_char s) @ CHR 0x22 # rest) acc = Read (acc @ s) rest"
proof (induction s arbitrary: acc)
  case Nil
  show ?case by (subst scan_string.simps) simp
next
  case (Cons c s)
  have "concat (map escape_char s) @ CHR 0x22 # rest \<noteq> []" by simp
  from scan_escape_char[OF this, of b c acc] Cons.IH[of "acc @ [c]"] show ?case by simp
qed

text \<open>What may follow a value inside canonical text.\<close>

definition stops :: "string \<Rightarrow> bool" where
  "stops s \<longleftrightarrow> (case s of [] \<Rightarrow> True | c # _ \<Rightarrow> c \<in> {CHR '','', CHR '']'', CHR ''}'', CHR 0x0A})"

lemma stops_cases:
  "stops s \<Longrightarrow> s = [] \<or> (hd s \<noteq> CHR ''.'' \<and> hd s \<noteq> CHR ''e'' \<and> hd s \<noteq> CHR ''E'' \<and> \<not> is_digit (hd s))"
  by (cases s) (auto simp: stops_def py_simps less_eq_char_def)

lemma takeWhile_digits:
  assumes "list_all is_digit d" "s = [] \<or> \<not> is_digit (hd s)"
  shows "takeWhile is_digit (d @ s) = d" "dropWhile is_digit (d @ s) = s"
  using assms by (induction d) (auto simp: takeWhile_eq_Nil_iff dropWhile_eq_self_iff)

lemma match_integer_nat:
  assumes "s = [] \<or> \<not> is_digit (hd s)"
  shows "match_integer (str_nat n @ s) = Some (str_nat n, s)"
    and "match_integer (CHR ''-'' # str_nat n @ s) = Some (CHR ''-'' # str_nat n, s)"
proof -
  have num: "is_number (str_nat n)" and dig: "list_all is_digit (str_nat n)" "str_nat n \<noteq> []"
    by (simp_all add: is_number_str_nat str_nat_digits)
  have hd: "is_digit (hd (str_nat n @ s))" using dig by (cases "str_nat n") auto
  then have "hd (str_nat n @ s) \<noteq> CHR ''-''" by (auto simp: py_simps less_eq_char_def)
  moreover have "hd (str_nat n @ s) = CHR ''0'' \<Longrightarrow> str_nat n = ''0''"
    using num dig(2) by (auto simp: is_number_def hd_append)
  ultimately show "match_integer (str_nat n @ s) = Some (str_nat n, s)"
    and "match_integer (CHR ''-'' # str_nat n @ s) = Some (CHR ''-'' # str_nat n, s)"
    using hd dig takeWhile_digits[OF dig(1) assms] by (auto simp: match_integer_def)
qed

definition protocol_int :: "int \<Rightarrow> bool" where
  "protocol_int n \<longleftrightarrow> MIN_PROTOCOL_INTEGER \<le> n \<and> n \<le> MAX_PROTOCOL_INTEGER"

lemma parse_integer_str_int:
  assumes "protocol_int n"
  shows "parse_integer (str_int n) = Inr n"
proof -
  have "nat \<bar>n\<bar> < 10 ^ 19"
    using assms
    by (auto simp: protocol_int_def MIN_PROTOCOL_INTEGER_def MAX_PROTOCOL_INTEGER_def nat_less_iff)
  then have l: "length (str_nat (nat \<bar>n\<bar>)) \<le> 19" by (rule length_str_nat) simp
  have "hd (str_nat m) \<noteq> CHR ''-''" for m
    using str_nat_digits[of m] str_nat_not_Nil[of m]
    by (cases "str_nat m") (auto simp: py_simps less_eq_char_def)
  with l assms show ?thesis
    by (cases "n < 0")
      (simp_all add: parse_integer_def str_int_def Let_def nat_of_digits_str_nat protocol_int_def)
qed

lemma read_number_str_int:
  assumes "protocol_int n" "stops s"
  shows "read_number (str_int n @ s) = Read (PyInt n) s"
proof -
  have s: "s = [] \<or> \<not> is_digit (hd s)" using stops_cases[OF assms(2)] by auto
  have "match_integer (str_int n @ s) = Some (str_int n, s)"
    using match_integer_nat[OF s] by (simp add: str_int_def)
  moreover have "match_fraction s = ('''', s)" "match_exponent s = ('''', s)"
    using stops_cases[OF assms(2)] by (auto simp: match_fraction_def match_exponent_def)
  ultimately show ?thesis by (simp add: read_number_def parse_integer_str_int assms(1))
qed

lemma starts_simps [simp]:
  "starts [] s" "\<not> starts (p # ps) []" "starts (p # ps) (c # s) \<longleftrightarrow> c = p \<and> starts ps s"
  by (auto simp: starts_def)

lemma str_int_Cons:
  "\<exists>c r. str_int n = c # r \<and> (is_digit c \<or> (c = CHR ''-'' \<and> r \<noteq> [] \<and> is_digit (hd r)))"
proof -
  have d: "str_nat m \<noteq> [] \<and> is_digit (hd (str_nat m))" for m
    using str_nat_digits[of m] str_nat_not_Nil[of m] by (cases "str_nat m") auto
  then have "\<exists>c r. str_nat (nat n) = c # r \<and> is_digit c"
    by (metis list.collapse)
  with d[of "nat (- n)"] show ?thesis by (auto simp: str_int_def)
qed

lemma read_value_int:
  assumes "protocol_int n" "stops s"
  shows "read_value (Suc m) (str_int n @ s) = Read (PyInt n) s"
proof -
  obtain c r where c: "str_int n = c # r" "is_digit c \<or> (c = CHR ''-'' \<and> r \<noteq> [] \<and> is_digit (hd r))"
    using str_int_Cons by blast
  have other: "c \<noteq> CHR 0x22 \<and> c \<noteq> CHR ''{'' \<and> c \<noteq> CHR ''['' \<and> c \<noteq> CHR ''n'' \<and> c \<noteq> CHR ''t'' \<and> c \<noteq> CHR ''f''
      \<and> c \<noteq> CHR ''N'' \<and> c \<noteq> CHR ''I''"
    using c(2) by (auto simp: py_simps less_eq_char_def)
  have "c = CHR ''-'' \<Longrightarrow> hd (r @ s) \<noteq> CHR ''I''"
    using c(2) by (auto simp: py_simps less_eq_char_def hd_append)
  then have "\<not> starts ''-Infinity'' (c # r @ s)" by (cases "r @ s") auto
  with other have "read_value (Suc m) (str_int n @ s) = read_number (str_int n @ s)"
    unfolding c(1) by (simp only: read_value.simps append_Cons list.case if_False starts_simps
        HOL.simp_thms)
  then show ?thesis by (simp add: read_number_str_int assms)
qed

subsection \<open>Reading back canonical text\<close>

text \<open>Well-formed frozen values: sorted distinct keys, integers in range.\<close>

fun wf_json :: "json_value \<Rightarrow> bool" where
  "wf_json JNull = True"
| "wf_json (JBool b) = True"
| "wf_json (JInt n) = protocol_int n"
| "wf_json (JStr s) = True"
| "wf_json (JObject es) \<longleftrightarrow> sorted (map fst es) \<and> distinct (map fst es) \<and> (\<forall>e \<in> set es. wf_json (snd e))"
| "wf_json (JArray vs) \<longleftrightarrow> (\<forall>v \<in> set vs. wf_json v)"

abbreviation json_dumps :: "json_value \<Rightarrow> string" where
  "json_dumps v \<equiv> dumps (to_python v)"

definition member_text :: "string \<times> json_value \<Rightarrow> string" where
  "member_text e = json_text (fst e) @ '':'' @ json_dumps (snd e)"

lemma length_member: "length (json_dumps (snd e)) < length (member_text e)"
  by (simp add: member_text_def)

lemma json_dumps_object:
  assumes "sorted (map fst es)"
  shows "json_dumps (JObject es) = ''{'' @ join '','' (map member_text es) @ ''}''"
proof -
  let ?ts = "map (\<lambda>(k, v). (k, dumps v)) (map (\<lambda>(k, v). (k, to_python v)) es)"
  have "map fst ?ts = map fst es" by (auto simp: split_def)
  with assms have "sort_key fst ?ts = ?ts" by (metis sort_key_id_if_sorted)
  then show ?thesis by (simp add: member_text_def[abs_def] split_def o_def)
qed

lemma json_text_Cons: "json_text s = CHR 0x22 # tl (json_text s)"
  by (simp add: json_text_def)

lemma dumps_first:
  "\<exists>c r. dumps p = c # r \<and> \<not> is_ws c \<and> c \<noteq> CHR '']'' \<and> c \<noteq> CHR ''}''"
proof (cases p)
  case (PyInt n)
  then show ?thesis using str_int_Cons[of n] by (auto simp: is_ws_def py_simps less_eq_char_def)
qed (auto simp: is_ws_def json_text_def)

lemma skip_ws_dumps [simp]: "skip_ws (dumps p @ s) = dumps p @ s"
  using dumps_first[of p] by (auto simp: skip_ws_def)

lemma skip_ws_member [simp]: "skip_ws (member_text e @ s) = member_text e @ s"
  by (simp add: member_text_def json_text_def skip_ws_def is_ws_def)

lemma skip_ws_stop:
  "c \<in> {CHR '','', CHR '']'', CHR ''}'', CHR '':''} \<Longrightarrow> skip_ws (c # s) = c # s"
  by (auto simp: skip_ws_def is_ws_def)

lemma length_dumps_pos: "0 < length (dumps p)"
  using dumps_first[of p] by auto

lemma read_string_member:
  "scan_string b (tl (json_text k) @ s) [] = Read k s"
  using scan_json_text[of b k s "[]"] by (simp add: json_text_def)

text \<open>The two loops read back a non-empty sequence, given that each value is read back.\<close>

definition reads_back :: "json_value \<Rightarrow> bool" where
  "reads_back v \<longleftrightarrow>
     (\<forall>n s. 2 * length (json_dumps v) \<le> n \<longrightarrow> stops s \<longrightarrow> read_value n (json_dumps v @ s) = Read (to_python v) s)"

lemma reads_backD:
  "reads_back v \<Longrightarrow> 2 * length (json_dumps v) \<le> n \<Longrightarrow> stops s
    \<Longrightarrow> read_value n (json_dumps v @ s) = Read (to_python v) s"
  by (simp add: reads_back_def)

lemma stops_Cons [simp]:
  "stops (CHR '','' # s)" "stops (CHR '']'' # s)" "stops (CHR ''}'' # s)" "stops [CHR 0x0A]"
  by (simp_all add: stops_def)

lemma read_elements_back:
  assumes "vs \<noteq> []" "\<forall>v \<in> set vs. reads_back v" "2 * length (join '','' (map json_dumps vs)) + 1 \<le> n"
  shows "read_elements n (join '','' (map json_dumps vs) @ CHR '']'' # s) acc =
    Read (acc @ map to_python vs) s"
  using assms
proof (induction vs arbitrary: n acc)
  case (Cons v vs)
  from Cons.prems(3) obtain m where m: "n = Suc m" by (cases n) auto
  show ?case
  proof (cases vs)
    case Nil
    with Cons.prems m have "read_value m (json_dumps v @ CHR '']'' # s) = Read (to_python v) (CHR '']'' # s)"
      by (intro reads_backD) simp_all
    with Nil m show ?thesis by (simp add: read_elements.simps skip_ws_stop)
  next
    case (Cons w ws)
    let ?rest = "join '','' (map json_dumps vs) @ CHR '']'' # s"
    have tail: "join '','' (map json_dumps (v # vs)) = json_dumps v @ CHR '','' # join '','' (map json_dumps vs)"
      using Cons by simp
    have "read_value m (json_dumps v @ CHR '','' # ?rest) = Read (to_python v) (CHR '','' # ?rest)"
      using Cons.prems m tail by (intro reads_backD) simp_all
    moreover have "skip_ws ?rest = ?rest"
      using Cons skip_ws_dumps[of "to_python w"] by (cases ws) simp_all
    moreover have "read_elements m ?rest (acc @ [to_python v]) = Read ((acc @ [to_python v]) @ map to_python vs) s"
      using Cons.prems m tail Cons length_dumps_pos[of "to_python v"] by (intro Cons.IH) auto
    ultimately show ?thesis using tail m by (simp add: read_elements.simps skip_ws_stop)
  qed
qed simp

lemma read_members_back:
  assumes "es \<noteq> []" "\<forall>e \<in> set es. reads_back (snd e)" "2 * length (join '','' (map member_text es)) + 1 \<le> n"
  shows "read_members n (join '','' (map member_text es) @ CHR ''}'' # s) acc =
    Read (acc @ map (\<lambda>(k, v). (k, to_python v)) es) s"
  using assms
proof (induction es arbitrary: n acc)
  case (Cons e es)
  obtain k v where e: "e = (k, v)" by fastforce
  from Cons.prems(3) obtain m where m: "n = Suc m" by (cases n) auto
  have step: "read_members n (member_text e @ c # t) acc =
      (case read_value m (json_dumps v @ c # t) of Fail x \<Rightarrow> Fail x | NoFuel \<Rightarrow> NoFuel
       | Read w rest \<Rightarrow>
          (let u = skip_ws rest in
           if u \<noteq> [] \<and> hd u = CHR ''}'' then Read (acc @ [(k, w)]) (tl u)
           else if u = [] \<or> hd u \<noteq> CHR '','' then
             Fail (JSONDecodeError (''Expecting '' @ [CHR 0x27, CHR '','', CHR 0x27] @ '' delimiter'') (length u))
           else read_members m (skip_ws (tl u)) (acc @ [(k, w)])))" for c t
    unfolding m e member_text_def
    by (subst read_members.simps, subst (1 2 3) json_text_Cons)
      (simp add: read_string_member skip_ws_stop)
  show ?case
  proof (cases es)
    case Nil
    with Cons.prems m e have "read_value m (json_dumps v @ CHR ''}'' # s) = Read (to_python v) (CHR ''}'' # s)"
      using length_member[of e] by (intro reads_backD) simp_all
    with Nil e step[of "CHR ''}''" s] show ?thesis by (simp add: skip_ws_stop)
  next
    case (Cons f fs)
    let ?rest = "join '','' (map member_text es) @ CHR ''}'' # s"
    have tail: "join '','' (map member_text (e # es)) = member_text e @ CHR '','' # join '','' (map member_text es)"
      using Cons by simp
    have "read_value m (json_dumps v @ CHR '','' # ?rest) = Read (to_python v) (CHR '','' # ?rest)"
      using Cons.prems m tail e length_member[of e] by (intro reads_backD) simp_all
    moreover have "skip_ws ?rest = ?rest"
      using Cons skip_ws_member[of f] by (cases fs) simp_all
    moreover have "read_members m ?rest (acc @ [(k, to_python v)]) =
        Read ((acc @ [(k, to_python v)]) @ map (\<lambda>(k, v). (k, to_python v)) es) s"
      using Cons.prems m tail Cons length_member[of e] by (intro Cons.IH) auto
    ultimately show ?thesis using tail e step[of "CHR '',''" ?rest] by (simp add: skip_ws_stop)
  qed
qed simp

lemma object_pairs_distinct: "distinct (map fst (r @ ps)) \<Longrightarrow> object_pairs ps r = Inr (r @ ps)"
proof (induction ps arbitrary: r)
  case (Cons p ps)
  obtain k v where p: "p = (k, v)" by fastforce
  have "k \<notin> set (dict_keys r)" using Cons.prems p by auto
  moreover have "object_pairs ps (r @ [(k, v)]) = Inr ((r @ [(k, v)]) @ ps)"
    by (rule Cons.IH) (use Cons.prems p in simp)
  ultimately show ?case using p by (simp add: dict_set_fresh del: set_map)
qed simp

lemma to_python_entries: "map fst (map (\<lambda>(k, v). (k, to_python v)) es) = map fst es"
  by (auto simp: split_def)

lemma wf_reads_back: "wf_json v \<Longrightarrow> reads_back v"
proof (induction v rule: wf_json.induct)
  case 1
  show ?case
    unfolding reads_back_def
  proof (intro allI impI)
    fix n s assume "2 * length (json_dumps JNull) \<le> n"
    then obtain m where "n = Suc m" by (cases n) auto
    then show "read_value n (json_dumps JNull @ s) = Read (to_python JNull) s"
      by (simp add: read_value.simps)
  qed
next
  case (2 b)
  show ?case
    unfolding reads_back_def
  proof (intro allI impI)
    fix n s assume "2 * length (json_dumps (JBool b)) \<le> n"
    then obtain m where "n = Suc m" by (cases n) (auto split: if_splits)
    then show "read_value n (json_dumps (JBool b) @ s) = Read (to_python (JBool b)) s"
      by (simp add: read_value.simps)
  qed
next
  case (3 i)
  show ?case
    unfolding reads_back_def
  proof (intro allI impI)
    fix n s assume "2 * length (json_dumps (JInt i)) \<le> n" "stops s"
    moreover then obtain m where "n = Suc m" using length_dumps_pos[of "PyInt i"] by (cases n) auto
    ultimately show "read_value n (json_dumps (JInt i) @ s) = Read (to_python (JInt i)) s"
      using 3 by (simp add: read_value_int)
  qed
next
  case (4 t)
  show ?case
    unfolding reads_back_def
  proof (intro allI impI)
    fix n s assume "2 * length (json_dumps (JStr t)) \<le> n"
    then obtain m where "n = Suc m" using length_dumps_pos[of "PyStr t"] by (cases n) auto
    then show "read_value n (json_dumps (JStr t) @ s) = Read (to_python (JStr t)) s"
      by (simp add: read_value.simps json_text_def scan_json_text)
  qed
next
  case (5 es)
  then have wf: "sorted (map fst es)" "distinct (map fst es)" "\<forall>e \<in> set es. reads_back (snd e)"
    by auto
  show ?case
    unfolding reads_back_def json_dumps_object[OF wf(1)]
  proof (intro allI impI)
    fix n s assume n: "2 * length (''{'' @ join '','' (map member_text es) @ ''}'') \<le> n"
    then obtain m where m: "n = Suc m" by (cases n) auto
    let ?d = "map (\<lambda>(k, v). (k, to_python v)) es"
    show "read_value n ((''{'' @ join '','' (map member_text es) @ ''}'') @ s) = Read (to_python (JObject es)) s"
    proof (cases es)
      case Nil
      then show ?thesis using m by (simp add: read_value.simps skip_ws_stop)
    next
      case (Cons e fs)
      let ?t = "join '','' (map member_text es) @ CHR ''}'' # s"
      have "read_members m ?t [] = Read ([] @ ?d) s"
        by (rule read_members_back) (use Cons wf n m in simp_all)
      moreover have "object_pairs ?d [] = Inr ?d"
        using object_pairs_distinct[of "[]" ?d] wf(2) by (simp only: append_Nil to_python_entries)
      moreover have "skip_ws ?t = ?t" using Cons skip_ws_member[of e] by (cases fs) simp_all
      moreover have "hd ?t = CHR 0x22"
        using Cons by (simp add: member_text_def json_text_def)
      ultimately show ?thesis using m by (simp add: read_value.simps)
    qed
  qed
next
  case (6 vs)
  then have wf: "\<forall>v \<in> set vs. reads_back v" by auto
  show ?case
    unfolding reads_back_def
  proof (intro allI impI)
    fix n s assume n: "2 * length (json_dumps (JArray vs)) \<le> n"
    then obtain m where m: "n = Suc m" by (cases n) auto
    show "read_value n (json_dumps (JArray vs) @ s) = Read (to_python (JArray vs)) s"
    proof (cases vs)
      case Nil
      then show ?thesis using m by (simp add: read_value.simps skip_ws_stop)
    next
      case (Cons v ws)
      let ?t = "join '','' (map json_dumps vs) @ CHR '']'' # s"
      have "read_elements m ?t [] = Read ([] @ map to_python vs) s"
        by (rule read_elements_back) (use Cons wf n m in \<open>simp_all add: o_def\<close>)
      moreover have "skip_ws ?t = ?t" using Cons skip_ws_dumps[of "to_python v"] by (cases ws) simp_all
      moreover have "hd ?t \<noteq> CHR '']''"
        using Cons dumps_first[of "to_python v"] by auto
      ultimately show ?thesis using m by (simp add: read_value.simps o_def)
    qed
  qed
qed

lemma json_loads_canonical:
  assumes "wf_json v"
  shows "json_loads (json_dumps v @ [CHR 0x0A]) = Read (to_python v) []"
proof -
  have "read_value (2 * length (json_dumps v @ [CHR 0x0A]) + 2) (json_dumps v @ [CHR 0x0A]) =
      Read (to_python v) [CHR 0x0A]"
    by (rule reads_backD[OF wf_reads_back[OF assms]]) simp_all
  then show ?thesis by (simp add: json_loads_def skip_ws_def[of "[CHR 0x0A]"] is_ws_def)
qed

lemma to_python_inj: "to_python v = to_python w \<Longrightarrow> v = w"
proof (induction v arbitrary: w)
  case (JObject es)
  then obtain fs where w: "w = JObject fs"
    and m: "map (\<lambda>(k, v). (k, to_python v)) es = map (\<lambda>(k, v). (k, to_python v)) fs"
    by (cases w) auto
  have "es = fs"
    using m JObject.IH
  proof (induction es arbitrary: fs)
    case (Cons e es)
    then obtain f fs' where fs: "fs = f # fs'" by (cases fs) auto
    obtain k v where e: "e = (k, v)" by fastforce
    obtain l u where f: "f = (l, u)" by fastforce
    have "k = l" "to_python v = to_python u" using Cons.prems(1) fs e f by auto
    moreover have "v = u" using Cons.prems(2)[of e v] e calculation by (auto intro: snds.intros)
    moreover have "es = fs'" using Cons.prems fs by (intro Cons.IH) auto
    ultimately show ?case using fs e f by simp
  qed simp
  then show ?case using w by simp
next
  case (JArray vs)
  then obtain ws where w: "w = JArray ws" and m: "map to_python vs = map to_python ws"
    by (cases w) auto
  have "vs = ws"
    using m JArray.IH by (induction vs arbitrary: ws) (auto simp: Cons_eq_map_conv)
  then show ?case using w by simp
next
  case JNull
  then show ?case by (cases w) simp_all
next
  case (JBool b)
  then show ?case by (cases w) simp_all
next
  case (JInt n)
  then show ?case by (cases w) simp_all
next
  case (JStr s)
  then show ?case by (cases w) simp_all
qed

lemma canonical_json_bytes_eq:
  assumes "wf_json v" and "wf_json w"
  shows "canonical_json_bytes v = canonical_json_bytes w \<longleftrightarrow> v = w"
proof
  assume "canonical_json_bytes v = canonical_json_bytes w"
  then have "json_dumps v = json_dumps w"
    unfolding canonical_json_bytes_def utf8_encode_inj by simp
  then have "Read (to_python v) [] = Read (to_python w) []"
    using json_loads_canonical[OF assms(1)] json_loads_canonical[OF assms(2)] by metis
  then show "v = w" by (simp add: to_python_inj)
qed simp

text \<open>
  The canonical bytes bind the value: two well-formed JSON values with the same canonical
  serialisation are equal.
\<close>

theorem canonical_json_bytes_inj:
  assumes "wf_json v" and "wf_json w"
  shows "canonical_json_bytes v = canonical_json_bytes w \<longleftrightarrow> v = w"
  using assms by (rule canonical_json_bytes_eq)

theorem canonical_json_bytes_inj_witness:
  "canonical_json_bytes (JArray [JInt 1, JStr ''a'']) \<noteq> canonical_json_bytes (JArray [JInt 1, JStr ''b''])"
  using canonical_json_bytes_inj[of "JArray [JInt 1, JStr ''a'']" "JArray [JInt 1, JStr ''b'']"]
  by (simp add: protocol_int_def MIN_PROTOCOL_INTEGER_def MAX_PROTOCOL_INTEGER_def)

subsection \<open>The reader terminates with an answer\<close>

text \<open>Each call of the reader consumes text, so the fuel of \<open>json_loads\<close> cannot run out.\<close>

lemma length_skip_ws: "length (skip_ws s) \<le> length s"
  by (simp add: skip_ws_def length_dropWhile_le)

lemma scan_string_shrinks:
  "scan_string b s acc \<noteq> NoFuel \<and> (scan_string b s acc = Read t rest \<longrightarrow> length rest < length s)"
proof (induction b s acc rule: scan_string.induct)
  case (1 b s acc)
  show ?case
  proof (cases s)
    case Nil
    then show ?thesis by (simp add: scan_string.simps)
  next
    case (Cons c r)
    note IH = 1[OF Cons]
    show ?thesis
    proof (cases "c = CHR 0x5C")
      case True
      show ?thesis
      proof (cases r)
        case Nil
        then show ?thesis using Cons True by (simp add: scan_string.simps)
      next
        case (Cons e q)
        note IH' = IH(1)[OF _ True Cons] IH(2)[OF _ True Cons]
        show ?thesis
        proof (cases "e = CHR ''u''")
          case True
          then show ?thesis
            using IH'(2) \<open>c = CHR 0x5C\<close> \<open>s = c # r\<close> Cons
            by (subst scan_string.simps, subst scan_string.simps) (auto simp: Let_def)
        next
          case False
          then show ?thesis
            using IH'(1) \<open>c = CHR 0x5C\<close> \<open>s = c # r\<close> Cons
            by (subst scan_string.simps, subst scan_string.simps) (auto split: option.splits)
        qed
      qed
    next
      case False
      then show ?thesis using IH(3) Cons
        by (subst scan_string.simps, subst scan_string.simps) auto
    qed
  qed
qed

lemma match_integer_shrinks: "match_integer s = Some (i, r) \<Longrightarrow> length r < length s"
  using length_dropWhile_le[of is_digit s] length_dropWhile_le[of is_digit "tl s"]
  by (cases s) (auto simp: match_integer_def Let_def neq_Nil_conv le_less_trans split: if_splits)

lemma match_fraction_shrinks: "match_fraction s = (f, r) \<Longrightarrow> length r \<le> length s"
  using length_dropWhile_le[of is_digit "tl s"]
  by (cases s) (auto simp: match_fraction_def split: if_splits)

lemma match_exponent_shrinks: "match_exponent s = (f, r) \<Longrightarrow> length r \<le> length s"
  using length_dropWhile_le[of is_digit "tl s"] length_dropWhile_le[of is_digit "tl (tl s)"]
  by (auto simp: match_exponent_def Let_def split: if_splits prod.splits)

lemma read_number_shrinks:
  "read_number s \<noteq> NoFuel \<and> (read_number s = Read v rest \<longrightarrow> length rest < length s)"
proof (cases "match_integer s")
  case (Some p)
  obtain i r f r2 e r3 where p: "p = (i, r)" and f: "match_fraction r = (f, r2)"
    and e: "match_exponent r2 = (e, r3)"
    by (metis surj_pair)
  have "length r3 < length s"
    using match_integer_shrinks[of s i r] match_fraction_shrinks[OF f] match_exponent_shrinks[OF e] Some p
    by simp
  then show ?thesis using Some p f e by (auto simp: read_number_def split: sum.splits)
qed (simp add: read_number_def)

lemma read_value_cases:
  obtains (string) "read_value (Suc n) (c # r) =
      (case scan_string (Suc (length r)) r [] of Read t rest \<Rightarrow> Read (PyStr t) rest | Fail e \<Rightarrow> Fail e | NoFuel \<Rightarrow> NoFuel)"
  | (empty) v where "skip_ws r \<noteq> []" "read_value (Suc n) (c # r) = Read v (tl (skip_ws r))"
  | (members) "read_value (Suc n) (c # r) = (case read_members n (skip_ws r) [] of
        Read ms rest \<Rightarrow> (case object_pairs ms [] of Inl e \<Rightarrow> Fail e | Inr d \<Rightarrow> Read (PyDict d) rest)
      | Fail e \<Rightarrow> Fail e | NoFuel \<Rightarrow> NoFuel)"
  | (elements) "read_value (Suc n) (c # r) = (case read_elements n (skip_ws r) [] of
        Read vs rest \<Rightarrow> Read (PyList vs) rest | Fail e \<Rightarrow> Fail e | NoFuel \<Rightarrow> NoFuel)"
  | (literal) v k where "0 < k" "read_value (Suc n) (c # r) = Read v (drop k (c # r))"
  | (failing) e where "read_value (Suc n) (c # r) = Fail e"
  | (number) "read_value (Suc n) (c # r) = read_number (c # r)"
proof -
  note unfolded = read_value.simps(2)[of n "c # r", simplified list.case Let_def]
  consider "c = CHR 0x22" | "c = CHR ''{''" | "c = CHR ''[''"
    | "c \<notin> {CHR 0x22, CHR ''{'', CHR ''[''}" by blast
  then show ?thesis
  proof cases
    case 1
    then show ?thesis using unfolded string by simp
  next
    case 2
    then show ?thesis using unfolded members empty
      by (cases "skip_ws r \<noteq> [] \<and> hd (skip_ws r) = CHR ''}''") simp_all
  next
    case 3
    then show ?thesis using unfolded elements empty
      by (cases "skip_ws r \<noteq> [] \<and> hd (skip_ws r) = CHR '']''") simp_all
  next
    case 4
    then have "read_value (Suc n) (c # r) =
        (if starts ''null'' (c # r) then Read PyNone (drop 4 (c # r))
         else if starts ''true'' (c # r) then Read (PyBool True) (drop 4 (c # r))
         else if starts ''false'' (c # r) then Read (PyBool False) (drop 5 (c # r))
         else if starts ''NaN'' (c # r) then Fail (reject_constant ''NaN'')
         else if starts ''Infinity'' (c # r) then Fail (reject_constant ''Infinity'')
         else if starts ''-Infinity'' (c # r) then Fail (reject_constant ''-Infinity'')
         else read_number (c # r))"
      using unfolded by simp
    then show ?thesis using literal[of 4] literal[of 5] failing number
      by (metis zero_less_numeral)
  qed
qed

lemma read_shrinks:
  "(\<forall>v rest. read_value n s = Read v rest \<longrightarrow> length rest < length s)"
  "(\<forall>v rest. read_elements n s acc = Read v rest \<longrightarrow> length rest < length s)"
  "(\<forall>v rest. read_members n s acc' = Read v rest \<longrightarrow> length rest < length s)"
proof (induction n arbitrary: s acc acc')
  case 0
  {
    case 1 then show ?case by (simp add: read_value.simps)
  next
    case 2 then show ?case by (simp add: read_elements.simps)
  next
    case 3 then show ?case by (simp add: read_members.simps)
  }
next
  case (Suc n)
  {
    case 1
    show ?case
    proof (intro allI impI)
      fix v rest assume a: "read_value (Suc n) s = Read v rest"
      then obtain c r where s: "s = c # r" by (cases s) (simp_all add: read_value.simps)
      note a' = a[unfolded s]
      have "length rest < length (c # r)"
      proof (cases rule: read_value_cases[of n c r])
        case string
        then obtain t where "scan_string (Suc (length r)) r [] = Read t rest"
          using a' by (auto split: reading.splits)
        then have "length rest < length r" using scan_string_shrinks by blast
        then show ?thesis by simp
      next
        case empty
        then show ?thesis using length_skip_ws[of r] a' by auto
      next
        case members
        then obtain ms where "read_members n (skip_ws r) [] = Read ms rest"
          using a' by (auto split: reading.splits sum.splits)
        then show ?thesis using Suc(3) length_skip_ws[of r] by fastforce
      next
        case elements
        then obtain vs where "read_elements n (skip_ws r) [] = Read vs rest"
          using a' by (auto split: reading.splits)
        then show ?thesis using Suc(2) length_skip_ws[of r] by fastforce
      next
        case (literal v k)
        then show ?thesis using a' by (cases k) auto
      next
        case failing
        then show ?thesis using a' by simp
      next
        case number
        then show ?thesis using read_number_shrinks a' by metis
      qed
      then show "length rest < length s" unfolding s .
    qed
  next
    case 2
    show ?case
    proof (intro allI impI)
      fix v rest assume "read_elements (Suc n) s acc = Read v rest"
      then obtain u t where u: "read_value n s = Read u t"
        and r: "length rest < length (skip_ws t) \<or>
          (skip_ws t \<noteq> [] \<and> read_elements n (skip_ws (tl (skip_ws t))) (acc @ [u]) = Read v rest)"
        by (auto simp: read_elements.simps Let_def split: reading.splits if_splits)
      have "length t < length s" using Suc(1)[of s] u by blast
      moreover have "length rest < length (skip_ws t) \<or> length rest < length (skip_ws (tl (skip_ws t)))"
        using r Suc(2) by blast
      ultimately show "length rest < length s"
        using length_skip_ws[of t] length_skip_ws[of "tl (skip_ws t)"] by auto
    qed
  next
    case 3
    show ?case
    proof (intro allI impI)
      fix v rest assume "read_members (Suc n) s acc' = Read v rest"
      then obtain k q u t where q: "scan_string (length s) (tl s) [] = Read k q"
        and u: "read_value n (skip_ws (tl (skip_ws q))) = Read u t"
        and r: "length rest < length (skip_ws t) \<or>
          (skip_ws t \<noteq> [] \<and> read_members n (skip_ws (tl (skip_ws t))) (acc' @ [(k, u)]) = Read v rest)"
        by (auto simp: read_members.simps Let_def split: reading.splits if_splits)
      have "length t < length (skip_ws (tl (skip_ws q)))" using Suc(1) u by blast
      moreover have "length q < length (tl s)" using scan_string_shrinks q by blast
      moreover have "length rest < length (skip_ws t) \<or> length rest < length (skip_ws (tl (skip_ws t)))"
        using r Suc(3) by blast
      ultimately show "length rest < length s"
        using length_skip_ws[of t] length_skip_ws[of "tl (skip_ws t)"] length_skip_ws[of q]
          length_skip_ws[of "tl (skip_ws q)"] by auto
    qed
  }
qed

lemma read_fuel:
  "2 * length s < n \<Longrightarrow> read_value n s \<noteq> NoFuel"
  "2 * length s + 1 < n \<Longrightarrow> read_elements n s acc \<noteq> NoFuel"
  "2 * length s + 1 < n \<Longrightarrow> read_members n s acc' \<noteq> NoFuel"
proof (induction n arbitrary: s acc acc')
  case 0
  {
    case 1 then show ?case by simp
  next
    case 2 then show ?case by simp
  next
    case 3 then show ?case by simp
  }
next
  case (Suc n)
  {
    case 1
    show ?case
    proof (cases s)
      case (Cons c r)
      have "2 * length (skip_ws r) + 1 < n" using 1 Cons length_skip_ws[of r] by simp
      then have "read_members n (skip_ws r) [] \<noteq> NoFuel" "read_elements n (skip_ws r) [] \<noteq> NoFuel"
        using Suc(2) Suc(3) by blast+
      moreover have "scan_string (Suc (length r)) r [] \<noteq> NoFuel" "read_number (c # r) \<noteq> NoFuel"
        using scan_string_shrinks read_number_shrinks by blast+
      ultimately show ?thesis
        unfolding Cons
        by (cases rule: read_value_cases[of n c r]) (simp_all split: reading.splits sum.splits)
    qed (simp add: read_value.simps)
  next
    case 2
    have v: "read_value n s \<noteq> NoFuel" using Suc(1) 2 by simp
    have "read_elements n (skip_ws (tl (skip_ws rest))) (acc @ [u]) \<noteq> NoFuel"
      if "read_value n s = Read u rest" for u rest
    proof -
      have "length rest < length s" using that read_shrinks(1) by blast
      then have "2 * length (skip_ws (tl (skip_ws rest))) + 1 < n"
        using 2 length_skip_ws[of "tl (skip_ws rest)"] length_skip_ws[of rest] by simp
      then show ?thesis by (rule Suc(2))
    qed
    then show ?case using v by (auto simp: read_elements.simps Let_def split: reading.splits)
  next
    case 3
    have k: "scan_string (length s) (tl s) [] \<noteq> NoFuel" using scan_string_shrinks by blast
    have later: "read_value n (skip_ws (tl (skip_ws q))) \<noteq> NoFuel \<and>
        (\<forall>u rest. read_value n (skip_ws (tl (skip_ws q))) = Read u rest \<longrightarrow>
           read_members n (skip_ws (tl (skip_ws rest))) (acc' @ [(k, u)]) \<noteq> NoFuel)"
      if "scan_string (length s) (tl s) [] = Read k q" for k q
    proof -
      have "length q < length (tl s)" using that scan_string_shrinks by blast
      then have q: "2 * length (skip_ws (tl (skip_ws q))) + 2 < n"
        using 3 length_skip_ws[of "tl (skip_ws q)"] length_skip_ws[of q] by simp
      have "2 * length (skip_ws (tl (skip_ws rest))) + 1 < n"
        if "read_value n (skip_ws (tl (skip_ws q))) = Read u rest" for u rest
      proof -
        have "length rest < length (skip_ws (tl (skip_ws q)))" using that read_shrinks(1) by blast
        then show ?thesis
          using q length_skip_ws[of "tl (skip_ws rest)"] length_skip_ws[of rest] by simp
      qed
      then show ?thesis using Suc(1) Suc(3) q by simp
    qed
    then show ?case using k by (auto simp: read_members.simps Let_def split: reading.splits)
  }
qed

lemma read_enough_fuel: "json_loads text \<noteq> NoFuel"
proof -
  have "read_value (2 * length text + 2) (skip_ws text) \<noteq> NoFuel"
    by (rule read_fuel(1)) (use length_skip_ws[of "text"] in simp)
  then show ?thesis by (auto simp: json_loads_def Let_def split: reading.splits)
qed

subsection \<open>The round trip\<close>

text \<open>A value within the bounds: its nesting and the length of its strings.\<close>

fun fits :: "nat \<Rightarrow> nat \<Rightarrow> nat \<Rightarrow> json_value \<Rightarrow> bool" where
  "fits depth max_depth max_len JNull \<longleftrightarrow> depth \<le> max_depth"
| "fits depth max_depth max_len (JBool b) \<longleftrightarrow> depth \<le> max_depth"
| "fits depth max_depth max_len (JInt n) \<longleftrightarrow> depth \<le> max_depth"
| "fits depth max_depth max_len (JStr s) \<longleftrightarrow> depth \<le> max_depth \<and> length s \<le> max_len"
| "fits depth max_depth max_len (JObject es) \<longleftrightarrow> depth \<le> max_depth \<and>
     (\<forall>(k, v) \<in> set es. length k \<le> max_len \<and> fits (Suc depth) max_depth max_len v)"
| "fits depth max_depth max_len (JArray vs) \<longleftrightarrow> depth \<le> max_depth \<and>
     (\<forall>v \<in> set vs. fits (Suc depth) max_depth max_len v)"

lemma validated_text_fits: "length s \<le> max_len \<Longrightarrow> validated_text max_len s = Inr s"
proof -
  have "\<not> 0xD800 \<le> (of_char c :: nat)" for c :: char using nat_of_char_less_256[of c] by linarith
  then show "length s \<le> max_len \<Longrightarrow> ?thesis"
    by (simp add: validated_text_def list_ex_iff)
qed

lemma freeze_items_back:
  "\<forall>v \<in> set vs. freeze d m l (to_python v) = Inr v \<Longrightarrow> freeze_items d m l (map to_python vs) = Inr vs"
  by (induction vs) simp_all

lemma freeze_entries_back:
  "\<forall>(k, v) \<in> set es. length k \<le> l \<and> freeze d m l (to_python v) = Inr v \<Longrightarrow>
   freeze_entries d m l (map (\<lambda>(k, v). (k, to_python v)) es) = Inr es"
  by (induction es) (auto simp: validated_text_fits)

lemma freeze_to_python:
  "wf_json v \<Longrightarrow> fits d m l v \<Longrightarrow> freeze d m l (to_python v) = Inr v"
proof (induction d m l v rule: fits.induct)
  case (5 d m l es)
  then have "freeze_entries (Suc d) m l (map (\<lambda>(k, v). (k, to_python v)) es) = Inr es"
    by (intro freeze_entries_back) fastforce
  then show ?case using 5 by (simp add: json_object_def sort_key_id_if_sorted)
next
  case (6 d m l vs)
  then have "freeze_items (Suc d) m l (map to_python vs) = Inr vs"
    by (intro freeze_items_back) auto
  then show ?case using 6 by simp
qed (simp_all add: protocol_int_def validated_text_fits)

subsection \<open>What the reader accepts\<close>

fun wf_data :: "py_data \<Rightarrow> bool" where
  "wf_data (PyList vs) \<longleftrightarrow> (\<forall>v \<in> set vs. wf_data v)"
| "wf_data (PyDict es) \<longleftrightarrow> distinct (map fst es) \<and> (\<forall>e \<in> set es. wf_data (snd e))"
| "wf_data _ \<longleftrightarrow> True"

lemma object_pairs_ok:
  "object_pairs ps r = Inr d \<Longrightarrow> distinct (map fst r) \<Longrightarrow>
   \<forall>e \<in> set r \<union> set ps. wf_data (snd e) \<Longrightarrow> wf_data (PyDict d)"
proof (induction ps r rule: object_pairs.induct)
  case (2 k v ps r)
  then have fresh: "k \<notin> set (dict_keys r)" and ok: "object_pairs ps (dict_set k v r) = Inr d"
    by (simp_all split: if_splits)
  show ?case
    using 2(1) fresh ok 2(3,4) by (simp add: dict_set_fresh del: set_map)
qed simp

lemma read_wf_data:
  "\<forall>v rest. read_value n s = Read v rest \<longrightarrow> wf_data v"
  "\<forall>vs rest. (\<forall>v \<in> set acc. wf_data v) \<longrightarrow> read_elements n s acc = Read vs rest \<longrightarrow> (\<forall>v \<in> set vs. wf_data v)"
  "\<forall>ms rest. (\<forall>e \<in> set acc'. wf_data (snd e)) \<longrightarrow> read_members n s acc' = Read ms rest \<longrightarrow>
     (\<forall>e \<in> set ms. wf_data (snd e))"
proof (induction n arbitrary: s acc acc')
  case 0
  {
    case 1 then show ?case by (simp add: read_value.simps)
  next
    case 2 then show ?case by (simp add: read_elements.simps)
  next
    case 3 then show ?case by (simp add: read_members.simps)
  }
next
  case (Suc n)
  {
    case 1
    show ?case
    proof (intro allI impI)
      fix v rest assume a: "read_value (Suc n) s = Read v rest"
      then obtain c r where s: "s = c # r" by (cases s) (simp_all add: read_value.simps)
      have objs: "wf_data (PyDict d)" if "read_members n (skip_ws r) [] = Read ms q" "object_pairs ms [] = Inr d"
        for ms q d
        using Suc(3)[of "[]" "skip_ws r"] that object_pairs_ok[of ms "[]" d] by simp
      have lists: "wf_data (PyList vs)" if "read_elements n (skip_ws r) [] = Read vs q" for vs q
        using Suc(2)[of "[]" "skip_ws r"] that by simp
      have numbers: "wf_data w" if "read_number s = Read w q" for w q
        using that by (auto simp: read_number_def split: option.splits prod.splits sum.splits if_splits)
      show "wf_data v"
        using a s objs lists numbers unfolding s
        by (simp add: read_value.simps Let_def split: reading.splits if_splits sum.splits) auto
    qed
  next
    case 2
    show ?case
    proof (intro allI impI)
      fix vs rest assume acc: "\<forall>v \<in> set acc. wf_data v" and a: "read_elements (Suc n) s acc = Read vs rest"
      then obtain u t where u: "read_value n s = Read u t"
        and r: "vs = acc @ [u] \<or> read_elements n (skip_ws (tl (skip_ws t))) (acc @ [u]) = Read vs rest"
        by (auto simp: read_elements.simps Let_def split: reading.splits if_splits)
      have ok: "\<forall>v \<in> set (acc @ [u]). wf_data v" using acc u Suc(1) by auto
      then show "\<forall>v \<in> set vs. wf_data v" using r Suc(2) by metis
    qed
  next
    case 3
    show ?case
    proof (intro allI impI)
      fix ms rest assume acc: "\<forall>e \<in> set acc'. wf_data (snd e)" and a: "read_members (Suc n) s acc' = Read ms rest"
      then obtain k q u t where u: "read_value n (skip_ws (tl (skip_ws q))) = Read u t"
        and r: "ms = acc' @ [(k, u)] \<or> read_members n (skip_ws (tl (skip_ws t))) (acc' @ [(k, u)]) = Read ms rest"
        by (auto simp: read_members.simps Let_def split: reading.splits if_splits)
      have ok: "\<forall>e \<in> set (acc' @ [(k, u)]). wf_data (snd e)" using acc u Suc(1) by auto
      then show "\<forall>e \<in> set ms. wf_data (snd e)" using r Suc(3) by metis
    qed
  }
qed

lemma json_loads_wf_data: "json_loads s = Read v rest \<Longrightarrow> wf_data v"
  using read_wf_data(1) by (auto simp: json_loads_def Let_def split: reading.splits if_splits)

lemma validated_text_ok: "validated_text l s = Inr t \<Longrightarrow> t = s \<and> length t \<le> l"
  by (simp add: validated_text_def split: if_splits)

lemma freeze_ok:
  "freeze d m l x = Inr v \<Longrightarrow> wf_data x \<Longrightarrow> wf_json v \<and> fits d m l v"
  "freeze_items d m l xs = Inr vs \<Longrightarrow> \<forall>x \<in> set xs. wf_data x \<Longrightarrow>
     \<forall>v \<in> set vs. wf_json v \<and> fits d m l v"
  "freeze_entries d m l ps = Inr es \<Longrightarrow> \<forall>e \<in> set ps. wf_data (snd e) \<Longrightarrow>
     map fst es = map fst ps \<and> (\<forall>(k, v) \<in> set es. length k \<le> l \<and> wf_json v \<and> fits d m l v)"
proof (induction d m l x and d m l xs and d m l ps arbitrary: v and vs and es
    rule: freeze_freeze_items_freeze_entries.induct)
  case (1 d m l x)
  have le: "d \<le> m" using 1(3) by (simp split: if_splits)
  show ?case
  proof (cases x)
    case (PyList xs)
    then obtain vs where "freeze_items (Suc d) m l xs = Inr vs" "v = JArray vs"
      using 1(3) le by (auto split: sum.splits)
    then show ?thesis using 1(1)[OF _ PyList] 1(4) PyList le by simp
  next
    case (PyDict ps)
    then obtain es where es: "freeze_entries (Suc d) m l ps = Inr es" "v = json_object es"
      using 1(3) le by (auto split: sum.splits)
    then have "map fst es = map fst ps \<and> (\<forall>(k, v) \<in> set es. length k \<le> l \<and> wf_json v \<and> fits (Suc d) m l v)"
      using 1(2)[OF _ PyDict] 1(4) PyDict le by simp
    moreover have "distinct (map fst ps)" using 1(4) PyDict by simp
    moreover have "distinct (map fst (sort_key fst es)) \<longleftrightarrow> distinct (map fst es)"
      by (metis mset_map mset_sort mset_eq_imp_distinct_iff)
    ultimately show ?thesis using es(2) le by (auto simp: json_object_def)
  qed (use 1(3) le validated_text_ok in \<open>auto simp: protocol_int_def split: if_splits sum.splits\<close>)
next
  case (3 d m l v vs)
  then show ?case by (auto split: sum.splits)
next
  case (5 d m l k v es)
  then show ?case using validated_text_ok by (fastforce split: sum.splits)
qed simp_all

text \<open>Freezing what was thawed gives that value back or fails.\<close>

lemma freeze_items_only:
  "freeze_items d m l (map to_python ws) = Inr vs \<Longrightarrow>
   \<forall>w \<in> set ws. \<forall>v. freeze d m l (to_python w) = Inr v \<longrightarrow> v = w \<Longrightarrow> vs = ws"
  by (induction ws arbitrary: vs) (auto split: sum.splits simp del: freeze.simps)

lemma freeze_entries_only:
  "freeze_entries d m l (map (\<lambda>(k, v). (k, to_python v)) ws) = Inr es \<Longrightarrow>
   \<forall>(k, w) \<in> set ws. \<forall>v. freeze d m l (to_python w) = Inr v \<longrightarrow> v = w \<Longrightarrow> es = ws"
proof (induction ws arbitrary: es)
  case (Cons e ws)
  then show ?case using validated_text_ok by (cases e) (fastforce split: sum.splits simp del: freeze.simps)
qed simp

lemma freeze_only:
  "wf_json w \<Longrightarrow> freeze d m l (to_python w) = Inr v \<Longrightarrow> v = w"
proof (induction w arbitrary: d v)
  case (JStr s)
  then show ?case using validated_text_ok by (fastforce split: sum.splits if_splits)
next
  case (JObject ws)
  from JObject.prems obtain es where es: "freeze_entries (Suc d) m l (map (\<lambda>(k, v). (k, to_python v)) ws) = Inr es"
    and v: "v = json_object es"
    by (auto split: sum.splits if_splits simp del: freeze_entries.simps)
  have "es = ws"
    using es
  proof (rule freeze_entries_only)
    show "\<forall>(k, w) \<in> set ws. \<forall>v. freeze (Suc d) m l (to_python w) = Inr v \<longrightarrow> v = w"
      using JObject.IH JObject.prems(1) by (fastforce simp del: freeze.simps)
  qed
  then show ?case using v JObject.prems(1) by (simp add: json_object_def sort_key_id_if_sorted)
next
  case (JArray ws)
  from JArray.prems obtain vs where vs: "freeze_items (Suc d) m l (map to_python ws) = Inr vs" and v: "v = JArray vs"
    by (auto split: sum.splits if_splits simp del: freeze_items.simps)
  then show ?case using freeze_items_only[OF vs] JArray.IH JArray.prems(1) by (simp del: freeze.simps)
qed (auto split: if_splits)

lemma parse_json_text_ok:
  "parse_json_text s location md ml = Some (Ok v) \<Longrightarrow> wf_json v \<and> fits 0 md ml v"
  using json_loads_wf_data freeze_ok(1)
  by (auto simp: parse_json_text_def Let_def json_problem_def mk_err_def
      split: reading.splits sum.splits json_error.splits simp del: freeze.simps)

lemma parse_json_wf:
  "parse_json data location md ml = Some (Ok v) \<Longrightarrow> wf_json v \<and> fits 0 md ml v"
  using parse_json_text_ok
  by (auto simp: parse_json_def json_problem_def mk_err_def split: decoded.splits)

lemma parse_canonical_json:
  assumes "wf_json v" and "fits 0 max_depth max_len v"
  shows "parse_json (canonical_json_bytes v) location max_depth max_len = Some (Ok v)"
  unfolding parse_json_def canonical_json_bytes_def utf8_decode_encode
  using assms by (simp add: parse_json_text_def json_loads_canonical freeze_to_python del: freeze.simps)

lemma parse_canonical_iff:
  assumes "wf_json w"
  shows "parse_json (canonical_json_bytes w) location md ml = Some (Ok v) \<longleftrightarrow> v = w \<and> fits 0 md ml w"
proof
  assume L: "parse_json (canonical_json_bytes w) location md ml = Some (Ok v)"
  then have "freeze 0 md ml (to_python w) = Inr v"
    unfolding parse_json_def canonical_json_bytes_def utf8_decode_encode
    using assms
    by (auto simp: parse_json_text_def json_loads_canonical Let_def json_problem_def mk_err_def
        split: sum.splits json_error.splits simp del: freeze.simps)
  then have "v = w" by (rule freeze_only[OF assms])
  then show "v = w \<and> fits 0 md ml w" using parse_json_wf[OF L] by simp
qed (use assms parse_canonical_json in blast)

text \<open>
  C27. \<open>parse_json\<close> and the canonical serialisation agree. Whatever bytes it accepts, the value is
  well-formed (sorted unique keys, integers of 64 bits) and within the bounds on nesting and string
  length; and it reads the canonical bytes of such a value back as that value, and of no other.
\<close>

theorem parse_json_canonical:
  "(\<forall>data. parse_json data location max_depth max_len = Some (Ok v) \<longrightarrow>
      parse_json (canonical_json_bytes v) location max_depth max_len = Some (Ok v)) \<and>
   (parse_json (canonical_json_bytes v) location max_depth max_len = Some (Ok v)
      \<longleftrightarrow> wf_json v \<and> fits 0 max_depth max_len v)"
  using parse_json_wf parse_canonical_json by blast

theorem parse_json_canonical_witness:
  "parse_json (canonical_json_bytes (JObject [(''a'', JArray [JInt 1, JNull])])) None MAX_DEPTH MAX_STRING_LENGTH =
     Some (Ok (JObject [(''a'', JArray [JInt 1, JNull])]))"
  unfolding parse_json_canonical[THEN conjunct2]
  by (simp add: protocol_int_def MIN_PROTOCOL_INTEGER_def MAX_PROTOCOL_INTEGER_def)

subsection \<open>Objects with literal keys\<close>

lemma wf_json_object:
  "distinct (map fst es) \<Longrightarrow> list_all (\<lambda>e. wf_json (snd e)) es \<Longrightarrow> wf_json (json_object es)"
proof -
  assume d: "distinct (map fst es)" and w: "list_all (\<lambda>e. wf_json (snd e)) es"
  have "distinct (map fst (sort_key fst es)) \<longleftrightarrow> distinct (map fst es)"
    by (rule mset_eq_imp_distinct_iff) simp
  then show ?thesis using d w by (simp add: json_object_def list_all_iff)
qed

lemma wf_json_array: "list_all wf_json vs \<Longrightarrow> wf_json (JArray vs)"
  by (simp add: list_all_iff)

lemma json_object_eq:
  assumes "map fst es = map fst fs" and "distinct (map fst es)"
  shows "json_object es = json_object fs \<longleftrightarrow> es = fs"
proof
  assume "json_object es = json_object fs"
  then have "set es = set fs" unfolding json_object_def by (metis json_value.inject(4) set_sort)
  then have m: "map_of es = map_of fs" using assms by (metis map_of_inject_set)
  have "map snd es = map (\<lambda>k. the (map_of es k)) (map fst es)"
    using assms(2) by (auto intro!: map_cong[OF refl])
  moreover have "map snd fs = map (\<lambda>k. the (map_of fs k)) (map fst fs)"
    using assms by (auto intro!: map_cong[OF refl])
  ultimately have "map snd es = map snd fs" using m assms(1) by simp
  then show "es = fs" using assms(1) by (metis zip_map_fst_snd)
qed simp

end
