(* ===== verification/Paths.thy ===== *)
theory Paths
  imports Domain
begin

text \<open>
  Safe relative paths (\<open>agent_artifacts/protocol/paths.py\<close>) and the three functions of
  \<open>posixpath\<close> that the store, the configuration and the installation contexts use to place them
  (\<open>isabs\<close>, \<open>join\<close>, \<open>normpath\<close>). The refusals of unpaired surrogates and of texts that are not in NFC are branches of
  the model as of the code, but neither is ever taken on the characters of the model (up to U+00FF), so nothing here is a
  statement about them.
\<close>

definition PATH_INVALID :: diagnostic_code where
  "PATH_INVALID = ''protocol-path-invalid''"

datatype safe_relative_path = SafeRelativePath (path_parts: "string list")

definition path_str :: "safe_relative_path \<Rightarrow> string" where
  "path_str p = join ''/'' (path_parts p)"

instantiation safe_relative_path :: linorder
begin
definition less_eq_safe_relative_path :: "safe_relative_path \<Rightarrow> safe_relative_path \<Rightarrow> bool" where
  [dom_order]: "less_eq_safe_relative_path a b \<longleftrightarrow> path_parts a \<le> path_parts b"
definition less_safe_relative_path :: "safe_relative_path \<Rightarrow> safe_relative_path \<Rightarrow> bool" where
  [dom_order]: "less_safe_relative_path a b \<longleftrightarrow> path_parts a < path_parts b"
instance
  by standard (auto simp: dom_order intro: safe_relative_path.expand)
end

text \<open>
  \<open>raw.encode("utf-8", errors="strict")\<close> fails on a surrogate code point, and
  \<open>unicodedata.normalize("NFC", raw)\<close> is the identity on texts of code points up to U+00FF:
  none of them is a combining character or has another canonical composition.
\<close>

definition has_surrogate :: "string \<Rightarrow> bool" where
  "has_surrogate s \<longleftrightarrow> list_ex (\<lambda>c. 0xD800 \<le> (of_char c :: nat) \<and> (of_char c :: nat) \<le> 0xDFFF) s"

definition normalize_nfc :: "string \<Rightarrow> string" where
  "normalize_nfc s = s"

definition is_letter :: "char \<Rightarrow> bool" where
  "is_letter c \<longleftrightarrow> is_upper c \<or> is_lower c"

text \<open>\<open>re.compile(r"^[A-Za-z]:($|/)").match\<close>: \<open>$\<close> also matches before a final newline.\<close>

definition windows_drive_match :: "string \<Rightarrow> bool" where
  "windows_drive_match raw =
     (case raw of
        c # d # rest \<Rightarrow> is_letter c \<and> d = CHR '':'' \<and>
          (rest = [] \<or> rest = [CHR 0x0A] \<or> (rest \<noteq> [] \<and> hd rest = CHR ''/''))
      | _ \<Rightarrow> False)"

definition is_control :: "char \<Rightarrow> bool" where
  "is_control c \<longleftrightarrow> (of_char c :: nat) < 32 \<or> (of_char c :: nat) = 127"

definition path_invalid :: "string \<Rightarrow> string \<Rightarrow> source_location option \<Rightarrow> 'a result" where
  "path_invalid raw reason location =
     mk_err [mk_diagnostic PATH_INVALID ERROR
               (''invalid relative path '' @ repr_str raw @ '': '' @ reason) location [] []]"

definition parse_relative_path ::
  "string \<Rightarrow> source_location option \<Rightarrow> safe_relative_path result" where
  "parse_relative_path raw location =
     (if raw = [] then path_invalid raw ''path is empty'' location
      else if has_surrogate raw then
        path_invalid raw ''path contains an unpaired Unicode surrogate'' location
      else if normalize_nfc raw \<noteq> raw then
        path_invalid raw ''path must use NFC Unicode normalization'' location
      else if hd raw = CHR ''/'' \<or> windows_drive_match raw then
        path_invalid raw ''absolute paths are forbidden'' location
      else if CHR 0x5C \<in> set raw then
        path_invalid raw ''backslash is not a protocol separator'' location
      else if list_ex is_control raw then
        path_invalid raw ''control characters are forbidden'' location
      else let parts = split_on CHR ''/'' raw in
        if list_ex (\<lambda>part. part = []) parts then
          path_invalid raw ''empty path segments are forbidden'' location
        else if list_ex (\<lambda>part. part = ''.'' \<or> part = ''..'') parts then
          path_invalid raw ''dot and parent segments are forbidden'' location
        else Ok (SafeRelativePath parts))"

subsection \<open>posixpath\<close>

definition isabs :: "string \<Rightarrow> bool" where
  "isabs path \<longleftrightarrow> path \<noteq> [] \<and> hd path = CHR ''/''"

definition posix_join :: "string \<Rightarrow> string \<Rightarrow> string" where
  "posix_join a b =
     (if isabs b then b
      else if a = [] \<or> last a = CHR ''/'' then a @ b
      else a @ ''/'' @ b)"

definition initial_slashes :: "string \<Rightarrow> nat" where
  "initial_slashes path =
     (if \<not> isabs path then 0
      else if take 2 path = ''//'' \<and> take 3 path \<noteq> ''///'' then 2 else 1)"

fun norm_comps :: "bool \<Rightarrow> string list \<Rightarrow> string list \<Rightarrow> string list" where
  "norm_comps absolute [] new = new"
| "norm_comps absolute (cmp # comps) new =
     (if cmp = [] \<or> cmp = ''.'' then norm_comps absolute comps new
      else if cmp \<noteq> ''..'' \<or> (\<not> absolute \<and> new = []) \<or> (new \<noteq> [] \<and> last new = ''..'')
        then norm_comps absolute comps (new @ [cmp])
      else norm_comps absolute comps (butlast new))"

definition normpath :: "string \<Rightarrow> string" where
  "normpath path =
     (if path = [] then ''.''
      else let n = initial_slashes path;
               p = replicate n CHR ''/''
                     @ join ''/'' (norm_comps (0 < n) (split_on CHR ''/'' path) [])
           in if p = [] then ''.'' else p)"

subsection \<open>Exactly the safe paths are accepted\<close>

text \<open>A proper component names one entry of a directory.\<close>

definition proper_component :: "string \<Rightarrow> bool" where
  "proper_component s \<longleftrightarrow> s \<noteq> [] \<and> s \<noteq> ''.'' \<and> s \<noteq> ''..'' \<and> CHR ''/'' \<notin> set s"

definition is_drive :: "string \<Rightarrow> bool" where
  "is_drive s \<longleftrightarrow> (case s of [c, d] \<Rightarrow> is_letter c \<and> d = CHR '':'' | _ \<Rightarrow> False)"

definition safe_path :: "safe_relative_path \<Rightarrow> bool" where
  "safe_path p \<longleftrightarrow>
     path_parts p \<noteq> [] \<and> list_all proper_component (path_parts p) \<and> \<not> is_drive (hd (path_parts p))
     \<and> (\<forall>part \<in> set (path_parts p). CHR 0x5C \<notin> set part \<and> \<not> list_ex is_control part)"

lemma proper_hd: "proper_component c \<Longrightarrow> c \<noteq> [] \<and> hd c \<noteq> CHR ''/''"
  by (cases c) (auto simp: proper_component_def)

lemma no_surrogate [simp]: "\<not> has_surrogate s"
proof -
  have "\<not> 0xD800 \<le> (of_char c :: nat)" for c
    using nat_of_char_less_256[of c] by linarith
  then show ?thesis by (simp add: has_surrogate_def list_ex_iff)
qed

lemma path_invalid_not_Ok [simp]: "path_invalid raw r l \<noteq> Ok p"
  by (simp add: path_invalid_def)

lemma set_split_on_iff:
  "x \<noteq> c \<Longrightarrow> x \<in> set s \<longleftrightarrow> (\<exists>p \<in> set (split_on c s). x \<in> set p)"
  by (induction s) (auto split: list.splits if_splits)

lemma parse_relative_path_Ok:
  "parse_relative_path raw location = Ok p \<longleftrightarrow>
     raw \<noteq> [] \<and> hd raw \<noteq> CHR ''/'' \<and> \<not> windows_drive_match raw \<and> CHR 0x5C \<notin> set raw
     \<and> \<not> list_ex is_control raw \<and> p = SafeRelativePath (split_on CHR ''/'' raw)
     \<and> list_all proper_component (split_on CHR ''/'' raw)"
  using split_on_parts_no_sep
  by (auto simp: parse_relative_path_def normalize_nfc_def Let_def list_all_iff list_ex_iff
      proper_component_def)

lemma join_slash_eq_Nil: "join ''/'' ps = [] \<longleftrightarrow> ps = [] \<or> ps = [[]]"
  by (cases ps; cases "tl ps") auto

lemma hd_join_slash: "ps \<noteq> [] \<Longrightarrow> hd ps \<noteq> [] \<Longrightarrow> hd (join ''/'' ps) = hd (hd ps)"
  by (cases ps) (auto simp: hd_append)

lemma proper_split_join:
  "ps \<noteq> [] \<Longrightarrow> list_all proper_component ps \<Longrightarrow> split_on CHR ''/'' (join ''/'' ps) = ps"
  by (rule split_on_join) (auto simp: list_all_iff proper_component_def)

lemma drive_match_iff:
  assumes "list_all proper_component (p # ps)" and "\<not> list_ex is_control p"
  shows "windows_drive_match (join ''/'' (p # ps)) \<longleftrightarrow> is_drive p"
proof -
  have nl: "CHR 0x0A \<notin> set p" using assms(2) by (auto simp: list_ex_iff is_control_def)
  have sl: "CHR ''/'' \<notin> set p" "p \<noteq> []" using assms(1) by (auto simp: proper_component_def)
  show ?thesis
  proof (cases p rule: remdups_adj.cases)
    case (3 x y xs)
    then show ?thesis
      using nl sl by (cases xs; cases ps) (auto simp: windows_drive_match_def is_drive_def)
  qed (use sl in \<open>auto simp: windows_drive_match_def is_drive_def is_letter_def py_simps
          less_eq_char_def split: list.splits\<close>)
qed

lemma in_join_slash:
  "x \<noteq> CHR ''/'' \<Longrightarrow> x \<in> set (join ''/'' ps) \<longleftrightarrow> (\<exists>p \<in> set ps. x \<in> set p)"
  by (induction ps) (auto split: if_splits)

lemma char_not_slash: "is_control x \<Longrightarrow> x \<noteq> CHR ''/''" "CHR 0x5C \<noteq> CHR ''/''"
  by (auto simp: is_control_def)

lemma parse_relative_path_Ok_iff:
  "parse_relative_path raw location = Ok p \<longleftrightarrow> safe_path p \<and> raw = path_str p"
proof
  assume L: "parse_relative_path raw location = Ok p"
  let ?ps = "split_on CHR ''/'' raw"
  from L have raw: "raw = join ''/'' ?ps" and p: "p = SafeRelativePath ?ps"
    and proper: "list_all proper_component ?ps" and drive: "\<not> windows_drive_match raw"
    and clean: "CHR 0x5C \<notin> set raw" "\<not> list_ex is_control raw"
    by (simp_all add: parse_relative_path_Ok join_split_on)
  have parts: "CHR 0x5C \<notin> set part \<and> \<not> list_ex is_control part" if "part \<in> set ?ps" for part
    using clean set_split_on[OF that] by (auto simp: list_ex_iff)
  obtain q qs where q: "?ps = q # qs" by (meson neq_Nil_conv split_on_not_Nil)
  have "\<not> is_drive q"
    using drive_match_iff[of q qs] proper drive parts[of q] raw q by auto
  with p q proper parts show "safe_path p \<and> raw = path_str p"
    using raw by (auto simp: safe_path_def path_str_def)
next
  assume R: "safe_path p \<and> raw = path_str p"
  obtain q qs where q: "path_parts p = q # qs" using R by (auto simp: safe_path_def neq_Nil_conv)
  have proper: "list_all proper_component (q # qs)" using R q by (simp add: safe_path_def)
  have raw: "raw = join ''/'' (q # qs)" using R q by (simp add: path_str_def)
  have split: "split_on CHR ''/'' raw = q # qs"
    unfolding raw by (rule proper_split_join) (use proper in simp_all)
  have part: "CHR 0x5C \<notin> set a \<and> \<not> list_ex is_control a" if "a \<in> set (q # qs)" for a
    using R q that by (auto simp: safe_path_def)
  have "CHR 0x5C \<notin> set raw" "\<not> list_ex is_control raw"
    using part unfolding raw list_ex_iff by (metis in_join_slash char_not_slash)+
  moreover have "\<not> windows_drive_match raw"
    unfolding raw using R q proper part[of q] by (subst drive_match_iff) (auto simp: safe_path_def)
  moreover have "raw \<noteq> []" "hd raw \<noteq> CHR ''/''"
    using proper proper_hd[of q] by (auto simp: raw hd_append)
  ultimately show "parse_relative_path raw location = Ok p"
    using R q proper split by (simp add: parse_relative_path_Ok) (metis safe_relative_path.collapse)
qed

subsection \<open>A safe path stays below its root\<close>

text \<open>
  C30. \<open>parse_relative_path\<close> accepts exactly the renderings of safe paths and returns the path: a
  text of characters up to U+00FF is accepted if and only if it is a non-empty sequence of proper components (none empty,
  \<open>.\<close> or \<open>..\<close>) without backslash or control character that does not start with a drive letter. Such a text has no surrogate and is
  its own normal form NFC, so the two checks of the code for these decide nothing here.
\<close>

theorem parse_relative_path_iff:
  "parse_relative_path raw location = Ok p \<longleftrightarrow> safe_path p \<and> raw = path_str p"
  by (rule parse_relative_path_Ok_iff)

lemma norm_comps_proper:
  "list_all proper_component cs \<Longrightarrow> norm_comps a cs new = new @ cs"
  by (induction cs arbitrary: new) (auto simp: proper_component_def)

lemma norm_comps_absolute:
  "list_all (\<lambda>c. CHR ''/'' \<notin> set c) cs \<Longrightarrow> list_all proper_component new
    \<Longrightarrow> list_all proper_component (norm_comps True cs new)"
proof (induction cs arbitrary: new)
  case (Cons c cs)
  have "list_all proper_component (butlast new)"
    using Cons.prems by (auto simp: list_all_iff dest: in_set_butlastD)
  moreover have "last new \<noteq> ''..''" if "new \<noteq> []"
    using Cons.prems(2) that by (auto simp: list_all_iff proper_component_def dest: last_in_set)
  moreover have "proper_component c \<or> c = [] \<or> c = ''.'' \<or> c = ''..''"
    using Cons.prems(1) by (auto simp: proper_component_def)
  ultimately show ?case
    using Cons.IH Cons.prems by auto
qed simp

text \<open>The normal form of an absolute path: one or two slashes and proper components.\<close>

definition abs_path :: "nat \<Rightarrow> string list \<Rightarrow> string" where
  "abs_path n cs = replicate n CHR ''/'' @ join ''/'' cs"

lemma split_on_replicate: "split_on c (replicate n c @ s) = replicate n [] @ split_on c s"
  by (induction n) simp_all

lemma norm_comps_skip: "norm_comps a (replicate n [] @ cs) new = norm_comps a cs new"
  by (induction n) simp_all

lemma norm_comps_join:
  "list_all proper_component cs \<Longrightarrow> norm_comps a (split_on CHR ''/'' (join ''/'' cs)) [] = cs"
  by (cases "cs = []") (simp_all add: proper_split_join norm_comps_proper)

lemma initial_slashes_abs_path:
  assumes "n = 1 \<or> n = 2" and "list_all proper_component cs"
  shows "initial_slashes (abs_path n cs) = n"
proof -
  have "cs = [] \<or> (hd (join ''/'' cs) \<noteq> CHR ''/'' \<and> join ''/'' cs \<noteq> [])"
    using assms(2) proper_hd by (cases cs) (auto simp: hd_append)
  then show ?thesis
    using assms(1) by (cases "join ''/'' cs")
      (auto simp: initial_slashes_def abs_path_def isabs_def numeral_2_eq_2 numeral_3_eq_3)
qed

lemma normpath_abs_path:
  assumes "n = 1 \<or> n = 2" and "list_all proper_component cs"
  shows "normpath (abs_path n cs) = abs_path n cs"
proof -
  have "norm_comps (0 < n) (split_on CHR ''/'' (abs_path n cs)) [] = cs"
    using assms(2) by (simp add: abs_path_def split_on_replicate norm_comps_skip norm_comps_join)
  moreover have "abs_path n cs \<noteq> []" using assms(1) by (auto simp: abs_path_def)
  ultimately show ?thesis
    by (simp add: normpath_def initial_slashes_abs_path[OF assms]) (simp add: abs_path_def)
qed

lemma normalized_absolute:
  assumes "isabs r" and "normpath r = r"
  obtains n cs where "n = 1 \<or> n = 2" "list_all proper_component cs" "r = abs_path n cs"
proof -
  let ?cs = "norm_comps True (split_on CHR ''/'' r) []"
  have n: "initial_slashes r = 1 \<or> initial_slashes r = 2"
    using assms(1) by (simp add: initial_slashes_def)
  have "list_all proper_component ?cs"
    using split_on_parts_no_sep by (intro norm_comps_absolute) (auto simp: list_all_iff)
  moreover have "r = abs_path (initial_slashes r) ?cs"
    using assms n by (auto simp: normpath_def abs_path_def isabs_def Let_def split: if_splits)
  ultimately show ?thesis using n that by blast
qed

lemma last_abs_path:
  "n = 1 \<or> n = 2 \<Longrightarrow> list_all proper_component cs \<Longrightarrow>
    last (abs_path n cs) = CHR ''/'' \<longleftrightarrow> cs = []"
proof (induction cs rule: rev_induct)
  case (snoc c cs)
  have "join ''/'' (cs @ [c]) = (if cs = [] then c else join ''/'' cs @ ''/'' @ c)"
    by (induction cs) auto
  then show ?case using snoc.prems
    by (auto simp: abs_path_def proper_component_def last_append dest: last_in_set)
qed (auto simp: abs_path_def)

lemma join_append:
  "xs \<noteq> [] \<Longrightarrow> ys \<noteq> [] \<Longrightarrow> join sep (xs @ ys) = join sep xs @ sep @ join sep ys"
  by (induction xs) auto

lemma posix_join_abs_path:
  assumes "n = 1 \<or> n = 2" "list_all proper_component cs" "ps \<noteq> []" "list_all proper_component ps"
  shows "posix_join (abs_path n cs) (join ''/'' ps) = abs_path n (cs @ ps)"
proof -
  have "\<not> isabs (join ''/'' ps)"
    using assms(3,4) proper_hd by (cases ps) (auto simp: isabs_def hd_append)
  moreover have "abs_path n cs \<noteq> []" using assms(1) by (auto simp: abs_path_def)
  ultimately show ?thesis
    using assms last_abs_path[OF assms(1,2)]
    by (cases "cs = []") (simp_all add: posix_join_def, simp_all add: abs_path_def join_append)
qed

text \<open>
  C29. No path that \<open>parse_relative_path\<close> accepts leaves the directory it is joined to: below a
  normalized absolute root, the joined path is already normalized and its components are the
  components of the root followed by those of the path.
\<close>

theorem safe_path_contained:
  assumes "isabs root" and "normpath root = root" and "parse_relative_path raw location = Ok p"
  shows "\<exists>n cs. root = abs_path n cs \<and> list_all proper_component cs
    \<and> posix_join root raw = abs_path n (cs @ path_parts p)
    \<and> normpath (posix_join root raw) = posix_join root raw"
proof -
  obtain n cs where n: "n = 1 \<or> n = 2" and cs: "list_all proper_component cs" and r: "root = abs_path n cs"
    using assms(1,2) by (rule normalized_absolute)
  have ps: "path_parts p \<noteq> []" "list_all proper_component (path_parts p)" "raw = join ''/'' (path_parts p)"
    using assms(3) by (auto simp: parse_relative_path_Ok_iff safe_path_def path_str_def)
  have "posix_join root raw = abs_path n (cs @ path_parts p)"
    unfolding r ps(3) by (rule posix_join_abs_path[OF n cs ps(1,2)])
  moreover have "normpath (abs_path n (cs @ path_parts p)) = abs_path n (cs @ path_parts p)"
    by (rule normpath_abs_path[OF n]) (use cs ps in simp)
  ultimately show ?thesis using r cs by auto
qed

theorem safe_path_contained_witness:
  "normpath (posix_join ''/srv/aart'' ''a/b'') = posix_join ''/srv/aart'' ''a/b''"
  using safe_path_contained[of "''/srv/aart''" "''a/b''" None "SafeRelativePath [''a'', ''b'']"]
  by (auto simp: parse_relative_path_Ok_iff safe_path_def path_str_def proper_component_def is_drive_def
      is_control_def isabs_def normpath_def[of "''/srv/aart''"] initial_slashes_def Let_def)

end
