(* ===== verification/Schema.thy ===== *)
theory Schema
  imports Json Paths
begin

text \<open>
  The schema-validation primitives (\<open>agent_artifacts/protocol/schema.py\<close>): the field sets of a JSON object and the
  type of a value, with one diagnostic per offending field. A \<open>JsonObject\<close> is its sorted list of
  entries; a \<open>frozenset\<close> argument is a list of which only the members matter.
\<close>

definition SCHEMA_TYPE :: diagnostic_code where
  "SCHEMA_TYPE = ''protocol-schema-type''"
definition SCHEMA_MISSING_FIELD :: diagnostic_code where
  "SCHEMA_MISSING_FIELD = ''protocol-schema-missing-field''"
definition SCHEMA_UNKNOWN_FIELD :: diagnostic_code where
  "SCHEMA_UNKNOWN_FIELD = ''protocol-schema-unknown-field''"
definition SCHEMA_EXTENSION_KEY :: diagnostic_code where
  "SCHEMA_EXTENSION_KEY = ''protocol-schema-extension-key''"

definition schema_diagnostic ::
  "diagnostic_code \<Rightarrow> string \<Rightarrow> source_location option \<Rightarrow> string option \<Rightarrow> diagnostic" where
  "schema_diagnostic code message location field =
     mk_diagnostic code ERROR message location []
       (case field of None \<Rightarrow> [] | Some f \<Rightarrow> [(''field'', f)])"

text \<open>\<open>^[a-z][a-z0-9-]*(?:\.[a-z][a-z0-9-]*)+$\<close>, by the labels between the dots.\<close>

definition extension_label :: "string \<Rightarrow> bool" where
  "extension_label l \<longleftrightarrow> l \<noteq> [] \<and> is_lower (hd l)
     \<and> list_all (\<lambda>c. is_lower c \<or> is_digit c \<or> c = CHR ''-'') (tl l)"

definition is_namespaced_extension :: "string \<Rightarrow> bool" where
  "is_namespaced_extension key \<longleftrightarrow>
     (let labels = split_on CHR ''.'' key in 2 \<le> length labels \<and> list_all extension_label labels)"

definition looks_like_extension :: "string \<Rightarrow> bool" where
  "looks_like_extension field \<longleftrightarrow> CHR ''.'' \<in> set field \<or>
     list_ex (\<lambda>c. \<not> (is_letter c \<or> is_digit c \<or> c = CHR ''_'' \<or> c = CHR ''-'')) field"

definition missing_field_diagnostic :: "source_location option \<Rightarrow> string \<Rightarrow> diagnostic" where
  "missing_field_diagnostic location field =
     schema_diagnostic SCHEMA_MISSING_FIELD (''missing required field '' @ repr_str field) location (Some field)"

definition extra_field_diagnostic :: "bool \<Rightarrow> source_location option \<Rightarrow> string \<Rightarrow> diagnostic" where
  "extra_field_diagnostic allow_extensions location field =
     (if allow_extensions \<and> looks_like_extension field
      then schema_diagnostic SCHEMA_EXTENSION_KEY
             (''invalid namespaced extension field '' @ repr_str field) location (Some field)
      else schema_diagnostic SCHEMA_UNKNOWN_FIELD (''unknown field '' @ repr_str field) location (Some field))"

definition validate_object_fields ::
  "json_entries \<Rightarrow> string list \<Rightarrow> string list \<Rightarrow> bool \<Rightarrow> source_location option \<Rightarrow> json_entries result py" where
  "validate_object_fields value required optional allow_extensions location =
     (if set required \<inter> set optional \<noteq> {} then
        Inl (ValueError ''required and optional fields must not overlap'')
      else
        (let present = json_keys value;
             missing = [f \<leftarrow> sorted_set required. f \<notin> set present];
             extra = [f \<leftarrow> sorted_set present. f \<notin> set required \<and> f \<notin> set optional];
             rejected = [f \<leftarrow> extra. \<not> (allow_extensions \<and> is_namespaced_extension f)];
             diagnostics = map (missing_field_diagnostic location) missing
               @ map (extra_field_diagnostic allow_extensions location) rejected
         in Inr (if diagnostics \<noteq> [] then mk_err diagnostics else Ok value)))"

fun type_name :: "json_value \<Rightarrow> string" where
  "type_name JNull = ''NoneType''"
| "type_name (JBool _) = ''bool''"
| "type_name (JInt _) = ''int''"
| "type_name (JStr _) = ''str''"
| "type_name (JObject _) = ''JsonObject''"
| "type_name (JArray _) = ''JsonArray''"

definition type_error :: "string \<Rightarrow> json_value \<Rightarrow> source_location option \<Rightarrow> 'a result" where
  "type_error label value location =
     mk_err [schema_diagnostic SCHEMA_TYPE (''expected '' @ label @ '', got '' @ type_name value) location None]"

definition expect_object :: "json_value \<Rightarrow> source_location option \<Rightarrow> json_entries result" where
  "expect_object value location =
     (case value of JObject es \<Rightarrow> Ok es | _ \<Rightarrow> type_error ''object'' value location)"

definition expect_array :: "json_value \<Rightarrow> source_location option \<Rightarrow> json_value list result" where
  "expect_array value location =
     (case value of JArray vs \<Rightarrow> Ok vs | _ \<Rightarrow> type_error ''array'' value location)"

definition expect_string :: "json_value \<Rightarrow> source_location option \<Rightarrow> string result" where
  "expect_string value location =
     (case value of JStr s \<Rightarrow> Ok s | _ \<Rightarrow> type_error ''string'' value location)"

definition expect_integer :: "json_value \<Rightarrow> source_location option \<Rightarrow> int result" where
  "expect_integer value location =
     (case value of JInt n \<Rightarrow> Ok n | _ \<Rightarrow> type_error ''integer'' value location)"

definition fields_accepted :: "json_entries \<Rightarrow> string list \<Rightarrow> string list \<Rightarrow> bool \<Rightarrow> bool" where
  "fields_accepted value required optional allow_extensions \<longleftrightarrow>
     set required \<subseteq> set (json_keys value) \<and>
     (\<forall>f \<in> set (json_keys value). f \<in> set required \<or> f \<in> set optional
        \<or> (allow_extensions \<and> is_namespaced_extension f))"

lemma validate_object_fields_Ok:
  "validate_object_fields value required optional ext location = Inr (Ok v) \<longleftrightarrow>
     set required \<inter> set optional = {} \<and> v = value \<and> fields_accepted value required optional ext"
  by (auto simp: validate_object_fields_def Let_def fields_accepted_def mk_err_def filter_empty_conv)

definition diagnostic_field :: "diagnostic \<Rightarrow> string option" where
  "diagnostic_field d = map_of (diag_details d) ''field''"

lemma schema_field [simp]:
  "diagnostic_field (missing_field_diagnostic location f) = Some f"
  "diagnostic_field (extra_field_diagnostic ext location f) = Some f"
  by (simp_all add: diagnostic_field_def missing_field_diagnostic_def extra_field_diagnostic_def
      schema_diagnostic_def mk_diagnostic_def)

text \<open>
  Field validation is exact. It raises only for overlapping field sets; it returns the object
  unchanged exactly when every required field is present and every other field is optional or an allowed
  namespaced extension; otherwise it names every offending field, missing or rejected, and no other.
\<close>

theorem validate_object_fields_exact:
  assumes "set required \<inter> set optional = {}"
  shows "if fields_accepted value required optional ext
     then validate_object_fields value required optional ext location = Inr (Ok value)
     else \<exists>ds. validate_object_fields value required optional ext location = Inr (Err ds) \<and> ds \<noteq> [] \<and>
       {f. \<exists>d \<in> set ds. diagnostic_field d = Some f} =
         (set required - set (json_keys value)) \<union>
         {f \<in> set (json_keys value). f \<notin> set required \<and> f \<notin> set optional \<and> \<not> (ext \<and> is_namespaced_extension f)}"
proof (cases "fields_accepted value required optional ext")
  case True
  then show ?thesis using assms by (simp add: validate_object_fields_Ok)
next
  case False
  let ?m = "[f \<leftarrow> sorted_set required. f \<notin> set (json_keys value)]"
  let ?r = "[f \<leftarrow> sorted_set (json_keys value). f \<notin> set required \<and> f \<notin> set optional
      \<and> \<not> (ext \<and> is_namespaced_extension f)]"
  let ?ds = "map (missing_field_diagnostic location) ?m @ map (extra_field_diagnostic ext location) ?r"
  have ne: "?ds \<noteq> []" using False by (auto simp: fields_accepted_def filter_empty_conv)
  have sets: "set ?m = set required - set (json_keys value)"
    "set ?r = {f \<in> set (json_keys value). f \<notin> set required \<and> f \<notin> set optional \<and> \<not> (ext \<and> is_namespaced_extension f)}"
    by auto
  have "validate_object_fields value required optional ext location = Inr (Err (sort_diagnostics ?ds))"
    using ne assms by (simp add: validate_object_fields_def Let_def mk_err_def conj_ac del: append_is_Nil_conv)
  moreover have "{f. \<exists>d \<in> set (sort_diagnostics ?ds). diagnostic_field d = Some f} = set ?m \<union> set ?r"
  proof -
    have "(\<exists>d \<in> set (sort_diagnostics ?ds). diagnostic_field d = Some f) \<longleftrightarrow> f \<in> set ?m \<or> f \<in> set ?r" for f
      unfolding set_sort_diagnostics set_append set_map bex_Un bex_simps(7) schema_field option.inject by blast
    then show ?thesis by blast
  qed
  moreover have "sort_diagnostics ?ds \<noteq> []" using ne unfolding sort_diagnostics_Nil .
  ultimately show ?thesis
    unfolding if_not_P[OF False] sets by (intro exI[of _ "sort_diagnostics ?ds"] conjI)
qed

theorem validate_object_fields_exact_witness:
  "\<exists>ds. validate_object_fields [(''x'', JNull)] [''name''] [] False None = Inr (Err ds) \<and> ds \<noteq> [] \<and>
     {f. \<exists>d \<in> set ds. diagnostic_field d = Some f} = {''x'', ''name''}"
  using validate_object_fields_exact[of "[''name'']" "[]" "[(''x'', JNull)]" False None]
  by (simp add: fields_accepted_def json_keys_def conj_commute[of "_ = ''x''"] cong: conj_cong)

end
