(* ===== verification/Semver.thy ===== *)
theory Semver
  imports Domain
begin

text \<open>
  SemVer 2.0 precedence and half-open version bounds (\<open>agent_artifacts/protocol/semver.py\<close>).
  The regular expression of the parser is the recogniser \<open>semver_match\<close>, which returns the
  named groups; \<open>semver_match_iff\<close> shows that it accepts exactly the language of the expression.
\<close>

subsection \<open>Diagnostic codes of the protocol context\<close>

definition SEMVER_INVALID :: diagnostic_code where
  "SEMVER_INVALID = ''protocol-semver-invalid''"

definition VERSION_BOUNDS_INVALID :: diagnostic_code where
  "VERSION_BOUNDS_INVALID = ''protocol-version-bounds-invalid''"

subsection \<open>Versions and their precedence\<close>

datatype prerelease_identifier = PreInt int | PreStr string

record semver =
  sv_major :: int
  sv_minor :: int
  sv_patch :: int
  sv_prerelease :: "prerelease_identifier list"
  sv_build :: "string list"

definition MAX_SEMVER_NUMBER :: int where
  "MAX_SEMVER_NUMBER = 2 ^ 63 - 1"

definition bounded_number :: "string \<Rightarrow> int option" where
  "bounded_number raw =
     (if 19 < length raw then None
      else let v = int (nat_of_digits raw) in if v \<le> MAX_SEMVER_NUMBER then Some v else None)"

primrec prerelease_str :: "prerelease_identifier \<Rightarrow> string" where
  "prerelease_str (PreInt n) = str_int n"
| "prerelease_str (PreStr s) = s"

definition semver_str :: "semver \<Rightarrow> string" where
  "semver_str v =
     str_int (sv_major v) @ ''.'' @ str_int (sv_minor v) @ ''.'' @ str_int (sv_patch v)
     @ (if sv_prerelease v = [] then ''''
        else ''-'' @ join ''.'' (map prerelease_str (sv_prerelease v)))
     @ (if sv_build v = [] then '''' else ''+'' @ join ''.'' (sv_build v))"

definition semver_core :: "semver \<Rightarrow> int \<times> int \<times> int" where
  "semver_core v = (sv_major v, sv_minor v, sv_patch v)"

definition same_precedence :: "semver \<Rightarrow> semver \<Rightarrow> bool" where
  "same_precedence a b \<longleftrightarrow> semver_core a = semver_core b \<and> sv_prerelease a = sv_prerelease b"

text \<open>The loop over the common length: the first differing identifier decides.\<close>

fun prerelease_loop :: "prerelease_identifier list \<Rightarrow> prerelease_identifier list \<Rightarrow> bool" where
  "prerelease_loop (l # ls) (r # rs) =
     (if l = r then prerelease_loop ls rs
      else (case l of
              PreInt a \<Rightarrow> (case r of PreInt b \<Rightarrow> a < b | PreStr _ \<Rightarrow> True)
            | PreStr a \<Rightarrow> (case r of PreInt _ \<Rightarrow> False | PreStr b \<Rightarrow> a < b)))"
| "prerelease_loop ls rs \<longleftrightarrow> length ls < length rs"

definition prerelease_less ::
  "prerelease_identifier list \<Rightarrow> prerelease_identifier list \<Rightarrow> bool" where
  "prerelease_less left right =
     (if left = [] then False else if right = [] then True else prerelease_loop left right)"

definition semver_lt :: "semver \<Rightarrow> semver \<Rightarrow> bool" where
  "semver_lt a b =
     (if semver_core a \<noteq> semver_core b then semver_core a < semver_core b
      else prerelease_less (sv_prerelease a) (sv_prerelease b))"

text \<open>\<open>functools.total_ordering\<close> derives \<open><=\<close> from \<open><\<close> and \<open>==\<close>.\<close>

definition semver_le :: "semver \<Rightarrow> semver \<Rightarrow> bool" where
  "semver_le a b \<longleftrightarrow> semver_lt a b \<or> same_precedence a b"

record version_bounds =
  min_inclusive :: "semver option"
  max_exclusive :: "semver option"

definition any_version :: version_bounds where
  "any_version = \<lparr>min_inclusive = None, max_exclusive = None\<rparr>"

definition allows :: "version_bounds \<Rightarrow> semver \<Rightarrow> bool" where
  "allows bounds version =
     (if (case min_inclusive bounds of None \<Rightarrow> False | Some m \<Rightarrow> semver_lt version m) then False
      else (case max_exclusive bounds of None \<Rightarrow> True | Some m \<Rightarrow> semver_lt version m))"

definition version_bounds_label :: "version_bounds \<Rightarrow> string" where
  "version_bounds_label bounds =
     (let parts = (case min_inclusive bounds of None \<Rightarrow> [] | Some m \<Rightarrow> [''>='' @ semver_str m])
                  @ (case max_exclusive bounds of None \<Rightarrow> [] | Some m \<Rightarrow> [''<'' @ semver_str m])
      in if parts \<noteq> [] then join '','' parts else ''any'')"

subsection \<open>Parsing\<close>

definition ident_char :: "char \<Rightarrow> bool" where
  "ident_char c \<longleftrightarrow> is_digit c \<or> is_upper c \<or> is_lower c \<or> c = CHR ''-''"

definition is_identifiers :: "string \<Rightarrow> bool" where
  "is_identifiers s \<longleftrightarrow> list_all (\<lambda>i. i \<noteq> [] \<and> list_all ident_char i) (split_on CHR ''.'' s)"

definition semver_match ::
  "string \<Rightarrow> (string \<times> string \<times> string \<times> string option \<times> string option) option" where
  "semver_match raw =
     (case partition_at CHR ''+'' raw of (left, build) \<Rightarrow>
      case partition_at CHR ''-'' left of (core, prerelease) \<Rightarrow>
      (case split_on CHR ''.'' core of
         [a, b, c] \<Rightarrow>
           if is_number a \<and> is_number b \<and> is_number c
              \<and> (case prerelease of None \<Rightarrow> True | Some p \<Rightarrow> is_identifiers p)
              \<and> (case build of None \<Rightarrow> True | Some q \<Rightarrow> is_identifiers q)
           then Some (a, b, c, prerelease, build) else None
       | _ \<Rightarrow> None))"

definition semver_error :: "diagnostic_code \<Rightarrow> string \<Rightarrow> source_location option \<Rightarrow> 'a result" where
  "semver_error code message location = mk_err [mk_diagnostic code ERROR message location [] []]"

fun parse_prerelease ::
  "source_location option \<Rightarrow> string list \<Rightarrow> prerelease_identifier list
    \<Rightarrow> prerelease_identifier list result" where
  "parse_prerelease location [] acc = Ok acc"
| "parse_prerelease location (identifier # rest) acc =
     (if identifier = [] then parse_prerelease location rest acc
      else if list_all is_digit identifier then
        (if 1 < length identifier \<and> hd identifier = CHR ''0'' then
           semver_error SEMVER_INVALID
             (''numeric prerelease identifier has a leading zero: '' @ repr_str identifier) location
         else (case bounded_number identifier of
                 None \<Rightarrow> semver_error SEMVER_INVALID
                           ''SemVer numeric identifier is outside signed 64-bit range'' location
               | Some n \<Rightarrow> parse_prerelease location rest (acc @ [PreInt n])))
      else parse_prerelease location rest (acc @ [PreStr identifier]))"

definition parse_semver :: "string \<Rightarrow> source_location option \<Rightarrow> semver result" where
  "parse_semver raw location =
     (case semver_match raw of
        None \<Rightarrow> semver_error SEMVER_INVALID (''invalid SemVer: '' @ repr_str raw) location
      | Some (a, b, c, pre, bld) \<Rightarrow>
          (case (bounded_number a, bounded_number b, bounded_number c) of
             (Some major, Some minor, Some patch) \<Rightarrow>
               (case parse_prerelease location
                       (split_on CHR ''.'' (case pre of None \<Rightarrow> '''' | Some p \<Rightarrow> p)) [] of
                  Err ds \<Rightarrow> Err ds
                | Ok prerelease \<Rightarrow>
                    Ok \<lparr>sv_major = major, sv_minor = minor, sv_patch = patch,
                        sv_prerelease = prerelease,
                        sv_build = (case bld of None \<Rightarrow> [] | Some q \<Rightarrow> split_on CHR ''.'' q)\<rparr>)
           | _ \<Rightarrow> semver_error SEMVER_INVALID
                    ''SemVer numeric identifier is outside signed 64-bit range'' location))"

definition mk_version_bounds ::
  "semver option \<Rightarrow> semver option \<Rightarrow> source_location option \<Rightarrow> version_bounds result" where
  "mk_version_bounds mn mx location =
     (case (mn, mx) of
        (Some a, Some b) \<Rightarrow>
          if \<not> semver_lt a b then
            semver_error VERSION_BOUNDS_INVALID
              (''minimum '' @ semver_str a @ '' must precede maximum '' @ semver_str b) location
          else Ok \<lparr>min_inclusive = mn, max_exclusive = mx\<rparr>
      | _ \<Rightarrow> Ok \<lparr>min_inclusive = mn, max_exclusive = mx\<rparr>)"

subsection \<open>Precedence is a strict weak order\<close>

text \<open>
  The contract of a precedence: a strict order whose incomparable elements are exactly the
  equivalent ones. The laws of intervals below follow from it alone.
\<close>

locale precedence =
  fixes lt :: "'v \<Rightarrow> 'v \<Rightarrow> bool"
    and eqv :: "'v \<Rightarrow> 'v \<Rightarrow> bool"
  assumes irrefl: "\<not> lt a a"
    and trans: "lt a b \<Longrightarrow> lt b c \<Longrightarrow> lt a c"
    and incomparable: "\<not> lt a b \<Longrightarrow> \<not> lt b a \<Longrightarrow> eqv a b"
    and eqv_sym: "eqv a b \<Longrightarrow> eqv b a"
    and eqv_lt: "eqv a b \<Longrightarrow> lt b c \<Longrightarrow> lt a c"
    and lt_eqv: "lt a b \<Longrightarrow> eqv b c \<Longrightarrow> lt a c"
begin

lemma asym: "lt a b \<Longrightarrow> \<not> lt b a"
  using irrefl trans by blast

lemma eqv_refl: "eqv a a"
  using irrefl incomparable by blast

lemma not_lt_trans: "\<not> lt a b \<Longrightarrow> \<not> lt b c \<Longrightarrow> \<not> lt a c"
  using incomparable trans eqv_lt lt_eqv by blast

lemma trichotomy: "lt a b \<or> eqv a b \<or> lt b a"
  using incomparable by blast

lemma eqv_not_lt: "eqv a b \<Longrightarrow> \<not> lt a b"
  using eqv_lt eqv_sym irrefl by blast

lemma eqv_trans: "eqv a b \<Longrightarrow> eqv b c \<Longrightarrow> eqv a c"
  by (metis eqv_lt eqv_not_lt eqv_sym trichotomy)

lemma le_trans: "lt a b \<or> eqv a b \<Longrightarrow> lt b c \<or> eqv b c \<Longrightarrow> lt a c \<or> eqv a c"
  using trans eqv_lt lt_eqv eqv_trans by blast

lemma le_antisym: "lt a b \<or> eqv a b \<Longrightarrow> lt b a \<or> eqv b a \<Longrightarrow> eqv a b"
  using asym eqv_sym by blast

lemma le_total: "(lt a b \<or> eqv a b) \<or> (lt b a \<or> eqv b a)"
  using trichotomy by blast

lemma eqv_iff: "eqv a b \<longleftrightarrow> \<not> lt a b \<and> \<not> lt b a"
  using incomparable eqv_not_lt eqv_sym by blast

lemma lt_cong: "eqv a a' \<Longrightarrow> eqv b b' \<Longrightarrow> lt a b \<longleftrightarrow> lt a' b'"
  using eqv_lt lt_eqv eqv_sym by blast

end

text \<open>The comparison of two different identifiers in the loop.\<close>

definition pre_id_less :: "prerelease_identifier \<Rightarrow> prerelease_identifier \<Rightarrow> bool" where
  "pre_id_less l r =
     (case l of
        PreInt a \<Rightarrow> (case r of PreInt b \<Rightarrow> a < b | PreStr _ \<Rightarrow> True)
      | PreStr a \<Rightarrow> (case r of PreInt _ \<Rightarrow> False | PreStr b \<Rightarrow> a < b))"

lemma pre_id_less_irrefl: "\<not> pre_id_less x x"
  by (simp add: pre_id_less_def split: prerelease_identifier.splits)

lemma pre_id_less_trans: "pre_id_less x y \<Longrightarrow> pre_id_less y z \<Longrightarrow> pre_id_less x z"
  by (auto simp: pre_id_less_def split: prerelease_identifier.splits)

lemma pre_id_less_total: "x \<noteq> y \<Longrightarrow> pre_id_less x y \<or> pre_id_less y x"
  by (auto simp: pre_id_less_def split: prerelease_identifier.splits)

lemma prerelease_loop_simps [simp]:
  "prerelease_loop [] rs \<longleftrightarrow> rs \<noteq> []"
  "prerelease_loop ls [] \<longleftrightarrow> False"
  "prerelease_loop (l # ls) (r # rs) = (if l = r then prerelease_loop ls rs else pre_id_less l r)"
  by (cases rs; cases ls; simp add: pre_id_less_def)+

declare prerelease_loop.simps [simp del]

lemma prerelease_loop_irrefl: "\<not> prerelease_loop xs xs"
  by (induction xs) simp_all

lemma prerelease_loop_trans:
  "prerelease_loop xs ys \<Longrightarrow> prerelease_loop ys zs \<Longrightarrow> prerelease_loop xs zs"
proof (induction xs arbitrary: ys zs)
  case Nil
  then show ?case by (cases ys; cases zs) simp_all
next
  case (Cons x xs)
  from Cons.prems obtain y ys' z zs' where "ys = y # ys'" "zs = z # zs'"
    by (cases ys; cases zs) simp_all
  with Cons show ?case
    by (auto split: if_splits dest: pre_id_less_trans simp: pre_id_less_irrefl)
qed

lemma prerelease_loop_total: "xs \<noteq> ys \<Longrightarrow> prerelease_loop xs ys \<or> prerelease_loop ys xs"
proof (induction xs arbitrary: ys)
  case Nil
  then show ?case by simp
next
  case (Cons x xs)
  show ?case
  proof (cases ys)
    case (Cons y zs)
    with Cons.IH[of zs] Cons.prems pre_id_less_total[of x y] show ?thesis by auto
  qed simp
qed

text \<open>A version without prerelease comes after all its prereleases.\<close>

lemma prerelease_less_irrefl: "\<not> prerelease_less xs xs"
  by (simp add: prerelease_less_def prerelease_loop_irrefl)

lemma prerelease_less_trans:
  "prerelease_less xs ys \<Longrightarrow> prerelease_less ys zs \<Longrightarrow> prerelease_less xs zs"
  by (auto simp: prerelease_less_def split: if_splits intro: prerelease_loop_trans)

lemma prerelease_less_total: "xs \<noteq> ys \<Longrightarrow> prerelease_less xs ys \<or> prerelease_less ys xs"
  using prerelease_loop_total by (auto simp: prerelease_less_def)

interpretation semver_prec: precedence semver_lt same_precedence
proof unfold_locales
  fix a b c :: semver
  show "\<not> semver_lt a a" by (simp add: semver_lt_def prerelease_less_irrefl)
  show "semver_lt a c" if "semver_lt a b" "semver_lt b c"
    using that by (auto simp: semver_lt_def split: if_splits intro: prerelease_less_trans)
  show "same_precedence a b" if "\<not> semver_lt a b" "\<not> semver_lt b a"
    using that prerelease_less_total
    by (auto simp: semver_lt_def same_precedence_def split: if_splits)
  show "same_precedence b a" if "same_precedence a b"
    using that by (simp add: same_precedence_def)
  show "semver_lt a c" if "same_precedence a b" "semver_lt b c"
    using that by (simp add: semver_lt_def same_precedence_def)
  show "semver_lt a c" if "semver_lt a b" "same_precedence b c"
    using that by (auto simp: semver_lt_def same_precedence_def split: if_splits)
qed

text \<open>
  C32. The comparison of versions is a strict weak order whose ties are exactly the versions with
  the same precedence: irreflexive, transitive, and any two versions compare or agree up to
  their build metadata. Hence the methods that \<open>total_ordering\<close> derives are consistent: \<open><=\<close>
  is total, transitive and antisymmetric up to precedence.
\<close>

theorem semver_precedence_order:
  "\<not> semver_lt a a
   \<and> (semver_lt a b \<longrightarrow> semver_lt b c \<longrightarrow> semver_lt a c)
   \<and> (same_precedence a b \<longleftrightarrow> \<not> semver_lt a b \<and> \<not> semver_lt b a)
   \<and> (semver_le a b \<or> semver_le b a)
   \<and> (semver_le a b \<longrightarrow> semver_le b c \<longrightarrow> semver_le a c)
   \<and> (semver_le a b \<longrightarrow> semver_le b a \<longrightarrow> same_precedence a b)
   \<and> (same_precedence a b \<longrightarrow> semver_lt a c = semver_lt b c \<and> semver_lt c a = semver_lt c b)"
proof (intro conjI impI)
  show "same_precedence a b \<longleftrightarrow> \<not> semver_lt a b \<and> \<not> semver_lt b a"
    by (rule semver_prec.eqv_iff)
  show "semver_le a b \<or> semver_le b a"
    unfolding semver_le_def by (rule semver_prec.le_total)
  show "semver_le a b \<Longrightarrow> semver_le b c \<Longrightarrow> semver_le a c"
    unfolding semver_le_def by (rule semver_prec.le_trans)
  show "semver_le a b \<Longrightarrow> semver_le b a \<Longrightarrow> same_precedence a b"
    unfolding semver_le_def by (rule semver_prec.le_antisym)
  show "same_precedence a b \<Longrightarrow> semver_lt a c = semver_lt b c"
    and "same_precedence a b \<Longrightarrow> semver_lt c a = semver_lt c b"
    using semver_prec.lt_cong semver_prec.eqv_refl by blast+
  show "semver_lt a b \<Longrightarrow> semver_lt b c \<Longrightarrow> semver_lt a c"
    by (rule semver_prec.trans)
qed (rule semver_prec.irrefl)

theorem semver_precedence_order_witness:
  "let v = (\<lambda>n pre. \<lparr>sv_major = n, sv_minor = 0, sv_patch = 0, sv_prerelease = pre, sv_build = []\<rparr>)
   in semver_lt (v 1 [PreInt 9]) (v 1 [PreStr ''a'']) \<and> semver_lt (v 1 [PreStr ''a'']) (v 1 [])
      \<and> semver_lt (v 1 [PreInt 9]) (v 1 [])"
  using semver_precedence_order
    [of "\<lparr>sv_major = 1, sv_minor = 0, sv_patch = 0, sv_prerelease = [PreInt 9], sv_build = []\<rparr>"
        "\<lparr>sv_major = 1, sv_minor = 0, sv_patch = 0, sv_prerelease = [PreStr ''a''], sv_build = []\<rparr>"
        "\<lparr>sv_major = 1, sv_minor = 0, sv_patch = 0, sv_prerelease = [], sv_build = []\<rparr>"]
  by (simp add: semver_lt_def semver_core_def prerelease_less_def pre_id_less_def)

subsection \<open>The recogniser accepts the language of the regular expression\<close>

definition opt_part :: "char \<Rightarrow> string option \<Rightarrow> string" where
  "opt_part c x = (case x of None \<Rightarrow> [] | Some p \<Rightarrow> c # p)"

definition opt_identifiers :: "string option \<Rightarrow> bool" where
  "opt_identifiers x \<longleftrightarrow> (case x of None \<Rightarrow> True | Some p \<Rightarrow> is_identifiers p)"

lemma set_join: "set (join sep xs) \<subseteq> \<Union> (set ` set xs) \<union> set sep"
  by (induction xs) (auto split: if_splits)

lemma identifiers_chars:
  assumes "is_identifiers p" and "x \<in> set p"
  shows "ident_char x \<or> x = CHR ''.''"
proof -
  have "x \<in> \<Union> (set ` set (split_on CHR ''.'' p)) \<union> {CHR ''.''}"
    using assms(2) set_join[of "''.''" "split_on CHR ''.'' p"] by (auto simp: join_split_on)
  with assms(1) show ?thesis by (auto simp: is_identifiers_def list_all_iff)
qed

lemma plus_not_in_identifiers: "is_identifiers p \<Longrightarrow> CHR ''+'' \<notin> set p"
  using identifiers_chars[of p "CHR ''+''"] by (auto simp: ident_char_def py_simps less_eq_char_def)

lemma number_separators:
  assumes "is_number s"
  shows "CHR ''.'' \<notin> set s" "CHR ''-'' \<notin> set s" "CHR ''+'' \<notin> set s"
  using assms is_number_digits[of s] not_in_digits[of s]
  by (auto simp: py_simps less_eq_char_def)

lemma semver_match_iff:
  "semver_match raw = Some (a, b, c, pre, bld) \<longleftrightarrow>
     raw = a @ ''.'' @ b @ ''.'' @ c @ opt_part CHR ''-'' pre @ opt_part CHR ''+'' bld
     \<and> is_number a \<and> is_number b \<and> is_number c \<and> opt_identifiers pre \<and> opt_identifiers bld"
  (is "?L \<longleftrightarrow> ?R")
proof
  assume L: ?L
  obtain left bld' where p: "partition_at CHR ''+'' raw = (left, bld')" by fastforce
  obtain core pre' where q: "partition_at CHR ''-'' left = (core, pre')" by fastforce
  from L p q have s: "split_on CHR ''.'' core = [a, b, c]" and [simp]: "pre' = pre" "bld' = bld"
    and ok: "is_number a" "is_number b" "is_number c" "opt_identifiers pre" "opt_identifiers bld"
    by (auto simp: semver_match_def opt_identifiers_def split: list.splits if_splits)
  have "core = a @ ''.'' @ b @ ''.'' @ c"
    using s join_split_on[of "CHR ''.''" core] by simp
  moreover have "left = core @ opt_part CHR ''-'' pre"
    using q by (cases pre) (auto simp: opt_part_def partition_at_None partition_at_Some)
  moreover have "raw = left @ opt_part CHR ''+'' bld"
    using p by (cases bld) (auto simp: opt_part_def partition_at_None partition_at_Some)
  ultimately show ?R using ok by simp
next
  assume R: ?R
  let ?core = "a @ ''.'' @ b @ ''.'' @ c"
  have core: "CHR ''-'' \<notin> set ?core" "CHR ''+'' \<notin> set ?core"
    using R number_separators by auto
  have left: "CHR ''+'' \<notin> set (?core @ opt_part CHR ''-'' pre)"
    using R core plus_not_in_identifiers by (auto simp: opt_part_def opt_identifiers_def split: option.splits)
  have p: "partition_at CHR ''+'' raw = (?core @ opt_part CHR ''-'' pre, bld)"
    using R left by (cases bld) (auto simp: opt_part_def partition_at_None partition_at_Some)
  have q: "partition_at CHR ''-'' (?core @ opt_part CHR ''-'' pre) = (?core, pre)"
    using core by (cases pre) (auto simp: opt_part_def partition_at_None partition_at_Some)
  have s: "split_on CHR ''.'' ?core = [a, b, c]"
    using split_on_join[of "[a, b, c]" "CHR ''.''"] R number_separators by auto
  have "semver_match raw =
      (if is_number a \<and> is_number b \<and> is_number c \<and> opt_identifiers pre \<and> opt_identifiers bld
       then Some (a, b, c, pre, bld) else None)"
    by (simp only: semver_match_def p q s prod.case list.case opt_identifiers_def)
  with R show ?L by simp
qed

subsection \<open>Numbers and identifiers round trip\<close>

definition valid_number :: "int \<Rightarrow> bool" where
  "valid_number n \<longleftrightarrow> 0 \<le> n \<and> n \<le> MAX_SEMVER_NUMBER"

definition valid_identifier :: "string \<Rightarrow> bool" where
  "valid_identifier s \<longleftrightarrow> s \<noteq> [] \<and> list_all ident_char s"

primrec valid_prerelease :: "prerelease_identifier \<Rightarrow> bool" where
  "valid_prerelease (PreInt n) \<longleftrightarrow> valid_number n"
| "valid_prerelease (PreStr s) \<longleftrightarrow> valid_identifier s \<and> \<not> list_all is_digit s"

definition valid_semver :: "semver \<Rightarrow> bool" where
  "valid_semver v \<longleftrightarrow>
     valid_number (sv_major v) \<and> valid_number (sv_minor v) \<and> valid_number (sv_patch v)
     \<and> list_all valid_prerelease (sv_prerelease v) \<and> list_all valid_identifier (sv_build v)"

lemma str_int_nonneg: "0 \<le> n \<Longrightarrow> str_int n = str_nat (nat n)"
  by (simp add: str_int_def)

lemma is_number_str_int: "valid_number n \<Longrightarrow> is_number (str_int n)"
  by (simp add: valid_number_def str_int_nonneg is_number_str_nat)

lemma bounded_number_iff:
  assumes "is_number s"
  shows "bounded_number s = Some n \<longleftrightarrow> valid_number n \<and> s = str_int n"
proof
  assume "bounded_number s = Some n"
  then have n: "n = int (nat_of_digits s)" "n \<le> MAX_SEMVER_NUMBER"
    by (auto simp: bounded_number_def Let_def split: if_splits)
  with assms show "valid_number n \<and> s = str_int n"
    by (simp add: valid_number_def str_int_nonneg str_nat_of_digits)
next
  assume R: "valid_number n \<and> s = str_int n"
  then have s: "s = str_nat (nat n)" and n: "0 \<le> n" "n \<le> MAX_SEMVER_NUMBER"
    by (simp_all add: valid_number_def str_int_nonneg)
  have "nat n < 10 ^ 19" using n by (simp add: MAX_SEMVER_NUMBER_def)
  then have "length s \<le> 19" unfolding s by (rule length_str_nat) simp
  with n show "bounded_number s = Some n"
    by (simp add: bounded_number_def s nat_of_digits_str_nat)
qed

lemma digits_is_number:
  "s \<noteq> [] \<Longrightarrow> list_all is_digit s \<Longrightarrow> \<not> (1 < length s \<and> hd s = CHR ''0'') \<longleftrightarrow> is_number s"
  by (cases s; cases "tl s") (auto simp: is_number_def)

lemma prerelease_str_int_digits: "valid_number n \<Longrightarrow> list_all is_digit (str_int n)"
  using is_number_str_int is_number_digits by blast

lemma semver_error_not_Ok [simp]: "semver_error c m l \<noteq> Ok v"
  by (simp add: semver_error_def)

lemma digit_ident_char: "is_digit c \<Longrightarrow> ident_char c"
  by (simp add: ident_char_def)

lemma prerelease_str_inverse:
  assumes "valid_identifier i"
  shows "valid_prerelease x \<and> prerelease_str x = i \<longleftrightarrow>
    (if list_all is_digit i then is_number i \<and> (\<exists>n. bounded_number i = Some n \<and> x = PreInt n)
     else x = PreStr i)"
proof (cases x)
  case (PreInt n)
  have "valid_number n \<Longrightarrow> is_number (str_int n)" "valid_number n \<Longrightarrow> list_all is_digit (str_int n)"
    by (simp_all add: is_number_str_int prerelease_str_int_digits)
  with PreInt show ?thesis by (auto simp: bounded_number_iff)
qed (use assms in auto)

lemma parse_prerelease_iff:
  assumes "list_all valid_identifier ids"
  shows "parse_prerelease location ids acc = Ok r \<longleftrightarrow>
    (\<exists>ps. r = acc @ ps \<and> list_all valid_prerelease ps \<and> map prerelease_str ps = ids)"
  using assms
proof (induction ids arbitrary: acc)
  case (Cons i ids)
  have i: "valid_identifier i" "i \<noteq> []" and ids: "list_all valid_identifier ids"
    using Cons.prems by simp_all (simp add: valid_identifier_def)
  have step: "parse_prerelease location (i # ids) acc = Ok r \<longleftrightarrow>
      (\<exists>x. valid_prerelease x \<and> prerelease_str x = i \<and> parse_prerelease location ids (acc @ [x]) = Ok r)"
  proof (cases "list_all is_digit i")
    case True
    then have num: "\<not> (1 < length i \<and> hd i = CHR ''0'') \<longleftrightarrow> is_number i"
      using i digits_is_number by blast
    have "parse_prerelease location (i # ids) acc = Ok r \<longleftrightarrow>
        is_number i \<and> (\<exists>n. bounded_number i = Some n \<and> parse_prerelease location ids (acc @ [PreInt n]) = Ok r)"
      using True i(2) num by (auto split: option.splits)
    also have "\<dots> \<longleftrightarrow> (\<exists>x. valid_prerelease x \<and> prerelease_str x = i
        \<and> parse_prerelease location ids (acc @ [x]) = Ok r)"
      unfolding conj_assoc[symmetric] prerelease_str_inverse[OF i(1)] using True by auto
    finally show ?thesis .
  next
    case False
    then have "parse_prerelease location (i # ids) acc = parse_prerelease location ids (acc @ [PreStr i])"
      using i(2) by simp
    with False show ?thesis
      unfolding conj_assoc[symmetric] prerelease_str_inverse[OF i(1)] by simp
  qed
  show ?case
    unfolding step Cons.IH[OF ids] by (fastforce simp: map_eq_Cons_conv)
qed auto

lemma dot_not_in_identifier: "valid_identifier i \<Longrightarrow> CHR ''.'' \<notin> set i"
  by (auto simp: valid_identifier_def list_all_iff ident_char_def py_simps less_eq_char_def)

lemma valid_identifiers_split: "is_identifiers p \<Longrightarrow> list_all valid_identifier (split_on CHR ''.'' p)"
  by (simp add: is_identifiers_def valid_identifier_def list_all_iff)

lemma split_join_identifiers:
  "is \<noteq> [] \<Longrightarrow> list_all valid_identifier is \<Longrightarrow> split_on CHR ''.'' (join ''.'' is) = is"
  using dot_not_in_identifier by (intro split_on_join) (auto simp: list_all_iff)

lemma is_identifiers_join:
  "is \<noteq> [] \<Longrightarrow> list_all valid_identifier is \<Longrightarrow> is_identifiers (join ''.'' is)"
  by (simp add: is_identifiers_def split_join_identifiers valid_identifier_def[symmetric])

lemma valid_prerelease_identifier: "valid_prerelease x \<Longrightarrow> valid_identifier (prerelease_str x)"
proof (cases x)
  case (PreInt n)
  assume "valid_prerelease x"
  with PreInt have "is_number (str_int n)" by (simp add: is_number_str_int)
  then show ?thesis
    using PreInt is_number_digits[of "str_int n"]
    by (auto simp: valid_identifier_def list_all_iff digit_ident_char)
qed simp

text \<open>The identifiers as the text between the separators, absent when there are none.\<close>

definition ids_text :: "string list \<Rightarrow> string option" where
  "ids_text is = (if is = [] then None else Some (join ''.'' is))"

definition ids_of_text :: "string option \<Rightarrow> string list" where
  "ids_of_text x = (case x of None \<Rightarrow> [] | Some p \<Rightarrow> split_on CHR ''.'' p)"

lemma ids_text_inverse:
  "list_all valid_identifier is \<Longrightarrow> ids_of_text (ids_text is) = is"
  "opt_identifiers x \<Longrightarrow> ids_text (ids_of_text x) = x"
  by (auto simp: ids_of_text_def ids_text_def split_join_identifiers join_split_on split: option.splits)

lemma opt_identifiers_ids_text: "list_all valid_identifier is \<Longrightarrow> opt_identifiers (ids_text is)"
  by (simp add: opt_identifiers_def ids_text_def is_identifiers_join)

lemma valid_ids_of_text: "opt_identifiers x \<Longrightarrow> list_all valid_identifier (ids_of_text x)"
  by (auto simp: opt_identifiers_def ids_of_text_def valid_identifiers_split split: option.splits)

lemma parse_prerelease_group:
  "parse_prerelease location (split_on CHR ''.'' (case x of None \<Rightarrow> '''' | Some p \<Rightarrow> p)) [] =
   parse_prerelease location (ids_of_text x) []"
  by (simp add: ids_of_text_def split: option.splits)

lemma semver_str_parts:
  "semver_str v = str_int (sv_major v) @ ''.'' @ str_int (sv_minor v) @ ''.'' @ str_int (sv_patch v)
     @ opt_part CHR ''-'' (ids_text (map prerelease_str (sv_prerelease v)))
     @ opt_part CHR ''+'' (ids_text (sv_build v))"
  by (simp add: semver_str_def opt_part_def ids_text_def)

lemma parse_semver_match:
  "parse_semver raw location = Ok v \<longleftrightarrow>
     (\<exists>a b c pre bld. semver_match raw = Some (a, b, c, pre, bld)
        \<and> bounded_number a = Some (sv_major v) \<and> bounded_number b = Some (sv_minor v)
        \<and> bounded_number c = Some (sv_patch v)
        \<and> parse_prerelease location (ids_of_text pre) [] = Ok (sv_prerelease v)
        \<and> sv_build v = ids_of_text bld)"
  unfolding parse_semver_def parse_prerelease_group ids_of_text_def[symmetric]
  by (cases v) (auto split: option.splits result.splits prod.splits)

lemma parse_semver_Ok_iff:
  "parse_semver raw location = Ok v \<longleftrightarrow> valid_semver v \<and> raw = semver_str v"
proof
  assume "parse_semver raw location = Ok v"
  then obtain a b c pre bld where m: "semver_match raw = Some (a, b, c, pre, bld)"
    and n: "bounded_number a = Some (sv_major v)" "bounded_number b = Some (sv_minor v)"
      "bounded_number c = Some (sv_patch v)"
    and p: "parse_prerelease location (ids_of_text pre) [] = Ok (sv_prerelease v)"
    and b: "sv_build v = ids_of_text bld"
    unfolding parse_semver_match by blast
  note match = m[unfolded semver_match_iff]
  have pre: "list_all valid_prerelease (sv_prerelease v)"
    "map prerelease_str (sv_prerelease v) = ids_of_text pre"
    using p match parse_prerelease_iff[OF valid_ids_of_text[of pre]] by auto
  show "valid_semver v \<and> raw = semver_str v"
    unfolding semver_str_parts valid_semver_def pre(2) b
    using match n pre(1) by (simp add: bounded_number_iff ids_text_inverse valid_ids_of_text)
next
  assume R: "valid_semver v \<and> raw = semver_str v"
  let ?pre = "map prerelease_str (sv_prerelease v)"
  have ids: "list_all valid_identifier ?pre"
    using R valid_prerelease_identifier by (auto simp: valid_semver_def list_all_iff)
  have "semver_match raw = Some (str_int (sv_major v), str_int (sv_minor v), str_int (sv_patch v),
      ids_text ?pre, ids_text (sv_build v))"
    using R ids unfolding semver_match_iff
    by (simp add: semver_str_parts valid_semver_def is_number_str_int opt_identifiers_ids_text)
  moreover have "parse_prerelease location (ids_of_text (ids_text ?pre)) [] = Ok (sv_prerelease v)"
    using R ids by (auto simp: parse_prerelease_iff ids_text_inverse valid_semver_def)
  ultimately show "parse_semver raw location = Ok v"
    unfolding parse_semver_match
    using R by (force simp: valid_semver_def bounded_number_iff is_number_str_int ids_text_inverse)
qed

text \<open>
  C31. \<open>parse_semver\<close> and \<open>str\<close> are inverse: a text parses to a version exactly when the version
  is valid (numbers in signed 64-bit range, well-formed identifiers) and the text is its
  rendering. So every valid version is read back as printed, and no two texts parse to the same
  version.
\<close>

theorem parse_semver_iff:
  "parse_semver raw location = Ok v \<longleftrightarrow> valid_semver v \<and> raw = semver_str v"
  by (rule parse_semver_Ok_iff)

subsection \<open>Version bounds are half-open intervals\<close>

lemma allows_iff:
  "allows bounds v \<longleftrightarrow>
     (\<forall>m. min_inclusive bounds = Some m \<longrightarrow> \<not> semver_lt v m)
     \<and> (\<forall>m. max_exclusive bounds = Some m \<longrightarrow> semver_lt v m)"
  by (auto simp: allows_def split: option.splits)

lemma mk_version_bounds_Ok:
  "mk_version_bounds mn mx location = Ok bounds \<longleftrightarrow>
     bounds = \<lparr>min_inclusive = mn, max_exclusive = mx\<rparr>
     \<and> (\<forall>a b. mn = Some a \<longrightarrow> mx = Some b \<longrightarrow> semver_lt a b)"
  by (auto simp: mk_version_bounds_def split: option.splits)

text \<open>
  C33. Accepted version bounds are a half-open interval that is never empty at its lower end: a
  stated minimum is allowed and a stated maximum is not, everything between two allowed versions
  is allowed, and build metadata never decides.
\<close>

theorem version_bounds_interval:
  assumes "mk_version_bounds mn mx location = Ok bounds"
  shows "(\<forall>m. mn = Some m \<longrightarrow> allows bounds m)
    \<and> (\<forall>m. mx = Some m \<longrightarrow> \<not> allows bounds m)
    \<and> (\<forall>a b c. allows bounds a \<and> allows bounds c \<and> semver_le a b \<and> semver_le b c \<longrightarrow> allows bounds b)
    \<and> (\<forall>a b. same_precedence a b \<longrightarrow> allows bounds a = allows bounds b)"
proof -
  note b = assms[unfolded mk_version_bounds_Ok]
  have below: "\<not> semver_lt b m" if "\<not> semver_lt a m" "semver_le a b" for a b m
    using that semver_prec.trans semver_prec.eqv_lt by (auto simp: semver_le_def)
  have above: "semver_lt b m" if "semver_lt c m" "semver_le b c" for b c m
    using that semver_prec.trans semver_prec.eqv_lt by (auto simp: semver_le_def)
  have cong: "semver_lt a m = semver_lt b m" if "same_precedence a b" for a b m
    using that semver_prec.lt_cong semver_prec.eqv_refl by blast
  show ?thesis
  proof (intro conjI allI impI)
    show "allows bounds m" if "mn = Some m" for m
      using that b semver_prec.irrefl by (simp add: allows_iff)
    show "\<not> allows bounds m" if "mx = Some m" for m
      using that b semver_prec.irrefl by (simp add: allows_iff)
    show "allows bounds b" if "allows bounds a \<and> allows bounds c \<and> semver_le a b \<and> semver_le b c"
      for a b c
      using that below above unfolding allows_iff by blast
    show "allows bounds a = allows bounds b" if "same_precedence a b" for a b
      using cong[OF that] by (simp add: allows_iff)
  qed
qed

theorem version_bounds_interval_witness:
  "let lo = \<lparr>sv_major = 1, sv_minor = 0, sv_patch = 0, sv_prerelease = [], sv_build = []\<rparr>;
       hi = \<lparr>sv_major = 2, sv_minor = 0, sv_patch = 0, sv_prerelease = [], sv_build = []\<rparr>
   in allows \<lparr>min_inclusive = Some lo, max_exclusive = Some hi\<rparr> lo
      \<and> \<not> allows \<lparr>min_inclusive = Some lo, max_exclusive = Some hi\<rparr> hi"
  unfolding Let_def
  using version_bounds_interval
    [of "Some \<lparr>sv_major = 1, sv_minor = 0, sv_patch = 0, sv_prerelease = [], sv_build = []\<rparr>"
        "Some \<lparr>sv_major = 2, sv_minor = 0, sv_patch = 0, sv_prerelease = [], sv_build = []\<rparr>" None
        "\<lparr>min_inclusive = Some \<lparr>sv_major = 1, sv_minor = 0, sv_patch = 0, sv_prerelease = [], sv_build = []\<rparr>,
          max_exclusive = Some \<lparr>sv_major = 2, sv_minor = 0, sv_patch = 0, sv_prerelease = [], sv_build = []\<rparr>\<rparr>"]
  by (simp add: mk_version_bounds_Ok semver_lt_def semver_core_def)

end
