(* ===== verification/Capabilities.thy ===== *)
theory Capabilities
  imports Domain
begin

text \<open>
  Capability names and their negotiation (\<open>agent_artifacts/protocol/capabilities.py\<close>). A
  \<open>frozenset\<close> is only used for membership tests and is modelled by the tuple it is built from.
\<close>

definition CAPABILITY_INVALID :: diagnostic_code where
  "CAPABILITY_INVALID = ''protocol-capability-invalid''"

datatype capability = Capability (capability_value: string)

instantiation capability :: linorder
begin
definition less_eq_capability :: "capability \<Rightarrow> capability \<Rightarrow> bool" where
  [dom_order]: "less_eq_capability a b \<longleftrightarrow> capability_value a \<le> capability_value b"
definition less_capability :: "capability \<Rightarrow> capability \<Rightarrow> bool" where
  [dom_order]: "less_capability a b \<longleftrightarrow> capability_value a < capability_value b"
instance
  by standard (auto simp: dom_order intro: capability.expand)
end

record capability_decision =
  cd_required :: "capability list"
  cd_optional :: "capability list"
  cd_available :: "capability list"
  cd_enabled :: "capability list"
  cd_missing_required :: "capability list"
  cd_unsupported_optional :: "capability list"

definition decision_compatible :: "capability_decision \<Rightarrow> bool" where
  "decision_compatible d \<longleftrightarrow> cd_missing_required d = []"

text \<open>\<open>^[a-z][a-z0-9]*(?:-[a-z0-9]+)*$\<close>, by the segments between the hyphens.\<close>

definition lower_or_digit :: "char \<Rightarrow> bool" where
  "lower_or_digit c \<longleftrightarrow> is_lower c \<or> is_digit c"

definition capability_match :: "string \<Rightarrow> bool" where
  "capability_match raw =
     (case split_on CHR ''-'' raw of
        [] \<Rightarrow> False
      | s # ss \<Rightarrow> s \<noteq> [] \<and> is_lower (hd s) \<and> list_all lower_or_digit (tl s)
                  \<and> list_all (\<lambda>t. t \<noteq> [] \<and> list_all lower_or_digit t) ss)"

definition parse_capability :: "string \<Rightarrow> source_location option \<Rightarrow> capability result" where
  "parse_capability raw location =
     (if \<not> capability_match raw then
        mk_err [mk_diagnostic CAPABILITY_INVALID ERROR
                  (''invalid capability name: '' @ repr_str raw) location [] []]
      else Ok (Capability raw))"

definition negotiate_capabilities ::
  "capability list \<Rightarrow> capability list \<Rightarrow> capability list \<Rightarrow> capability_decision" where
  "negotiate_capabilities required optional available =
     (let normalized_required = sorted_set required;
          normalized_optional =
            [c \<leftarrow> sorted_set optional. c \<notin> set normalized_required];
          normalized_available = sorted_set available;
          enabled = sorted_set [c \<leftarrow> normalized_required @ normalized_optional.
                                  c \<in> set normalized_available]
      in \<lparr>cd_required = normalized_required, cd_optional = normalized_optional,
          cd_available = normalized_available, cd_enabled = enabled,
          cd_missing_required = [c \<leftarrow> normalized_required. c \<notin> set normalized_available],
          cd_unsupported_optional = [c \<leftarrow> normalized_optional. c \<notin> set normalized_available]\<rparr>)"

lemma negotiate_sets:
  "set (cd_required (negotiate_capabilities r o' a)) = set r"
  "set (cd_optional (negotiate_capabilities r o' a)) = set o' - set r"
  "set (cd_available (negotiate_capabilities r o' a)) = set a"
  "set (cd_enabled (negotiate_capabilities r o' a)) = (set r \<union> set o') \<inter> set a"
  "set (cd_missing_required (negotiate_capabilities r o' a)) = set r - set a"
  "set (cd_unsupported_optional (negotiate_capabilities r o' a)) = set o' - set r - set a"
  by (auto simp: negotiate_capabilities_def Let_def)

lemma negotiate_sorted:
  "sorted (cd_required (negotiate_capabilities r o' a))"
  "sorted (cd_optional (negotiate_capabilities r o' a))"
  "sorted (cd_enabled (negotiate_capabilities r o' a))"
  "sorted (cd_missing_required (negotiate_capabilities r o' a))"
  "distinct (cd_required (negotiate_capabilities r o' a))"
  "distinct (cd_enabled (negotiate_capabilities r o' a))"
  by (simp_all add: negotiate_capabilities_def Let_def sorted_filter[where f = id, simplified])

lemma negotiate_cong:
  assumes "set r = set r'" "set p = set p'" "set a = set a'"
  shows "negotiate_capabilities r p a = negotiate_capabilities r' p' a'"
  using sorted_set_cong[OF assms(1)] sorted_set_cong[OF assms(2)] sorted_set_cong[OF assms(3)]
  by (simp add: negotiate_capabilities_def)

text \<open>
  Negotiation is exact and deterministic: the source is compatible exactly when every
  required capability is available; the enabled capabilities are the requested ones that are
  available; required and optional capabilities are each split into enabled and missing with
  nothing lost; the result is sorted and depends only on the three sets.
\<close>

theorem negotiate_capabilities_exact:
  fixes required optional available
  defines "d \<equiv> negotiate_capabilities required optional available"
  shows "(decision_compatible d \<longleftrightarrow> set required \<subseteq> set available)
    \<and> set (cd_enabled d) = (set required \<union> set optional) \<inter> set available
    \<and> set (cd_missing_required d) \<union> (set (cd_enabled d) \<inter> set required) = set required
    \<and> set (cd_unsupported_optional d) \<union> (set (cd_enabled d) - set required) = set optional - set required
    \<and> sorted (cd_enabled d) \<and> distinct (cd_enabled d)
    \<and> negotiate_capabilities (rev required @ required) (rev optional) (rev available) = d"
proof -
  have "decision_compatible d \<longleftrightarrow> set required \<subseteq> set available"
    using negotiate_sets(5)[of required optional available]
    by (simp add: d_def decision_compatible_def flip: set_empty)
  moreover have "negotiate_capabilities (rev required @ required) (rev optional) (rev available) = d"
    unfolding d_def by (rule negotiate_cong) auto
  ultimately show ?thesis
    by (auto simp: d_def negotiate_sets negotiate_sorted)
qed

end
