(* ===== verification/Sha256.thy ===== *)
theory Sha256
  imports Bytes
begin

text \<open>
  SHA-256 as \<open>hashlib.sha256\<close> of the standard library computes it (FIPS 180-4): padding, message
  schedule, compression and the hexadecimal rendering of the digest.
\<close>

unbundle bit_operations_syntax

type_synonym w32 = "32 word"

definition round_constants :: "w32 list" where
  "round_constants = concat
    [[1116352408, 1899447441, 3049323471, 3921009573, 961987163, 1508970993, 2453635748, 2870763221],
     [3624381080, 310598401, 607225278, 1426881987, 1925078388, 2162078206, 2614888103, 3248222580],
     [3835390401, 4022224774, 264347078, 604807628, 770255983, 1249150122, 1555081692, 1996064986],
     [2554220882, 2821834349, 2952996808, 3210313671, 3336571891, 3584528711, 113926993, 338241895],
     [666307205, 773529912, 1294757372, 1396182291, 1695183700, 1986661051, 2177026350, 2456956037],
     [2730485921, 2820302411, 3259730800, 3345764771, 3516065817, 3600352804, 4094571909, 275423344],
     [430227734, 506948616, 659060556, 883997877, 958139571, 1322822218, 1537002063, 1747873779],
     [1955562222, 2024104815, 2227730452, 2361852424, 2428436474, 2756734187, 3204031479, 3329325298]]"

definition initial_hash :: "w32 list" where
  "initial_hash =
    [0x6a09e667, 0xbb67ae85, 0x3c6ef372, 0xa54ff53a, 0x510e527f, 0x9b05688c, 0x1f83d9ab, 0x5be0cd19]"

definition sha_ch :: "w32 \<Rightarrow> w32 \<Rightarrow> w32 \<Rightarrow> w32" where
  "sha_ch x y z = (x AND y) XOR (NOT x AND z)"
definition sha_maj :: "w32 \<Rightarrow> w32 \<Rightarrow> w32 \<Rightarrow> w32" where
  "sha_maj x y z = (x AND y) XOR (x AND z) XOR (y AND z)"
definition big_sigma0 :: "w32 \<Rightarrow> w32" where
  "big_sigma0 x = word_rotr 2 x XOR word_rotr 13 x XOR word_rotr 22 x"
definition big_sigma1 :: "w32 \<Rightarrow> w32" where
  "big_sigma1 x = word_rotr 6 x XOR word_rotr 11 x XOR word_rotr 25 x"
definition small_sigma0 :: "w32 \<Rightarrow> w32" where
  "small_sigma0 x = word_rotr 7 x XOR word_rotr 18 x XOR drop_bit 3 x"
definition small_sigma1 :: "w32 \<Rightarrow> w32" where
  "small_sigma1 x = word_rotr 17 x XOR word_rotr 19 x XOR drop_bit 10 x"

text \<open>Padding: a one bit, zeros, and the length in bits on 64 bits.\<close>

definition sha_pad :: "bytes \<Rightarrow> bytes" where
  "sha_pad m = m @ [0x80] @ replicate ((119 - length m mod 64) mod 64) 0
     @ to_bytes_be 8 (8 * length m mod 2 ^ 64)"

fun chunks_of :: "nat \<Rightarrow> 'a list \<Rightarrow> 'a list list" where
  "chunks_of n [] = []"
| "chunks_of 0 (x # xs) = [x # xs]"
| "chunks_of (Suc n) (x # xs) = take (Suc n) (x # xs) # chunks_of (Suc n) (drop n xs)"

definition word_of_bytes :: "bytes \<Rightarrow> w32" where
  "word_of_bytes bs = of_nat (from_bytes_be bs)"

definition schedule_step :: "w32 list \<Rightarrow> w32 list" where
  "schedule_step w =
     (let t = length w in
      w @ [small_sigma1 (w ! (t - 2)) + w ! (t - 7) + small_sigma0 (w ! (t - 15)) + w ! (t - 16)])"

definition message_schedule :: "bytes \<Rightarrow> w32 list" where
  "message_schedule block = (schedule_step ^^ 48) (map word_of_bytes (chunks_of 4 block))"

fun sha_round :: "w32 list \<Rightarrow> w32 \<times> w32 \<Rightarrow> w32 list" where
  "sha_round [a, b, c, d, e, f, g, h] (k, w) =
     (let t1 = h + big_sigma1 e + sha_ch e f g + k + w;
          t2 = big_sigma0 a + sha_maj a b c
      in [t1 + t2, a, b, c, d + t1, e, f, g])"
| "sha_round state _ = state"

definition sha_compress :: "w32 list \<Rightarrow> bytes \<Rightarrow> w32 list" where
  "sha_compress hash block =
     map2 (+) hash (foldl sha_round hash (zip round_constants (message_schedule block)))"

definition sha256_digest :: "bytes \<Rightarrow> bytes" where
  "sha256_digest m =
     concat (map (\<lambda>w. to_bytes_be 4 (unat w)) (foldl sha_compress initial_hash (chunks_of 64 (sha_pad m))))"

definition sha256_hexdigest :: "bytes \<Rightarrow> string" where
  "sha256_hexdigest m = to_hex (sha256_digest m)"

lemma length_sha_round [simp]: "length (sha_round s p) = length s"
  by (cases "(s, p)" rule: sha_round.cases) (simp_all add: Let_def)

lemma length_sha_rounds [simp]: "length (foldl sha_round s ps) = length s"
  by (induction ps arbitrary: s) simp_all

lemma length_sha_blocks [simp]: "length (foldl sha_compress s bs) = length s"
  by (induction bs arbitrary: s) (simp_all add: sha_compress_def)

lemma length_concat_const: "\<forall>x \<in> set xs. length (f x) = n \<Longrightarrow> length (concat (map f xs)) = n * length xs"
  by (induction xs) simp_all

lemma length_sha256_digest [simp]: "length (sha256_digest m) = 32"
  by (simp add: sha256_digest_def length_concat_const[where n = 4] initial_hash_def)

text \<open>The padded message is a whole number of blocks.\<close>

lemma sha_pad_blocks: "64 dvd length (sha_pad m)"
proof -
  define r q where "r = length m mod 64" and "q = length m div 64"
  have m: "length m = 64 * q + r" and r: "r < 64" by (simp_all add: r_def q_def)
  have "(119 - r) mod 64 = (if r \<le> 55 then 55 - r else 119 - r)"
    using r by (auto simp: mod_if)
  then have "length m + (9 + (119 - r) mod 64) = 64 * (q + (if r \<le> 55 then 1 else 2))"
    using m r by simp
  then have "64 dvd length m + (9 + (119 - r) mod 64)" by (metis dvd_triv_left)
  then show ?thesis by (simp add: sha_pad_def r_def ac_simps)
qed

end
