(* ===== verification/Hashing.thy ===== *)
theory Hashing
  imports Json Paths Sha256
begin

text \<open>
  Canonical SHA-256 values and host-independent document and tree hashing
  (\<open>agent_artifacts/protocol/hashing.py\<close>). Statements about what a digest binds say
  that either the hashed data agree or the two given byte strings are a collision of SHA-256.
  The checks of the source that a field has its declared type hold by typing.
\<close>

definition DIGEST_INVALID :: diagnostic_code where
  "DIGEST_INVALID = ''protocol-digest-invalid''"
definition TREE_INVALID :: diagnostic_code where
  "TREE_INVALID = ''protocol-tree-invalid''"

definition sha256_re :: "string \<Rightarrow> bool" where
  "sha256_re s \<longleftrightarrow> take 7 s = ''sha256:'' \<and> length s = 71 \<and> list_all is_lower_hex (drop 7 s)"

datatype entry_kind = FILE | DIRECTORY

fun entry_kind_value :: "entry_kind \<Rightarrow> string" where
  "entry_kind_value FILE = ''file''"
| "entry_kind_value DIRECTORY = ''directory''"

record tree_entry =
  te_path :: safe_relative_path
  te_kind :: entry_kind
  te_executable :: bool
  te_size :: int
  te_content_digest :: "object_digest option"

definition sha256_bytes :: "bytes \<Rightarrow> object_digest" where
  "sha256_bytes data = ObjectDigest ''sha256'' (sha256_hexdigest data)"

definition parse_sha256 :: "string \<Rightarrow> source_location option \<Rightarrow> object_digest result" where
  "parse_sha256 raw location =
     (if \<not> sha256_re raw then
        mk_err [mk_diagnostic DIGEST_INVALID ERROR
                  (''invalid canonical SHA-256 digest: '' @ repr_str raw) location [] []]
      else Ok (ObjectDigest ''sha256'' (drop 7 raw)))"

definition json_digest :: "json_value \<Rightarrow> object_digest" where
  "json_digest value = sha256_bytes (canonical_json_bytes value)"

definition file_entry :: "safe_relative_path \<Rightarrow> bytes \<Rightarrow> bool \<Rightarrow> tree_entry" where
  "file_entry path content executable =
     \<lparr>te_path = path, te_kind = FILE, te_executable = executable, te_size = int (length content),
      te_content_digest = Some (sha256_bytes content)\<rparr>"

definition directory_entry :: "safe_relative_path \<Rightarrow> tree_entry" where
  "directory_entry path =
     \<lparr>te_path = path, te_kind = DIRECTORY, te_executable = False, te_size = 0, te_content_digest = None\<rparr>"

definition invalid_tree :: "string \<Rightarrow> 'a result" where
  "invalid_tree message = mk_err [error_diagnostic TREE_INVALID message]"

definition frame :: "bytes \<Rightarrow> bytes" where
  "frame data = to_bytes_be 8 (length data) @ data"

definition tree_record :: "tree_entry \<Rightarrow> bytes result" where
  "tree_record entry =
     (let path = path_str (te_path entry); encoded = utf8_encode path in
      if parse_relative_path path None \<noteq> Ok (te_path entry) then
        invalid_tree (''tree entry path is not canonical: '' @ path)
      else (case te_kind entry of
          DIRECTORY \<Rightarrow>
            if te_executable entry \<or> te_size entry \<noteq> 0 \<or> te_content_digest entry \<noteq> None then
              invalid_tree (''directory entry has file metadata: '' @ path)
            else Ok ([0x44] @ frame encoded)
        | FILE \<Rightarrow>
            (case te_content_digest entry of
               None \<Rightarrow> invalid_tree (''file entry has incomplete metadata: '' @ path)
             | Some digest \<Rightarrow>
                 if te_size entry < 0 \<or> te_size entry > 2 ^ 64 - 1 then
                   invalid_tree (''file entry has incomplete metadata: '' @ path)
                 else if \<not> sha256_re (digest_str digest) then
                   invalid_tree (''file entry has invalid content digest: '' @ path)
                 else Ok ([0x46] @ frame encoded @ (if te_executable entry then [1] else [0])
                            @ to_bytes_be 8 (nat (te_size entry)) @ from_hex (digest_value digest)))))"

fun first_duplicate :: "string list \<Rightarrow> string list \<Rightarrow> string option" where
  "first_duplicate [] seen = None"
| "first_duplicate (path # paths) seen =
     (if path \<in> set seen then Some path else first_duplicate paths (path # seen))"

fun tree_records :: "tree_entry list \<Rightarrow> bytes list \<Rightarrow> bytes list result" where
  "tree_records [] records = Ok records"
| "tree_records (entry # entries) records =
     (case tree_record entry of
        Err ds \<Rightarrow> Err ds
      | Ok r \<Rightarrow> tree_records entries (records @ [r]))"

abbreviation entry_path :: "tree_entry \<Rightarrow> string" where
  "entry_path e \<equiv> path_str (te_path e)"

definition tree_magic :: bytes where
  "tree_magic = utf8_encode ''AART-TREE-V1'' @ [0]"

definition tree_payload :: "tree_entry list \<Rightarrow> bytes result" where
  "tree_payload entries =
     (let ordered = sort_key entry_path entries in
      case first_duplicate (map entry_path ordered) [] of
        Some path \<Rightarrow> invalid_tree (''duplicate tree path: '' @ path)
      | None \<Rightarrow>
          (case tree_records ordered [] of
             Err ds \<Rightarrow> Err ds
           | Ok records \<Rightarrow> Ok (tree_magic @ concat (map frame records))))"

definition tree_digest :: "tree_entry list \<Rightarrow> object_digest result" where
  "tree_digest entries =
     (case tree_payload entries of Err ds \<Rightarrow> Err ds | Ok payload \<Rightarrow> Ok (sha256_bytes payload))"

subsection \<open>Prefix codes\<close>

text \<open>
  The contract of a byte encoding that can be read off the front of a stream: it is what makes a
  concatenation of encodings determine the sequence that was encoded.
\<close>

locale prefix_code =
  fixes enc :: "'a \<Rightarrow> bytes" and ok :: "'a \<Rightarrow> bool"
  assumes enc_append: "ok x \<Longrightarrow> ok y \<Longrightarrow> enc x @ s = enc y @ t \<Longrightarrow> x = y \<and> s = t"
    and enc_nonempty: "ok x \<Longrightarrow> enc x \<noteq> []"
begin

lemma enc_inj: "ok x \<Longrightarrow> ok y \<Longrightarrow> enc x = enc y \<Longrightarrow> x = y"
  using enc_append[of x y "[]" "[]"] by simp

lemma concat_inj:
  "\<forall>x \<in> set xs. ok x \<Longrightarrow> \<forall>y \<in> set ys. ok y \<Longrightarrow>
   concat (map enc xs) = concat (map enc ys) \<Longrightarrow> xs = ys"
proof (induction xs arbitrary: ys)
  case Nil
  then show ?case using enc_nonempty by (cases ys) auto
next
  case (Cons x xs)
  show ?case
  proof (cases ys)
    case Nil
    then show ?thesis using Cons.prems enc_nonempty[of x] by auto
  next
    case (Cons y ys')
    then have "x = y \<and> concat (map enc xs) = concat (map enc ys')"
      using Cons.prems by (intro enc_append) simp_all
    then show ?thesis using Cons Cons.prems Cons.IH[of ys'] by simp
  qed
qed

end

definition frameable :: "bytes \<Rightarrow> bool" where
  "frameable data \<longleftrightarrow> length data < 2 ^ 64"

lemma frame_append:
  assumes "frameable a" "frameable b" "frame a @ s = frame b @ t"
  shows "a = b \<and> s = t"
proof -
  have "to_bytes_be 8 (length a) = to_bytes_be 8 (length b)" "a @ s = b @ t"
    using assms(3) by (simp_all add: frame_def append_eq_append_conv)
  moreover from this have "length a = length b"
    using to_bytes_be_inj[of "length a" 8 "length b"] assms(1,2) by (simp add: frameable_def)
  ultimately show ?thesis by simp
qed

interpretation framing: prefix_code frame frameable
proof unfold_locales
  show "frameable a \<Longrightarrow> frameable b \<Longrightarrow> frame a @ s = frame b @ t \<Longrightarrow> a = b \<and> s = t" for a b s t
    by (rule frame_append)
  show "frame a \<noteq> []" for a
    using length_to_bytes_be[of 8 "length a"] by (auto simp: frame_def simp del: length_to_bytes_be)
qed

subsection \<open>Digests\<close>

lemma sha256_re_iff:
  "sha256_re s \<longleftrightarrow> (\<exists>h. s = ''sha256:'' @ h \<and> length h = 64 \<and> list_all is_lower_hex h)"
proof
  assume s: "sha256_re s"
  then have "s = ''sha256:'' @ drop 7 s" by (metis append_take_drop_id sha256_re_def)
  with s show "\<exists>h. s = ''sha256:'' @ h \<and> length h = 64 \<and> list_all is_lower_hex h"
    by (intro exI[of _ "drop 7 s"]) (simp add: sha256_re_def)
qed (auto simp: sha256_re_def)

lemma sha256_re_digest:
  "sha256_re (digest_str d) \<longleftrightarrow>
     digest_algorithm d = ''sha256'' \<and> length (digest_value d) = 64 \<and> list_all is_lower_hex (digest_value d)"
proof
  assume "sha256_re (digest_str d)"
  then obtain h where h: "digest_str d = ''sha256:'' @ h" "length h = 64" "list_all is_lower_hex h"
    unfolding sha256_re_iff by blast
  have colon: "CHR '':'' \<notin> set h"
    using h(3) by (auto simp: list_all_iff is_lower_hex_cases)
  have "split_on CHR '':'' (digest_str d) = [''sha256'', h]"
    using colon h(1) by (simp add: split_on_no_sep)
  moreover have "split_on CHR '':'' (digest_str d) =
      split_on CHR '':'' (digest_algorithm d) @ split_on CHR '':'' (digest_value d)"
    by (simp add: digest_str_def split_on_append_sep)
  ultimately have "split_on CHR '':'' (digest_algorithm d) = [''sha256''] \<and> split_on CHR '':'' (digest_value d) = [h]"
    using split_on_not_Nil[of "CHR '':''" "digest_algorithm d"] split_on_not_Nil[of "CHR '':''" "digest_value d"]
    by (auto simp: append_eq_Cons_conv Cons_eq_append_conv)
  then have "digest_algorithm d = ''sha256''" "digest_value d = h"
    by (metis join_split_on join.simps)+
  then show "digest_algorithm d = ''sha256'' \<and> length (digest_value d) = 64 \<and> list_all is_lower_hex (digest_value d)"
    using h by simp
next
  assume "digest_algorithm d = ''sha256'' \<and> length (digest_value d) = 64 \<and> list_all is_lower_hex (digest_value d)"
  then show "sha256_re (digest_str d)" unfolding sha256_re_iff by (simp add: digest_str_def)
qed

lemma sha256_bytes_valid [simp]: "sha256_re (digest_str (sha256_bytes data))"
  by (simp add: sha256_re_digest sha256_bytes_def sha256_hexdigest_def to_hex_hex)

lemma sha256_bytes_eq: "sha256_bytes a = sha256_bytes b \<longleftrightarrow> sha256_digest a = sha256_digest b"
  by (auto simp: sha256_bytes_def sha256_hexdigest_def to_hex_inj)

subsection \<open>Tree records\<close>

definition entry_valid :: "tree_entry \<Rightarrow> bool" where
  "entry_valid e \<longleftrightarrow> safe_path (te_path e) \<and>
     (case te_kind e of
        DIRECTORY \<Rightarrow> \<not> te_executable e \<and> te_size e = 0 \<and> te_content_digest e = None
      | FILE \<Rightarrow> 0 \<le> te_size e \<and> te_size e < 2 ^ 64 \<and>
          (\<exists>d. te_content_digest e = Some d \<and> sha256_re (digest_str d)))"

text \<open>A path of the running system: its encoding is far shorter than \<open>2 ^ 63\<close> bytes.\<close>

definition entry_bounded :: "tree_entry \<Rightarrow> bool" where
  "entry_bounded e \<longleftrightarrow> length (utf8_encode (entry_path e)) < 2 ^ 63"

definition record_bytes :: "tree_entry \<Rightarrow> bytes" where
  "record_bytes e =
     (case te_kind e of
        DIRECTORY \<Rightarrow> [0x44] @ frame (utf8_encode (entry_path e))
      | FILE \<Rightarrow> [0x46] @ frame (utf8_encode (entry_path e)) @ (if te_executable e then [1] else [0])
          @ to_bytes_be 8 (nat (te_size e)) @ from_hex (digest_value (the (te_content_digest e))))"

lemma invalid_tree_neq [simp]: "invalid_tree m \<noteq> Ok x"
  by (simp add: invalid_tree_def mk_err_def)

lemma parse_own_path: "parse_relative_path (path_str p) None = Ok p \<longleftrightarrow> safe_path p"
  by (simp add: parse_relative_path_Ok_iff)

lemma tree_record_Ok_iff: "tree_record e = Ok r \<longleftrightarrow> entry_valid e \<and> r = record_bytes e"
proof (cases "te_kind e")
  case FILE
  show ?thesis
  proof (cases "te_content_digest e")
    case None
    then show ?thesis using FILE by (simp add: tree_record_def Let_def entry_valid_def)
  next
    case (Some d)
    then show ?thesis using FILE
      by (auto simp: tree_record_def Let_def parse_own_path entry_valid_def record_bytes_def)
  qed
next
  case DIRECTORY
  then show ?thesis
    by (auto simp: tree_record_def Let_def parse_own_path entry_valid_def record_bytes_def)
qed

lemma path_str_inj: "safe_path p \<Longrightarrow> safe_path q \<Longrightarrow> path_str p = path_str q \<longleftrightarrow> p = q"
  by (metis parse_own_path result.inject(1))

lemma entry_path_eq:
  assumes "entry_valid a" "entry_valid b" "entry_bounded a" "entry_bounded b"
    and "frame (utf8_encode (entry_path a)) @ s = frame (utf8_encode (entry_path b)) @ t"
  shows "te_path a = te_path b \<and> s = t"
proof -
  have "frameable (utf8_encode (entry_path a))" "frameable (utf8_encode (entry_path b))"
    using assms(3,4) by (simp_all add: entry_bounded_def frameable_def)
  then show ?thesis
    using framing.enc_append[OF _ _ assms(5)] assms(1,2) by (simp add: entry_valid_def path_str_inj)
qed

lemma record_bytes_inj:
  assumes v: "entry_valid a" "entry_valid b" and b: "entry_bounded a" "entry_bounded b"
    and eq: "record_bytes a = record_bytes b"
  shows "a = b"
proof (cases "te_kind a")
  case DIRECTORY
  then have k: "te_kind b = DIRECTORY"
    using eq by (cases "te_kind b") (simp_all add: record_bytes_def)
  then have "te_path a = te_path b"
    using entry_path_eq[OF v b, of "[]" "[]"] eq DIRECTORY by (simp add: record_bytes_def)
  then show ?thesis using v DIRECTORY k by (simp add: entry_valid_def)
next
  case FILE
  then have k: "te_kind b = FILE"
    using eq by (cases "te_kind b") (simp_all add: record_bytes_def)
  obtain d e where d: "te_content_digest a = Some d" "sha256_re (digest_str d)"
    and e: "te_content_digest b = Some e" "sha256_re (digest_str e)"
    using v FILE k by (auto simp: entry_valid_def)
  let ?x = "\<lambda>e. if te_executable e then [1] else [0 :: byte]"
  have ra: "record_bytes a = [0x46] @ frame (utf8_encode (entry_path a)) @ ?x a
        @ to_bytes_be 8 (nat (te_size a)) @ from_hex (digest_value d)"
    and rb: "record_bytes b = [0x46] @ frame (utf8_encode (entry_path b)) @ ?x b
        @ to_bytes_be 8 (nat (te_size b)) @ from_hex (digest_value e)"
    using FILE k d(1) e(1) by (simp_all add: record_bytes_def)
  have rest: "te_path a = te_path b \<and>
      ?x a @ to_bytes_be 8 (nat (te_size a)) @ from_hex (digest_value d)
      = ?x b @ to_bytes_be 8 (nat (te_size b)) @ from_hex (digest_value e)"
    using eq[unfolded ra rb] by (intro entry_path_eq[OF v b]) simp
  then have p: "te_path a = te_path b" and x: "te_executable a = te_executable b"
    by (simp_all split: if_splits)
  have sh: "to_bytes_be 8 (nat (te_size a)) @ from_hex (digest_value d) =
      to_bytes_be 8 (nat (te_size b)) @ from_hex (digest_value e)"
    using rest x by simp
  then have s: "to_bytes_be 8 (nat (te_size a)) = to_bytes_be 8 (nat (te_size b))"
    and h: "from_hex (digest_value d) = from_hex (digest_value e)"
    by (subst (asm) append_eq_append_conv; simp)+
  have "te_size a = te_size b"
    using s v FILE k to_bytes_be_inj[of "nat (te_size a)" 8 "nat (te_size b)"]
    by (auto simp: entry_valid_def nat_less_iff eq_nat_nat_iff)
  moreover have "d = e"
    using h d(2) e(2) from_hex_inj[of "digest_value d" "digest_value e"]
    by (simp add: sha256_re_digest object_digest.expand)
  ultimately show ?thesis using p x d e FILE k by simp
qed

lemma length_record_bytes:
  assumes "entry_valid e" "entry_bounded e" shows "frameable (record_bytes e)"
proof -
  have "length (from_hex (digest_value d)) = 32" if "sha256_re (digest_str d)" for d
    using that by (simp add: sha256_re_digest length_from_hex)
  then show ?thesis
    using assms by (auto simp: entry_valid_def entry_bounded_def frameable_def record_bytes_def frame_def
        split: entry_kind.splits)
qed

subsection \<open>Tree digests\<close>

lemma first_duplicate_None: "first_duplicate ps seen = None \<longleftrightarrow> distinct ps \<and> set ps \<inter> set seen = {}"
  by (induction ps arbitrary: seen) auto

lemma tree_records_Ok:
  "tree_records es acc = Ok rs \<longleftrightarrow> (\<forall>e \<in> set es. entry_valid e) \<and> rs = acc @ map record_bytes es"
proof (induction es arbitrary: acc)
  case (Cons e es)
  show ?case
  proof (cases "tree_record e")
    case (Ok r)
    then show ?thesis using Cons.IH tree_record_Ok_iff[of e r] by auto
  next
    case (Err ds)
    then have "\<not> entry_valid e" using tree_record_Ok_iff[of e "record_bytes e"] by auto
    then show ?thesis using Err by simp
  qed
qed auto

lemma distinct_entry_paths:
  "distinct (map entry_path (sort_key entry_path es)) \<longleftrightarrow> distinct (map entry_path es)"
  by (rule mset_eq_imp_distinct_iff) simp

lemma tree_payload_Ok:
  "tree_payload es = Ok p \<longleftrightarrow>
     distinct (map entry_path es) \<and> (\<forall>e \<in> set es. entry_valid e) \<and>
     p = tree_magic @ concat (map frame (map record_bytes (sort_key entry_path es)))"
proof -
  let ?o = "sort_key entry_path es"
  have dup: "first_duplicate (map entry_path ?o) [] = None \<longleftrightarrow> distinct (map entry_path es)"
    using first_duplicate_None[of "map entry_path ?o" "[]"] distinct_entry_paths[of es] by simp
  have rec: "tree_records ?o [] = Ok rs \<longleftrightarrow> (\<forall>e \<in> set es. entry_valid e) \<and> rs = map record_bytes ?o" for rs
    using tree_records_Ok[of ?o "[]" rs] by simp
  show ?thesis
  proof (cases "first_duplicate (map entry_path ?o) []")
    case None
    show ?thesis
    proof (cases "tree_records ?o []")
      case (Ok rs)
      have "tree_payload es = Ok (tree_magic @ concat (map frame rs))"
        unfolding tree_payload_def Let_def None Ok by simp
      moreover have "distinct (map entry_path es)" using None dup by blast
      ultimately show ?thesis using rec[of rs] Ok by (simp add: eq_commute)
    next
      case (Err ds)
      have "tree_payload es = Err ds"
        unfolding tree_payload_def Let_def None Err by simp
      then show ?thesis using rec[of "map record_bytes ?o"] Err by simp
    qed
  next
    case (Some q)
    then show ?thesis using dup by (simp add: tree_payload_def)
  qed
qed

lemma tree_digest_Ok:
  "tree_digest es = Ok d \<longleftrightarrow> (\<exists>p. tree_payload es = Ok p \<and> d = sha256_bytes p)"
  by (cases "tree_payload es") (auto simp: tree_digest_def)

lemma tree_payload_perm:
  assumes "mset es = mset fs" shows "tree_payload es = tree_payload fs"
proof (cases "distinct (map entry_path es)")
  case True
  then have "sort_key entry_path es = sort_key entry_path fs"
    using assms by (intro sort_key_perm_unique) (auto simp: distinct_map)
  then show ?thesis by (simp add: tree_payload_def)
next
  case False
  let ?d = "\<lambda>es. first_duplicate (map entry_path (sort_key entry_path es)) []"
  have "?d es \<noteq> None" using False first_duplicate_None distinct_entry_paths by blast
  then obtain p where "?d es = Some p" by blast
  moreover have "?d fs = ?d es" using map_sort_key_perm[OF assms, of entry_path] by simp
  ultimately show ?thesis by (simp add: tree_payload_def)
qed

lemma tree_payload_binds:
  assumes p: "tree_payload es = Ok p" "tree_payload fs = Ok p"
    and b: "\<forall>e \<in> set es \<union> set fs. entry_bounded e"
  shows "mset es = mset fs"
proof -
  let ?s = "sort_key entry_path"
  have v: "\<forall>e \<in> set es \<union> set fs. entry_valid e" using p unfolding tree_payload_Ok by blast
  have "concat (map frame (map record_bytes (?s es))) = concat (map frame (map record_bytes (?s fs)))"
    using p unfolding tree_payload_Ok by simp
  then have "map record_bytes (?s es) = map record_bytes (?s fs)"
    by (rule framing.concat_inj[rotated 2]) (use v b in \<open>auto intro: length_record_bytes\<close>)
  moreover have "inj_on record_bytes (set es \<union> set fs)"
    using v b by (auto intro!: inj_onI record_bytes_inj)
  ultimately have "?s es = ?s fs" by (simp add: inj_on_map_eq_map)
  then show ?thesis by (metis mset_sort)
qed

text \<open>
  \<open>tree_digest\<close> accepts exactly the trees without a repeated path whose entries are all valid
  (safe path; a directory without file metadata; a file with a size of 64 bits and a canonical
  SHA-256 digest), and the result, error or digest, does not depend on the order of the entries.
\<close>

theorem tree_digest_total:
  "((\<exists>d. tree_digest es = Ok d) \<longleftrightarrow> distinct (map entry_path es) \<and> list_all entry_valid es)
   \<and> tree_digest (rev es) = tree_digest es
   \<and> tree_digest (sort_key entry_path es) = tree_digest es"
proof -
  have "tree_payload (rev es) = tree_payload es" "tree_payload (sort_key entry_path es) = tree_payload es"
    by (rule tree_payload_perm; simp)+
  then show ?thesis
    by (auto simp: tree_digest_Ok tree_payload_Ok list_all_iff) (simp_all add: tree_digest_def)
qed

text \<open>
  C25. A tree digest binds the whole tree: two trees with the same digest have the same entries
  (paths, kinds, executable bits, sizes and content digests), or their framed payloads
  are two different byte strings with the same SHA-256.
\<close>

theorem tree_digest_binds:
  assumes "tree_digest es = Ok d" and "tree_digest fs = Ok d"
    and "\<forall>e \<in> set es \<union> set fs. entry_bounded e"
  shows "mset es = mset fs \<or>
    (\<exists>p q. tree_payload es = Ok p \<and> tree_payload fs = Ok q \<and> p \<noteq> q \<and> sha256_digest p = sha256_digest q)"
proof -
  obtain p q where p: "tree_payload es = Ok p" "d = sha256_bytes p"
    and q: "tree_payload fs = Ok q" "d = sha256_bytes q"
    using assms(1,2) by (auto simp: tree_digest_Ok)
  show ?thesis
  proof (cases "p = q")
    case True
    then show ?thesis using tree_payload_binds[OF p(1)] q(1) assms(3) by simp
  next
    case False
    then show ?thesis using p q sha256_bytes_eq[of p q] by blast
  qed
qed

lemma directory_entry_valid: "safe_path p \<Longrightarrow> entry_valid (directory_entry p)"
  by (simp add: directory_entry_def entry_valid_def)

lemma file_entry_valid:
  "safe_path p \<Longrightarrow> length content < 2 ^ 64 \<Longrightarrow> entry_valid (file_entry p content x)"
  by (simp add: file_entry_def entry_valid_def)

definition sample_tree :: "tree_entry list" where
  "sample_tree = [directory_entry (SafeRelativePath [''a'']), file_entry (SafeRelativePath [''b'']) [1, 2] True]"

lemma sample_tree_ok:
  "distinct (map entry_path sample_tree)" "list_all entry_valid sample_tree"
  "\<forall>e \<in> set sample_tree. entry_bounded e"
  by (simp_all add: sample_tree_def directory_entry_valid file_entry_valid safe_path_def
      proper_component_def is_drive_def is_control_def)
    (simp_all add: directory_entry_def file_entry_def path_str_def entry_bounded_def utf8_encode_def utf8_char_def)

theorem tree_digest_binds_witness:
  "mset sample_tree = mset (rev sample_tree) \<or>
    (\<exists>p q. tree_payload sample_tree = Ok p \<and> tree_payload (rev sample_tree) = Ok q \<and> p \<noteq> q
       \<and> sha256_digest p = sha256_digest q)"
proof -
  have "\<exists>d. tree_digest sample_tree = Ok d" 
    using sample_tree_ok by (auto simp: tree_digest_Ok tree_payload_Ok list_all_iff)
  then obtain d where "tree_digest sample_tree = Ok d" ..
  moreover from this have "tree_digest (rev sample_tree) = Ok d"
    using tree_payload_perm[of "rev sample_tree" sample_tree] by (simp add: tree_digest_def)
  ultimately show ?thesis by (rule tree_digest_binds) (use sample_tree_ok(3) in simp)
qed

lemma json_digest_eq:
  assumes "wf_json v" "wf_json w" "json_digest v = json_digest w"
  shows "v = w \<or> (canonical_json_bytes v \<noteq> canonical_json_bytes w
    \<and> sha256_digest (canonical_json_bytes v) = sha256_digest (canonical_json_bytes w))"
  using assms canonical_json_bytes_eq[of v w] by (auto simp: json_digest_def sha256_bytes_eq)

lemma parse_sha256_Ok_iff:
  "parse_sha256 raw location = Ok d \<longleftrightarrow> raw = digest_str d \<and> sha256_re (digest_str d)"
proof -
  have "sha256_re raw \<and> d = ObjectDigest ''sha256'' (drop 7 raw) \<longleftrightarrow> raw = digest_str d \<and> sha256_re (digest_str d)"
    by (cases d) (auto simp: sha256_re_digest, auto simp: sha256_re_iff digest_str_def)
  then show ?thesis by (auto simp: parse_sha256_def mk_err_def)
qed

text \<open>
  The digests this module makes are the digests it reads: \<open>parse_sha256\<close> accepts a text exactly when
  it is the rendering of a canonical digest and returns that digest; in particular it reads back
  the rendering of every computed document, file or tree digest.
\<close>

theorem parse_sha256_roundtrip:
  "(parse_sha256 raw location = Ok d \<longleftrightarrow> raw = digest_str d \<and> sha256_re (digest_str d))
   \<and> parse_sha256 (digest_str (sha256_bytes data)) location = Ok (sha256_bytes data)
   \<and> parse_sha256 (digest_str (json_digest v)) location = Ok (json_digest v)"
  by (simp add: parse_sha256_Ok_iff json_digest_def)

end
