(* ===== verification/Models.thy ===== *)
theory Models
  imports Semver Capabilities Hashing
begin

text \<open>
  The frozen values of the native-source and registry protocols
  (\<open>agent_artifacts/protocol/native_models.py\<close> and \<open>registry_models.py\<close>). The literal types of the source
  (artifact type, install scope, mode and effect, review status) are strings, as in Python.

  Python compares versions by precedence, so equality of values that hold a version is
  not equality of records: \<open>py_eq_...\<close> is the comparison the source uses.
\<close>

type_synonym extensions = "(string \<times> json_value) list"

definition PAYLOAD_FORMATS :: "(string \<times> string) list" where
  "PAYLOAD_FORMATS =
     [(''skill'', ''aart-skill-v1''), (''guideline'', ''aart-guideline-v1''), (''mcp'', ''aart-mcp-v1''),
      (''hook'', ''aart-hook-v1''), (''memory'', ''aart-memory-v1'')]"

definition PAYLOAD_FORMAT_BY_TYPE :: "(string \<times> string) list" where
  "PAYLOAD_FORMAT_BY_TYPE = dict_of PAYLOAD_FORMATS"

definition INSTALL_EFFECTS_BY_TYPE :: "(string \<times> string list) list" where
  "INSTALL_EFFECTS_BY_TYPE =
     [(''skill'', [''copy-tree'']), (''guideline'', [''write-file'']), (''mcp'', [''merge-json'']),
      (''hook'', [''copy-tree'', ''merge-json'']), (''memory'', [''write-file'', ''managed-block''])]"

subsection \<open>Native source values\<close>

record source_manifest =
  sm_schema_version :: int
  sm_protocol_version :: int
  sm_source_id :: source_id
  sm_display_name :: string
  sm_requires_aart :: version_bounds
  sm_required_capabilities :: "capability list"
  sm_artifact_roots :: "safe_relative_path list"
  sm_collection_roots :: "safe_relative_path list"
  sm_extensions :: extensions

record payload_spec =
  pay_root :: safe_relative_path
  pay_format :: string

record compatibility_spec =
  comp_profiles :: "string list"
  comp_platforms :: "string list"

record install_spec =
  inst_scopes :: "string list"
  inst_modes :: "string list"
  inst_effects :: "string list"

record setup_reference =
  set_recipe :: safe_relative_path
  set_platforms :: "string list"

record artifact_selector =
  sel_identity :: artifact_identity
  sel_version :: "version_bounds option"

record artifact_manifest =
  am_schema_version :: int
  am_identity :: artifact_identity
  am_version :: semver
  am_summary :: string
  am_payload :: payload_spec
  am_compatibility :: compatibility_spec
  am_install :: install_spec
  am_setup :: "setup_reference option"
  am_authors :: "string list"
  am_license :: "string option"
  am_homepage :: "string option"
  am_extensions :: extensions
  am_requires_aart :: version_bounds
  am_requires :: "artifact_selector list"

record origin_provenance =
  op_kind :: string
  op_url :: string
  op_resolved_commit :: string
  op_path :: safe_relative_path
  op_input_digest :: object_digest

record importer_provenance =
  ip_id :: string
  ip_version :: semver
  ip_options_digest :: object_digest

record provenance =
  prov_schema_version :: int
  prov_origin :: origin_provenance
  prov_importer :: importer_provenance
  prov_warnings :: "string list"
  prov_extensions :: extensions

record collection_manifest =
  cm_schema_version :: int
  cm_name :: string
  cm_summary :: string
  cm_artifacts :: "artifact_selector list"
  cm_collections :: "string list"
  cm_extensions :: extensions

subsection \<open>Registry values\<close>

record service_advertisement =
  sa_name :: string
  sa_kind :: string
  sa_repository :: "string option"

record registry_manifest =
  rm_schema_version :: int
  rm_protocol_version :: int
  rm_registry_id :: source_id
  rm_display_name :: string
  rm_requires_aart :: version_bounds
  rm_required_capabilities :: "capability list"
  rm_default_channel :: string
  rm_services :: "service_advertisement list"
  rm_extensions :: extensions

record git_artifact_reference =
  gar_kind :: string
  gar_url :: string
  gar_ref :: string
  gar_path :: safe_relative_path

record review_record =
  rev_status :: string
  rev_policy :: string

record registry_entry =
  re_schema_version :: int
  re_identity :: artifact_identity
  re_source :: git_artifact_reference
  re_review :: review_record
  re_extensions :: extensions

record locked_artifact =
  la_origin_url :: string
  la_requested_ref :: string
  la_resolved_commit :: string
  la_path :: safe_relative_path
  la_manifest_digest :: object_digest
  la_payload_digest :: object_digest
  la_object_digest :: object_digest
  la_artifact_version :: semver
  la_review :: review_record
  la_provenance_digest :: "object_digest option"

record registry_lock =
  rl_schema_version :: int
  rl_registry_inputs_digest :: object_digest
  rl_entries :: "(artifact_identity \<times> locked_artifact) list"

record resolved_registry_reference =
  rr_identity :: artifact_identity
  rr_origin_url :: string
  rr_requested_ref :: string
  rr_resolved_commit :: string
  rr_path :: safe_relative_path
  rr_manifest_digest :: object_digest
  rr_payload_digest :: object_digest
  rr_object_digest :: object_digest
  rr_artifact_version :: semver
  rr_review :: review_record
  rr_provenance_digest :: "object_digest option"

record index_setup =
  is_recipe :: safe_relative_path
  is_platforms :: "string list"
  is_capabilities :: "capability list"

record index_provenance =
  ipr_origin_url :: string
  ipr_resolved_commit :: string
  ipr_path :: safe_relative_path

record index_artifact =
  ia_source_id :: source_id
  ia_identity :: artifact_identity
  ia_version :: semver
  ia_summary :: string
  ia_manifest_digest :: object_digest
  ia_payload_digest :: object_digest
  ia_object_digest :: object_digest
  ia_compatibility :: compatibility_spec
  ia_install :: install_spec
  ia_setup :: "index_setup option"
  ia_review :: "review_record option"
  ia_provenance :: "index_provenance option"
  ia_collections :: "string list"
  ia_requires_aart :: version_bounds
  ia_requires :: "artifact_selector list"

record registry_index =
  ri_schema_version :: int
  ri_protocol_version :: int
  ri_registry_id :: source_id
  ri_registry_inputs_digest :: object_digest
  ri_artifacts :: "index_artifact list"
  ri_collections :: "collection_manifest list"
  ri_services :: "service_advertisement list"

subsection \<open>Python equality of values with versions\<close>

fun opt_eq :: "('a \<Rightarrow> 'a \<Rightarrow> bool) \<Rightarrow> 'a option \<Rightarrow> 'a option \<Rightarrow> bool" where
  "opt_eq eq None None = True"
| "opt_eq eq (Some a) (Some b) = eq a b"
| "opt_eq eq _ _ = False"

definition py_eq_bounds :: "version_bounds \<Rightarrow> version_bounds \<Rightarrow> bool" where
  "py_eq_bounds a b \<longleftrightarrow>
     opt_eq same_precedence (min_inclusive a) (min_inclusive b) \<and>
     opt_eq same_precedence (max_exclusive a) (max_exclusive b)"

definition py_eq_selector :: "artifact_selector \<Rightarrow> artifact_selector \<Rightarrow> bool" where
  "py_eq_selector a b \<longleftrightarrow>
     sel_identity a = sel_identity b \<and> opt_eq py_eq_bounds (sel_version a) (sel_version b)"

text \<open>
  \<open>set(xs)\<close> under a Python equality: the first of equal elements stays. The iteration order of a
  Python set is unspecified; the model keeps the order of the list.
\<close>

fun dedup_by :: "('a \<Rightarrow> 'a \<Rightarrow> bool) \<Rightarrow> 'a list \<Rightarrow> 'a list \<Rightarrow> 'a list" where
  "dedup_by eq [] kept = kept"
| "dedup_by eq (x # xs) kept =
     dedup_by eq xs (if list_ex (\<lambda>y. eq y x) kept then kept else kept @ [x])"

lemma dedup_by_distinct_key:
  assumes "distinct (map f (kept @ xs))" and "\<And>x y. eq x y \<Longrightarrow> f x = f y"
  shows "dedup_by eq xs kept = kept @ xs"
  using assms(1)
proof (induction xs arbitrary: kept)
  case (Cons x xs)
  have "f x \<notin> f ` set kept" using Cons.prems by auto
  then have "\<not> list_ex (\<lambda>y. eq y x) kept" unfolding list_ex_iff using assms(2) by (metis imageI)
  then show ?case using Cons by simp
qed simp

lemma py_eq_selector_identity: "py_eq_selector a b \<Longrightarrow> sel_identity a = sel_identity b"
  by (simp add: py_eq_selector_def)

end
