(* ===== verification/CompilerModel.thy ===== *)
theory CompilerModel
  imports Models
begin

text \<open>
  The type-state values of the compiler (\<open>agent_artifacts/compiler/model.py\<close>), and the source
  snapshots they carry (\<open>protocol/native_tree.py\<close>). Each \<open>mk_...\<close> is a constructor with
  the checks of its \<open>__post_init__\<close>; \<open>Inl\<close> is the exception it raises.
\<close>

subsection \<open>Source snapshots\<close>

datatype snapshot_origin = SO_LOCAL | SO_IMMUTABLE_GIT

datatype snapshot_entry_kind = SE_FILE | SE_DIRECTORY | SE_SYMLINK | SE_SPECIAL

record snapshot_entry =
  sne_path :: safe_relative_path
  sne_kind :: snapshot_entry_kind
  sne_content :: bytes
  sne_executable :: bool

record source_snapshot =
  snap_origin :: snapshot_origin
  snap_entries :: "snapshot_entry list"

definition mk_source_snapshot :: "snapshot_origin \<Rightarrow> snapshot_entry list \<Rightarrow> source_snapshot" where
  "mk_source_snapshot origin entries =
     \<lparr>snap_origin = origin, snap_entries = sort_key (path_str \<circ> sne_path) entries\<rparr>"

subsection \<open>Enumerations and digests\<close>

datatype compiler_mode = CONSUMER | MAINTAINER

datatype compiler_phase =
  ACQUIRE | PARSE | HANDSHAKE | RESOLVE | NORMALIZE | VALIDATE | INDEX | MATERIALIZE | PUBLISH

definition all_phases :: "compiler_phase list" where
  "all_phases = [ACQUIRE, PARSE, HANDSHAKE, RESOLVE, NORMALIZE, VALIDATE, INDEX, MATERIALIZE, PUBLISH]"

datatype phase_status = P_SUCCEEDED | P_FAILED | P_SKIPPED

definition valid_digest :: "object_digest \<Rightarrow> bool" where
  "valid_digest d \<longleftrightarrow> digest_algorithm d = ''sha256'' \<and> length (digest_value d) = 64
     \<and> list_all is_lower_hex (digest_value d)"

definition require_digest :: "object_digest \<Rightarrow> string \<Rightarrow> unit py" where
  "require_digest d label =
     (if valid_digest d then Inr () else Inl (ValueError (label @ '' must be a canonical SHA-256 digest'')))"

text \<open>\<open>py_check\<close> continues after a check that may raise, \<open>one_line\<close> is the test for one non-empty line.\<close>

definition py_check :: "unit py \<Rightarrow> 'a py \<Rightarrow> 'a py" where
  "py_check c r = (case c of Inl e \<Rightarrow> Inl e | Inr _ \<Rightarrow> r)"

definition py_guard :: "bool \<Rightarrow> string \<Rightarrow> 'a py \<Rightarrow> 'a py" where
  "py_guard bad message r = (if bad then Inl (ValueError message) else r)"

definition one_line :: "string \<Rightarrow> bool" where
  "one_line s \<longleftrightarrow> s \<noteq> [] \<and> CHR 0x0A \<notin> set s \<and> CHR 0x0D \<notin> set s"

definition require_optional_digest :: "object_digest option \<Rightarrow> string \<Rightarrow> unit py" where
  "require_optional_digest d label = (case d of None \<Rightarrow> Inr () | Some x \<Rightarrow> require_digest x label)"

lemma py_check_Inr: "py_check c r = Inr x \<longleftrightarrow> c = Inr () \<and> r = Inr x"
  by (cases c) (simp_all add: py_check_def)

lemma py_guard_Inr: "py_guard b m r = Inr x \<longleftrightarrow> \<not> b \<and> r = Inr x"
  by (simp add: py_guard_def)

lemma require_digest_Inr: "require_digest d l = Inr u \<longleftrightarrow> valid_digest d"
  by (simp add: require_digest_def)

lemma require_optional_digest_Inr:
  "require_optional_digest d l = Inr u \<longleftrightarrow> (\<forall>x. d = Some x \<longrightarrow> valid_digest x)"
  by (cases d) (simp_all add: require_optional_digest_def require_digest_Inr)

lemmas py_ok = py_check_Inr py_guard_Inr require_digest_Inr require_optional_digest_Inr

lemma valid_digest_iff: "valid_digest d \<longleftrightarrow> sha256_re (digest_str d)"
  by (simp add: valid_digest_def sha256_re_digest)

lemma valid_sha256_bytes [simp]: "valid_digest (sha256_bytes data)"
  by (simp add: valid_digest_iff)

lemma valid_json_digest [simp]: "valid_digest (json_digest v)"
  by (simp add: json_digest_def)

subsection \<open>Requests\<close>

record source_request =
  sr_alias :: source_alias
  sr_locator :: string
  sr_locked_revision :: "string option"
  sr_expected_snapshot_digest :: "object_digest option"

definition mk_source_request ::
  "source_alias \<Rightarrow> string \<Rightarrow> string option \<Rightarrow> object_digest option \<Rightarrow> source_request py" where
  "mk_source_request alias locator locked expected =
     py_guard (alias_value alias = [] \<or> locator = []) ''source alias and locator must be non-empty''
     (py_guard (case locked of None \<Rightarrow> False | Some r \<Rightarrow> \<not> one_line r)
        ''locked revision must be one non-empty line''
     (py_check (require_optional_digest expected ''expected snapshot digest'')
     (Inr \<lparr>sr_alias = alias, sr_locator = locator, sr_locked_revision = locked,
           sr_expected_snapshot_digest = expected\<rparr>)))"

record compiler_request =
  cr_build_key :: string
  cr_mode :: compiler_mode
  cr_sources :: "source_request list"
  cr_options_digest :: object_digest

definition request_alias :: "source_request \<Rightarrow> string" where
  "request_alias r = alias_value (sr_alias r)"

definition mk_compiler_request ::
  "string \<Rightarrow> compiler_mode \<Rightarrow> source_request list \<Rightarrow> object_digest \<Rightarrow> compiler_request py" where
  "mk_compiler_request build_key mode sources options_digest =
     py_guard (\<not> one_line build_key) ''build key must be one non-empty line''
     (py_check (require_digest options_digest ''options digest'')
     (let ordered = sort_key request_alias sources in
      py_guard (\<not> distinct (map request_alias ordered)) ''compiler source aliases must be unique''
      (Inr \<lparr>cr_build_key = build_key, cr_mode = mode, cr_sources = ordered,
            cr_options_digest = options_digest\<rparr>)))"

subsection \<open>Acquisition\<close>

record acquired_source =
  as_alias :: source_alias
  as_resolved_revision :: string
  as_snapshot_digest :: object_digest
  as_snapshot :: source_snapshot

definition mk_acquired_source ::
  "source_alias \<Rightarrow> string \<Rightarrow> object_digest \<Rightarrow> source_snapshot \<Rightarrow> acquired_source py" where
  "mk_acquired_source alias revision digest snapshot =
     py_guard (alias_value alias = [] \<or> \<not> one_line revision) ''acquired source identity must be non-empty''
     (py_check (require_digest digest ''snapshot digest'')
     (Inr \<lparr>as_alias = alias, as_resolved_revision = revision, as_snapshot_digest = digest,
           as_snapshot = snapshot\<rparr>))"

record acquired_compilation =
  ac_sources :: "acquired_source list"
  ac_input_digest :: object_digest

definition acquired_alias :: "acquired_source \<Rightarrow> string" where
  "acquired_alias s = alias_value (as_alias s)"

definition mk_acquired_compilation :: "acquired_source list \<Rightarrow> object_digest \<Rightarrow> acquired_compilation py" where
  "mk_acquired_compilation sources input_digest =
     py_check (require_digest input_digest ''compiler input digest'')
     (let ordered = sort_key acquired_alias sources in
      py_guard (\<not> distinct (map acquired_alias ordered)) ''acquired source aliases must be unique''
      (Inr \<lparr>ac_sources = ordered, ac_input_digest = input_digest\<rparr>))"

record compiler_context =
  cc_build_key :: string
  cc_mode :: compiler_mode
  cc_options_digest :: object_digest
  cc_input_digest :: object_digest

definition mk_compiler_context ::
  "string \<Rightarrow> compiler_mode \<Rightarrow> object_digest \<Rightarrow> object_digest \<Rightarrow> compiler_context py" where
  "mk_compiler_context build_key mode options_digest input_digest =
     py_guard (\<not> one_line build_key) ''compiler context build key must be one non-empty line''
     (py_check (require_digest options_digest ''compiler options digest'')
     (py_check (require_digest input_digest ''compiler input digest'')
     (Inr \<lparr>cc_build_key = build_key, cc_mode = mode, cc_options_digest = options_digest,
           cc_input_digest = input_digest\<rparr>)))"

subsection \<open>Phase outputs, candidates and publication\<close>

record 'a phase_output =
  po_value :: 'a
  po_digest :: object_digest
  po_diagnostics :: "diagnostic list"

definition mk_phase_output :: "'a \<Rightarrow> object_digest \<Rightarrow> diagnostic list \<Rightarrow> 'a phase_output py" where
  "mk_phase_output value digest diagnostics =
     py_check (require_digest digest ''phase output digest'')
     (Inr \<lparr>po_value = value, po_digest = digest, po_diagnostics = sort_diagnostics diagnostics\<rparr>)"

record 'a resolved_compilation =
  rc_value :: 'a
  rc_frozen :: bool

record object_plan =
  pl_digest :: object_digest
  pl_content :: bytes

definition mk_object_plan :: "object_digest \<Rightarrow> bytes \<Rightarrow> object_plan py" where
  "mk_object_plan digest content =
     py_guard (sha256_bytes content \<noteq> digest) ''object plan digest must bind its exact bytes''
     (Inr \<lparr>pl_digest = digest, pl_content = content\<rparr>)"

record object_receipt =
  or_digest :: object_digest

definition mk_object_receipt :: "object_digest \<Rightarrow> object_receipt py" where
  "mk_object_receipt digest =
     py_check (require_digest digest ''object receipt digest'') (Inr \<lparr>or_digest = digest\<rparr>)"

record compilation_candidate =
  ca_input_digest :: object_digest
  ca_index_bytes :: bytes
  ca_index_digest :: object_digest
  ca_objects :: "object_plan list"

definition plan_key :: "object_plan \<Rightarrow> string" where
  "plan_key p = digest_str (pl_digest p)"

definition mk_compilation_candidate ::
  "object_digest \<Rightarrow> bytes \<Rightarrow> object_digest \<Rightarrow> object_plan list \<Rightarrow> compilation_candidate py" where
  "mk_compilation_candidate input_digest index_bytes index_digest objects =
     py_check (require_digest input_digest ''candidate input digest'')
     (py_guard (sha256_bytes index_bytes \<noteq> index_digest) ''candidate index digest must bind its exact bytes''
     (let ordered = sort_key plan_key objects in
      py_guard (\<not> distinct (map pl_digest ordered)) ''candidate object digests must be unique''
      (Inr \<lparr>ca_input_digest = input_digest, ca_index_bytes = index_bytes, ca_index_digest = index_digest,
            ca_objects = ordered\<rparr>)))"

definition snapshot_json ::
  "string \<Rightarrow> object_digest \<Rightarrow> object_digest \<Rightarrow> object_digest list \<Rightarrow> json_value" where
  "snapshot_json build_key input_digest index_digest object_digests =
     json_object [(''build_key'', JStr build_key), (''input_digest'', JStr (digest_str input_digest)),
       (''index_digest'', JStr (digest_str index_digest)),
       (''object_digests'', JArray (map (JStr \<circ> digest_str) object_digests))]"

definition snapshot_digest ::
  "string \<Rightarrow> object_digest \<Rightarrow> object_digest \<Rightarrow> object_digest list \<Rightarrow> object_digest" where
  "snapshot_digest build_key input_digest index_digest object_digests =
     json_digest (snapshot_json build_key input_digest index_digest object_digests)"

record publish_request =
  pr_build_key :: string
  pr_input_digest :: object_digest
  pr_index_bytes :: bytes
  pr_index_digest :: object_digest
  pr_object_digests :: "object_digest list"
  pr_snapshot_digest :: object_digest

fun require_digests :: "object_digest list \<Rightarrow> string \<Rightarrow> unit py" where
  "require_digests [] label = Inr ()"
| "require_digests (d # ds) label = py_check (require_digest d label) (require_digests ds label)"

definition mk_publish_request ::
  "string \<Rightarrow> object_digest \<Rightarrow> bytes \<Rightarrow> object_digest \<Rightarrow> object_digest list \<Rightarrow> object_digest
     \<Rightarrow> publish_request py" where
  "mk_publish_request build_key input_digest index_bytes index_digest object_digests snapshot =
     py_guard (build_key = []) ''publish build key must be non-empty''
     (py_check (require_digest input_digest ''publish input digest'')
     (py_check (require_digest index_digest ''publish index digest'')
     (py_check (require_digest snapshot ''publish snapshot digest'')
     (py_guard (sha256_bytes index_bytes \<noteq> index_digest) ''publish index digest must bind its exact bytes''
     (let ordered = sort_key digest_str object_digests in
      py_check (require_digests ordered ''publish object digest'')
      (py_guard (\<not> distinct ordered) ''publish object digests must be unique''
      (py_guard (snapshot_digest build_key input_digest index_digest ordered \<noteq> snapshot)
         ''publish snapshot digest must bind all publication inputs''
      (Inr \<lparr>pr_build_key = build_key, pr_input_digest = input_digest, pr_index_bytes = index_bytes,
            pr_index_digest = index_digest, pr_object_digests = ordered,
            pr_snapshot_digest = snapshot\<rparr>))))))))"

record publish_receipt =
  prc_snapshot_digest :: object_digest

definition mk_publish_receipt :: "object_digest \<Rightarrow> publish_receipt py" where
  "mk_publish_receipt snapshot =
     py_check (require_digest snapshot ''publish receipt digest'') (Inr \<lparr>prc_snapshot_digest = snapshot\<rparr>)"

subsection \<open>Reports and runs\<close>

record phase_report =
  rep_phase :: compiler_phase
  rep_status :: phase_status
  rep_input_digest :: "object_digest option"
  rep_output_digest :: "object_digest option"
  rep_diagnostics :: "diagnostic list"

definition mk_phase_report ::
  "compiler_phase \<Rightarrow> phase_status \<Rightarrow> object_digest option \<Rightarrow> object_digest option \<Rightarrow> diagnostic list
     \<Rightarrow> phase_report py" where
  "mk_phase_report phase status input output diagnostics =
     py_check (require_optional_digest input ''phase input digest'')
     (py_check (require_optional_digest output ''phase output digest'')
     (Inr \<lparr>rep_phase = phase, rep_status = status, rep_input_digest = input, rep_output_digest = output,
           rep_diagnostics = sort_diagnostics diagnostics\<rparr>))"

record compiler_run =
  run_reports :: "phase_report list"
  run_candidate :: "compilation_candidate option"
  run_publication :: "publish_receipt option"
  run_diagnostics :: "diagnostic list"

fun phase_position :: "compiler_phase list \<Rightarrow> compiler_phase \<Rightarrow> nat" where
  "phase_position [] p = 0"
| "phase_position (q # qs) p = (if q = p then 0 else Suc (phase_position qs p))"

definition mk_compiler_run ::
  "phase_report list \<Rightarrow> compilation_candidate option \<Rightarrow> publish_receipt option \<Rightarrow> compiler_run py" where
  "mk_compiler_run reports candidate publication =
     (let ordered = sort_key (\<lambda>r. phase_position all_phases (rep_phase r)) reports in
      py_guard (map rep_phase ordered \<noteq> all_phases)
        ''compiler run must contain exactly one report for every phase''
      (py_guard (publication \<noteq> None \<and> candidate = None) ''publication requires a compilation candidate''
      (Inr \<lparr>run_reports = ordered, run_candidate = candidate, run_publication = publication,
            run_diagnostics = sort_diagnostics (concat (map rep_diagnostics ordered))\<rparr>)))"

definition run_succeeded :: "compiler_run \<Rightarrow> bool" where
  "run_succeeded run \<longleftrightarrow> run_publication run \<noteq> None \<and> \<not> list_ex is_error (run_diagnostics run)"

subsection \<open>Smart constructors\<close>

definition phase_output :: "'a \<Rightarrow> bytes \<Rightarrow> diagnostic list \<Rightarrow> 'a phase_output py" where
  "phase_output value canonical diagnostics = mk_phase_output value (sha256_bytes canonical) diagnostics"

definition object_plan :: "bytes \<Rightarrow> object_plan py" where
  "object_plan content = mk_object_plan (sha256_bytes content) content"

definition acquisition_json :: "acquired_source list \<Rightarrow> object_digest \<Rightarrow> json_value" where
  "acquisition_json ordered options_digest =
     json_object [(''options_digest'', JStr (digest_str options_digest)),
       (''sources'', JArray (map (\<lambda>s. json_object
          [(''alias'', JStr (acquired_alias s)), (''resolved_revision'', JStr (as_resolved_revision s)),
           (''snapshot_digest'', JStr (digest_str (as_snapshot_digest s)))]) ordered))]"

definition acquired_compilation :: "acquired_source list \<Rightarrow> object_digest \<Rightarrow> acquired_compilation py" where
  "acquired_compilation sources options_digest =
     py_check (require_digest options_digest ''compiler options digest'')
     (let ordered = sort_key acquired_alias sources in
      mk_acquired_compilation ordered (json_digest (acquisition_json ordered options_digest)))"

definition compilation_candidate ::
  "object_digest \<Rightarrow> bytes \<Rightarrow> object_plan list \<Rightarrow> compilation_candidate py" where
  "compilation_candidate input_digest index_bytes objects =
     mk_compilation_candidate input_digest index_bytes (sha256_bytes index_bytes) objects"

definition materialization_digest :: "object_receipt list \<Rightarrow> object_digest" where
  "materialization_digest receipts =
     json_digest (JArray (map (\<lambda>r. JStr (digest_str (or_digest r)))
       (sort_key (\<lambda>r. digest_str (or_digest r)) receipts)))"

definition publication_request :: "compilation_candidate \<Rightarrow> string \<Rightarrow> publish_request py" where
  "publication_request candidate build_key =
     (let object_digests = map pl_digest (ca_objects candidate) in
      mk_publish_request build_key (ca_input_digest candidate) (ca_index_bytes candidate)
        (ca_index_digest candidate) object_digests
        (snapshot_digest build_key (ca_input_digest candidate) (ca_index_digest candidate) object_digests))"

subsection \<open>Invariants of the values\<close>

definition plan_ok :: "object_plan \<Rightarrow> bool" where
  "plan_ok p \<longleftrightarrow> pl_digest p = sha256_bytes (pl_content p)"

definition candidate_ok :: "compilation_candidate \<Rightarrow> bool" where
  "candidate_ok c \<longleftrightarrow> valid_digest (ca_input_digest c) \<and> ca_index_digest c = sha256_bytes (ca_index_bytes c)
     \<and> sorted (map plan_key (ca_objects c)) \<and> distinct (map pl_digest (ca_objects c))
     \<and> list_all plan_ok (ca_objects c)"

lemma mk_object_plan_ok: "mk_object_plan d content = Inr p \<Longrightarrow> plan_ok p \<and> pl_content p = content"
  by (auto simp: mk_object_plan_def py_ok plan_ok_def)

lemma distinct_map_sort: "distinct (map f (sort_key g xs)) \<longleftrightarrow> distinct (map f xs)"
  by (rule mset_eq_imp_distinct_iff) simp

lemma mk_compilation_candidate_iff:
  "(\<exists>c. mk_compilation_candidate i bs x ps = Inr c) \<longleftrightarrow>
     valid_digest i \<and> x = sha256_bytes bs \<and> distinct (map pl_digest ps)"
  by (auto simp: mk_compilation_candidate_def py_ok Let_def distinct_map_sort)

lemma mk_compilation_candidate_ok:
  "mk_compilation_candidate i bs x ps = Inr c \<Longrightarrow> list_all plan_ok ps \<Longrightarrow> candidate_ok c"
  by (auto simp: mk_compilation_candidate_def py_ok Let_def candidate_ok_def list_all_iff)

lemma plan_ok_valid: "plan_ok p \<Longrightarrow> valid_digest (pl_digest p)"
  by (simp add: plan_ok_def)

lemma require_digests_Inr: "require_digests ds l = Inr u \<longleftrightarrow> list_all valid_digest ds"
  by (induction ds) (simp_all add: py_ok)

lemma digest_str_inj: "valid_digest d \<Longrightarrow> valid_digest e \<Longrightarrow> digest_str d = digest_str e \<longleftrightarrow> d = e"
  by (cases d; cases e) (simp add: valid_digest_def digest_str_def)

definition request_of_candidate :: "compilation_candidate \<Rightarrow> string \<Rightarrow> publish_request" where
  "request_of_candidate c key =
     \<lparr>pr_build_key = key, pr_input_digest = ca_input_digest c, pr_index_bytes = ca_index_bytes c,
      pr_index_digest = ca_index_digest c, pr_object_digests = map pl_digest (ca_objects c),
      pr_snapshot_digest =
        snapshot_digest key (ca_input_digest c) (ca_index_digest c) (map pl_digest (ca_objects c))\<rparr>"

lemma publication_request_ok:
  assumes "candidate_ok c" "key \<noteq> []"
  shows "publication_request c key = Inr (request_of_candidate c key)"
proof -
  let ?ds = "map pl_digest (ca_objects c)"
  have "sorted (map digest_str ?ds)" using assms by (simp add: candidate_ok_def plan_key_def[abs_def] o_def)
  then have "sort_key digest_str ?ds = ?ds" by (rule sort_key_id_if_sorted)
  moreover have "list_all valid_digest ?ds"
    using assms by (auto simp: candidate_ok_def list_all_iff dest: plan_ok_valid)
  ultimately show ?thesis
    using assms
    by (simp add: publication_request_def mk_publish_request_def py_ok require_digests_Inr candidate_ok_def
        snapshot_digest_def request_of_candidate_def Let_def)
qed

subsection \<open>What the digests bind\<close>

lemma wf_snapshot_json: "wf_json (snapshot_json k i x os)"
  unfolding snapshot_json_def by (rule wf_json_object) (simp_all add: list_all_iff)

lemma snapshot_json_eq:
  assumes "valid_digest i" "valid_digest i'" "valid_digest x" "valid_digest x'"
    "list_all valid_digest os" "list_all valid_digest os'"
  shows "snapshot_json k i x os = snapshot_json k' i' x' os' \<longleftrightarrow> k = k' \<and> i = i' \<and> x = x' \<and> os = os'"
proof -
  have "inj_on (JStr \<circ> digest_str) (set os \<union> set os')"
    using assms(5,6) by (auto simp: inj_on_def list_all_iff digest_str_inj)
  then have "map (JStr \<circ> digest_str) os = map (JStr \<circ> digest_str) os' \<longleftrightarrow> os = os'"
    by (rule inj_on_map_eq_map)
  then show ?thesis
    unfolding snapshot_json_def
    by (subst json_object_eq) (simp_all add: digest_str_inj assms(1-4))
qed

text \<open>
  The snapshot digest binds everything that is published. Two publication requests with the same
  snapshot digest have the same build key, input digest, index digest and object digests, or the
  canonical bytes of what they bind are a collision of SHA-256.
\<close>

theorem publish_request_binds:
  assumes "mk_publish_request k i bs x os d = Inr r" and "mk_publish_request k' i' bs' x' os' d = Inr r'"
  shows "r\<lparr>pr_index_bytes := []\<rparr> = r'\<lparr>pr_index_bytes := []\<rparr> \<or>
    (\<exists>v w. canonical_json_bytes v \<noteq> canonical_json_bytes w
       \<and> v = snapshot_json k i x (pr_object_digests r) \<and> w = snapshot_json k' i' x' (pr_object_digests r')
       \<and> sha256_digest (canonical_json_bytes v) = sha256_digest (canonical_json_bytes w))"
proof -
  let ?os = "sort_key digest_str os" and ?os' = "sort_key digest_str os'"
  have r: "r = \<lparr>pr_build_key = k, pr_input_digest = i, pr_index_bytes = bs, pr_index_digest = x,
      pr_object_digests = ?os, pr_snapshot_digest = d\<rparr>"
    and r': "r' = \<lparr>pr_build_key = k', pr_input_digest = i', pr_index_bytes = bs', pr_index_digest = x',
      pr_object_digests = ?os', pr_snapshot_digest = d\<rparr>"
    and v: "valid_digest i" "valid_digest i'" "valid_digest x" "valid_digest x'"
      "list_all valid_digest ?os" "list_all valid_digest ?os'"
    and eq: "json_digest (snapshot_json k i x ?os) = json_digest (snapshot_json k' i' x' ?os')"
    using assms by (auto simp: mk_publish_request_def py_ok require_digests_Inr Let_def snapshot_digest_def)
  show ?thesis
    using json_digest_eq[OF wf_snapshot_json wf_snapshot_json eq] snapshot_json_eq[OF v, of k k'] r r' by auto
qed

definition sample_candidate :: compilation_candidate where
  "sample_candidate =
     \<lparr>ca_input_digest = sha256_bytes [], ca_index_bytes = [1], ca_index_digest = sha256_bytes [1],
      ca_objects = [\<lparr>pl_digest = sha256_bytes [2], pl_content = [2]\<rparr>]\<rparr>"

lemma sample_candidate_ok: "candidate_ok sample_candidate"
  by (simp add: sample_candidate_def candidate_ok_def plan_ok_def)

theorem publish_request_binds_witness:
  "\<exists>r. publication_request sample_candidate ''build'' = Inr r \<and>
     (r\<lparr>pr_index_bytes := []\<rparr> = r\<lparr>pr_index_bytes := []\<rparr> \<or>
      (\<exists>v w :: json_value. canonical_json_bytes v \<noteq> canonical_json_bytes w
         \<and> sha256_digest (canonical_json_bytes v) = sha256_digest (canonical_json_bytes w)))"
proof -
  have ok: "publication_request sample_candidate ''build'' = Inr (request_of_candidate sample_candidate ''build'')"
    by (rule publication_request_ok[OF sample_candidate_ok]) simp
  note q = ok[unfolded publication_request_def Let_def]
  show ?thesis using ok publish_request_binds[OF q q] by blast
qed

end
