(* ===== verification/Compiler.thy ===== *)
theory Compiler
  imports CompilerModel
begin

text \<open>
  The compiler orchestration (\<open>agent_artifacts/application/compiler.py\<close>): nine phases in a fixed
  order, pure steps and three effect ports. A port may answer differently at every call: its
  answer is a function of the trace of all port calls made before, and the trace is part of the
  result, so that which effects happen, and in which order, can be stated.
\<close>

definition COMPILER_SOURCE_NOT_FROZEN :: diagnostic_code where
  "COMPILER_SOURCE_NOT_FROZEN = ''compiler-source-not-frozen''"
definition COMPILER_SOURCE_MISMATCH :: diagnostic_code where
  "COMPILER_SOURCE_MISMATCH = ''compiler-source-mismatch''"
definition COMPILER_UNFROZEN_RESOLUTION :: diagnostic_code where
  "COMPILER_UNFROZEN_RESOLUTION = ''compiler-unfrozen-resolution''"
definition COMPILER_PHASE_OUTPUT_INVALID :: diagnostic_code where
  "COMPILER_PHASE_OUTPUT_INVALID = ''compiler-phase-output-invalid''"
definition COMPILER_OBJECT_RECEIPT_MISMATCH :: diagnostic_code where
  "COMPILER_OBJECT_RECEIPT_MISMATCH = ''compiler-object-receipt-mismatch''"
definition COMPILER_PUBLISH_RECEIPT_MISMATCH :: diagnostic_code where
  "COMPILER_PUBLISH_RECEIPT_MISMATCH = ''compiler-publish-receipt-mismatch''"

datatype port_call =
    CallAcquire source_request
  | CallMaterialize object_plan
  | CallPublish publish_request

type_synonym trace = "port_call list"

record compiler_ports =
  port_acquire :: "trace \<Rightarrow> source_request \<Rightarrow> acquired_source result"
  port_materialize :: "trace \<Rightarrow> object_plan \<Rightarrow> object_receipt result"
  port_publish :: "trace \<Rightarrow> publish_request \<Rightarrow> publish_receipt result"

record ('p, 'h, 'r, 'n, 'v) compiler_steps =
  step_parse :: "acquired_compilation \<Rightarrow> compiler_context \<Rightarrow> 'p phase_output result"
  step_handshake :: "'p phase_output \<Rightarrow> compiler_context \<Rightarrow> 'h phase_output result"
  step_resolve :: "'h phase_output \<Rightarrow> compiler_context \<Rightarrow> 'r resolved_compilation phase_output result"
  step_normalize :: "'r resolved_compilation phase_output \<Rightarrow> compiler_context \<Rightarrow> 'n phase_output result"
  step_validate :: "'n phase_output \<Rightarrow> compiler_context \<Rightarrow> 'v phase_output result"
  step_index :: "'v phase_output \<Rightarrow> compiler_context \<Rightarrow> compilation_candidate phase_output result"

definition compiler_diagnostic :: "diagnostic_code \<Rightarrow> string \<Rightarrow> source_request option \<Rightarrow> diagnostic" where
  "compiler_diagnostic code message source =
     mk_diagnostic code ERROR message
       (map_option (\<lambda>s. \<lparr>loc_source = Some (sr_alias s), loc_path = None, loc_pointer = None,
                         loc_line = None, loc_column = None\<rparr>) source) [] []"

definition skipped_report :: "compiler_phase \<Rightarrow> phase_report" where
  "skipped_report phase =
     \<lparr>rep_phase = phase, rep_status = P_SKIPPED, rep_input_digest = None, rep_output_digest = None,
      rep_diagnostics = []\<rparr>"

definition failed_run ::
  "phase_report list \<Rightarrow> compiler_phase \<Rightarrow> diagnostic list \<Rightarrow> object_digest option
     \<Rightarrow> compilation_candidate option \<Rightarrow> compiler_run py" where
  "failed_run reports phase diagnostics input_digest candidate =
     (case mk_phase_report phase P_FAILED input_digest None diagnostics of
        Inl e \<Rightarrow> Inl e
      | Inr report \<Rightarrow>
          (let position = phase_position all_phases phase in
           mk_compiler_run (reports @ [report] @ map skipped_report (drop (position + 1) all_phases))
             candidate None))"

definition accepted_output ::
  "'a phase_output result \<Rightarrow> 'a phase_output option \<times> diagnostic list" where
  "accepted_output r =
     (case r of
        Err ds \<Rightarrow> (None, ds)
      | Ok out \<Rightarrow> if list_ex is_error (po_diagnostics out) then (None, po_diagnostics out) else (Some out, []))"

definition success_report :: "compiler_phase \<Rightarrow> object_digest \<Rightarrow> 'a phase_output \<Rightarrow> phase_report py" where
  "success_report phase input_digest out =
     mk_phase_report phase P_SUCCEEDED (Some input_digest) (Some (po_digest out)) (po_diagnostics out)"

definition not_frozen :: "source_request \<Rightarrow> bool" where
  "not_frozen s \<longleftrightarrow> sr_locked_revision s = None \<or> sr_expected_snapshot_digest s = None"

definition frozen_mismatch :: "compiler_mode \<Rightarrow> source_request \<Rightarrow> acquired_source \<Rightarrow> bool" where
  "frozen_mismatch mode source item \<longleftrightarrow> mode = CONSUMER \<and>
     (Some (as_resolved_revision item) \<noteq> sr_locked_revision source
      \<or> Some (as_snapshot_digest item) \<noteq> sr_expected_snapshot_digest source)"

fun acquire_loop ::
  "(trace \<Rightarrow> source_request \<Rightarrow> acquired_source result) \<Rightarrow> compiler_mode \<Rightarrow> source_request list \<Rightarrow> trace
     \<Rightarrow> diagnostic list \<Rightarrow> acquired_source list \<Rightarrow> trace \<times> diagnostic list \<times> acquired_source list" where
  "acquire_loop port mode [] tr diagnostics acquired = (tr, diagnostics, acquired)"
| "acquire_loop port mode (source # sources) tr diagnostics acquired =
     (let tr' = tr @ [CallAcquire source] in
      case port tr source of
        Err ds \<Rightarrow> acquire_loop port mode sources tr' (diagnostics @ ds) acquired
      | Ok item \<Rightarrow>
          if as_alias item \<noteq> sr_alias source then
            acquire_loop port mode sources tr'
              (diagnostics @ [compiler_diagnostic COMPILER_SOURCE_MISMATCH
                 (''acquisition returned alias '' @ alias_value (as_alias item) @ '' for requested ''
                    @ alias_value (sr_alias source)) (Some source)]) acquired
          else if frozen_mismatch mode source item then
            acquire_loop port mode sources tr'
              (diagnostics @ [compiler_diagnostic COMPILER_SOURCE_MISMATCH
                 (''acquisition did not match frozen source '' @ alias_value (sr_alias source)) (Some source)])
              acquired
          else acquire_loop port mode sources tr' diagnostics (acquired @ [item]))"

definition acquire ::
  "compiler_request \<Rightarrow> (trace \<Rightarrow> source_request \<Rightarrow> acquired_source result) \<Rightarrow> trace
     \<Rightarrow> trace \<times> acquired_compilation result py" where
  "acquire request port tr =
     (let unfrozen = (if cr_mode request = CONSUMER then [s \<leftarrow> cr_sources request. not_frozen s] else []) in
      if unfrozen \<noteq> [] then
        (tr, Inr (mk_err (map (\<lambda>s. compiler_diagnostic COMPILER_SOURCE_NOT_FROZEN
           (''consumer source '' @ alias_value (sr_alias s) @ '' requires locked revision and snapshot digest'')
           (Some s)) unfrozen)))
      else (case acquire_loop port (cr_mode request) (cr_sources request) tr [] [] of
          (tr', diagnostics, acquired) \<Rightarrow>
            if diagnostics \<noteq> [] then (tr', Inr (mk_err diagnostics))
            else (tr', case acquired_compilation acquired (cr_options_digest request) of
                         Inl e \<Rightarrow> Inl e | Inr c \<Rightarrow> Inr (Ok c))))"

text \<open>
  The common shape of the phases PARSE to INDEX: the outcome of the step is accepted or the
  run fails; then the checks of the phase; then the report is appended and the run goes on.
\<close>

definition run_phase ::
  "trace \<Rightarrow> phase_report list \<Rightarrow> compiler_phase \<Rightarrow> object_digest \<Rightarrow> 'a phase_output result
     \<Rightarrow> ('a phase_output \<Rightarrow> diagnostic list)
     \<Rightarrow> (phase_report list \<Rightarrow> 'a phase_output \<Rightarrow> trace \<times> compiler_run py) \<Rightarrow> trace \<times> compiler_run py" where
  "run_phase tr reports phase input_digest outcome check continue_run =
     (case accepted_output outcome of
        (None, diagnostics) \<Rightarrow> (tr, failed_run reports phase diagnostics (Some input_digest) None)
      | (Some out, _) \<Rightarrow>
          if check out \<noteq> [] then (tr, failed_run reports phase (check out) (Some input_digest) None)
          else (case success_report phase input_digest out of
              Inl e \<Rightarrow> (tr, Inl e)
            | Inr report \<Rightarrow> continue_run (reports @ [report]) out))"

abbreviation no_check :: "'a phase_output \<Rightarrow> diagnostic list" where
  "no_check out \<equiv> []"

definition frozen_check :: "compiler_mode \<Rightarrow> 'r resolved_compilation phase_output \<Rightarrow> diagnostic list" where
  "frozen_check mode out =
     (if mode = CONSUMER \<and> \<not> rc_frozen (po_value out) then
        [compiler_diagnostic COMPILER_UNFROZEN_RESOLUTION
           ''consumer resolution must be frozen by committed revisions and digests'' None]
      else [])"

definition index_check :: "object_digest \<Rightarrow> compilation_candidate phase_output \<Rightarrow> diagnostic list" where
  "index_check input_digest out =
     (let candidate = po_value out in
      (if ca_input_digest candidate \<noteq> input_digest then
         [compiler_diagnostic COMPILER_PHASE_OUTPUT_INVALID
            ''index candidate does not bind the complete compiler input digest'' None] else [])
      @ (if po_digest out \<noteq> ca_index_digest candidate then
         [compiler_diagnostic COMPILER_PHASE_OUTPUT_INVALID
            ''index phase digest does not match candidate index bytes'' None] else []))"

fun materialize_loop ::
  "(trace \<Rightarrow> object_plan \<Rightarrow> object_receipt result) \<Rightarrow> object_plan list \<Rightarrow> trace \<Rightarrow> object_receipt list
     \<Rightarrow> diagnostic list \<Rightarrow> trace \<times> object_receipt list \<times> diagnostic list" where
  "materialize_loop port [] tr receipts diagnostics = (tr, receipts, diagnostics)"
| "materialize_loop port (plan # plans) tr receipts diagnostics =
     (let tr' = tr @ [CallMaterialize plan] in
      case port tr plan of
        Err ds \<Rightarrow> materialize_loop port plans tr' receipts (diagnostics @ ds)
      | Ok receipt \<Rightarrow>
          if or_digest receipt \<noteq> pl_digest plan then
            materialize_loop port plans tr' receipts
              (diagnostics @ [compiler_diagnostic COMPILER_OBJECT_RECEIPT_MISMATCH
                 (''object receipt does not match planned digest '' @ digest_str (pl_digest plan)) None])
          else materialize_loop port plans tr' (receipts @ [receipt]) diagnostics)"

text \<open>The phases MATERIALIZE and PUBLISH.\<close>

definition publish_phase ::
  "compiler_ports \<Rightarrow> string \<Rightarrow> compilation_candidate \<Rightarrow> trace \<Rightarrow> phase_report list \<Rightarrow> trace \<times> compiler_run py" where
  "publish_phase ports build_key candidate tr reports =
     (case publication_request candidate build_key of
        Inl e \<Rightarrow> (tr, Inl e)
      | Inr request \<Rightarrow>
          (let tr' = tr @ [CallPublish request];
               snapshot = pr_snapshot_digest request in
           case port_publish ports tr request of
             Err ds \<Rightarrow> (tr', failed_run reports PUBLISH ds (Some snapshot) (Some candidate))
           | Ok receipt \<Rightarrow>
               if prc_snapshot_digest receipt \<noteq> snapshot then
                 (tr', failed_run reports PUBLISH
                    [compiler_diagnostic COMPILER_PUBLISH_RECEIPT_MISMATCH
                       ''publish receipt does not match the complete snapshot digest'' None]
                    (Some snapshot) (Some candidate))
               else (tr', case mk_phase_report PUBLISH P_SUCCEEDED (Some snapshot)
                                 (Some (prc_snapshot_digest receipt)) [] of
                            Inl e \<Rightarrow> Inl e
                          | Inr report \<Rightarrow> mk_compiler_run (reports @ [report]) (Some candidate) (Some receipt))))"

definition materialize_phase ::
  "compiler_ports \<Rightarrow> string \<Rightarrow> compilation_candidate \<Rightarrow> trace \<Rightarrow> phase_report list \<Rightarrow> trace \<times> compiler_run py" where
  "materialize_phase ports build_key candidate tr reports =
     (case materialize_loop (port_materialize ports) (ca_objects candidate) tr [] [] of
        (tr', receipts, diagnostics) \<Rightarrow>
          if diagnostics \<noteq> [] then
            (tr', failed_run reports MATERIALIZE diagnostics (Some (ca_index_digest candidate)) (Some candidate))
          else (case mk_phase_report MATERIALIZE P_SUCCEEDED (Some (ca_index_digest candidate))
                       (Some (materialization_digest receipts)) [] of
              Inl e \<Rightarrow> (tr', Inl e)
            | Inr report \<Rightarrow> publish_phase ports build_key candidate tr' (reports @ [report])))"

definition compile_sources ::
  "compiler_request \<Rightarrow> ('p, 'h, 'r, 'n, 'v) compiler_steps \<Rightarrow> compiler_ports \<Rightarrow> trace \<times> compiler_run py" where
  "compile_sources request steps ports =
     (case acquire request (port_acquire ports) [] of
        (tr, Inl e) \<Rightarrow> (tr, Inl e)
      | (tr, Inr (Err ds)) \<Rightarrow> (tr, failed_run [] ACQUIRE ds (Some (cr_options_digest request)) None)
      | (tr, Inr (Ok acquired)) \<Rightarrow>
          (case mk_phase_report ACQUIRE P_SUCCEEDED (Some (cr_options_digest request))
                  (Some (ac_input_digest acquired)) [] of
             Inl e \<Rightarrow> (tr, Inl e)
           | Inr report \<Rightarrow>
          (case mk_compiler_context (cr_build_key request) (cr_mode request) (cr_options_digest request)
                  (ac_input_digest acquired) of
             Inl e \<Rightarrow> (tr, Inl e)
           | Inr context \<Rightarrow>
             run_phase tr [report] PARSE (ac_input_digest acquired) (step_parse steps acquired context) no_check
             (\<lambda>reports parsed.
             run_phase tr reports HANDSHAKE (po_digest parsed) (step_handshake steps parsed context) no_check
             (\<lambda>reports handshaken.
             run_phase tr reports RESOLVE (po_digest handshaken) (step_resolve steps handshaken context)
               (frozen_check (cr_mode request))
             (\<lambda>reports resolved.
             run_phase tr reports NORMALIZE (po_digest resolved) (step_normalize steps resolved context) no_check
             (\<lambda>reports normalized.
             run_phase tr reports VALIDATE (po_digest normalized) (step_validate steps normalized context) no_check
             (\<lambda>reports validated.
             run_phase tr reports INDEX (po_digest validated) (step_index steps validated context)
               (index_check (ac_input_digest acquired))
             (\<lambda>reports indexed.
             materialize_phase ports (cr_build_key request) (po_value indexed) tr reports)))))))))"

subsection \<open>Well-formed environments\<close>

text \<open>
  What the constructors of the values guarantee of the request, of the outputs of the steps and
  of the answers of the ports: an \<open>Err\<close> has a diagnostic, a \<open>PhaseOutput\<close> a canonical digest, a
  candidate passed its own constructor.
\<close>

definition request_ok :: "compiler_request \<Rightarrow> bool" where
  "request_ok r \<longleftrightarrow> one_line (cr_build_key r) \<and> valid_digest (cr_options_digest r)
     \<and> sorted (map request_alias (cr_sources r)) \<and> distinct (map request_alias (cr_sources r))"

definition output_ok :: "'a phase_output result \<Rightarrow> bool" where
  "output_ok r \<longleftrightarrow> (case r of Err ds \<Rightarrow> ds \<noteq> [] | Ok out \<Rightarrow> valid_digest (po_digest out))"

definition answer_ok :: "'a result \<Rightarrow> bool" where
  "answer_ok r \<longleftrightarrow> (case r of Err ds \<Rightarrow> ds \<noteq> [] | Ok _ \<Rightarrow> True)"

definition steps_ok :: "('p, 'h, 'r, 'n, 'v) compiler_steps \<Rightarrow> bool" where
  "steps_ok s \<longleftrightarrow>
     (\<forall>a c. output_ok (step_parse s a c)) \<and> (\<forall>a c. output_ok (step_handshake s a c)) \<and>
     (\<forall>a c. output_ok (step_resolve s a c)) \<and> (\<forall>a c. output_ok (step_normalize s a c)) \<and>
     (\<forall>a c. output_ok (step_validate s a c)) \<and> (\<forall>a c. output_ok (step_index s a c)) \<and>
     (\<forall>a c out. step_index s a c = Ok out \<longrightarrow> candidate_ok (po_value out))"

definition ports_ok :: "compiler_ports \<Rightarrow> bool" where
  "ports_ok p \<longleftrightarrow> (\<forall>t s. answer_ok (port_acquire p t s)) \<and> (\<forall>t s. answer_ok (port_materialize p t s))
     \<and> (\<forall>t s. answer_ok (port_publish p t s))"

subsection \<open>Runs\<close>

definition succeeded_prefix :: "nat \<Rightarrow> object_digest \<Rightarrow> phase_report list \<Rightarrow> bool" where
  "succeeded_prefix k current reps \<longleftrightarrow> map rep_phase reps = take k all_phases \<and> 0 < k \<and> k \<le> 9
     \<and> (\<forall>r \<in> set reps. rep_status r = P_SUCCEEDED)
     \<and> rep_output_digest (last reps) = Some current \<and> valid_digest current
     \<and> (\<forall>i. Suc i < k \<longrightarrow> i < 7 \<longrightarrow> rep_input_digest (reps ! Suc i) = rep_output_digest (reps ! i))"

text \<open>The run that stopped after \<open>k\<close> successful phases.\<close>

definition run_shape :: "nat \<Rightarrow> compiler_run \<Rightarrow> bool" where
  "run_shape k run \<longleftrightarrow> k \<le> 9 \<and> map rep_phase (run_reports run) = all_phases
     \<and> map rep_status (run_reports run) =
         replicate k P_SUCCEEDED @ (if k < 9 then P_FAILED # replicate (8 - k) P_SKIPPED else [])
     \<and> (run_publication run \<noteq> None \<longleftrightarrow> k = 9) \<and> (run_candidate run \<noteq> None \<longleftrightarrow> 7 \<le> k)
     \<and> (\<forall>i < 7. i < k \<longrightarrow> rep_input_digest (run_reports run ! Suc i) = rep_output_digest (run_reports run ! i))"

lemma length_all_phases [simp]: "length all_phases = 9"
  by (simp add: all_phases_def)

lemma phase_position_nth: "k < 9 \<Longrightarrow> phase_position all_phases (all_phases ! k) = k"
  by (auto simp: all_phases_def less_Suc_eq numeral_eq_Suc)

lemma phase_positions: "map (phase_position all_phases) all_phases = [0..<9]"
  by (simp add: all_phases_def upt_conv_Cons)

lemma mk_compiler_run_ok:
  assumes "map rep_phase reps = all_phases" and "pub = None \<or> cand \<noteq> None"
  shows "mk_compiler_run reps cand pub = Inr \<lparr>run_reports = reps, run_candidate = cand,
    run_publication = pub, run_diagnostics = sort_diagnostics (concat (map rep_diagnostics reps))\<rparr>"
proof -
  have "map (\<lambda>r. phase_position all_phases (rep_phase r)) reps = [0..<9]"
    using assms(1) phase_positions by (metis (mono_tags, lifting) map_map o_def map_eq_conv)
  then have "sort_key (\<lambda>r. phase_position all_phases (rep_phase r)) reps = reps"
    by (intro sort_key_id_if_sorted) simp
  then show ?thesis using assms by (auto simp: mk_compiler_run_def Let_def py_ok)
qed

lemma prefix_length: "map rep_phase reps = take k all_phases \<Longrightarrow> k \<le> 9 \<Longrightarrow> length reps = k"
  by (drule arg_cong[where f = length]) simp

lemma drop_all_phases: "k < 9 \<Longrightarrow> take k all_phases @ all_phases ! k # drop (Suc k) all_phases = all_phases"
  by (simp add: id_take_nth_drop[symmetric])

lemma failed_run_ok:
  assumes "map rep_phase reps = take k all_phases" "\<forall>r \<in> set reps. rep_status r = P_SUCCEEDED" "k < 9"
    "valid_digest d"
  shows "\<exists>run. failed_run reps (all_phases ! k) ds (Some d) cand = Inr run
    \<and> map rep_phase (run_reports run) = all_phases
    \<and> map rep_status (run_reports run) = replicate k P_SUCCEEDED @ P_FAILED # replicate (8 - k) P_SKIPPED
    \<and> run_candidate run = cand \<and> run_publication run = None
    \<and> take k (run_reports run) = reps \<and> rep_input_digest (run_reports run ! k) = Some d"
proof -
  let ?r = "\<lparr>rep_phase = all_phases ! k, rep_status = P_FAILED, rep_input_digest = Some d,
    rep_output_digest = None, rep_diagnostics = sort_diagnostics ds\<rparr>"
  let ?reps = "reps @ [?r] @ map skipped_report (drop (Suc k) all_phases)"
  have len: "length reps = k" using prefix_length[OF assms(1)] assms(3) by simp
  have "map rep_phase ?reps = all_phases"
    using assms(1,3) by (simp add: o_def skipped_report_def drop_all_phases)
  moreover have "map rep_status ?reps = replicate k P_SUCCEEDED @ P_FAILED # replicate (8 - k) P_SKIPPED"
  proof -
    have "map rep_status reps = replicate k P_SUCCEEDED"
      using assms(2) len by (intro replicate_eqI) auto
    moreover have "map (\<lambda>x. P_SKIPPED) (drop (Suc k) all_phases) = replicate (8 - k) P_SKIPPED"
      by (simp add: map_replicate_const)
    ultimately show ?thesis by (simp add: o_def skipped_report_def)
  qed
  moreover have "failed_run reps (all_phases ! k) ds (Some d) cand = mk_compiler_run ?reps cand None"
    using assms(3,4)
    by (simp add: failed_run_def mk_phase_report_def py_check_def require_optional_digest_def
        require_digest_def phase_position_nth Let_def)
  ultimately show ?thesis
    using mk_compiler_run_ok[of ?reps None cand] len by (auto simp: nth_append)
qed

text \<open>
  The receipts of a materialization: one for each planned object, in order, each the answer of the port
  to that plan (after the calls made so far) and for the planned digest.
\<close>

definition materialized ::
  "(trace \<Rightarrow> object_plan \<Rightarrow> object_receipt result) \<Rightarrow> trace \<Rightarrow> object_plan list \<Rightarrow> object_receipt list \<Rightarrow> bool" where
  "materialized port tr plans receipts \<longleftrightarrow> length receipts = length plans
     \<and> (\<forall>j < length plans. port (tr @ map CallMaterialize (take j plans)) (plans ! j) = Ok (receipts ! j)
          \<and> or_digest (receipts ! j) = pl_digest (plans ! j))"

lemma materialized_Nil [simp]: "materialized port tr [] []"
  by (simp add: materialized_def)

lemma materialized_Cons [simp]:
  "materialized port tr (p # ps) (r # rs) \<longleftrightarrow>
     port tr p = Ok r \<and> or_digest r = pl_digest p \<and> materialized port (tr @ [CallMaterialize p]) ps rs"
  by (auto simp: materialized_def All_less_Suc2)

text \<open>What a call of \<open>compile_sources\<close> leaves: its run and the port calls it made.\<close>

definition run_outcome :: "compiler_ports \<Rightarrow> trace \<Rightarrow> string \<Rightarrow> trace \<times> compiler_run py \<Rightarrow> bool" where
  "run_outcome ports acquired key outcome \<longleftrightarrow>
     (\<exists>run k. snd outcome = Inr run \<and> run_shape k run \<and>
        fst outcome = acquired @ (case run_candidate run of None \<Rightarrow> []
          | Some c \<Rightarrow> map CallMaterialize (ca_objects c)
              @ (if 8 \<le> k then [CallPublish (request_of_candidate c key)] else [])) \<and>
        (\<forall>c r. run_candidate run = Some c \<longrightarrow> candidate_ok c \<and>
           (run_publication run = Some r \<longrightarrow>
             prc_snapshot_digest r = pr_snapshot_digest (request_of_candidate c key)
             \<and> rep_output_digest (run_reports run ! 0) = Some (ca_input_digest c)
             \<and> (\<exists>receipts. materialized (port_materialize ports) acquired (ca_objects c) receipts
                  \<and> rep_output_digest (run_reports run ! 7) = Some (materialization_digest receipts)))))"

lemma last_nth_Suc: "length xs = Suc i \<Longrightarrow> last xs = xs ! i"
  by (cases xs rule: rev_cases) auto

lemma failed_outcome:
  assumes "map rep_phase reps = take k all_phases" "\<forall>r \<in> set reps. rep_status r = P_SUCCEEDED" "k < 7"
    "valid_digest d"
    and "\<forall>i. Suc i < k \<longrightarrow> rep_input_digest (reps ! Suc i) = rep_output_digest (reps ! i)"
    and "k \<noteq> 0 \<Longrightarrow> rep_output_digest (last reps) = Some d"
  shows "run_outcome ports acq key (acq, failed_run reps (all_phases ! k) ds (Some d) None)"
proof -
  obtain run where run: "failed_run reps (all_phases ! k) ds (Some d) None = Inr run"
    "map rep_phase (run_reports run) = all_phases"
    "map rep_status (run_reports run) = replicate k P_SUCCEEDED @ P_FAILED # replicate (8 - k) P_SKIPPED"
    "run_candidate run = None" "run_publication run = None"
    "take k (run_reports run) = reps" "rep_input_digest (run_reports run ! k) = Some d"
    using failed_run_ok[OF assms(1,2) _ assms(4), of ds None] assms(3) by auto
  have nth: "i < k \<Longrightarrow> run_reports run ! i = reps ! i" for i using run(6) by (metis nth_take)
  have len: "length reps = k" using prefix_length[OF assms(1)] assms(3) by simp
  have "rep_input_digest (run_reports run ! Suc i) = rep_output_digest (run_reports run ! i)" if "i < k" for i
  proof (cases "Suc i = k")
    case True
    then show ?thesis using nth[of i] run(7) assms(6) len that by (auto simp: last_nth_Suc)
  next
    case False
    then show ?thesis using nth[of i] nth[of "Suc i"] assms(5) that by simp
  qed
  then have "run_shape k run" using run assms(3) by (simp add: run_shape_def)
  then show ?thesis unfolding run_outcome_def using run by auto
qed

lemma succeeded_prefix_snoc:
  assumes "succeeded_prefix k d reps" "k < 9" "valid_digest e" "k < 8"
  shows "succeeded_prefix (Suc k) e (reps @ [\<lparr>rep_phase = all_phases ! k, rep_status = P_SUCCEEDED,
    rep_input_digest = Some d, rep_output_digest = Some e, rep_diagnostics = ds\<rparr>])"
proof -
  have len: "length reps = k" using prefix_length[of reps k] assms(1) by (simp add: succeeded_prefix_def)
  have "take (Suc k) all_phases = take k all_phases @ [all_phases ! k]"
    using assms(2) by (simp add: take_Suc_conv_app_nth)
  moreover have "rep_output_digest (reps ! i) = Some d" if "Suc i = k" for i
    using that assms(1) len unfolding succeeded_prefix_def by (auto simp: last_nth_Suc)
  ultimately show ?thesis
    using assms len unfolding succeeded_prefix_def by (auto simp: nth_append less_Suc_eq)
qed

lemma run_phase_rule:
  assumes pre: "succeeded_prefix k d reps" and k: "k < 7" and out: "output_ok outcome"
    and ph: "phase = all_phases ! k"
    and cont: "\<And>out reps'. outcome = Ok out \<Longrightarrow> \<not> list_ex is_error (po_diagnostics out) \<Longrightarrow> check out = [] \<Longrightarrow>
       succeeded_prefix (Suc k) (po_digest out) reps' \<Longrightarrow> reps' ! 0 = reps ! 0 \<Longrightarrow> run_outcome ports acq key (go reps' out)"
  shows "run_outcome ports acq key (run_phase acq reps phase d outcome check go)"
proof -
  have len: "length reps = k" using prefix_length[of reps k] pre by (simp add: succeeded_prefix_def)
  have fail: "run_outcome ports acq key (acq, failed_run reps (all_phases ! k) ds (Some d) None)" for ds
    using pre k by (intro failed_outcome) (auto simp: succeeded_prefix_def)
  show ?thesis
  proof (cases "accepted_output outcome")
    case (Pair o' ds)
    show ?thesis
    proof (cases o')
      case None
      then show ?thesis using Pair fail by (simp add: run_phase_def ph)
    next
      case (Some out')
      then have acc: "outcome = Ok out'" "\<not> list_ex is_error (po_diagnostics out')"
        using Pair by (auto simp: accepted_output_def split: result.splits if_splits)
      then have v: "valid_digest (po_digest out')" using out by (simp add: output_ok_def)
      let ?r = "\<lparr>rep_phase = all_phases ! k, rep_status = P_SUCCEEDED, rep_input_digest = Some d,
        rep_output_digest = Some (po_digest out'), rep_diagnostics = sort_diagnostics (po_diagnostics out')\<rparr>"
      have rep: "success_report (all_phases ! k) d out' = Inr ?r"
        using v pre by (simp add: success_report_def mk_phase_report_def py_ok succeeded_prefix_def)
      show ?thesis
      proof (cases "check out' = []")
        case True
        have "succeeded_prefix (Suc k) (po_digest out') (reps @ [?r])"
          using pre k v by (intro succeeded_prefix_snoc) auto
        moreover have "(reps @ [?r]) ! 0 = reps ! 0" using len pre by (simp add: nth_append succeeded_prefix_def)
        ultimately show ?thesis
          using cont[OF acc True] Pair Some rep True by (simp add: run_phase_def ph)
      next
        case False
        then show ?thesis using Pair Some fail by (simp add: run_phase_def ph)
      qed
    qed
  qed
qed

lemma late_outcome:
  assumes pre: "succeeded_prefix k d reps" and k: "k = 7 \<or> k = 8" and c: "candidate_ok c"
    and e: "valid_digest e" "k = 7 \<Longrightarrow> e = d"
  shows "run_outcome ports acq key
    (acq @ map CallMaterialize (ca_objects c) @ (if 8 \<le> k then [CallPublish (request_of_candidate c key)] else []),
     failed_run reps (all_phases ! k) ds (Some e) (Some c))"
proof -
  have p: "map rep_phase reps = take k all_phases" "\<forall>r \<in> set reps. rep_status r = P_SUCCEEDED"
    using pre by (auto simp: succeeded_prefix_def)
  obtain run where run: "failed_run reps (all_phases ! k) ds (Some e) (Some c) = Inr run"
    "map rep_phase (run_reports run) = all_phases"
    "map rep_status (run_reports run) = replicate k P_SUCCEEDED @ P_FAILED # replicate (8 - k) P_SKIPPED"
    "run_candidate run = Some c" "run_publication run = None"
    "take k (run_reports run) = reps" "rep_input_digest (run_reports run ! k) = Some e"
    using failed_run_ok[OF p _ e(1), of ds "Some c"] k by auto
  have nth: "i < k \<Longrightarrow> run_reports run ! i = reps ! i" for i using run(6) by (metis nth_take)
  have len: "length reps = k" using prefix_length[OF p(1)] k by auto
  have "rep_input_digest (run_reports run ! Suc i) = rep_output_digest (run_reports run ! i)" if "i < 7" for i
  proof (cases "Suc i < k")
    case True
    then show ?thesis using nth[of i] nth[of "Suc i"] pre that by (simp add: succeeded_prefix_def)
  next
    case False
    then have "Suc i = k" "k = 7" using that k by auto
    then show ?thesis using nth[of i] run(7) e(2) len pre by (auto simp: last_nth_Suc succeeded_prefix_def)
  qed
  then have "run_shape k run" using run k by (auto simp: run_shape_def)
  then show ?thesis
    unfolding run_outcome_def using run c by (intro exI[of _ run] exI[of _ k]) auto
qed

lemma materialize_loop_trace:
  "fst (materialize_loop port plans tr rs ds) = tr @ map CallMaterialize plans"
  by (induction plans arbitrary: tr rs ds) (simp_all add: Let_def split: result.split)

lemma materialize_loop_diagnostics: "set ds \<subseteq> set (snd (snd (materialize_loop port plans tr rs ds)))"
proof (induction plans arbitrary: tr rs ds)
  case (Cons p plans)
  have "set ds \<subseteq> set (snd (snd (materialize_loop port plans tr' rs' (ds @ es))))" for tr' rs' es
    using Cons[where ds = "ds @ es" and tr = tr' and rs = rs'] by auto
  from this[of _ _ "[]"] this show ?case by (simp add: Let_def split: result.split)
qed simp

lemma materialize_loop_ok:
  assumes port: "\<forall>t s. answer_ok (port t s)" and loop: "materialize_loop port plans tr rs [] = (tr', rs', [])"
  shows "\<exists>receipts. rs' = rs @ receipts \<and> materialized port tr plans receipts"
  using loop
proof (induction plans arbitrary: tr rs)
  case (Cons p plans)
  have nonempty: "materialize_loop port plans t xs ds \<noteq> (tr', rs', [])" if "ds \<noteq> []" for t xs ds
    using materialize_loop_diagnostics[of ds port plans t xs] that by auto
  obtain r where r: "port tr p = Ok r"
  proof (cases "port tr p")
    case (Err ds)
    then have "answer_ok (Err ds :: object_receipt result)" using port by metis
    then have "ds \<noteq> []" by (simp add: answer_ok_def)
    then show ?thesis using Cons.prems nonempty Err by (simp add: Let_def)
  qed
  have same: "or_digest r = pl_digest p"
    and step: "materialize_loop port plans (tr @ [CallMaterialize p]) (rs @ [r]) [] = (tr', rs', [])"
    using Cons.prems r nonempty by (auto simp: Let_def split: if_splits)
  obtain receipts where "rs' = (rs @ [r]) @ receipts" "materialized port (tr @ [CallMaterialize p]) plans receipts"
    using Cons.IH[OF step] by blast
  then show ?case using r same by (intro exI[of _ "r # receipts"]) simp
qed simp

lemma publish_outcome:
  assumes pre: "succeeded_prefix 8 d reps" and c: "candidate_ok c" and key: "key \<noteq> []"
    and input: "rep_output_digest (reps ! 0) = Some (ca_input_digest c)"
    and receipts: "materialized (port_materialize ports) acq (ca_objects c) rs"
      "rep_output_digest (reps ! 7) = Some (materialization_digest rs)"
  shows "run_outcome ports acq key (publish_phase ports key c (acq @ map CallMaterialize (ca_objects c)) reps)"
proof -
  let ?req = "request_of_candidate c key" and ?s = "pr_snapshot_digest (request_of_candidate c key)"
  let ?tr = "acq @ map CallMaterialize (ca_objects c)"
  have v: "valid_digest ?s" by (simp add: request_of_candidate_def snapshot_digest_def)
  have fail: "run_outcome ports acq key (?tr @ [CallPublish ?req], failed_run reps PUBLISH ds (Some ?s) (Some c))" for ds
    using late_outcome[OF pre _ c v, of ports acq key ds] by (simp add: all_phases_def)
  show ?thesis
  proof (cases "port_publish ports ?tr ?req")
    case (Err ds)
    then show ?thesis using fail[of ds] by (simp add: publish_phase_def publication_request_ok[OF c key] Let_def)
  next
    case (Ok receipt)
    show ?thesis
    proof (cases "prc_snapshot_digest receipt = ?s")
      case False
      then show ?thesis using fail Ok by (simp add: publish_phase_def publication_request_ok[OF c key] Let_def)
    next
      case True
      let ?r = "\<lparr>rep_phase = PUBLISH, rep_status = P_SUCCEEDED, rep_input_digest = Some ?s,
        rep_output_digest = Some ?s, rep_diagnostics = sort_diagnostics []\<rparr>"
      have ph: "map rep_phase (reps @ [?r]) = all_phases"
        using pre by (simp add: succeeded_prefix_def) (simp add: all_phases_def)
      have len: "length reps = 8" using prefix_length[of reps 8] pre by (simp add: succeeded_prefix_def)
      let ?run = "\<lparr>run_reports = reps @ [?r], run_candidate = Some c, run_publication = Some receipt,
        run_diagnostics = sort_diagnostics (concat (map rep_diagnostics (reps @ [?r])))\<rparr>"
      have eq: "publish_phase ports key c ?tr reps = (?tr @ [CallPublish ?req], Inr ?run)"
        using Ok True v mk_compiler_run_ok[OF ph, of "Some receipt" "Some c"]
        by (simp add: publish_phase_def publication_request_ok[OF c key] Let_def mk_phase_report_def
            py_check_def require_optional_digest_def require_digest_def)
      have st: "map rep_status reps = replicate 8 P_SUCCEEDED"
        using pre len by (intro replicate_eqI) (auto simp: succeeded_prefix_def)
      have "run_shape 9 ?run"
        unfolding run_shape_def using ph st pre len
        by (auto simp: succeeded_prefix_def nth_append eval_nat_numeral)
      then show ?thesis
        unfolding run_outcome_def eq using c True input receipts len by (intro exI[of _ ?run] exI[of _ 9]) (auto simp: nth_append)
    qed
  qed
qed

lemma materialize_outcome:
  assumes pre: "succeeded_prefix 7 (ca_index_digest c) reps" and c: "candidate_ok c" and key: "key \<noteq> []"
    and input: "rep_output_digest (reps ! 0) = Some (ca_input_digest c)" and ports: "ports_ok ports"
  shows "run_outcome ports acq key (materialize_phase ports key c acq reps)"
proof -
  obtain tr rs ds where loop: "materialize_loop (port_materialize ports) (ca_objects c) acq [] [] = (tr, rs, ds)"
    by (metis prod_cases3)
  have tr: "tr = acq @ map CallMaterialize (ca_objects c)"
    using materialize_loop_trace[of "port_materialize ports" "ca_objects c" acq "[]" "[]"] loop by simp
  have v: "valid_digest (ca_index_digest c)" using c by (simp add: candidate_ok_def)
  have len: "length reps = 7" using prefix_length[of reps 7] pre by (simp add: succeeded_prefix_def)
  let ?r = "\<lparr>rep_phase = all_phases ! 7, rep_status = P_SUCCEEDED, rep_input_digest = Some (ca_index_digest c),
    rep_output_digest = Some (materialization_digest rs), rep_diagnostics = sort_diagnostics []\<rparr>"
  have vm: "valid_digest (materialization_digest rs)" by (simp add: materialization_digest_def)
  have next_prefix: "succeeded_prefix 8 (materialization_digest rs) (reps @ [?r])"
    using succeeded_prefix_snoc[OF pre _ vm, of "sort_diagnostics []"] by simp
  have rep: "mk_phase_report MATERIALIZE P_SUCCEEDED (Some (ca_index_digest c))
      (Some (materialization_digest rs)) [] = Inr ?r"
    using v vm by (simp add: mk_phase_report_def py_ok all_phases_def)
  show ?thesis
  proof (cases "ds = []")
    case True
    have "\<exists>receipts. rs = [] @ receipts \<and> materialized (port_materialize ports) acq (ca_objects c) receipts"
      using ports loop True by (intro materialize_loop_ok) (auto simp: ports_ok_def)
    then have "materialized (port_materialize ports) acq (ca_objects c) rs" by simp
    moreover have "(reps @ [?r]) ! 0 = reps ! 0" "rep_output_digest ((reps @ [?r]) ! 7) = Some (materialization_digest rs)"
      using len by (simp_all add: nth_append)
    ultimately show ?thesis
      using publish_outcome[OF next_prefix c key, of ports acq rs] input loop True tr rep by (simp add: materialize_phase_def)
  next
    case False
    then show ?thesis
      using late_outcome[OF pre _ c v, of ports acq key ds] loop tr by (simp add: materialize_phase_def all_phases_def)
  qed
qed

subsection \<open>Acquisition\<close>

lemma acquire_loop_trace: "fst (acquire_loop port mode sources tr ds as) = tr @ map CallAcquire sources"
  by (induction sources arbitrary: tr ds as) (simp_all add: Let_def split: result.split)

lemma acquire_loop_diagnostics: "set ds \<subseteq> set (fst (snd (acquire_loop port mode sources tr ds as)))"
proof (induction sources arbitrary: tr ds as)
  case (Cons s sources)
  have "set ds \<subseteq> set (fst (snd (acquire_loop port mode sources tr' (ds @ es) as')))" for tr' es as'
    using Cons[where ds = "ds @ es" and tr = tr' and as = as'] by auto
  from this[of _ "[]"] this show ?case by (simp add: Let_def split: result.split)
qed simp

text \<open>The acquired item answers its request: same alias and, for a consumer, what was locked.\<close>

definition answers :: "compiler_mode \<Rightarrow> source_request \<Rightarrow> acquired_source \<Rightarrow> bool" where
  "answers mode source item \<longleftrightarrow> as_alias item = sr_alias source \<and> \<not> frozen_mismatch mode source item"

lemma acquire_loop_ok:
  assumes "\<forall>t s. answer_ok (port t s)" "acquire_loop port mode sources tr [] as = (tr', [], as')"
  shows "\<exists>items. as' = as @ items \<and> list_all2 (answers mode) sources items"
  using assms(2)
proof (induction sources arbitrary: tr as)
  case (Cons s sources)
  have nonempty: "acquire_loop port mode sources t ds as \<noteq> (tr', [], as')" if "ds \<noteq> []" for t ds
    using acquire_loop_diagnostics[of ds port mode sources t as] that by auto
  obtain item where item: "port tr s = Ok item"
  proof (cases "port tr s")
    case (Err ds)
    then have "answer_ok (Err ds :: acquired_source result)" using assms(1) by metis
    then have "ds \<noteq> []" by (simp add: answer_ok_def)
    then show ?thesis using Cons.prems nonempty Err by (simp add: Let_def)
  qed
  have "answers mode s item" and step: "acquire_loop port mode sources (tr @ [CallAcquire s]) [] (as @ [item]) = (tr', [], as')"
    using Cons.prems item nonempty by (auto simp: Let_def answers_def split: if_splits)
  then obtain items where "as' = (as @ [item]) @ items" "list_all2 (answers mode) sources items"
    using Cons.IH by blast
  then show ?case using \<open>answers mode s item\<close> by (intro exI[of _ "item # items"]) simp
qed simp

lemma answers_aliases:
  "list_all2 (answers mode) sources items \<Longrightarrow> map acquired_alias items = map request_alias sources"
  by (induction rule: list_all2_induct) (simp_all add: answers_def acquired_alias_def request_alias_def)

definition acquire_calls :: "compiler_request \<Rightarrow> trace" where
  "acquire_calls request =
     (if cr_mode request = CONSUMER \<and> list_ex not_frozen (cr_sources request) then []
      else map CallAcquire (cr_sources request))"

lemma acquired_compilation_ok:
  assumes "valid_digest od" "sorted (map acquired_alias items)" "distinct (map acquired_alias items)"
  shows "acquired_compilation items od =
    Inr \<lparr>ac_sources = items, ac_input_digest = json_digest (acquisition_json items od)\<rparr>"
  using assms sort_key_id_if_sorted[OF assms(2)]
  by (simp add: acquired_compilation_def mk_acquired_compilation_def py_ok Let_def)

lemma acquire_cases:
  assumes req: "request_ok request" and port: "\<forall>t s. answer_ok (port t s)"
  obtains (failed) ds where "acquire request port [] = (acquire_calls request, Inr (Err ds))"
  | (acquired) items where "acquire request port [] = (acquire_calls request,
        Inr (Ok \<lparr>ac_sources = items, ac_input_digest = json_digest (acquisition_json items (cr_options_digest request))\<rparr>))"
      "list_all2 (answers (cr_mode request)) (cr_sources request) items"
      "cr_mode request = CONSUMER \<longrightarrow> \<not> list_ex not_frozen (cr_sources request)"
proof (cases "cr_mode request = CONSUMER \<and> list_ex not_frozen (cr_sources request)")
  case True
  then have "[s \<leftarrow> cr_sources request. not_frozen s] \<noteq> []"
    by (auto simp: list_ex_iff filter_empty_conv)
  then show ?thesis using True failed by (simp add: acquire_def Let_def acquire_calls_def mk_err_def)
next
  case False
  let ?loop = "acquire_loop port (cr_mode request) (cr_sources request) [] [] []"
  obtain tr ds items where loop: "?loop = (tr, ds, items)" by (metis prod_cases3)
  have tr: "tr = acquire_calls request"
    using acquire_loop_trace[of port "cr_mode request" "cr_sources request" "[]" "[]" "[]"] loop False
    by (auto simp: acquire_calls_def)
  have go: "acquire request port [] = (tr, if ds \<noteq> [] then Inr (mk_err ds)
      else case acquired_compilation items (cr_options_digest request) of Inl e \<Rightarrow> Inl e | Inr c \<Rightarrow> Inr (Ok c))"
    using False loop by (auto simp: acquire_def Let_def filter_empty_conv list_ex_iff)
  show ?thesis
  proof (cases "ds = []")
    case False
    then show ?thesis using go failed tr by (simp add: mk_err_def)
  next
    case True
    then have items: "list_all2 (answers (cr_mode request)) (cr_sources request) items"
      using acquire_loop_ok[OF port, of "cr_mode request" "cr_sources request" "[]" "[]" tr items] loop by auto
    have "acquired_compilation items (cr_options_digest request) = Inr \<lparr>ac_sources = items,
        ac_input_digest = json_digest (acquisition_json items (cr_options_digest request))\<rparr>"
      using req answers_aliases[OF items] by (intro acquired_compilation_ok) (simp_all add: request_ok_def)
    then show ?thesis using go True tr items acquired[of items] False by auto
  qed
qed

subsection \<open>The whole run\<close>

lemma steps_okD:
  assumes "steps_ok steps"
  shows "output_ok (step_parse steps a c)" "output_ok (step_handshake steps p c)"
    "output_ok (step_resolve steps h c)" "output_ok (step_normalize steps r c)"
    "output_ok (step_validate steps n c)" "output_ok (step_index steps v c)"
    "step_index steps v c = Ok out \<Longrightarrow> candidate_ok (po_value out)"
  using assms unfolding steps_ok_def by blast+

lemma index_check_Nil:
  "index_check d out = [] \<longleftrightarrow> ca_input_digest (po_value out) = d \<and> po_digest out = ca_index_digest (po_value out)"
  by (simp add: index_check_def Let_def)

lemma phases_nth:
  "all_phases ! 0 = ACQUIRE" "all_phases ! 1 = PARSE" "all_phases ! Suc 0 = PARSE" "all_phases ! 2 = HANDSHAKE" "all_phases ! 3 = RESOLVE"
  "all_phases ! 4 = NORMALIZE" "all_phases ! 5 = VALIDATE" "all_phases ! 6 = INDEX"
  by (simp_all add: all_phases_def)

lemma first_prefix:
  "valid_digest e \<Longrightarrow> succeeded_prefix 1 e [\<lparr>rep_phase = ACQUIRE, rep_status = P_SUCCEEDED,
     rep_input_digest = d, rep_output_digest = Some e, rep_diagnostics = ds\<rparr>]"
  by (simp add: succeeded_prefix_def all_phases_def)

lemma compile_sources_outcome:
  assumes req: "request_ok request" and steps: "steps_ok steps" and ports: "ports_ok ports"
  shows "run_outcome ports (acquire_calls request) (cr_build_key request) (compile_sources request steps ports)"
proof -
  let ?acq = "acquire_calls request" and ?key = "cr_build_key request"
  have vo: "valid_digest (cr_options_digest request)" and key: "one_line ?key" "?key \<noteq> []"
    using req by (auto simp: request_ok_def one_line_def)
  have port: "\<forall>t s. answer_ok (port_acquire ports t s)" using ports by (simp add: ports_ok_def)
  show ?thesis
    using req port
  proof (cases rule: acquire_cases)
    case (failed ds)
    have "run_outcome ports ?acq ?key (?acq, failed_run [] (all_phases ! 0) ds (Some (cr_options_digest request)) None)"
      by (rule failed_outcome) (simp_all add: vo)
    then show ?thesis using failed by (simp add: compile_sources_def phases_nth)
  next
    case (acquired items)
    let ?d = "json_digest (acquisition_json items (cr_options_digest request))"
    let ?a = "\<lparr>ac_sources = items, ac_input_digest = ?d\<rparr>"
    let ?c = "\<lparr>cc_build_key = ?key, cc_mode = cr_mode request, cc_options_digest = cr_options_digest request,
      cc_input_digest = ?d\<rparr>"
    let ?r = "\<lparr>rep_phase = ACQUIRE, rep_status = P_SUCCEEDED, rep_input_digest = Some (cr_options_digest request),
      rep_output_digest = Some ?d, rep_diagnostics = sort_diagnostics []\<rparr>"
    have ctx: "mk_compiler_context ?key (cr_mode request) (cr_options_digest request) ?d = Inr ?c"
      using key vo by (simp add: mk_compiler_context_def py_ok)
    have rep: "mk_phase_report ACQUIRE P_SUCCEEDED (Some (cr_options_digest request)) (Some ?d) [] = Inr ?r"
      using vo by (simp add: mk_phase_report_def py_ok)
    have first: "succeeded_prefix 1 ?d [?r]" by (rule first_prefix) simp
    have tail: "run_outcome ports ?acq ?key (materialize_phase ports ?key (po_value out) ?acq reps)"
      if "step_index steps v ?c = Ok out" "index_check ?d out = []" "succeeded_prefix 7 (po_digest out) reps"
        "reps ! 0 = ?r" for v out reps
      using that steps_okD(7)[OF steps that(1)] key(2) ports
      by (intro materialize_outcome) (simp_all add: index_check_Nil)
    define k6 where "k6 = (\<lambda>reports v. run_phase ?acq reports INDEX (po_digest v) (step_index steps v ?c)
      (index_check ?d) (\<lambda>reports out. materialize_phase ports ?key (po_value out) ?acq reports))"
    have 6: "run_outcome ports ?acq ?key (k6 reps v)"
      if "succeeded_prefix 6 (po_digest v) reps" "reps ! 0 = ?r" for reps v
      unfolding k6_def
      by (rule run_phase_rule[OF that(1)]) (use tail that(2) in \<open>simp_all add: phases_nth steps_okD[OF steps]\<close>)
    define k5 where "k5 = (\<lambda>reports v. run_phase ?acq reports VALIDATE (po_digest v) (step_validate steps v ?c) no_check k6)"
    have 5: "run_outcome ports ?acq ?key (k5 reps v)"
      if "succeeded_prefix 5 (po_digest v) reps" "reps ! 0 = ?r" for reps v
      unfolding k5_def
      by (rule run_phase_rule[OF that(1)]) (use 6 that(2) in \<open>simp_all add: phases_nth steps_okD[OF steps]\<close>)
    define k4 where "k4 = (\<lambda>reports v. run_phase ?acq reports NORMALIZE (po_digest v) (step_normalize steps v ?c) no_check k5)"
    have 4: "run_outcome ports ?acq ?key (k4 reps v)"
      if "succeeded_prefix 4 (po_digest v) reps" "reps ! 0 = ?r" for reps v
      unfolding k4_def
      by (rule run_phase_rule[OF that(1)]) (use 5 that(2) in \<open>simp_all add: phases_nth steps_okD[OF steps]\<close>)
    define k3 where "k3 = (\<lambda>reports v. run_phase ?acq reports RESOLVE (po_digest v) (step_resolve steps v ?c)
      (frozen_check (cr_mode request)) k4)"
    have 3: "run_outcome ports ?acq ?key (k3 reps v)"
      if "succeeded_prefix 3 (po_digest v) reps" "reps ! 0 = ?r" for reps v
      unfolding k3_def
      by (rule run_phase_rule[OF that(1)]) (use 4 that(2) in \<open>simp_all add: phases_nth steps_okD[OF steps]\<close>)
    define k2 where "k2 = (\<lambda>reports v. run_phase ?acq reports HANDSHAKE (po_digest v) (step_handshake steps v ?c) no_check k3)"
    have 2: "run_outcome ports ?acq ?key (k2 reps v)"
      if "succeeded_prefix 2 (po_digest v) reps" "reps ! 0 = ?r" for reps v
      unfolding k2_def
      by (rule run_phase_rule[OF that(1)]) (use 3 that(2) in \<open>simp_all add: phases_nth steps_okD[OF steps]\<close>)
    have "run_outcome ports ?acq ?key (run_phase ?acq [?r] PARSE ?d (step_parse steps ?a ?c) no_check k2)"
      by (rule run_phase_rule[OF first]) (use 2 in \<open>simp_all add: phases_nth steps_okD[OF steps] numeral_2_eq_2\<close>)
    moreover have "compile_sources request steps ports =
        run_phase ?acq [?r] PARSE ?d (step_parse steps ?a ?c) no_check k2"
      using acquired(1) ctx rep by (simp add: compile_sources_def k2_def k3_def k4_def k5_def k6_def)
    ultimately show ?thesis by simp
  qed
qed


text \<open>
  C2. Effects happen in order and publication is unreachable after a failure. For a request, steps and ports
  that keep the invariants of their values, \<open>compile_sources\<close> never raises and
  returns one report for each of the nine phases: some number \<open>k\<close> of successes, then, unless \<open>k\<close> is nine,
  one failure and the rest skipped. The port calls are exactly: an acquisition per source in the
  order of the request (none at all for a consumer with an unlocked source); after a successful
  INDEX every object of the candidate in order; and only after a successful MATERIALIZE one
  publication, of the request derived from the candidate. A publication is
  reported exactly when all nine phases succeeded.
\<close>

theorem compile_sources_effects:
  assumes "request_ok request" and "steps_ok steps" and "ports_ok ports"
  shows "\<exists>run k. snd (compile_sources request steps ports) = Inr run \<and> k \<le> 9
    \<and> map rep_phase (run_reports run) = all_phases
    \<and> map rep_status (run_reports run) =
        replicate k P_SUCCEEDED @ (if k < 9 then P_FAILED # replicate (8 - k) P_SKIPPED else [])
    \<and> (run_candidate run \<noteq> None \<longleftrightarrow> 7 \<le> k) \<and> (run_publication run \<noteq> None \<longleftrightarrow> k = 9)
    \<and> fst (compile_sources request steps ports) =
        (if cr_mode request = CONSUMER \<and> list_ex not_frozen (cr_sources request) then []
         else map CallAcquire (cr_sources request))
        @ (case run_candidate run of None \<Rightarrow> []
           | Some c \<Rightarrow> map CallMaterialize (ca_objects c)
               @ (if 8 \<le> k then [CallPublish (request_of_candidate c (cr_build_key request))] else []))"
  using compile_sources_outcome[OF assms] unfolding run_outcome_def run_shape_def acquire_calls_def by blast

text \<open>
  C3. A published run is bound end to end: the input digest of every phase up to MATERIALIZE is
  the output digest of the phase before; the candidate binds the acquired input; its index
  digest and object digests are the SHA-256 of the exact bytes; every object of the candidate was handed in order
  to the materialization port, after the acquisitions and before the one publication; the port answered each with
  a receipt of the planned digest, and the output digest of MATERIALIZE is that of exactly these receipts; and the digest of the
  publication receipt is the snapshot digest over build key, input digest, index digest and object digests.
\<close>

theorem compile_sources_bound:
  assumes "request_ok request" and "steps_ok steps" and "ports_ok ports"
    and "snd (compile_sources request steps ports) = Inr run" and "run_publication run = Some receipt"
  shows "\<exists>c calls receipts. run_candidate run = Some c
    \<and> (\<forall>i < 7. rep_input_digest (run_reports run ! Suc i) = rep_output_digest (run_reports run ! i))
    \<and> rep_output_digest (run_reports run ! 0) = Some (ca_input_digest c)
    \<and> ca_index_digest c = sha256_bytes (ca_index_bytes c)
    \<and> map pl_digest (ca_objects c) = map (sha256_bytes \<circ> pl_content) (ca_objects c)
    \<and> fst (compile_sources request steps ports) =
        calls @ map CallMaterialize (ca_objects c) @ [CallPublish (request_of_candidate c (cr_build_key request))]
    \<and> calls = (if cr_mode request = CONSUMER \<and> list_ex not_frozen (cr_sources request) then []
               else map CallAcquire (cr_sources request))
    \<and> length receipts = length (ca_objects c)
    \<and> (\<forall>j < length (ca_objects c).
         port_materialize ports (calls @ map CallMaterialize (take j (ca_objects c))) (ca_objects c ! j) = Ok (receipts ! j)
         \<and> or_digest (receipts ! j) = pl_digest (ca_objects c ! j))
    \<and> rep_output_digest (run_reports run ! 7) = Some (materialization_digest receipts)
    \<and> prc_snapshot_digest receipt = snapshot_digest (cr_build_key request) (ca_input_digest c)
        (ca_index_digest c) (map pl_digest (ca_objects c))"
proof -
  let ?calls = "acquire_calls request"
  obtain k where shape: "run_shape k run"
    and calls: "fst (compile_sources request steps ports) = ?calls @ (case run_candidate run of None \<Rightarrow> []
        | Some c \<Rightarrow> map CallMaterialize (ca_objects c)
            @ (if 8 \<le> k then [CallPublish (request_of_candidate c (cr_build_key request))] else []))"
    and bound: "\<forall>c r. run_candidate run = Some c \<longrightarrow> candidate_ok c \<and>
      (run_publication run = Some r \<longrightarrow>
        prc_snapshot_digest r = pr_snapshot_digest (request_of_candidate c (cr_build_key request))
        \<and> rep_output_digest (run_reports run ! 0) = Some (ca_input_digest c)
        \<and> (\<exists>receipts. materialized (port_materialize ports) ?calls (ca_objects c) receipts
             \<and> rep_output_digest (run_reports run ! 7) = Some (materialization_digest receipts)))"
    using compile_sources_outcome[OF assms(1-3)] assms(4) unfolding run_outcome_def by auto
  have k: "k = 9" using shape assms(5) by (simp add: run_shape_def)
  then obtain c where c: "run_candidate run = Some c" using shape by (auto simp: run_shape_def)
  have ok: "candidate_ok c" using bound c by blast
  then have objects: "map pl_digest (ca_objects c) = map (sha256_bytes \<circ> pl_content) (ca_objects c)"
    by (simp add: candidate_ok_def plan_ok_def list_all_iff)
  obtain receipts where receipts: "materialized (port_materialize ports) ?calls (ca_objects c) receipts"
    "rep_output_digest (run_reports run ! 7) = Some (materialization_digest receipts)"
    "rep_output_digest (run_reports run ! 0) = Some (ca_input_digest c)"
    "prc_snapshot_digest receipt = pr_snapshot_digest (request_of_candidate c (cr_build_key request))"
    using bound c assms(5) by blast
  have links: "\<forall>i < 7. rep_input_digest (run_reports run ! Suc i) = rep_output_digest (run_reports run ! i)"
    using shape k by (simp add: run_shape_def)
  have index: "ca_index_digest c = sha256_bytes (ca_index_bytes c)" using ok by (simp add: candidate_ok_def)
  have trace: "fst (compile_sources request steps ports) =
      ?calls @ map CallMaterialize (ca_objects c) @ [CallPublish (request_of_candidate c (cr_build_key request))]"
    using calls c k by simp
  show ?thesis
    by (rule exI[of _ c], rule exI[of _ ?calls], rule exI[of _ receipts], intro conjI c links receipts(2,3) index objects trace)
      (use receipts(1,4) in \<open>simp_all add: materialized_def acquire_calls_def request_of_candidate_def\<close>)
qed

subsection \<open>Frozen consumers\<close>

text \<open>What a consumer request fixes of the sources: alias, revision and snapshot digest.\<close>

definition locked_json :: "compiler_request \<Rightarrow> json_value" where
  "locked_json request =
     json_object [(''options_digest'', JStr (digest_str (cr_options_digest request))),
       (''sources'', JArray (map (\<lambda>s. json_object
          [(''alias'', JStr (request_alias s)), (''resolved_revision'', JStr (the (sr_locked_revision s))),
           (''snapshot_digest'', JStr (digest_str (the (sr_expected_snapshot_digest s))))]) (cr_sources request)))]"

lemma answers_lockedD:
  "answers CONSUMER s i \<Longrightarrow> sr_alias s = as_alias i \<and> sr_locked_revision s = Some (as_resolved_revision i)
     \<and> sr_expected_snapshot_digest s = Some (as_snapshot_digest i)"
  by (auto simp: answers_def frozen_mismatch_def)

lemma answers_locked:
  assumes "list_all2 (answers CONSUMER) sources items"
  shows "map (\<lambda>s. (sr_alias s, sr_locked_revision s, sr_expected_snapshot_digest s)) sources =
    map (\<lambda>i. (as_alias i, Some (as_resolved_revision i), Some (as_snapshot_digest i))) items"
  using assms by (induction rule: list_all2_induct) (auto dest: answers_lockedD)

lemma acquisition_locked:
  assumes "list_all2 (answers CONSUMER) (cr_sources request) items"
  shows "acquisition_json items (cr_options_digest request) = locked_json request"
proof -
  have "map (\<lambda>s. json_object [(''alias'', JStr (acquired_alias s)), (''resolved_revision'', JStr (as_resolved_revision s)),
         (''snapshot_digest'', JStr (digest_str (as_snapshot_digest s)))]) items =
      map (\<lambda>s. json_object [(''alias'', JStr (request_alias s)), (''resolved_revision'', JStr (the (sr_locked_revision s))),
         (''snapshot_digest'', JStr (digest_str (the (sr_expected_snapshot_digest s))))]) (cr_sources request)"
    using assms by (induction rule: list_all2_induct)
      (auto dest!: answers_lockedD simp: acquired_alias_def request_alias_def)
  then show ?thesis by (simp add: acquisition_json_def locked_json_def)
qed

text \<open>
  C4. A consumer compiles only what was locked. If the acquisition of a consumer request succeeds,
  every source was locked, each acquired source has the alias, the revision and the
  snapshot digest of its request, and the compiler input digest is a function of
  the request alone, whatever the acquisition port answered.
\<close>

theorem consumer_acquires_locked:
  assumes "request_ok request" and "\<forall>t s. answer_ok (port t s)" and "cr_mode request = CONSUMER"
    and "acquire request port [] = (tr, Inr (Ok acquired))"
  shows "map (\<lambda>s. (sr_alias s, sr_locked_revision s, sr_expected_snapshot_digest s)) (cr_sources request) =
      map (\<lambda>i. (as_alias i, Some (as_resolved_revision i), Some (as_snapshot_digest i))) (ac_sources acquired)
    \<and> \<not> list_ex not_frozen (cr_sources request)
    \<and> ac_input_digest acquired = json_digest (locked_json request)"
  using assms(1,2)
proof (cases rule: acquire_cases)
  case (failed ds)
  then show ?thesis using assms(4) by simp
next
  case (acquired items)
  then show ?thesis
    using assms(3,4) answers_locked[of "cr_sources request" items] acquisition_locked[of request items] by auto
qed

subsection \<open>A sample compilation\<close>

definition sample_request :: compiler_request where
  "sample_request =
     \<lparr>cr_build_key = ''build'', cr_mode = CONSUMER,
      cr_sources = [\<lparr>sr_alias = SourceAlias ''main'', sr_locator = ''file'', sr_locked_revision = Some ''r1'',
                     sr_expected_snapshot_digest = Some (sha256_bytes [3])\<rparr>],
      cr_options_digest = sha256_bytes [4]\<rparr>"

definition sample_output :: "'a \<Rightarrow> 'a phase_output result" where
  "sample_output x = Ok \<lparr>po_value = x, po_digest = sha256_bytes [5], po_diagnostics = []\<rparr>"

definition sample_steps :: "(unit, unit, unit, unit, unit) compiler_steps" where
  "sample_steps =
     \<lparr>step_parse = (\<lambda>_ _. sample_output ()), step_handshake = (\<lambda>_ _. sample_output ()),
      step_resolve = (\<lambda>_ _. sample_output \<lparr>rc_value = (), rc_frozen = True\<rparr>),
      step_normalize = (\<lambda>_ _. sample_output ()), step_validate = (\<lambda>_ _. sample_output ()),
      step_index = (\<lambda>_ c. Ok \<lparr>po_value = sample_candidate\<lparr>ca_input_digest :=
                        (if valid_digest (cc_input_digest c) then cc_input_digest c else sha256_bytes [])\<rparr>,
                      po_digest = sha256_bytes [1], po_diagnostics = []\<rparr>)\<rparr>"

definition sample_ports :: compiler_ports where
  "sample_ports =
     \<lparr>port_acquire = (\<lambda>_ s. Ok \<lparr>as_alias = sr_alias s, as_resolved_revision = ''r1'',
                         as_snapshot_digest = sha256_bytes [3],
                         as_snapshot = mk_source_snapshot SO_LOCAL []\<rparr>),
      port_materialize = (\<lambda>_ p. Ok \<lparr>or_digest = pl_digest p\<rparr>),
      port_publish = (\<lambda>_ r. Ok \<lparr>prc_snapshot_digest = pr_snapshot_digest r\<rparr>)\<rparr>"

lemma sample_ok: "request_ok sample_request" "steps_ok sample_steps" "ports_ok sample_ports"
    apply (simp add: sample_request_def request_ok_def one_line_def)
   apply (simp add: sample_steps_def steps_ok_def sample_output_def output_ok_def sample_candidate_def
      candidate_ok_def plan_ok_def)
  apply (simp add: sample_ports_def ports_ok_def answer_ok_def)
  done

theorem compile_sources_effects_witness:
  "\<exists>run k. snd (compile_sources sample_request sample_steps sample_ports) = Inr run \<and> k \<le> 9
    \<and> map rep_status (run_reports run) =
        replicate k P_SUCCEEDED @ (if k < 9 then P_FAILED # replicate (8 - k) P_SKIPPED else [])"
  using compile_sources_effects[OF sample_ok] by blast

lemma sample_acquired:
  "acquire sample_request (port_acquire sample_ports) [] = (map CallAcquire (cr_sources sample_request),
     Inr (Ok \<lparr>ac_sources = [\<lparr>as_alias = SourceAlias ''main'', as_resolved_revision = ''r1'',
        as_snapshot_digest = sha256_bytes [3], as_snapshot = mk_source_snapshot SO_LOCAL []\<rparr>],
        ac_input_digest = json_digest (locked_json sample_request)\<rparr>))"
  by (simp add: acquire_def sample_request_def sample_ports_def not_frozen_def frozen_mismatch_def
      acquired_compilation_def mk_acquired_compilation_def py_check_def py_guard_def require_digest_def
      acquisition_json_def locked_json_def acquired_alias_def request_alias_def)

theorem consumer_acquires_locked_witness:
  "ac_input_digest \<lparr>ac_sources = [\<lparr>as_alias = SourceAlias ''main'', as_resolved_revision = ''r1'',
        as_snapshot_digest = sha256_bytes [3], as_snapshot = mk_source_snapshot SO_LOCAL []\<rparr>],
        ac_input_digest = json_digest (locked_json sample_request)\<rparr> = json_digest (locked_json sample_request)"
  using consumer_acquires_locked[OF sample_ok(1) _ _ sample_acquired] sample_ok(3)
  by (simp add: ports_ok_def sample_request_def)

lemma run_phase_Ok:
  assumes "valid_digest d" "valid_digest (po_digest out)" "\<not> list_ex is_error (po_diagnostics out)" "check out = []"
  shows "run_phase tr reps phase d (Ok out) check go =
    go (reps @ [\<lparr>rep_phase = phase, rep_status = P_SUCCEEDED, rep_input_digest = Some d,
      rep_output_digest = Some (po_digest out), rep_diagnostics = sort_diagnostics (po_diagnostics out)\<rparr>]) out"
  using assms
  by (simp add: run_phase_def accepted_output_def success_report_def mk_phase_report_def py_check_def
      require_optional_digest_def require_digest_def)

lemma sample_published:
  "\<exists>run receipt. snd (compile_sources sample_request sample_steps sample_ports) = Inr run
      \<and> run_publication run = Some receipt"
proof -
  let ?c = "sample_candidate\<lparr>ca_input_digest := json_digest (locked_json sample_request)\<rparr>"
  have c: "candidate_ok ?c" by (simp add: sample_candidate_def candidate_ok_def plan_ok_def)
  have vs: "valid_digest (snapshot_digest k i x os)" for k i x os by (simp add: snapshot_digest_def)
  have vm: "valid_digest (materialization_digest rs)" for rs by (simp add: materialization_digest_def)
  have pub: "\<exists>run receipt. snd (materialize_phase sample_ports ''build'' ?c tr reps) = Inr run
      \<and> run_publication run = Some receipt"
    if "map rep_phase reps = take 7 all_phases" for tr reps
  proof -
    have ph: "map rep_phase (reps @ [m, p]) = all_phases"
      if "rep_phase m = MATERIALIZE" "rep_phase p = PUBLISH" for m p
      using that \<open>map rep_phase reps = take 7 all_phases\<close> by (simp add: all_phases_def)
    have "publication_request ?c ''build'' = Inr (request_of_candidate ?c ''build'')"
      by (rule publication_request_ok[OF c]) simp
    then show ?thesis
      by (simp add: materialize_phase_def publish_phase_def sample_ports_def sample_candidate_def
          mk_phase_report_def py_check_def require_optional_digest_def require_digest_def vs vm
          request_of_candidate_def mk_compiler_run_ok[OF ph] Let_def)
  qed
  have key: "cr_build_key sample_request = ''build''" "one_line (cr_build_key sample_request)"
    "valid_digest (cr_options_digest sample_request)"
    by (simp_all add: sample_request_def one_line_def)
  have ix: "ca_index_digest sample_candidate = sha256_bytes [1]" by (simp add: sample_candidate_def)
  have steps: "step_parse sample_steps a x = sample_output ()" "step_handshake sample_steps b x = sample_output ()"
    "step_resolve sample_steps b x = sample_output \<lparr>rc_value = (), rc_frozen = True\<rparr>"
    "step_normalize sample_steps r x = sample_output ()" "step_validate sample_steps b x = sample_output ()"
    "valid_digest (cc_input_digest x) \<Longrightarrow> step_index sample_steps b x =
       Ok \<lparr>po_value = sample_candidate\<lparr>ca_input_digest := cc_input_digest x\<rparr>, po_digest = sha256_bytes [1], po_diagnostics = []\<rparr>"
    for a x b r by (simp_all add: sample_steps_def)
  show ?thesis
    using key(2,3)
    by (simp add: compile_sources_def sample_acquired mk_phase_report_def mk_compiler_context_def py_check_def py_guard_def
        require_optional_digest_def require_digest_def steps sample_output_def run_phase_Ok frozen_check_def
        index_check_Nil ix key(1))
      (rule pub[unfolded ex_simps], simp add: all_phases_def)
qed

theorem compile_sources_bound_witness:
  "\<exists>run receipt c. snd (compile_sources sample_request sample_steps sample_ports) = Inr run
     \<and> run_publication run = Some receipt \<and> run_candidate run = Some c
     \<and> fst (compile_sources sample_request sample_steps sample_ports) =
         map CallAcquire (cr_sources sample_request) @ map CallMaterialize (ca_objects c)
           @ [CallPublish (request_of_candidate c ''build'')]
     \<and> prc_snapshot_digest receipt = snapshot_digest ''build'' (ca_input_digest c)
        (ca_index_digest c) (map pl_digest (ca_objects c))"
proof -
  obtain run receipt where run: "snd (compile_sources sample_request sample_steps sample_ports) = Inr run"
    "run_publication run = Some receipt" using sample_published by blast
  have "cr_build_key sample_request = ''build''" "\<not> list_ex not_frozen (cr_sources sample_request)"
    by (simp_all add: sample_request_def not_frozen_def)
  then show ?thesis using compile_sources_bound[OF sample_ok run] run by auto
qed

end
