(* ===== verification/Graph.thy ===== *)
theory Graph
  imports CompilerModel
begin

text \<open>
  The values of the marketplace graph (\<open>agent_artifacts/compiler/graph.py\<close>): sources,
  qualified artifacts and collections, compatibility targets and decisions, selection requests and
  results, and the semantic JSON whose digest identifies what an artifact does. Where the
  source sorts a set with a key, the model sorts the list of its distinct elements; the keys in use are
  injective on the values that occur, so the order does not depend on the hash order of the set.
\<close>

definition MARKETPLACE_GRAPH_INVALID :: diagnostic_code where
  "MARKETPLACE_GRAPH_INVALID = ''marketplace-graph-invalid''"
definition SOURCE_INCOMPATIBLE :: diagnostic_code where
  "SOURCE_INCOMPATIBLE = ''source-incompatible''"
definition ARTIFACT_INCOMPATIBLE :: diagnostic_code where
  "ARTIFACT_INCOMPATIBLE = ''artifact-incompatible''"
definition ARTIFACT_NOT_FOUND :: diagnostic_code where
  "ARTIFACT_NOT_FOUND = ''artifact-not-found''"
definition ARTIFACT_VERSION_UNCHANGED :: diagnostic_code where
  "ARTIFACT_VERSION_UNCHANGED = ''artifact-version-unchanged''"
definition ARTIFACT_VERSION_REGRESSED :: diagnostic_code where
  "ARTIFACT_VERSION_REGRESSED = ''artifact-version-regressed''"
definition ARTIFACT_VERSION_WITHOUT_CONTENT :: diagnostic_code where
  "ARTIFACT_VERSION_WITHOUT_CONTENT = ''artifact-version-without-content''"

datatype artifact_lifecycle = AVAILABLE | REMOVED

fun lifecycle_value :: "artifact_lifecycle \<Rightarrow> string" where
  "lifecycle_value AVAILABLE = ''available''"
| "lifecycle_value REMOVED = ''removed''"

datatype selection_mode = BROAD | EXPLICIT

subsection \<open>Coordinates\<close>

datatype collection_coordinate = CollectionCoordinate (cc_source: source_alias) (cc_name: string)

definition collection_key :: "collection_coordinate \<Rightarrow> source_alias \<times> string" where
  [dom_order]: "collection_key c = (cc_source c, cc_name c)"

instantiation collection_coordinate :: linorder
begin
definition less_eq_collection_coordinate :: "collection_coordinate \<Rightarrow> collection_coordinate \<Rightarrow> bool" where
  [dom_order]: "less_eq_collection_coordinate a b \<longleftrightarrow> collection_key a \<le> collection_key b"
definition less_collection_coordinate :: "collection_coordinate \<Rightarrow> collection_coordinate \<Rightarrow> bool" where
  [dom_order]: "less_collection_coordinate a b \<longleftrightarrow> collection_key a < collection_key b"
instance
proof
  fix a b c :: collection_coordinate
  show "a \<le> b \<Longrightarrow> b \<le> a \<Longrightarrow> a = b"
    by (cases a; cases b) (auto simp: less_eq_collection_coordinate_def collection_key_def)
qed (auto simp: less_eq_collection_coordinate_def less_collection_coordinate_def)
end

definition mk_collection_coordinate :: "source_alias \<Rightarrow> string \<Rightarrow> collection_coordinate py" where
  "mk_collection_coordinate source name =
     py_guard (alias_value source = [] \<or> name = []) ''collection coordinate must be qualified and non-empty''
       (Inr (CollectionCoordinate source name))"

definition collection_str :: "collection_coordinate \<Rightarrow> string" where
  "collection_str c = alias_value (cc_source c) @ ''/collection/'' @ cc_name c"

definition artifact_sort_key :: "artifact_coordinate \<Rightarrow> string \<times> string \<times> string \<times> string" where
  "artifact_sort_key c =
     (alias_value (coord_source c), identity_kind (coord_artifact c), identity_name (coord_artifact c),
      or_empty (coord_version c))"

subsection \<open>Sources\<close>

record graph_source =
  gs_alias :: source_alias
  gs_source_id :: source_id
  gs_required_capabilities :: "capability list"
  gs_artifacts :: "index_artifact list"
  gs_collections :: "collection_manifest list"

definition index_artifact_key :: "index_artifact \<Rightarrow> string \<times> string \<times> string \<times> string" where
  "index_artifact_key a =
     (identity_kind (ia_identity a), identity_name (ia_identity a), semver_str (ia_version a),
      digest_str (ia_object_digest a))"

definition mk_graph_source ::
  "source_alias \<Rightarrow> source_id \<Rightarrow> capability list \<Rightarrow> index_artifact list \<Rightarrow> collection_manifest list
     \<Rightarrow> graph_source py" where
  "mk_graph_source alias source_id capabilities artifacts collections =
     py_guard (alias_value alias = [] \<or> source_id_value source_id = [])
       ''graph source alias and source ID must be non-empty''
     (Inr \<lparr>gs_alias = alias, gs_source_id = source_id, gs_required_capabilities = sorted_set capabilities,
           gs_artifacts = sort_key index_artifact_key artifacts,
           gs_collections = sort_key cm_name collections\<rparr>)"

subsection \<open>Compatibility\<close>

datatype compatibility_reason = CompatibilityReason (reason_code: string) (reason_message: string)

definition reason_key :: "compatibility_reason \<Rightarrow> string \<times> string" where
  "reason_key r = (reason_code r, reason_message r)"

instantiation compatibility_reason :: linorder
begin
definition less_eq_compatibility_reason :: "compatibility_reason \<Rightarrow> compatibility_reason \<Rightarrow> bool" where
  "less_eq_compatibility_reason a b \<longleftrightarrow> reason_key a \<le> reason_key b"
definition less_compatibility_reason :: "compatibility_reason \<Rightarrow> compatibility_reason \<Rightarrow> bool" where
  "less_compatibility_reason a b \<longleftrightarrow> reason_key a < reason_key b"
instance
proof
  fix a b c :: compatibility_reason
  show "a \<le> b \<Longrightarrow> b \<le> a \<Longrightarrow> a = b"
    by (cases a; cases b) (auto simp: less_eq_compatibility_reason_def reason_key_def)
qed (auto simp: less_eq_compatibility_reason_def less_compatibility_reason_def)
end

record compatibility_target =
  ct_profile :: string
  ct_platform :: string
  ct_scope :: string
  ct_mode :: string
  ct_effects :: "string list"
  ct_aart_version :: semver
  ct_setup_capabilities :: "capability list"
  ct_require_setup :: bool

definition mk_compatibility_target ::
  "string \<Rightarrow> string \<Rightarrow> string \<Rightarrow> string \<Rightarrow> string list \<Rightarrow> semver \<Rightarrow> capability list \<Rightarrow> bool
     \<Rightarrow> compatibility_target py" where
  "mk_compatibility_target profile platform scope mode effects version capabilities require_setup =
     py_guard (profile = [] \<or> platform = []) ''compatibility target profile and platform must be non-empty''
     (py_guard (scope \<notin> {''project'', ''user''}) ''compatibility target scope is invalid''
     (py_guard (mode \<notin> {''copy'', ''symlink''}) ''compatibility target mode is invalid''
     (py_guard (\<not> set effects \<subseteq> {''copy-tree'', ''write-file'', ''merge-json'', ''managed-block''})
        ''compatibility target effects are invalid''
     (Inr \<lparr>ct_profile = profile, ct_platform = platform, ct_scope = scope, ct_mode = mode,
           ct_effects = sorted_set effects, ct_aart_version = version,
           ct_setup_capabilities = sorted_set capabilities, ct_require_setup = require_setup\<rparr>))))"

record compatibility_decision =
  dec_payload_reasons :: "compatibility_reason list"
  dec_setup_reasons :: "compatibility_reason list"
  dec_setup_required :: bool

definition mk_compatibility_decision ::
  "compatibility_reason list \<Rightarrow> compatibility_reason list \<Rightarrow> bool \<Rightarrow> compatibility_decision" where
  "mk_compatibility_decision payload setup required =
     \<lparr>dec_payload_reasons = sorted_set payload, dec_setup_reasons = sorted_set setup,
      dec_setup_required = required\<rparr>"

definition decision_reasons :: "compatibility_decision \<Rightarrow> compatibility_reason list" where
  "decision_reasons d =
     (let blocking_setup = (if dec_setup_required d then dec_setup_reasons d else [])
      in sort (dec_payload_reasons d @ blocking_setup))"

definition payload_compatible :: "compatibility_decision \<Rightarrow> bool" where
  "payload_compatible d \<longleftrightarrow> dec_payload_reasons d = []"

definition setup_compatible :: "compatibility_decision \<Rightarrow> bool" where
  "setup_compatible d \<longleftrightarrow> dec_setup_reasons d = []"

definition compatible :: "compatibility_decision \<Rightarrow> bool" where
  "compatible d \<longleftrightarrow> payload_compatible d \<and> (setup_compatible d \<or> \<not> dec_setup_required d)"

subsection \<open>Semantic JSON\<close>

definition graph_location :: "source_alias \<Rightarrow> source_location" where
  "graph_location alias =
     \<lparr>loc_source = Some alias, loc_path = None, loc_pointer = None, loc_line = None, loc_column = None\<rparr>"

definition graph_diagnostic ::
  "diagnostic_code \<Rightarrow> string \<Rightarrow> source_alias option \<Rightarrow> severity \<Rightarrow> (string \<times> string) list \<Rightarrow> diagnostic" where
  "graph_diagnostic code message alias severity details =
     mk_diagnostic code severity message (map_option graph_location alias) [] details"

abbreviation graph_error :: "diagnostic_code \<Rightarrow> string \<Rightarrow> source_alias \<Rightarrow> diagnostic" where
  "graph_error code message alias \<equiv> graph_diagnostic code message (Some alias) ERROR []"

text \<open>\<open>_strings(values)\<close>, applied to the rendered values: sorting by \<open>str\<close> and rendering commute.\<close>

definition strings :: "string list \<Rightarrow> json_value" where
  "strings rendered = JArray (map JStr (sort rendered))"

definition setup_json :: "index_setup option \<Rightarrow> json_value" where
  "setup_json setup =
     (case setup of
        None \<Rightarrow> JNull
      | Some s \<Rightarrow> json_object [(''capabilities'', strings (map capability_value (is_capabilities s))),
                 (''platforms'', strings (is_platforms s)), (''recipe'', JStr (path_str (is_recipe s)))])"

definition bound_entry :: "string \<Rightarrow> semver option \<Rightarrow> json_entries" where
  "bound_entry name bound = (case bound of None \<Rightarrow> [] | Some v \<Rightarrow> [(name, JStr (semver_str v))])"

definition bounds_json :: "version_bounds \<Rightarrow> json_value" where
  "bounds_json b =
     json_object (bound_entry ''min_inclusive'' (min_inclusive b) @ bound_entry ''max_exclusive'' (max_exclusive b))"

definition selector_json :: "artifact_selector \<Rightarrow> json_value" where
  "selector_json s =
     json_object ([(''type'', JStr (identity_kind (sel_identity s))), (''name'', JStr (identity_name (sel_identity s)))]
       @ (case sel_version s of None \<Rightarrow> [] | Some b \<Rightarrow> [(''version'', bounds_json b)]))"

definition semantic_entries :: "index_artifact \<Rightarrow> json_entries" where
  "semantic_entries a =
     [(''compatibility'', json_object [(''platforms'', strings (comp_platforms (ia_compatibility a))),
                                       (''profiles'', strings (comp_profiles (ia_compatibility a)))]),
      (''install'', json_object [(''effects'', strings (inst_effects (ia_install a))),
                                 (''modes'', strings (inst_modes (ia_install a))),
                                 (''scopes'', strings (inst_scopes (ia_install a)))]),
      (''payload_digest'', JStr (digest_str (ia_payload_digest a))),
      (''setup'', setup_json (ia_setup a))]
     @ (if min_inclusive (ia_requires_aart a) \<noteq> None \<or> max_exclusive (ia_requires_aart a) \<noteq> None
        then [(''requires_aart'', bounds_json (ia_requires_aart a))] else [])
     @ (if ia_requires a \<noteq> [] then [(''requires'', JArray (map selector_json (ia_requires a)))] else [])"

definition semantic_json :: "index_artifact \<Rightarrow> json_value" where
  "semantic_json a = json_object (semantic_entries a)"

definition normalize_artifact :: "index_artifact \<Rightarrow> index_artifact" where
  "normalize_artifact a =
     a\<lparr>ia_compatibility := \<lparr>comp_profiles = sorted_set (comp_profiles (ia_compatibility a)),
                            comp_platforms = sorted_set (comp_platforms (ia_compatibility a))\<rparr>,
       ia_install := \<lparr>inst_scopes = sorted_set (inst_scopes (ia_install a)),
                      inst_modes = sorted_set (inst_modes (ia_install a)),
                      inst_effects = sorted_set (inst_effects (ia_install a))\<rparr>,
       ia_setup := map_option (\<lambda>s. s\<lparr>is_platforms := sorted_set (is_platforms s),
                                      is_capabilities := sorted_set (is_capabilities s)\<rparr>) (ia_setup a),
       ia_collections := sorted_set (ia_collections a),
       ia_requires := sort_key (\<lambda>s. identity_str (sel_identity s)) (dedup_by py_eq_selector (ia_requires a) [])\<rparr>"

subsection \<open>Artifacts, collections and graphs\<close>

record marketplace_artifact =
  ma_source_alias :: source_alias
  ma_source_id :: source_id
  ma_artifact :: index_artifact
  ma_semantic_digest :: object_digest
  ma_lifecycle :: artifact_lifecycle

definition mk_marketplace_artifact ::
  "source_alias \<Rightarrow> source_id \<Rightarrow> index_artifact \<Rightarrow> object_digest \<Rightarrow> artifact_lifecycle \<Rightarrow> marketplace_artifact py" where
  "mk_marketplace_artifact alias source_id artifact digest lifecycle =
     py_guard (alias_value alias = [] \<or> source_id \<noteq> ia_source_id artifact)
       ''marketplace artifact must retain its qualified source identity''
     (py_guard (digest \<noteq> json_digest (semantic_json artifact))
       ''marketplace semantic digest must bind normalized artifact semantics''
     (Inr \<lparr>ma_source_alias = alias, ma_source_id = source_id, ma_artifact = artifact,
           ma_semantic_digest = digest, ma_lifecycle = lifecycle\<rparr>))"

definition ma_coordinate :: "marketplace_artifact \<Rightarrow> artifact_coordinate" where
  "ma_coordinate m =
     ArtifactCoordinate (ma_source_alias m) (ia_identity (ma_artifact m)) (Some (semver_str (ia_version (ma_artifact m))))"

type_synonym artifact_key = "source_alias \<times> artifact_identity"

definition artifact_key :: "source_alias \<Rightarrow> artifact_identity \<Rightarrow> artifact_key" where
  "artifact_key alias identity = (alias, identity)"

definition ma_key :: "marketplace_artifact \<Rightarrow> artifact_key" where
  "ma_key m = artifact_key (ma_source_alias m) (ia_identity (ma_artifact m))"

type_synonym artifact_table = "(artifact_key \<times> marketplace_artifact) list"

definition marketplace_artifact :: "graph_source \<Rightarrow> index_artifact \<Rightarrow> marketplace_artifact py" where
  "marketplace_artifact source artifact =
     (let normalized = normalize_artifact artifact in
      mk_marketplace_artifact (gs_alias source) (gs_source_id source) normalized
        (json_digest (semantic_json normalized)) AVAILABLE)"

record marketplace_collection =
  mc_coordinate :: collection_coordinate
  mc_summary :: string
  mc_members :: "artifact_coordinate list"

definition mk_marketplace_collection ::
  "collection_coordinate \<Rightarrow> string \<Rightarrow> artifact_coordinate list \<Rightarrow> marketplace_collection py" where
  "mk_marketplace_collection coordinate summary members =
     py_guard (list_ex (\<lambda>m. coord_source m \<noteq> cc_source coordinate) members)
       ''protocol v1 collections may reference only their qualified source''
     (Inr \<lparr>mc_coordinate = coordinate, mc_summary = summary,
           mc_members = sort_key artifact_sort_key (remdups members)\<rparr>)"

record marketplace_graph =
  mg_artifacts :: "marketplace_artifact list"
  mg_collections :: "marketplace_collection list"
  mg_diagnostics :: "diagnostic list"

definition mk_marketplace_graph ::
  "marketplace_artifact list \<Rightarrow> marketplace_collection list \<Rightarrow> diagnostic list \<Rightarrow> marketplace_graph py" where
  "mk_marketplace_graph artifacts collections diagnostics =
     py_guard (\<not> distinct (map ma_key artifacts)) ''marketplace graph artifacts must be qualified and unique''
     (py_guard (\<not> distinct (map mc_coordinate collections))
        ''marketplace graph collections must be qualified and unique''
     (Inr \<lparr>mg_artifacts = sort_key (artifact_sort_key \<circ> ma_coordinate) artifacts,
           mg_collections = sort_key mc_coordinate collections,
           mg_diagnostics = sort_diagnostics diagnostics\<rparr>))"

subsection \<open>Selection values\<close>

record selection_skip =
  sk_coordinate :: artifact_coordinate
  sk_reasons :: "compatibility_reason list"

definition mk_selection_skip :: "artifact_coordinate \<Rightarrow> compatibility_reason list \<Rightarrow> selection_skip" where
  "mk_selection_skip coordinate reasons = \<lparr>sk_coordinate = coordinate, sk_reasons = sorted_set reasons\<rparr>"

record selection_request =
  srq_mode :: selection_mode
  srq_target :: compatibility_target
  srq_artifacts :: "artifact_coordinate list"
  srq_collections :: "collection_coordinate list"

definition mk_selection_request ::
  "selection_mode \<Rightarrow> compatibility_target \<Rightarrow> artifact_coordinate list \<Rightarrow> collection_coordinate list
     \<Rightarrow> selection_request" where
  "mk_selection_request mode target artifacts collections =
     \<lparr>srq_mode = mode, srq_target = target, srq_artifacts = sort_key artifact_sort_key (remdups artifacts),
      srq_collections = sorted_set collections\<rparr>"

record selection_result =
  sel_selected :: "marketplace_artifact list"
  sel_skipped :: "selection_skip list"

definition mk_selection_result ::
  "marketplace_artifact list \<Rightarrow> selection_skip list \<Rightarrow> selection_result" where
  "mk_selection_result selected skipped =
     \<lparr>sel_selected = sort_key (artifact_sort_key \<circ> ma_coordinate) selected,
      sel_skipped = sort_key (artifact_sort_key \<circ> sk_coordinate) skipped\<rparr>"

subsection \<open>What the semantic digest binds\<close>

definition wf_bounds :: "version_bounds \<Rightarrow> bool" where
  "wf_bounds b \<longleftrightarrow> pred_option valid_semver (min_inclusive b) \<and> pred_option valid_semver (max_exclusive b)"

text \<open>The values the protocol parsers produce: canonical digests, paths and versions, one selector per identity.\<close>

definition wf_index_artifact :: "index_artifact \<Rightarrow> bool" where
  "wf_index_artifact a \<longleftrightarrow> valid_digest (ia_payload_digest a) \<and> wf_bounds (ia_requires_aart a)
     \<and> pred_option (\<lambda>s. safe_path (is_recipe s)) (ia_setup a)
     \<and> distinct (map sel_identity (ia_requires a))
     \<and> list_all (\<lambda>s. pred_option wf_bounds (sel_version s)) (ia_requires a)"

definition semantic_view :: "index_artifact \<Rightarrow>
  compatibility_spec \<times> install_spec \<times> object_digest \<times> index_setup option \<times> version_bounds \<times> artifact_selector list" where
  "semantic_view a =
     (ia_compatibility a, ia_install a, ia_payload_digest a, ia_setup a, ia_requires_aart a, ia_requires a)"

lemma json_object_map_of:
  assumes "json_object es = json_object fs" "distinct (map fst es)" "distinct (map fst fs)"
  shows "map_of es = map_of fs"
proof -
  have "set es = set fs" using assms(1) unfolding json_object_def by (metis json_value.inject(4) set_sort)
  then show ?thesis using assms(2,3) by (metis map_of_inject_set)
qed

lemma sort_sorted_set [simp]: "sort (sorted_set xs) = sorted_set xs"
  by (simp add: sorted_sort_id)

lemma strings_eq: "strings xs = strings ys \<longleftrightarrow> sort xs = sort ys"
  by (auto simp: strings_def inj_map_eq_map inj_on_def)

lemma semver_str_inj: "valid_semver a \<Longrightarrow> valid_semver b \<Longrightarrow> semver_str a = semver_str b \<longleftrightarrow> a = b"
  by (metis parse_semver_Ok_iff result.inject(1))

lemma wf_strings [simp]: "wf_json (strings xs)"
  by (simp add: strings_def)

lemma bounds_json_eq:
  assumes "wf_bounds a" "wf_bounds b"
  shows "bounds_json a = bounds_json b \<longleftrightarrow> a = b"
proof
  let ?e = "\<lambda>b. bound_entry ''min_inclusive'' (min_inclusive b) @ bound_entry ''max_exclusive'' (max_exclusive b)"
  have d: "distinct (map fst (?e b))" for b by (auto simp: bound_entry_def split: option.splits)
  have m: "map_of (?e b) ''min_inclusive'' = map_option (JStr \<circ> semver_str) (min_inclusive b)"
    "map_of (?e b) ''max_exclusive'' = map_option (JStr \<circ> semver_str) (max_exclusive b)" for b
    by (auto simp: bound_entry_def split: option.splits)
  assume "bounds_json a = bounds_json b"
  then have "map_of (?e a) = map_of (?e b)" unfolding bounds_json_def by (rule json_object_map_of[OF _ d d])
  then have "map_option (JStr \<circ> semver_str) (min_inclusive a) = map_option (JStr \<circ> semver_str) (min_inclusive b)"
    "map_option (JStr \<circ> semver_str) (max_exclusive a) = map_option (JStr \<circ> semver_str) (max_exclusive b)"
    using m[of a] m[of b] by metis+
  then have "min_inclusive a = min_inclusive b" "max_exclusive a = max_exclusive b"
    using assms by (auto simp: wf_bounds_def map_option_case semver_str_inj split: option.splits)
  then show "a = b" by simp
qed simp

lemma wf_bounds_json: "wf_json (bounds_json b)"
  unfolding bounds_json_def by (rule wf_json_object) (auto simp: bound_entry_def split: option.splits)

lemma selector_json_eq:
  assumes "pred_option wf_bounds (sel_version a)" "pred_option wf_bounds (sel_version b)"
  shows "selector_json a = selector_json b \<longleftrightarrow> a = b"
proof
  let ?e = "\<lambda>s. [(''type'', JStr (identity_kind (sel_identity s))), (''name'', JStr (identity_name (sel_identity s)))]
       @ (case sel_version s of None \<Rightarrow> [] | Some b \<Rightarrow> [(''version'', bounds_json b)])"
  have d: "distinct (map fst (?e s))" for s by (auto split: option.splits)
  have m: "map_of (?e s) ''type'' = Some (JStr (identity_kind (sel_identity s)))"
    "map_of (?e s) ''name'' = Some (JStr (identity_name (sel_identity s)))"
    "map_of (?e s) ''version'' = map_option bounds_json (sel_version s)" for s
    by (auto split: option.splits)
  assume "selector_json a = selector_json b"
  then have eq: "map_of (?e a) = map_of (?e b)" unfolding selector_json_def by (rule json_object_map_of[OF _ d d])
  have "Some (JStr (identity_kind (sel_identity a))) = Some (JStr (identity_kind (sel_identity b)))"
    "Some (JStr (identity_name (sel_identity a))) = Some (JStr (identity_name (sel_identity b)))"
    using m(1,2)[of a] m(1,2)[of b] eq by metis+
  then have "sel_identity a = sel_identity b" by (intro artifact_identity.expand) simp
  moreover have "map_option bounds_json (sel_version a) = map_option bounds_json (sel_version b)"
    using m(3)[of a] m(3)[of b] eq by metis
  then have "sel_version a = sel_version b"
    using assms by (cases "sel_version a"; cases "sel_version b") (simp_all add: bounds_json_eq)
  ultimately show "a = b" by simp
qed simp

lemma wf_selector_json: "wf_json (selector_json s)"
  unfolding selector_json_def
  by (rule wf_json_object) (auto simp: wf_bounds_json split: option.splits)

lemma wf_setup_json: "wf_json (setup_json s)"
  by (cases s) (simp_all add: setup_json_def wf_json_object)

lemma semantic_entries_distinct: "distinct (map fst (semantic_entries a))"
  by (simp add: semantic_entries_def)

lemma wf_semantic_json: "wf_json (semantic_json a)"
  unfolding semantic_json_def
  by (rule wf_json_object[OF semantic_entries_distinct])
    (auto simp: semantic_entries_def list_all_iff wf_bounds_json wf_selector_json wf_setup_json
      intro!: wf_json_object)

definition normal_form :: "index_artifact \<Rightarrow> bool" where
  "normal_form a \<longleftrightarrow> sorted (comp_profiles (ia_compatibility a)) \<and> sorted (comp_platforms (ia_compatibility a))
     \<and> sorted (inst_scopes (ia_install a)) \<and> sorted (inst_modes (ia_install a)) \<and> sorted (inst_effects (ia_install a))
     \<and> pred_option (\<lambda>s. sorted (is_platforms s) \<and> sorted (is_capabilities s)) (ia_setup a)"

lemma normalize_normal_form: "normal_form (normalize_artifact a)"
  by (cases "ia_setup a") (simp_all add: normal_form_def normalize_artifact_def)

lemma normalize_wf: "wf_index_artifact a \<Longrightarrow> wf_index_artifact (normalize_artifact a)"
proof -
  assume wf: "wf_index_artifact a"
  then have "dedup_by py_eq_selector (ia_requires a) [] = ia_requires a"
    using dedup_by_distinct_key[of sel_identity "[]" "ia_requires a" py_eq_selector]
    by (simp add: wf_index_artifact_def py_eq_selector_identity)
  then show ?thesis
    using wf by (cases "ia_setup a") (simp_all add: wf_index_artifact_def normalize_artifact_def distinct_map_sort list_all_iff)
qed

lemma sorted_capability_values: "sorted cs \<Longrightarrow> sort (map capability_value cs) = map capability_value cs"
  by (rule sorted_sort_id) (simp add: sorted_map sorted_wrt_iff_nth_less less_eq_capability_def)

lemma setup_json_eq:
  assumes "pred_option (\<lambda>s. sorted (is_platforms s) \<and> sorted (is_capabilities s)) s"
    "pred_option (\<lambda>s. sorted (is_platforms s) \<and> sorted (is_capabilities s)) t"
    "pred_option (\<lambda>s. safe_path (is_recipe s)) s" "pred_option (\<lambda>s. safe_path (is_recipe s)) t"
  shows "setup_json s = setup_json t \<longleftrightarrow> s = t"
proof (cases s)
  case None
  then show ?thesis by (cases t) (simp_all add: setup_json_def json_object_def)
next
  case (Some a)
  show ?thesis
  proof (cases t)
    case None
    then show ?thesis using Some by (simp add: setup_json_def json_object_def)
  next
    case (Some b)
    have caps: "map capability_value (is_capabilities a) = map capability_value (is_capabilities b) \<longleftrightarrow>
        is_capabilities a = is_capabilities b"
      by (intro inj_map_eq_map injI) (metis capability.expand)
    show ?thesis
      using assms \<open>s = Some a\<close> Some
      by (auto simp: setup_json_def json_object_eq strings_eq sorted_capability_values sorted_sort_id caps path_str_inj)
  qed
qed

lemma semantic_lookup:
  "map_of (semantic_entries a) ''compatibility'' = Some (json_object
     [(''platforms'', strings (comp_platforms (ia_compatibility a))), (''profiles'', strings (comp_profiles (ia_compatibility a)))])"
  "map_of (semantic_entries a) ''install'' = Some (json_object
     [(''effects'', strings (inst_effects (ia_install a))), (''modes'', strings (inst_modes (ia_install a))),
      (''scopes'', strings (inst_scopes (ia_install a)))])"
  "map_of (semantic_entries a) ''payload_digest'' = Some (JStr (digest_str (ia_payload_digest a)))"
  "map_of (semantic_entries a) ''setup'' = Some (setup_json (ia_setup a))"
  "map_of (semantic_entries a) ''requires_aart'' =
     (if ia_requires_aart a = any_version then None else Some (bounds_json (ia_requires_aart a)))"
  "map_of (semantic_entries a) ''requires'' =
     (if ia_requires a = [] then None else Some (JArray (map selector_json (ia_requires a))))"
  by (auto simp: semantic_entries_def any_version_def)

lemma semantic_json_eq:
  assumes wf: "wf_index_artifact a" "wf_index_artifact b" and nf: "normal_form a" "normal_form b"
    and eq: "semantic_json a = semantic_json b"
  shows "semantic_view a = semantic_view b"
proof -
  have m: "map_of (semantic_entries a) = map_of (semantic_entries b)"
    using eq unfolding semantic_json_def by (rule json_object_map_of[OF _ semantic_entries_distinct semantic_entries_distinct])
  note l = semantic_lookup[of a, unfolded m semantic_lookup[of b]]
  have "ia_compatibility a = ia_compatibility b"
    using l(1) nf by (simp add: json_object_eq strings_eq sorted_sort_id normal_form_def)
  moreover have "ia_install a = ia_install b"
    using l(2) nf by (simp add: json_object_eq strings_eq sorted_sort_id normal_form_def)
  moreover have "ia_payload_digest a = ia_payload_digest b"
    using l(3) wf by (simp add: wf_index_artifact_def digest_str_inj)
  moreover have "ia_setup a = ia_setup b"
    using l(4) wf nf setup_json_eq[of "ia_setup a" "ia_setup b"] by (simp add: wf_index_artifact_def normal_form_def)
  moreover have "ia_requires_aart a = ia_requires_aart b"
    using l(5) wf by (simp add: wf_index_artifact_def bounds_json_eq split: if_splits)
  moreover have "ia_requires a = ia_requires b"
  proof -
    have "map selector_json (ia_requires a) = map selector_json (ia_requires b)"
      using l(6) by (auto split: if_splits)
    moreover have "inj_on selector_json (set (ia_requires a) \<union> set (ia_requires b))"
      using wf by (auto simp: inj_on_def wf_index_artifact_def list_all_iff selector_json_eq)
    ultimately show ?thesis by (simp add: inj_on_map_eq_map)
  qed
  ultimately show ?thesis by (simp add: semantic_view_def)
qed

text \<open>
  The semantic digest of a marketplace artifact binds what installing it means. Two artifacts
  with the same semantic digest have the same profiles, platforms, scopes, modes, effects, payload digest,
  setup, AART bounds and requirements, or the canonical bytes of their semantics are a
  collision of SHA-256.
\<close>

theorem semantic_digest_binds:
  assumes "wf_index_artifact a" and "wf_index_artifact b"
    and "marketplace_artifact s a = Inr m" and "marketplace_artifact t b = Inr n"
    and "ma_semantic_digest m = ma_semantic_digest n"
  shows "semantic_view (ma_artifact m) = semantic_view (ma_artifact n) \<or>
    (let v = canonical_json_bytes (semantic_json (ma_artifact m));
         w = canonical_json_bytes (semantic_json (ma_artifact n))
     in v \<noteq> w \<and> sha256_digest v = sha256_digest w)"
proof -
  let ?a = "normalize_artifact a" and ?b = "normalize_artifact b"
  have m: "ma_artifact m = ?a" "ma_semantic_digest m = json_digest (semantic_json ?a)"
    and n: "ma_artifact n = ?b" "ma_semantic_digest n = json_digest (semantic_json ?b)"
    using assms(3,4) by (auto simp: marketplace_artifact_def mk_marketplace_artifact_def py_ok Let_def)
  have "semantic_json ?a = semantic_json ?b \<Longrightarrow> semantic_view ?a = semantic_view ?b"
    by (rule semantic_json_eq) (simp_all add: assms normalize_wf normalize_normal_form)
  then show ?thesis
    using json_digest_eq[OF wf_semantic_json wf_semantic_json, of ?a ?b] assms(5) m n by (auto simp: Let_def)
qed

definition sample_artifact :: index_artifact where
  "sample_artifact =
     \<lparr>ia_source_id = SourceId ''org'', ia_identity = ArtifactIdentity ''skill'' ''a'',
      ia_version = \<lparr>sv_major = 1, sv_minor = 0, sv_patch = 0, sv_prerelease = [], sv_build = []\<rparr>,
      ia_summary = ''s'', ia_manifest_digest = sha256_bytes [1], ia_payload_digest = sha256_bytes [2],
      ia_object_digest = sha256_bytes [3],
      ia_compatibility = \<lparr>comp_profiles = [''p''], comp_platforms = [''linux'']\<rparr>,
      ia_install = \<lparr>inst_scopes = [''user''], inst_modes = [''copy''], inst_effects = [''copy-tree'']\<rparr>,
      ia_setup = None, ia_review = None, ia_provenance = None, ia_collections = [],
      ia_requires_aart = any_version, ia_requires = []\<rparr>"

definition sample_source :: graph_source where
  "sample_source =
     \<lparr>gs_alias = SourceAlias ''main'', gs_source_id = SourceId ''org'', gs_required_capabilities = [],
      gs_artifacts = [sample_artifact], gs_collections = []\<rparr>"

lemma sample_artifact_wf: "wf_index_artifact sample_artifact"
  by (simp add: sample_artifact_def wf_index_artifact_def wf_bounds_def any_version_def)

theorem semantic_digest_binds_witness:
  "\<exists>m. marketplace_artifact sample_source sample_artifact = Inr m \<and>
     (semantic_view (ma_artifact m) = semantic_view (ma_artifact m) \<or>
      (let v = canonical_json_bytes (semantic_json (ma_artifact m)) in v \<noteq> v))"
proof -
  obtain m where m: "marketplace_artifact sample_source sample_artifact = Inr m"
    by (simp add: marketplace_artifact_def mk_marketplace_artifact_def py_guard_def sample_source_def
        sample_artifact_def normalize_artifact_def Let_def)
  show ?thesis using semantic_digest_binds[OF sample_artifact_wf sample_artifact_wf m m refl] m by (auto simp: Let_def)
qed

end
