(* ===== verification/Collections.thy ===== *)
theory Collections
  imports Graph
begin

text \<open>
  Expansion of collections (\<open>_expand_collection_members\<close> and \<open>_compile_collections\<close> of
  \<open>agent_artifacts/compiler/graph.py\<close>): a depth-first walk over nested collections with a memo table
  and the path of collections being visited. The memo table is threaded through the calls,
  as the source mutates it. An expansion is specified by the inductive predicates
  \<open>expandable\<close> (every reference resolves and there is no cycle) and \<open>reaches\<close> (the artifacts a
  collection names, directly or through nested collections).
\<close>

type_synonym manifest_table = "(collection_coordinate \<times> collection_manifest) list"
type_synonym memo_table = "(collection_coordinate \<times> artifact_coordinate list) list"
type_synonym member_table = "(artifact_key \<times> artifact_coordinate) list"

definition invalid_graph :: "string \<Rightarrow> source_alias \<Rightarrow> 'a result" where
  "invalid_graph message alias = mk_err [graph_error MARKETPLACE_GRAPH_INVALID message alias]"

fun add_selected ::
  "collection_coordinate \<Rightarrow> artifact_table \<Rightarrow> artifact_selector list \<Rightarrow> member_table \<Rightarrow> member_table result" where
  "add_selected c artifacts [] members = Ok members"
| "add_selected c artifacts (selector # selectors) members =
     (let key = artifact_key (cc_source c) (sel_identity selector) in
      case dict_get artifacts key of
        None \<Rightarrow> invalid_graph (''collection '' @ collection_str c @ '' references missing ''
                  @ identity_str (sel_identity selector)) (cc_source c)
      | Some artifact \<Rightarrow>
          if (case sel_version selector of None \<Rightarrow> False
              | Some bounds \<Rightarrow> \<not> allows bounds (ia_version (ma_artifact artifact))) then
            invalid_graph (''collection '' @ collection_str c @ '' excludes available version of ''
              @ identity_str (sel_identity selector)) (cc_source c)
          else add_selected c artifacts selectors (dict_set key (ma_coordinate artifact) members))"

definition add_nested :: "artifact_coordinate list \<Rightarrow> member_table \<Rightarrow> member_table" where
  "add_nested items members =
     fold (\<lambda>item ms. dict_set (artifact_key (coord_source item) (coord_artifact item)) item ms) items members"

lemma unvisited_decreases:
  assumes "dict_get manifests c = Some m" "c \<notin> set visiting"
  shows "card (set (dict_keys manifests) - set (visiting @ [c])) < card (set (dict_keys manifests) - set visiting)"
proof (rule psubset_card_mono)
  have "c \<in> set (dict_keys manifests)" using assms(1) by (metis domI dom_map_of_conv_image_fst set_map)
  then show "set (dict_keys manifests) - set (visiting @ [c]) \<subset> set (dict_keys manifests) - set visiting"
    using assms(2) by auto
qed simp

function expand_collection_members ::
  "collection_coordinate \<Rightarrow> manifest_table \<Rightarrow> artifact_table \<Rightarrow> memo_table \<Rightarrow> collection_coordinate list
     \<Rightarrow> memo_table \<times> artifact_coordinate list result py"
and expand_nested ::
  "source_alias \<Rightarrow> string list \<Rightarrow> manifest_table \<Rightarrow> artifact_table \<Rightarrow> memo_table \<Rightarrow> collection_coordinate list
     \<Rightarrow> member_table \<Rightarrow> memo_table \<times> member_table result py" where
  "expand_collection_members c manifests artifacts memo visiting =
     (case dict_get memo c of
        Some cached \<Rightarrow> (memo, Inr (Ok cached))
      | None \<Rightarrow>
          if c \<in> set visiting then
            (memo, Inr (invalid_graph (''collection cycle: ''
               @ join '' -> '' (map collection_str (visiting @ [c]))) (cc_source c)))
          else (case dict_get manifests c of
              None \<Rightarrow> (memo, Inr (invalid_graph (''missing collection: '' @ collection_str c) (cc_source c)))
            | Some manifest \<Rightarrow>
                (case add_selected c artifacts (cm_artifacts manifest) [] of
                   Err ds \<Rightarrow> (memo, Inr (Err ds))
                 | Ok members \<Rightarrow>
                     (case expand_nested (cc_source c) (cm_collections manifest) manifests artifacts memo
                             (visiting @ [c]) members of
                        (memo', Inl e) \<Rightarrow> (memo', Inl e)
                      | (memo', Inr (Err ds)) \<Rightarrow> (memo', Inr (Err ds))
                      | (memo', Inr (Ok members')) \<Rightarrow>
                          (let expanded = sort_key artifact_sort_key (dict_values members')
                           in (dict_set c expanded memo', Inr (Ok expanded)))))))"
| "expand_nested source [] manifests artifacts memo visiting members = (memo, Inr (Ok members))"
| "expand_nested source (name # names) manifests artifacts memo visiting members =
     (case mk_collection_coordinate source name of
        Inl e \<Rightarrow> (memo, Inl e)
      | Inr nested \<Rightarrow>
          (case expand_collection_members nested manifests artifacts memo visiting of
             (memo', Inl e) \<Rightarrow> (memo', Inl e)
           | (memo', Inr (Err ds)) \<Rightarrow> (memo', Inr (Err ds))
           | (memo', Inr (Ok items)) \<Rightarrow>
               expand_nested source names manifests artifacts memo' visiting (add_nested items members)))"
  by pat_completeness auto

termination
  by (relation "inv_image (less_than <*lex*> less_than)
      (\<lambda>x. case x of
         Inl (c, manifests, artifacts, memo, visiting) \<Rightarrow> (card (set (dict_keys manifests) - set visiting), 0)
       | Inr (source, names, manifests, artifacts, memo, visiting, members) \<Rightarrow>
           (card (set (dict_keys manifests) - set visiting), Suc (length names)))")
    (auto dest: unvisited_decreases)

declare expand_collection_members.simps [simp del] expand_nested.simps [simp del]

fun collect_manifests ::
  "source_alias \<Rightarrow> collection_manifest list \<Rightarrow> manifest_table \<times> diagnostic list
     \<Rightarrow> (manifest_table \<times> diagnostic list) py" where
  "collect_manifests alias [] st = Inr st"
| "collect_manifests alias (manifest # rest) (manifests, diagnostics) =
     (case mk_collection_coordinate alias (cm_name manifest) of
        Inl e \<Rightarrow> Inl e
      | Inr c \<Rightarrow>
          collect_manifests alias rest
            (if c \<in> set (dict_keys manifests) then
               (manifests, diagnostics @ [graph_error MARKETPLACE_GRAPH_INVALID
                  (''duplicate collection: '' @ collection_str c) alias])
             else (dict_set c manifest manifests, diagnostics)))"

fun collect_source_manifests ::
  "graph_source list \<Rightarrow> manifest_table \<times> diagnostic list \<Rightarrow> (manifest_table \<times> diagnostic list) py" where
  "collect_source_manifests [] st = Inr st"
| "collect_source_manifests (source # sources) st =
     (case collect_manifests (gs_alias source) (gs_collections source) st of
        Inl e \<Rightarrow> Inl e | Inr st' \<Rightarrow> collect_source_manifests sources st')"

fun compile_each ::
  "collection_coordinate list \<Rightarrow> manifest_table \<Rightarrow> artifact_table \<Rightarrow> memo_table \<Rightarrow> marketplace_collection list
     \<Rightarrow> marketplace_collection list result py" where
  "compile_each [] manifests artifacts memo compiled = Inr (Ok compiled)"
| "compile_each (c # cs) manifests artifacts memo compiled =
     (case expand_collection_members c manifests artifacts memo [] of
        (memo', Inl e) \<Rightarrow> Inl e
      | (memo', Inr (Err ds)) \<Rightarrow> Inr (Err ds)
      | (memo', Inr (Ok members)) \<Rightarrow>
          (case dict_get manifests c of
             None \<Rightarrow> Inl (KeyError (collection_str c))
           | Some manifest \<Rightarrow>
               (case mk_marketplace_collection c (cm_summary manifest) members of
                  Inl e \<Rightarrow> Inl e
                | Inr collection \<Rightarrow> compile_each cs manifests artifacts memo' (compiled @ [collection]))))"

definition compile_collections ::
  "graph_source list \<Rightarrow> artifact_table \<Rightarrow> marketplace_collection list result py" where
  "compile_collections sources artifacts =
     (case collect_source_manifests sources ([], []) of
        Inl e \<Rightarrow> Inl e
      | Inr (manifests, diagnostics) \<Rightarrow>
          if diagnostics \<noteq> [] then Inr (mk_err diagnostics)
          else compile_each (sort (dict_keys manifests)) manifests artifacts [] [])"

subsection \<open>Specification\<close>

definition nested_in :: "manifest_table \<Rightarrow> collection_coordinate \<Rightarrow> collection_coordinate \<Rightarrow> bool" where
  "nested_in M c c' \<longleftrightarrow> (\<exists>manifest name. dict_get M c = Some manifest \<and> name \<in> set (cm_collections manifest)
     \<and> c' = CollectionCoordinate (cc_source c) name)"

inductive reaches :: "manifest_table \<Rightarrow> collection_coordinate \<Rightarrow> artifact_key \<Rightarrow> bool" for M where
  direct: "dict_get M c = Some manifest \<Longrightarrow> s \<in> set (cm_artifacts manifest) \<Longrightarrow>
     reaches M c (artifact_key (cc_source c) (sel_identity s))"
| through: "nested_in M c c' \<Longrightarrow> reaches M c' k \<Longrightarrow> reaches M c k"

definition selector_ok :: "artifact_table \<Rightarrow> collection_coordinate \<Rightarrow> artifact_selector \<Rightarrow> bool" where
  "selector_ok A c s \<longleftrightarrow> (\<exists>m. dict_get A (artifact_key (cc_source c) (sel_identity s)) = Some m
     \<and> (\<forall>b. sel_version s = Some b \<longrightarrow> allows b (ia_version (ma_artifact m))))"

inductive expandable :: "manifest_table \<Rightarrow> artifact_table \<Rightarrow> collection_coordinate \<Rightarrow> bool" for M A where
  expandableI: "dict_get M c = Some manifest \<Longrightarrow> \<forall>s \<in> set (cm_artifacts manifest). selector_ok A c s \<Longrightarrow>
     (\<And>name. name \<in> set (cm_collections manifest) \<Longrightarrow> name \<noteq> []) \<Longrightarrow>
     (\<And>name. name \<in> set (cm_collections manifest) \<Longrightarrow> expandable M A (CollectionCoordinate (cc_source c) name)) \<Longrightarrow>
     expandable M A c"

inductive_cases reaches_cases: "reaches M c k"
inductive_cases expandable_cases: "expandable M A c"

definition coordinates_of :: "artifact_table \<Rightarrow> artifact_key set \<Rightarrow> artifact_coordinate set" where
  "coordinates_of A K = {ma_coordinate m | k m. k \<in> K \<and> dict_get A k = Some m}"

definition is_expansion ::
  "manifest_table \<Rightarrow> artifact_table \<Rightarrow> collection_coordinate \<Rightarrow> artifact_coordinate list \<Rightarrow> bool" where
  "is_expansion M A c xs \<longleftrightarrow> sorted (map artifact_sort_key xs) \<and> distinct xs
     \<and> set xs = coordinates_of A {k. reaches M c k}"

text \<open>The table of compiled artifacts maps each key to the artifact it identifies.\<close>

definition table_ok :: "artifact_table \<Rightarrow> bool" where
  "table_ok A \<longleftrightarrow> (\<forall>k m. dict_get A k = Some m \<longrightarrow> ma_key m = k)"

definition memo_ok :: "manifest_table \<Rightarrow> artifact_table \<Rightarrow> memo_table \<Rightarrow> bool" where
  "memo_ok M A memo \<longleftrightarrow> (\<forall>c xs. dict_get memo c = Some xs \<longrightarrow> expandable M A c \<and> is_expansion M A c xs)"

definition members_ok :: "artifact_table \<Rightarrow> artifact_key set \<Rightarrow> member_table \<Rightarrow> bool" where
  "members_ok A K members \<longleftrightarrow> distinct (dict_keys members) \<and> K = set (dict_keys members)
     \<and> (\<forall>k x. dict_get members k = Some x \<longrightarrow> (\<exists>m. dict_get A k = Some m \<and> x = ma_coordinate m))"

subsection \<open>Members\<close>

declare split_paired_All [simp del] split_paired_Ex [simp del]

lemma members_ok_set:
  assumes "members_ok A K ms" "dict_get A k = Some m"
  shows "members_ok A (insert k K) (dict_set k (ma_coordinate m) ms)"
  using assms
  by (auto simp: members_ok_def update_conv' distinct_update dom_update split: if_splits)

lemma table_okD: "table_ok A \<Longrightarrow> dict_get A k = Some m \<Longrightarrow> ma_key m = k"
  unfolding table_ok_def by blast

lemma members_okD: "members_ok A K ms \<Longrightarrow> (k, x) \<in> set ms \<Longrightarrow> \<exists>m. dict_get A k = Some m \<and> x = ma_coordinate m"
  unfolding members_ok_def by (metis map_of_is_SomeI)

lemma nested_inD:
  "nested_in M c c' \<Longrightarrow> dict_get M c = Some manifest \<Longrightarrow>
     \<exists>name \<in> set (cm_collections manifest). c' = CollectionCoordinate (cc_source c) name"
  by (auto simp: nested_in_def)

lemma add_selected_sound:
  "add_selected c A sels ms = Ok ms' \<Longrightarrow> members_ok A K ms \<Longrightarrow>
     (\<forall>s \<in> set sels. selector_ok A c s)
     \<and> members_ok A (K \<union> (\<lambda>s. artifact_key (cc_source c) (sel_identity s)) ` set sels) ms'"
proof (induction sels arbitrary: ms K)
  case (Cons s sels)
  let ?k = "artifact_key (cc_source c) (sel_identity s)"
  obtain m where m: "dict_get A ?k = Some m" "\<forall>b. sel_version s = Some b \<longrightarrow> allows b (ia_version (ma_artifact m))"
    and rest: "add_selected c A sels (dict_set ?k (ma_coordinate m) ms) = Ok ms'"
    using Cons.prems(1) by (auto simp: Let_def invalid_graph_def mk_err_def split: option.splits if_splits)
  have "members_ok A (insert ?k K) (dict_set ?k (ma_coordinate m) ms)"
    using Cons.prems(2) m(1) by (rule members_ok_set)
  from Cons.IH[OF rest this] m show ?case by (auto simp: selector_ok_def)
qed simp

lemma add_selected_complete:
  "\<forall>s \<in> set sels. selector_ok A c s \<Longrightarrow> \<exists>ms'. add_selected c A sels ms = Ok ms'"
proof (induction sels arbitrary: ms)
  case (Cons s sels)
  then obtain m where m: "dict_get A (artifact_key (cc_source c) (sel_identity s)) = Some m"
    "\<forall>b. sel_version s = Some b \<longrightarrow> allows b (ia_version (ma_artifact m))"
    by (auto simp: selector_ok_def)
  then show ?case using Cons.IH Cons.prems by (auto simp: Let_def split: option.splits)
qed simp

lemma ma_coordinate_key:
  "artifact_key (coord_source (ma_coordinate m)) (coord_artifact (ma_coordinate m)) = ma_key m"
  by (simp add: ma_coordinate_def ma_key_def)

lemma add_nested_ok:
  assumes "table_ok A" "members_ok A K ms" "set items \<subseteq> coordinates_of A K'"
  shows "members_ok A (K \<union> {k. \<exists>m. dict_get A k = Some m \<and> ma_coordinate m \<in> set items}) (add_nested items ms)"
  using assms(2,3)
proof (induction items arbitrary: ms K)
  case (Cons i items)
  then obtain k m where m: "dict_get A k = Some m" "i = ma_coordinate m" by (auto simp: coordinates_of_def)
  have k: "artifact_key (coord_source i) (coord_artifact i) = k"
    using table_okD[OF assms(1) m(1)] m(2) by (simp add: ma_coordinate_key)
  have same: "k' = k" if "dict_get A k' = Some m'" "ma_coordinate m' = i" for k' m'
    using table_okD[OF assms(1) that(1)] that(2) k ma_coordinate_key[of m'] by simp
  have "members_ok A (insert k K) (dict_set k i ms)" using members_ok_set[OF Cons.prems(1) m(1)] m(2) by simp
  from Cons.IH[OF this] Cons.prems(2)
  have "members_ok A (insert k K \<union> {k. \<exists>m. dict_get A k = Some m \<and> ma_coordinate m \<in> set items}) (add_nested items (dict_set k i ms))"
    by simp
  moreover have "insert k K \<union> {k. \<exists>m. dict_get A k = Some m \<and> ma_coordinate m \<in> set items} =
      K \<union> {k. \<exists>m. dict_get A k = Some m \<and> ma_coordinate m \<in> set (i # items)}"
  proof (intro set_eqI iffI)
    fix j assume "j \<in> insert k K \<union> {k. \<exists>m. dict_get A k = Some m \<and> ma_coordinate m \<in> set items}"
    then show "j \<in> K \<union> {k. \<exists>m. dict_get A k = Some m \<and> ma_coordinate m \<in> set (i # items)}"
      using m by (elim UnE insertE CollectE exE conjE) auto
  next
    fix j assume "j \<in> K \<union> {k. \<exists>m. dict_get A k = Some m \<and> ma_coordinate m \<in> set (i # items)}"
    then consider "j \<in> K" | m' where "dict_get A j = Some m'" "ma_coordinate m' = i"
      | m' where "dict_get A j = Some m'" "ma_coordinate m' \<in> set items" by auto
    then show "j \<in> insert k K \<union> {k. \<exists>m. dict_get A k = Some m \<and> ma_coordinate m \<in> set items}"
      by cases (use same in blast)+
  qed
  ultimately show ?case using k by (simp add: add_nested_def)
qed (simp add: add_nested_def)

lemma members_values:
  assumes "table_ok A" "members_ok A K ms"
  shows "set (dict_values ms) = coordinates_of A K" "distinct (dict_values ms)"
proof -
  have val: "\<exists>m. dict_get A k = Some m \<and> x = ma_coordinate m" if "(k, x) \<in> set ms" for k x
    using members_okD[OF assms(2) that] .
  show "set (dict_values ms) = coordinates_of A K"
  proof (intro set_eqI iffI)
    fix x assume "x \<in> set (dict_values ms)"
    then obtain k where k: "(k, x) \<in> set ms" by auto
    then have "k \<in> K" using assms(2) unfolding members_ok_def by (metis fst_conv imageI set_map)
    with val[OF k] show "x \<in> coordinates_of A K" unfolding coordinates_of_def by blast
  next
    fix x assume "x \<in> coordinates_of A K"
    then obtain k m where k: "k \<in> K" "dict_get A k = Some m" "x = ma_coordinate m" by (auto simp: coordinates_of_def)
    then obtain y where y: "(k, y) \<in> set ms" using assms(2) by (auto simp: members_ok_def)
    with val[OF y] k show "x \<in> set (dict_values ms)" by force
  qed
  have "inj_on snd (set ms)"
  proof (rule inj_onI)
    fix p q assume p: "p \<in> set ms" "q \<in> set ms" "snd p = snd q"
    have "fst p' = artifact_key (coord_source (snd p')) (coord_artifact (snd p'))" if p': "p' \<in> set ms" for p'
    proof -
      obtain m where m: "dict_get A (fst p') = Some m" "snd p' = ma_coordinate m"
        using val[of "fst p'" "snd p'"] p' by auto
      then show ?thesis using table_okD[OF assms(1) m(1)] ma_coordinate_key[of m] by simp
    qed
    then show "p = q" using p by (metis prod_eqI)
  qed
  moreover have "distinct ms" using assms(2) by (simp add: members_ok_def distinct_map)
  ultimately show "distinct (dict_values ms)" by (simp add: distinct_map)
qed

lemma expandable_reaches_dom:
  "expandable M A c \<Longrightarrow> reaches M c k \<Longrightarrow> \<exists>m. dict_get A k = Some m"
proof (induction arbitrary: k rule: expandable.induct)
  case (expandableI c manifest)
  from expandableI.prems show ?case
  proof (cases rule: reaches.cases)
    case (direct manifest' s)
    then show ?thesis using expandableI.hyps(1,2) by (auto simp: selector_ok_def)
  next
    case (through c')
    then show ?thesis using nested_inD[OF through(1) expandableI.hyps(1)] expandableI.IH by blast
  qed
qed

lemma expandable_acyclic: "expandable M A c \<Longrightarrow> \<not> (nested_in M)\<^sup>+\<^sup>+ c c"
proof (induction rule: expandable.induct)
  case (expandableI c manifest)
  show ?case
  proof
    assume "(nested_in M)\<^sup>+\<^sup>+ c c"
    then obtain c' where c': "nested_in M c c'" "(nested_in M)\<^sup>*\<^sup>* c' c" by (metis tranclpD)
    then have "(nested_in M)\<^sup>+\<^sup>+ c' c'" by (metis rtranclp_into_tranclp1)
    then show False using nested_inD[OF c'(1) expandableI.hyps(1)] expandableI.IH by blast
  qed
qed

lemma reaches_step:
  assumes "dict_get M c = Some manifest"
  shows "{k. reaches M c k} = (\<lambda>s. artifact_key (cc_source c) (sel_identity s)) ` set (cm_artifacts manifest)
    \<union> {k. \<exists>name \<in> set (cm_collections manifest). reaches M (CollectionCoordinate (cc_source c) name) k}"
proof (intro set_eqI iffI; clarsimp)
  fix a b assume "reaches M c (a, b)" and no: "\<forall>name\<in>set (cm_collections manifest).
      \<not> reaches M (CollectionCoordinate (cc_source c) name) (a, b)"
  then show "(a, b) \<in> (\<lambda>s. artifact_key (cc_source c) (sel_identity s)) ` set (cm_artifacts manifest)"
    using assms nested_inD by (cases rule: reaches.cases) (auto, blast)
next
  fix a b
  show "(a, b) \<in> (\<lambda>s. artifact_key (cc_source c) (sel_identity s)) ` set (cm_artifacts manifest) \<or>
      (\<exists>name \<in> set (cm_collections manifest). reaches M (CollectionCoordinate (cc_source c) name) (a, b)) \<Longrightarrow>
      reaches M c (a, b)"
    using assms reaches.direct[OF assms] reaches.through[of M c] by (fastforce simp: nested_in_def)
qed


subsection \<open>The walk computes the expansion\<close>

text \<open>The contract of the two mutually recursive functions: what they return is right, and the memo table stays right.\<close>

definition expand_post ::
  "manifest_table \<Rightarrow> artifact_table \<Rightarrow> collection_coordinate \<Rightarrow> memo_table \<times> artifact_coordinate list result py \<Rightarrow> bool" where
  "expand_post M A c r \<longleftrightarrow> memo_ok M A (fst r)
     \<and> (\<forall>xs. snd r = Inr (Ok xs) \<longrightarrow> expandable M A c \<and> is_expansion M A c xs)"

definition nested_keys :: "manifest_table \<Rightarrow> source_alias \<Rightarrow> string list \<Rightarrow> artifact_key set" where
  "nested_keys M source names = {k. \<exists>name \<in> set names. reaches M (CollectionCoordinate source name) k}"

definition nested_post ::
  "manifest_table \<Rightarrow> artifact_table \<Rightarrow> source_alias \<Rightarrow> string list \<Rightarrow> artifact_key set
     \<Rightarrow> memo_table \<times> member_table result py \<Rightarrow> bool" where
  "nested_post M A source names K r \<longleftrightarrow> memo_ok M A (fst r)
     \<and> (\<forall>ms. snd r = Inr (Ok ms) \<longrightarrow> members_ok A (K \<union> nested_keys M source names) ms
        \<and> (\<forall>name \<in> set names. name \<noteq> [] \<and> expandable M A (CollectionCoordinate source name)))"

lemma memo_ok_set:
  "memo_ok M A memo \<Longrightarrow> expandable M A c \<Longrightarrow> is_expansion M A c xs \<Longrightarrow> memo_ok M A (dict_set c xs memo)"
  by (auto simp: memo_ok_def update_conv')

lemma members_expansion:
  assumes "table_ok A" "members_ok A {k. reaches M c k} ms"
  shows "is_expansion M A c (sort_key artifact_sort_key (dict_values ms))"
  using members_values[OF assms] by (simp add: is_expansion_def)

lemma expandable_of_members:
  assumes "dict_get M c = Some manifest" "\<forall>s \<in> set (cm_artifacts manifest). selector_ok A c s"
    "\<forall>name \<in> set (cm_collections manifest). name \<noteq> [] \<and> expandable M A (CollectionCoordinate (cc_source c) name)"
  shows "expandable M A c"
  by (rule expandableI) (use assms in auto)

lemma mk_collection_coordinate_Inr:
  "mk_collection_coordinate s n = Inr c \<longleftrightarrow> alias_value s \<noteq> [] \<and> n \<noteq> [] \<and> c = CollectionCoordinate s n"
  by (auto simp: mk_collection_coordinate_def py_ok)

lemma expansion_nested_ok:
  assumes "table_ok A" "members_ok A K ms" "expandable M A c" "is_expansion M A c items"
  shows "members_ok A (K \<union> {k. reaches M c k}) (add_nested items ms)"
proof -
  have items: "set items = coordinates_of A {k. reaches M c k}" using assms(4) by (simp add: is_expansion_def)
  have "{k. \<exists>m. dict_get A k = Some m \<and> ma_coordinate m \<in> set items} = {k. reaches M c k}"
  proof (intro set_eqI iffI; simp only: mem_Collect_eq)
    fix k assume "\<exists>m. dict_get A k = Some m \<and> ma_coordinate m \<in> set items"
    then obtain m k' m' where m: "dict_get A k = Some m" and k': "reaches M c k'" "dict_get A k' = Some m'"
      "ma_coordinate m = ma_coordinate m'"
      unfolding items coordinates_of_def by blast
    have "k = k'"
      using table_okD[OF assms(1) m] table_okD[OF assms(1) k'(2)] ma_coordinate_key[of m] ma_coordinate_key[of m'] k'(3)
      by simp
    then show "reaches M c k" using k'(1) by simp
  next
    fix k assume k: "reaches M c k"
    then obtain m where "dict_get A k = Some m" using expandable_reaches_dom[OF assms(3)] by blast
    then show "\<exists>m. dict_get A k = Some m \<and> ma_coordinate m \<in> set items"
      using k unfolding items coordinates_of_def by blast
  qed
  then show ?thesis using add_nested_ok[OF assms(1,2), of items "{k. reaches M c k}"] items by simp
qed

lemma nested_keys_Cons:
  "nested_keys M s (n # ns) = {k. reaches M (CollectionCoordinate s n) k} \<union> nested_keys M s ns"
  by (auto simp: nested_keys_def)

lemma expand_sound:
  "table_ok A \<Longrightarrow> memo_ok M A memo \<Longrightarrow> expand_post M A c (expand_collection_members c M A memo visiting)"
  "table_ok A \<Longrightarrow> memo_ok M A memo \<Longrightarrow> members_ok A K ms \<Longrightarrow>
     nested_post M A source names K (expand_nested source names M A memo visiting ms)"
proof (induction c M A memo visiting and source names M A memo visiting ms arbitrary: and K
    rule: expand_collection_members_expand_nested.induct)
  case (1 c M A memo visiting)
  note memo = 1(3) and IH = 1(1)
  have failed: "expand_post M A c (memo, Inr (invalid_graph m a))" "expand_post M A c (memo, Inr (Err ds))" for m a ds
    using memo by (simp_all add: expand_post_def invalid_graph_def mk_err_def)
  show ?case
  proof (cases "dict_get memo c")
    case (Some xs)
    then show ?thesis using memo by (auto simp: expand_collection_members.simps expand_post_def memo_ok_def)
  next
    case None
    show ?thesis
    proof (cases "c \<in> set visiting \<or> dict_get M c = None")
      case True
      then show ?thesis using None failed by (auto simp: expand_collection_members.simps)
    next
      case False
      then obtain manifest where M: "c \<notin> set visiting" "dict_get M c = Some manifest" by auto
      show ?thesis
      proof (cases "add_selected c A (cm_artifacts manifest) []")
        case (Err ds)
        then show ?thesis using None M failed by (simp add: expand_collection_members.simps)
      next
        case (Ok members)
        let ?K = "(\<lambda>s. artifact_key (cc_source c) (sel_identity s)) ` set (cm_artifacts manifest)"
        have sel: "\<forall>s \<in> set (cm_artifacts manifest). selector_ok A c s" and mem: "members_ok A ?K members"
          using add_selected_sound[OF Ok, of "{}"] by (simp_all add: members_ok_def)
        obtain memo' res where r: "expand_nested (cc_source c) (cm_collections manifest) M A memo (visiting @ [c]) members
            = (memo', res)" by fastforce
        have post: "nested_post M A (cc_source c) (cm_collections manifest) ?K (memo', res)"
          using IH[OF None M Ok 1(2) memo mem] r by simp
        have "?K \<union> nested_keys M (cc_source c) (cm_collections manifest) = {k. reaches M c k}"
          unfolding reaches_step[OF M(2)] nested_keys_def ..
        then have good: "expandable M A c \<and> is_expansion M A c (sort_key artifact_sort_key (dict_values ms))"
          if "res = Inr (Ok ms)" for ms
          using post that expandable_of_members[OF M(2) sel] members_expansion[OF 1(2), of M c ms]
          by (auto simp: nested_post_def)
        have memo': "memo_ok M A memo'" using post by (simp add: nested_post_def)
        show ?thesis
          using None M Ok r good memo' memo_ok_set[OF memo']
          by (auto simp: expand_collection_members.simps expand_post_def Let_def split: sum.split result.split)
      qed
    qed
  qed
next
  case (2 source M A memo visiting ms)
  then show ?case by (simp add: expand_nested.simps nested_post_def nested_keys_def)
next
  case (3 source name names M A memo visiting ms)
  show ?case
  proof (cases "mk_collection_coordinate source name")
    case (Inl e)
    then show ?thesis using 3(4) by (simp add: expand_nested.simps nested_post_def)
  next
    case (Inr c)
    then have c: "name \<noteq> []" "c = CollectionCoordinate source name" by (simp_all add: mk_collection_coordinate_Inr)
    obtain memo' res where r: "expand_collection_members c M A memo visiting = (memo', res)" by fastforce
    have post: "expand_post M A c (memo', res)" using 3(1)[OF Inr 3(3,4)] r by simp
    then have memo': "memo_ok M A memo'" by (simp add: expand_post_def)
    show ?thesis
    proof (cases "\<exists>items. res = Inr (Ok items)")
      case True
      then obtain items where items: "res = Inr (Ok items)" by blast
      then have exp: "expandable M A c" "is_expansion M A c items" using post by (simp_all add: expand_post_def)
      have "members_ok A (K \<union> {k. reaches M c k}) (add_nested items ms)"
        using 3(3,5) exp by (rule expansion_nested_ok)
      from 3(2)[OF Inr r[symmetric] items refl 3(3) memo' this]
      have "nested_post M A source names (K \<union> {k. reaches M c k})
          (expand_nested source names M A memo' visiting (add_nested items ms))" .
      then show ?thesis
        using Inr r items c exp(1)
        by (auto simp: expand_nested.simps nested_post_def nested_keys_Cons Un_assoc)
    next
      case False
      then show ?thesis using Inr r memo'
        by (auto simp: expand_nested.simps nested_post_def split: sum.split result.split)
    qed
  qed
qed

text \<open>
  Conversely an expandable collection is expanded: a collection on the path of the walk contains the
  one at hand, so a cycle is reported only when there is one.
\<close>

lemma expand_complete:
  "table_ok A \<Longrightarrow> memo_ok M A memo \<Longrightarrow> expandable M A c \<Longrightarrow> alias_value (cc_source c) \<noteq> [] \<Longrightarrow>
     \<forall>v \<in> set visiting. (nested_in M)\<^sup>+\<^sup>+ v c \<Longrightarrow>
     \<exists>memo' xs. expand_collection_members c M A memo visiting = (memo', Inr (Ok xs))"
  "table_ok A \<Longrightarrow> memo_ok M A memo \<Longrightarrow> alias_value source \<noteq> [] \<Longrightarrow>
     \<forall>name \<in> set names. name \<noteq> [] \<and> expandable M A (CollectionCoordinate source name)
       \<and> (\<forall>v \<in> set visiting. (nested_in M)\<^sup>+\<^sup>+ v (CollectionCoordinate source name)) \<Longrightarrow>
     \<exists>memo' ms'. expand_nested source names M A memo visiting ms = (memo', Inr (Ok ms'))"
proof (induction c M A memo visiting and source names M A memo visiting ms
    rule: expand_collection_members_expand_nested.induct)
  case (1 c M A memo visiting)
  note IH = 1(1) and exp = 1(4) and path = 1(6)
  show ?case
  proof (cases "dict_get memo c")
    case (Some xs)
    then show ?thesis by (simp add: expand_collection_members.simps)
  next
    case None
    have fresh: "c \<notin> set visiting" using path expandable_acyclic[OF exp] by blast
    from exp obtain manifest where M: "dict_get M c = Some manifest"
      "\<forall>s \<in> set (cm_artifacts manifest). selector_ok A c s"
      "\<forall>name \<in> set (cm_collections manifest). name \<noteq> [] \<and> expandable M A (CollectionCoordinate (cc_source c) name)"
      by (auto elim: expandable_cases)
    obtain members where sel: "add_selected c A (cm_artifacts manifest) [] = Ok members"
      using add_selected_complete[OF M(2)] by blast
    have step: "nested_in M c (CollectionCoordinate (cc_source c) name)" if "name \<in> set (cm_collections manifest)" for name
      using that M(1) by (auto simp: nested_in_def)
    have "\<exists>memo' ms'. expand_nested (cc_source c) (cm_collections manifest) M A memo (visiting @ [c]) members =
        (memo', Inr (Ok ms'))"
      using M(3) path step by (intro IH[OF None fresh M(1) sel 1(2,3,5)]) (auto intro: tranclp.intros)
    then show ?thesis using None fresh M(1) sel by (auto simp: expand_collection_members.simps Let_def)
  qed
next
  case (2 source M A memo visiting ms)
  then show ?case by (simp add: expand_nested.simps)
next
  case (3 source name names M A memo visiting ms)
  let ?c = "CollectionCoordinate source name"
  have c: "mk_collection_coordinate source name = Inr ?c" using 3(5,6) by (simp add: mk_collection_coordinate_Inr)
  obtain memo' xs where r: "expand_collection_members ?c M A memo visiting = (memo', Inr (Ok xs))"
    using 3(1)[OF c 3(3,4)] 3(5,6) by auto
  have "memo_ok M A memo'" using expand_sound(1)[OF 3(3,4), of ?c visiting] r by (simp add: expand_post_def)
  then have "\<exists>memo'' ms'. expand_nested source names M A memo' visiting (add_nested xs ms) = (memo'', Inr (Ok ms'))"
    using 3(6) by (intro 3(2)[OF c r[symmetric] refl refl 3(3) _ 3(5)]) auto
  then show ?case using c r by (auto simp: expand_nested.simps)
qed

text \<open>
  C21. The memoised walk computes the expansion. From an empty memo table it succeeds exactly for
  the collections whose references all resolve, whose version bounds all hold and which reach no cycle,
  and then returns the coordinates of exactly the artifacts the collection
  names, directly or through nested collections, each once and in the canonical order. The walk always
  ends (it is a total function), on cyclic manifests too.
\<close>

theorem expand_collection_exact:
  assumes "table_ok artifacts" and "alias_value (cc_source c) \<noteq> []"
  shows "((\<exists>memo xs. expand_collection_members c manifests artifacts [] [] = (memo, Inr (Ok xs)))
      \<longleftrightarrow> expandable manifests artifacts c)
    \<and> (\<forall>memo xs. expand_collection_members c manifests artifacts [] [] = (memo, Inr (Ok xs)) \<longrightarrow>
        set xs = {ma_coordinate m | k m. reaches manifests c k \<and> dict_get artifacts k = Some m}
        \<and> distinct xs \<and> sorted (map artifact_sort_key xs))"
proof -
  have memo: "memo_ok manifests artifacts []" by (simp add: memo_ok_def)
  have "expand_post manifests artifacts c (expand_collection_members c manifests artifacts [] [])"
    by (rule expand_sound(1)[OF assms(1) memo])
  then have sound: "expandable manifests artifacts c \<and> is_expansion manifests artifacts c xs"
    if "expand_collection_members c manifests artifacts [] [] = (memo, Inr (Ok xs))" for memo xs
    using that by (simp add: expand_post_def)
  have "\<exists>memo xs. expand_collection_members c manifests artifacts [] [] = (memo, Inr (Ok xs))"
    if "expandable manifests artifacts c"
    using expand_complete(1)[OF assms(1) memo that assms(2), of "[]"] by simp
  then show ?thesis using sound by (auto simp: is_expansion_def coordinates_of_def)
qed

subsection \<open>Compiled collections\<close>

lemma collect_manifests_ok:
  "collect_manifests alias ms (M, ds) = Inr (M', ds') \<Longrightarrow> distinct (dict_keys M) \<Longrightarrow>
     distinct (dict_keys M') \<and> (\<exists>es. ds' = ds @ es) \<and> (\<forall>c \<in> set (dict_keys M') - set (dict_keys M). cc_source c = alias \<and> alias_value alias \<noteq> [])
     \<and> (ds' = ds \<longrightarrow> dict_keys M' = dict_keys M @ map (\<lambda>m. CollectionCoordinate alias (cm_name m)) ms)"
proof (induction ms arbitrary: M ds)
  case (Cons m ms)
  then obtain c where c: "mk_collection_coordinate alias (cm_name m) = Inr c" by (auto split: sum.splits)
  then have ce: "c = CollectionCoordinate alias (cm_name m)" "alias_value alias \<noteq> []"
    by (simp_all add: mk_collection_coordinate_Inr)
  show ?case
  proof (cases "c \<in> set (dict_keys M)")
    case True
    let ?e = "graph_error MARKETPLACE_GRAPH_INVALID (''duplicate collection: '' @ collection_str c) alias"
    have "collect_manifests alias ms (M, ds @ [?e]) = Inr (M', ds')" using Cons.prems(1) c True by (simp del: set_map)
    from Cons.IH[OF this Cons.prems(2)] show ?thesis by auto
  next
    case False
    have "collect_manifests alias ms (M @ [(c, m)], ds) = Inr (M', ds')"
      using Cons.prems(1) c False by (simp add: dict_set_fresh del: set_map)
    from Cons.IH[OF this] False Cons.prems(2) ce show ?thesis by auto
  qed
qed simp

lemma collect_source_manifests_ok:
  "collect_source_manifests sources (M, ds) = Inr (M', ds') \<Longrightarrow> distinct (dict_keys M) \<Longrightarrow>
   (\<forall>c \<in> set (dict_keys M). alias_value (cc_source c) \<noteq> []) \<Longrightarrow>
     distinct (dict_keys M') \<and> (\<exists>es. ds' = ds @ es) \<and> (\<forall>c \<in> set (dict_keys M'). alias_value (cc_source c) \<noteq> [])
     \<and> (ds' = ds \<longrightarrow> dict_keys M' = dict_keys M @
          concat (map (\<lambda>s. map (\<lambda>m. CollectionCoordinate (gs_alias s) (cm_name m)) (gs_collections s)) sources))"
proof (induction sources arbitrary: M ds)
  case (Cons s sources)
  then obtain M1 ds1 where s: "collect_manifests (gs_alias s) (gs_collections s) (M, ds) = Inr (M1, ds1)"
    and rest: "collect_source_manifests sources (M1, ds1) = Inr (M', ds')"
    by (auto split: sum.splits)
  note one = collect_manifests_ok[OF s Cons.prems(2)]
  have al: "\<forall>c \<in> set (dict_keys M1). alias_value (cc_source c) \<noteq> []"
    using one Cons.prems(3) by (metis Diff_iff)
  note more = Cons.IH[OF rest _ al]
  show ?case using one more by auto
qed simp

definition collection_ok ::
  "manifest_table \<Rightarrow> artifact_table \<Rightarrow> marketplace_collection \<Rightarrow> bool" where
  "collection_ok M A mc \<longleftrightarrow>
     (\<exists>manifest. dict_get M (mc_coordinate mc) = Some manifest \<and> mc_summary mc = cm_summary manifest)
     \<and> expandable M A (mc_coordinate mc) \<and> is_expansion M A (mc_coordinate mc) (mc_members mc)"

lemma expansion_source:
  assumes "table_ok A" "is_expansion M A c xs" "x \<in> set xs"
  shows "coord_source x = cc_source c"
proof -
  obtain k m where k: "reaches M c k" "dict_get A k = Some m" "x = ma_coordinate m"
    using assms(2,3) by (auto simp: is_expansion_def coordinates_of_def)
  have "fst k = cc_source c"
    using k(1) by (induction rule: reaches.induct) (auto simp: artifact_key_def nested_in_def)
  moreover have "ma_key m = k" using assms(1) k(2) by (rule table_okD)
  ultimately show ?thesis using k(3) by (auto simp: ma_coordinate_def ma_key_def artifact_key_def)
qed

lemma compile_each_ok:
  assumes A: "table_ok A"
  shows "memo_ok M A memo \<Longrightarrow> set cs \<subseteq> set (dict_keys M) \<Longrightarrow>
     compile_each cs M A memo acc = Inr (Ok out) \<Longrightarrow>
     \<exists>new. out = acc @ new \<and> map mc_coordinate new = cs \<and> list_all (collection_ok M A) new"
proof (induction cs arbitrary: memo acc)
  case (Cons c cs)
  obtain memo' xs where r: "expand_collection_members c M A memo [] = (memo', Inr (Ok xs))"
    using Cons.prems(3) by (auto split: prod.splits sum.splits result.splits)
  have post: "memo_ok M A memo'" "expandable M A c" "is_expansion M A c xs"
    using expand_sound(1)[OF A Cons.prems(1), of c "[]"] r by (auto simp: expand_post_def)
  obtain manifest where m: "dict_get M c = Some manifest"
    using Cons.prems(2) by (auto dest: weak_map_of_SomeI simp: image_iff)
  have sorted: "sort_key artifact_sort_key (remdups xs) = xs"
    using post(3) by (simp add: is_expansion_def distinct_remdups_id sort_key_id_if_sorted)
  let ?mc = "\<lparr>mc_coordinate = c, mc_summary = cm_summary manifest, mc_members = xs\<rparr>"
  have mk: "mk_marketplace_collection c (cm_summary manifest) xs = Inr ?mc"
    using expansion_source[OF A post(3)] sorted
    by (auto simp: mk_marketplace_collection_def py_guard_def list_ex_iff)
  have "compile_each cs M A memo' (acc @ [?mc]) = Inr (Ok out)" using Cons.prems(3) r m mk by simp
  from Cons.IH[OF post(1) _ this] Cons.prems(2) obtain new where
    "out = (acc @ [?mc]) @ new" "map mc_coordinate new = cs" "list_all (collection_ok M A) new" by auto
  moreover have "collection_ok M A ?mc" using m post by (simp add: collection_ok_def)
  ultimately show ?case by (intro exI[of _ "?mc # new"]) simp
qed simp

lemma compile_each_complete:
  assumes A: "table_ok A"
  shows "memo_ok M A memo \<Longrightarrow> set cs \<subseteq> set (dict_keys M) \<Longrightarrow>
     \<forall>c \<in> set cs. expandable M A c \<and> alias_value (cc_source c) \<noteq> [] \<Longrightarrow>
     \<exists>out. compile_each cs M A memo acc = Inr (Ok out)"
proof (induction cs arbitrary: memo acc)
  case (Cons c cs)
  obtain memo' xs where r: "expand_collection_members c M A memo [] = (memo', Inr (Ok xs))"
    using expand_complete(1)[OF A Cons.prems(1), of c "[]"] Cons.prems(3) by auto
  have post: "memo_ok M A memo'" "is_expansion M A c xs"
    using expand_sound(1)[OF A Cons.prems(1), of c "[]"] r by (auto simp: expand_post_def)
  obtain manifest where m: "dict_get M c = Some manifest"
    using Cons.prems(2) by (auto dest: weak_map_of_SomeI simp: image_iff)
  obtain mc where mk: "mk_marketplace_collection c (cm_summary manifest) xs = Inr mc"
    using expansion_source[OF A post(2)] by (auto simp: mk_marketplace_collection_def py_guard_def list_ex_iff)
  show ?case using Cons.IH[OF post(1)] Cons.prems(2,3) r m mk by simp
qed simp

text \<open>The manifests of the sources, keyed by their qualified coordinate.\<close>

definition source_coordinates :: "graph_source list \<Rightarrow> collection_coordinate list" where
  "source_coordinates sources =
     concat (map (\<lambda>s. map (\<lambda>m. CollectionCoordinate (gs_alias s) (cm_name m)) (gs_collections s)) sources)"

lemma compile_collections_spec:
  assumes "table_ok artifacts" and "collect_source_manifests sources ([], []) = Inr (manifests, ds)"
  shows "((\<exists>out. compile_collections sources artifacts = Inr (Ok out)) \<longleftrightarrow>
        ds = [] \<and> (\<forall>c \<in> set (source_coordinates sources). expandable manifests artifacts c))
    \<and> (\<forall>out. compile_collections sources artifacts = Inr (Ok out) \<longrightarrow>
        map mc_coordinate out = sort (source_coordinates sources) \<and> distinct (source_coordinates sources)
        \<and> list_all (collection_ok manifests artifacts) out)"
proof -
  have "distinct (dict_keys manifests) \<and> (\<forall>c \<in> set (dict_keys manifests). alias_value (cc_source c) \<noteq> [])
      \<and> (ds = [] \<longrightarrow> dict_keys manifests = source_coordinates sources)"
    using collect_source_manifests_ok[OF assms(2)] by (simp add: source_coordinates_def)
  then have m: "distinct (dict_keys manifests)" "\<forall>c \<in> set (dict_keys manifests). alias_value (cc_source c) \<noteq> []"
    and keys: "ds = [] \<Longrightarrow> dict_keys manifests = source_coordinates sources" by blast+
  have memo: "memo_ok manifests artifacts []" by (simp add: memo_ok_def)
  have comp: "compile_collections sources artifacts =
      (if ds \<noteq> [] then Inr (mk_err ds) else compile_each (sort (dict_keys manifests)) manifests artifacts [] [])"
    using assms(2) by (simp add: compile_collections_def)
  have sound: "ds = [] \<and> map mc_coordinate out = sort (source_coordinates sources)
      \<and> distinct (source_coordinates sources) \<and> list_all (collection_ok manifests artifacts) out"
    if "compile_collections sources artifacts = Inr (Ok out)" for out
  proof -
    have "ds = []" and "compile_each (sort (dict_keys manifests)) manifests artifacts [] [] = Inr (Ok out)"
      using that comp by (auto simp: mk_err_def split: if_splits)
    then show ?thesis
      using compile_each_ok[OF assms(1) memo, of "sort (dict_keys manifests)" "[]" out] keys m(1) by simp
  qed
  have "\<forall>c \<in> set (source_coordinates sources). expandable manifests artifacts c"
    if "compile_collections sources artifacts = Inr (Ok out)" for out
  proof -
    have "set (source_coordinates sources) = mc_coordinate ` set out" using sound[OF that] by (metis set_map set_sort)
    then show ?thesis using sound[OF that] by (auto simp: list_all_iff collection_ok_def)
  qed
  moreover have "\<exists>out. compile_collections sources artifacts = Inr (Ok out)"
    if "ds = []" "\<forall>c \<in> set (source_coordinates sources). expandable manifests artifacts c"
  proof -
    have "\<exists>out. compile_each (sort (dict_keys manifests)) manifests artifacts [] [] = Inr (Ok out)"
      by (rule compile_each_complete[OF assms(1) memo])
        (use that keys[OF that(1)] m(2) in \<open>simp_all del: set_map\<close>)
    then show ?thesis using that(1) comp by simp
  qed
  ultimately show ?thesis using sound by blast
qed

text \<open>
  Collections compile completely or not at all. \<open>_compile_collections\<close> succeeds exactly when no
  two manifests share a coordinate and every collection is expandable; then it returns one
  compiled collection per manifest of the sources, in coordinate order, each with the
  summary of its manifest and exactly the artifacts it reaches.
\<close>

theorem compile_collections_exact:
  assumes "table_ok artifacts" and "collect_source_manifests sources ([], []) = Inr (manifests, ds)"
  shows "((\<exists>out. compile_collections sources artifacts = Inr (Ok out)) \<longleftrightarrow>
        ds = [] \<and> (\<forall>c \<in> set (source_coordinates sources). expandable manifests artifacts c))
    \<and> (\<forall>out. compile_collections sources artifacts = Inr (Ok out) \<longrightarrow>
        map mc_coordinate out = sort (source_coordinates sources) \<and> distinct (source_coordinates sources)
        \<and> list_all (collection_ok manifests artifacts) out)"
  by (rule compile_collections_spec[OF assms])

subsection \<open>Sample\<close>

definition sample_collections :: "collection_manifest list" where
  "sample_collections =
     [\<lparr>cm_schema_version = 1, cm_name = ''all'', cm_summary = ''s'', cm_artifacts = [], cm_collections = [''base''],
       cm_extensions = []\<rparr>,
      \<lparr>cm_schema_version = 1, cm_name = ''base'', cm_summary = ''s'',
       cm_artifacts = [\<lparr>sel_identity = ArtifactIdentity ''skill'' ''a'', sel_version = None\<rparr>], cm_collections = [],
       cm_extensions = []\<rparr>]"

definition sample_table :: artifact_table where
  "sample_table = [((SourceAlias ''main'', ArtifactIdentity ''skill'' ''a''),
     \<lparr>ma_source_alias = SourceAlias ''main'', ma_source_id = SourceId ''org'', ma_artifact = sample_artifact,
      ma_semantic_digest = sha256_bytes [], ma_lifecycle = AVAILABLE\<rparr>)]"

definition sample_manifests :: manifest_table where
  "sample_manifests = map (\<lambda>m. (CollectionCoordinate (SourceAlias ''main'') (cm_name m), m)) sample_collections"

lemma sample_table_ok: "table_ok sample_table"
  by (auto simp: table_ok_def sample_table_def ma_key_def artifact_key_def sample_artifact_def split: if_splits)

theorem expand_collection_exact_witness:
  "expandable sample_manifests sample_table (CollectionCoordinate (SourceAlias ''main'') ''all'')"
proof -
  have "\<exists>memo xs. expand_collection_members (CollectionCoordinate (SourceAlias ''main'') ''all'')
      sample_manifests sample_table [] [] = (memo, Inr (Ok xs))"
    by (simp add: expand_collection_members.simps expand_nested.simps sample_manifests_def sample_collections_def
        sample_table_def mk_collection_coordinate_def py_guard_def artifact_key_def Let_def)
  then show ?thesis
    using expand_collection_exact[OF sample_table_ok, of "CollectionCoordinate (SourceAlias ''main'') ''all''" sample_manifests]
    by simp
qed

theorem compile_collections_exact_witness:
  "compile_collections [sample_source\<lparr>gs_collections := sample_collections\<rparr>] sample_table \<noteq> Inr (Ok [])"
proof -
  let ?s = "[sample_source\<lparr>gs_collections := sample_collections\<rparr>]"
  have m: "collect_source_manifests ?s ([], []) = Inr (sample_manifests, [])"
    by (simp add: sample_source_def sample_collections_def sample_manifests_def mk_collection_coordinate_def py_guard_def)
  have ne: "source_coordinates ?s \<noteq> []"
    by (simp add: source_coordinates_def sample_collections_def)
  show ?thesis
  proof
    assume "compile_collections ?s sample_table = Inr (Ok [])"
    from compile_collections_exact[OF sample_table_ok m, THEN conjunct2, rule_format, OF this]
    have "sort (source_coordinates ?s) = []" by simp
    then show False using ne by (metis set_empty set_sort)
  qed
qed

end
