(* ===== verification/Marketplace.thy ===== *)
theory Marketplace
  imports Collections
begin

text \<open>
  Compilation of the sources into the marketplace graph
  (\<open>compile_marketplace_graph\<close>, \<open>_history\<close> and \<open>marketplace_graph_bytes\<close> of
  \<open>agent_artifacts/compiler/graph.py\<close>): qualification and validation of every source, the comparison with
  the previous graph that forbids version regressions and unversioned changes and keeps removed
  artifacts, and the canonical bytes of the graph.
\<close>

subsection \<open>History\<close>

text \<open>
  \<open>replace(old, lifecycle=REMOVED)\<close> runs the checks of the constructor again; they do not depend on the
  lifecycle (\<open>removed_valid\<close>), so it is a record update.
\<close>

definition removed :: "marketplace_artifact \<Rightarrow> marketplace_artifact" where
  "removed old = old\<lparr>ma_lifecycle := REMOVED\<rparr>"

definition content_changed :: "marketplace_artifact \<Rightarrow> marketplace_artifact \<Rightarrow> bool" where
  "content_changed artifact old \<longleftrightarrow>
     ma_semantic_digest artifact \<noteq> ma_semantic_digest old
     \<or> ia_manifest_digest (ma_artifact artifact) \<noteq> ia_manifest_digest (ma_artifact old)
     \<or> ia_payload_digest (ma_artifact artifact) \<noteq> ia_payload_digest (ma_artifact old)
     \<or> ia_object_digest (ma_artifact artifact) \<noteq> ia_object_digest (ma_artifact old)"

fun history_loop ::
  "artifact_table \<Rightarrow> artifact_table \<Rightarrow> diagnostic list \<Rightarrow> diagnostic list \<Rightarrow> diagnostic list \<times> diagnostic list" where
  "history_loop [] prior errors diagnostics = (errors, diagnostics)"
| "history_loop ((key, artifact) # rest) prior errors diagnostics =
     (case dict_get prior key of
        None \<Rightarrow> history_loop rest prior errors diagnostics
      | Some old \<Rightarrow>
          (let current_version = ia_version (ma_artifact artifact); old_version = ia_version (ma_artifact old) in
           if semver_lt current_version old_version then
             history_loop rest prior
               (errors @ [graph_error ARTIFACT_VERSION_REGRESSED
                  (coordinate_str (ma_coordinate artifact) @ '' regressed from '' @ semver_str old_version
                     @ '' to '' @ semver_str current_version) (ma_source_alias artifact)]) diagnostics
           else if same_precedence current_version old_version then
             (if content_changed artifact old then
                history_loop rest prior
                  (errors @ [graph_error ARTIFACT_VERSION_UNCHANGED
                     (''content or install semantics changed without a version precedence change for ''
                        @ alias_value (ma_source_alias artifact) @ ''/'' @ identity_str (ia_identity (ma_artifact artifact)))
                     (ma_source_alias artifact)]) diagnostics
              else history_loop rest prior errors diagnostics)
           else if ma_semantic_digest artifact = ma_semantic_digest old then
             history_loop rest prior errors
               (diagnostics @ [graph_diagnostic ARTIFACT_VERSION_WITHOUT_CONTENT
                  (''version changed without semantic content change for '' @ coordinate_str (ma_coordinate artifact))
                  (Some (ma_source_alias artifact)) WARNING []])
           else history_loop rest prior errors diagnostics))"

fun merge_removed :: "artifact_table \<Rightarrow> artifact_table \<Rightarrow> artifact_table \<Rightarrow> artifact_table" where
  "merge_removed current [] merged = merged"
| "merge_removed current ((key, old) # rest) merged =
     merge_removed current rest
       (if key \<notin> set (dict_keys current) then dict_set key (removed old) merged else merged)"

definition history ::
  "artifact_table \<Rightarrow> marketplace_graph option \<Rightarrow> (marketplace_artifact list \<times> diagnostic list) result" where
  "history current previous =
     (case previous of
        None \<Rightarrow> Ok (dict_values current, [])
      | Some graph \<Rightarrow>
          (let prior = dict_by ma_key (mg_artifacts graph) in
           case history_loop current prior [] [] of (errors, diagnostics) \<Rightarrow>
             if errors \<noteq> [] then mk_err errors
             else Ok (dict_values (merge_removed current prior current), sort_diagnostics diagnostics)))"

subsection \<open>Compilation\<close>

record graph_state =
  st_diagnostics :: "diagnostic list"
  st_aliases :: "source_alias list"
  st_source_ids :: "source_id list"
  st_artifacts :: artifact_table

definition report :: "diagnostic \<Rightarrow> graph_state \<Rightarrow> graph_state" where
  "report d st = st\<lparr>st_diagnostics := st_diagnostics st @ [d]\<rparr>"

fun add_artifacts :: "graph_source \<Rightarrow> index_artifact list \<Rightarrow> graph_state \<Rightarrow> graph_state py" where
  "add_artifacts source [] st = Inr st"
| "add_artifacts source (artifact # rest) st =
     (if ia_source_id artifact \<noteq> gs_source_id source then
        add_artifacts source rest (report (graph_error MARKETPLACE_GRAPH_INVALID
          (''artifact '' @ identity_str (ia_identity artifact) @ '' declares source ID ''
             @ source_id_value (ia_source_id artifact) @ '', expected '' @ source_id_value (gs_source_id source))
          (gs_alias source)) st)
      else
        (let key = artifact_key (gs_alias source) (ia_identity artifact) in
         if key \<in> set (dict_keys (st_artifacts st)) then
           add_artifacts source rest (report (graph_error MARKETPLACE_GRAPH_INVALID
             (''duplicate qualified artifact: '' @ alias_value (gs_alias source) @ ''/''
                @ identity_str (ia_identity artifact)) (gs_alias source)) st)
         else (case marketplace_artifact source artifact of
             Inl e \<Rightarrow> Inl e
           | Inr m \<Rightarrow> add_artifacts source rest (st\<lparr>st_artifacts := dict_set key m (st_artifacts st)\<rparr>))))"

definition check_source :: "capability list \<Rightarrow> graph_source \<Rightarrow> graph_state \<Rightarrow> graph_state" where
  "check_source available source st =
     (let st1 = (if gs_alias source \<in> set (st_aliases st)
                 then report (graph_error MARKETPLACE_GRAPH_INVALID
                        (''duplicate source alias: '' @ alias_value (gs_alias source)) (gs_alias source)) st
                 else st);
          st2 = st1\<lparr>st_aliases := gs_alias source # st_aliases st1\<rparr>;
          st3 = (if gs_source_id source \<in> set (st_source_ids st2)
                 then report (graph_error MARKETPLACE_GRAPH_INVALID
                        (''duplicate source ID: '' @ source_id_value (gs_source_id source)) (gs_alias source)) st2
                 else st2);
          st4 = st3\<lparr>st_source_ids := gs_source_id source # st_source_ids st3\<rparr>;
          missing = [c \<leftarrow> gs_required_capabilities source. c \<notin> set available]
      in if missing \<noteq> []
         then report (graph_error SOURCE_INCOMPATIBLE
                (''source '' @ alias_value (gs_alias source) @ '' requires unavailable capabilities: ''
                   @ join '', '' (map capability_value missing)) (gs_alias source)) st4
         else st4)"

fun add_sources :: "capability list \<Rightarrow> graph_source list \<Rightarrow> graph_state \<Rightarrow> graph_state py" where
  "add_sources available [] st = Inr st"
| "add_sources available (source # sources) st =
     (case add_artifacts source (gs_artifacts source) (check_source available source st) of
        Inl e \<Rightarrow> Inl e
      | Inr st' \<Rightarrow> add_sources available sources st')"

definition empty_state :: graph_state where
  "empty_state = \<lparr>st_diagnostics = [], st_aliases = [], st_source_ids = [], st_artifacts = []\<rparr>"

definition source_order :: "graph_source \<Rightarrow> string" where
  "source_order s = alias_value (gs_alias s)"

definition compile_marketplace_graph ::
  "graph_source list \<Rightarrow> capability list \<Rightarrow> marketplace_graph option \<Rightarrow> marketplace_graph result py" where
  "compile_marketplace_graph sources available previous =
     (let ordered = sort_key source_order sources in
      case add_sources available ordered empty_state of
        Inl e \<Rightarrow> Inl e
      | Inr st \<Rightarrow>
          if st_diagnostics st \<noteq> [] then Inr (mk_err (st_diagnostics st))
          else (case compile_collections ordered (st_artifacts st) of
              Inl e \<Rightarrow> Inl e
            | Inr (Err ds) \<Rightarrow> Inr (Err ds)
            | Inr (Ok collections) \<Rightarrow>
                (case history (st_artifacts st) previous of
                   Err ds \<Rightarrow> Inr (Err ds)
                 | Ok (artifacts, diagnostics) \<Rightarrow>
                     (case mk_marketplace_graph artifacts collections diagnostics of
                        Inl e \<Rightarrow> Inl e | Inr graph \<Rightarrow> Inr (Ok graph)))))"

subsection \<open>Canonical bytes\<close>

definition review_json :: "review_record option \<Rightarrow> json_value" where
  "review_json r =
     (case r of None \<Rightarrow> JNull
      | Some v \<Rightarrow> json_object [(''policy'', JStr (rev_policy v)), (''status'', JStr (rev_status v))])"

definition index_provenance_json :: "index_provenance option \<Rightarrow> json_value" where
  "index_provenance_json p =
     (case p of None \<Rightarrow> JNull
      | Some v \<Rightarrow> json_object [(''origin_url'', JStr (ipr_origin_url v)), (''path'', JStr (path_str (ipr_path v))),
                 (''resolved_commit'', JStr (ipr_resolved_commit v))])"

definition optional_entry :: "string \<Rightarrow> json_value option \<Rightarrow> json_entries" where
  "optional_entry name v = (case v of None \<Rightarrow> [] | Some x \<Rightarrow> [(name, x)])"

definition json_or_null :: "json_value option \<Rightarrow> json_value" where
  "json_or_null v = (case v of None \<Rightarrow> JNull | Some x \<Rightarrow> x)"

definition artifact_entries :: "marketplace_artifact \<Rightarrow> json_entries" where
  "artifact_entries item =
     (let artifact = ma_artifact item; semantic = sort_key fst (semantic_entries artifact) in
      [(''compatibility'', json_or_null (json_get semantic ''compatibility'')),
       (''identity'', JStr (identity_str (ia_identity artifact))),
       (''install'', json_or_null (json_get semantic ''install'')),
       (''lifecycle'', JStr (lifecycle_value (ma_lifecycle item))),
       (''manifest_digest'', JStr (digest_str (ia_manifest_digest artifact))),
       (''object_digest'', JStr (digest_str (ia_object_digest artifact))),
       (''payload_digest'', JStr (digest_str (ia_payload_digest artifact))),
       (''provenance'', index_provenance_json (ia_provenance artifact)),
       (''review'', review_json (ia_review artifact)),
       (''semantic_digest'', JStr (digest_str (ma_semantic_digest item))),
       (''setup'', setup_json (ia_setup artifact)),
       (''source_alias'', JStr (alias_value (ma_source_alias item))),
       (''source_id'', JStr (source_id_value (ma_source_id item))),
       (''summary'', JStr (ia_summary artifact)),
       (''version'', JStr (semver_str (ia_version artifact)))]
      @ optional_entry ''requires_aart'' (json_get semantic ''requires_aart'')
      @ optional_entry ''requires'' (json_get semantic ''requires''))"

definition artifact_json :: "marketplace_artifact \<Rightarrow> json_value" where
  "artifact_json item = json_object (artifact_entries item)"

definition collection_json :: "marketplace_collection \<Rightarrow> json_value" where
  "collection_json item =
     json_object [(''coordinate'', JStr (collection_str (mc_coordinate item))),
       (''members'', strings (map coordinate_str (mc_members item))), (''summary'', JStr (mc_summary item))]"

definition diagnostic_json :: "diagnostic \<Rightarrow> json_value" where
  "diagnostic_json d =
     json_object [(''code'', JStr (diag_code d)), (''message'', JStr (diag_message d)),
       (''severity'', JStr (severity_value (diag_severity d))),
       (''source'', case diag_location d of None \<Rightarrow> JNull
          | Some l \<Rightarrow> (case loc_source l of None \<Rightarrow> JNull | Some a \<Rightarrow> JStr (alias_value a)))]"

definition graph_json :: "marketplace_graph \<Rightarrow> json_value" where
  "graph_json graph =
     json_object [(''artifacts'', JArray (map artifact_json (mg_artifacts graph))),
       (''collections'', JArray (map collection_json (mg_collections graph))),
       (''diagnostics'', JArray (map diagnostic_json (mg_diagnostics graph))), (''schema_version'', JInt 1)]"

definition marketplace_graph_bytes :: "marketplace_graph \<Rightarrow> bytes" where
  "marketplace_graph_bytes graph = canonical_json_bytes (graph_json graph)"

definition compile_marketplace_graph_phase ::
  "graph_source list \<Rightarrow> capability list \<Rightarrow> marketplace_graph option \<Rightarrow> marketplace_graph phase_output result py" where
  "compile_marketplace_graph_phase sources available previous =
     (case compile_marketplace_graph sources available previous of
        Inl e \<Rightarrow> Inl e
      | Inr (Err ds) \<Rightarrow> Inr (Err ds)
      | Inr (Ok graph) \<Rightarrow>
          (case phase_output graph (marketplace_graph_bytes graph) (mg_diagnostics graph) of
             Inl e \<Rightarrow> Inl e | Inr out \<Rightarrow> Inr (Ok out)))"

subsection \<open>The compiled table\<close>

declare split_paired_All [simp del] split_paired_Ex [simp del]

definition compiled :: "graph_source \<Rightarrow> index_artifact \<Rightarrow> marketplace_artifact" where
  "compiled source artifact =
     \<lparr>ma_source_alias = gs_alias source, ma_source_id = gs_source_id source, ma_artifact = normalize_artifact artifact,
      ma_semantic_digest = json_digest (semantic_json (normalize_artifact artifact)), ma_lifecycle = AVAILABLE\<rparr>"

definition artifact_valid :: "marketplace_artifact \<Rightarrow> bool" where
  "artifact_valid m \<longleftrightarrow> alias_value (ma_source_alias m) \<noteq> [] \<and> ma_source_id m = ia_source_id (ma_artifact m)
     \<and> ma_semantic_digest m = json_digest (semantic_json (ma_artifact m))"

lemma mk_marketplace_artifact_valid:
  "(\<exists>m. mk_marketplace_artifact a s x d l = Inr m) \<longleftrightarrow>
     artifact_valid \<lparr>ma_source_alias = a, ma_source_id = s, ma_artifact = x, ma_semantic_digest = d, ma_lifecycle = l\<rparr>"
  by (auto simp: mk_marketplace_artifact_def py_ok artifact_valid_def)

lemma removed_valid: "artifact_valid m \<Longrightarrow> artifact_valid (removed m)"
  by (simp add: artifact_valid_def removed_def)

lemma normalize_keeps [simp]:
  "ia_identity (normalize_artifact a) = ia_identity a" "ia_source_id (normalize_artifact a) = ia_source_id a"
  "ia_version (normalize_artifact a) = ia_version a" "ia_manifest_digest (normalize_artifact a) = ia_manifest_digest a"
  "ia_payload_digest (normalize_artifact a) = ia_payload_digest a" "ia_object_digest (normalize_artifact a) = ia_object_digest a"
  by (simp_all add: normalize_artifact_def)

lemma marketplace_artifact_Inr:
  "marketplace_artifact s a = Inr m \<longleftrightarrow>
     m = compiled s a \<and> alias_value (gs_alias s) \<noteq> [] \<and> gs_source_id s = ia_source_id a"
  by (auto simp: marketplace_artifact_def mk_marketplace_artifact_def py_ok Let_def compiled_def)

lemma compiled_key [simp]: "ma_key (compiled s a) = artifact_key (gs_alias s) (ia_identity a)"
  by (simp add: ma_key_def compiled_def)

lemma add_artifacts_spec:
  "add_artifacts s as st = Inr st' \<Longrightarrow>
     (\<exists>ds. st_diagnostics st' = st_diagnostics st @ ds)
     \<and> st_aliases st' = st_aliases st \<and> st_source_ids st' = st_source_ids st
     \<and> (distinct (dict_keys (st_artifacts st)) \<longrightarrow> distinct (dict_keys (st_artifacts st')))
     \<and> (st_diagnostics st' = st_diagnostics st \<longrightarrow>
        st_artifacts st' = st_artifacts st @ map (\<lambda>a. (ma_key (compiled s a), compiled s a)) as
        \<and> (\<forall>a \<in> set as. ia_source_id a = gs_source_id s \<and> alias_value (gs_alias s) \<noteq> []))"
proof (induction as arbitrary: st)
  case (Cons a as)
  let ?k = "artifact_key (gs_alias s) (ia_identity a)"
  show ?case
  proof (cases "ia_source_id a \<noteq> gs_source_id s \<or> ?k \<in> set (dict_keys (st_artifacts st))")
    case True
    then obtain d where "add_artifacts s as (report d st) = Inr st'"
      using Cons.prems by (auto simp: Let_def simp del: set_map split: if_splits)
    from Cons.IH[OF this] show ?thesis by (auto simp: report_def)
  next
    case False
    then have m: "marketplace_artifact s a = Inr (compiled s a)" "alias_value (gs_alias s) \<noteq> []"
      using Cons.prems by (auto simp: Let_def marketplace_artifact_Inr simp del: set_map split: sum.splits)
    let ?st = "st\<lparr>st_artifacts := st_artifacts st @ [(?k, compiled s a)]\<rparr>"
    have "add_artifacts s as ?st = Inr st'"
      using Cons.prems False m by (simp add: Let_def dict_set_fresh del: set_map)
    from Cons.IH[OF this] False m(2) show ?thesis by auto
  qed
qed simp

definition source_accepted :: "capability list \<Rightarrow> graph_source \<Rightarrow> bool" where
  "source_accepted available s \<longleftrightarrow> set (gs_required_capabilities s) \<subseteq> set available
     \<and> (\<forall>a \<in> set (gs_artifacts s). ia_source_id a = gs_source_id s \<and> alias_value (gs_alias s) \<noteq> [])"

lemma check_source_spec:
  "(\<exists>ds. st_diagnostics (check_source available s st) = st_diagnostics st @ ds)"
  "st_artifacts (check_source available s st) = st_artifacts st"
  "st_aliases (check_source available s st) = gs_alias s # st_aliases st"
  "st_source_ids (check_source available s st) = gs_source_id s # st_source_ids st"
  "st_diagnostics (check_source available s st) = st_diagnostics st \<longleftrightarrow>
     gs_alias s \<notin> set (st_aliases st) \<and> gs_source_id s \<notin> set (st_source_ids st)
     \<and> set (gs_required_capabilities s) \<subseteq> set available"
  by (auto simp: check_source_def report_def Let_def filter_empty_conv)

lemma add_sources_spec:
  "add_sources available ss st = Inr st' \<Longrightarrow>
     (\<exists>ds. st_diagnostics st' = st_diagnostics st @ ds)
     \<and> (distinct (dict_keys (st_artifacts st)) \<longrightarrow> distinct (dict_keys (st_artifacts st')))
     \<and> (st_diagnostics st' = st_diagnostics st \<longrightarrow>
        st_artifacts st' = st_artifacts st
          @ concat (map (\<lambda>s. map (\<lambda>a. (ma_key (compiled s a), compiled s a)) (gs_artifacts s)) ss)
        \<and> (\<forall>s \<in> set ss. source_accepted available s)
        \<and> distinct (map gs_alias ss) \<and> distinct (map gs_source_id ss)
        \<and> set (map gs_alias ss) \<inter> set (st_aliases st) = {} \<and> set (map gs_source_id ss) \<inter> set (st_source_ids st) = {})"
proof (induction ss arbitrary: st)
  case (Cons s ss)
  let ?c = "check_source available s st"
  obtain st1 where one: "add_artifacts s (gs_artifacts s) ?c = Inr st1" and rest: "add_sources available ss st1 = Inr st'"
    using Cons.prems by (auto split: sum.splits)
  note c = check_source_spec[of available s st] and a = add_artifacts_spec[OF one] and r = Cons.IH[OF rest]
  obtain d1 d2 d3 where d: "st_diagnostics ?c = st_diagnostics st @ d1" "st_diagnostics st1 = st_diagnostics ?c @ d2"
    "st_diagnostics st' = st_diagnostics st1 @ d3"
    using c(1) a r by blast
  show ?case
  proof (cases "st_diagnostics st' = st_diagnostics st")
    case True
    then have e: "st_diagnostics ?c = st_diagnostics st" "st_diagnostics st1 = st_diagnostics ?c"
      "st_diagnostics st' = st_diagnostics st1"
      using d by simp_all
    have s: "gs_alias s \<notin> set (st_aliases st)" "gs_source_id s \<notin> set (st_source_ids st)"
      "set (gs_required_capabilities s) \<subseteq> set available"
      using c(5) e(1) by blast+
    have one': "st_artifacts st1 = st_artifacts st @ map (\<lambda>a. (ma_key (compiled s a), compiled s a)) (gs_artifacts s)"
      "\<forall>a \<in> set (gs_artifacts s). ia_source_id a = gs_source_id s \<and> alias_value (gs_alias s) \<noteq> []"
      "st_aliases st1 = gs_alias s # st_aliases st" "st_source_ids st1 = gs_source_id s # st_source_ids st"
      using a e(2) c(2-4) by simp_all
    have acc: "source_accepted available s" using s(3) one'(2) by (simp add: source_accepted_def)
    have rest': "st_artifacts st' = st_artifacts st1
          @ concat (map (\<lambda>s. map (\<lambda>a. (ma_key (compiled s a), compiled s a)) (gs_artifacts s)) ss)"
      "\<forall>s \<in> set ss. source_accepted available s" "distinct (map gs_alias ss)" "distinct (map gs_source_id ss)"
      "set (map gs_alias ss) \<inter> set (st_aliases st1) = {}" "set (map gs_source_id ss) \<inter> set (st_source_ids st1) = {}"
      using r e(3) by blast+
    have "set (map gs_alias (s # ss)) \<inter> set (st_aliases st) = {} \<and> set (map gs_source_id (s # ss)) \<inter> set (st_source_ids st) = {}
        \<and> gs_alias s \<notin> set (map gs_alias ss) \<and> gs_source_id s \<notin> set (map gs_source_id ss)"
      using s(1,2) rest'(5,6) one'(3,4) by auto
    moreover have "distinct (dict_keys (st_artifacts st)) \<longrightarrow> distinct (dict_keys (st_artifacts st'))"
      using a r c(2) by simp
    ultimately show ?thesis
      using True d(3) e acc one'(1) rest'(1-4) by simp
  next
    case False
    have "distinct (dict_keys (st_artifacts st)) \<longrightarrow> distinct (dict_keys (st_artifacts st'))"
      using a r c(2) by simp
    moreover have "\<exists>ds. st_diagnostics st' = st_diagnostics st @ ds" using d by simp
    ultimately show ?thesis using False by blast
  qed
qed simp

subsection \<open>History\<close>

definition version_ok :: "marketplace_artifact \<Rightarrow> marketplace_artifact \<Rightarrow> bool" where
  "version_ok new old \<longleftrightarrow> \<not> semver_lt (ia_version (ma_artifact new)) (ia_version (ma_artifact old))
     \<and> (same_precedence (ia_version (ma_artifact new)) (ia_version (ma_artifact old)) \<longrightarrow> \<not> content_changed new old)"

lemma history_loop_errors:
  "(\<exists>es. fst (history_loop cur prior errs ds) = errs @ es)
   \<and> (fst (history_loop cur prior errs ds) = errs \<longleftrightarrow>
      (\<forall>(k, new) \<in> set cur. \<forall>old. dict_get prior k = Some old \<longrightarrow> version_ok new old))"
proof (induction cur arbitrary: errs ds)
  case (Cons p cur)
  obtain k new where p: "p = (k, new)" by fastforce
  have grow: "\<exists>es. fst (history_loop cur prior (errs @ [e]) ds) = errs @ e # es" for e
    using Cons.IH[of "errs @ [e]" ds] by simp
  show ?case
  proof (cases "dict_get prior k")
    case None
    then show ?thesis using Cons.IH p by simp
  next
    case (Some old)
    show ?thesis
    proof (cases "version_ok new old")
      case True
      then have "\<exists>ds'. history_loop (p # cur) prior errs ds = history_loop cur prior errs ds'"
        using Some p by (auto simp: version_ok_def Let_def)
      then obtain ds' where step: "history_loop (p # cur) prior errs ds = history_loop cur prior errs ds'" ..
      show ?thesis unfolding step using Cons.IH[of errs ds'] p Some True by simp
    next
      case False
      have "\<exists>e. history_loop (p # cur) prior errs ds = history_loop cur prior (errs @ [e]) ds"
      proof (cases "semver_lt (ia_version (ma_artifact new)) (ia_version (ma_artifact old))")
        case True
        then show ?thesis using Some p by (simp add: Let_def) blast
      next
        case lt: False
        then have "same_precedence (ia_version (ma_artifact new)) (ia_version (ma_artifact old))" "content_changed new old"
          using False by (auto simp: version_ok_def)
        then show ?thesis using Some p lt by (simp add: Let_def) blast
      qed
      then obtain e where step: "history_loop (p # cur) prior errs ds = history_loop cur prior (errs @ [e]) ds" ..
      obtain es where es: "fst (history_loop cur prior (errs @ [e]) ds) = errs @ e # es" using grow by blast
      show ?thesis unfolding step es using p Some False by auto
    qed
  qed
qed simp

lemma dict_by_get:
  "distinct (map f (map snd acc @ xs)) \<Longrightarrow> \<forall>(k, x) \<in> set acc. k = f x \<Longrightarrow>
   fold (\<lambda>x d. dict_set (f x) x d) xs acc = acc @ map (\<lambda>x. (f x, x)) xs"
proof (induction xs arbitrary: acc)
  case (Cons x xs)
  have "dict_keys acc = map f (map snd acc)" using Cons.prems(2) by auto
  then have "f x \<notin> set (dict_keys acc)" using Cons.prems(1) by (simp del: set_map map_map)
  then have "dict_set (f x) x acc = acc @ [(f x, x)]" by (rule dict_set_fresh)
  then show ?case using Cons.IH[of "acc @ [(f x, x)]"] Cons.prems by auto
qed simp

lemma dict_by_distinct: "distinct (map f xs) \<Longrightarrow> dict_by f xs = map (\<lambda>x. (f x, x)) xs"
  using dict_by_get[of f "[]" xs] by (simp add: dict_by_def)

lemma merge_removed_spec:
  "distinct (dict_keys merged) \<Longrightarrow> distinct (dict_keys prior) \<Longrightarrow>
   set (dict_keys merged) \<inter> set (dict_keys prior) \<subseteq> set (dict_keys cur) \<Longrightarrow>
   set (dict_keys cur) \<subseteq> set (dict_keys merged) \<Longrightarrow>
   merge_removed cur prior merged =
     merged @ map (\<lambda>(k, old). (k, removed old)) [p \<leftarrow> prior. fst p \<notin> set (dict_keys cur)]"
proof (induction prior arbitrary: merged)
  case (Cons p prior)
  obtain k old where p: "p = (k, old)" by fastforce
  show ?case
  proof (cases "k \<in> set (dict_keys cur)")
    case True
    then show ?thesis using Cons.IH[of merged] Cons.prems p by auto
  next
    case False
    then have k: "k \<notin> set (dict_keys merged)" using Cons.prems(3) p by auto
    have "merge_removed cur prior (merged @ [(k, removed old)]) =
        (merged @ [(k, removed old)]) @ map (\<lambda>(k, old). (k, removed old)) [p \<leftarrow> prior. fst p \<notin> set (dict_keys cur)]"
      using Cons.prems p k by (intro Cons.IH) auto
    then show ?thesis using False k p by (simp add: dict_set_fresh del: set_map)
  qed
qed simp

definition graph_ok :: "marketplace_graph \<Rightarrow> bool" where
  "graph_ok g \<longleftrightarrow> distinct (map ma_key (mg_artifacts g)) \<and> list_all artifact_valid (mg_artifacts g)
     \<and> sorted (map (artifact_sort_key \<circ> ma_coordinate) (mg_artifacts g))
     \<and> distinct (map mc_coordinate (mg_collections g)) \<and> sorted (map mc_coordinate (mg_collections g))"

text \<open>The artifacts a graph has from the current sources, and those it keeps from the previous graph.\<close>

definition current_artifacts :: "graph_source list \<Rightarrow> marketplace_artifact set" where
  "current_artifacts sources = {compiled s a | s a. s \<in> set sources \<and> a \<in> set (gs_artifacts s)}"

definition kept_artifacts :: "graph_source list \<Rightarrow> marketplace_graph option \<Rightarrow> marketplace_artifact set" where
  "kept_artifacts sources previous =
     {removed old | old p. previous = Some p \<and> old \<in> set (mg_artifacts p) \<and> ma_key old \<notin> ma_key ` current_artifacts sources}"

definition source_table :: "graph_source list \<Rightarrow> artifact_table" where
  "source_table ss = concat (map (\<lambda>s. map (\<lambda>a. (ma_key (compiled s a), compiled s a)) (gs_artifacts s)) ss)"

lemma source_table_values: "set (dict_values (source_table ss)) = current_artifacts ss"
  by (auto simp: source_table_def current_artifacts_def image_iff) blast+

lemma source_table_keys: "dict_keys (source_table ss) = map ma_key (dict_values (source_table ss))"
  by (simp add: source_table_def map_concat o_def del: compiled_key)

lemma source_table_ok: "distinct (dict_keys (source_table ss)) \<Longrightarrow> table_ok (source_table ss)"
  by (auto simp: table_ok_def source_table_def simp del: compiled_key dest!: map_of_SomeD)

lemma removed_key [simp]: "ma_key (removed m) = ma_key m"
  by (simp add: removed_def ma_key_def)

lemma image_filter_disjoint: "A \<inter> f ` {x \<in> S. f x \<notin> A} = {}"
  by blast

lemma history_spec:
  assumes h: "history (source_table ss) previous = Ok (artifacts, ds)" and d: "distinct (dict_keys (source_table ss))"
    and p: "\<forall>p. previous = Some p \<longrightarrow> distinct (map ma_key (mg_artifacts p))"
  shows "distinct (map ma_key artifacts) \<and> set artifacts = current_artifacts ss \<union> kept_artifacts ss previous
    \<and> (\<forall>p old new. previous = Some p \<longrightarrow> old \<in> set (mg_artifacts p) \<longrightarrow> new \<in> current_artifacts ss \<longrightarrow>
         ma_key new = ma_key old \<longrightarrow> version_ok new old)"
proof (cases previous)
  case None
  then have "artifacts = dict_values (source_table ss)" using h by (simp add: history_def)
  then show ?thesis
    using None d source_table_values[of ss] source_table_keys[of ss] by (auto simp: kept_artifacts_def)
next
  case (Some g)
  let ?cur = "source_table ss" and ?prior = "map (\<lambda>x. (ma_key x, x)) (mg_artifacts g)"
  have dg: "distinct (map ma_key (mg_artifacts g))" using p Some by blast
  have prior: "dict_by ma_key (mg_artifacts g) = ?prior" by (rule dict_by_distinct[OF dg])
  obtain errs ws where loop: "history_loop ?cur ?prior [] [] = (errs, ws)" by fastforce
  have errs: "errs = []" and arts: "artifacts = dict_values (merge_removed ?cur ?prior ?cur)"
    using h Some prior loop by (auto simp: history_def Let_def mk_err_def split: if_splits)
  have mr: "merge_removed ?cur ?prior ?cur =
      ?cur @ map (\<lambda>(k, old). (k, removed old)) [p \<leftarrow> ?prior. fst p \<notin> set (dict_keys ?cur)]"
    by (rule merge_removed_spec) (use d dg in \<open>auto simp: o_def\<close>)
  let ?kept = "[m \<leftarrow> mg_artifacts g. ma_key m \<notin> set (dict_keys ?cur)]"
  have arts': "artifacts = dict_values ?cur @ map removed ?kept"
    unfolding arts mr by (simp add: filter_map o_def del: set_map)
  have keys: "set (dict_keys ?cur) = ma_key ` current_artifacts ss"
    unfolding source_table_keys[of ss] set_map[of ma_key] source_table_values ..
  have "distinct (map ma_key artifacts)"
  proof -
    have rm: "map ma_key (map removed ?kept) = map ma_key ?kept" by simp
    have dis: "set (dict_keys ?cur) \<inter> set (map ma_key ?kept) = {}"
      unfolding set_map[of ma_key] set_filter by (rule image_filter_disjoint)
    show ?thesis
      unfolding arts' map_append source_table_keys[symmetric] distinct_append rm
      using d distinct_map_filter[OF dg] dis by blast
  qed
  moreover have "set artifacts = current_artifacts ss \<union> kept_artifacts ss previous"
    unfolding arts' set_append source_table_values using Some keys by (auto simp: kept_artifacts_def)
  moreover have "version_ok new old"
    if "old \<in> set (mg_artifacts g)" "new \<in> current_artifacts ss" "ma_key new = ma_key old" for old new
  proof -
    have all: "\<forall>(k, new) \<in> set ?cur. \<forall>old. dict_get ?prior k = Some old \<longrightarrow> version_ok new old"
      using history_loop_errors[of ?cur ?prior "[]" "[]"] loop errs by simp
    have "(ma_key new, new) \<in> set ?cur"
      using that(2) by (auto simp: source_table_def current_artifacts_def simp del: compiled_key)
    moreover have "dict_get ?prior (ma_key new) = Some old"
      using that dg by (intro map_of_is_SomeI) (auto simp: o_def)
    ultimately show ?thesis using all by blast
  qed
  ultimately show ?thesis using Some by blast
qed

lemma mk_marketplace_graph_spec:
  assumes "mk_marketplace_graph arts cols ds = Inr g"
  shows "distinct (map ma_key (mg_artifacts g))" "set (mg_artifacts g) = set arts"
    "sorted (map (artifact_sort_key \<circ> ma_coordinate) (mg_artifacts g))"
    "distinct (map mc_coordinate (mg_collections g))" "set (mg_collections g) = set cols"
    "sorted (map mc_coordinate (mg_collections g))"
proof -
  have g: "g = \<lparr>mg_artifacts = sort_key (artifact_sort_key \<circ> ma_coordinate) arts,
      mg_collections = sort_key mc_coordinate cols, mg_diagnostics = sort_diagnostics ds\<rparr>"
    and "distinct (map ma_key arts)" "distinct (map mc_coordinate cols)"
    using assms by (auto simp: mk_marketplace_graph_def py_ok)
  then show "distinct (map ma_key (mg_artifacts g))" "set (mg_artifacts g) = set arts"
    "sorted (map (artifact_sort_key \<circ> ma_coordinate) (mg_artifacts g))"
    "distinct (map mc_coordinate (mg_collections g))" "set (mg_collections g) = set cols"
    "sorted (map mc_coordinate (mg_collections g))"
    by (simp_all add: distinct_map_sort del: set_map map_map)
qed

lemma kept_valid:
  "\<forall>p. previous = Some p \<longrightarrow> graph_ok p \<Longrightarrow> m \<in> kept_artifacts ss previous \<Longrightarrow> artifact_valid m"
  by (auto simp: kept_artifacts_def graph_ok_def list_all_iff removed_valid)

lemma current_valid:
  "\<forall>s \<in> set ss. source_accepted available s \<Longrightarrow> m \<in> current_artifacts ss \<Longrightarrow> artifact_valid m"
  by (auto simp: current_artifacts_def source_accepted_def artifact_valid_def compiled_def)

lemma set_sort_key_current: "current_artifacts (sort_key f ss) = current_artifacts ss"
  by (simp add: current_artifacts_def)

lemma set_sort_key_kept: "kept_artifacts (sort_key f ss) previous = kept_artifacts ss previous"
  by (simp add: kept_artifacts_def set_sort_key_current)

text \<open>The facts about a successful compilation that the theorems below are drawn from.\<close>

lemma compile_graph_facts:
  assumes c: "compile_marketplace_graph sources available previous = Inr (Ok g)"
    and p: "\<forall>p. previous = Some p \<longrightarrow> graph_ok p"
  shows "graph_ok g"
    and "set (mg_artifacts g) = current_artifacts sources \<union> kept_artifacts sources previous"
    and "\<forall>s \<in> set sources. source_accepted available s"
    and "distinct (map gs_alias sources)" and "distinct (map gs_source_id sources)"
    and "\<forall>p old new. previous = Some p \<longrightarrow> old \<in> set (mg_artifacts p) \<longrightarrow> new \<in> current_artifacts sources \<longrightarrow>
         ma_key new = ma_key old \<longrightarrow> version_ok new old"
    and "\<exists>cols. compile_collections (sort_key source_order sources) (source_table (sort_key source_order sources)) = Inr (Ok cols)
       \<and> set (mg_collections g) = set cols \<and> table_ok (source_table (sort_key source_order sources))"
proof -
  let ?ss = "sort_key source_order sources"
  obtain st cols arts ds where st: "add_sources available ?ss empty_state = Inr st" "st_diagnostics st = []"
    and cols: "compile_collections ?ss (st_artifacts st) = Inr (Ok cols)"
    and h: "history (st_artifacts st) previous = Ok (arts, ds)" and g: "mk_marketplace_graph arts cols ds = Inr g"
    using c by (auto simp: compile_marketplace_graph_def Let_def mk_err_def split: sum.splits result.splits if_splits)
  note spec = add_sources_spec[OF st(1), unfolded empty_state_def, simplified]
  have tab: "st_artifacts st = source_table ?ss" using spec st(2) by (simp add: source_table_def)
  have d: "distinct (dict_keys (source_table ?ss))" using spec tab by simp
  have dp: "\<forall>p. previous = Some p \<longrightarrow> distinct (map ma_key (mg_artifacts p))" using p by (simp add: graph_ok_def)
  note hs = history_spec[OF h[unfolded tab] d dp, unfolded set_sort_key_current set_sort_key_kept]
  show acc: "\<forall>s \<in> set sources. source_accepted available s" using spec st(2) by simp
  have "distinct (map gs_alias ?ss)" "distinct (map gs_source_id ?ss)" using spec st(2) by simp_all
  then show "distinct (map gs_alias sources)" "distinct (map gs_source_id sources)" by (simp_all only: distinct_map_sort)
  show "\<forall>p old new. previous = Some p \<longrightarrow> old \<in> set (mg_artifacts p) \<longrightarrow> new \<in> current_artifacts sources \<longrightarrow>
         ma_key new = ma_key old \<longrightarrow> version_ok new old" using hs by blast
  show arts: "set (mg_artifacts g) = current_artifacts sources \<union> kept_artifacts sources previous"
    using mk_marketplace_graph_spec(2)[OF g] hs by simp
  have "list_all artifact_valid (mg_artifacts g)"
    unfolding list_all_iff arts using kept_valid[OF p] current_valid[OF acc] by blast
  then show "graph_ok g" using mk_marketplace_graph_spec[OF g] by (simp add: graph_ok_def)
  show "\<exists>cols. compile_collections ?ss (source_table ?ss) = Inr (Ok cols) \<and> set (mg_collections g) = set cols
       \<and> table_ok (source_table ?ss)"
    using cols tab mk_marketplace_graph_spec(5)[OF g] source_table_ok[OF d] by auto
qed

text \<open>
  C19. A compiled marketplace graph holds exactly what its inputs say. If compilation succeeds on a previous graph
  that satisfies the graph invariant, the new graph satisfies it (unique qualified keys,
  canonical order, every artifact under its source identity with a digest of its semantics); its
  artifacts are exactly the normalised artifacts of the sources and, marked removed, those of
  the previous graph that no source has any more; all source aliases and IDs are distinct, every
  required capability is available, every artifact declares its source; and every collection is
  the expansion of its manifest over the current artifacts.
\<close>

theorem compile_graph_exact:
  assumes "compile_marketplace_graph sources available previous = Inr (Ok g)"
    and "\<forall>p. previous = Some p \<longrightarrow> graph_ok p"
  shows "graph_ok g
    \<and> set (mg_artifacts g) = current_artifacts sources \<union> kept_artifacts sources previous
    \<and> distinct (map gs_alias sources) \<and> distinct (map gs_source_id sources)
    \<and> (\<forall>s \<in> set sources. set (gs_required_capabilities s) \<subseteq> set available
         \<and> (\<forall>a \<in> set (gs_artifacts s). ia_source_id a = gs_source_id s))
    \<and> (\<exists>manifests. set (map mc_coordinate (mg_collections g)) = set (source_coordinates sources)
         \<and> list_all (collection_ok manifests (source_table (sort_key source_order sources))) (mg_collections g))"
proof -
  let ?ss = "sort_key source_order sources"
  note f = compile_graph_facts[OF assms]
  obtain cols where cols: "compile_collections ?ss (source_table ?ss) = Inr (Ok cols)"
    "set (mg_collections g) = set cols" and tab: "table_ok (source_table ?ss)"
    using f(7) by blast
  obtain manifests ds where m: "collect_source_manifests ?ss ([], []) = Inr (manifests, ds)"
    using cols(1) by (auto simp: compile_collections_def split: sum.splits)
  have ok: "map mc_coordinate cols = sort (source_coordinates ?ss)" "list_all (collection_ok manifests (source_table ?ss)) cols"
    using compile_collections_spec[OF tab m] cols(1) by blast+
  have "set (source_coordinates ?ss) = set (source_coordinates sources)" by (simp add: source_coordinates_def)
  then have "set (map mc_coordinate (mg_collections g)) = set (source_coordinates sources)"
    using ok(1) cols(2) by (metis set_map set_sort)
  moreover have "list_all (collection_ok manifests (source_table ?ss)) (mg_collections g)"
    using ok(2) cols(2) by (simp add: list_all_iff)
  moreover have "\<forall>s \<in> set sources. set (gs_required_capabilities s) \<subseteq> set available
      \<and> (\<forall>a \<in> set (gs_artifacts s). ia_source_id a = gs_source_id s)"
    using f(3) by (auto simp: source_accepted_def)
  ultimately show ?thesis using f(1,2,4,5) by blast
qed

subsection \<open>Evolution of the graph\<close>

text \<open>A graph evolves by compiling new sources against it.\<close>

inductive evolves :: "marketplace_graph \<Rightarrow> marketplace_graph \<Rightarrow> bool" where
  evolve: "compile_marketplace_graph sources available (Some g) = Inr (Ok g') \<Longrightarrow> evolves g g'"

inductive_simps evolves_iff: "evolves g g'"

lemma version_ok_refl: "version_ok m m"
  by (simp add: version_ok_def content_changed_def semver_prec.irrefl)

lemma version_ok_trans:
  assumes "version_ok b a" "version_ok c b" shows "version_ok c a"
proof -
  let ?v = "\<lambda>m. ia_version (ma_artifact m)"
  have lt: "\<not> semver_lt (?v b) (?v a)" "\<not> semver_lt (?v c) (?v b)" using assms by (simp_all add: version_ok_def)
  have "\<not> content_changed c a" if "same_precedence (?v c) (?v a)"
  proof -
    have "\<not> semver_lt (?v a) (?v c)" using that semver_prec.eqv_iff by blast
    then have "same_precedence (?v b) (?v a)" "same_precedence (?v c) (?v b)"
      using lt semver_prec.not_lt_trans semver_prec.eqv_iff by blast+
    then show ?thesis using assms by (simp add: version_ok_def content_changed_def)
  qed
  then show ?thesis using lt semver_prec.not_lt_trans by (auto simp: version_ok_def)
qed

lemma version_ok_removed: "version_ok (removed m) m"
  using version_ok_refl[of m] by (simp add: version_ok_def removed_def content_changed_def)

lemma evolves_step:
  assumes "evolves g g'" "graph_ok g"
  shows "graph_ok g' \<and> (\<forall>old \<in> set (mg_artifacts g). \<exists>new \<in> set (mg_artifacts g'). ma_key new = ma_key old \<and> version_ok new old)"
proof -
  obtain sources available where c: "compile_marketplace_graph sources available (Some g) = Inr (Ok g')"
    using assms(1) by (auto simp: evolves_iff)
  note f = compile_graph_facts[OF c, simplified, OF assms(2)]
  have "\<exists>new \<in> set (mg_artifacts g'). ma_key new = ma_key old \<and> version_ok new old" if old: "old \<in> set (mg_artifacts g)" for old
  proof (cases "\<exists>new \<in> current_artifacts sources. ma_key new = ma_key old")
    case True
    then show ?thesis using f(2,6) old by blast
  next
    case False
    then have "removed old \<in> kept_artifacts sources (Some g)" using old by (force simp: kept_artifacts_def)
    then show ?thesis using f(2) version_ok_removed[of old] removed_key[of old] by blast
  qed
  then show ?thesis using f(1) by blast
qed

text \<open>
  C5. The marketplace never forgets and never goes back. However often the graph is recompiled against itself, with
  whatever sources, every artifact it ever had is still there under its qualified identity,
  its version has not decreased, and as long as its version has the same precedence its semantic,
  manifest, payload and object digests are the same.
\<close>

theorem graph_evolution_monotone:
  assumes "evolves\<^sup>*\<^sup>* g g'" and "graph_ok g"
  shows "graph_ok g' \<and> (\<forall>old \<in> set (mg_artifacts g). \<exists>new \<in> set (mg_artifacts g'). ma_key new = ma_key old
     \<and> \<not> semver_lt (ia_version (ma_artifact new)) (ia_version (ma_artifact old))
     \<and> (same_precedence (ia_version (ma_artifact new)) (ia_version (ma_artifact old)) \<longrightarrow>
          ma_semantic_digest new = ma_semantic_digest old
          \<and> ia_manifest_digest (ma_artifact new) = ia_manifest_digest (ma_artifact old)
          \<and> ia_payload_digest (ma_artifact new) = ia_payload_digest (ma_artifact old)
          \<and> ia_object_digest (ma_artifact new) = ia_object_digest (ma_artifact old)))"
proof -
  have "graph_ok g' \<and> (\<forall>old \<in> set (mg_artifacts g). \<exists>new \<in> set (mg_artifacts g'). ma_key new = ma_key old \<and> version_ok new old)"
    using assms(1)
  proof (induction rule: rtranclp_induct)
    case base
    then show ?case using assms(2) version_ok_refl by blast
  next
    case (step h h')
    then have h: "graph_ok h" by blast
    note s = evolves_step[OF step.hyps(2) h]
    have "\<exists>new \<in> set (mg_artifacts h'). ma_key new = ma_key old \<and> version_ok new old" if old: "old \<in> set (mg_artifacts g)" for old
    proof -
      obtain mid where mid: "mid \<in> set (mg_artifacts h)" "ma_key mid = ma_key old" "version_ok mid old"
        using step.IH[THEN conjunct2, rule_format, OF old] by blast
      obtain new where new: "new \<in> set (mg_artifacts h')" "ma_key new = ma_key mid" "version_ok new mid"
        using s[THEN conjunct2, rule_format, OF mid(1)] by blast
      show ?thesis using mid(2) new version_ok_trans[OF mid(3) new(3)] by (intro bexI[of _ new] conjI) (simp_all only:)
    qed
    then show ?case using s by blast
  qed
  then show ?thesis unfolding version_ok_def content_changed_def de_Morgan_disj not_not .
qed

subsection \<open>Sample\<close>

definition sample_graph :: marketplace_graph where
  "sample_graph =
     \<lparr>mg_artifacts = [compiled sample_source sample_artifact], mg_collections = [], mg_diagnostics = []\<rparr>"

lemma sample_graph_compiled:
  "compile_marketplace_graph [sample_source] [] None = Inr (Ok sample_graph)"
  "compile_marketplace_graph [sample_source] [] (Some sample_graph) = Inr (Ok sample_graph)"
proof -
  let ?k = "(SourceAlias ''main'', ArtifactIdentity ''skill'' ''a'')"
  let ?m = "compiled sample_source sample_artifact"
  have src: "gs_alias sample_source = SourceAlias ''main''" "gs_source_id sample_source = SourceId ''org''"
    "gs_required_capabilities sample_source = []" "gs_artifacts sample_source = [sample_artifact]"
    "gs_collections sample_source = []"
    by (simp_all add: sample_source_def)
  have art: "ia_source_id sample_artifact = SourceId ''org''" "ia_identity sample_artifact = ArtifactIdentity ''skill'' ''a''"
    by (simp_all add: sample_artifact_def)
  have m: "marketplace_artifact sample_source sample_artifact = Inr ?m"
    using marketplace_artifact_Inr[of sample_source sample_artifact ?m] by (simp add: src art)
  have st: "\<exists>st. add_sources [] [sample_source] empty_state = Inr st \<and> st_diagnostics st = [] \<and> st_artifacts st = [(?k, ?m)]"
    by (simp add: src art m check_source_def empty_state_def artifact_key_def)
  have cols: "compile_collections [sample_source] A = Inr (Ok [])" for A
    by (simp add: compile_collections_def src)
  have hist: "history [(?k, ?m)] None = Ok ([?m], [])" by (simp add: history_def)
  have hist': "history [(?k, ?m)] (Some sample_graph) = Ok ([?m], [])"
    using version_ok_refl[of ?m]
    by (simp add: history_def sample_graph_def dict_by_def src art artifact_key_def version_ok_def semver_prec.irrefl
        semver_prec.eqv_refl sort_diagnostics_def)
  show "compile_marketplace_graph [sample_source] [] None = Inr (Ok sample_graph)"
    using st cols hist
    by (auto simp: compile_marketplace_graph_def mk_marketplace_graph_def py_guard_def sample_graph_def sort_diagnostics_def
        simp del: add_sources.simps)
  show "compile_marketplace_graph [sample_source] [] (Some sample_graph) = Inr (Ok sample_graph)"
    using st cols hist'
    by (auto simp: compile_marketplace_graph_def mk_marketplace_graph_def py_guard_def sample_graph_def sort_diagnostics_def
        simp del: add_sources.simps)
qed

theorem compile_graph_exact_witness:
  "graph_ok sample_graph \<and> set (mg_artifacts sample_graph) = current_artifacts [sample_source] \<union> kept_artifacts [sample_source] None"
  using compile_graph_exact[OF sample_graph_compiled(1)] by blast

lemma sample_graph_ok: "graph_ok sample_graph"
  using compile_graph_facts(1)[OF sample_graph_compiled(1)] by simp

theorem graph_evolution_monotone_witness:
  "graph_ok sample_graph \<and> (\<exists>new \<in> set (mg_artifacts sample_graph). ma_key new = ma_key (compiled sample_source sample_artifact)
     \<and> \<not> semver_lt (ia_version (ma_artifact new)) (ia_version sample_artifact))"
proof -
  have "evolves\<^sup>*\<^sup>* sample_graph sample_graph"
    using evolve[OF sample_graph_compiled(2)] by blast
  moreover have "compiled sample_source sample_artifact \<in> set (mg_artifacts sample_graph)"
    "ia_version (ma_artifact (compiled sample_source sample_artifact)) = ia_version sample_artifact"
    by (simp_all add: sample_graph_def compiled_def normalize_artifact_def)
  ultimately show ?thesis using graph_evolution_monotone[OF _ sample_graph_ok] by metis
qed

end
