(* ===== verification/Selection.thy ===== *)
theory Selection
  imports Marketplace
begin

text \<open>
  Compatibility and selection (\<open>evaluate_compatibility\<close>, \<open>expand_collection\<close>,
  \<open>_requested_artifacts\<close> and \<open>select_artifacts\<close> of \<open>agent_artifacts/compiler/graph.py\<close>): which artifacts
  of the graph a target can install, and what a broad or explicit request selects, skips or
  rejects.
\<close>

definition supported :: "string list \<Rightarrow> string" where
  "supported labels = (if labels \<noteq> [] then join '', '' (sort labels) else ''none'')"

definition payload_reasons :: "marketplace_artifact \<Rightarrow> compatibility_target \<Rightarrow> compatibility_reason list" where
  "payload_reasons artifact target =
     (let manifest = ma_artifact artifact in
      (if \<not> allows (ia_requires_aart manifest) (ct_aart_version target) then
         [CompatibilityReason ''aart-version-unsupported''
            (''artifact requires AART '' @ version_bounds_label (ia_requires_aart manifest) @ ''; running AART ''
               @ semver_str (ct_aart_version target)
               @ '' may not support behavior used by this artifact, so installation is disabled'')] else [])
      @ (if ma_lifecycle artifact = REMOVED then
         [CompatibilityReason ''artifact-removed'' ''artifact was removed from its source''] else [])
      @ (if ct_profile target \<notin> set (comp_profiles (ia_compatibility manifest)) then
         [CompatibilityReason ''profile-unsupported''
            (''profile '' @ repr_str (ct_profile target) @ '' is not supported; supported profiles: ''
               @ supported (comp_profiles (ia_compatibility manifest)))] else [])
      @ (if ct_platform target \<notin> set (comp_platforms (ia_compatibility manifest)) then
         [CompatibilityReason ''platform-unsupported''
            (''platform '' @ repr_str (ct_platform target) @ '' is not supported; supported platforms: ''
               @ supported (comp_platforms (ia_compatibility manifest)))] else [])
      @ (if ct_scope target \<notin> set (inst_scopes (ia_install manifest)) then
         [CompatibilityReason ''scope-unsupported''
            (''scope '' @ repr_str (ct_scope target) @ '' is not supported; supported scopes: ''
               @ supported (inst_scopes (ia_install manifest)))] else [])
      @ (if ct_mode target \<notin> set (inst_modes (ia_install manifest)) then
         [CompatibilityReason ''mode-unsupported''
            (''mode '' @ repr_str (ct_mode target) @ '' is not supported; supported modes: ''
               @ supported (inst_modes (ia_install manifest)))] else [])
      @ map (\<lambda>effect. CompatibilityReason ''effect-unsupported''
               (''install effect '' @ repr_str effect @ '' is unavailable''))
          [effect \<leftarrow> inst_effects (ia_install manifest). effect \<notin> set (ct_effects target)])"

definition setup_reasons :: "marketplace_artifact \<Rightarrow> compatibility_target \<Rightarrow> compatibility_reason list" where
  "setup_reasons artifact target =
     (case ia_setup (ma_artifact artifact) of
        None \<Rightarrow> []
      | Some setup \<Rightarrow>
          (if ct_platform target \<notin> set (is_platforms setup) then
             [CompatibilityReason ''setup-platform-unsupported''
                (''setup does not support platform '' @ repr_str (ct_platform target) @ ''; supported platforms: ''
                   @ supported (is_platforms setup))] else [])
          @ (let missing = [c \<leftarrow> is_capabilities setup. c \<notin> set (ct_setup_capabilities target)] in
             if missing \<noteq> [] then
               [CompatibilityReason ''setup-capability-missing''
                  (''setup capabilities are unavailable: '' @ join '', '' (map capability_value missing))] else []))"

definition evaluate_compatibility :: "marketplace_artifact \<Rightarrow> compatibility_target \<Rightarrow> compatibility_decision" where
  "evaluate_compatibility artifact target =
     mk_compatibility_decision (payload_reasons artifact target) (setup_reasons artifact target)
       (ct_require_setup target)"

definition expand_collection ::
  "marketplace_graph \<Rightarrow> collection_coordinate \<Rightarrow> artifact_coordinate list result" where
  "expand_collection graph c =
     (case [x \<leftarrow> mg_collections graph. mc_coordinate x = c] of
        x # _ \<Rightarrow> Ok (mc_members x)
      | [] \<Rightarrow> mk_err [graph_error ARTIFACT_NOT_FOUND (''collection is not available: '' @ collection_str c) (cc_source c)])"

fun requested_members ::
  "marketplace_graph \<Rightarrow> collection_coordinate list \<Rightarrow> artifact_coordinate list \<Rightarrow> artifact_coordinate list result" where
  "requested_members graph [] requested = Ok requested"
| "requested_members graph (c # cs) requested =
     (case expand_collection graph c of
        Err ds \<Rightarrow> Err ds
      | Ok members \<Rightarrow> requested_members graph cs (requested @ members))"

definition requested_artifacts ::
  "marketplace_graph \<Rightarrow> selection_request \<Rightarrow> artifact_coordinate list result" where
  "requested_artifacts graph request =
     (case requested_members graph (srq_collections request) (srq_artifacts request) of
        Err ds \<Rightarrow> Err ds
      | Ok requested \<Rightarrow>
          if requested = [] \<and> srq_mode request = EXPLICIT then
            mk_err [graph_diagnostic ARTIFACT_NOT_FOUND
                      ''explicit selection requires at least one artifact or collection'' None ERROR []]
          else
            (let all = (if requested = [] then map ma_coordinate (mg_artifacts graph) else requested)
             in Ok (sort_key artifact_sort_key (remdups all))))"

definition coordinate_mismatch :: "artifact_coordinate \<Rightarrow> marketplace_artifact \<Rightarrow> bool" where
  "coordinate_mismatch c artifact \<longleftrightarrow>
     (case coord_version c of None \<Rightarrow> False | Some v \<Rightarrow> v \<noteq> semver_str (ia_version (ma_artifact artifact)))"

definition find_artifact :: "artifact_table \<Rightarrow> artifact_coordinate \<Rightarrow> marketplace_artifact option" where
  "find_artifact records c =
     (case dict_get records (artifact_key (coord_source c) (coord_artifact c)) of
        None \<Rightarrow> None
      | Some artifact \<Rightarrow> if coordinate_mismatch c artifact then None else Some artifact)"

definition not_found_reason :: "artifact_coordinate \<Rightarrow> compatibility_reason" where
  "not_found_reason c =
     CompatibilityReason ''artifact-not-found'' (''artifact is not available: '' @ coordinate_str c)"

definition rejection :: "marketplace_artifact \<Rightarrow> compatibility_decision \<Rightarrow> diagnostic" where
  "rejection artifact decision =
     graph_diagnostic (if ma_lifecycle artifact = REMOVED then ARTIFACT_NOT_FOUND else ARTIFACT_INCOMPATIBLE)
       (''cannot select '' @ coordinate_str (ma_coordinate artifact) @ '': ''
          @ join ''; '' (map reason_message (decision_reasons decision)))
       (Some (ma_source_alias artifact)) ERROR
       [(''reasons'', join '','' (map reason_code (decision_reasons decision)))]"

fun select_loop ::
  "artifact_table \<Rightarrow> selection_mode \<Rightarrow> compatibility_target \<Rightarrow> artifact_coordinate list
     \<Rightarrow> artifact_table \<Rightarrow> selection_skip list \<Rightarrow> diagnostic list
     \<Rightarrow> artifact_table \<times> selection_skip list \<times> diagnostic list" where
  "select_loop records mode target [] selected skipped diagnostics = (selected, skipped, diagnostics)"
| "select_loop records mode target (c # cs) selected skipped diagnostics =
     (case find_artifact records c of
        None \<Rightarrow>
          if mode = EXPLICIT then
            select_loop records mode target cs selected skipped
              (diagnostics @ [graph_error ARTIFACT_NOT_FOUND (reason_message (not_found_reason c)) (coord_source c)])
          else
            select_loop records mode target cs selected
              (skipped @ [mk_selection_skip c [not_found_reason c]]) diagnostics
      | Some artifact \<Rightarrow>
          (let decision = evaluate_compatibility artifact target in
           if compatible decision then
             select_loop records mode target cs (dict_set (ma_key artifact) artifact selected) skipped diagnostics
           else if mode = EXPLICIT then
             select_loop records mode target cs selected skipped (diagnostics @ [rejection artifact decision])
           else
             select_loop records mode target cs selected
               (skipped @ [mk_selection_skip (ma_coordinate artifact) (decision_reasons decision)]) diagnostics))"

definition select_artifacts :: "marketplace_graph \<Rightarrow> selection_request \<Rightarrow> selection_result result" where
  "select_artifacts graph request =
     (case requested_artifacts graph request of
        Err ds \<Rightarrow> Err ds
      | Ok requested \<Rightarrow>
          (case select_loop (dict_by ma_key (mg_artifacts graph)) (srq_mode request) (srq_target request) requested
                  [] [] [] of
             (selected, skipped, diagnostics) \<Rightarrow>
               if diagnostics \<noteq> [] then mk_err diagnostics
               else Ok (mk_selection_result (dict_values selected) skipped)))"

subsection \<open>Compatibility\<close>

text \<open>What it means that a target can install an artifact.\<close>

definition payload_installable :: "marketplace_artifact \<Rightarrow> compatibility_target \<Rightarrow> bool" where
  "payload_installable m t \<longleftrightarrow>
     allows (ia_requires_aart (ma_artifact m)) (ct_aart_version t) \<and> ma_lifecycle m = AVAILABLE
     \<and> ct_profile t \<in> set (comp_profiles (ia_compatibility (ma_artifact m)))
     \<and> ct_platform t \<in> set (comp_platforms (ia_compatibility (ma_artifact m)))
     \<and> ct_scope t \<in> set (inst_scopes (ia_install (ma_artifact m)))
     \<and> ct_mode t \<in> set (inst_modes (ia_install (ma_artifact m)))
     \<and> set (inst_effects (ia_install (ma_artifact m))) \<subseteq> set (ct_effects t)"

definition setup_possible :: "marketplace_artifact \<Rightarrow> compatibility_target \<Rightarrow> bool" where
  "setup_possible m t \<longleftrightarrow>
     (\<forall>s. ia_setup (ma_artifact m) = Some s \<longrightarrow>
        ct_platform t \<in> set (is_platforms s) \<and> set (is_capabilities s) \<subseteq> set (ct_setup_capabilities t))"

definition installable :: "marketplace_artifact \<Rightarrow> compatibility_target \<Rightarrow> bool" where
  "installable m t \<longleftrightarrow> payload_installable m t \<and> (ct_require_setup t \<longrightarrow> setup_possible m t)"

lemma lifecycle_not_removed: "l \<noteq> REMOVED \<longleftrightarrow> l = AVAILABLE"
  by (cases l) simp_all

lemma payload_reasons_Nil: "payload_reasons m t = [] \<longleftrightarrow> payload_installable m t"
  by (auto simp: payload_reasons_def payload_installable_def Let_def filter_empty_conv lifecycle_not_removed)

lemma setup_reasons_Nil: "setup_reasons m t = [] \<longleftrightarrow> setup_possible m t"
  by (auto simp: setup_reasons_def setup_possible_def Let_def filter_empty_conv split: option.splits)

lemma compatible_iff: "compatible (evaluate_compatibility m t) \<longleftrightarrow> installable m t"
  by (auto simp: compatible_def evaluate_compatibility_def mk_compatibility_decision_def payload_compatible_def
      setup_compatible_def installable_def payload_reasons_Nil setup_reasons_Nil)

lemma sort_Nil_iff: "sort xs = [] \<longleftrightarrow> xs = []"
  by (metis set_empty set_sort)

text \<open>
  C36. Compatibility decisions are exact and always explained. The decision says compatible exactly
  when the running AART version is in the artifact's bounds, the artifact is not
  removed, profile, platform, scope and mode are among the supported ones, every install effect is available and, if
  setup is required, the platform and capabilities it needs are there; and it is incompatible exactly when it
  lists a reason.
\<close>

theorem compatibility_exact:
  "(compatible (evaluate_compatibility m t) \<longleftrightarrow> installable m t)
   \<and> (compatible (evaluate_compatibility m t) \<longleftrightarrow> decision_reasons (evaluate_compatibility m t) = [])"
  unfolding compatible_iff
  by (auto simp: decision_reasons_def evaluate_compatibility_def mk_compatibility_decision_def Let_def sort_Nil_iff
      installable_def payload_reasons_Nil setup_reasons_Nil)

subsection \<open>Selection\<close>

declare split_paired_All [simp del] split_paired_Ex [simp del]

text \<open>A coordinate names an artifact: same source and identity and, if it gives a version, that version.\<close>

definition names :: "artifact_coordinate \<Rightarrow> marketplace_artifact \<Rightarrow> bool" where
  "names c m \<longleftrightarrow> ma_key m = artifact_key (coord_source c) (coord_artifact c)
     \<and> coord_version c \<in> {None, Some (semver_str (ia_version (ma_artifact m)))}"

lemma names_iff: "names c m \<longleftrightarrow> ma_key m = artifact_key (coord_source c) (coord_artifact c) \<and> \<not> coordinate_mismatch c m"
  by (auto simp: names_def coordinate_mismatch_def split: option.splits)

lemma find_artifact_iff:
  assumes "distinct (map ma_key ms)"
  shows "find_artifact (dict_by ma_key ms) c = Some m \<longleftrightarrow> m \<in> set ms \<and> names c m"
proof -
  have get: "dict_get (dict_by ma_key ms) k = Some m \<longleftrightarrow> m \<in> set ms \<and> ma_key m = k" for k m
  proof -
    have d: "distinct (dict_keys (map (\<lambda>x. (ma_key x, x)) ms))" using assms by (simp add: o_def)
    show ?thesis
      unfolding dict_by_distinct[OF assms] map_of_eq_Some_iff[OF d] by auto
  qed
  have "find_artifact (dict_by ma_key ms) c = Some m \<longleftrightarrow>
      dict_get (dict_by ma_key ms) (artifact_key (coord_source c) (coord_artifact c)) = Some m \<and> \<not> coordinate_mismatch c m"
    unfolding find_artifact_def by (auto split: option.split)
  then show ?thesis unfolding get names_iff by blast
qed

definition selected_by :: "artifact_table \<Rightarrow> compatibility_target \<Rightarrow> artifact_coordinate list \<Rightarrow> marketplace_artifact set" where
  "selected_by records t cs = {m. \<exists>c \<in> set cs. find_artifact records c = Some m \<and> installable m t}"

definition skip_of :: "artifact_table \<Rightarrow> compatibility_target \<Rightarrow> artifact_coordinate \<Rightarrow> selection_skip list" where
  "skip_of records t c =
     (case find_artifact records c of
        None \<Rightarrow> [mk_selection_skip c [not_found_reason c]]
      | Some m \<Rightarrow> if installable m t then []
                 else [mk_selection_skip (ma_coordinate m) (decision_reasons (evaluate_compatibility m t))])"

definition selection_inv :: "artifact_table \<Rightarrow> bool" where
  "selection_inv d \<longleftrightarrow> distinct (dict_keys d) \<and> (\<forall>p \<in> set d. fst p = ma_key (snd p))"

lemma selection_inv_set:
  assumes "selection_inv d"
  shows "selection_inv (dict_set (ma_key m) m d)"
    "(\<forall>x \<in> set (dict_values d). ma_key x = ma_key m \<longrightarrow> x = m) \<Longrightarrow>
       set (dict_values (dict_set (ma_key m) m d)) = insert m (set (dict_values d))"
proof -
  have d: "distinct (dict_keys d)" "distinct (dict_keys (dict_set (ma_key m) m d))"
    using assms by (simp_all add: selection_inv_def)
  have in_set: "(k, x) \<in> set (dict_set (ma_key m) m d) \<longleftrightarrow> (if k = ma_key m then x = m else (k, x) \<in> set d)" for k x
    using map_of_eq_Some_iff[OF d(2), of k x] map_of_eq_Some_iff[OF d(1), of k x] by (auto simp: update_conv')
  show "selection_inv (dict_set (ma_key m) m d)"
    using assms d(2) in_set by (auto simp: selection_inv_def split: if_splits)
  assume same: "\<forall>x \<in> set (dict_values d). ma_key x = ma_key m \<longrightarrow> x = m"
  show "set (dict_values (dict_set (ma_key m) m d)) = insert m (set (dict_values d))"
  proof (intro set_eqI iffI)
    fix x assume "x \<in> set (dict_values (dict_set (ma_key m) m d))"
    then show "x \<in> insert m (set (dict_values d))" using in_set by (force split: if_splits)
  next
    fix x assume x: "x \<in> insert m (set (dict_values d))"
    show "x \<in> set (dict_values (dict_set (ma_key m) m d))"
    proof (cases "x = m")
      case True
      then show ?thesis using in_set[of "ma_key m" m] by force
    next
      case False
      then obtain k where k: "(k, x) \<in> set d" "k = ma_key x" using x assms by (force simp: selection_inv_def)
      moreover have "ma_key x \<noteq> ma_key m" using same False k by force
      ultimately show ?thesis using in_set[of k x] by force
    qed
  qed
qed


lemma select_loop_explicit:
  "select_loop records EXPLICIT t cs sel sk ds = (sel', sk', ds') \<Longrightarrow>
     sk' = sk \<and> (\<exists>es. ds' = ds @ es)
     \<and> (ds' = ds \<longleftrightarrow> (\<forall>c \<in> set cs. \<exists>m. find_artifact records c = Some m \<and> installable m t))"
proof (induction cs arbitrary: sel ds)
  case (Cons c cs)
  show ?case
  proof (cases "\<exists>m. find_artifact records c = Some m \<and> installable m t")
    case True
    then obtain m where m: "find_artifact records c = Some m" "installable m t" by blast
    then have "select_loop records EXPLICIT t cs (dict_set (ma_key m) m sel) sk ds = (sel', sk', ds')"
      using Cons.prems by (simp add: compatible_iff)
    from Cons.IH[OF this] show ?thesis using m by auto
  next
    case False
    then obtain d where "select_loop records EXPLICIT t cs sel sk (ds @ [d]) = (sel', sk', ds')"
      using Cons.prems by (auto simp: compatible_iff Let_def split: option.splits)
    from Cons.IH[OF this] show ?thesis using False by auto
  qed
qed simp

lemma select_loop_broad:
  "select_loop records BROAD t cs sel sk ds = (sel', sk', ds') \<Longrightarrow>
     sk' = sk @ concat (map (skip_of records t) cs) \<and> ds' = ds"
proof (induction cs arbitrary: sel sk)
  case (Cons c cs)
  have "\<exists>sel1. select_loop records BROAD t cs sel1 (sk @ skip_of records t c) ds = (sel', sk', ds')"
  proof (cases "find_artifact records c")
    case None
    then show ?thesis using Cons.prems by (auto simp: skip_of_def)
  next
    case (Some m)
    then show ?thesis using Cons.prems by (cases "installable m t") (auto simp: compatible_iff Let_def skip_of_def)
  qed
  then show ?case using Cons.IH by fastforce
qed simp

lemma select_loop_selected:
  assumes uniq: "\<And>c c' m m'. find_artifact records c = Some m \<Longrightarrow> find_artifact records c' = Some m' \<Longrightarrow>
      ma_key m = ma_key m' \<Longrightarrow> m = m'"
  shows "select_loop records mode t cs sel sk ds = (sel', sk', ds') \<Longrightarrow> selection_inv sel \<Longrightarrow>
     \<forall>x \<in> set (dict_values sel). \<exists>c. find_artifact records c = Some x \<Longrightarrow>
     selection_inv sel' \<and> set (dict_values sel') = set (dict_values sel) \<union> selected_by records t cs"
proof (induction cs arbitrary: sel sk ds)
  case (Cons c cs)
  show ?case
  proof (cases "\<exists>m. find_artifact records c = Some m \<and> installable m t")
    case True
    then obtain m where m: "find_artifact records c = Some m" "installable m t" by blast
    have step: "select_loop records mode t cs (dict_set (ma_key m) m sel) sk ds = (sel', sk', ds')"
      using Cons.prems(1) m by (simp add: compatible_iff)
    have "\<forall>x \<in> set (dict_values sel). ma_key x = ma_key m \<longrightarrow> x = m" using Cons.prems(3) uniq m(1) by blast
    note set = selection_inv_set(2)[OF Cons.prems(2) this]
    have "selection_inv sel' \<and> set (dict_values sel') =
        set (dict_values (dict_set (ma_key m) m sel)) \<union> selected_by records t cs"
      using Cons.prems(3) m(1) unfolding set
      by (intro Cons.IH[OF step selection_inv_set(1)[OF Cons.prems(2)], unfolded set]) auto
    moreover have "selected_by records t (c # cs) = insert m (selected_by records t cs)"
      using m by (auto simp: selected_by_def)
    ultimately show ?thesis unfolding set by blast
  next
    case False
    then have "selected_by records t (c # cs) = selected_by records t cs" by (auto simp: selected_by_def)
    moreover obtain sk1 ds1 where "select_loop records mode t cs sel sk1 ds1 = (sel', sk', ds')"
      using Cons.prems(1) False by (auto simp: compatible_iff Let_def split: option.splits if_splits)
    ultimately show ?thesis using Cons.IH Cons.prems(2,3) by simp
  qed
qed (simp add: selected_by_def)

lemma names_unique: "names c m \<Longrightarrow> names c' n \<Longrightarrow> ma_key m = ma_key n \<Longrightarrow>
    distinct (map ma_key ms) \<Longrightarrow> m \<in> set ms \<Longrightarrow> n \<in> set ms \<Longrightarrow> m = n"
  by (auto simp: distinct_map inj_on_def)

lemma select_artifacts_run:
  assumes "distinct (map ma_key (mg_artifacts g))"
    and "select_loop (dict_by ma_key (mg_artifacts g)) mode t cs [] [] [] = (sel, sk, ds)"
  shows "set (dict_values sel) = {m \<in> set (mg_artifacts g). installable m t \<and> (\<exists>c \<in> set cs. names c m)}"
    and "distinct (map ma_key (dict_values sel))"
proof -
  note find = find_artifact_iff[OF assms(1)]
  have "selection_inv sel \<and> set (dict_values sel) =
      set (dict_values ([] :: artifact_table)) \<union> selected_by (dict_by ma_key (mg_artifacts g)) t cs"
    by (rule select_loop_selected[OF _ assms(2)])
      (auto simp: find selection_inv_def intro: names_unique[OF _ _ _ assms(1)])
  then have sel: "selection_inv sel" "set (dict_values sel) = selected_by (dict_by ma_key (mg_artifacts g)) t cs"
    by simp_all
  show "set (dict_values sel) = {m \<in> set (mg_artifacts g). installable m t \<and> (\<exists>c \<in> set cs. names c m)}"
    unfolding sel(2) selected_by_def find by blast
  have "map ma_key (dict_values sel) = dict_keys sel" using sel(1) by (auto simp: selection_inv_def)
  then show "distinct (map ma_key (dict_values sel))" using sel(1) unfolding selection_inv_def by metis
qed

text \<open>
  What a run of the loop returns for a list of coordinates. The skips of a broad run: the coordinates that name nothing, and the
  named artifacts that cannot be installed.
\<close>

definition loop_result :: "marketplace_graph \<Rightarrow> selection_mode \<Rightarrow> compatibility_target \<Rightarrow> artifact_coordinate list \<Rightarrow> selection_result result" where
  "loop_result g mode t cs =
     (case select_loop (dict_by ma_key (mg_artifacts g)) mode t cs [] [] [] of
        (selected, skipped, diagnostics) \<Rightarrow>
          if diagnostics \<noteq> [] then mk_err diagnostics else Ok (mk_selection_result (dict_values selected) skipped))"

definition skips :: "marketplace_artifact set \<Rightarrow> compatibility_target \<Rightarrow> artifact_coordinate set \<Rightarrow> selection_skip set" where
  "skips ms t cs =
     {\<lparr>sk_coordinate = c, sk_reasons = [not_found_reason c]\<rparr> | c. c \<in> cs \<and> \<not> (\<exists>m \<in> ms. names c m)}
     \<union> {\<lparr>sk_coordinate = ma_coordinate m, sk_reasons = sorted_set (decision_reasons (evaluate_compatibility m t))\<rparr> | m.
          m \<in> ms \<and> \<not> installable m t \<and> (\<exists>c \<in> cs. names c m)}"

lemma skip_of_set:
  assumes "distinct (map ma_key ms)"
  shows "(\<Union>c \<in> cs. set (skip_of (dict_by ma_key ms) t c)) = skips (set ms) t cs"
proof -
  note find = find_artifact_iff[OF assms]
  have one: "set (skip_of (dict_by ma_key ms) t c) =
      (if \<exists>m \<in> set ms. names c m then {} else {\<lparr>sk_coordinate = c, sk_reasons = [not_found_reason c]\<rparr>})
      \<union> {\<lparr>sk_coordinate = ma_coordinate m, sk_reasons = sorted_set (decision_reasons (evaluate_compatibility m t))\<rparr> | m.
          m \<in> set ms \<and> \<not> installable m t \<and> names c m}" for c
  proof (cases "find_artifact (dict_by ma_key ms) c")
    case None
    then have "\<not> (\<exists>m \<in> set ms. names c m)" by (metis find option.distinct(1))
    then show ?thesis using None by (auto simp: skip_of_def mk_selection_skip_def sorted_set_def)
  next
    case (Some m)
    then have "m \<in> set ms \<and> names c m" "\<And>n. n \<in> set ms \<Longrightarrow> names c n \<Longrightarrow> n = m"
      by (metis find option.inject)+
    then show ?thesis using Some by (auto simp: skip_of_def mk_selection_skip_def)
  qed
  show ?thesis unfolding one skips_def by (auto split: if_splits)
qed

lemma loop_result_exact:
  assumes g: "graph_ok g"
  shows "(is_ok (loop_result g mode t cs) \<longleftrightarrow>
            mode = BROAD \<or> (\<forall>c \<in> set cs. \<exists>m \<in> set (mg_artifacts g). names c m \<and> installable m t))
     \<and> (\<forall>r. loop_result g mode t cs = Ok r \<longrightarrow>
          set (sel_selected r) = {m \<in> set (mg_artifacts g). installable m t \<and> (\<exists>c \<in> set cs. names c m)}
          \<and> distinct (map ma_key (sel_selected r))
          \<and> (mode = EXPLICIT \<longrightarrow> sel_skipped r = [])
          \<and> (mode = BROAD \<longrightarrow> set (sel_skipped r) = skips (set (mg_artifacts g)) t (set cs)))"
proof -
  let ?records = "dict_by ma_key (mg_artifacts g)"
  have d: "distinct (map ma_key (mg_artifacts g))" using g by (simp add: graph_ok_def)
  obtain sel sk ds where run: "select_loop ?records (mode) (t) cs [] [] [] = (sel, sk, ds)"
    using prod_cases3 by blast
  note facts = select_artifacts_run[OF d run]
  have res: "loop_result g mode t cs = (if ds \<noteq> [] then mk_err ds else Ok (mk_selection_result (dict_values sel) sk))"
    by (simp add: loop_result_def run)
  have ok: "ds = [] \<longleftrightarrow> mode = BROAD \<or>
      (\<forall>c \<in> set cs. \<exists>m \<in> set (mg_artifacts g). names c m \<and> installable m t)"
    and ex: "mode = EXPLICIT \<Longrightarrow> sk = []"
    and br: "mode = BROAD \<Longrightarrow> sk = concat (map (skip_of ?records t) cs)"
  proof -
    show "mode = EXPLICIT \<Longrightarrow> sk = []" using select_loop_explicit run by fastforce
    show "mode = BROAD \<Longrightarrow> sk = concat (map (skip_of ?records t) cs)"
      using select_loop_broad run by fastforce
    show "ds = [] \<longleftrightarrow> mode = BROAD \<or>
        (\<forall>c \<in> set cs. \<exists>m \<in> set (mg_artifacts g). names c m \<and> installable m t)"
    proof (cases "mode")
      case EXPLICIT
      then have "ds = [] \<longleftrightarrow> (\<forall>c \<in> set cs. \<exists>m. find_artifact ?records c = Some m \<and> installable m t)"
        using select_loop_explicit[of ?records "t" cs "[]" "[]" "[]" sel sk ds] run by simp
      then show ?thesis unfolding find_artifact_iff[OF d] using EXPLICIT by auto
    next
      case BROAD
      then show ?thesis using select_loop_broad run by fastforce
    qed
  qed
  show ?thesis
  proof (intro conjI allI impI)
    show "is_ok (loop_result g mode t cs) \<longleftrightarrow> mode = BROAD \<or>
        (\<forall>c \<in> set cs. \<exists>m \<in> set (mg_artifacts g). names c m \<and> installable m t)"
      unfolding ok[symmetric] res by (simp add: is_ok_def mk_err_def)
  next
    fix r assume "loop_result g mode t cs = Ok r"
    then have r: "r = mk_selection_result (dict_values sel) sk" using res by (simp split: if_splits)
    show "set (sel_selected r) = {m \<in> set (mg_artifacts g). installable m t \<and> (\<exists>c \<in> set cs. names c m)}"
      using facts(1) by (simp add: r mk_selection_result_def)
    show "distinct (map ma_key (sel_selected r))"
      unfolding r mk_selection_result_def selection_result.simps distinct_map_sort_key by (rule facts(2))
    show "mode = EXPLICIT \<Longrightarrow> sel_skipped r = []"
      using ex by (simp add: r mk_selection_result_def)
    show "mode = BROAD \<Longrightarrow> set (sel_skipped r) = skips (set (mg_artifacts g)) t (set cs)"
      using br unfolding skip_of_set[OF d, symmetric] by (simp add: r mk_selection_result_def)
  qed
qed

text \<open>
  What a request asks for: the artifacts and the members of the collections that it names and, when that is nothing, every artifact
  of the graph.
\<close>

definition asked :: "marketplace_graph \<Rightarrow> selection_request \<Rightarrow> artifact_coordinate set" where
  "asked g req = set (srq_artifacts req)
     \<union> {c. \<exists>x \<in> set (mg_collections g). mc_coordinate x \<in> set (srq_collections req) \<and> c \<in> set (mc_members x)}"

definition wanted :: "marketplace_graph \<Rightarrow> selection_request \<Rightarrow> artifact_coordinate set" where
  "wanted g req = (if asked g req = {} then ma_coordinate ` set (mg_artifacts g) else asked g req)"

lemma expand_collection_member:
  assumes "distinct (map mc_coordinate (mg_collections g))" "x \<in> set (mg_collections g)"
  shows "expand_collection g (mc_coordinate x) = Ok (mc_members x)"
proof -
  let ?found = "[y \<leftarrow> mg_collections g. mc_coordinate y = mc_coordinate x]"
  have same: "\<And>y. y \<in> set (mg_collections g) \<Longrightarrow> mc_coordinate y = mc_coordinate x \<Longrightarrow> y = x"
    using assms by (auto simp: distinct_map inj_on_def)
  have "x \<in> set ?found" using assms(2) by simp
  then obtain y ys where found: "?found = y # ys" by (metis list.set_cases)
  then have "y \<in> set ?found" by simp
  then have "y = x" using same by simp
  then show ?thesis using found by (simp add: expand_collection_def)
qed

lemma expand_collection_missing:
  "c \<notin> mc_coordinate ` set (mg_collections g) \<Longrightarrow> \<not> is_ok (expand_collection g c)"
  using filter_empty_conv[of "\<lambda>x. mc_coordinate x = c" "mg_collections g"]
  by (auto simp: expand_collection_def is_ok_def mk_err_def)

lemma requested_members_exact:
  assumes d: "distinct (map mc_coordinate (mg_collections g))"
  shows "case requested_members g cs acc of
      Err _ \<Rightarrow> \<not> set cs \<subseteq> mc_coordinate ` set (mg_collections g)
    | Ok out \<Rightarrow> set cs \<subseteq> mc_coordinate ` set (mg_collections g)
        \<and> set out = set acc \<union> {c. \<exists>x \<in> set (mg_collections g). mc_coordinate x \<in> set cs \<and> c \<in> set (mc_members x)}"
proof (induction cs arbitrary: acc)
  case (Cons c cs)
  show ?case
  proof (cases "c \<in> mc_coordinate ` set (mg_collections g)")
    case True
    then obtain x where x: "x \<in> set (mg_collections g)" "c = mc_coordinate x" by blast
    then have "\<And>y. y \<in> set (mg_collections g) \<Longrightarrow> mc_coordinate y = c \<longleftrightarrow> y = x"
      using d by (auto simp: distinct_map inj_on_def)
    then show ?thesis
      using Cons[of "acc @ mc_members x"] x expand_collection_member[OF d x(1)] by (auto split: result.splits)
  next
    case False
    then show ?thesis using expand_collection_missing[of c g] by (auto simp: is_ok_def split: result.splits)
  qed
qed simp

lemma requested_artifacts_exact:
  assumes d: "distinct (map mc_coordinate (mg_collections g))"
  shows "case requested_artifacts g req of
      Err _ \<Rightarrow> \<not> set (srq_collections req) \<subseteq> mc_coordinate ` set (mg_collections g) \<or> srq_mode req = EXPLICIT \<and> asked g req = {}
    | Ok cs \<Rightarrow> set (srq_collections req) \<subseteq> mc_coordinate ` set (mg_collections g)
        \<and> (srq_mode req = BROAD \<or> asked g req \<noteq> {}) \<and> set cs = wanted g req"
proof (cases "requested_members g (srq_collections req) (srq_artifacts req)")
  case (Err ds)
  then show ?thesis
    using requested_members_exact[OF d, of "srq_collections req" "srq_artifacts req"] by (simp add: requested_artifacts_def)
next
  case (Ok out)
  then have out: "set (srq_collections req) \<subseteq> mc_coordinate ` set (mg_collections g)" "set out = asked g req"
    using requested_members_exact[OF d, of "srq_collections req" "srq_artifacts req"] by (simp_all add: asked_def)
  then have "out = [] \<longleftrightarrow> asked g req = {}" by (metis set_empty)
  with Ok out show ?thesis
    by (cases "srq_mode req") (auto simp: requested_artifacts_def wanted_def Let_def mk_err_def)
qed

text \<open>
  C20. A selection is exactly what was asked for and can be installed. In a compiled graph a request wants the artifacts and
  the members of the collections that it names or, when these are none, every artifact of the graph. It is accepted exactly when every
  collection that it names is in the graph and, for an explicit request, it names something and every coordinate that it wants
  names an installable artifact; a broad one needs no more. On success the selection holds precisely the
  installable artifacts that some wanted coordinate names, each once; an explicit success skips nothing, and a broad one skips
  precisely the wanted coordinates that name nothing and the wanted artifacts that cannot be installed, each with its reasons.
\<close>

theorem select_artifacts_exact:
  assumes g: "graph_ok g"
  shows "(is_ok (select_artifacts g req) \<longleftrightarrow>
            set (srq_collections req) \<subseteq> mc_coordinate ` set (mg_collections g)
            \<and> (srq_mode req = BROAD \<or> asked g req \<noteq> {}
                \<and> (\<forall>c \<in> asked g req. \<exists>m \<in> set (mg_artifacts g). names c m \<and> installable m (srq_target req))))
     \<and> (\<forall>r. select_artifacts g req = Ok r \<longrightarrow>
          set (sel_selected r) = {m \<in> set (mg_artifacts g). installable m (srq_target req) \<and> (\<exists>c \<in> wanted g req. names c m)}
          \<and> distinct (map ma_key (sel_selected r))
          \<and> (srq_mode req = EXPLICIT \<longrightarrow> sel_skipped r = [])
          \<and> (srq_mode req = BROAD \<longrightarrow> set (sel_skipped r) = skips (set (mg_artifacts g)) (srq_target req) (wanted g req)))"
proof -
  have d: "distinct (map mc_coordinate (mg_collections g))" using g by (simp add: graph_ok_def)
  show ?thesis
  proof (cases "requested_artifacts g req")
    case (Err ds)
    then have "\<not> is_ok (select_artifacts g req)" by (simp add: select_artifacts_def is_ok_def)
    with Err show ?thesis
      using requested_artifacts_exact[OF d, of req] by (auto simp: is_ok_def)
  next
    case (Ok cs)
    then have cs: "set (srq_collections req) \<subseteq> mc_coordinate ` set (mg_collections g)"
      "srq_mode req = BROAD \<or> asked g req \<noteq> {}" "set cs = wanted g req"
      using requested_artifacts_exact[OF d, of req] by simp_all
    have sel: "select_artifacts g req = loop_result g (srq_mode req) (srq_target req) cs"
      using Ok by (simp add: select_artifacts_def loop_result_def)
    note loop = loop_result_exact[OF g, of "srq_mode req" "srq_target req" cs, unfolded cs(3), folded sel]
    have "srq_mode req \<noteq> BROAD \<Longrightarrow> wanted g req = asked g req" using cs(2) by (auto simp: wanted_def)
    then have "is_ok (select_artifacts g req) \<longleftrightarrow> set (srq_collections req) \<subseteq> mc_coordinate ` set (mg_collections g)
        \<and> (srq_mode req = BROAD \<or> asked g req \<noteq> {}
            \<and> (\<forall>c \<in> asked g req. \<exists>m \<in> set (mg_artifacts g). names c m \<and> installable m (srq_target req)))"
      using conjunct1[OF loop] cs(1,2) by (cases "srq_mode req = BROAD") simp_all
    then show ?thesis using conjunct2[OF loop] by (rule conjI)
  qed
qed

definition sample_target :: compatibility_target where
  "sample_target =
     \<lparr>ct_profile = ''p'', ct_platform = ''linux'', ct_scope = ''user'', ct_mode = ''copy'', ct_effects = [''copy-tree''],
      ct_aart_version = \<lparr>sv_major = 1, sv_minor = 0, sv_patch = 0, sv_prerelease = [], sv_build = []\<rparr>,
      ct_setup_capabilities = [], ct_require_setup = False\<rparr>"

text \<open>The sample graph with a collection of its one artifact.\<close>

definition collection_graph :: marketplace_graph where
  "collection_graph = sample_graph\<lparr>mg_collections := [\<lparr>mc_coordinate = CollectionCoordinate (SourceAlias ''main'') ''all'',
     mc_summary = ''all'', mc_members = [ArtifactCoordinate (SourceAlias ''main'') (ArtifactIdentity ''skill'' ''a'') None]\<rparr>]\<rparr>"

text \<open>
  A broad request that names nothing selects the one artifact of the graph, and so does an explicit one that names only the collection;
  an explicit request that names nothing and one for an unknown collection are refused.
\<close>

theorem select_artifacts_exact_witness:
  "(\<exists>r. select_artifacts collection_graph (mk_selection_request BROAD sample_target [] []) = Ok r
      \<and> set (sel_selected r) = set (mg_artifacts collection_graph) \<and> sel_skipped r = [])
   \<and> (\<exists>r. select_artifacts collection_graph
          (mk_selection_request EXPLICIT sample_target [] [CollectionCoordinate (SourceAlias ''main'') ''all'']) = Ok r
      \<and> set (sel_selected r) = set (mg_artifacts collection_graph))
   \<and> \<not> is_ok (select_artifacts collection_graph (mk_selection_request EXPLICIT sample_target [] []))
   \<and> \<not> is_ok (select_artifacts collection_graph
          (mk_selection_request BROAD sample_target [] [CollectionCoordinate (SourceAlias ''main'') ''none'']))"
proof -
  let ?m = "compiled sample_source sample_artifact" and ?c = "ArtifactCoordinate (SourceAlias ''main'') (ArtifactIdentity ''skill'' ''a'') None"
  let ?none = "mk_selection_request BROAD sample_target [] []" and ?explicit = "mk_selection_request EXPLICIT sample_target [] []"
  let ?all = "mk_selection_request EXPLICIT sample_target [] [CollectionCoordinate (SourceAlias ''main'') ''all'']"
  let ?unknown = "mk_selection_request BROAD sample_target [] [CollectionCoordinate (SourceAlias ''main'') ''none'']"
  have g: "graph_ok collection_graph"
    using sample_graph_ok by (simp add: graph_ok_def collection_graph_def)
  note exact = select_artifacts_exact[OF g]
  have arts: "mg_artifacts collection_graph = [?m]" by (simp add: collection_graph_def sample_graph_def)
  have m: "installable ?m sample_target" "names ?c ?m" "names (ma_coordinate ?m) ?m"
    by (auto simp: compiled_def sample_source_def sample_artifact_def names_def ma_key_def artifact_key_def
        installable_def payload_installable_def sample_target_def normalize_artifact_def allows_def any_version_def sorted_set_def ma_coordinate_def)
  have asked: "asked collection_graph ?none = {}" "asked collection_graph ?explicit = {}" "asked collection_graph ?all = {?c}"
    by (auto simp: asked_def mk_selection_request_def sorted_set_def collection_graph_def)
  have fields: "srq_mode ?none = BROAD" "srq_target ?none = sample_target" "srq_collections ?none = []" "srq_mode ?explicit = EXPLICIT"
    "srq_mode ?all = EXPLICIT" "srq_target ?all = sample_target" "srq_collections ?all = [CollectionCoordinate (SourceAlias ''main'') ''all'']"
    "srq_collections ?unknown = [CollectionCoordinate (SourceAlias ''main'') ''none'']"
    by (simp_all add: mk_selection_request_def sorted_set_def)
  have none: "is_ok (select_artifacts collection_graph ?none)"
    using exact[of ?none] fields by simp
  have all: "is_ok (select_artifacts collection_graph ?all)"
    using exact[of ?all] fields asked m arts by (simp add: collection_graph_def)
  have "\<not> is_ok (select_artifacts collection_graph ?explicit)"
    using exact[of ?explicit] fields asked by simp
  moreover have "\<not> is_ok (select_artifacts collection_graph ?unknown)"
    using exact[of ?unknown] fields by (simp add: collection_graph_def)
  moreover obtain r where r: "select_artifacts collection_graph ?none = Ok r"
    using none by (auto simp: is_ok_def split: result.splits)
  moreover from this have "set (sel_selected r) = set (mg_artifacts collection_graph)" "set (sel_skipped r) = {}"
    using exact[of ?none] fields asked m arts by (auto simp: wanted_def skips_def)
  moreover obtain r' where r': "select_artifacts collection_graph ?all = Ok r'"
    using all by (auto simp: is_ok_def split: result.splits)
  moreover from this have "set (sel_selected r') = set (mg_artifacts collection_graph)"
    using exact[of ?all] fields asked m arts by (auto simp: wanted_def)
  ultimately show ?thesis by simp
qed

end
