(* ===== verification/Base64.thy ===== *)
theory Base64
  imports Bytes
begin

text \<open>
  The standard library's Base64 as the object envelopes use it: \<open>base64.b64encode\<close>, and
  \<open>base64.b64decode(s, validate=True)\<close>, which is the strict mode of \<open>binascii.a2b_base64\<close>: a
  scanner over the characters that keeps the position in the current group of four, the bits left over and
  the padding seen so far. \<open>None\<close> is the \<open>binascii.Error\<close> (or the \<open>ValueError\<close> for a text that is not ASCII).
\<close>

definition b64_digit :: "nat \<Rightarrow> char" where
  "b64_digit n =
     (if n < 26 then char_of (65 + n) else if n < 52 then char_of (71 + n)
      else if n < 62 then char_of (n - 4) else if n = 62 then CHR ''+'' else CHR ''/'')"

definition b64_val :: "char \<Rightarrow> nat option" where
  "b64_val c =
     (if is_upper c then Some (of_char c - 65) else if is_lower c then Some (of_char c - 71)
      else if is_digit c then Some (of_char c + 4) else if c = CHR ''+'' then Some 62
      else if c = CHR ''/'' then Some 63 else None)"

abbreviation pad_char :: char where "pad_char \<equiv> CHR ''=''"

fun b64encode :: "nat list \<Rightarrow> string" where
  "b64encode [] = []"
| "b64encode [a] = [b64_digit (a div 4), b64_digit (a mod 4 * 16), pad_char, pad_char]"
| "b64encode [a, b] =
     [b64_digit (a div 4), b64_digit (a mod 4 * 16 + b div 16), b64_digit (b mod 16 * 4), pad_char]"
| "b64encode (a # b # c # rest) =
     [b64_digit (a div 4), b64_digit (a mod 4 * 16 + b div 16), b64_digit (b mod 16 * 4 + c div 64), b64_digit (c mod 64)]
       @ b64encode rest"

text \<open>The state of the scanner: position in the group (0 to 3), left-over bits, padding characters counted, padding seen.\<close>

fun a2b_scan :: "nat \<Rightarrow> nat \<Rightarrow> nat \<Rightarrow> bool \<Rightarrow> string \<Rightarrow> nat list \<Rightarrow> nat list option" where
  "a2b_scan quad left pads started [] out = (if quad \<noteq> 0 then None else Some out)"
| "a2b_scan quad left pads started (ch # rest) out =
     (if ch = pad_char then
        (if quad \<ge> 2 \<and> quad + (pads + 1) \<ge> 4 then (if rest \<noteq> [] then None else Some out)
         else a2b_scan quad left (if quad \<ge> 2 then pads + 1 else pads) True rest out)
      else
        (case b64_val ch of
           None \<Rightarrow> None
         | Some v \<Rightarrow>
             if started then None
             else if quad = 0 then a2b_scan 1 v 0 False rest out
             else if quad = 1 then a2b_scan 2 (v mod 16) 0 False rest (out @ [(left * 4 + v div 16) mod 256])
             else if quad = 2 then a2b_scan 3 (v mod 4) 0 False rest (out @ [(left * 16 + v div 4) mod 256])
             else a2b_scan 0 0 0 False rest (out @ [(left * 64 + v) mod 256])))"

definition b64decode :: "string \<Rightarrow> nat list option" where
  "b64decode s =
     (if s \<noteq> [] \<and> hd s = pad_char then None else a2b_scan 0 0 0 False s [])"

definition b64encode_bytes :: "bytes \<Rightarrow> string" where
  "b64encode_bytes bs = b64encode (map unat bs)"

definition b64decode_bytes :: "string \<Rightarrow> bytes option" where
  "b64decode_bytes s = map_option (map of_nat) (b64decode s)"

subsection \<open>Decoding what was encoded\<close>

lemma is_upper_of_char: "is_upper c \<longleftrightarrow> 65 \<le> (of_char c :: nat) \<and> (of_char c :: nat) \<le> 90"
  by (simp add: is_upper_def between_def less_eq_char_def)

lemma is_lower_of_char: "is_lower c \<longleftrightarrow> 97 \<le> (of_char c :: nat) \<and> (of_char c :: nat) \<le> 122"
  by (simp add: is_lower_def between_def less_eq_char_def)

lemma b64_val_digit: "n < 64 \<Longrightarrow> b64_val (b64_digit n) = Some n"
proof -
  assume n: "n < 64"
  then consider "n < 26" | "26 \<le> n" "n < 52" | "52 \<le> n" "n < 62" | "n = 62" | "n = 63" by linarith
  then show ?thesis
    by cases (auto simp: b64_digit_def b64_val_def is_upper_of_char is_lower_of_char is_digit_of_char)
qed

lemma b64_digit_not_pad: "n < 64 \<Longrightarrow> b64_digit n \<noteq> pad_char"
  using b64_val_digit[of n] by (auto simp: b64_val_def is_upper_of_char is_lower_of_char is_digit_of_char)

lemma a2b_digit:
  "n < 64 \<Longrightarrow> a2b_scan quad left pads False (b64_digit n # rest) out =
     (if quad = 0 then a2b_scan 1 n 0 False rest out
      else if quad = 1 then a2b_scan 2 (n mod 16) 0 False rest (out @ [(left * 4 + n div 16) mod 256])
      else if quad = 2 then a2b_scan 3 (n mod 4) 0 False rest (out @ [(left * 16 + n div 4) mod 256])
      else a2b_scan 0 0 0 False rest (out @ [(left * 64 + n) mod 256]))"
  by (simp add: b64_val_digit b64_digit_not_pad)

lemma sextet_bounds:
  fixes a b c :: nat
  assumes "a < 256" "b < 256" "c < 256"
  shows "a div 4 < 64" "a mod 4 * 16 < 64" "a mod 4 * 16 + b div 16 < 64" "b mod 16 * 4 < 64"
    "b mod 16 * 4 + c div 64 < 64" "c mod 64 < 64"
proof -
  have "a mod 4 < 4" "b mod 16 < 16" "b div 16 < 16" "c div 64 < 4" using assms by simp_all
  then show "a div 4 < 64" "a mod 4 * 16 < 64" "a mod 4 * 16 + b div 16 < 64" "b mod 16 * 4 < 64"
    "b mod 16 * 4 + c div 64 < 64" "c mod 64 < 64"
    using assms by linarith+
qed

lemma octets:
  fixes a b c :: nat
  assumes "a < 256" "b < 256" "c < 256"
  shows "(a div 4 * 4 + (a mod 4 * 16 + b div 16) div 16) mod 256 = a"
    "((a mod 4 * 16 + b div 16) mod 16 * 16 + (b mod 16 * 4 + c div 64) div 4) mod 256 = b"
    "((b mod 16 * 4 + c div 64) mod 4 * 64 + c mod 64) mod 256 = c"
proof -
  have "b div 16 < 16" "c div 64 < 4" using assms by simp_all
  then have "(a mod 4 * 16 + b div 16) div 16 = a mod 4" "(a mod 4 * 16 + b div 16) mod 16 = b div 16"
    "(b mod 16 * 4 + c div 64) div 4 = b mod 16" "(b mod 16 * 4 + c div 64) mod 4 = c div 64"
    by simp_all
  then show "(a div 4 * 4 + (a mod 4 * 16 + b div 16) div 16) mod 256 = a"
    "((a mod 4 * 16 + b div 16) mod 16 * 16 + (b mod 16 * 4 + c div 64) div 4) mod 256 = b"
    "((b mod 16 * 4 + c div 64) mod 4 * 64 + c mod 64) mod 256 = c"
    using assms by simp_all
qed

lemma a2b_encode:
  "list_all (\<lambda>b. b < 256) bs \<Longrightarrow> a2b_scan 0 0 0 False (b64encode bs) out = Some (out @ bs)"
proof (induction bs arbitrary: out rule: b64encode.induct)
  case (2 a)
  then show ?case
    using sextet_bounds[of a 0 0] octets(1)[of a 0 0] by (simp add: a2b_digit del: a2b_scan.simps(2)) simp
next
  case (3 a b)
  then show ?case
    using sextet_bounds[of a b 0] octets(1,2)[of a b 0] by (simp add: a2b_digit del: a2b_scan.simps(2)) simp
next
  case (4 a b c rest)
  then show ?case
    using sextet_bounds[of a b c] octets[of a b c] by (simp add: a2b_digit del: a2b_scan.simps(2))
qed simp

lemma hd_b64encode: "list_all (\<lambda>b. b < 256) bs \<Longrightarrow> bs \<noteq> [] \<Longrightarrow> hd (b64encode bs) \<noteq> pad_char"
  by (cases bs rule: b64encode.cases) (auto intro!: b64_digit_not_pad)

lemma b64decode_encode: "list_all (\<lambda>b. b < 256) bs \<Longrightarrow> b64decode (b64encode bs) = Some bs"
  using hd_b64encode[of bs] a2b_encode[of bs "[]"] by (cases bs) (auto simp: b64decode_def simp del: a2b_scan.simps)

lemma b64decode_bytes_encode [simp]: "b64decode_bytes (b64encode_bytes bs) = Some bs"
proof -
  have "list_all (\<lambda>b. b < 256) (map unat bs)" by (simp add: list_all_iff unat_byte_less)
  then show ?thesis by (simp add: b64decode_bytes_def b64encode_bytes_def b64decode_encode o_def)
qed

lemma length_b64encode: "length (b64encode bs) = 4 * ((length bs + 2) div 3)"
proof (induction bs rule: b64encode.induct)
  case (4 a b c rest)
  have "(length (a # b # c # rest) + 2) div 3 = Suc ((length rest + 2) div 3)" by simp
  then show ?case using 4 by simp
qed simp_all

end
