(* ===== verification/StoreModel.thy ===== *)
theory StoreModel
  imports CompilerModel Base64
begin

text \<open>
  The values of the immutable object store (\<open>agent_artifacts/store/model.py\<close>): the managed layout of the
  store, the normalisation of a tree into its canonical entries, object envelopes and
  their strict reader, object references, leases, inventories and garbage collection plans.
\<close>

definition STORE_INVALID :: diagnostic_code where "STORE_INVALID = ''store-invalid''"
definition DIGEST_MISMATCH :: diagnostic_code where "DIGEST_MISMATCH = ''digest-mismatch''"
definition MAX_FILES :: nat where "MAX_FILES = 10000"
definition MAX_ENTRIES :: nat where "MAX_ENTRIES = 20000"
definition MAX_FILE_BYTES :: nat where "MAX_FILE_BYTES = 10 * 1024 * 1024"
definition MAX_TOTAL_BYTES :: nat where "MAX_TOTAL_BYTES = 100 * 1024 * 1024"
definition MAX_TREE_DEPTH :: nat where "MAX_TREE_DEPTH = 64"
definition MAX_ENVELOPE_BYTES :: nat where "MAX_ENVELOPE_BYTES = 150 * 1024 * 1024"
definition MAX_REFERENCES :: nat where "MAX_REFERENCES = 100000"
definition ENVELOPE_STRING_LENGTH :: nat where "ENVELOPE_STRING_LENGTH = 15 * 1024 * 1024"

text \<open>\<open>_OWNER_RE\<close>.\<close>

definition owner_char :: "char \<Rightarrow> bool" where
  "owner_char c \<longleftrightarrow> is_letter c \<or> is_digit c \<or> c \<in> set ''._:/@+-''"

definition owner_match :: "string \<Rightarrow> bool" where
  "owner_match s \<longleftrightarrow> s \<noteq> [] \<and> (is_letter (hd s) \<or> is_digit (hd s)) \<and> list_all owner_char (tl s) \<and> length (tl s) \<le> 511"

definition store_error :: "string \<Rightarrow> 'a result" where
  "store_error message = mk_err [error_diagnostic STORE_INVALID message]"

subsection \<open>Layout\<close>

record object_store_paths =
  osp_root :: string
  osp_objects :: string
  osp_state :: string
  osp_references_file :: string
  osp_lock_directory :: string
  osp_temporary_root :: string
  osp_quarantine :: string

definition normalized_absolute :: "string \<Rightarrow> bool" where
  "normalized_absolute path \<longleftrightarrow> isabs path \<and> normpath path = path"

definition join_all :: "string \<Rightarrow> string list \<Rightarrow> string" where
  "join_all root parts = foldl posix_join root parts"

definition mk_object_store_paths ::
  "string \<Rightarrow> string \<Rightarrow> string \<Rightarrow> string \<Rightarrow> string \<Rightarrow> string \<Rightarrow> string \<Rightarrow> object_store_paths py" where
  "mk_object_store_paths root objects state references_file lock_directory temporary_root quarantine =
     py_guard (root = ''/'') ''object store root cannot be the filesystem root''
       (py_guard (list_ex (\<lambda>path. \<not> normalized_absolute path)
            [root, objects, state, references_file, lock_directory, temporary_root, quarantine])
          ''object store paths must be normalized and absolute''
          (py_guard ([objects, state, references_file, lock_directory, temporary_root, quarantine] \<noteq>
               [join_all root [''objects'', ''sha256''], join_all root [''state''],
                join_all root [''state'', ''object-references.json''], join_all root [''locks'', ''store.lock''],
                join_all root [''tmp'', ''objects''], join_all root [''objects'', ''quarantine'']])
             ''object store paths must use the managed layout''
             (Inr \<lparr>osp_root = root, osp_objects = objects, osp_state = state, osp_references_file = references_file,
                   osp_lock_directory = lock_directory, osp_temporary_root = temporary_root,
                   osp_quarantine = quarantine\<rparr>)))"

definition object_store_paths :: "string \<Rightarrow> object_store_paths py" where
  "object_store_paths data_root =
     py_guard (\<not> normalized_absolute data_root) ''object store data root must be normalized and absolute''
       (mk_object_store_paths data_root
          (join_all data_root [''objects'', ''sha256'']) (join_all data_root [''state''])
          (join_all data_root [''state'', ''object-references.json'']) (join_all data_root [''locks'', ''store.lock''])
          (join_all data_root [''tmp'', ''objects'']) (join_all data_root [''objects'', ''quarantine'']))"

subsection \<open>Canonical trees\<close>

definition snapshot_kind_value :: "snapshot_entry_kind \<Rightarrow> string" where
  "snapshot_kind_value k =
     (case k of SE_FILE \<Rightarrow> ''file'' | SE_DIRECTORY \<Rightarrow> ''directory'' | SE_SYMLINK \<Rightarrow> ''symlink'' | SE_SPECIAL \<Rightarrow> ''special'')"

abbreviation entry_raw :: "snapshot_entry \<Rightarrow> string" where
  "entry_raw e \<equiv> path_str (sne_path e)"

type_synonym entry_table = "(string \<times> snapshot_entry) list"

definition directory_at :: "safe_relative_path \<Rightarrow> snapshot_entry" where
  "directory_at p = \<lparr>sne_path = p, sne_kind = SE_DIRECTORY, sne_content = [], sne_executable = False\<rparr>"

fun explicit_entries ::
  "snapshot_entry list \<Rightarrow> nat \<Rightarrow> entry_table \<Rightarrow> nat \<Rightarrow> nat \<Rightarrow> entry_table result" where
  "explicit_entries [] entry_count explicit file_count total_bytes = Ok explicit"
| "explicit_entries (entry # rest) entry_count explicit file_count total_bytes =
     (let raw = entry_raw entry in
      if entry_count + 1 > MAX_ENTRIES then store_error ''object exceeds maximum entry count''
      else if parse_relative_path raw None \<noteq> Ok (sne_path entry) \<or> raw \<in> set (dict_keys explicit) then
        store_error (''object entry path is invalid or duplicated: '' @ repr_str raw)
      else if length (path_parts (sne_path entry)) > MAX_TREE_DEPTH then
        store_error (''object entry exceeds maximum depth: '' @ raw)
      else (case sne_kind entry of
          SE_DIRECTORY \<Rightarrow>
            if sne_content entry \<noteq> [] \<or> sne_executable entry then
              store_error (''object directory has file metadata: '' @ raw)
            else explicit_entries rest (entry_count + 1) (dict_set raw entry explicit) file_count total_bytes
        | SE_FILE \<Rightarrow>
            (let file_count' = file_count + 1; total' = total_bytes + length (sne_content entry) in
             if file_count' > MAX_FILES then store_error ''object exceeds maximum file count''
             else if length (sne_content entry) > MAX_FILE_BYTES then
               store_error (''object file exceeds maximum size: '' @ raw)
             else if total' > MAX_TOTAL_BYTES then store_error ''object exceeds maximum total size''
             else explicit_entries rest (entry_count + 1) (dict_set raw entry explicit) file_count' total')
        | kind \<Rightarrow> store_error (''object contains forbidden '' @ snapshot_kind_value kind @ '': '' @ raw)))"

text \<open>The required directories of one entry, shortest first, and of all entries.\<close>

fun add_directories :: "string list \<Rightarrow> nat list \<Rightarrow> entry_table \<Rightarrow> entry_table result py" where
  "add_directories parts [] normalized = Inr (Ok normalized)"
| "add_directories parts (n # ns) normalized =
     (let directory = join ''/'' (take n parts) in
      case dict_get normalized directory of
        Some existing \<Rightarrow>
          if sne_kind existing \<noteq> SE_DIRECTORY then
            Inr (store_error (''object file conflicts with required directory: '' @ directory))
          else add_directories parts ns normalized
      | None \<Rightarrow>
          (case parse_relative_path directory None of
             Err _ \<Rightarrow> Inl AssertionError
           | Ok p \<Rightarrow> add_directories parts ns (dict_set directory (directory_at p) normalized)))"

fun required_directories :: "snapshot_entry list \<Rightarrow> entry_table \<Rightarrow> entry_table result py" where
  "required_directories [] normalized = Inr (Ok normalized)"
| "required_directories (entry # rest) normalized =
     (let parts = path_parts (sne_path entry) in
      case add_directories parts [1..<length parts] normalized of
        Inr (Ok normalized') \<Rightarrow> required_directories rest normalized'
      | other \<Rightarrow> other)"

definition normalized_entries :: "snapshot_entry list \<Rightarrow> snapshot_entry list result py" where
  "normalized_entries entries =
     (case explicit_entries entries 0 [] 0 0 of
        Err ds \<Rightarrow> Inr (Err ds)
      | Ok explicit \<Rightarrow>
          if explicit = [] then Inr (store_error ''object must contain at least one entry'')
          else (case required_directories (dict_values explicit) explicit of
              Inl e \<Rightarrow> Inl e
            | Inr (Err ds) \<Rightarrow> Inr (Err ds)
            | Inr (Ok normalized) \<Rightarrow> Inr (Ok (sort_key entry_raw (dict_values normalized)))))"

subsection \<open>Object envelopes\<close>

definition entry_json :: "snapshot_entry \<Rightarrow> json_value" where
  "entry_json entry =
     json_object ([(''executable'', JBool (sne_executable entry)),
                   (''kind'', JStr (snapshot_kind_value (sne_kind entry))),
                   (''path'', JStr (entry_raw entry))]
                  @ (if sne_kind entry = SE_FILE then
                       [(''content_base64'', JStr (b64encode_bytes (sne_content entry)))] else []))"

definition envelope_json :: "snapshot_entry list \<Rightarrow> json_value" where
  "envelope_json entries =
     json_object [(''entries'', JArray (map entry_json entries)), (''schema_version'', JInt 1)]"

definition canonical_object_bytes :: "snapshot_entry list \<Rightarrow> bytes" where
  "canonical_object_bytes entries = canonical_json_bytes (envelope_json entries)"

record object_candidate =
  oc_digest :: object_digest
  oc_entries :: "snapshot_entry list"
  oc_canonical_bytes :: bytes

definition mk_object_candidate ::
  "object_digest \<Rightarrow> snapshot_entry list \<Rightarrow> bytes \<Rightarrow> object_candidate py" where
  "mk_object_candidate digest entries canonical =
     (case normalized_entries entries of
        Inl e \<Rightarrow> Inl e
      | Inr normalized \<Rightarrow>
          py_guard (\<not> valid_digest digest \<or> length canonical > MAX_ENVELOPE_BYTES \<or> sha256_bytes canonical \<noteq> digest
              \<or> normalized \<noteq> Ok entries \<or> canonical_object_bytes entries \<noteq> canonical)
            ''object candidate must bind the exact safe canonical tree and bytes''
            (Inr \<lparr>oc_digest = digest, oc_entries = entries, oc_canonical_bytes = canonical\<rparr>))"

definition make_object_candidate ::
  "snapshot_entry list \<Rightarrow> object_digest option \<Rightarrow> object_candidate result py" where
  "make_object_candidate entries expected_digest =
     (case normalized_entries entries of
        Inl e \<Rightarrow> Inl e
      | Inr (Err ds) \<Rightarrow> Inr (Err ds)
      | Inr (Ok normalized) \<Rightarrow>
          (let canonical = canonical_object_bytes normalized; digest = sha256_bytes canonical in
           if length canonical > MAX_ENVELOPE_BYTES then
             Inr (store_error ''canonical object envelope exceeds maximum size'')
           else if (case expected_digest of None \<Rightarrow> False | Some d \<Rightarrow> \<not> valid_digest d \<or> digest \<noteq> d) then
             Inr (mk_err [error_diagnostic DIGEST_MISMATCH ''object bytes do not match expected digest''])
           else (case mk_object_candidate digest normalized canonical of
               Inl e \<Rightarrow> Inl e
             | Inr c \<Rightarrow> Inr (Ok c))))"

text \<open>
  The strict reader. \<open>None\<close>: the data denotes a code point above U+00FF. A field whose absence the test of
  the field names excludes is read with \<open>dict_get\<close>.
\<close>

definition object_fields :: "json_entries \<Rightarrow> string list \<Rightarrow> json_entries result" where
  "object_fields entries required =
     (if set (map fst entries) \<noteq> set required then store_error ''object envelope fields are invalid'' else Ok entries)"

definition envelope_entry :: "json_value \<Rightarrow> snapshot_entry result" where
  "envelope_entry v =
     (case v of
        JObject members \<Rightarrow>
          (let kind = dict_get members ''kind'';
               expected = (if kind = Some (JStr ''file'') then [''path'', ''kind'', ''executable'', ''content_base64'']
                           else [''path'', ''kind'', ''executable'']) in
           if set (map fst members) \<noteq> set expected then store_error ''object envelope entry fields are invalid''
           else (case (dict_get members ''path'', dict_get members ''executable'') of
               (Some (JStr raw_path), Some (JBool executable)) \<Rightarrow>
                 (case parse_relative_path raw_path None of
                    Err _ \<Rightarrow> store_error (''object envelope path is unsafe: '' @ repr_str raw_path)
                  | Ok path \<Rightarrow>
                      if kind = Some (JStr ''directory'') then
                        (if executable then store_error (''object envelope directory is executable: '' @ raw_path)
                         else Ok (directory_at path))
                      else (case dict_get members ''content_base64'' of
                          Some (JStr raw_content) \<Rightarrow>
                            if kind \<noteq> Some (JStr ''file'') then store_error ''object envelope entry kind is invalid''
                            else (case b64decode_bytes raw_content of
                                None \<Rightarrow> store_error (''object envelope content is not canonical base64: '' @ raw_path)
                              | Some content \<Rightarrow>
                                  Ok \<lparr>sne_path = path, sne_kind = SE_FILE, sne_content = content,
                                      sne_executable = executable\<rparr>)
                        | _ \<Rightarrow> store_error ''object envelope entry kind is invalid''))
             | _ \<Rightarrow> store_error ''object envelope entry types are invalid''))
      | _ \<Rightarrow> store_error ''object envelope entry must be an object'')"

fun envelope_entries :: "json_value list \<Rightarrow> snapshot_entry list \<Rightarrow> snapshot_entry list result" where
  "envelope_entries [] entries = Ok entries"
| "envelope_entries (v # vs) entries =
     (case envelope_entry v of Err ds \<Rightarrow> Err ds | Ok entry \<Rightarrow> envelope_entries vs (entries @ [entry]))"

definition parse_object_candidate ::
  "bytes \<Rightarrow> object_digest option \<Rightarrow> object_candidate result py option" where
  "parse_object_candidate data expected_digest =
     (if length data > MAX_ENVELOPE_BYTES then Some (Inr (store_error ''object envelope must be bounded bytes''))
      else (case parse_json data None MAX_DEPTH ENVELOPE_STRING_LENGTH of
          None \<Rightarrow> None
        | Some (Ok (JObject root_entries)) \<Rightarrow> Some
            (case object_fields root_entries [''schema_version'', ''entries''] of
               Err ds \<Rightarrow> Inr (Err ds)
             | Ok root \<Rightarrow>
                 if dict_get root ''schema_version'' \<noteq> Some (JInt 1) then
                   Inr (store_error ''object envelope schema version is unsupported'')
                 else (case dict_get root ''entries'' of
                     Some (JArray items) \<Rightarrow>
                       if length items > MAX_ENTRIES then
                         Inr (store_error ''object envelope exceeds maximum entry count'')
                       else (case envelope_entries items [] of
                           Err ds \<Rightarrow> Inr (Err ds)
                         | Ok entries \<Rightarrow>
                             (case make_object_candidate entries expected_digest of
                                Inl e \<Rightarrow> Inl e
                              | Inr (Err ds) \<Rightarrow> Inr (Err ds)
                              | Inr (Ok candidate) \<Rightarrow>
                                  if oc_canonical_bytes candidate \<noteq> data then
                                    Inr (store_error ''object envelope is not in canonical representation'')
                                  else Inr (Ok candidate)))
                   | _ \<Rightarrow> Inr (store_error ''object envelope entries must be an array'')))
        | _ \<Rightarrow> Some (Inr (store_error ''object envelope is not strict JSON''))))"

subsection \<open>What normalisation accepts\<close>

definition tree_entry_ok :: "snapshot_entry \<Rightarrow> bool" where
  "tree_entry_ok e \<longleftrightarrow> safe_path (sne_path e) \<and> length (path_parts (sne_path e)) \<le> MAX_TREE_DEPTH
     \<and> (sne_kind e = SE_DIRECTORY \<and> sne_content e = [] \<and> \<not> sne_executable e
        \<or> sne_kind e = SE_FILE \<and> length (sne_content e) \<le> MAX_FILE_BYTES)"

definition tree_files :: "snapshot_entry list \<Rightarrow> snapshot_entry list" where
  "tree_files es = [e \<leftarrow> es. sne_kind e = SE_FILE]"

definition tree_bytes :: "snapshot_entry list \<Rightarrow> nat" where
  "tree_bytes es = sum_list (map (length \<circ> sne_content) (tree_files es))"

definition within_limits :: "snapshot_entry list \<Rightarrow> bool" where
  "within_limits es \<longleftrightarrow> distinct (map entry_raw es) \<and> list_all tree_entry_ok es
     \<and> length (tree_files es) \<le> MAX_FILES \<and> tree_bytes es \<le> MAX_TOTAL_BYTES"

lemma store_error_not_Ok [simp]: "store_error m \<noteq> Ok v" "Ok v \<noteq> store_error m"
  by (simp_all add: store_error_def)

lemma tree_counts_Cons [simp]:
  "length (tree_files (e # es)) = (if sne_kind e = SE_FILE then 1 else 0) + length (tree_files es)"
  "tree_bytes (e # es) = (if sne_kind e = SE_FILE then length (sne_content e) else 0) + tree_bytes es"
  "tree_files [] = []" "tree_bytes [] = 0"
  by (simp_all add: tree_files_def tree_bytes_def)

lemma explicit_entries_Ok:
  "n \<le> MAX_ENTRIES \<Longrightarrow> f \<le> MAX_FILES \<Longrightarrow> t \<le> MAX_TOTAL_BYTES \<Longrightarrow>
   explicit_entries es n ex f t = Ok r \<longleftrightarrow>
     n + length es \<le> MAX_ENTRIES \<and> distinct (map entry_raw es)
     \<and> (\<forall>e \<in> set es. entry_raw e \<notin> set (dict_keys ex)) \<and> list_all tree_entry_ok es
     \<and> f + length (tree_files es) \<le> MAX_FILES \<and> t + tree_bytes es \<le> MAX_TOTAL_BYTES
     \<and> r = ex @ map (\<lambda>e. (entry_raw e, e)) es"
proof (induction es arbitrary: n ex f t)
  case (Cons e es)
  show ?case
  proof (cases "entry_raw e \<notin> set (dict_keys ex) \<and> n + 1 \<le> MAX_ENTRIES \<and> tree_entry_ok e
      \<and> f + (if sne_kind e = SE_FILE then 1 else 0) \<le> MAX_FILES
      \<and> t + (if sne_kind e = SE_FILE then length (sne_content e) else 0) \<le> MAX_TOTAL_BYTES")
    case True
    let ?f = "f + (if sne_kind e = SE_FILE then 1 else 0)"
    let ?t = "t + (if sne_kind e = SE_FILE then length (sne_content e) else 0)"
    have "explicit_entries (e # es) n ex f t = explicit_entries es (n + 1) (ex @ [(entry_raw e, e)]) ?f ?t"
      using True by (auto simp: tree_entry_ok_def parse_relative_path_Ok_iff Let_def dict_set_fresh)
    also have "\<dots> = Ok r \<longleftrightarrow> (n + 1) + length es \<le> MAX_ENTRIES \<and> distinct (map entry_raw es)
        \<and> (\<forall>x \<in> set es. entry_raw x \<notin> set (dict_keys (ex @ [(entry_raw e, e)]))) \<and> list_all tree_entry_ok es
        \<and> ?f + length (tree_files es) \<le> MAX_FILES \<and> ?t + tree_bytes es \<le> MAX_TOTAL_BYTES
        \<and> r = (ex @ [(entry_raw e, e)]) @ map (\<lambda>e. (entry_raw e, e)) es"
      using True by (intro Cons.IH) auto
    finally have eq: "explicit_entries (e # es) n ex f t = Ok r \<longleftrightarrow> (n + 1) + length es \<le> MAX_ENTRIES \<and> distinct (map entry_raw es)
        \<and> (\<forall>x \<in> set es. entry_raw x \<notin> set (dict_keys (ex @ [(entry_raw e, e)]))) \<and> list_all tree_entry_ok es
        \<and> ?f + length (tree_files es) \<le> MAX_FILES \<and> ?t + tree_bytes es \<le> MAX_TOTAL_BYTES
        \<and> r = (ex @ [(entry_raw e, e)]) @ map (\<lambda>e. (entry_raw e, e)) es" .
    have fresh: "(\<forall>x \<in> set es. entry_raw x \<notin> set (dict_keys (ex @ [(entry_raw e, e)]))) \<longleftrightarrow>
        (\<forall>x \<in> set es. entry_raw x \<notin> set (dict_keys ex)) \<and> entry_raw e \<notin> set (map entry_raw es)"
      by (simp add: image_iff) metis
    show ?thesis unfolding eq fresh using True by (simp add: add.assoc) argo
  next
    case False
    have "explicit_entries (e # es) n ex f t \<noteq> Ok r"
      using False Cons.prems
      by (cases "sne_kind e")
        (simp_all add: tree_entry_ok_def parse_relative_path_Ok_iff Let_def not_less not_le split: if_split, (meson not_le)+)
    then show ?thesis using False by auto
  qed
qed auto

subsection \<open>Required directories\<close>

definition ancestors :: "safe_relative_path \<Rightarrow> safe_relative_path set" where
  "ancestors p = (\<lambda>n. SafeRelativePath (take n (path_parts p))) ` {1..<length (path_parts p)}"

definition ancestors_of :: "snapshot_entry set \<Rightarrow> safe_relative_path set" where
  "ancestors_of E = (\<Union>e \<in> E. ancestors (sne_path e))"

definition with_directories :: "snapshot_entry set \<Rightarrow> safe_relative_path set \<Rightarrow> snapshot_entry set" where
  "with_directories E D = E \<union> directory_at ` (D - sne_path ` E)"

definition conflicting :: "snapshot_entry set \<Rightarrow> safe_relative_path set \<Rightarrow> bool" where
  "conflicting E D \<longleftrightarrow> (\<exists>e \<in> E. sne_path e \<in> D \<and> sne_kind e \<noteq> SE_DIRECTORY)"

definition entry_table_ok :: "entry_table \<Rightarrow> bool" where
  "entry_table_ok T \<longleftrightarrow> distinct (dict_keys T) \<and> (\<forall>(k, e) \<in> set T. k = entry_raw e \<and> safe_path (sne_path e))"

lemma directory_at_simps [simp]:
  "sne_path (directory_at p) = p" "sne_kind (directory_at p) = SE_DIRECTORY" "sne_content (directory_at p) = []"
  "\<not> sne_executable (directory_at p)"
  by (simp_all add: directory_at_def)

lemma with_directories_paths [simp]: "sne_path ` with_directories E D = sne_path ` E \<union> D"
  by (auto simp: with_directories_def image_Un image_image)

lemma with_directories_Un: "with_directories (with_directories E D) D' = with_directories E (D \<union> D')"
proof -
  have "D' - (sne_path ` E \<union> D) \<union> (D - sne_path ` E) = D \<union> D' - sne_path ` E" by auto
  then show ?thesis unfolding with_directories_def[of "with_directories E D"] with_directories_paths
    unfolding with_directories_def by (metis Un_assoc Un_commute image_Un)
qed

lemma conflicting_with_directories [simp]: "conflicting (with_directories E D) D' \<longleftrightarrow> conflicting E D'"
  by (auto simp: conflicting_def with_directories_def)

lemma with_directories_empty [simp]: "with_directories E {} = E" "\<not> conflicting E {}"
  by (simp_all add: with_directories_def conflicting_def)

lemma conflicting_Un: "conflicting E (D \<union> D') \<longleftrightarrow> conflicting E D \<or> conflicting E D'"
  by (auto simp: conflicting_def)

lemma safe_ancestor: "safe_path p \<Longrightarrow> q \<in> ancestors p \<Longrightarrow> safe_path q"
proof -
  assume p: "safe_path p" and "q \<in> ancestors p"
  then obtain n where n: "1 \<le> n" "n < length (path_parts p)" "q = SafeRelativePath (take n (path_parts p))"
    by (auto simp: ancestors_def)
  have "hd (take n (path_parts p)) = hd (path_parts p)" using n by (cases n) (auto simp: hd_conv_nth)
  moreover have "set (take n (path_parts p)) \<subseteq> set (path_parts p)" by (rule set_take_subset)
  ultimately show ?thesis using p n by (auto simp: safe_path_def list_all_iff)
qed

lemma entry_table_okD: "entry_table_ok T \<Longrightarrow> (k, e) \<in> set T \<Longrightarrow> k = entry_raw e \<and> safe_path (sne_path e)"
  by (auto simp: entry_table_ok_def)

lemma entry_table_get:
  assumes "entry_table_ok T" and "safe_path p"
  shows "dict_get T (path_str p) = Some e \<longleftrightarrow> e \<in> set (dict_values T) \<and> sne_path e = p"
proof -
  have d: "distinct (dict_keys T)" using assms(1) by (simp add: entry_table_ok_def)
  have "(path_str p, e) \<in> set T \<longleftrightarrow> e \<in> set (dict_values T) \<and> sne_path e = p"
  proof
    assume "(path_str p, e) \<in> set T"
    then show "e \<in> set (dict_values T) \<and> sne_path e = p"
      using entry_table_okD[OF assms(1)] path_str_inj[OF assms(2)] by (metis image_eqI set_map snd_conv)
  next
    assume e: "e \<in> set (dict_values T) \<and> sne_path e = p"
    then obtain k where "(k, e) \<in> set T" by auto
    then show "(path_str p, e) \<in> set T" using entry_table_okD[OF assms(1), of k e] e by simp
  qed
  then show ?thesis unfolding map_of_eq_Some_iff[OF d] .
qed

lemma entry_table_set:
  assumes "entry_table_ok T" and "safe_path p" and "p \<notin> sne_path ` set (dict_values T)"
  shows "entry_table_ok (dict_set (path_str p) (directory_at p) T)"
    and "set (dict_values (dict_set (path_str p) (directory_at p) T)) = with_directories (set (dict_values T)) {p}"
proof -
  have fresh: "path_str p \<notin> set (dict_keys T)"
  proof
    assume "path_str p \<in> set (dict_keys T)"
    then obtain e where e: "(path_str p, e) \<in> set T" by auto
    then have "sne_path e = p" using entry_table_okD[OF assms(1) e] path_str_inj[OF assms(2)] by metis
    then show False using assms(3) e by (metis image_eqI set_map snd_conv)
  qed
  have eq: "dict_set (path_str p) (directory_at p) T = T @ [(path_str p, directory_at p)]" by (rule dict_set_fresh[OF fresh])
  show "entry_table_ok (dict_set (path_str p) (directory_at p) T)"
    unfolding eq using assms(1,2) fresh by (auto simp: entry_table_ok_def)
  show "set (dict_values (dict_set (path_str p) (directory_at p) T)) = with_directories (set (dict_values T)) {p}"
    unfolding eq using assms(3) by (auto simp: with_directories_def)
qed

abbreviation table_entries :: "entry_table \<Rightarrow> snapshot_entry set" where
  "table_entries T \<equiv> set (dict_values T)"

definition prefix_paths :: "safe_relative_path \<Rightarrow> nat list \<Rightarrow> safe_relative_path set" where
  "prefix_paths p ns = (\<lambda>n. SafeRelativePath (take n (path_parts p))) ` set ns"

lemma add_directories_spec:
  assumes "safe_path p"
  shows "entry_table_ok T \<Longrightarrow> set ns \<subseteq> {1..<length (path_parts p)} \<Longrightarrow>
    (if conflicting (table_entries T) (prefix_paths p ns)
     then \<exists>ds. add_directories (path_parts p) ns T = Inr (Err ds)
     else \<exists>T'. add_directories (path_parts p) ns T = Inr (Ok T') \<and> entry_table_ok T'
            \<and> table_entries T' = with_directories (table_entries T) (prefix_paths p ns))"
proof (induction ns arbitrary: T)
  case Nil
  then show ?case by (simp add: prefix_paths_def)
next
  case (Cons n ns)
  define q where "q = SafeRelativePath (take n (path_parts p))"
  have q: "q \<in> ancestors p" "join ''/'' (take n (path_parts p)) = path_str q"
    using Cons.prems(2) by (auto simp: ancestors_def q_def path_str_def)
  have sq: "safe_path q" by (rule safe_ancestor[OF assms q(1)])
  have pq: "prefix_paths p (n # ns) = {q} \<union> prefix_paths p ns" by (auto simp: prefix_paths_def q_def)
  note get = entry_table_get[OF Cons.prems(1) sq]
  show ?case
  proof (cases "dict_get T (path_str q)")
    case None
    then have fresh: "q \<notin> sne_path ` table_entries T" using get by force
    let ?T = "dict_set (path_str q) (directory_at q) T"
    note set = entry_table_set[OF Cons.prems(1) sq fresh]
    have step: "add_directories (path_parts p) (n # ns) T = add_directories (path_parts p) ns ?T"
      using None sq parse_relative_path_Ok_iff[of "path_str q" None q] by (simp add: q(2))
    have no: "\<not> conflicting (table_entries T) {q}" using fresh by (auto simp: conflicting_def)
    show ?thesis
      using Cons.IH[OF set(1)] Cons.prems(2) no
      unfolding step set(2) pq conflicting_Un conflicting_with_directories with_directories_Un by auto
  next
    case (Some e)
    then have e: "e \<in> table_entries T" "sne_path e = q" using get by auto
    show ?thesis
    proof (cases "sne_kind e = SE_DIRECTORY")
      case True
      have step: "add_directories (path_parts p) (n # ns) T = add_directories (path_parts p) ns T"
        using Some True by (simp add: q(2))
      have no: "\<not> conflicting (table_entries T) {q}"
        using get Some True unfolding conflicting_def by (metis option.inject singletonD)
      have same: "with_directories (table_entries T) ({q} \<union> D) = with_directories (table_entries T) D" for D
        using e by (auto simp: with_directories_def)
      show ?thesis
        using Cons.IH[OF Cons.prems(1)] Cons.prems(2) no unfolding step pq conflicting_Un same by auto
    next
      case False
      then have "\<exists>ds. add_directories (path_parts p) (n # ns) T = Inr (Err ds)"
        using Some by (simp add: q(2) store_error_def mk_err_def)
      moreover have "conflicting (table_entries T) ({q} \<union> D)" for D using e False by (auto simp: conflicting_def)
      ultimately show ?thesis unfolding pq by simp
    qed
  qed
qed

lemma prefix_paths_all: "prefix_paths p [1..<length (path_parts p)] = ancestors p"
  by (simp add: prefix_paths_def ancestors_def)

lemma required_directories_spec:
  "entry_table_ok T \<Longrightarrow> \<forall>e \<in> set es. safe_path (sne_path e) \<Longrightarrow>
    (if conflicting (table_entries T) (ancestors_of (set es))
     then \<exists>ds. required_directories es T = Inr (Err ds)
     else \<exists>T'. required_directories es T = Inr (Ok T') \<and> entry_table_ok T'
            \<and> table_entries T' = with_directories (table_entries T) (ancestors_of (set es)))"
proof (induction es arbitrary: T)
  case Nil
  then show ?case by (simp add: ancestors_of_def)
next
  case (Cons e es)
  have split: "ancestors_of (set (e # es)) = ancestors (sne_path e) \<union> ancestors_of (set es)"
    by (simp add: ancestors_of_def)
  have "safe_path (sne_path e)" using Cons.prems(2) by simp
  note add = add_directories_spec[OF this Cons.prems(1), of "[1..<length (path_parts (sne_path e))]",
      unfolded prefix_paths_all]
  show ?case
  proof (cases "conflicting (table_entries T) (ancestors (sne_path e))")
    case True
    then obtain ds where "add_directories (path_parts (sne_path e)) [1..<length (path_parts (sne_path e))] T = Inr (Err ds)"
      using add by auto
    then have "required_directories (e # es) T = Inr (Err ds)" by (simp add: Let_def)
    then show ?thesis using True unfolding split conflicting_Un by (metis (full_types))
  next
    case False
    then obtain T' where T': "add_directories (path_parts (sne_path e)) [1..<length (path_parts (sne_path e))] T = Inr (Ok T')"
      "entry_table_ok T'" "table_entries T' = with_directories (table_entries T) (ancestors (sne_path e))"
      using add by auto
    have step: "required_directories (e # es) T = required_directories es T'" using T'(1) by (simp add: Let_def)
    have "\<forall>x \<in> set es. safe_path (sne_path x)" using Cons.prems(2) by simp
    from Cons.IH[OF T'(2) this] show ?thesis
      unfolding step T'(3) split conflicting_Un conflicting_with_directories with_directories_Un
      using False by (simp del: required_directories.simps)
  qed
qed

text \<open>The canonical tree of a set of entries: every required directory is there, in the order of the paths.\<close>

definition canonical_tree :: "snapshot_entry list \<Rightarrow> snapshot_entry list \<Rightarrow> bool" where
  "canonical_tree es ns \<longleftrightarrow> set ns = with_directories (set es) (ancestors_of (set es))
     \<and> sorted (map entry_raw ns) \<and> distinct (map entry_raw ns)"

definition tree_ok :: "snapshot_entry list \<Rightarrow> bool" where
  "tree_ok es \<longleftrightarrow> es \<noteq> [] \<and> length es \<le> MAX_ENTRIES \<and> within_limits es
     \<and> \<not> conflicting (set es) (ancestors_of (set es))"

lemma sorted_keys_set_unique:
  assumes "set xs = set ys" "sorted (map f xs)" "distinct (map f xs)" "sorted (map f ys)" "distinct (map f ys)"
  shows "xs = ys"
proof -
  have "distinct xs" "distinct ys" "inj_on f (set xs)" using assms(3,5) by (simp_all add: distinct_map)
  then have "sort_key f xs = sort_key f ys"
    using assms(1) set_eq_iff_mset_eq_distinct by (intro sort_key_perm_unique) blast+
  then show ?thesis using assms(2,4) by (simp add: sort_key_id_if_sorted)
qed

lemma canonical_tree_unique:
  assumes "canonical_tree es ns" and "canonical_tree es ns'"
  shows "ns = ns'"
  by (rule sorted_keys_set_unique[where f = entry_raw]) (use assms in \<open>simp_all add: canonical_tree_def\<close>)

lemma normalized_entries_spec:
  "normalized_entries es = Inr (Ok ns) \<longleftrightarrow> tree_ok es \<and> canonical_tree es ns"
  "\<exists>r. normalized_entries es = Inr r"
proof -
  let ?T = "map (\<lambda>e. (entry_raw e, e)) es"
  have ex: "explicit_entries es 0 [] 0 0 = Ok r \<longleftrightarrow> length es \<le> MAX_ENTRIES \<and> within_limits es \<and> r = ?T" for r
    using explicit_entries_Ok[of 0 0 0 es "[]" r] by (auto simp: within_limits_def)
  have vals: "dict_values ?T = es" by (induction es) simp_all
  consider (bad) ds where "explicit_entries es 0 [] 0 0 = Err ds"
    | (good) "explicit_entries es 0 [] 0 0 = Ok ?T" "length es \<le> MAX_ENTRIES" "within_limits es"
    using ex by (cases "explicit_entries es 0 [] 0 0") auto
  then have "(normalized_entries es = Inr (Ok ns) \<longleftrightarrow> tree_ok es \<and> canonical_tree es ns) \<and> (\<exists>r. normalized_entries es = Inr r)"
  proof cases
    case bad
    then show ?thesis using ex by (auto simp: normalized_entries_def tree_ok_def)
  next
    case good
    have T: "entry_table_ok ?T" and safe: "\<forall>e \<in> set es. safe_path (sne_path e)"
      using good(3) by (auto simp: entry_table_ok_def within_limits_def o_def list_all_iff tree_entry_ok_def)
    note req = required_directories_spec[OF T safe, unfolded vals]
    show ?thesis
    proof (cases "es = [] \<or> conflicting (set es) (ancestors_of (set es))")
      case True
      then show ?thesis
        using good req vals by (auto simp: normalized_entries_def tree_ok_def split: if_splits)
    next
      case False
      then obtain T' where T': "required_directories es ?T = Inr (Ok T')" "entry_table_ok T'"
        "table_entries T' = with_directories (set es) (ancestors_of (set es))"
        using req by auto
      have res: "normalized_entries es = Inr (Ok (sort_key entry_raw (dict_values T')))"
        using False good(1) T'(1) vals by (simp add: normalized_entries_def)
      have "map entry_raw (dict_values T') = dict_keys T'"
        using T'(2) by (auto simp: entry_table_ok_def)
      then have d: "distinct (map entry_raw (dict_values T'))"
        using T'(2) unfolding entry_table_ok_def by (metis (no_types))
      then have "canonical_tree es (sort_key entry_raw (dict_values T'))"
        using T'(3) d unfolding canonical_tree_def distinct_map_sort_key by simp
      then show ?thesis using res good False canonical_tree_unique by (auto simp: tree_ok_def)
    qed
  qed
  then show "normalized_entries es = Inr (Ok ns) \<longleftrightarrow> tree_ok es \<and> canonical_tree es ns"
    "\<exists>r. normalized_entries es = Inr r" by blast+
qed

subsection \<open>Normalisation is idempotent\<close>

lemma ancestors_trans: "q \<in> ancestors p \<Longrightarrow> r \<in> ancestors q \<Longrightarrow> r \<in> ancestors p"
  by (auto simp: ancestors_def min_def)

lemma ancestor_length: "q \<in> ancestors p \<Longrightarrow> length (path_parts q) < length (path_parts p)"
  by (auto simp: ancestors_def)

lemma tree_files_same:
  assumes "distinct xs" "distinct ys" "set (tree_files xs) = set (tree_files ys)"
  shows "length (tree_files xs) = length (tree_files ys)" "tree_bytes xs = tree_bytes ys"
proof -
  have "distinct (tree_files xs)" "distinct (tree_files ys)" using assms(1,2) by (simp_all add: tree_files_def)
  then have m: "mset (tree_files xs) = mset (tree_files ys)" using assms(3) set_eq_iff_mset_eq_distinct by blast
  then show "length (tree_files xs) = length (tree_files ys)" by (rule mset_eq_length)
  show "tree_bytes xs = tree_bytes ys" unfolding tree_bytes_def by (metis m mset_map sum_mset_sum_list)
qed

lemma canonical_tree_closed:
  assumes es: "tree_ok es" and ns: "canonical_tree es ns"
  shows "ns \<noteq> []" "within_limits ns" "\<not> conflicting (set ns) (ancestors_of (set ns))" "canonical_tree ns ns"
proof -
  let ?A = "ancestors_of (set es)"
  have set: "set ns = with_directories (set es) ?A" using ns by (simp add: canonical_tree_def)
  have anc: "ancestors_of (set ns) \<subseteq> ?A"
    unfolding set by (auto simp: ancestors_of_def with_directories_def intro: ancestors_trans)
  have ok: "tree_entry_ok e" if "e \<in> set es" for e using that es by (simp add: tree_ok_def within_limits_def list_all_iff)
  have dir: "tree_entry_ok (directory_at p)" if "p \<in> ?A" for p
  proof -
    from that obtain e where "e \<in> set es" "p \<in> ancestors (sne_path e)" by (auto simp: ancestors_of_def)
    then show ?thesis using ok[of e] safe_ancestor[of "sne_path e" p] ancestor_length[of p "sne_path e"]
      by (auto simp: tree_entry_ok_def)
  qed
  show "ns \<noteq> []" using es set by (auto simp: tree_ok_def with_directories_def)
  show "\<not> conflicting (set ns) (ancestors_of (set ns))"
    using es anc unfolding set tree_ok_def conflicting_with_directories by (auto simp: conflicting_def)
  have "ancestors_of (set ns) \<subseteq> sne_path ` set ns" using anc unfolding set by auto
  then have "with_directories (set ns) (ancestors_of (set ns)) = set ns" by (auto simp: with_directories_def)
  then show "canonical_tree ns ns" using ns by (simp add: canonical_tree_def)
  have d: "distinct ns" "distinct es" using ns es by (simp_all add: canonical_tree_def tree_ok_def within_limits_def distinct_map)
  have "set (tree_files ns) = set (tree_files es)"
    using set by (auto simp: tree_files_def with_directories_def)
  from tree_files_same[OF d this] show "within_limits ns"
    using es ns set ok dir by (auto simp: within_limits_def tree_ok_def canonical_tree_def list_all_iff with_directories_def)
qed

lemma normalized_entries_idem:
  assumes "tree_ok es" and "canonical_tree es ns"
  shows "normalized_entries ns = Inr (Ok ns) \<longleftrightarrow> length ns \<le> MAX_ENTRIES"
  using canonical_tree_closed[OF assms] normalized_entries_spec(1)[of ns ns] by (simp add: tree_ok_def)

definition candidate_ok :: "object_candidate \<Rightarrow> bool" where
  "candidate_ok c \<longleftrightarrow> tree_ok (oc_entries c) \<and> canonical_tree (oc_entries c) (oc_entries c)
     \<and> oc_canonical_bytes c = canonical_object_bytes (oc_entries c)
     \<and> oc_digest c = sha256_bytes (oc_canonical_bytes c) \<and> length (oc_canonical_bytes c) \<le> MAX_ENVELOPE_BYTES"

definition candidate_of :: "snapshot_entry list \<Rightarrow> object_candidate" where
  "candidate_of ns =
     \<lparr>oc_digest = sha256_bytes (canonical_object_bytes ns), oc_entries = ns, oc_canonical_bytes = canonical_object_bytes ns\<rparr>"

abbreviation digest_expected :: "object_digest option \<Rightarrow> object_digest \<Rightarrow> bool" where
  "digest_expected expected d \<equiv> (case expected of None \<Rightarrow> True | Some e \<Rightarrow> e = d)"

lemma candidate_ok_iff: "candidate_ok c \<longleftrightarrow> c = candidate_of (oc_entries c) \<and> tree_ok (oc_entries c)
    \<and> canonical_tree (oc_entries c) (oc_entries c) \<and> length (oc_canonical_bytes c) \<le> MAX_ENVELOPE_BYTES"
  by (cases c) (auto simp: candidate_ok_def candidate_of_def)

lemma mk_object_candidate_spec:
  "mk_object_candidate d es b = Inr c \<longleftrightarrow> candidate_ok c \<and> c = \<lparr>oc_digest = d, oc_entries = es, oc_canonical_bytes = b\<rparr>"
proof -
  obtain r where r: "normalized_entries es = Inr r" using normalized_entries_spec(2) by blast
  have "r = Ok es \<longleftrightarrow> tree_ok es \<and> canonical_tree es es" using normalized_entries_spec(1)[of es es] r by simp
  then show ?thesis
    using r by (auto simp: mk_object_candidate_def py_guard_def candidate_ok_def)
qed

lemma make_object_candidate_cases:
  assumes "normalized_entries es = Inr (Ok ns)" and "length (canonical_object_bytes ns) \<le> MAX_ENVELOPE_BYTES"
    and "digest_expected expected (sha256_bytes (canonical_object_bytes ns))"
  shows "make_object_candidate es expected =
    (if length ns \<le> MAX_ENTRIES then Inr (Ok (candidate_of ns))
     else Inl (ValueError ''object candidate must bind the exact safe canonical tree and bytes''))"
proof -
  have t: "tree_ok es" "canonical_tree es ns" using assms(1) normalized_entries_spec(1) by blast+
  have step: "make_object_candidate es expected =
      (case mk_object_candidate (sha256_bytes (canonical_object_bytes ns)) ns (canonical_object_bytes ns) of
         Inl e \<Rightarrow> Inl e | Inr c \<Rightarrow> Inr (Ok c))"
    using assms by (simp add: make_object_candidate_def Let_def split: option.splits)
  obtain r where r: "normalized_entries ns = Inr r" using normalized_entries_spec(2) by blast
  have "r = Ok ns \<longleftrightarrow> length ns \<le> MAX_ENTRIES" using normalized_entries_idem[OF t] r by simp
  then show ?thesis unfolding step using r assms(2) by (simp add: mk_object_candidate_def py_guard_def candidate_of_def)
qed

lemma make_object_candidate_Ok:
  "make_object_candidate es expected = Inr (Ok c) \<longleftrightarrow>
     tree_ok es \<and> canonical_tree es (oc_entries c) \<and> candidate_ok c \<and> digest_expected expected (oc_digest c)"
  (is "?L \<longleftrightarrow> ?R")
proof
  assume L: ?L
  then obtain ns where ns: "normalized_entries es = Inr (Ok ns)" "length (canonical_object_bytes ns) \<le> MAX_ENVELOPE_BYTES"
    "digest_expected expected (sha256_bytes (canonical_object_bytes ns))"
    by (auto simp: make_object_candidate_def Let_def store_error_def mk_err_def
        split: sum.splits result.splits option.splits if_splits)
  have t: "tree_ok es" "canonical_tree es ns" using ns(1) normalized_entries_spec(1) by blast+
  have c: "c = candidate_of ns" "length ns \<le> MAX_ENTRIES"
    using L make_object_candidate_cases[OF ns] by (auto split: if_splits)
  have "digest_expected expected (oc_digest c)" using ns(3) by (simp add: c(1) candidate_of_def split: option.splits)
  then show ?R using t ns(2) c canonical_tree_closed[OF t] by (simp add: candidate_ok_def candidate_of_def tree_ok_def)
next
  assume R: ?R
  have c: "c = candidate_of (oc_entries c)" using R candidate_ok_iff by blast
  have n: "normalized_entries es = Inr (Ok (oc_entries c))" using R normalized_entries_spec(1) by blast
  have "make_object_candidate es expected =
    (if length (oc_entries c) \<le> MAX_ENTRIES then Inr (Ok (candidate_of (oc_entries c)))
     else Inl (ValueError ''object candidate must bind the exact safe canonical tree and bytes''))"
    using R unfolding candidate_ok_def by (intro make_object_candidate_cases[OF n]) metis+
  then show ?L using R c by (simp add: candidate_ok_def tree_ok_def)
qed

lemma make_object_candidate_raises:
  "make_object_candidate es expected = Inl x \<longleftrightarrow>
     (\<exists>ns. tree_ok es \<and> canonical_tree es ns \<and> MAX_ENTRIES < length ns
        \<and> length (canonical_object_bytes ns) \<le> MAX_ENVELOPE_BYTES
        \<and> digest_expected expected (sha256_bytes (canonical_object_bytes ns))
        \<and> x = ValueError ''object candidate must bind the exact safe canonical tree and bytes'')"
  (is "?L \<longleftrightarrow> ?R")
proof
  assume L: ?L
  then obtain ns where ns: "normalized_entries es = Inr (Ok ns)" "length (canonical_object_bytes ns) \<le> MAX_ENVELOPE_BYTES"
    "digest_expected expected (sha256_bytes (canonical_object_bytes ns))"
    using normalized_entries_spec(2)[of es]
    by (auto simp: make_object_candidate_def Let_def split: result.splits option.splits if_splits)
  then show ?R using make_object_candidate_cases[OF ns] L normalized_entries_spec(1)
    by (auto split: if_splits)
next
  assume ?R
  then obtain ns where ns: "normalized_entries es = Inr (Ok ns)" "length (canonical_object_bytes ns) \<le> MAX_ENVELOPE_BYTES"
    "digest_expected expected (sha256_bytes (canonical_object_bytes ns))" "MAX_ENTRIES < length ns"
    "x = ValueError ''object candidate must bind the exact safe canonical tree and bytes''"
    using normalized_entries_spec(1) by blast
  then show ?L using make_object_candidate_cases[OF ns(1-3)] by simp
qed

subsection \<open>Strict canonical codecs\<close>

text \<open>
  A strict reader of a canonical form: it accepts exactly the bytes the writer produces. Two stored documents are
  read with such readers, object envelopes here and the reference index of the store.
\<close>

locale canonical_codec =
  fixes encode :: "'a \<Rightarrow> bytes" and decode :: "bytes \<Rightarrow> 'a option" and valid :: "'a \<Rightarrow> bool"
  assumes decode_encode: "valid x \<Longrightarrow> decode (encode x) = Some x"
    and decode_sound: "decode d = Some x \<Longrightarrow> valid x \<and> encode x = d"
begin

lemma decode_iff: "decode d = Some x \<longleftrightarrow> valid x \<and> d = encode x"
  using decode_encode decode_sound by auto

lemma encode_inj: "valid x \<Longrightarrow> valid y \<Longrightarrow> encode x = encode y \<Longrightarrow> x = y"
  using decode_encode by (metis option.inject)

lemma digest_binds:
  assumes "valid x" and "valid y" and "sha256_bytes (encode x) = sha256_bytes (encode y)"
  shows "x = y \<or> encode x \<noteq> encode y \<and> sha256_digest (encode x) = sha256_digest (encode y)"
  using assms encode_inj sha256_bytes_eq by blast

end

subsection \<open>Reading envelopes\<close>

lemma entry_json_members:
  "entry_json e = JObject
     ((if sne_kind e = SE_FILE then [(''content_base64'', JStr (b64encode_bytes (sne_content e)))] else [])
      @ [(''executable'', JBool (sne_executable e)), (''kind'', JStr (snapshot_kind_value (sne_kind e))),
         (''path'', JStr (entry_raw e))])"
  by (simp add: entry_json_def json_object_def)

lemma envelope_json_members:
  "envelope_json es = JObject [(''entries'', JArray (map entry_json es)), (''schema_version'', JInt 1)]"
  by (simp add: envelope_json_def json_object_def)

lemma wf_envelope_json: "wf_json (envelope_json es)"
proof -
  have "wf_json (entry_json e)" for e unfolding entry_json_def by (rule wf_json_object) simp_all
  then show ?thesis unfolding envelope_json_def
    by (intro wf_json_object) (simp_all add: protocol_int_def MIN_PROTOCOL_INTEGER_def MAX_PROTOCOL_INTEGER_def)
qed

lemma envelope_entry_json:
  assumes "tree_entry_ok e"
  shows "envelope_entry (entry_json e) = Ok e"
proof -
  have p: "parse_relative_path (entry_raw e) None = Ok (sne_path e)"
    using assms parse_relative_path_Ok_iff by (simp add: tree_entry_ok_def)
  show ?thesis
  proof (cases "sne_kind e")
    case SE_FILE
    then have "entry_json e = JObject [(''content_base64'', JStr (b64encode_bytes (sne_content e))),
        (''executable'', JBool (sne_executable e)), (''kind'', JStr ''file''), (''path'', JStr (entry_raw e))]"
      by (simp add: entry_json_members snapshot_kind_value_def)
    moreover have "{''content_base64'', ''executable'', ''kind'', ''path''} = {''path'', ''kind'', ''executable'', ''content_base64''}"
      by blast
    ultimately show ?thesis using SE_FILE p by (simp add: envelope_entry_def Let_def)
  next
    case SE_DIRECTORY
    then have "entry_json e = JObject [(''executable'', JBool False), (''kind'', JStr ''directory''), (''path'', JStr (entry_raw e))]"
      using assms by (simp add: entry_json_members snapshot_kind_value_def tree_entry_ok_def)
    moreover have "{''executable'', ''kind'', ''path''} = {''path'', ''kind'', ''executable''}" by blast
    moreover have "directory_at (sne_path e) = e"
      using assms SE_DIRECTORY by (cases e) (simp add: tree_entry_ok_def directory_at_def)
    ultimately show ?thesis using p by (simp add: envelope_entry_def Let_def)
  qed (use assms in \<open>simp_all add: tree_entry_ok_def\<close>)
qed

lemma envelope_entries_json:
  "list_all tree_entry_ok es \<Longrightarrow> envelope_entries (map entry_json es) acc = Ok (acc @ es)"
  by (induction es arbitrary: acc) (simp_all add: envelope_entry_json)

definition readable :: "object_candidate \<Rightarrow> bool" where
  "readable c \<longleftrightarrow> list_all (\<lambda>e. length (entry_raw e) \<le> ENVELOPE_STRING_LENGTH) (oc_entries c)"

lemma content_length:
  "length (sne_content e) \<le> MAX_FILE_BYTES \<Longrightarrow> length (b64encode_bytes (sne_content e)) \<le> ENVELOPE_STRING_LENGTH"
  by (simp add: b64encode_bytes_def length_b64encode MAX_FILE_BYTES_def ENVELOPE_STRING_LENGTH_def)

lemma fits_envelope:
  assumes "list_all tree_entry_ok es"
  shows "fits 0 MAX_DEPTH ENVELOPE_STRING_LENGTH (envelope_json es) \<longleftrightarrow>
    list_all (\<lambda>e. length (entry_raw e) \<le> ENVELOPE_STRING_LENGTH) es"
proof -
  have "fits 2 MAX_DEPTH ENVELOPE_STRING_LENGTH (entry_json e) \<longleftrightarrow> length (entry_raw e) \<le> ENVELOPE_STRING_LENGTH"
    if "tree_entry_ok e" for e
    using that content_length[of e]
    by (auto simp: entry_json_members tree_entry_ok_def snapshot_kind_value_def ENVELOPE_STRING_LENGTH_def)
  then show ?thesis using assms
    by (auto simp: envelope_json_members list_all_iff ENVELOPE_STRING_LENGTH_def numeral_2_eq_2)
qed

definition decode_candidate :: "object_digest option \<Rightarrow> bytes \<Rightarrow> object_candidate option" where
  "decode_candidate expected data =
     (case parse_object_candidate data expected of Some (Inr (Ok c)) \<Rightarrow> Some c | _ \<Rightarrow> None)"

lemma decode_candidate_iff:
  "decode_candidate expected data = Some c \<longleftrightarrow> parse_object_candidate data expected = Some (Inr (Ok c))"
  by (auto simp: decode_candidate_def split: option.splits sum.splits result.splits)

lemma parse_object_candidate_sound:
  assumes "parse_object_candidate data expected = Some (Inr (Ok c))"
  shows "candidate_ok c" "oc_canonical_bytes c = data" "digest_expected expected (oc_digest c)" "readable c"
proof -
  obtain v es where v: "parse_json data None MAX_DEPTH ENVELOPE_STRING_LENGTH = Some (Ok v)"
    and m: "make_object_candidate es expected = Inr (Ok c)" and d: "oc_canonical_bytes c = data"
    using assms
    by (auto simp: parse_object_candidate_def split: if_splits option.splits result.splits json_value.splits sum.splits)
  show ok: "candidate_ok c" and "digest_expected expected (oc_digest c)" using m make_object_candidate_Ok by blast+
  show "oc_canonical_bytes c = data" by (rule d)
  have "data = canonical_json_bytes (envelope_json (oc_entries c))"
    using ok d by (simp add: candidate_ok_def canonical_object_bytes_def)
  then have "fits 0 MAX_DEPTH ENVELOPE_STRING_LENGTH (envelope_json (oc_entries c))"
    using v parse_canonical_iff[OF wf_envelope_json] by metis
  then show "readable c"
    using fits_envelope ok by (simp add: candidate_ok_def tree_ok_def within_limits_def readable_def)
qed

lemma parse_object_candidate_complete:
  assumes c: "candidate_ok c" and "readable c" and "digest_expected expected (oc_digest c)"
  shows "parse_object_candidate (oc_canonical_bytes c) expected = Some (Inr (Ok c))"
proof -
  have ok: "list_all tree_entry_ok (oc_entries c)" "length (oc_entries c) \<le> MAX_ENTRIES"
    "length (oc_canonical_bytes c) \<le> MAX_ENVELOPE_BYTES"
    using c unfolding candidate_ok_def tree_ok_def within_limits_def by blast+
  have "fits 0 MAX_DEPTH ENVELOPE_STRING_LENGTH (envelope_json (oc_entries c))"
    using fits_envelope[OF ok(1)] assms(2) by (simp add: readable_def)
  then have "parse_json (oc_canonical_bytes c) None MAX_DEPTH ENVELOPE_STRING_LENGTH = Some (Ok (envelope_json (oc_entries c)))"
    using c parse_canonical_json[OF wf_envelope_json] by (simp add: candidate_ok_def canonical_object_bytes_def)
  moreover have "make_object_candidate (oc_entries c) expected = Inr (Ok c)"
    unfolding make_object_candidate_Ok using c assms(3) candidate_ok_def by blast
  moreover have "envelope_entries (map entry_json (oc_entries c)) [] = Ok (oc_entries c)"
    using envelope_entries_json[OF ok(1), of "[]"] by simp
  moreover have "{''entries'', ''schema_version''} = {''schema_version'', ''entries''}" by blast
  ultimately show ?thesis using ok
    by (simp add: parse_object_candidate_def envelope_json_members object_fields_def)
qed

interpretation envelope: canonical_codec oc_canonical_bytes "decode_candidate None" "\<lambda>c. candidate_ok c \<and> readable c"
  by unfold_locales
    (auto simp: decode_candidate_iff parse_object_candidate_complete dest: parse_object_candidate_sound)

subsection \<open>How long an envelope can be\<close>

lemma length_json_text: "length (json_text s) \<le> 2 + 6 * length s"
proof -
  have one: "length (escape_char c) \<le> 6" for c by (simp add: escape_char_def Let_def)
  have "length (concat (map escape_char s)) \<le> 6 * length s"
  proof (induction s)
    case (Cons a s)
    then show ?case using one[of a] by simp
  qed simp
  then show ?thesis by (simp add: json_text_def)
qed

lemma length_utf8_encode: "length (utf8_encode s) \<le> 2 * length s"
proof (induction s)
  case (Cons c s)
  have "length (utf8_char c) \<le> 2" by (simp add: utf8_char_def Let_def)
  then show ?case using Cons by (simp add: utf8_encode_def)
qed (simp add: utf8_encode_def)

lemma length_join_le: "\<forall>x \<in> set xs. length x \<le> n \<Longrightarrow> length (join [c] xs) \<le> (n + 1) * length xs"
  by (induction xs) auto

lemma length_entry_json:
  assumes "sne_content e = []"
  shows "length (json_dumps (entry_json e)) \<le> 400 + 6 * length (entry_raw e)"
proof -
  have k: "length (snapshot_kind_value (sne_kind e)) \<le> 9" by (cases "sne_kind e") (simp_all add: snapshot_kind_value_def)
  have kind: "length (json_text (snapshot_kind_value (sne_kind e))) \<le> 56"
    using length_json_text[of "snapshot_kind_value (sne_kind e)"] k by linarith
  note keys = length_json_text[of "''content_base64''"] length_json_text[of "''executable''"] length_json_text[of "''kind''"]
    length_json_text[of "''path''"] length_json_text[of "[]"] length_json_text[of "entry_raw e"]
  show ?thesis using kind keys assms
    by (cases "sne_kind e = SE_FILE"; cases "sne_executable e") (simp_all add: entry_json_members b64encode_bytes_def)
qed

lemma length_envelope:
  assumes "\<forall>e \<in> set es. sne_content e = [] \<and> length (entry_raw e) \<le> n"
  shows "length (canonical_object_bytes es) \<le> 2 * (200 + (401 + 6 * n) * length es)"
proof -
  have "length (json_dumps (entry_json e)) \<le> 400 + 6 * n" if "e \<in> set es" for e
    using length_entry_json[of e] assms that by fastforce
  then have "length (join '','' (map json_dumps (map entry_json es))) \<le> (401 + 6 * n) * length es"
    using length_join_le[of "map json_dumps (map entry_json es)" "400 + 6 * n" "CHR '',''"] by simp
  moreover have "json_dumps (envelope_json es) = ''{'' @ json_text ''entries'' @ '':['' @ join '','' (map json_dumps (map entry_json es))
      @ ''],'' @ json_text ''schema_version'' @ '':'' @ str_int 1 @ ''}''"
    by (simp add: envelope_json_members o_def)
  ultimately have "length (json_dumps (envelope_json es) @ [CHR 0x0A]) \<le> 200 + (401 + 6 * n) * length es"
    using length_json_text[of "''entries''"] length_json_text[of "''schema_version''"] length_str_nat[of 1 1]
    by (simp add: str_int_def)
  then show ?thesis
    unfolding canonical_object_bytes_def canonical_json_bytes_def
    using length_utf8_encode[of "json_dumps (envelope_json es) @ [CHR 0x0A]"]
    by (meson le_trans mult_le_mono2)
qed

subsection \<open>Properties of objects\<close>

definition sample_objects :: "snapshot_entry list" where
  "sample_objects = [directory_at (SafeRelativePath [''a''])]"

lemma sample_objects_tree: "tree_ok sample_objects" "canonical_tree sample_objects sample_objects"
proof -
  have "ancestors_of (set sample_objects) = {}" by (simp add: ancestors_of_def ancestors_def sample_objects_def)
  moreover have "safe_path (SafeRelativePath [''a''])"
    by (simp add: safe_path_def proper_component_def is_drive_def is_control_def)
  ultimately show "tree_ok sample_objects" "canonical_tree sample_objects sample_objects"
    by (simp_all add: tree_ok_def within_limits_def tree_entry_ok_def canonical_tree_def sample_objects_def
        MAX_ENTRIES_def MAX_TREE_DEPTH_def MAX_FILES_def)
qed

lemma sample_objects_candidate:
  "make_object_candidate sample_objects None = Inr (Ok (candidate_of sample_objects))" "readable (candidate_of sample_objects)"
proof -
  have "length (canonical_object_bytes sample_objects) \<le> MAX_ENVELOPE_BYTES"
    using length_envelope[of sample_objects 1] by (simp add: sample_objects_def path_str_def MAX_ENVELOPE_BYTES_def)
  then show "make_object_candidate sample_objects None = Inr (Ok (candidate_of sample_objects))"
    unfolding make_object_candidate_Ok candidate_ok_iff using sample_objects_tree by (simp add: candidate_of_def)
  show "readable (candidate_of sample_objects)"
    by (simp add: readable_def candidate_of_def sample_objects_def path_str_def ENVELOPE_STRING_LENGTH_def)
qed

text \<open>
  C23. Object envelopes are a strict canonical form. The reader returns a candidate exactly when the data are the
  canonical bytes of that candidate's normalised tree, its digest is their SHA-256 (and the expected one, if any is
  given) and no path exceeds the reader's string limit; every other input is an error.
\<close>

theorem parse_object_candidate_iff:
  "parse_object_candidate data expected = Some (Inr (Ok c)) \<longleftrightarrow>
     data = oc_canonical_bytes c \<and> candidate_ok c \<and> readable c \<and> digest_expected expected (oc_digest c)"
  using parse_object_candidate_sound parse_object_candidate_complete by blast

text \<open>
  An object digest binds its tree: two candidates with the same digest have the same entries, or their
  envelopes are a collision of SHA-256.
\<close>

theorem object_digest_binds:
  assumes "make_object_candidate es expected = Inr (Ok a)" and "make_object_candidate fs expected' = Inr (Ok b)"
    and "readable a" and "readable b" and "oc_digest a = oc_digest b"
  shows "a = b \<or> oc_canonical_bytes a \<noteq> oc_canonical_bytes b
     \<and> sha256_digest (oc_canonical_bytes a) = sha256_digest (oc_canonical_bytes b)"
proof -
  have ok: "candidate_ok a" "candidate_ok b" using assms(1,2) make_object_candidate_Ok by blast+
  then have "sha256_bytes (oc_canonical_bytes a) = sha256_bytes (oc_canonical_bytes b)"
    using assms(5) unfolding candidate_ok_def by metis
  then show ?thesis using envelope.digest_binds ok assms(3,4) by blast
qed

theorem object_digest_binds_witness:
  "candidate_of sample_objects = candidate_of sample_objects \<or>
   sha256_digest (oc_canonical_bytes (candidate_of sample_objects)) = sha256_digest (oc_canonical_bytes (candidate_of sample_objects))"
  using object_digest_binds[OF sample_objects_candidate(1,1) sample_objects_candidate(2,2) refl] by blast

lemma with_directories_inj:
  assumes "inj_on sne_path E"
  shows "inj_on sne_path (with_directories E D)"
proof (rule inj_onI)
  fix x y assume x: "x \<in> with_directories E D" and y: "y \<in> with_directories E D" and eq: "sne_path x = sne_path y"
  consider "x \<in> E" "y \<in> E" | "x \<in> E" "sne_path y \<notin> sne_path ` E" | "y \<in> E" "sne_path x \<notin> sne_path ` E"
    | "x = directory_at (sne_path x)" "y = directory_at (sne_path y)"
    using x y by (auto simp: with_directories_def)
  then show "x = y"
  proof cases
    case 1
    then show ?thesis using assms eq by (simp add: inj_on_def)
  next
    case 4
    then show ?thesis using eq by metis
  qed (use eq in \<open>auto simp: image_iff\<close>)
qed

lemma canonical_tree_exists:
  assumes "tree_ok es"
  shows "\<exists>ns. canonical_tree es ns"
proof -
  let ?E = "with_directories (set es) (ancestors_of (set es))"
  have "finite (ancestors_of (set es))" by (auto simp: ancestors_of_def ancestors_def)
  then have "finite ?E" by (simp add: with_directories_def)
  then obtain xs where xs: "set xs = ?E" "distinct xs" using finite_distinct_list by blast
  have es: "\<forall>x \<in> set es. safe_path (sne_path x)"
    using assms by (simp add: tree_ok_def within_limits_def list_all_iff tree_entry_ok_def)
  have safe: "safe_path (sne_path e)" if "e \<in> ?E" for e
    using that es safe_ancestor by (auto simp: with_directories_def ancestors_of_def)
  have "inj_on (path_str \<circ> sne_path) (set es)"
    using assms by (simp add: tree_ok_def within_limits_def distinct_map o_def)
  then have "inj_on sne_path (set es)" by (rule inj_on_imageI2)
  then have inj: "inj_on sne_path ?E" by (rule with_directories_inj)
  have "inj_on entry_raw ?E"
  proof (rule inj_onI)
    fix x y assume x: "x \<in> ?E" and y: "y \<in> ?E" and "entry_raw x = entry_raw y"
    then have "sne_path x = sne_path y" using path_str_inj[OF safe[OF x] safe[OF y]] by simp
    then show "x = y" using inj x y by (simp add: inj_on_def)
  qed
  then have "canonical_tree es (sort_key entry_raw xs)"
    using xs by (simp add: canonical_tree_def distinct_map)
  then show ?thesis ..
qed

text \<open>
  C22. What normalisation promises. It never raises; it accepts exactly the non-empty trees within the
  limits in which no file stands where another entry needs a directory; the result holds the given entries and
  the directories they need, sorted, each path once; every ancestor of an entry is then a
  directory of the tree; and normalising again changes nothing, unless the implied directories exceed the entry limit.
\<close>

theorem normalized_entries_exact:
  "(\<exists>r. normalized_entries es = Inr r) \<and>
   ((\<exists>ns. normalized_entries es = Inr (Ok ns)) \<longleftrightarrow> tree_ok es) \<and>
   (\<forall>ns. normalized_entries es = Inr (Ok ns) \<longrightarrow>
      set es \<subseteq> set ns \<and> sorted (map entry_raw ns) \<and> distinct (map entry_raw ns)
      \<and> sne_path ` set ns = sne_path ` set es \<union> ancestors_of (set es)
      \<and> (\<forall>e \<in> set ns. \<forall>p \<in> ancestors (sne_path e). \<exists>d \<in> set ns. sne_path d = p \<and> sne_kind d = SE_DIRECTORY)
      \<and> (normalized_entries ns = Inr (Ok ns) \<longleftrightarrow> length ns \<le> MAX_ENTRIES))"
proof (intro conjI allI impI)
  show "\<exists>r. normalized_entries es = Inr r" by (rule normalized_entries_spec(2))
  show "(\<exists>ns. normalized_entries es = Inr (Ok ns)) \<longleftrightarrow> tree_ok es"
    unfolding normalized_entries_spec(1) using canonical_tree_exists by blast
next
  fix ns assume "normalized_entries es = Inr (Ok ns)"
  then have t: "tree_ok es" "canonical_tree es ns" using normalized_entries_spec(1) by blast+
  have set: "set ns = with_directories (set es) (ancestors_of (set es))" using t(2) by (simp add: canonical_tree_def)
  show "set es \<subseteq> set ns" unfolding set by (simp add: with_directories_def)
  show "sorted (map entry_raw ns)" "distinct (map entry_raw ns)" using t(2) by (simp_all add: canonical_tree_def)
  show "sne_path ` set ns = sne_path ` set es \<union> ancestors_of (set es)" unfolding set by simp
  show "normalized_entries ns = Inr (Ok ns) \<longleftrightarrow> length ns \<le> MAX_ENTRIES" by (rule normalized_entries_idem[OF t])
  have closed: "set ns = with_directories (set ns) (ancestors_of (set ns))" "\<not> conflicting (set ns) (ancestors_of (set ns))"
    using canonical_tree_closed(3,4)[OF t] by (simp_all add: canonical_tree_def)
  have "ancestors_of (set ns) \<subseteq> sne_path ` set ns"
    using with_directories_paths[of "set ns" "ancestors_of (set ns)"] closed(1) by blast
  then show "\<forall>e \<in> set ns. \<forall>p \<in> ancestors (sne_path e). \<exists>d \<in> set ns. sne_path d = p \<and> sne_kind d = SE_DIRECTORY"
    using closed(2) unfolding ancestors_of_def conflicting_def by blast
qed

theorem normalized_entries_exact_witness:
  "normalized_entries sample_objects = Inr (Ok sample_objects) \<and> sorted (map entry_raw sample_objects)
   \<and> sne_path ` set sample_objects = sne_path ` set sample_objects \<union> ancestors_of (set sample_objects)"
proof -
  have "normalized_entries sample_objects = Inr (Ok sample_objects)"
    using sample_objects_tree normalized_entries_spec(1) by blast
  then show ?thesis using normalized_entries_exact[of sample_objects] by blast
qed

end
