(* ===== verification/StoreLimits.thy ===== *)
theory StoreLimits
  imports StoreModel
begin

text \<open>
  The entry limit of object trees counts the entries that are given, not the directories they imply, while the
  constructor of a candidate counts both. This theory builds a tree between the two limits and shows what
  \<open>make_object_candidate\<close> does with it.
\<close>

subsection \<open>A deep tree\<close>

definition deep_parts :: "nat \<Rightarrow> string list" where
  "deep_parts i = str_nat i # replicate 62 ''d'' @ [''f'']"

definition deep_file :: "nat \<Rightarrow> snapshot_entry" where
  "deep_file i =
     \<lparr>sne_path = SafeRelativePath (deep_parts i), sne_kind = SE_FILE, sne_content = [], sne_executable = False\<rparr>"

definition deep_tree :: "snapshot_entry list" where
  "deep_tree = map deep_file [0..<400]"

lemma deep_simps [simp]:
  "length (deep_parts i) = 64" "sne_path (deep_file i) = SafeRelativePath (deep_parts i)" "sne_kind (deep_file i) = SE_FILE"
  "sne_content (deep_file i) = []"
  by (simp_all add: deep_parts_def deep_file_def)

lemma deep_parts_inj: "deep_parts i = deep_parts j \<longleftrightarrow> i = j"
  by (auto simp: deep_parts_def str_nat_inj)

lemma digits_proper:
  assumes "c \<in> set (str_nat i)"
  shows "is_digit c"
  using assms str_nat_digits by (simp add: list_all_iff)

lemma safe_deep: "safe_path (SafeRelativePath (deep_parts i))"
proof -
  let ?s = "str_nat i"
  have no: "\<not> is_digit CHR ''.''" "\<not> is_digit CHR ''/''" "\<not> is_digit CHR '':''" "\<not> is_digit CHR 0x5C"
    by (simp_all add: is_digit_of_char)
  have "?s \<noteq> ''.''" "?s \<noteq> ''..''" "CHR ''/'' \<notin> set ?s" "CHR 0x5C \<notin> set ?s"
    using digits_proper[of "CHR ''.''" i] digits_proper[of "CHR ''/''" i] digits_proper[of "CHR 0x5C" i] no by auto
  moreover have "\<not> is_drive ?s"
    using digits_proper[of "CHR '':''" i] no by (auto simp: is_drive_def split: list.splits)
  moreover have "\<not> list_ex is_control ?s"
    using digits_proper[of _ i] by (fastforce simp: list_ex_iff is_control_def is_digit_of_char)
  moreover have "list_all proper_component (replicate 62 ''d'')"
    by (simp add: list_all_iff proper_component_def)
  ultimately show ?thesis
    by (auto simp: safe_path_def deep_parts_def proper_component_def is_control_def)
qed

lemma deep_tree_ok: "tree_ok deep_tree"
proof -
  have "distinct (map entry_raw deep_tree)"
  proof -
    have "inj_on (\<lambda>i. entry_raw (deep_file i)) {0..<400}"
      by (rule inj_onI) (auto simp: path_str_inj[OF safe_deep safe_deep] deep_parts_inj)
    then show ?thesis by (simp add: deep_tree_def distinct_map o_def)
  qed
  moreover have "list_all tree_entry_ok deep_tree"
    by (simp add: deep_tree_def list_all_iff tree_entry_ok_def safe_deep MAX_TREE_DEPTH_def)
  moreover have "length (tree_files deep_tree) \<le> MAX_FILES"
    unfolding tree_files_def by (rule le_trans[OF length_filter_le]) (simp add: deep_tree_def MAX_FILES_def)
  moreover have "tree_bytes deep_tree = 0"
    by (auto simp: tree_bytes_def tree_files_def deep_tree_def sum_list_eq_0_iff)
  moreover have "\<not> conflicting (set deep_tree) (ancestors_of (set deep_tree))"
    using ancestor_length by (fastforce simp: conflicting_def ancestors_of_def deep_tree_def)
  ultimately show ?thesis by (simp add: tree_ok_def within_limits_def deep_tree_def MAX_ENTRIES_def)
qed

definition deep_ancestor :: "nat \<times> nat \<Rightarrow> safe_relative_path" where
  "deep_ancestor ik = SafeRelativePath (take (snd ik) (deep_parts (fst ik)))"

lemma deep_ancestors: "ancestors_of (set deep_tree) = deep_ancestor ` ({0..<400} \<times> {1..<64})"
  by (force simp: ancestors_of_def ancestors_def deep_tree_def deep_ancestor_def)

lemma deep_ancestor_inj: "inj_on deep_ancestor ({0..<400} \<times> {1..<64})"
proof (rule inj_onI)
  fix x y :: "nat \<times> nat"
  assume x: "x \<in> {0..<400} \<times> {1..<64}" and y: "y \<in> {0..<400} \<times> {1..<64}" and eq: "deep_ancestor x = deep_ancestor y"
  have l: "length (path_parts (deep_ancestor z)) = snd z" if "z \<in> {0..<400} \<times> {1..<64}" for z
    using that by (auto simp: deep_ancestor_def)
  have h: "hd (path_parts (deep_ancestor z)) = str_nat (fst z)" if "z \<in> {0..<400} \<times> {1..<64}" for z
    using that by (auto simp: deep_ancestor_def deep_parts_def take_Cons' split: if_splits)
  have "snd x = snd y" using eq l[OF x] l[OF y] by simp
  moreover have "fst x = fst y" using eq h[OF x] h[OF y] str_nat_inj by simp
  ultimately show "x = y" by (rule prod_eqI[rotated])
qed

lemma deep_canonical_size:
  assumes "canonical_tree deep_tree ns"
  shows "MAX_ENTRIES < length ns" "length ns \<le> 25600" "\<forall>e \<in> set ns. sne_content e = [] \<and> length (entry_raw e) \<le> 256"
proof -
  let ?A = "ancestors_of (set deep_tree)"
  have set: "set ns = with_directories (set deep_tree) ?A" and len: "length ns = card (set ns)"
    using assms distinct_card[of ns] by (auto simp: canonical_tree_def distinct_map)
  have card: "card ?A = 25200" "finite ?A"
    unfolding deep_ancestors using card_image[OF deep_ancestor_inj] by simp_all
  have "?A \<subseteq> sne_path ` set ns" unfolding set by simp
  then have "25200 \<le> card (sne_path ` set ns)" using card by (metis card_mono finite_imageI finite_set)
  then show "MAX_ENTRIES < length ns"
    using card_image_le[of "set ns" sne_path] by (simp add: len MAX_ENTRIES_def)
  have "set ns \<subseteq> set deep_tree \<union> directory_at ` ?A" unfolding set by (auto simp: with_directories_def)
  then have "card (set ns) \<le> card (set deep_tree) + card (directory_at ` ?A)"
    using card(2) by (meson card_Un_le card_mono finite_UnI finite_imageI finite_set le_trans)
  moreover have "card (set deep_tree) \<le> 400" using card_length[of deep_tree] by (simp add: deep_tree_def)
  moreover have "card (directory_at ` ?A) \<le> 25200" using card_image_le[OF card(2), of directory_at] card(1) by simp
  ultimately show "length ns \<le> 25600" using len by simp
  show "\<forall>e \<in> set ns. sne_content e = [] \<and> length (entry_raw e) \<le> 256"
  proof
    fix e assume "e \<in> set ns"
    then consider "e \<in> set deep_tree" | p where "p \<in> ?A" "e = directory_at p"
      unfolding set by (auto simp: with_directories_def)
    then obtain i k where "i < 400" and e: "sne_content e = []" "path_parts (sne_path e) = take k (deep_parts i)"
    proof cases
      case 1
      then show ?thesis using that[of _ 64] by (auto simp: deep_tree_def)
    next
      case 2
      then show ?thesis using that by (auto simp: deep_ancestors deep_ancestor_def)
    qed
    have part: "length x \<le> 3" if "x \<in> set (deep_parts i)" for x
      using that length_str_nat[of i 3] \<open>i < 400\<close> by (auto simp: deep_parts_def)
    have "length (join ''/'' (take k (deep_parts i))) \<le> (3 + 1) * length (take k (deep_parts i))"
      by (rule length_join_le) (meson in_set_takeD part)
    then show "sne_content e = [] \<and> length (entry_raw e) \<le> 256" using e by (simp add: path_str_def min_def split: if_splits)
  qed
qed

text \<open>
  C38. The entry limit is enforced too late. \<open>make_object_candidate\<close> raises instead of returning an error
  exactly for the trees that normalisation accepts but whose implied directories push the
  normalised tree above the entry limit; four hundred empty files, each 64 components
  deep, are such a tree.
\<close>

theorem make_object_candidate_raises_exactly:
  "((\<exists>x. make_object_candidate es expected = Inl x) \<longleftrightarrow>
     (\<exists>ns. normalized_entries es = Inr (Ok ns) \<and> MAX_ENTRIES < length ns
        \<and> length (canonical_object_bytes ns) \<le> MAX_ENVELOPE_BYTES
        \<and> digest_expected expected (sha256_bytes (canonical_object_bytes ns))))
   \<and> length deep_tree = 400
   \<and> make_object_candidate deep_tree None =
       Inl (ValueError ''object candidate must bind the exact safe canonical tree and bytes'')"
proof -
  obtain ns where ns: "canonical_tree deep_tree ns" using canonical_tree_exists[OF deep_tree_ok] by blast
  note size = deep_canonical_size[OF ns]
  have "(401 + 6 * 256) * length ns \<le> (401 + 6 * 256) * 25600" using size(2) by (rule mult_le_mono2)
  then have "length (canonical_object_bytes ns) \<le> MAX_ENVELOPE_BYTES"
    using length_envelope[OF size(3)] by (simp add: MAX_ENVELOPE_BYTES_def)
  then have "make_object_candidate deep_tree None =
      Inl (ValueError ''object candidate must bind the exact safe canonical tree and bytes'')"
    unfolding make_object_candidate_raises using deep_tree_ok ns size(1) by auto
  then show ?thesis
    unfolding make_object_candidate_raises normalized_entries_spec(1) by (auto simp: deep_tree_def)
qed

end
