(* ===== verification/Store.thy ===== *)
theory Store
  imports StoreModel
begin

text \<open>
  The rest of the store's values (\<open>agent_artifacts/store/model.py\<close>), the reference index and its strict reader
  (\<open>store/references.py\<close>), and the two operations that run under the store's lease, replacement of references and
  garbage collection (\<open>application/store.py\<close>). Ports are parameters; each operation returns the
  trace of its port calls beside its result.
\<close>

subsection \<open>Stored objects\<close>

record stored_object =
  so_candidate :: object_candidate
  so_root :: string

definition mk_stored_object :: "object_candidate \<Rightarrow> string \<Rightarrow> stored_object py" where
  "mk_stored_object candidate root =
     py_guard (\<not> normalized_absolute root) ''stored object root must be normalized and absolute''
       (Inr \<lparr>so_candidate = candidate, so_root = root\<rparr>)"

record object_read_request =
  orr_paths :: object_store_paths
  orr_digest :: object_digest

definition mk_object_read_request :: "object_store_paths \<Rightarrow> object_digest \<Rightarrow> object_read_request py" where
  "mk_object_read_request paths digest =
     py_guard (\<not> valid_digest digest) ''object read digest must be canonical SHA-256''
       (Inr \<lparr>orr_paths = paths, orr_digest = digest\<rparr>)"

record object_publish_command =
  opc_paths :: object_store_paths
  opc_candidate :: object_candidate

record object_publish_receipt =
  opr_stored :: stored_object
  opr_created :: bool
  opr_repaired :: bool

datatype object_status_kind = OS_MISSING | OS_VERIFIED | OS_DEGRADED

record object_status =
  os_kind :: object_status_kind
  os_digest :: object_digest
  os_stored :: "stored_object option"
  os_diagnostics :: "diagnostic list"

definition mk_object_status ::
  "object_status_kind \<Rightarrow> object_digest \<Rightarrow> stored_object option \<Rightarrow> diagnostic list \<Rightarrow> object_status py" where
  "mk_object_status kind digest stored diagnostics =
     py_guard (\<not> valid_digest digest) ''object status digest must be canonical SHA-256''
       (py_guard (kind = OS_VERIFIED \<and> stored = None) ''verified object status requires a stored object''
          (py_guard (kind \<noteq> OS_VERIFIED \<and> stored \<noteq> None) ''non-verified object status cannot contain a stored object''
             (py_guard (case stored of None \<Rightarrow> False | Some s \<Rightarrow> oc_digest (so_candidate s) \<noteq> digest)
                ''object status digest must match its stored object''
                (Inr \<lparr>os_kind = kind, os_digest = digest, os_stored = stored,
                      os_diagnostics = sort_diagnostics diagnostics\<rparr>))))"

record object_delete_command =
  odc_paths :: object_store_paths
  odc_digest :: object_digest


subsection \<open>References\<close>

datatype reference_kind = INSTALLED | SETUP | SOURCE_CURRENT | RETAINED | ROLLBACK | TRANSACTION

definition reference_kind_value :: "reference_kind \<Rightarrow> string" where
  "reference_kind_value k =
     (case k of INSTALLED \<Rightarrow> ''installed'' | SETUP \<Rightarrow> ''setup'' | SOURCE_CURRENT \<Rightarrow> ''source-current''
      | RETAINED \<Rightarrow> ''retained'' | ROLLBACK \<Rightarrow> ''rollback'' | TRANSACTION \<Rightarrow> ''transaction'')"

text \<open>\<open>ReferenceKind(value)\<close>; \<open>None\<close> is its \<open>ValueError\<close>.\<close>

definition all_reference_kinds :: "reference_kind list" where
  "all_reference_kinds = [INSTALLED, SETUP, SOURCE_CURRENT, RETAINED, ROLLBACK, TRANSACTION]"

definition reference_kind_of :: "string \<Rightarrow> reference_kind option" where
  "reference_kind_of s = find (\<lambda>k. reference_kind_value k = s) all_reference_kinds"

datatype object_reference =
  ObjectReference (ref_kind: reference_kind) (ref_owner: string) (ref_digest: object_digest)

text \<open>The order of the dataclass: kind (a string enumeration, ordered by its value), owner, digest.\<close>

definition reference_key :: "object_reference \<Rightarrow> string \<times> string \<times> object_digest" where
  "reference_key r = (reference_kind_value (ref_kind r), ref_owner r, ref_digest r)"

lemma reference_kind_value_inj: "reference_kind_value a = reference_kind_value b \<longleftrightarrow> a = b"
  by (cases a; cases b) (simp_all add: reference_kind_value_def)

lemma reference_key_inj: "reference_key r = reference_key s \<longleftrightarrow> r = s"
  by (cases r; cases s) (auto simp: reference_key_def reference_kind_value_inj)

instantiation object_reference :: linorder
begin
definition less_eq_object_reference :: "object_reference \<Rightarrow> object_reference \<Rightarrow> bool" where
  [dom_order]: "less_eq_object_reference a b \<longleftrightarrow> reference_key a \<le> reference_key b"
definition less_object_reference :: "object_reference \<Rightarrow> object_reference \<Rightarrow> bool" where
  [dom_order]: "less_object_reference a b \<longleftrightarrow> reference_key a < reference_key b"
instance
proof
  fix a b c :: object_reference
  show "a \<le> b \<Longrightarrow> b \<le> a \<Longrightarrow> a = b"
    unfolding less_eq_object_reference_def using reference_key_inj by fastforce
qed (auto simp: less_eq_object_reference_def less_object_reference_def)
end

definition reference_valid :: "object_reference \<Rightarrow> bool" where
  "reference_valid r \<longleftrightarrow> owner_match (ref_owner r) \<and> valid_digest (ref_digest r)"

definition mk_object_reference :: "reference_kind \<Rightarrow> string \<Rightarrow> object_digest \<Rightarrow> object_reference py" where
  "mk_object_reference kind owner digest =
     py_guard (\<not> owner_match owner \<or> \<not> valid_digest digest) ''object reference identity is invalid''
       (Inr (ObjectReference kind owner digest))"

record reference_index =
  ri_schema_version :: int
  ri_references :: "object_reference list"

definition mk_reference_index :: "int \<Rightarrow> object_reference list \<Rightarrow> reference_index py" where
  "mk_reference_index schema_version references =
     py_guard (schema_version \<noteq> 1) ''object reference schema version must be 1''
       (let ordered = sort references in
        py_guard (length ordered > MAX_REFERENCES \<or> length (remdups ordered) \<noteq> length ordered)
          ''object references must be unique''
          (Inr \<lparr>ri_schema_version = schema_version, ri_references = ordered\<rparr>))"

subsection \<open>Leases, inventories, plans\<close>

text \<open>Timeouts are whole seconds: every caller keeps the default of 30.\<close>

record store_lock_request =
  slr_lock_directory :: string
  slr_timeout_seconds :: int
  slr_stale_after_seconds :: int

definition mk_store_lock_request :: "string \<Rightarrow> int \<Rightarrow> int \<Rightarrow> store_lock_request py" where
  "mk_store_lock_request lock_directory timeout stale =
     py_guard (\<not> normalized_absolute lock_directory \<or> timeout \<le> 0 \<or> stale \<le> 0) ''store lock request is invalid''
       (Inr \<lparr>slr_lock_directory = lock_directory, slr_timeout_seconds = timeout, slr_stale_after_seconds = stale\<rparr>)"

record store_lock_lease =
  sll_lock_directory :: string
  sll_token :: string

definition mk_store_lock_lease :: "string \<Rightarrow> string \<Rightarrow> store_lock_lease py" where
  "mk_store_lock_lease lock_directory token =
     py_guard (\<not> isabs lock_directory \<or> token = []) ''store lock lease is invalid''
       (Inr \<lparr>sll_lock_directory = lock_directory, sll_token = token\<rparr>)"

text \<open>\<open>tuple(sorted(set(digests), key=str))\<close>\<close>

definition sorted_digests :: "object_digest list \<Rightarrow> object_digest list" where
  "sorted_digests ds = sort_key digest_str (remdups ds)"

record object_inventory =
  oi_digests :: "object_digest list"
  oi_diagnostics :: "diagnostic list"

definition mk_object_inventory :: "object_digest list \<Rightarrow> diagnostic list \<Rightarrow> object_inventory py" where
  "mk_object_inventory digests diagnostics =
     (let ordered = sorted_digests digests in
      py_guard (length ordered \<noteq> length digests \<or> list_ex (\<lambda>d. \<not> valid_digest d) ordered)
        ''object inventory digests must be unique canonical SHA-256''
        (Inr \<lparr>oi_digests = ordered, oi_diagnostics = sort_diagnostics diagnostics\<rparr>))"






subsection \<open>The reference index on disk\<close>

definition REFERENCE_INVALID :: diagnostic_code where "REFERENCE_INVALID = ''store-reference-invalid''"

definition reference_error :: "string \<Rightarrow> 'a result" where
  "reference_error message = mk_err [error_diagnostic REFERENCE_INVALID message]"

definition reference_json :: "object_reference \<Rightarrow> json_value" where
  "reference_json r =
     json_object [(''digest'', JStr (digest_str (ref_digest r))), (''kind'', JStr (reference_kind_value (ref_kind r))),
                  (''owner'', JStr (ref_owner r))]"

definition reference_index_json :: "reference_index \<Rightarrow> json_value" where
  "reference_index_json index =
     json_object [(''references'', JArray (map reference_json (ri_references index))),
                  (''schema_version'', JInt (ri_schema_version index))]"

definition reference_index_bytes :: "reference_index \<Rightarrow> bytes" where
  "reference_index_bytes index = canonical_json_bytes (reference_index_json index)"

definition parse_reference :: "json_value \<Rightarrow> object_reference result" where
  "parse_reference v =
     (case v of
        JObject item \<Rightarrow>
          if set (map fst item) \<noteq> {''kind'', ''owner'', ''digest''} then
            reference_error ''object reference fields are invalid''
          else (case (dict_get item ''kind'', dict_get item ''owner'') of
              (Some (JStr kind), Some (JStr owner)) \<Rightarrow>
                (case dict_get item ''digest'' of
                   Some (JStr raw) \<Rightarrow>
                     (case parse_sha256 raw None of
                        Err _ \<Rightarrow> reference_error ''object reference digest is invalid''
                      | Ok digest \<Rightarrow>
                          (case reference_kind_of kind of
                             None \<Rightarrow> reference_error ''object reference identity is invalid''
                           | Some k \<Rightarrow>
                               (case mk_object_reference k owner digest of
                                  Inl _ \<Rightarrow> reference_error ''object reference identity is invalid''
                                | Inr r \<Rightarrow> Ok r)))
                 | _ \<Rightarrow> reference_error ''object reference digest must be a string'')
            | _ \<Rightarrow> reference_error ''object reference identity types are invalid'')
      | _ \<Rightarrow> reference_error ''object reference must be an object'')"

fun parse_references :: "json_value list \<Rightarrow> object_reference list \<Rightarrow> object_reference list result" where
  "parse_references [] references = Ok references"
| "parse_references (v # vs) references =
     (case parse_reference v of Err ds \<Rightarrow> Err ds | Ok r \<Rightarrow> parse_references vs (references @ [r]))"

definition parse_reference_index :: "bytes \<Rightarrow> reference_index result option" where
  "parse_reference_index data =
     (case parse_json data None MAX_DEPTH MAX_STRING_LENGTH of
        None \<Rightarrow> None
      | Some (Ok (JObject members)) \<Rightarrow> Some
          (if set (map fst members) \<noteq> {''schema_version'', ''references''} then
             reference_error ''object reference index fields are invalid''
           else if dict_get members ''schema_version'' \<noteq> Some (JInt 1) then
             reference_error ''object reference index schema version is unsupported''
           else (case dict_get members ''references'' of
               Some (JArray items) \<Rightarrow>
                 (case parse_references items [] of
                    Err ds \<Rightarrow> Err ds
                  | Ok references \<Rightarrow>
                      (case mk_reference_index 1 references of
                         Inl _ \<Rightarrow> reference_error ''object reference index contains duplicates''
                       | Inr index \<Rightarrow>
                           if reference_index_bytes index \<noteq> data then
                             reference_error ''object reference index is not canonical''
                           else Ok index))
             | _ \<Rightarrow> reference_error ''object references must be an array''))
      | _ \<Rightarrow> Some (reference_error ''object reference index is not strict JSON''))"

subsection \<open>Operations under the lease\<close>

datatype store_call =
    CallLock store_lock_request
  | CallRelease store_lock_lease
  | CallReadReferences object_store_paths
  | CallWriteReferences object_store_paths reference_index
  | CallInventory object_store_paths
  | CallDelete object_delete_command

type_synonym store_trace = "store_call list"

text \<open>A port answers from the calls made so far and its request.\<close>

record reference_update_ports =
  rup_acquire_lock :: "store_trace \<Rightarrow> store_lock_request \<Rightarrow> store_lock_lease result"
  rup_release_lock :: "store_trace \<Rightarrow> store_lock_lease \<Rightarrow> unit result"
  rup_read_references :: "store_trace \<Rightarrow> object_store_paths \<Rightarrow> reference_index result"
  rup_write_references :: "store_trace \<Rightarrow> object_store_paths \<Rightarrow> reference_index \<Rightarrow> reference_index result"

record reference_update_request =
  rur_paths :: object_store_paths
  rur_kind :: reference_kind
  rur_owner :: string
  rur_digests :: "object_digest list"

fun references_of :: "reference_kind \<Rightarrow> string \<Rightarrow> object_digest list \<Rightarrow> object_reference list py" where
  "references_of kind owner [] = Inr []"
| "references_of kind owner (d # ds) =
     (case mk_object_reference kind owner d of
        Inl e \<Rightarrow> Inl e
      | Inr r \<Rightarrow> (case references_of kind owner ds of Inl e \<Rightarrow> Inl e | Inr rs \<Rightarrow> Inr (r # rs)))"

definition mk_reference_update_request ::
  "object_store_paths \<Rightarrow> reference_kind \<Rightarrow> string \<Rightarrow> object_digest list \<Rightarrow> reference_update_request py" where
  "mk_reference_update_request paths kind owner digests =
     (case references_of kind owner digests of
        Inl e \<Rightarrow> Inl e
      | Inr probes \<Rightarrow>
          py_guard (length (remdups probes) \<noteq> length probes) ''reference update digests must be unique''
            (Inr \<lparr>rur_paths = paths, rur_kind = kind, rur_owner = owner, rur_digests = sort_key digest_str digests\<rparr>))"


definition release_result ::
  "store_trace \<Rightarrow> 'a result \<Rightarrow> store_lock_lease \<Rightarrow> (store_trace \<Rightarrow> store_lock_lease \<Rightarrow> unit result)
     \<Rightarrow> store_trace \<times> 'a result py" where
  "release_result tr outcome lease release =
     (tr @ [CallRelease lease],
      Inr (case release tr lease of
             Err rds \<Rightarrow> (case outcome of Err ds \<Rightarrow> mk_err (ds @ rds) | Ok _ \<Rightarrow> Err rds)
           | Ok _ \<Rightarrow> outcome))"

definition default_lock_request :: "object_store_paths \<Rightarrow> store_lock_request py" where
  "default_lock_request paths = mk_store_lock_request (osp_lock_directory paths) 30 300"

definition replace_references ::
  "reference_update_request \<Rightarrow> reference_update_ports \<Rightarrow> store_trace \<times> reference_index result py" where
  "replace_references request ports =
     (case default_lock_request (rur_paths request) of
        Inl e \<Rightarrow> ([], Inl e)
      | Inr lock \<Rightarrow>
          (let tr1 = [CallLock lock] in
           case rup_acquire_lock ports [] lock of
             Err ds \<Rightarrow> (tr1, Inr (Err ds))
           | Ok lease \<Rightarrow>
               (let tr2 = tr1 @ [CallReadReferences (rur_paths request)] in
                case rup_read_references ports tr1 (rur_paths request) of
                  Err ds \<Rightarrow> release_result tr2 (Err ds) lease (rup_release_lock ports)
                | Ok current \<Rightarrow>
                    (let retained = [r \<leftarrow> ri_references current. ref_kind r \<noteq> rur_kind request \<or> ref_owner r \<noteq> rur_owner request] in
                     case references_of (rur_kind request) (rur_owner request) (rur_digests request) of
                       Inl e \<Rightarrow> (tr2, Inl e)
                     | Inr replacements \<Rightarrow>
                         (case mk_reference_index 1 (retained @ replacements) of
                            Inl e \<Rightarrow> (tr2, Inl e)
                          | Inr updated \<Rightarrow>
                              release_result (tr2 @ [CallWriteReferences (rur_paths request) updated])
                                (rup_write_references ports tr2 (rur_paths request) updated) lease (rup_release_lock ports))))))"




definition object_status ::
  "object_read_request \<Rightarrow> (object_read_request \<Rightarrow> stored_object option result) \<Rightarrow> object_status py" where
  "object_status request read_object =
     (case read_object request of
        Err ds \<Rightarrow> mk_object_status OS_DEGRADED (orr_digest request) None ds
      | Ok None \<Rightarrow> mk_object_status OS_MISSING (orr_digest request) None []
      | Ok (Some stored) \<Rightarrow> mk_object_status OS_VERIFIED (orr_digest request) (Some stored) [])"

subsection \<open>The reference index is a strict canonical form\<close>

definition index_ok :: "reference_index \<Rightarrow> bool" where
  "index_ok ix \<longleftrightarrow> ri_schema_version ix = 1 \<and> sorted (ri_references ix) \<and> distinct (ri_references ix)
     \<and> length (ri_references ix) \<le> MAX_REFERENCES \<and> list_all reference_valid (ri_references ix)"

lemma reference_error_not_Ok [simp]: "reference_error m \<noteq> Ok v" "Ok v \<noteq> reference_error m"
  by (simp_all add: reference_error_def)

lemma remdups_length [simp]: "length (remdups xs) = length xs \<longleftrightarrow> distinct xs"
  by (metis length_remdups_card_conv card_distinct distinct_card)

lemma mk_reference_index_Inr:
  "mk_reference_index 1 refs = Inr ix \<longleftrightarrow> distinct refs \<and> length refs \<le> MAX_REFERENCES
     \<and> ix = \<lparr>ri_schema_version = 1, ri_references = sort refs\<rparr>"
  by (auto simp: mk_reference_index_def py_guard_def Let_def)

lemma index_ok_built:
  "list_all reference_valid refs \<Longrightarrow> mk_reference_index 1 refs = Inr ix \<Longrightarrow> index_ok ix"
  by (auto simp: mk_reference_index_Inr index_ok_def list_all_iff)

lemma reference_kind_of_value [simp]: "reference_kind_of (reference_kind_value k) = Some k"
  by (cases k) (simp_all add: reference_kind_of_def all_reference_kinds_def reference_kind_value_def)

lemma mk_object_reference_Inr:
  "mk_object_reference k w d = Inr r \<longleftrightarrow> reference_valid r \<and> r = ObjectReference k w d"
  by (auto simp: mk_object_reference_def py_guard_def reference_valid_def)

lemma reference_json_members:
  "reference_json r = JObject [(''digest'', JStr (digest_str (ref_digest r))),
     (''kind'', JStr (reference_kind_value (ref_kind r))), (''owner'', JStr (ref_owner r))]"
  by (simp add: reference_json_def json_object_def)

lemma reference_index_json_members:
  "reference_index_json ix = JObject [(''references'', JArray (map reference_json (ri_references ix))),
     (''schema_version'', JInt (ri_schema_version ix))]"
  by (simp add: reference_index_json_def json_object_def)

lemma parse_sha256_valid: "valid_digest d \<Longrightarrow> parse_sha256 (digest_str d) location = Ok d"
  using parse_sha256_Ok_iff valid_digest_iff by blast

lemma parse_sha256_Ok_valid: "parse_sha256 raw location = Ok d \<Longrightarrow> valid_digest d"
  using parse_sha256_Ok_iff valid_digest_iff by blast

lemma parse_reference_json:
  assumes "reference_valid r"
  shows "parse_reference (reference_json r) = Ok r"
proof -
  have keys: "{''digest'', ''kind'', ''owner''} = {''kind'', ''owner'', ''digest''}" by blast
  have "mk_object_reference (ref_kind r) (ref_owner r) (ref_digest r) = Inr r"
    using assms mk_object_reference_Inr by simp
  then show ?thesis
    using assms parse_sha256_valid[of "ref_digest r" None] keys
    by (simp add: parse_reference_def reference_json_members reference_valid_def)
qed

lemma parse_reference_valid: "parse_reference v = Ok r \<Longrightarrow> reference_valid r"
  by (auto simp: parse_reference_def mk_object_reference_Inr
      split: json_value.splits if_splits option.splits result.splits sum.splits prod.splits)

lemma parse_references_json:
  "list_all reference_valid rs \<Longrightarrow> parse_references (map reference_json rs) acc = Ok (acc @ rs)"
  by (induction rs arbitrary: acc) (simp_all add: parse_reference_json)

lemma parse_references_valid:
  "parse_references vs acc = Ok rs \<Longrightarrow> list_all reference_valid acc \<Longrightarrow> list_all reference_valid rs"
  by (induction vs arbitrary: acc) (auto split: result.splits dest: parse_reference_valid)

lemma wf_reference_index: "ri_schema_version ix = 1 \<Longrightarrow> wf_json (reference_index_json ix)"
proof -
  have "wf_json (reference_json r)" for r unfolding reference_json_def by (rule wf_json_object) simp_all
  then show "ri_schema_version ix = 1 \<Longrightarrow> ?thesis" unfolding reference_index_json_def
    by (intro wf_json_object) (simp_all add: protocol_int_def MIN_PROTOCOL_INTEGER_def MAX_PROTOCOL_INTEGER_def)
qed

lemma fits_reference:
  assumes "reference_valid r"
  shows "fits 2 MAX_DEPTH MAX_STRING_LENGTH (reference_json r)"
proof -
  have o: "length (ref_owner r) \<le> 512"
    using assms by (cases "ref_owner r") (auto simp: reference_valid_def owner_match_def)
  have d: "length (digest_str (ref_digest r)) \<le> 71"
    using assms by (simp add: reference_valid_def valid_digest_def digest_str_def)
  have "length (reference_kind_value (ref_kind r)) \<le> 14"
    by (cases "ref_kind r") (simp_all add: reference_kind_value_def)
  then show ?thesis using o d by (simp add: reference_json_members)
qed

lemma parse_reference_index_complete:
  assumes "index_ok ix"
  shows "parse_reference_index (reference_index_bytes ix) = Some (Ok ix)"
proof -
  have refs: "list_all reference_valid (ri_references ix)" and v: "ri_schema_version ix = 1"
    using assms by (simp_all add: index_ok_def)
  have "\<forall>r \<in> set (ri_references ix). fits 2 MAX_DEPTH MAX_STRING_LENGTH (reference_json r)"
    using refs fits_reference by (simp add: list_all_iff)
  then have "fits 0 MAX_DEPTH MAX_STRING_LENGTH (reference_index_json ix)"
    by (simp add: reference_index_json_members numeral_2_eq_2)
  note parsed = parse_canonical_json[OF wf_reference_index[OF v] this, of None]
  have "mk_reference_index 1 (ri_references ix) = Inr ix"
    using assms by (cases ix) (simp add: mk_reference_index_Inr index_ok_def sort_key_id_if_sorted)
  moreover have "parse_references (map reference_json (ri_references ix)) [] = Ok (ri_references ix)"
    using parse_references_json[OF refs, of "[]"] by simp
  moreover have "{''references'', ''schema_version''} = {''schema_version'', ''references''}" by blast
  ultimately show ?thesis
    using parsed v by (simp add: parse_reference_index_def reference_index_bytes_def reference_index_json_members)
qed

lemma parse_reference_index_sound:
  assumes "parse_reference_index data = Some (Ok ix)"
  shows "index_ok ix" "reference_index_bytes ix = data"
proof -
  obtain items refs where "parse_references items [] = Ok refs" "mk_reference_index 1 refs = Inr ix"
    and data: "reference_index_bytes ix = data"
    using assms
    by (auto simp: parse_reference_index_def split: if_splits option.splits result.splits json_value.splits sum.splits)
  then show "index_ok ix" using index_ok_built parse_references_valid by (metis list.pred_inject(1))
  show "reference_index_bytes ix = data" by (rule data)
qed

definition decode_index :: "bytes \<Rightarrow> reference_index option" where
  "decode_index data = (case parse_reference_index data of Some (Ok ix) \<Rightarrow> Some ix | _ \<Rightarrow> None)"

lemma decode_index_iff: "decode_index data = Some ix \<longleftrightarrow> parse_reference_index data = Some (Ok ix)"
  by (auto simp: decode_index_def split: option.splits result.splits)

interpretation index: canonical_codec reference_index_bytes decode_index index_ok
  by unfold_locales (auto simp: decode_index_iff parse_reference_index_complete dest: parse_reference_index_sound)

text \<open>
  C37. The reference index is a strict canonical form: \<open>parse_reference_index\<close> accepts exactly the bytes
  \<open>reference_index_bytes\<close> writes for an index of valid, sorted, unique references within the limit, and returns
  that index.
\<close>

theorem parse_reference_index_iff:
  "parse_reference_index data = Some (Ok ix) \<longleftrightarrow> index_ok ix \<and> data = reference_index_bytes ix"
  using index.decode_iff decode_index_iff by metis

subsection \<open>Garbage collection\<close>






lemma release_result_simps:
  "fst (release_result tr r lease port) = tr @ [CallRelease lease]"
  "\<exists>x. snd (release_result tr r lease port) = Inr x"
  "snd (release_result tr r lease port) = Inr (Ok v) \<Longrightarrow> r = Ok v"
  by (auto simp: release_result_def mk_err_def split: result.splits)



lemma default_lock_request_ok:
  "normalized_absolute (osp_lock_directory p) \<Longrightarrow> \<exists>lock. default_lock_request p = Inr lock"
  by (simp add: default_lock_request_def mk_store_lock_request_def py_guard_def)









subsection \<open>Replacing references\<close>

definition update_ports_ok :: "reference_update_ports \<Rightarrow> bool" where
  "update_ports_ok ports \<longleftrightarrow> (\<forall>tr p ix. rup_read_references ports tr p = Ok ix \<longrightarrow> index_ok ix)"

definition update_request_ok :: "reference_update_request \<Rightarrow> bool" where
  "update_request_ok req \<longleftrightarrow> normalized_absolute (osp_lock_directory (rur_paths req)) \<and> distinct (rur_digests req)
     \<and> list_all reference_valid (map (ObjectReference (rur_kind req) (rur_owner req)) (rur_digests req))"

definition replaced :: "reference_update_request \<Rightarrow> reference_index \<Rightarrow> object_reference list" where
  "replaced req ix = [r \<leftarrow> ri_references ix. ref_kind r \<noteq> rur_kind req \<or> ref_owner r \<noteq> rur_owner req]
     @ map (ObjectReference (rur_kind req) (rur_owner req)) (rur_digests req)"

lemma references_of_Inr:
  "list_all reference_valid (map (ObjectReference k w) ds) \<Longrightarrow> references_of k w ds = Inr (map (ObjectReference k w) ds)"
  by (induction ds) (simp_all add: mk_object_reference_def py_guard_def reference_valid_def)

lemma mk_reference_update_request_ok:
  assumes "mk_reference_update_request p k w ds = Inr req" and "normalized_absolute (osp_lock_directory p)"
  shows "update_request_ok req"
proof -
  have "references_of k w ds = Inr rs \<Longrightarrow> rs = map (ObjectReference k w) ds \<and> list_all reference_valid rs" for rs ds
  proof (induction ds arbitrary: rs)
    case (Cons d ds)
    then show ?case by (auto simp: mk_object_reference_Inr split: sum.splits)
  qed simp
  then obtain "list_all reference_valid (map (ObjectReference k w) ds)" "distinct (map (ObjectReference k w) ds)"
    "req = \<lparr>rur_paths = p, rur_kind = k, rur_owner = w, rur_digests = sort_key digest_str ds\<rparr>"
    using assms(1) by (fastforce simp: mk_reference_update_request_def py_guard_def split: sum.splits if_splits)
  then show ?thesis using assms(2) by (auto simp: update_request_ok_def distinct_map list_all_iff)
qed

lemma replaced_valid:
  assumes "update_request_ok req" and "index_ok ix"
  shows "list_all reference_valid (replaced req ix)" "distinct (replaced req ix)"
  using assms by (auto simp: replaced_def update_request_ok_def index_ok_def list_all_iff distinct_map inj_on_def)

text \<open>
  C24. What replacing references does. On a valid index read under the lease it
  writes precisely the index in which this owner's references of this kind are replaced and every other reference is
  kept, and gives the lease back; but when the new index exceeds the reference limit it raises after the read, and the
  trace ends there: nothing is written and the lease is not released.
\<close>

theorem replace_references_exact:
  assumes req: "mk_reference_update_request p k w ds = Inr req" and paths: "normalized_absolute (osp_lock_directory p)"
    and ports: "update_ports_ok ports" and lock: "default_lock_request p = Inr lock"
    and lease: "rup_acquire_lock ports [] lock = Ok lease" and ix: "rup_read_references ports [CallLock lock] p = Ok ix"
    and run: "replace_references req ports = (tr, res)"
  shows "(length (replaced req ix) \<le> MAX_REFERENCES \<longrightarrow>
       (\<exists>new r. index_ok new \<and> set (ri_references new) = {x \<in> set (ri_references ix). ref_kind x \<noteq> k \<or> ref_owner x \<noteq> w}
            \<union> ObjectReference k w ` set ds
          \<and> tr = [CallLock lock, CallReadReferences p, CallWriteReferences p new, CallRelease lease] \<and> res = Inr r))
   \<and> (MAX_REFERENCES < length (replaced req ix) \<longrightarrow>
       tr = [CallLock lock, CallReadReferences p] \<and> res = Inl (ValueError ''object references must be unique''))"
proof -
  have rq: "rur_paths req = p" "rur_kind req = k" "rur_owner req = w" "set (rur_digests req) = set ds"
    using req by (auto simp: mk_reference_update_request_def py_guard_def split: sum.splits if_splits)
  have ok: "update_request_ok req" by (rule mk_reference_update_request_ok[OF req paths])
  have "index_ok ix" using ports ix by (auto simp: update_ports_ok_def)
  note valid = replaced_valid[OF ok this]
  have refs: "references_of k w (rur_digests req) = Inr (map (ObjectReference k w) (rur_digests req))"
    using ok rq by (intro references_of_Inr) (simp add: update_request_ok_def)
  have step: "replace_references req ports =
      (case mk_reference_index 1 (replaced req ix) of
         Inl e \<Rightarrow> ([CallLock lock, CallReadReferences p], Inl e)
       | Inr new \<Rightarrow> release_result [CallLock lock, CallReadReferences p, CallWriteReferences p new]
           (rup_write_references ports [CallLock lock, CallReadReferences p] p new) lease (rup_release_lock ports))"
    using lock lease ix refs by (simp add: replace_references_def rq replaced_def split: sum.split)
  show ?thesis
  proof (cases "length (replaced req ix) \<le> MAX_REFERENCES")
    case True
    let ?new = "\<lparr>ri_schema_version = 1, ri_references = sort (replaced req ix)\<rparr>"
    have new: "mk_reference_index 1 (replaced req ix) = Inr ?new" using True valid by (simp add: mk_reference_index_Inr)
    have "index_ok ?new" by (rule index_ok_built[OF valid(1) new])
    moreover have "set (ri_references ?new) = {x \<in> set (ri_references ix). ref_kind x \<noteq> k \<or> ref_owner x \<noteq> w}
        \<union> ObjectReference k w ` set ds"
      by (auto simp: replaced_def rq)
    moreover have "tr = [CallLock lock, CallReadReferences p, CallWriteReferences p ?new, CallRelease lease] \<and> (\<exists>r. res = Inr r)"
      using run step new by (auto simp: release_result_def)
    ultimately show ?thesis using True by auto
  next
    case False
    then have "mk_reference_index 1 (replaced req ix) = Inl (ValueError ''object references must be unique'')"
      by (simp add: mk_reference_index_def py_guard_def)
    then show ?thesis using run step False by simp
  qed
qed

subsection \<open>Samples\<close>

definition sample_paths :: object_store_paths where
  "sample_paths =
     \<lparr>osp_root = ''/d'', osp_objects = ''/d/objects/sha256'', osp_state = ''/d/state'',
      osp_references_file = ''/d/state/object-references.json'', osp_lock_directory = ''/d/locks/store.lock'',
      osp_temporary_root = ''/d/tmp/objects'', osp_quarantine = ''/d/objects/quarantine''\<rparr>"

definition digest_a :: object_digest where "digest_a = ObjectDigest ''sha256'' (replicate 64 CHR ''a'')"
definition digest_b :: object_digest where "digest_b = ObjectDigest ''sha256'' (replicate 64 CHR ''b'')"
definition sample_lease :: store_lock_lease where
  "sample_lease = \<lparr>sll_lock_directory = ''/d/locks/store.lock'', sll_token = ''t''\<rparr>"

text \<open>An index with as many references as the limit allows.\<close>

definition full_index :: reference_index where
  "full_index =
     \<lparr>ri_schema_version = 1,
      ri_references = sort (map (\<lambda>i. ObjectReference INSTALLED (str_nat i) digest_a) [0..<MAX_REFERENCES])\<rparr>"


definition sample_update_ports :: reference_update_ports where
  "sample_update_ports =
     \<lparr>rup_acquire_lock = (\<lambda>_ _. Ok sample_lease), rup_release_lock = (\<lambda>_ _. Ok ()),
      rup_read_references = (\<lambda>_ _. Ok full_index), rup_write_references = (\<lambda>_ _ ix. Ok ix)\<rparr>"

lemma sample_digests: "valid_digest digest_a" "valid_digest digest_b" "digest_a \<noteq> digest_b"
  by (simp_all add: valid_digest_def digest_a_def digest_b_def is_lower_hex_def between_def less_eq_char_def list_all_iff)

lemma sample_lock_directory: "normalized_absolute (osp_lock_directory sample_paths)"
  by (simp add: normalized_absolute_def sample_paths_def isabs_def normpath_def initial_slashes_def Let_def)

lemma digits_owner: "i < MAX_REFERENCES \<Longrightarrow> owner_match (str_nat i)"
proof -
  assume i: "i < MAX_REFERENCES"
  have d: "list_all is_digit (str_nat i)" by (rule str_nat_digits)
  have "length (str_nat i) \<le> 6" using i by (intro length_str_nat) (simp_all add: MAX_REFERENCES_def)
  moreover have "is_digit (hd (str_nat i))" "list_all owner_char (tl (str_nat i))"
    using d by (cases "str_nat i"; auto simp: owner_char_def list_all_iff)+
  ultimately show ?thesis by (simp add: owner_match_def)
qed

lemma full_index_ok: "index_ok full_index" "length (ri_references full_index) = MAX_REFERENCES"
proof -
  have "distinct (map (\<lambda>i. ObjectReference INSTALLED (str_nat i) digest_a) [0..<MAX_REFERENCES])"
    by (simp add: distinct_map inj_on_def str_nat_inj)
  then show "index_ok full_index"
    by (auto simp: index_ok_def full_index_def list_all_iff reference_valid_def digits_owner sample_digests)
  show "length (ri_references full_index) = MAX_REFERENCES" by (simp add: full_index_def)
qed



theorem replace_references_exact_witness:
  "\<exists>req lock. mk_reference_update_request sample_paths SETUP ''x'' [digest_b] = Inr req
     \<and> replace_references req sample_update_ports =
         ([CallLock lock, CallReadReferences sample_paths], Inl (ValueError ''object references must be unique''))"
proof -
  have "reference_valid (ObjectReference SETUP ''x'' digest_b)"
    by (simp add: reference_valid_def sample_digests owner_match_def is_letter_def is_lower_def between_def less_eq_char_def)
  then obtain req where req: "mk_reference_update_request sample_paths SETUP ''x'' [digest_b] = Inr req"
    "rur_kind req = SETUP" "rur_owner req = ''x''" "rur_digests req = [digest_b]"
    by (simp add: mk_reference_update_request_def mk_object_reference_def py_guard_def reference_valid_def)
  obtain lock where lock: "default_lock_request sample_paths = Inr lock"
    using default_lock_request_ok[OF sample_lock_directory] by blast
  obtain tr res where run: "replace_references req sample_update_ports = (tr, res)" by fastforce
  have ports: "update_ports_ok sample_update_ports"
    by (simp add: update_ports_ok_def sample_update_ports_def full_index_ok)
  have ans: "rup_acquire_lock sample_update_ports [] lock = Ok sample_lease"
    "rup_read_references sample_update_ports [CallLock lock] sample_paths = Ok full_index"
    by (simp_all add: sample_update_ports_def)
  have "\<forall>r \<in> set (ri_references full_index). ref_kind r = INSTALLED" by (auto simp: full_index_def)
  then have "MAX_REFERENCES < length (replaced req full_index)"
    using full_index_ok(2) by (simp add: replaced_def req filter_True)
  then show ?thesis
    using replace_references_exact[OF req(1) sample_lock_directory ports lock ans run] run req(1) by blast
qed

end
