(* ===== verification/Redaction.thy ===== *)
theory Redaction
  imports Paths
begin

text \<open>
  The redactor (\<open>agent_artifacts/redaction.py\<close>): five regular expressions applied one after
  the other. The patterns are matched as \<open>re\<close> does, by backtracking: an alternative is tried only
  when the earlier ones lead to no match, \<open>*\<close>, \<open>+\<close> and \<open>?\<close> prefer to consume and \<open>*?\<close> prefers not to,
  and \<open>sub\<close> replaces the leftmost matches that do not overlap. Texts are code points up to U+00FF, where
  \<open>\s\<close> is the space of \<open>str.isspace\<close> and ignoring case only identifies ASCII letters.
\<close>

subsection \<open>Patterns\<close>

datatype pattern =
    Eps
  | Cls "char \<Rightarrow> bool"
  | Cat pattern pattern
  | Alt pattern pattern
  | Many "char \<Rightarrow> bool"
  | ManyLazy "char \<Rightarrow> bool"

text \<open>\<open>match p s k\<close>: match \<open>p\<close> at the front of \<open>s\<close> and go on with \<open>k\<close> on the rest, or give up.\<close>

fun many :: "(char \<Rightarrow> bool) \<Rightarrow> string \<Rightarrow> (string \<Rightarrow> string option) \<Rightarrow> string option" where
  "many P [] k = k []"
| "many P (c # s) k =
     (if P c then (case many P s k of Some r \<Rightarrow> Some r | None \<Rightarrow> k (c # s)) else k (c # s))"

fun many_lazy :: "(char \<Rightarrow> bool) \<Rightarrow> string \<Rightarrow> (string \<Rightarrow> string option) \<Rightarrow> string option" where
  "many_lazy P [] k = k []"
| "many_lazy P (c # s) k =
     (case k (c # s) of Some r \<Rightarrow> Some r | None \<Rightarrow> if P c then many_lazy P s k else None)"

primrec match_at :: "pattern \<Rightarrow> string \<Rightarrow> (string \<Rightarrow> string option) \<Rightarrow> string option" where
  "match_at Eps s k = k s"
| "match_at (Cls P) s k = (case s of [] \<Rightarrow> None | c # r \<Rightarrow> if P c then k r else None)"
| "match_at (Cat p q) s k = match_at p s (\<lambda>r. match_at q r k)"
| "match_at (Alt p q) s k = (case match_at p s k of Some r \<Rightarrow> Some r | None \<Rightarrow> match_at q s k)"
| "match_at (Many P) s k = many P s k"
| "match_at (ManyLazy P) s k = many_lazy P s k"

abbreviation opt :: "pattern \<Rightarrow> pattern" where "opt p \<equiv> Alt p Eps"

primrec times :: "nat \<Rightarrow> (char \<Rightarrow> bool) \<Rightarrow> pattern" where
  "times 0 P = Eps"
| "times (Suc n) P = Cat (Cls P) (times n P)"

definition at_least :: "nat \<Rightarrow> (char \<Rightarrow> bool) \<Rightarrow> pattern" where
  "at_least n P = Cat (times n P) (Many P)"

definition to_lower :: "char \<Rightarrow> char" where
  "to_lower c = (if is_upper c then char_of ((of_char c :: nat) + 32) else c)"

primrec lit :: "string \<Rightarrow> pattern" where
  "lit [] = Eps"
| "lit (c # s) = Cat (Cls (\<lambda>x. x = c)) (lit s)"

primrec lit_ci :: "string \<Rightarrow> pattern" where
  "lit_ci [] = Eps"
| "lit_ci (c # s) = Cat (Cls (\<lambda>x. to_lower x = to_lower c)) (lit_ci s)"

primrec alts :: "pattern list \<Rightarrow> pattern" where
  "alts [] = Cls (\<lambda>_. False)"
| "alts (p # ps) = (if ps = [] then p else Alt p (alts ps))"

text \<open>
  A rule is the pattern of the kept prefix, the pattern of what is hidden, and the text put in its place.
  \<open>match_rule\<close> gives the rest after a match; what was kept is recovered from the lengths.
\<close>

definition match_rule :: "pattern \<Rightarrow> pattern \<Rightarrow> string \<Rightarrow> (string \<times> string) option" where
  "match_rule prefix hidden s =
     (case match_at prefix s (\<lambda>r. map_option (\<lambda>_. r) (match_at hidden r Some)) of
        None \<Rightarrow> None
      | Some r \<Rightarrow>
          (case match_at hidden r Some of
             None \<Rightarrow> None
           | Some rest \<Rightarrow> Some (take (length s - length r) s, rest)))"

text \<open>
  \<open>re.sub\<close>: every rule matches at least one character, so the scan moves on; the guard makes the
  recursion structural in the length.
\<close>

function sub_rule :: "pattern \<Rightarrow> pattern \<Rightarrow> string \<Rightarrow> string \<Rightarrow> string" where
  "sub_rule prefix hidden new s =
     (case s of
        [] \<Rightarrow> []
      | c # cs \<Rightarrow>
          (case match_rule prefix hidden s of
             Some (kept, rest) \<Rightarrow>
               if length rest < length s then kept @ new @ sub_rule prefix hidden new rest
               else c # sub_rule prefix hidden new cs
           | None \<Rightarrow> c # sub_rule prefix hidden new cs))"
  by pat_completeness auto
termination
  by (relation "measure (\<lambda>(p, h, n, s). length s)") auto

subsection \<open>The rules\<close>

definition alnum :: "char \<Rightarrow> bool" where
  "alnum c \<longleftrightarrow> is_letter c \<or> is_digit c"

definition name_char :: "char \<Rightarrow> bool" where
  "name_char c \<longleftrightarrow> alnum c \<or> c \<in> set ''_.-''"

text \<open>\<open>_URL_CREDENTIALS_RE\<close>\<close>

definition url_prefix :: pattern where
  "url_prefix = Cat (Cls is_letter) (Cat (Many (\<lambda>c. alnum c \<or> c \<in> set ''+.-'')) (lit ''://''))"

definition url_hidden :: pattern where
  "url_hidden = Cat (at_least 1 (\<lambda>c. c \<noteq> CHR ''/'' \<and> c \<noteq> CHR ''@'' \<and> \<not> is_space c)) (lit ''@'')"

text \<open>\<open>_QUERY_SECRET_RE\<close>\<close>

definition query_prefix :: pattern where
  "query_prefix =
     Cat (Cls (\<lambda>c. c = CHR ''?'' \<or> c = CHR ''&''))
       (Cat (alts (map lit_ci [''token'', ''access_token'', ''api_key'', ''key'', ''secret'', ''password''])) (lit ''=''))"

definition query_hidden :: pattern where
  "query_hidden = at_least 1 (\<lambda>c. c \<noteq> CHR ''&'' \<and> c \<noteq> CHR ''#'' \<and> \<not> is_space c)"

text \<open>\<open>_ASSIGNMENT_SECRET_RE\<close>\<close>

definition sensitive_word :: pattern where
  "sensitive_word =
     alts [lit_ci ''token'', lit_ci ''password'', lit_ci ''passwd'', lit_ci ''secret'',
           Cat (lit_ci ''api'') (Cat (opt (Cls (\<lambda>c. c = CHR ''_'' \<or> c = CHR ''-''))) (lit_ci ''key'')),
           lit_ci ''apikey'', lit_ci ''credential'', lit_ci ''auth'']"

definition assignment_prefix :: pattern where
  "assignment_prefix =
     Cat (Many name_char) (Cat sensitive_word (Cat (Many name_char)
       (Cat (Many is_space) (Cat (Cls (\<lambda>c. c = CHR '':'' \<or> c = CHR ''='')) (Many is_space)))))"

definition assignment_hidden :: pattern where
  "assignment_hidden = at_least 1 (\<lambda>c. \<not> is_space c \<and> c \<notin> set '',;&#'')"

text \<open>\<open>_CREDENTIAL_SHAPE_RE\<close> and \<open>_PRIVATE_KEY_RE\<close>\<close>

definition credential_shape :: pattern where
  "credential_shape =
     alts [Cat (lit ''gh'') (Cat (Cls (\<lambda>c. c \<in> set ''pousr'')) (Cat (lit ''_'') (at_least 16 alnum))),
           Cat (lit ''github_pat_'') (at_least 20 (\<lambda>c. alnum c \<or> c = CHR ''_'')),
           Cat (lit ''xox'') (Cat (Cls (\<lambda>c. c \<in> set ''bpsar'')) (Cat (lit ''-'') (at_least 10 (\<lambda>c. alnum c \<or> c = CHR ''-'')))),
           Cat (lit ''AKIA'') (times 16 (\<lambda>c. is_digit c \<or> is_upper c)),
           Cat (lit ''sk-'') (at_least 20 alnum)]"

definition key_banner :: "string \<Rightarrow> pattern" where
  "key_banner word =
     Cat (lit (''-----'' @ word)) (Cat (opt (Cat (lit '' '') (at_least 1 is_upper))) (lit '' PRIVATE KEY-----''))"

definition private_key :: pattern where
  "private_key = Cat (key_banner ''BEGIN'') (Cat (ManyLazy (\<lambda>_. True)) (key_banner ''END''))"

definition redact_text :: "string \<Rightarrow> string" where
  "redact_text text =
     sub_rule Eps credential_shape ''[redacted]''
       (sub_rule assignment_prefix assignment_hidden ''[redacted]''
         (sub_rule query_prefix query_hidden ''[redacted]''
           (sub_rule url_prefix url_hidden ''[redacted]@''
             (sub_rule Eps private_key ''[redacted private key]'' text))))"

fun search :: "pattern \<Rightarrow> string \<Rightarrow> bool" where
  "search p [] = (match_at p [] Some \<noteq> None)"
| "search p (c # s) = (match_at p (c # s) Some \<noteq> None \<or> search p s)"

definition contains_credential_shape :: "string \<Rightarrow> bool" where
  "contains_credential_shape text \<longleftrightarrow> search credential_shape text \<or> search private_key text"

subsection \<open>What a pattern can consume\<close>

text \<open>The remainders a pattern can leave, whatever the order in which they are tried.\<close>

fun rests :: "(char \<Rightarrow> bool) \<Rightarrow> string \<Rightarrow> string set" where
  "rests P [] = {[]}"
| "rests P (c # s) = insert (c # s) (if P c then rests P s else {})"

primrec reach :: "pattern \<Rightarrow> string \<Rightarrow> string set" where
  "reach Eps s = {s}"
| "reach (Cls P) s = (case s of [] \<Rightarrow> {} | c # r \<Rightarrow> if P c then {r} else {})"
| "reach (Cat p q) s = (\<Union>r \<in> reach p s. reach q r)"
| "reach (Alt p q) s = reach p s \<union> reach q s"
| "reach (Many P) s = rests P s"
| "reach (ManyLazy P) s = rests P s"

lemma many_iff: "many P s k \<noteq> None \<longleftrightarrow> (\<exists>r \<in> rests P s. k r \<noteq> None)"
  by (induction s) (auto split: option.splits)

lemma many_lazy_iff: "many_lazy P s k \<noteq> None \<longleftrightarrow> (\<exists>r \<in> rests P s. k r \<noteq> None)"
  by (induction s) (auto split: option.splits)

lemma many_Some: "many P s k = Some x \<Longrightarrow> \<exists>r \<in> rests P s. k r = Some x"
  by (induction s) (auto split: option.splits if_splits)

lemma many_lazy_Some: "many_lazy P s k = Some x \<Longrightarrow> \<exists>r \<in> rests P s. k r = Some x"
  by (induction s) (auto split: option.splits if_splits)

lemma match_at_iff: "match_at p s k \<noteq> None \<longleftrightarrow> (\<exists>r \<in> reach p s. k r \<noteq> None)"
proof (induction p arbitrary: s k)
  case (Alt p q)
  show ?case using Alt.IH[of s k] by (auto split: option.splits)
next
  case (Cat p q)
  show ?case unfolding match_at.simps Cat.IH reach.simps by blast
next
  case (Many P)
  show ?case unfolding match_at.simps reach.simps by (rule many_iff)
next
  case (ManyLazy P)
  show ?case unfolding match_at.simps reach.simps by (rule many_lazy_iff)
qed (auto split: list.splits)

lemma match_at_Some: "match_at p s k = Some x \<Longrightarrow> \<exists>r \<in> reach p s. k r = Some x"
proof (induction p arbitrary: s k x)
  case (Cat p q)
  then obtain r where "r \<in> reach p s" "match_at q r k = Some x" by fastforce
  then show ?case using Cat.IH(2) by fastforce
next
  case (Alt p q)
  then show ?case by (fastforce split: option.splits)
qed (auto split: list.splits if_splits option.splits dest: many_Some many_lazy_Some)

definition can_match :: "pattern \<Rightarrow> string \<Rightarrow> bool" where
  "can_match p s \<longleftrightarrow> reach p s \<noteq> {}"

lemma match_Some_iff: "match_at p s Some \<noteq> None \<longleftrightarrow> can_match p s"
  unfolding match_at_iff can_match_def by auto

text \<open>More text after a match does not undo it.\<close>

lemma rests_append: "r \<in> rests P s \<Longrightarrow> r @ t \<in> rests P (s @ t)"
proof (induction s)
  case Nil
  then show ?case by (cases t) auto
qed (auto split: if_splits)

lemma reach_append: "r \<in> reach p s \<Longrightarrow> r @ t \<in> reach p (s @ t)"
proof (induction p arbitrary: s r)
  case (Cat p q)
  then obtain m where "m \<in> reach p s" "r \<in> reach q m" by auto
  then have "m @ t \<in> reach p (s @ t)" "r @ t \<in> reach q (m @ t)" using Cat.IH by blast+
  then show ?case by auto
qed (auto split: list.splits if_splits intro: rests_append)

text \<open>A character that no class of the pattern accepts is a border.\<close>

primrec excludes :: "char \<Rightarrow> pattern \<Rightarrow> bool" where
  "excludes b Eps = True"
| "excludes b (Cls P) = (\<not> P b)"
| "excludes b (Cat p q) = (excludes b p \<and> excludes b q)"
| "excludes b (Alt p q) = (excludes b p \<and> excludes b q)"
| "excludes b (Many P) = (\<not> P b)"
| "excludes b (ManyLazy P) = (\<not> P b)"

lemma rests_border: "\<not> P b \<Longrightarrow> r \<in> rests P (u @ b # v) \<Longrightarrow> \<exists>w. r = w @ b # v \<and> w \<in> rests P u"
  by (induction u) (auto split: if_splits)

lemma reach_border:
  "excludes b p \<Longrightarrow> r \<in> reach p (u @ b # v) \<Longrightarrow> \<exists>w. r = w @ b # v \<and> w \<in> reach p u"
proof (induction p arbitrary: u r)
  case (Cls P)
  then show ?case by (cases u) (auto split: if_splits)
next
  case (Cat p q)
  then obtain m where m: "m \<in> reach p (u @ b # v)" "r \<in> reach q m" by auto
  then obtain w where w: "m = w @ b # v" "w \<in> reach p u" using Cat.IH(1) Cat.prems(1) by fastforce
  then obtain x where "r = x @ b # v" "x \<in> reach q w" using Cat.IH(2) Cat.prems(1) m(2) by fastforce
  then show ?case using w(2) by auto
next
  case (Alt p q)
  then show ?case by fastforce
qed (auto dest: rests_border)

lemma can_match_border: "excludes b p \<Longrightarrow> can_match p (u @ b # v) \<Longrightarrow> can_match p u"
  using reach_border unfolding can_match_def by blast

lemma can_match_append: "can_match p s \<Longrightarrow> can_match p (s @ t)"
  using reach_append unfolding can_match_def by blast

subsection \<open>What redaction hides\<close>

lemma search_iff: "search p s \<longleftrightarrow> (\<exists>u v. s = u @ v \<and> can_match p v)"
proof (induction s)
  case (Cons c s)
  show ?case unfolding search.simps(2) match_Some_iff Cons.IH
    by (auto simp: Cons_eq_append_conv)
qed (use match_Some_iff in auto)

lemma match_rule_Eps:
  "match_rule Eps p s = (case match_at p s Some of None \<Rightarrow> None | Some rest \<Rightarrow> Some ([], rest))"
  by (simp add: match_rule_def split: option.splits)

text \<open>Up to the first replacement the text is unchanged.\<close>

lemma sub_rule_front:
  "\<exists>u t t'. s = u @ t' \<and> sub_rule Eps p (b # new) s = u @ t \<and> (t = [] \<and> t' = [] \<or> (\<exists>z. t = b # z))"
proof (induction "length s" arbitrary: s rule: less_induct)
  case less
  show ?case
  proof (cases s)
    case Nil
    then show ?thesis by simp
  next
    case (Cons c cs)
    have IH: "\<exists>u t t'. c # cs = u @ t' \<and> c # sub_rule Eps p (b # new) cs = u @ t \<and> (t = [] \<and> t' = [] \<or> (\<exists>z. t = b # z))"
      using less[of cs] Cons by (metis append_Cons length_Cons lessI)
    show ?thesis
    proof (cases "\<exists>rest. match_rule Eps p s = Some ([], rest) \<and> length rest < length s")
      case True
      then obtain rest where "sub_rule Eps p (b # new) s = (b # new) @ sub_rule Eps p (b # new) rest"
        using Cons by auto
      then show ?thesis by (metis append_Cons append_Nil)
    next
      case False
      then have "sub_rule Eps p (b # new) s = c # sub_rule Eps p (b # new) cs"
        using Cons by (auto simp: match_rule_Eps split: option.splits)
      then show ?thesis using IH Cons by simp
    qed
  qed
qed

lemma rests_shorter: "r \<in> rests P s \<Longrightarrow> length r \<le> length s"
  by (induction s) (auto split: if_splits intro: le_SucI)

lemma reach_shorter: "r \<in> reach p s \<Longrightarrow> length r \<le> length s"
proof (induction p arbitrary: s r)
  case (Cat p q)
  then obtain m where "m \<in> reach p s" "r \<in> reach q m" by auto
  then show ?case using Cat.IH by (meson le_trans)
qed (auto split: list.splits if_splits dest: rests_shorter)

text \<open>A pattern that always consumes something.\<close>

definition consuming :: "pattern \<Rightarrow> bool" where
  "consuming p \<longleftrightarrow> (\<forall>s. \<forall>r \<in> reach p s. length r < length s)"

lemma consuming_Cls: "consuming (Cls P)"
  by (auto simp: consuming_def split: list.splits if_splits)

lemma consumingD: "consuming p \<Longrightarrow> r \<in> reach p s \<Longrightarrow> length r < length s"
  by (simp add: consuming_def)

lemma consuming_Cat: "consuming p \<Longrightarrow> consuming (Cat p q)"
  unfolding consuming_def[of "Cat p q"] using reach_shorter[of _ q] consumingD[of p]
  by simp (meson le_less_trans)

lemma consuming_Alt: "consuming p \<Longrightarrow> consuming q \<Longrightarrow> consuming (Alt p q)"
  by (auto simp: consuming_def)

lemma consuming_Nil: "consuming p \<Longrightarrow> \<not> can_match p []"
  using consumingD[of p _ "[]"] by (auto simp: can_match_def)

lemma search_border:
  assumes "excludes b p" and "\<not> can_match p []"
  shows "search p (x @ b # y) \<Longrightarrow> search p x \<or> search p y"
proof (induction x)
  case Nil
  then show ?case using can_match_border[OF assms(1), of "[]" y] assms(2) by (auto simp: match_Some_iff[symmetric])
next
  case (Cons c x)
  then show ?case using can_match_border[OF assms(1), of "c # x" y] by (auto simp: match_Some_iff[symmetric])
qed

lemma sub_rule_clean:
  assumes excl: "excludes b p" "excludes e p" and cons: "consuming p" and mid: "\<not> search p mid"
  shows "\<not> search p (sub_rule Eps p (b # mid @ [e]) s)"
proof (induction "length s" arbitrary: s rule: less_induct)
  case less
  note empty = consuming_Nil[OF cons]
  show ?case
  proof (cases s)
    case Nil
    then show ?thesis using empty match_Some_iff[of p "[]"] by simp
  next
    case (Cons c cs)
    show ?thesis
    proof (cases "match_at p s Some")
      case (Some rest)
      then have "rest \<in> reach p s" using match_at_Some by fastforce
      then have shorter: "length rest < length s" using cons by (auto simp: consuming_def)
      then have out: "sub_rule Eps p (b # mid @ [e]) s = [] @ b # (mid @ e # sub_rule Eps p (b # mid @ [e]) rest)"
        using Some Cons by (simp add: match_rule_Eps)
      have "\<not> search p (mid @ e # sub_rule Eps p (b # mid @ [e]) rest)"
        using search_border[OF excl(2) empty] mid less[OF shorter] by blast
      moreover have "\<not> search p []" using empty match_Some_iff[of p "[]"] by simp
      ultimately show ?thesis unfolding out using search_border[OF excl(1) empty] by blast
    next
      case None
      then have out: "sub_rule Eps p (b # mid @ [e]) s = c # sub_rule Eps p (b # mid @ [e]) cs"
        using Cons by (simp add: match_rule_Eps)
      obtain u t t' where f: "cs = u @ t'" "sub_rule Eps p (b # mid @ [e]) cs = u @ t"
        "t = [] \<and> t' = [] \<or> (\<exists>z. t = b # z)"
        using sub_rule_front[of cs p b "mid @ [e]"] by blast
      have "\<not> can_match p (c # u @ t)"
      proof
        assume m: "can_match p (c # u @ t)"
        have "can_match p (c # u)"
          using f(3) m can_match_border[OF excl(1), of "c # u"] by auto
        then have "can_match p s" using can_match_append[of p "c # u" t'] f(1) Cons by simp
        then show False using None match_Some_iff[of p s] by simp
      qed
      moreover have "\<not> search p (sub_rule Eps p (b # mid @ [e]) cs)" using less[of cs] Cons by simp
      ultimately show ?thesis unfolding out search.simps(2) match_Some_iff using f(2) by simp
    qed
  qed
qed

lemma consuming_lit: "consuming (lit (c # s))"
  by (simp add: consuming_Cat consuming_Cls)

lemma excludes_lit: "excludes b (lit s) \<longleftrightarrow> b \<notin> set s"
  by (induction s) auto

lemma excludes_times: "\<not> P b \<Longrightarrow> excludes b (times n P)"
  by (induction n) simp_all

lemma credential_consuming: "consuming credential_shape"
  unfolding credential_shape_def
  by (simp add: consuming_Alt consuming_Cat consuming_Cls)

lemma credential_excludes: "b = CHR ''['' \<or> b = CHR '']'' \<Longrightarrow> excludes b credential_shape"
  unfolding credential_shape_def at_least_def
  by (auto simp: excludes_lit excludes_times alnum_def is_letter_def is_upper_def is_lower_def is_digit_def between_def
      less_eq_char_def simp del: lit.simps times.simps)

text \<open>
  C26. No recognised credential survives redaction: whatever the text, the redacted text contains no
  substring of the shape of a known token (GitHub, Slack, AWS or \<open>sk-\<close> keys).
\<close>

theorem redact_text_hides_credentials: "\<not> search credential_shape (redact_text s)"
proof -
  have "\<not> search credential_shape ''redacted''"
    by (simp add: credential_shape_def at_least_def)
  then have "\<not> search credential_shape (sub_rule Eps credential_shape (CHR ''['' # ''redacted'' @ [CHR '']'']) x)" for x
    using credential_consuming credential_excludes by (intro sub_rule_clean) simp_all
  then show ?thesis by (simp add: redact_text_def del: sub_rule.simps)
qed

text \<open>
  Redaction is not idempotent, against the promise of the function's documentation: hiding an assigned value can
  remove the slash that kept a location from reading as one with credentials.
\<close>

lemma redact_text_not_idempotent:
  "redact_text ''a://auth=/,@'' = ''a://auth=[redacted],@''"
  "redact_text ''a://auth=[redacted],@'' = ''a://[redacted]@''"
  by code_simp+

end
