(* ===== verification/SourceModel.thy ===== *)
theory SourceModel
  imports Complex_Main StoreModel Redaction
begin

text \<open>
  Configured sources (\<open>ConfiguredSource\<close> of \<open>agent_artifacts/configuration/model.py\<close>) and the values of source
  acquisition, publication, health and synchronisation (\<open>agent_artifacts/sources/model.py\<close>).
\<close>

definition SOURCE_INVALID :: diagnostic_code where "SOURCE_INVALID = ''source-invalid''"

definition source_error :: "string \<Rightarrow> 'a result" where
  "source_error message = mk_err [error_diagnostic SOURCE_INVALID message]"

subsection \<open>Configured sources\<close>

datatype source_kind = REGISTRY_GIT | SOURCE_GIT | SOURCE_LOCAL

definition source_kind_value :: "source_kind \<Rightarrow> string" where
  "source_kind_value k = (case k of REGISTRY_GIT \<Rightarrow> ''registry-git'' | SOURCE_GIT \<Rightarrow> ''source-git'' | SOURCE_LOCAL \<Rightarrow> ''source-local'')"

record configured_source =
  cs_alias :: source_alias
  cs_kind :: source_kind
  cs_location :: string
  cs_ref :: "string option"
  cs_enabled :: bool

definition mk_configured_source ::
  "source_alias \<Rightarrow> source_kind \<Rightarrow> string \<Rightarrow> string option \<Rightarrow> bool \<Rightarrow> configured_source py" where
  "mk_configured_source alias kind location ref enabled =
     py_guard (alias_value alias = [] \<or> location = []) ''configured source identity must be non-empty''
       (py_guard (kind = SOURCE_LOCAL \<and> ref \<noteq> None) ''local sources do not have Git refs''
          (py_guard (kind \<noteq> SOURCE_LOCAL \<and> ref = None) ''Git sources require a ref''
             (Inr \<lparr>cs_alias = alias, cs_kind = kind, cs_location = location, cs_ref = ref, cs_enabled = enabled\<rparr>)))"

definition is_registry :: "configured_source \<Rightarrow> bool" where
  "is_registry s \<longleftrightarrow> cs_kind s = REGISTRY_GIT"

definition is_git :: "configured_source \<Rightarrow> bool" where
  "is_git s \<longleftrightarrow> cs_kind s = REGISTRY_GIT \<or> cs_kind s = SOURCE_GIT"

subsection \<open>Identity and layout of a managed source\<close>

datatype source_instance = SourceInstanceId (instance_value: string)

text \<open>\<open>_INSTANCE_RE\<close>\<close>

definition instance_match :: "string \<Rightarrow> bool" where
  "instance_match s \<longleftrightarrow>
     list_ex (\<lambda>p. take (length p) s = p \<and> length (drop (length p) s) = 32 \<and> list_all is_lower_hex (drop (length p) s))
       [''git-'', ''local-'', ''registry-'']"

definition mk_source_instance_id :: "string \<Rightarrow> source_instance py" where
  "mk_source_instance_id v =
     py_guard (\<not> instance_match v) ''source instance ID must be a canonical kind/digest value'' (Inr (SourceInstanceId v))"

record managed_source_paths =
  ssp_root :: string
  ssp_mirror :: string
  ssp_snapshots :: string
  ssp_current_file :: string
  ssp_lock_directory :: string
  ssp_temporary_root :: string

definition mk_source_store_paths ::
  "string \<Rightarrow> string \<Rightarrow> string \<Rightarrow> string \<Rightarrow> string \<Rightarrow> string \<Rightarrow> managed_source_paths py" where
  "mk_source_store_paths store_root mirror snapshots current_file lock_directory temporary_root =
     py_guard (list_ex (\<lambda>v. \<not> normalized_absolute v) [store_root, mirror, snapshots, current_file, lock_directory, temporary_root])
       ''source store paths must be normalized and absolute''
       (Inr \<lparr>ssp_root = store_root, ssp_mirror = mirror, ssp_snapshots = snapshots, ssp_current_file = current_file,
             ssp_lock_directory = lock_directory, ssp_temporary_root = temporary_root\<rparr>)"

record snapshot_limits =
  sl_max_files :: int
  sl_max_file_bytes :: int
  sl_max_total_bytes :: int
  sl_max_depth :: int

definition MAX_SNAPSHOT_LIMITS :: "int list" where
  "MAX_SNAPSHOT_LIMITS = [10000, 10 * 1024 * 1024, 100 * 1024 * 1024, 64]"

definition mk_snapshot_limits :: "int \<Rightarrow> int \<Rightarrow> int \<Rightarrow> int \<Rightarrow> snapshot_limits py" where
  "mk_snapshot_limits max_files max_file_bytes max_total_bytes max_depth =
     (let values = [max_files, max_file_bytes, max_total_bytes, max_depth] in
      py_guard (list_ex (\<lambda>v. v \<le> 0) values \<or> list_ex (\<lambda>(v, m). m < v) (zip values MAX_SNAPSHOT_LIMITS))
        ''snapshot limits must be positive integers within hard safety bounds''
        (Inr \<lparr>sl_max_files = max_files, sl_max_file_bytes = max_file_bytes, sl_max_total_bytes = max_total_bytes,
              sl_max_depth = max_depth\<rparr>))"

definition instance_prefix :: "source_kind \<Rightarrow> string" where
  "instance_prefix k = (case k of REGISTRY_GIT \<Rightarrow> ''registry'' | SOURCE_GIT \<Rightarrow> ''git'' | SOURCE_LOCAL \<Rightarrow> ''local'')"

definition instance_id :: "configured_source \<Rightarrow> json_entries \<Rightarrow> source_instance py" where
  "instance_id source members =
     mk_source_instance_id (instance_prefix (cs_kind source) @ ''-'' @ take 32 (digest_value (json_digest (json_object members))))"

definition source_instance_id :: "configured_source \<Rightarrow> source_instance py" where
  "source_instance_id source =
     instance_id source
       [(''kind'', JStr (source_kind_value (cs_kind source))), (''location'', JStr (cs_location source)),
        (''ref'', JStr (or_empty (cs_ref source)))]"

definition source_store_paths :: "string \<Rightarrow> source_instance \<Rightarrow> managed_source_paths py" where
  "source_store_paths data_root ident =
     py_guard (\<not> normalized_absolute data_root) ''source data root must be normalized and absolute''
       (let store_root = join_all data_root [''sources'', instance_value ident] in
        mk_source_store_paths store_root (join_all store_root [''mirror.git'']) (join_all store_root [''snapshots''])
          (join_all store_root [''current.json'']) (join_all store_root [''sync.lock'']) (join_all store_root [''tmp'']))"

subsection \<open>Snapshots and candidates\<close>

fun snapshot_tree :: "snapshot_entry list \<Rightarrow> string list \<Rightarrow> tree_entry list \<Rightarrow> tree_entry list result" where
  "snapshot_tree [] seen entries = Ok entries"
| "snapshot_tree (entry # rest) seen entries =
     (let raw = entry_raw entry in
      if parse_relative_path raw None \<noteq> Ok (sne_path entry) \<or> raw \<in> set seen then
        source_error (''snapshot path is invalid or duplicated: '' @ repr_str raw)
      else (case sne_kind entry of
          SE_DIRECTORY \<Rightarrow>
            if sne_content entry \<noteq> [] \<or> sne_executable entry then
              source_error (''snapshot directory has file metadata: '' @ raw)
            else snapshot_tree rest (raw # seen) (entries @ [directory_entry (sne_path entry)])
        | SE_FILE \<Rightarrow>
            snapshot_tree rest (raw # seen) (entries @ [file_entry (sne_path entry) (sne_content entry) (sne_executable entry)])
        | kind \<Rightarrow> source_error (''snapshot contains forbidden '' @ snapshot_kind_value kind @ '': '' @ raw)))"

definition source_snapshot_digest :: "source_snapshot \<Rightarrow> object_digest result" where
  "source_snapshot_digest snapshot =
     (case snapshot_tree (snap_entries snapshot) [] [] of Err ds \<Rightarrow> Err ds | Ok entries \<Rightarrow> tree_digest entries)"

record source_candidate =
  sc_instance_id :: source_instance
  sc_alias :: source_alias
  sc_resolved_revision :: string
  sc_snapshot_digest :: object_digest
  sc_snapshot :: source_snapshot

definition mk_source_candidate ::
  "source_instance \<Rightarrow> source_alias \<Rightarrow> string \<Rightarrow> object_digest \<Rightarrow> source_snapshot \<Rightarrow> source_candidate py" where
  "mk_source_candidate ident alias revision digest snapshot =
     py_guard (alias_value alias = [] \<or> \<not> one_line revision) ''source candidate identity must be one non-empty line''
       (py_guard (\<not> valid_digest digest) ''source candidate digest must be canonical SHA-256''
          (py_guard (source_snapshot_digest snapshot \<noteq> Ok digest) ''source candidate digest must bind the exact safe snapshot''
             (Inr \<lparr>sc_instance_id = ident, sc_alias = alias, sc_resolved_revision = revision,
                   sc_snapshot_digest = digest, sc_snapshot = snapshot\<rparr>)))"

definition error_text :: "py_error \<Rightarrow> string" where
  "error_text e = (case e of ValueError m \<Rightarrow> m | KeyError m \<Rightarrow> repr_str m | AssertionError \<Rightarrow> [])"

definition make_source_candidate ::
  "source_instance \<Rightarrow> source_alias \<Rightarrow> string \<Rightarrow> source_snapshot \<Rightarrow> source_candidate result" where
  "make_source_candidate ident alias revision snapshot =
     (case source_snapshot_digest snapshot of
        Err ds \<Rightarrow> Err ds
      | Ok digest \<Rightarrow>
          (case mk_source_candidate ident alias revision digest snapshot of
             Inl e \<Rightarrow> source_error (error_text e)
           | Inr c \<Rightarrow> Ok c))"

record validated_source_candidate =
  vsc_candidate :: source_candidate
  vsc_declared_source_id :: source_id

definition mk_validated_source_candidate :: "source_candidate \<Rightarrow> source_id \<Rightarrow> validated_source_candidate py" where
  "mk_validated_source_candidate candidate declared =
     py_guard (source_id_value declared = []) ''validated source requires a declared source ID''
       (Inr \<lparr>vsc_candidate = candidate, vsc_declared_source_id = declared\<rparr>)"

record current_source =
  cur_candidate :: source_candidate
  cur_declared_source_id :: source_id
  cur_published_at_epoch_seconds :: int
  cur_snapshot_root :: string

definition mk_current_source :: "source_candidate \<Rightarrow> source_id \<Rightarrow> int \<Rightarrow> string \<Rightarrow> current_source py" where
  "mk_current_source candidate declared published_at snapshot_root =
     py_guard (source_id_value declared = []) ''current source requires a declared source ID''
       (py_guard (published_at < 0) ''source publication time must be a non-negative integer''
          (py_guard (\<not> normalized_absolute snapshot_root) ''current snapshot root must be normalized and absolute''
             (Inr \<lparr>cur_candidate = candidate, cur_declared_source_id = declared,
                   cur_published_at_epoch_seconds = published_at, cur_snapshot_root = snapshot_root\<rparr>)))"

subsection \<open>Health\<close>

datatype health_status = MISSING | HEALTHY | STALE | NOT_SYNCHRONIZED | CHECK_UNAVAILABLE | DEGRADED

record source_health =
  sh_status :: health_status
  sh_age_seconds :: "int option"
  sh_current :: "current_source option"
  sh_diagnostics :: "diagnostic list"

definition mk_source_health ::
  "health_status \<Rightarrow> int option \<Rightarrow> current_source option \<Rightarrow> diagnostic list \<Rightarrow> source_health" where
  "mk_source_health status age current diagnostics =
     \<lparr>sh_status = status, sh_age_seconds = age, sh_current = current, sh_diagnostics = sort_diagnostics diagnostics\<rparr>"

definition assess_source_health ::
  "current_source option \<Rightarrow> int \<Rightarrow> int \<Rightarrow> diagnostic list \<Rightarrow> source_health py" where
  "assess_source_health current now max_age diagnostics =
     py_guard (now < 0 \<or> max_age < 0) ''health clock and maximum age must be non-negative integers''
       (Inr (case current of
           None \<Rightarrow>
             if diagnostics \<noteq> [] then mk_source_health DEGRADED None None diagnostics
             else mk_source_health MISSING None None diagnostics
         | Some c \<Rightarrow>
             (let age = max 0 (now - cur_published_at_epoch_seconds c);
                  status = (if diagnostics \<noteq> [] then DEGRADED else if max_age < age then STALE else HEALTHY)
              in mk_source_health status (Some age) current diagnostics)))"

datatype sync_fallback = REQUIRE_FRESH | ALLOW_LAST_KNOWN_GOOD
datatype sync_disposition = SD_PUBLISHED | SD_UNCHANGED | SD_RETAINED

record source_sync_outcome =
  sso_disposition :: sync_disposition
  sso_current :: current_source
  sso_diagnostics :: "diagnostic list"

definition mk_source_sync_outcome ::
  "sync_disposition \<Rightarrow> current_source \<Rightarrow> diagnostic list \<Rightarrow> source_sync_outcome" where
  "mk_source_sync_outcome disposition current diagnostics =
     \<lparr>sso_disposition = disposition, sso_current = current, sso_diagnostics = sort_diagnostics diagnostics\<rparr>"

record source_identity_transition =
  tr_from_source_id :: source_id
  tr_to_source_id :: source_id
  tr_from_revision :: string
  tr_to_revision :: string
  tr_from_digest :: object_digest
  tr_to_digest :: object_digest

definition mk_source_identity_transition ::
  "source_id \<Rightarrow> source_id \<Rightarrow> string \<Rightarrow> string \<Rightarrow> object_digest \<Rightarrow> object_digest \<Rightarrow> source_identity_transition py" where
  "mk_source_identity_transition from_id to_id from_rev to_rev from_digest to_digest =
     py_guard (source_id_value from_id = [] \<or> source_id_value to_id = []) ''identity transition requires both declared source IDs''
       (py_guard (from_id = to_id) ''identity transition requires two different declared source IDs''
          (py_guard (list_ex (\<lambda>r. \<not> one_line r) [from_rev, to_rev]) ''identity transition revisions must be one non-empty line''
             (py_guard (list_ex (\<lambda>d. \<not> valid_digest d) [from_digest, to_digest])
                ''identity transition digests must be canonical SHA-256''
                (Inr \<lparr>tr_from_source_id = from_id, tr_to_source_id = to_id, tr_from_revision = from_rev,
                      tr_to_revision = to_rev, tr_from_digest = from_digest, tr_to_digest = to_digest\<rparr>))))"

subsection \<open>Requests of the ports\<close>

record local_snapshot_request =
  lsr_instance_id :: source_instance
  lsr_alias :: source_alias
  lsr_root :: string
  lsr_limits :: snapshot_limits

definition mk_local_snapshot_request ::
  "source_instance \<Rightarrow> source_alias \<Rightarrow> string \<Rightarrow> snapshot_limits \<Rightarrow> local_snapshot_request py" where
  "mk_local_snapshot_request ident alias directory limits =
     py_guard (alias_value alias = [] \<or> \<not> normalized_absolute directory)
       ''local snapshot request requires an alias and normalized absolute root''
       (Inr \<lparr>lsr_instance_id = ident, lsr_alias = alias, lsr_root = directory, lsr_limits = limits\<rparr>)"

record git_snapshot_request =
  gsr_instance_id :: source_instance
  gsr_alias :: source_alias
  gsr_location :: string
  gsr_ref :: string
  gsr_mirror_path :: string
  gsr_temporary_root :: string
  gsr_limits :: snapshot_limits
  gsr_timeout_seconds :: int
  gsr_allow_local_transport :: bool

definition mk_git_snapshot_request ::
  "source_instance \<Rightarrow> source_alias \<Rightarrow> string \<Rightarrow> string \<Rightarrow> string \<Rightarrow> string \<Rightarrow> snapshot_limits \<Rightarrow> int \<Rightarrow> bool
     \<Rightarrow> git_snapshot_request py" where
  "mk_git_snapshot_request ident alias location ref mirror temporary limits timeout local_transport =
     py_guard (alias_value alias = [] \<or> location = [] \<or> \<not> one_line ref) ''Git snapshot request identity is invalid''
       (py_guard (list_ex (\<lambda>v. \<not> normalized_absolute v) [mirror, temporary]) ''Git snapshot paths must be normalized and absolute''
          (py_guard (timeout \<le> 0) ''Git snapshot timeout/transport value is invalid''
             (Inr \<lparr>gsr_instance_id = ident, gsr_alias = alias, gsr_location = location, gsr_ref = ref,
                   gsr_mirror_path = mirror, gsr_temporary_root = temporary, gsr_limits = limits,
                   gsr_timeout_seconds = timeout, gsr_allow_local_transport = local_transport\<rparr>)))"

record source_validation_request =
  svr_candidate :: source_candidate
  svr_executable_version :: semver
  svr_available_capabilities :: "capability list"

record current_source_request =
  csr_paths :: managed_source_paths
  csr_alias :: source_alias

record source_publish_command =
  spc_paths :: managed_source_paths
  spc_validated :: validated_source_candidate
  spc_observed_at_epoch_seconds :: int

definition mk_source_publish_command ::
  "managed_source_paths \<Rightarrow> validated_source_candidate \<Rightarrow> int \<Rightarrow> source_publish_command py" where
  "mk_source_publish_command paths validated observed_at =
     py_guard (observed_at < 0) ''source publish time must be a non-negative integer''
       (Inr \<lparr>spc_paths = paths, spc_validated = validated, spc_observed_at_epoch_seconds = observed_at\<rparr>)"

record source_publish_receipt =
  spr_current :: current_source
  spr_created :: bool

text \<open>A lock timeout is a Python number, a rational here: only its sign is inspected.\<close>

record source_lock_request =
  solr_lock_directory :: string
  solr_timeout_seconds :: rat
  solr_stale_after_seconds :: int

definition mk_source_lock_request :: "string \<Rightarrow> rat \<Rightarrow> int \<Rightarrow> source_lock_request py" where
  "mk_source_lock_request lock_directory timeout stale =
     py_guard (\<not> normalized_absolute lock_directory \<or> timeout \<le> 0 \<or> stale \<le> 0) ''source lock request is invalid''
       (Inr \<lparr>solr_lock_directory = lock_directory, solr_timeout_seconds = timeout, solr_stale_after_seconds = stale\<rparr>)"

record source_lock_lease =
  soll_lock_directory :: string
  soll_token :: string

definition mk_source_lock_lease :: "string \<Rightarrow> string \<Rightarrow> source_lock_lease py" where
  "mk_source_lock_lease lock_directory token =
     py_guard (\<not> isabs lock_directory \<or> token = []) ''source lock lease is invalid''
       (Inr \<lparr>soll_lock_directory = lock_directory, soll_token = token\<rparr>)"

subsection \<open>Layout and instance identity\<close>

lemma normalized_absolute_join:
  assumes "normalized_absolute r" "list_all proper_component ps"
  shows "normalized_absolute (join_all r ps)"
  using assms(2,1)
proof (induction ps arbitrary: r)
  case (Cons p ps)
  obtain n cs where n: "n = 1 \<or> n = 2" and cs: "list_all proper_component cs" and r: "r = abs_path n cs"
    using Cons.prems(2) normalized_absolute[of r] by (metis normalized_absolute_def)
  have "posix_join r p = abs_path n (cs @ [p])"
    using posix_join_abs_path[OF n cs, of "[p]"] Cons.prems(1) by (simp add: r)
  moreover have "normpath (abs_path n (cs @ [p])) = abs_path n (cs @ [p])"
    by (rule normpath_abs_path[OF n]) (use cs Cons.prems(1) in simp)
  moreover have "isabs (abs_path n (cs @ [p]))" using n by (auto simp: abs_path_def isabs_def)
  ultimately have "normalized_absolute (posix_join r p)" by (simp add: normalized_absolute_def)
  then show ?case using Cons.IH Cons.prems(1) by (simp add: join_all_def)
qed (simp add: join_all_def)

lemma json_digest_hex: "length (digest_value (json_digest v)) = 64" "list_all is_lower_hex (digest_value (json_digest v))"
  using sha256_bytes_valid[of "canonical_json_bytes v"] by (simp_all add: json_digest_def sha256_re_digest)

lemma instance_match_prefix:
  assumes "length h = 32" "list_all is_lower_hex h"
  shows "instance_match (instance_prefix k @ ''-'' @ h)"
  using assms by (cases k) (simp_all add: instance_match_def instance_prefix_def)

lemma list_all_take: "list_all P xs \<Longrightarrow> list_all P (take n xs)"
  by (auto simp: list_all_iff dest: in_set_takeD)

definition source_key :: "configured_source \<Rightarrow> json_entries" where
  "source_key source =
     [(''kind'', JStr (source_kind_value (cs_kind source))), (''location'', JStr (cs_location source)),
      (''ref'', JStr (or_empty (cs_ref source)))]"

lemma source_instance_id_eq:
  "source_instance_id source =
     Inr (SourceInstanceId (instance_prefix (cs_kind source) @ ''-'' @ take 32 (digest_value (json_digest (json_object (source_key source))))))"
  using instance_match_prefix[of "take 32 (digest_value (json_digest (json_object (source_key source))))" "cs_kind source"]
  by (simp add: source_instance_id_def instance_id_def mk_source_instance_id_def py_guard_def source_key_def
      json_digest_hex list_all_take)

lemma instance_component:
  assumes "source_instance_id source = Inr ident"
  shows "proper_component (instance_value ident)"
proof -
  let ?h = "take 32 (digest_value (json_digest (json_object (source_key source))))"
  have "CHR ''/'' \<notin> set ?h"
    using json_digest_hex(2)[of "json_object (source_key source)"]
    by (auto simp: list_all_iff is_lower_hex_cases dest!: in_set_takeD)
  moreover have "instance_value ident = instance_prefix (cs_kind source) @ ''-'' @ ?h"
    using assms by (auto simp: source_instance_id_eq)
  moreover have "instance_value ident \<notin> {'''', ''.'', ''..''}" "CHR ''/'' \<notin> set (instance_prefix (cs_kind source))"
    using calculation(2) by (cases "cs_kind source"; simp add: instance_prefix_def)+
  ultimately show ?thesis by (simp add: proper_component_def)
qed

lemma source_store_paths_Inr:
  assumes "normalized_absolute data_root" "source_instance_id source = Inr ident"
  shows "\<exists>paths. source_store_paths data_root ident = Inr paths
     \<and> list_all normalized_absolute [ssp_mirror paths, ssp_lock_directory paths, ssp_temporary_root paths]"
proof -
  let ?r = "join_all data_root [''sources'', instance_value ident]"
  have r: "normalized_absolute ?r"
    using instance_component[OF assms(2)] assms(1) by (intro normalized_absolute_join) (simp_all add: proper_component_def)
  have "normalized_absolute (join_all ?r [p])" if "proper_component p" for p
    using that by (intro normalized_absolute_join[OF r]) simp
  then have "list_all (\<lambda>p. normalized_absolute (join_all ?r [p])) [''mirror.git'', ''snapshots'', ''current.json'', ''sync.lock'', ''tmp'']"
    by (simp add: proper_component_def)
  then show ?thesis
    using assms(1) r by (simp add: source_store_paths_def mk_source_store_paths_def py_guard_def Let_def)
qed

end
