(* ===== verification/Sources.thy ===== *)
theory Sources
  imports SourceModel "HOL-Library.Sublist"
begin

text \<open>
  Synchronisation of sources (\<open>agent_artifacts/application/sources.py\<close>): synchronise, discard, adopt a changed
  identity, check freshness and report status. The ports are parameters that answer from the
  calls made so far; every operation returns the trace of its calls beside its result.
\<close>

datatype source_call =
    SLock source_lock_request
  | SRelease source_lock_lease
  | SRead current_source_request
  | SAcquireLocal local_snapshot_request
  | SAcquireGit git_snapshot_request
  | SValidate source_validation_request
  | SPublish source_publish_command
  | SDiscard managed_source_paths
  | SPruneRoot managed_source_paths
  | SPruneSnapshots managed_source_paths object_digest

type_synonym source_trace = "source_call list"
type_synonym 'a run = "source_trace \<times> 'a result py"

record source_sync_ports =
  ssp_acquire_lock :: "source_trace \<Rightarrow> source_lock_request \<Rightarrow> source_lock_lease result"
  ssp_release_lock :: "source_trace \<Rightarrow> source_lock_lease \<Rightarrow> unit result"
  ssp_read_current :: "source_trace \<Rightarrow> current_source_request \<Rightarrow> current_source option result"
  ssp_acquire_local :: "source_trace \<Rightarrow> local_snapshot_request \<Rightarrow> source_candidate result"
  ssp_acquire_git :: "source_trace \<Rightarrow> git_snapshot_request \<Rightarrow> source_candidate result"
  ssp_validate :: "source_trace \<Rightarrow> source_validation_request \<Rightarrow> validated_source_candidate result"
  ssp_publish :: "source_trace \<Rightarrow> source_publish_command \<Rightarrow> source_publish_receipt result"

record source_sync_request =
  ssr_source :: configured_source
  ssr_data_root :: string
  ssr_executable_version :: semver
  ssr_available_capabilities :: "capability list"
  ssr_observed_at_epoch_seconds :: int
  ssr_fallback :: sync_fallback
  ssr_offline :: bool
  ssr_timeout_seconds :: int
  ssr_limits :: snapshot_limits
  ssr_lock_timeout_seconds :: rat
  ssr_lock_stale_after_seconds :: int

definition mk_source_sync_request :: "source_sync_request \<Rightarrow> source_sync_request py" where
  "mk_source_sync_request r =
     py_guard (\<not> normalized_absolute (ssr_data_root r) \<or> ssr_observed_at_epoch_seconds r < 0 \<or> ssr_timeout_seconds r \<le> 0)
       ''source sync request is invalid'' (Inr r)"

text \<open>Continue a run: an exception ends it, a failure and a success go on as given.\<close>

definition on_ok ::
  "'a run \<Rightarrow> (source_trace \<Rightarrow> diagnostic list \<Rightarrow> 'b run) \<Rightarrow> (source_trace \<Rightarrow> 'a \<Rightarrow> 'b run) \<Rightarrow> 'b run" where
  "on_ok m failed go =
     (case m of (tr, Inl e) \<Rightarrow> (tr, Inl e) | (tr, Inr (Err ds)) \<Rightarrow> failed tr ds | (tr, Inr (Ok v)) \<Rightarrow> go tr v)"

abbreviation give_up :: "source_trace \<Rightarrow> diagnostic list \<Rightarrow> 'b run" where
  "give_up tr ds \<equiv> (tr, Inr (Err ds))"

text \<open>A request object whose constructor may raise, passed to a port.\<close>

definition send :: "source_trace \<Rightarrow> 'q py \<Rightarrow> ('q \<Rightarrow> source_call) \<Rightarrow> (source_trace \<Rightarrow> 'q \<Rightarrow> 'a result) \<Rightarrow> 'a run" where
  "send tr request call port =
     (case request of Inl e \<Rightarrow> (tr, Inl e) | Inr q \<Rightarrow> (tr @ [call q], Inr (port tr q)))"

definition failure :: "string \<Rightarrow> string \<Rightarrow> string list \<Rightarrow> 'a result" where
  "failure code message remediation =
     mk_err [mk_diagnostic code ERROR (redact_text message) None remediation []]"

definition retained ::
  "diagnostic list \<Rightarrow> current_source option \<Rightarrow> sync_fallback \<Rightarrow> source_sync_outcome result" where
  "retained ds current fallback =
     (case current of
        None \<Rightarrow> Err ds
      | Some c \<Rightarrow>
          if fallback \<noteq> ALLOW_LAST_KNOWN_GOOD then Err ds
          else Ok (mk_source_sync_outcome SD_RETAINED c
                 (map (\<lambda>d. mk_diagnostic (diag_code d) WARNING (redact_text (diag_message d)) (diag_location d)
                              (diag_remediation d) (diag_details d)) ds)))"

definition candidate ::
  "configured_source \<Rightarrow> snapshot_limits \<Rightarrow> int \<Rightarrow> managed_source_paths \<Rightarrow> source_sync_ports \<Rightarrow> source_trace
     \<Rightarrow> source_candidate run" where
  "candidate source limits timeout paths ports tr =
     (case source_instance_id source of
        Inl e \<Rightarrow> (tr, Inl e)
      | Inr ident \<Rightarrow>
          if cs_kind source = SOURCE_LOCAL then
            send tr (mk_local_snapshot_request ident (cs_alias source) (cs_location source) limits)
              SAcquireLocal (ssp_acquire_local ports)
          else (case cs_ref source of
              None \<Rightarrow> (tr, Inl AssertionError)
            | Some ref \<Rightarrow>
                send tr (mk_git_snapshot_request ident (cs_alias source) (cs_location source) ref (ssp_mirror paths)
                    (ssp_temporary_root paths) limits timeout False)
                  SAcquireGit (ssp_acquire_git ports)))"

definition managed_paths :: "string \<Rightarrow> configured_source \<Rightarrow> managed_source_paths py" where
  "managed_paths data_root source =
     (case source_instance_id source of Inl e \<Rightarrow> Inl e | Inr ident \<Rightarrow> source_store_paths data_root ident)"

definition read_current_source ::
  "source_sync_ports \<Rightarrow> managed_source_paths \<Rightarrow> source_alias \<Rightarrow> source_trace \<Rightarrow> current_source option run" where
  "read_current_source ports paths alias tr =
     send tr (Inr \<lparr>csr_paths = paths, csr_alias = alias\<rparr>) SRead (ssp_read_current ports)"

definition validate_candidate ::
  "source_sync_ports \<Rightarrow> source_candidate \<Rightarrow> semver \<Rightarrow> capability list \<Rightarrow> source_trace \<Rightarrow> validated_source_candidate run" where
  "validate_candidate ports c version capabilities tr =
     send tr (Inr \<lparr>svr_candidate = c, svr_executable_version = version, svr_available_capabilities = capabilities\<rparr>)
       SValidate (ssp_validate ports)"

definition receipt_mismatch :: "source_publish_receipt \<Rightarrow> validated_source_candidate \<Rightarrow> bool" where
  "receipt_mismatch receipt validated \<longleftrightarrow>
     (let current = spr_current receipt; expected = vsc_candidate validated in
      sc_snapshot_digest (cur_candidate current) \<noteq> sc_snapshot_digest expected
      \<or> sc_resolved_revision (cur_candidate current) \<noteq> sc_resolved_revision expected
      \<or> cur_declared_source_id current \<noteq> vsc_declared_source_id validated)"

definition same_evidence :: "current_source \<Rightarrow> validated_source_candidate \<Rightarrow> bool" where
  "same_evidence current validated \<longleftrightarrow>
     sc_snapshot_digest (cur_candidate current) = sc_snapshot_digest (vsc_candidate validated)
     \<and> sc_resolved_revision (cur_candidate current) = sc_resolved_revision (vsc_candidate validated)
     \<and> cur_declared_source_id current = vsc_declared_source_id validated"

subsection \<open>Synchronisation\<close>

definition sync_publish ::
  "source_sync_request \<Rightarrow> source_sync_ports \<Rightarrow> managed_source_paths \<Rightarrow> current_source option
     \<Rightarrow> validated_source_candidate \<Rightarrow> source_trace \<Rightarrow> source_sync_outcome run" where
  "sync_publish request ports paths current validated tr =
     on_ok (send tr (mk_source_publish_command paths validated (ssr_observed_at_epoch_seconds request)) SPublish (ssp_publish ports))
       (\<lambda>tr ds. (tr, Inr (retained ds current (ssr_fallback request))))
       (\<lambda>tr receipt.
          if receipt_mismatch receipt validated then
            (tr, Inr (failure ''source-invalid'' ''source publication receipt does not match the validated candidate'' []))
          else
            (let unchanged = (case current of None \<Rightarrow> False | Some c \<Rightarrow> same_evidence c validated) in
             (tr, Inr (Ok (mk_source_sync_outcome (if unchanged then SD_UNCHANGED else SD_PUBLISHED) (spr_current receipt) [])))))"

definition sync_acquired ::
  "source_sync_request \<Rightarrow> source_sync_ports \<Rightarrow> managed_source_paths \<Rightarrow> current_source option \<Rightarrow> source_candidate
     \<Rightarrow> source_trace \<Rightarrow> source_sync_outcome run" where
  "sync_acquired request ports paths current acquired tr =
     (let keep = (\<lambda>tr r. (tr, Inr (case r of Err ds \<Rightarrow> retained ds current (ssr_fallback request) | Ok v \<Rightarrow> Ok v))) in
      on_ok (validate_candidate ports acquired (ssr_executable_version request) (ssr_available_capabilities request) tr)
        (\<lambda>tr ds. (tr, Inr (retained ds current (ssr_fallback request))))
        (\<lambda>tr validated.
           if vsc_candidate validated \<noteq> acquired then
             keep tr (failure ''source-invalid'' ''source validator returned a candidate different from its request'' [])
           else if (case current of None \<Rightarrow> False | Some c \<Rightarrow> cur_declared_source_id c \<noteq> vsc_declared_source_id validated) then
             keep tr (failure ''source-invalid'' ''resolved source changed its declared source identity''
               [''review both identities with `aart source resubscribe --alias '' @ alias_value (cs_alias (ssr_source request))
                  @ ''`, then re-run it with --yes to adopt the change''])
           else sync_publish request ports paths current validated tr))"

definition sync_locked :: "source_sync_request \<Rightarrow> source_sync_ports \<Rightarrow> source_trace \<Rightarrow> source_sync_outcome run" where
  "sync_locked request ports tr =
     (case managed_paths (ssr_data_root request) (ssr_source request) of
        Inl e \<Rightarrow> (tr, Inl e)
      | Inr paths \<Rightarrow>
          on_ok (read_current_source ports paths (cs_alias (ssr_source request)) tr) give_up
            (\<lambda>tr current.
               if ssr_offline request then
                 (tr, Inr (case failure ''source-unavailable'' ''source synchronization is disabled in offline mode''
                                  [''retry without offline mode''] of
                      Err ds \<Rightarrow> retained ds current (ssr_fallback request) | Ok v \<Rightarrow> Ok v))
               else
                 on_ok (candidate (ssr_source request) (ssr_limits request) (ssr_timeout_seconds request) paths ports tr)
                   (\<lambda>tr ds. (tr, Inr (retained ds current (ssr_fallback request))))
                   (\<lambda>tr acquired. sync_acquired request ports paths current acquired tr)))"

text \<open>
  Take the lease, run the body, give the lease back: the tail that synchronisation and adoption share.
\<close>

definition leased ::
  "source_sync_ports \<Rightarrow> string \<Rightarrow> configured_source \<Rightarrow> rat \<Rightarrow> int \<Rightarrow> (source_trace \<Rightarrow> 'a run) \<Rightarrow> 'a run" where
  "leased ports data_root source timeout stale body =
     (case managed_paths data_root source of
        Inl e \<Rightarrow> ([], Inl e)
      | Inr paths \<Rightarrow>
          on_ok (send [] (mk_source_lock_request (ssp_lock_directory paths) timeout stale) SLock (ssp_acquire_lock ports))
            give_up
            (\<lambda>tr lease.
               (case body tr of
                  (tr', Inl e) \<Rightarrow> (tr', Inl e)
                | (tr', Inr outcome) \<Rightarrow>
                    (tr' @ [SRelease lease],
                     Inr (case ssp_release_lock ports tr' lease of
                            Err rds \<Rightarrow> (case outcome of Err ds \<Rightarrow> mk_err (ds @ rds) | Ok _ \<Rightarrow> Err rds)
                          | Ok _ \<Rightarrow> outcome)))))"

definition sync_source :: "source_sync_request \<Rightarrow> source_sync_ports \<Rightarrow> source_sync_outcome run" where
  "sync_source request ports =
     (if \<not> cs_enabled (ssr_source request) then
        ([], Inr (failure ''source-invalid'' ''disabled source cannot be synchronized'' []))
      else leased ports (ssr_data_root request) (ssr_source request) (ssr_lock_timeout_seconds request)
             (ssr_lock_stale_after_seconds request) (sync_locked request ports))"

subsection \<open>Discarding\<close>

record source_discard_ports =
  sdp_acquire_lock :: "source_trace \<Rightarrow> source_lock_request \<Rightarrow> source_lock_lease result"
  sdp_release_lock :: "source_trace \<Rightarrow> source_lock_lease \<Rightarrow> unit result"
  sdp_read_current :: "source_trace \<Rightarrow> current_source_request \<Rightarrow> current_source option result"
  sdp_discard :: "source_trace \<Rightarrow> managed_source_paths \<Rightarrow> bool result"

record source_discard_request =
  sdr_source :: configured_source
  sdr_data_root :: string
  sdr_lock_timeout_seconds :: rat
  sdr_lock_stale_after_seconds :: int

definition mk_source_discard_request :: "source_discard_request \<Rightarrow> source_discard_request py" where
  "mk_source_discard_request r =
     py_guard (\<not> normalized_absolute (sdr_data_root r)) ''source discard request is invalid'' (Inr r)"

record source_discard_outcome =
  sdo_existed :: bool
  sdo_discarded :: "current_source option"

definition discard_source :: "source_discard_request \<Rightarrow> source_discard_ports \<Rightarrow> source_discard_outcome run" where
  "discard_source request ports =
     (case managed_paths (sdr_data_root request) (sdr_source request) of
        Inl e \<Rightarrow> ([], Inl e)
      | Inr paths \<Rightarrow>
          on_ok (send [] (mk_source_lock_request (ssp_lock_directory paths) (sdr_lock_timeout_seconds request)
                   (sdr_lock_stale_after_seconds request)) SLock (sdp_acquire_lock ports))
            give_up
            (\<lambda>tr lease.
               (let read = \<lparr>csr_paths = paths, csr_alias = cs_alias (sdr_source request)\<rparr>;
                    current = sdp_read_current ports tr read;
                    tr1 = tr @ [SRead read];
                    discarded = sdp_discard ports tr1 paths;
                    tr2 = tr1 @ [SDiscard paths];
                    released = sdp_release_lock ports tr2 lease;
                    tr3 = tr2 @ [SRelease lease] in
                case discarded of
                  Err ds \<Rightarrow> (tr3, Inr (case released of Err rds \<Rightarrow> mk_err (ds @ rds) | Ok _ \<Rightarrow> Err ds))
                | Ok existed \<Rightarrow>
                    (case released of
                       Err rds \<Rightarrow> (tr3, Inr (Err rds))
                     | Ok _ \<Rightarrow>
                         (tr3 @ [SPruneRoot paths],
                          Inr (Ok \<lparr>sdo_existed = existed,
                                   sdo_discarded = (case current of Err _ \<Rightarrow> None | Ok c \<Rightarrow> c)\<rparr>))))))"

subsection \<open>Adopting a changed identity\<close>

record source_adoption_request =
  sar_source :: configured_source
  sar_data_root :: string
  sar_executable_version :: semver
  sar_available_capabilities :: "capability list"
  sar_observed_at_epoch_seconds :: int
  sar_expected :: "source_identity_transition option"
  sar_timeout_seconds :: int
  sar_limits :: snapshot_limits
  sar_lock_timeout_seconds :: rat
  sar_lock_stale_after_seconds :: int

definition mk_source_adoption_request :: "source_adoption_request \<Rightarrow> source_adoption_request py" where
  "mk_source_adoption_request r =
     py_guard (\<not> normalized_absolute (sar_data_root r) \<or> sar_observed_at_epoch_seconds r < 0 \<or> sar_timeout_seconds r \<le> 0)
       ''source adoption request is invalid'' (Inr r)"

record source_adoption_outcome =
  sao_transition :: source_identity_transition
  sao_finalized :: bool
  sao_current :: current_source

definition adopt_publish ::
  "source_adoption_request \<Rightarrow> source_sync_ports \<Rightarrow> managed_source_paths \<Rightarrow> validated_source_candidate
     \<Rightarrow> source_identity_transition \<Rightarrow> source_trace \<Rightarrow> source_adoption_outcome run" where
  "adopt_publish request ports paths validated observed tr =
     on_ok (send tr (mk_source_publish_command paths validated (sar_observed_at_epoch_seconds request)) SPublish (ssp_publish ports))
       give_up
       (\<lambda>tr receipt.
          if receipt_mismatch receipt validated then
            (tr, Inr (failure ''source-invalid'' ''source publication receipt does not match the validated candidate'' []))
          else
            (tr @ [SPruneSnapshots paths (sc_snapshot_digest (vsc_candidate validated))],
             Inr (Ok \<lparr>sao_transition = observed, sao_finalized = True, sao_current = spr_current receipt\<rparr>)))"

definition adopt_validated ::
  "source_adoption_request \<Rightarrow> source_sync_ports \<Rightarrow> managed_source_paths \<Rightarrow> current_source \<Rightarrow> validated_source_candidate
     \<Rightarrow> source_trace \<Rightarrow> source_adoption_outcome run" where
  "adopt_validated request ports paths current validated tr =
     (let alias = alias_value (cs_alias (sar_source request)) in
      if cur_declared_source_id current = vsc_declared_source_id validated then
        (tr, Inr (failure ''source-invalid'' ''source still declares the identity this alias is already subscribed to''
           [''run `aart source sync --alias '' @ alias @ ''` to refresh the snapshot instead'']))
      else
        (case mk_source_identity_transition (cur_declared_source_id current) (vsc_declared_source_id validated)
                (sc_resolved_revision (cur_candidate current)) (sc_resolved_revision (vsc_candidate validated))
                (sc_snapshot_digest (cur_candidate current)) (sc_snapshot_digest (vsc_candidate validated)) of
           Inl e \<Rightarrow> (tr, Inr (failure ''source-invalid'' (error_text e) []))
         | Inr observed \<Rightarrow>
             (case sar_expected request of
                None \<Rightarrow> (tr, Inr (Ok \<lparr>sao_transition = observed, sao_finalized = False, sao_current = current\<rparr>))
              | Some expected \<Rightarrow>
                  if expected \<noteq> observed then
                    (tr, Inr (failure ''source-invalid'' ''source no longer declares the identity that was reviewed''
                       [''run `aart source resubscribe --alias '' @ alias @ ''` again to review the current transition'']))
                  else adopt_publish request ports paths validated observed tr)))"

definition adopt_locked :: "source_adoption_request \<Rightarrow> source_sync_ports \<Rightarrow> source_trace \<Rightarrow> source_adoption_outcome run" where
  "adopt_locked request ports tr =
     (case managed_paths (sar_data_root request) (sar_source request) of
        Inl e \<Rightarrow> (tr, Inl e)
      | Inr paths \<Rightarrow>
          on_ok (read_current_source ports paths (cs_alias (sar_source request)) tr) give_up
            (\<lambda>tr loaded.
               (case loaded of
                  None \<Rightarrow>
                    (tr, Inr (failure ''source-invalid'' ''no managed snapshot is subscribed at this origin''
                       [''run `aart source sync --alias '' @ alias_value (cs_alias (sar_source request)) @ ''` to publish one first'']))
                | Some current \<Rightarrow>
                    on_ok (candidate (sar_source request) (sar_limits request) (sar_timeout_seconds request) paths ports tr) give_up
                      (\<lambda>tr acquired.
                         on_ok (validate_candidate ports acquired (sar_executable_version request)
                                  (sar_available_capabilities request) tr) give_up
                           (\<lambda>tr validated.
                              if vsc_candidate validated \<noteq> acquired then
                                (tr, Inr (failure ''source-invalid''
                                   ''source validator returned a candidate different from its request'' []))
                              else adopt_validated request ports paths current validated tr)))))"

definition adopt_source_identity :: "source_adoption_request \<Rightarrow> source_sync_ports \<Rightarrow> source_adoption_outcome run" where
  "adopt_source_identity request ports =
     (if \<not> cs_enabled (sar_source request) then
        ([], Inr (failure ''source-invalid'' ''disabled source cannot be resubscribed'' []))
      else leased ports (sar_data_root request) (sar_source request) (sar_lock_timeout_seconds request)
             (sar_lock_stale_after_seconds request) (adopt_locked request ports))"

subsection \<open>Freshness and status\<close>

record source_status_request =
  stq_current :: current_source_request
  stq_now_epoch_seconds :: int
  stq_max_age_seconds :: int

definition mk_source_status_request :: "current_source_request \<Rightarrow> int \<Rightarrow> int \<Rightarrow> source_status_request py" where
  "mk_source_status_request current now max_age =
     py_guard (now < 0 \<or> max_age < 0) ''source status clock and maximum age must be non-negative integers''
       (Inr \<lparr>stq_current = current, stq_now_epoch_seconds = now, stq_max_age_seconds = max_age\<rparr>)"

definition source_status ::
  "source_status_request \<Rightarrow> (current_source_request \<Rightarrow> current_source option result) \<Rightarrow> source_health py" where
  "source_status request read_current =
     (case read_current (stq_current request) of
        Err ds \<Rightarrow> assess_source_health None (stq_now_epoch_seconds request) (stq_max_age_seconds request) ds
      | Ok current \<Rightarrow> assess_source_health current (stq_now_epoch_seconds request) (stq_max_age_seconds request) [])"

record source_freshness_request =
  sfr_source :: configured_source
  sfr_data_root :: string
  sfr_executable_version :: semver
  sfr_available_capabilities :: "capability list"
  sfr_observed_at_epoch_seconds :: int
  sfr_timeout_seconds :: int
  sfr_limits :: snapshot_limits
  sfr_lock_timeout_seconds :: rat
  sfr_lock_stale_after_seconds :: int

definition mk_source_freshness_request :: "source_freshness_request \<Rightarrow> source_freshness_request py" where
  "mk_source_freshness_request r =
     py_guard (\<not> normalized_absolute (sfr_data_root r) \<or> sfr_observed_at_epoch_seconds r < 0 \<or> sfr_timeout_seconds r \<le> 0)
       ''source freshness request is invalid'' (Inr r)"

definition freshness_age :: "current_source \<Rightarrow> int \<Rightarrow> int" where
  "freshness_age current observed_at = max 0 (observed_at - cur_published_at_epoch_seconds current)"

abbreviation healthy_run :: "source_trace \<Rightarrow> source_health \<Rightarrow> source_health run" where
  "healthy_run tr h \<equiv> (tr, Inr (Ok h))"

text \<open>The check always answers with a health value: the run's result is \<open>Ok\<close> or the exception of a constructor.\<close>

definition check_freshness_locked ::
  "source_freshness_request \<Rightarrow> source_sync_ports \<Rightarrow> source_trace \<Rightarrow> source_health run" where
  "check_freshness_locked request ports tr =
     (case managed_paths (sfr_data_root request) (sfr_source request) of
        Inl e \<Rightarrow> (tr, Inl e)
      | Inr paths \<Rightarrow>
          on_ok (read_current_source ports paths (cs_alias (sfr_source request)) tr)
            (\<lambda>tr ds. healthy_run tr (mk_source_health DEGRADED None None ds))
            (\<lambda>tr loaded.
               (case loaded of
                  None \<Rightarrow> healthy_run tr (mk_source_health MISSING None None [])
                | Some current \<Rightarrow>
                    (let age = freshness_age current (sfr_observed_at_epoch_seconds request) in
                     on_ok (candidate (sfr_source request) (sfr_limits request) (sfr_timeout_seconds request) paths ports tr)
                       (\<lambda>tr ds. healthy_run tr (mk_source_health CHECK_UNAVAILABLE (Some age) (Some current) ds))
                       (\<lambda>tr acquired.
                          on_ok (validate_candidate ports acquired (sfr_executable_version request)
                                   (sfr_available_capabilities request) tr)
                            (\<lambda>tr ds. healthy_run tr (mk_source_health DEGRADED (Some age) (Some current) ds))
                            (\<lambda>tr observed.
                               if vsc_candidate observed \<noteq> acquired then
                                 healthy_run tr (mk_source_health DEGRADED (Some age) (Some current)
                                   [mk_diagnostic ''source-invalid'' ERROR
                                      (redact_text ''source validator returned a candidate different from its request'') None [] []])
                               else
                                 healthy_run tr (mk_source_health (if same_evidence current observed then HEALTHY else NOT_SYNCHRONIZED)
                                   (Some age) (Some current) [])))))))"

definition unavailable_health ::
  "source_freshness_request \<Rightarrow> current_source option result \<Rightarrow> diagnostic list \<Rightarrow> source_health" where
  "unavailable_health request loaded lease_diagnostics =
     (let current = (case loaded of Err _ \<Rightarrow> None | Ok c \<Rightarrow> c);
          age = map_option (\<lambda>c. freshness_age c (sfr_observed_at_epoch_seconds request)) current;
          ds = (case loaded of Ok _ \<Rightarrow> lease_diagnostics | Err lds \<Rightarrow> lds @ lease_diagnostics)
      in mk_source_health CHECK_UNAVAILABLE age current ds)"

definition check_source_freshness :: "source_freshness_request \<Rightarrow> source_sync_ports \<Rightarrow> source_health run" where
  "check_source_freshness request ports =
     (case managed_paths (sfr_data_root request) (sfr_source request) of
        Inl e \<Rightarrow> ([], Inl e)
      | Inr paths \<Rightarrow>
          (let read = \<lparr>csr_paths = paths, csr_alias = cs_alias (sfr_source request)\<rparr> in
           if \<not> cs_enabled (sfr_source request) then
             (case mk_source_status_request read (sfr_observed_at_epoch_seconds request) 0 of
                Inl e \<Rightarrow> ([], Inl e)
              | Inr status \<Rightarrow> ([SRead read], map_sum id Ok (source_status status (ssp_read_current ports []))))
           else
             on_ok (send [] (mk_source_lock_request (ssp_lock_directory paths) (sfr_lock_timeout_seconds request)
                      (sfr_lock_stale_after_seconds request)) SLock (ssp_acquire_lock ports))
               (\<lambda>tr ds. healthy_run (tr @ [SRead read]) (unavailable_health request (ssp_read_current ports tr read) ds))
               (\<lambda>tr lease.
                  on_ok (check_freshness_locked request ports tr) give_up
                    (\<lambda>tr' health.
                       (tr' @ [SRelease lease],
                        Inr (Ok (case ssp_release_lock ports tr' lease of
                               Err rds \<Rightarrow> mk_source_health CHECK_UNAVAILABLE (sh_age_seconds health) (sh_current health)
                                            (sh_diagnostics health @ rds)
                             | Ok _ \<Rightarrow> health)))))))"

section \<open>Properties\<close>

lemma on_ok_split:
  "P (on_ok m failed go) \<longleftrightarrow>
     (\<forall>tr e. m = (tr, Inl e) \<longrightarrow> P (tr, Inl e)) \<and> (\<forall>tr ds. m = (tr, Inr (Err ds)) \<longrightarrow> P (failed tr ds))
     \<and> (\<forall>tr v. m = (tr, Inr (Ok v)) \<longrightarrow> P (go tr v))"
  by (auto simp: on_ok_def split: prod.splits sum.splits result.splits)

lemma send_Inr [simp]: "send tr (Inr q) call port = (tr @ [call q], Inr (port tr q))"
  by (simp add: send_def)

lemma failure_not_Ok [simp]: "failure code m rem \<noteq> Ok v"
  by (simp add: failure_def)

lemma failure_Err: "\<exists>ds. failure code m rem = Err ds"
  by (simp add: failure_def mk_err_def)

text \<open>Calls a body may make between taking the lease and giving it back, and those that change nothing.\<close>

definition body_call :: "source_call \<Rightarrow> bool" where
  "body_call c \<longleftrightarrow> (case c of SLock _ \<Rightarrow> False | SRelease _ \<Rightarrow> False | _ \<Rightarrow> True)"

definition query_call :: "source_call \<Rightarrow> bool" where
  "query_call c \<longleftrightarrow> (case c of SRead _ \<Rightarrow> True | SAcquireLocal _ \<Rightarrow> True | SAcquireGit _ \<Rightarrow> True | SValidate _ \<Rightarrow> True | _ \<Rightarrow> False)"

lemma query_call_simps [simp]:
  "query_call (SRead r)" "query_call (SValidate v)" "\<not> query_call (SPublish p)" "\<not> query_call (SLock l)" "\<not> query_call (SRelease e)"
  "body_call (SRead r)" "body_call (SValidate v)" "body_call (SPublish p)" "body_call (SPruneSnapshots ps d)"
  "\<not> body_call (SLock l)" "\<not> body_call (SRelease e)"
  by (simp_all add: query_call_def body_call_def)

lemma query_body_call: "query_call c \<Longrightarrow> body_call c"
  by (cases c) (simp_all add: query_call_def body_call_def)

lemma candidate_trace:
  assumes "candidate source limits timeout paths ports tr = (tr', r)"
  obtains "tr' = tr" "\<exists>e. r = Inl e" | c x where "tr' = tr @ [c]" "query_call c" "r = Inr x"
  using assms
  by (auto simp: candidate_def send_def query_call_def split: sum.splits option.splits if_splits)

subsubsection \<open>Holding the lease\<close>

lemma managed_paths_Inr:
  assumes "normalized_absolute data_root"
  obtains paths where "managed_paths data_root source = Inr paths"
    "normalized_absolute (ssp_mirror paths)" "normalized_absolute (ssp_lock_directory paths)" "normalized_absolute (ssp_temporary_root paths)"
  using source_store_paths_Inr[OF assms source_instance_id_eq] that
  by (auto simp: managed_paths_def source_instance_id_eq)

definition grows :: "source_trace \<Rightarrow> 'a run \<Rightarrow> bool" where
  "grows tr m \<longleftrightarrow> (\<exists>mid. fst m = tr @ mid \<and> list_all body_call mid)"

lemma grows_end [simp]: "grows tr (tr, r)"
  by (simp add: grows_def)

lemma grows_call [simp]: "grows tr (tr @ [c], r) \<longleftrightarrow> body_call c"
  by (simp add: grows_def)

lemma grows_send: "(\<And>q. body_call (call q)) \<Longrightarrow> grows tr (send tr request call port)"
  by (auto simp: grows_def send_def split: sum.split)

lemma grows_on_ok:
  assumes "grows tr m" "\<And>tr' ds. grows tr' (failed tr' ds)" "\<And>tr' v. grows tr' (go tr' v)"
  shows "grows tr (on_ok m failed go)"
proof -
  have step: "grows tr m'" if "grows (fst m) m'" for m' :: "'b run"
    using assms(1) that unfolding grows_def by (metis append.assoc list_all_append)
  show ?thesis using assms(2,3) step assms(1) by (auto simp: on_ok_def grows_def split: prod.splits sum.splits result.splits)
qed

lemma grows_candidate: "grows tr (candidate source limits timeout paths ports tr)"
  by (auto simp: candidate_def body_call_def intro!: grows_send split: sum.split option.split)

lemmas grows_intros = grows_send grows_on_ok grows_candidate

text \<open>
  The run of an operation that holds the lease: refused, or every call of the body between taking the lease and
  giving it back, with the body's contract on what it did from there.
\<close>

definition under_source_lease ::
  "source_sync_ports \<Rightarrow> (source_trace \<Rightarrow> source_trace \<Rightarrow> 'a result \<Rightarrow> bool) \<Rightarrow> source_trace \<Rightarrow> 'a result \<Rightarrow> bool" where
  "under_source_lease ports contract trace r \<longleftrightarrow>
     (\<exists>q ds. ssp_acquire_lock ports [] q = Err ds \<and> trace = [SLock q] \<and> r = Err ds)
     \<or> (\<exists>q lease mid out. ssp_acquire_lock ports [] q = Ok lease \<and> trace = SLock q # mid @ [SRelease lease]
          \<and> list_all body_call mid \<and> contract [SLock q] mid out \<and> (r = out \<or> is_err r))"

locale leased_body =
  fixes body :: "source_trace \<Rightarrow> 'a run"
  assumes extends: "body tr = (tr', r) \<Longrightarrow> \<exists>mid. tr' = tr @ mid \<and> list_all body_call mid"
begin

lemma leased_contract:
  assumes root: "normalized_absolute data_root" and time: "0 < timeout" "0 < stale"
    and body: "\<And>tr. \<exists>mid out. body tr = (tr @ mid, Inr out) \<and> contract tr mid out"
    and run: "leased ports data_root source timeout stale body = (trace, result)"
  shows "\<exists>r. result = Inr r \<and> under_source_lease ports contract trace r"
proof -
  obtain paths where paths: "managed_paths data_root source = Inr paths" "normalized_absolute (ssp_lock_directory paths)"
    using managed_paths_Inr[OF root] by metis
  define q where "q = \<lparr>solr_lock_directory = ssp_lock_directory paths, solr_timeout_seconds = timeout, solr_stale_after_seconds = stale\<rparr>"
  have q: "mk_source_lock_request (ssp_lock_directory paths) timeout stale = Inr q"
    using paths(2) time by (simp add: mk_source_lock_request_def py_guard_def q_def)
  obtain mid out where b: "body [SLock q] = ([SLock q] @ mid, Inr out)" "contract [SLock q] mid out" using body by blast
  have mid: "list_all body_call mid" using extends[OF b(1)] by simp
  show ?thesis
  proof (cases "ssp_acquire_lock ports [] q")
    case (Err ds)
    then show ?thesis using run by (auto simp: leased_def paths q on_ok_def under_source_lease_def)
  next
    case (Ok lease)
    define r where "r = (case ssp_release_lock ports (SLock q # mid) lease of
        Err rds \<Rightarrow> (case out of Err ds \<Rightarrow> mk_err (ds @ rds) | Ok _ \<Rightarrow> Err rds) | Ok _ \<Rightarrow> out)"
    have "trace = SLock q # mid @ [SRelease lease]" "result = Inr r"
      using run b(1) Ok by (auto simp: leased_def paths q on_ok_def r_def)
    moreover have "r = out \<or> is_err r" by (auto simp: r_def mk_err_def is_err_def split: result.splits)
    ultimately show ?thesis using Ok b(2) mid by (auto simp: under_source_lease_def)
  qed
qed

end

text \<open>A source that can be acquired: what configuration guarantees of an alias, a location and a ref.\<close>

definition acquirable :: "configured_source \<Rightarrow> bool" where
  "acquirable source \<longleftrightarrow> alias_value (cs_alias source) \<noteq> []
     \<and> (if cs_kind source = SOURCE_LOCAL then normalized_absolute (cs_location source)
        else cs_location source \<noteq> [] \<and> (case cs_ref source of None \<Rightarrow> False | Some ref \<Rightarrow> one_line ref))"

lemma candidate_returns:
  assumes "acquirable source" "0 < timeout" "normalized_absolute (ssp_mirror paths)" "normalized_absolute (ssp_temporary_root paths)"
  obtains c x where "candidate source limits timeout paths ports tr = (tr @ [c], Inr x)" "query_call c"
  using assms
  by (cases "cs_kind source = SOURCE_LOCAL"; cases "cs_ref source")
    (auto simp: candidate_def source_instance_id_eq acquirable_def mk_local_snapshot_request_def mk_git_snapshot_request_def
      py_guard_def query_call_def)

subsubsection \<open>Synchronisation\<close>

text \<open>The candidate that a synchronisation may publish, and the pointer it was compared with.\<close>

definition sync_admits ::
  "source_sync_request \<Rightarrow> source_sync_ports \<Rightarrow> source_trace \<Rightarrow> current_source option \<Rightarrow> validated_source_candidate \<Rightarrow> bool" where
  "sync_admits request ports tr current validated \<longleftrightarrow> \<not> ssr_offline request \<and>
     (\<exists>paths tr1 tr2 tr3 acquired. managed_paths (ssr_data_root request) (ssr_source request) = Inr paths
        \<and> read_current_source ports paths (cs_alias (ssr_source request)) tr = (tr1, Inr (Ok current))
        \<and> candidate (ssr_source request) (ssr_limits request) (ssr_timeout_seconds request) paths ports tr1 = (tr2, Inr (Ok acquired))
        \<and> validate_candidate ports acquired (ssr_executable_version request) (ssr_available_capabilities request) tr2
             = (tr3, Inr (Ok validated))
        \<and> vsc_candidate validated = acquired
        \<and> (\<forall>c. current = Some c \<longrightarrow> cur_declared_source_id c = vsc_declared_source_id validated))"

definition sync_reads :: "source_sync_request \<Rightarrow> source_sync_ports \<Rightarrow> source_trace \<Rightarrow> current_source option \<Rightarrow> bool" where
  "sync_reads request ports tr current \<longleftrightarrow>
     (\<exists>paths tr'. managed_paths (ssr_data_root request) (ssr_source request) = Inr paths
        \<and> read_current_source ports paths (cs_alias (ssr_source request)) tr = (tr', Inr (Ok current)))"

definition keeps_last_known_good ::
  "source_sync_request \<Rightarrow> current_source option \<Rightarrow> source_sync_outcome \<Rightarrow> bool" where
  "keeps_last_known_good request current out \<longleftrightarrow>
     ssr_fallback request = ALLOW_LAST_KNOWN_GOOD \<and> current = Some (sso_current out) \<and> sso_disposition out = SD_RETAINED"

lemma retained_cases:
  "retained ds current (ssr_fallback request) = Ok out \<Longrightarrow> keeps_last_known_good request current out"
  by (auto simp: retained_def keeps_last_known_good_def mk_source_sync_outcome_def split: option.splits if_splits)

lemma sync_publish_returns:
  "0 \<le> ssr_observed_at_epoch_seconds request \<Longrightarrow> \<exists>tr' out. sync_publish request ports paths current validated tr = (tr', Inr out)"
  by (simp add: sync_publish_def mk_source_publish_command_def py_guard_def on_ok_def Let_def split: result.split)

lemma sync_publish_spec:
  assumes "sync_publish request ports paths current validated tr = (tr', Inr out)" "0 \<le> ssr_observed_at_epoch_seconds request"
  obtains cmd where "tr' = tr @ [SPublish cmd]" "spc_validated cmd = validated" "spc_paths cmd = paths"
    "\<And>v. out = Ok v \<Longrightarrow> keeps_last_known_good request current v
       \<or> (\<exists>receipt. ssp_publish ports tr cmd = Ok receipt \<and> sso_current v = spr_current receipt
            \<and> same_evidence (sso_current v) validated
            \<and> sso_disposition v = (if \<exists>c. current = Some c \<and> same_evidence c validated then SD_UNCHANGED else SD_PUBLISHED))"
proof -
  let ?cmd = "\<lparr>spc_paths = paths, spc_validated = validated, spc_observed_at_epoch_seconds = ssr_observed_at_epoch_seconds request\<rparr>"
  have cmd: "mk_source_publish_command paths validated (ssr_observed_at_epoch_seconds request) = Inr ?cmd"
    using assms(2) by (simp add: mk_source_publish_command_def py_guard_def)
  show thesis
  proof (rule that[of ?cmd])
    show "tr' = tr @ [SPublish ?cmd]"
      using assms(1) by (auto simp: sync_publish_def cmd on_ok_def split: result.splits if_splits)
  next
    fix v assume "out = Ok v"
    then show "keeps_last_known_good request current v
       \<or> (\<exists>receipt. ssp_publish ports tr ?cmd = Ok receipt \<and> sso_current v = spr_current receipt
            \<and> same_evidence (sso_current v) validated
            \<and> sso_disposition v = (if \<exists>c. current = Some c \<and> same_evidence c validated then SD_UNCHANGED else SD_PUBLISHED))"
      using assms(1) retained_cases[of _ current request v]
      by (auto simp: sync_publish_def cmd on_ok_def receipt_mismatch_def same_evidence_def mk_source_sync_outcome_def Let_def
          split: result.splits if_splits option.splits)
  qed simp_all
qed

text \<open>
  The contract of a synchronisation body that starts at \<open>tr\<close>: it publishes once, and last, exactly the
  admitted candidate; otherwise it only asks questions and can answer with nothing but the old snapshot.
\<close>

definition sync_publishes ::
  "source_sync_request \<Rightarrow> source_sync_ports \<Rightarrow> source_trace \<Rightarrow> source_trace \<Rightarrow> source_sync_outcome result \<Rightarrow> bool" where
  "sync_publishes request ports tr mid out \<longleftrightarrow>
     (\<exists>current validated queries cmd. sync_admits request ports tr current validated
        \<and> mid = queries @ [SPublish cmd] \<and> list_all query_call queries \<and> spc_validated cmd = validated
        \<and> (\<forall>v. out = Ok v \<longrightarrow> keeps_last_known_good request current v
             \<or> (\<exists>receipt. ssp_publish ports (tr @ queries) cmd = Ok receipt \<and> sso_current v = spr_current receipt
                  \<and> same_evidence (sso_current v) validated
                  \<and> sso_disposition v = (if \<exists>c. current = Some c \<and> same_evidence c validated then SD_UNCHANGED else SD_PUBLISHED))))"

definition sync_declines ::
  "source_sync_request \<Rightarrow> source_sync_ports \<Rightarrow> source_trace \<Rightarrow> source_trace \<Rightarrow> source_sync_outcome result \<Rightarrow> bool" where
  "sync_declines request ports tr mid out \<longleftrightarrow>
     (\<forall>current validated. \<not> sync_admits request ports tr current validated) \<and> list_all query_call mid
     \<and> (\<forall>v. out = Ok v \<longrightarrow> (\<exists>current. sync_reads request ports tr current \<and> keeps_last_known_good request current v))"

definition sync_ready :: "source_sync_request \<Rightarrow> bool" where
  "sync_ready request \<longleftrightarrow> mk_source_sync_request request = Inr request \<and> acquirable (ssr_source request)
     \<and> 0 < ssr_lock_timeout_seconds request \<and> 0 < ssr_lock_stale_after_seconds request"

lemma sync_acquired_spec:
  assumes paths: "managed_paths (ssr_data_root request) (ssr_source request) = Inr paths"
    and read: "read_current_source ports paths (cs_alias (ssr_source request)) tr = (tr @ [SRead rd], Inr (Ok current))"
    and got: "candidate (ssr_source request) (ssr_limits request) (ssr_timeout_seconds request) paths ports (tr @ [SRead rd])
                = (tr @ [SRead rd, c], Inr (Ok acquired))" "query_call c"
    and on: "\<not> ssr_offline request" and time: "0 \<le> ssr_observed_at_epoch_seconds request"
  shows "\<exists>mid out. sync_acquired request ports paths current acquired (tr @ [SRead rd, c]) = (tr @ mid, Inr out)
    \<and> (sync_publishes request ports tr mid out \<or> sync_declines request ports tr mid out)"
proof -
  let ?v = "\<lparr>svr_candidate = acquired, svr_executable_version = ssr_executable_version request,
              svr_available_capabilities = ssr_available_capabilities request\<rparr>"
  let ?qs = "[SRead rd, c, SValidate ?v]"
  have admits: "sync_admits request ports tr cur w \<longleftrightarrow> cur = current \<and> ssp_validate ports (tr @ [SRead rd, c]) ?v = Ok w
      \<and> vsc_candidate w = acquired \<and> (\<forall>x. current = Some x \<longrightarrow> cur_declared_source_id x = vsc_declared_source_id w)" for cur w
    using paths read got on by (auto simp: sync_admits_def validate_candidate_def)
  have reads: "sync_reads request ports tr current" using paths read by (auto simp: sync_reads_def)
  have qs: "list_all query_call ?qs" using got(2) by simp
  have decline: ?thesis
    if "sync_acquired request ports paths current acquired (tr @ [SRead rd, c]) = (tr @ ?qs, Inr out)"
      and "\<And>w. \<not> sync_admits request ports tr current w"
      and "\<And>v. out = Ok v \<Longrightarrow> keeps_last_known_good request current v" for out
    using that reads qs admits unfolding sync_declines_def by blast
  note defs = sync_acquired_def validate_candidate_def on_ok_def Let_def
  show ?thesis
  proof (cases "ssp_validate ports (tr @ [SRead rd, c]) ?v")
    case (Err ds)
    then show ?thesis by (intro decline[of "retained ds current (ssr_fallback request)"]) (auto simp: defs admits retained_cases)
  next
    case (Ok w)
    consider "vsc_candidate w \<noteq> acquired"
      | "vsc_candidate w = acquired" "\<exists>x. current = Some x \<and> cur_declared_source_id x \<noteq> vsc_declared_source_id w"
      | "sync_admits request ports tr current w" using Ok admits by blast
    then show ?thesis
    proof cases
      case 1
      then have "\<exists>ds. sync_acquired request ports paths current acquired (tr @ [SRead rd, c])
          = (tr @ ?qs, Inr (retained ds current (ssr_fallback request)))"
        by (simp add: defs Ok failure_def mk_err_def) blast
      then show ?thesis using 1 decline admits Ok retained_cases by fastforce
    next
      case 2
      then have "\<exists>ds. sync_acquired request ports paths current acquired (tr @ [SRead rd, c])
          = (tr @ ?qs, Inr (retained ds current (ssr_fallback request)))"
        by (auto simp add: defs Ok failure_def mk_err_def)
      then show ?thesis using 2 decline admits Ok retained_cases by fastforce
    next
      case 3
      have go: "sync_acquired request ports paths current acquired (tr @ [SRead rd, c])
          = sync_publish request ports paths current w (tr @ ?qs)"
        using 3 admits Ok by (auto simp: defs split: option.splits)
      obtain tr' out where run: "sync_publish request ports paths current w (tr @ ?qs) = (tr', Inr out)"
        using sync_publish_returns[OF time] by blast
      show ?thesis
      proof (rule sync_publish_spec[OF run time])
        fix cmd assume a: "tr' = (tr @ ?qs) @ [SPublish cmd]" "spc_validated cmd = w"
          "\<And>v. out = Ok v \<Longrightarrow> keeps_last_known_good request current v
             \<or> (\<exists>receipt. ssp_publish ports (tr @ ?qs) cmd = Ok receipt \<and> sso_current v = spr_current receipt
                  \<and> same_evidence (sso_current v) w
                  \<and> sso_disposition v = (if \<exists>c. current = Some c \<and> same_evidence c w then SD_UNCHANGED else SD_PUBLISHED))"
        have "sync_publishes request ports tr (?qs @ [SPublish cmd]) out"
          unfolding sync_publishes_def using 3 qs a(2,3) by blast
        then show ?thesis using go run a(1) by (intro exI[of _ "?qs @ [SPublish cmd]"] exI[of _ out]) simp
      qed
    qed
  qed
qed

lemma sync_ready_simps:
  assumes "sync_ready request"
  shows "normalized_absolute (ssr_data_root request)" "0 \<le> ssr_observed_at_epoch_seconds request" "0 < ssr_timeout_seconds request"
    "acquirable (ssr_source request)" "0 < ssr_lock_timeout_seconds request" "0 < ssr_lock_stale_after_seconds request"
  using assms by (auto simp: sync_ready_def mk_source_sync_request_def py_guard_def split: if_splits)

lemma sync_locked_spec:
  assumes ready: "sync_ready request"
  shows "\<exists>mid out. sync_locked request ports tr = (tr @ mid, Inr out)
    \<and> (sync_publishes request ports tr mid out \<or> sync_declines request ports tr mid out)"
proof -
  note ready = sync_ready_simps[OF ready]
  obtain paths where paths: "managed_paths (ssr_data_root request) (ssr_source request) = Inr paths"
      "normalized_absolute (ssp_mirror paths)" "normalized_absolute (ssp_temporary_root paths)"
    using managed_paths_Inr[OF ready(1)] by metis
  define rd where "rd = \<lparr>csr_paths = paths, csr_alias = cs_alias (ssr_source request)\<rparr>"
  have read: "read_current_source ports paths (cs_alias (ssr_source request)) tr = (tr @ [SRead rd], Inr (ssp_read_current ports tr rd))"
    by (simp add: read_current_source_def rd_def)
  obtain c x where got: "candidate (ssr_source request) (ssr_limits request) (ssr_timeout_seconds request) paths ports (tr @ [SRead rd])
      = ((tr @ [SRead rd]) @ [c], Inr x)" "query_call c"
    using candidate_returns[OF ready(4,3) paths(2,3)] by metis
  have reads: "sync_reads request ports tr cur \<longleftrightarrow> ssp_read_current ports tr rd = Ok cur" for cur
    using paths(1) read by (auto simp: sync_reads_def)
  have admits: "ssp_read_current ports tr rd = Ok cur \<and> \<not> ssr_offline request \<and> (\<exists>a. x = Ok a)"
    if "sync_admits request ports tr cur w" for cur w
    using that paths(1) read got(1) by (auto simp: sync_admits_def)
  note defs = sync_locked_def paths(1) read on_ok_def got(1) sync_declines_def reads
  show ?thesis
  proof (cases "ssp_read_current ports tr rd")
    case (Err ds)
    then show ?thesis using admits by (fastforce simp: defs)
  next
    case cur: (Ok current)
    show ?thesis
    proof (cases "ssr_offline request")
      case True
      obtain ds where "sync_locked request ports tr = (tr @ [SRead rd], Inr (retained ds current (ssr_fallback request)))"
        using True by (auto simp: sync_locked_def paths(1) read on_ok_def cur failure_def mk_err_def)
      moreover have "sync_declines request ports tr [SRead rd] (retained ds current (ssr_fallback request))"
        using True cur admits retained_cases by (auto simp: sync_declines_def reads)
      ultimately show ?thesis by blast
    next
      case on: False
      show ?thesis
      proof (cases x)
        case (Err ds)
        have "sync_declines request ports tr [SRead rd, c] (retained ds current (ssr_fallback request))"
          using Err cur admits retained_cases got(2) by (auto simp: sync_declines_def reads)
        then show ?thesis using on cur Err by (simp add: sync_locked_def paths(1) read on_ok_def got(1))
      next
        case (Ok acquired)
        have "sync_locked request ports tr = sync_acquired request ports paths current acquired (tr @ [SRead rd, c])"
          using on cur Ok by (simp add: sync_locked_def paths(1) read on_ok_def got(1))
        then show ?thesis
          using sync_acquired_spec[OF paths(1) _ _ got(2) on ready(2)] read cur got(1) Ok by simp
      qed
    qed
  qed
qed

lemma grows_sync_locked: "grows tr (sync_locked request ports tr)"
  by (auto simp: sync_locked_def sync_acquired_def sync_publish_def read_current_source_def validate_candidate_def Let_def
      intro!: grows_intros split: sum.split)

interpretation sync_body: leased_body "sync_locked request ports" for request ports
proof
  show "\<exists>mid. tr' = tr @ mid \<and> list_all body_call mid" if "sync_locked request ports tr = (tr', r)" for tr tr' r
    using grows_sync_locked[of tr request ports] that by (simp add: grows_def)
qed

lemma grows_adopt_locked: "grows tr (adopt_locked request ports tr)"
  unfolding adopt_locked_def adopt_validated_def adopt_publish_def read_current_source_def validate_candidate_def Let_def
  by (auto intro!: grows_intros split: sum.split option.split)

interpretation adopt_body: leased_body "adopt_locked request ports" for request ports
proof
  show "\<exists>mid. tr' = tr @ mid \<and> list_all body_call mid" if "adopt_locked request ports tr = (tr', r)" for tr tr' r
    using grows_adopt_locked[of tr request ports] that by (simp add: grows_def)
qed

lemma sync_source_contract:
  assumes "sync_ready request" and "sync_source request ports = (trace, result)"
  shows "\<exists>r. result = Inr r \<and>
    (if \<not> cs_enabled (ssr_source request) then trace = [] \<and> is_err r
     else under_source_lease ports
       (\<lambda>tr mid out. sync_publishes request ports tr mid out \<or> sync_declines request ports tr mid out) trace r)"
proof (cases "cs_enabled (ssr_source request)")
  case False
  then show ?thesis using assms(2) by (auto simp: sync_source_def failure_def mk_err_def is_err_def)
next
  case True
  note ready = sync_ready_simps[OF assms(1)]
  show ?thesis
    using sync_body.leased_contract[OF ready(1,5,6) sync_locked_spec[OF assms(1)]] assms(2) True by (simp add: sync_source_def)
qed

text \<open>
  C10. A synchronisation publishes only a validated, complete snapshot. For a ready request it never raises; unless the source is
  disabled or the lease refused, every call is made between taking the lease and giving it back; it publishes at most
  once, exactly when the acquired candidate comes back unchanged from validation and declares the identity already
  subscribed to, and never offline; a success names the published evidence, or the old snapshot when the
  request allows it as a fallback.
\<close>

theorem sync_source_safe:
  assumes "sync_ready request" and "sync_source request ports = (trace, result)"
  shows "\<exists>r. result = Inr r \<and>
    (if \<not> cs_enabled (ssr_source request) then trace = [] \<and> is_err r
     else under_source_lease ports
       (\<lambda>tr mid out. sync_publishes request ports tr mid out \<or> sync_declines request ports tr mid out) trace r)"
  using assms by (rule sync_source_contract)

subsubsection \<open>Adopting an identity\<close>

definition describes :: "source_identity_transition \<Rightarrow> current_source \<Rightarrow> validated_source_candidate \<Rightarrow> bool" where
  "describes t current validated \<longleftrightarrow>
     mk_source_identity_transition (cur_declared_source_id current) (vsc_declared_source_id validated)
       (sc_resolved_revision (cur_candidate current)) (sc_resolved_revision (vsc_candidate validated))
       (sc_snapshot_digest (cur_candidate current)) (sc_snapshot_digest (vsc_candidate validated)) = Inr t"

definition adopt_observes ::
  "source_adoption_request \<Rightarrow> source_sync_ports \<Rightarrow> source_trace \<Rightarrow> source_trace \<Rightarrow> current_source \<Rightarrow> validated_source_candidate \<Rightarrow> bool" where
  "adopt_observes request ports tr queries current validated \<longleftrightarrow>
     (\<exists>paths tr1 tr2 acquired. managed_paths (sar_data_root request) (sar_source request) = Inr paths
        \<and> read_current_source ports paths (cs_alias (sar_source request)) tr = (tr1, Inr (Ok (Some current)))
        \<and> candidate (sar_source request) (sar_limits request) (sar_timeout_seconds request) paths ports tr1 = (tr2, Inr (Ok acquired))
        \<and> validate_candidate ports acquired (sar_executable_version request) (sar_available_capabilities request) tr2
             = (tr @ queries, Inr (Ok validated))
        \<and> vsc_candidate validated = acquired)"

definition adopt_publishes ::
  "source_adoption_request \<Rightarrow> source_sync_ports \<Rightarrow> source_trace \<Rightarrow> source_trace \<Rightarrow> source_adoption_outcome result \<Rightarrow> bool" where
  "adopt_publishes request ports tr mid out \<longleftrightarrow>
     (\<exists>current validated queries cmd t prunes. adopt_observes request ports tr queries current validated \<and> list_all query_call queries
        \<and> sar_expected request = Some t \<and> describes t current validated \<and> spc_validated cmd = validated
        \<and> mid = queries @ SPublish cmd # prunes
        \<and> (case ssp_publish ports (tr @ queries) cmd of
             Err ds \<Rightarrow> prunes = [] \<and> out = Err ds
           | Ok receipt \<Rightarrow>
               if same_evidence (spr_current receipt) validated then
                 prunes = [SPruneSnapshots (spc_paths cmd) (sc_snapshot_digest (vsc_candidate validated))]
                 \<and> out = Ok \<lparr>sao_transition = t, sao_finalized = True, sao_current = spr_current receipt\<rparr>
               else prunes = [] \<and> is_err out))"

definition adopt_reviews ::
  "source_adoption_request \<Rightarrow> source_sync_ports \<Rightarrow> source_trace \<Rightarrow> source_trace \<Rightarrow> source_adoption_outcome result \<Rightarrow> bool" where
  "adopt_reviews request ports tr mid out \<longleftrightarrow> list_all query_call mid
     \<and> (\<forall>queries current validated t. sar_expected request = Some t \<and> adopt_observes request ports tr queries current validated
          \<longrightarrow> \<not> describes t current validated)
     \<and> (\<forall>v. out = Ok v \<longrightarrow> sar_expected request = None \<and> \<not> sao_finalized v
          \<and> (\<exists>validated. adopt_observes request ports tr mid (sao_current v) validated \<and> describes (sao_transition v) (sao_current v) validated))"

definition adopt_ready :: "source_adoption_request \<Rightarrow> bool" where
  "adopt_ready request \<longleftrightarrow> mk_source_adoption_request request = Inr request \<and> acquirable (sar_source request)
     \<and> 0 < sar_lock_timeout_seconds request \<and> 0 < sar_lock_stale_after_seconds request"

lemma describes_differ: "describes t current validated \<Longrightarrow> cur_declared_source_id current \<noteq> vsc_declared_source_id validated"
  by (auto simp: describes_def mk_source_identity_transition_def py_guard_def split: if_splits)

lemma describes_ids:
  "describes t current validated \<Longrightarrow>
     tr_from_source_id t = cur_declared_source_id current \<and> tr_to_source_id t = vsc_declared_source_id validated"
  by (auto simp: describes_def mk_source_identity_transition_def py_guard_def split: if_splits)

lemma receipt_mismatch_evidence: "receipt_mismatch receipt validated \<longleftrightarrow> \<not> same_evidence (spr_current receipt) validated"
  by (auto simp: receipt_mismatch_def same_evidence_def)

lemma adopt_publish_run:
  assumes "0 \<le> sar_observed_at_epoch_seconds request" and obs: "adopt_observes request ports tr queries current validated"
    and "list_all query_call queries" "sar_expected request = Some t" "describes t current validated"
  shows "\<exists>mid out. adopt_publish request ports paths validated t (tr @ queries) = (tr @ mid, Inr out) \<and> adopt_publishes request ports tr mid out"
proof -
  let ?cmd = "\<lparr>spc_paths = paths, spc_validated = validated, spc_observed_at_epoch_seconds = sar_observed_at_epoch_seconds request\<rparr>"
  let ?port = "ssp_publish ports (tr @ queries) ?cmd"
  define prunes where "prunes = (case ?port of Ok receipt \<Rightarrow>
      if same_evidence (spr_current receipt) validated then [SPruneSnapshots paths (sc_snapshot_digest (vsc_candidate validated))] else []
    | Err _ \<Rightarrow> [])"
  define out where "out = (case ?port of Err ds \<Rightarrow> Err ds | Ok receipt \<Rightarrow>
      if same_evidence (spr_current receipt) validated then Ok \<lparr>sao_transition = t, sao_finalized = True, sao_current = spr_current receipt\<rparr>
      else failure ''source-invalid'' ''source publication receipt does not match the validated candidate'' [])"
  have run: "adopt_publish request ports paths validated t (tr @ queries) = (tr @ queries @ SPublish ?cmd # prunes, Inr out)"
    using assms(1)
    by (cases ?port) (simp_all add: prunes_def out_def adopt_publish_def mk_source_publish_command_def py_guard_def on_ok_def
        receipt_mismatch_evidence)
  have out: "case ?port of Err ds \<Rightarrow> prunes = [] \<and> out = Err ds
      | Ok receipt \<Rightarrow> if same_evidence (spr_current receipt) validated then
            prunes = [SPruneSnapshots (spc_paths ?cmd) (sc_snapshot_digest (vsc_candidate validated))]
            \<and> out = Ok \<lparr>sao_transition = t, sao_finalized = True, sao_current = spr_current receipt\<rparr>
          else prunes = [] \<and> is_err out"
    by (cases ?port) (simp_all add: prunes_def out_def failure_def mk_err_def is_err_def)
  have "adopt_publishes request ports tr (queries @ SPublish ?cmd # prunes) out"
    unfolding adopt_publishes_def using obs assms(3-5) out
    by (intro exI[of _ current] exI[of _ validated] exI[of _ queries] exI[of _ ?cmd] exI[of _ t] exI[of _ prunes]) simp
  then show ?thesis using run by blast
qed

lemma adopt_validated_run:
  assumes time: "0 \<le> sar_observed_at_epoch_seconds request" and obs: "adopt_observes request ports tr queries current validated"
    and unique: "\<And>qs c v. adopt_observes request ports tr qs c v \<Longrightarrow> c = current \<and> v = validated"
    and qs: "list_all query_call queries"
  shows "\<exists>mid out. adopt_validated request ports paths current validated (tr @ queries) = (tr @ mid, Inr out)
    \<and> (adopt_publishes request ports tr mid out \<or> adopt_reviews request ports tr mid out)"
proof -
  have review: ?thesis
    if "adopt_validated request ports paths current validated (tr @ queries) = (tr @ queries, Inr out)" "adopt_reviews request ports tr queries out"
    for out using that by blast
  have stop: "adopt_reviews request ports tr queries (failure code m rem)"
    if "\<And>t. sar_expected request = Some t \<Longrightarrow> \<not> describes t current validated" for code m rem
    using that qs unique by (auto simp: adopt_reviews_def)
  note defs = adopt_validated_def Let_def
  show ?thesis
  proof (cases "cur_declared_source_id current = vsc_declared_source_id validated")
    case True
    then show ?thesis by (intro review[OF _ stop]) (auto simp: defs dest: describes_differ)
  next
    case differ: False
    show ?thesis
    proof (cases "\<exists>t. describes t current validated")
      case False
      then obtain e where "mk_source_identity_transition (cur_declared_source_id current) (vsc_declared_source_id validated)
          (sc_resolved_revision (cur_candidate current)) (sc_resolved_revision (vsc_candidate validated))
          (sc_snapshot_digest (cur_candidate current)) (sc_snapshot_digest (vsc_candidate validated)) = Inl e"
        unfolding describes_def by (metis sum.exhaust)
      then show ?thesis using differ False by (intro review[OF _ stop]) (auto simp: defs)
    next
      case True
      then obtain t where t: "describes t current validated" ..
      note step = defs t[unfolded describes_def] differ
      show ?thesis
      proof (cases "sar_expected request")
        case None
        then show ?thesis using t obs qs by (intro review) (auto simp: step adopt_reviews_def)
      next
        case (Some expected)
        show ?thesis
        proof (cases "expected = t")
          case True
          then show ?thesis using adopt_publish_run[OF time obs qs _ t] Some by (fastforce simp: step)
        next
          case False
          moreover have "\<not> describes expected current validated" using t False by (simp add: describes_def)
          ultimately show ?thesis using Some by (intro review[OF _ stop]) (auto simp: step)
        qed
      qed
    qed
  qed
qed

lemma adopt_ready_simps:
  assumes "adopt_ready request"
  shows "normalized_absolute (sar_data_root request)" "0 \<le> sar_observed_at_epoch_seconds request" "0 < sar_timeout_seconds request"
    "acquirable (sar_source request)" "0 < sar_lock_timeout_seconds request" "0 < sar_lock_stale_after_seconds request"
  using assms by (auto simp: adopt_ready_def mk_source_adoption_request_def py_guard_def split: if_splits)

lemma adopt_locked_spec:
  assumes ready: "adopt_ready request"
  shows "\<exists>mid out. adopt_locked request ports tr = (tr @ mid, Inr out)
    \<and> (adopt_publishes request ports tr mid out \<or> adopt_reviews request ports tr mid out)"
proof -
  note ready = adopt_ready_simps[OF ready]
  obtain paths where paths: "managed_paths (sar_data_root request) (sar_source request) = Inr paths"
      "normalized_absolute (ssp_mirror paths)" "normalized_absolute (ssp_temporary_root paths)"
    using managed_paths_Inr[OF ready(1)] by metis
  define rd where "rd = \<lparr>csr_paths = paths, csr_alias = cs_alias (sar_source request)\<rparr>"
  have read: "read_current_source ports paths (cs_alias (sar_source request)) tr = (tr @ [SRead rd], Inr (ssp_read_current ports tr rd))"
    by (simp add: read_current_source_def rd_def)
  obtain c x where got: "candidate (sar_source request) (sar_limits request) (sar_timeout_seconds request) paths ports (tr @ [SRead rd])
      = ((tr @ [SRead rd]) @ [c], Inr x)" "query_call c"
    using candidate_returns[OF ready(4,3) paths(2,3)] by metis
  define vr where "vr = (\<lambda>a. \<lparr>svr_candidate = a, svr_executable_version = sar_executable_version request,
      svr_available_capabilities = sar_available_capabilities request\<rparr>)"
  have validate: "validate_candidate ports a (sar_executable_version request) (sar_available_capabilities request) tr'
      = (tr' @ [SValidate (vr a)], Inr (ssp_validate ports tr' (vr a)))" for a tr'
    by (simp add: validate_candidate_def vr_def)
  have obs: "adopt_observes request ports tr qs cur w \<longleftrightarrow> ssp_read_current ports tr rd = Ok (Some cur) \<and> x = Ok (vsc_candidate w)
      \<and> ssp_validate ports (tr @ [SRead rd, c]) (vr (vsc_candidate w)) = Ok w \<and> qs = [SRead rd, c, SValidate (vr (vsc_candidate w))]" for qs cur w
    using paths(1) read got(1) by (auto simp: adopt_observes_def validate)
  have stop: "\<exists>mid out. adopt_locked request ports tr = (tr @ mid, Inr out)
      \<and> (adopt_publishes request ports tr mid out \<or> adopt_reviews request ports tr mid out)"
    if "adopt_locked request ports tr = (tr @ mid, Inr out)" "list_all query_call mid" "\<And>v. out \<noteq> Ok v"
      "\<And>qs cur w. \<not> adopt_observes request ports tr qs cur w" for mid out
    using that by (auto simp: adopt_reviews_def)
  note defs = adopt_locked_def paths(1) read on_ok_def got(1) validate
  show ?thesis
  proof (cases "ssp_read_current ports tr rd")
    case (Err ds)
    then show ?thesis by (intro stop[of "[SRead rd]" "Err ds"]) (auto simp: defs obs)
  next
    case cur: (Ok loaded)
    show ?thesis
    proof (cases loaded)
      case None
      then show ?thesis using cur by (intro stop[of "[SRead rd]" "failure _ _ _"]) (auto simp: defs obs)
    next
      case (Some current)
      show ?thesis
      proof (cases x)
        case (Err ds)
        then show ?thesis using cur Some got(2) by (intro stop[of "[SRead rd, c]" "Err ds"]) (auto simp: defs obs)
      next
        case acq: (Ok acquired)
        let ?qs = "[SRead rd, c, SValidate (vr acquired)]"
        have qs: "list_all query_call ?qs" using got(2) by simp
        show ?thesis
        proof (cases "ssp_validate ports (tr @ [SRead rd, c]) (vr acquired)")
          case (Err ds)
          then show ?thesis using cur Some acq qs by (intro stop[of ?qs "Err ds"]) (auto simp: defs obs)
        next
          case val: (Ok w)
          show ?thesis
          proof (cases "vsc_candidate w = acquired")
            case False
            then show ?thesis using cur Some acq qs val by (intro stop[of ?qs "failure _ _ _"]) (auto simp: defs obs)
          next
            case True
            have run: "adopt_locked request ports tr = adopt_validated request ports paths current w (tr @ ?qs)"
              using cur Some acq val True by (simp add: defs)
            have here: "adopt_observes request ports tr ?qs current w" using cur Some acq val True by (simp add: obs)
            have only: "c' = current \<and> w' = w" if "adopt_observes request ports tr qs' c' w'" for qs' c' w'
              using that cur Some acq val by (auto simp: obs)
            show ?thesis unfolding run by (rule adopt_validated_run[OF ready(2) here only qs])
          qed
        qed
      qed
    qed
  qed
qed

lemma adopt_source_contract:
  assumes "adopt_ready request" and "adopt_source_identity request ports = (trace, result)"
  shows "\<exists>r. result = Inr r \<and>
    (if \<not> cs_enabled (sar_source request) then trace = [] \<and> is_err r
     else under_source_lease ports
       (\<lambda>tr mid out. adopt_publishes request ports tr mid out \<or> adopt_reviews request ports tr mid out) trace r)"
proof (cases "cs_enabled (sar_source request)")
  case False
  then show ?thesis using assms(2) by (auto simp: adopt_source_identity_def failure_def mk_err_def is_err_def)
next
  case True
  note ready = adopt_ready_simps[OF assms(1)]
  show ?thesis
    using adopt_body.leased_contract[OF ready(1,5,6) adopt_locked_spec[OF assms(1)]] assms(2) True
    by (simp add: adopt_source_identity_def)
qed

text \<open>
  C11. Adoption applies only the reviewed transition. For a ready request it never raises and works under the lease; it
  publishes exactly when the request names a transition and the transition it observes under the lease is that one;
  a review (no transition named) only asks questions and answers with the transition it observed; the superseded
  snapshots are pruned only after the pointer names the adopted one.
\<close>

theorem adopt_source_identity_reviewed:
  assumes "adopt_ready request" and "adopt_source_identity request ports = (trace, result)"
  shows "\<exists>r. result = Inr r \<and>
    (if \<not> cs_enabled (sar_source request) then trace = [] \<and> is_err r
     else under_source_lease ports
       (\<lambda>tr mid out. adopt_publishes request ports tr mid out \<or> adopt_reviews request ports tr mid out) trace r)"
  using assms by (rule adopt_source_contract)

subsubsection \<open>Checking freshness\<close>

definition fresh_ready :: "source_freshness_request \<Rightarrow> bool" where
  "fresh_ready request \<longleftrightarrow> mk_source_freshness_request request = Inr request \<and> acquirable (sfr_source request)
     \<and> 0 < sfr_lock_timeout_seconds request \<and> 0 < sfr_lock_stale_after_seconds request"

lemma fresh_ready_simps:
  assumes "fresh_ready request"
  shows "normalized_absolute (sfr_data_root request)" "0 \<le> sfr_observed_at_epoch_seconds request" "0 < sfr_timeout_seconds request"
    "acquirable (sfr_source request)" "0 < sfr_lock_timeout_seconds request" "0 < sfr_lock_stale_after_seconds request"
  using assms by (auto simp: fresh_ready_def mk_source_freshness_request_def py_guard_def split: if_splits)

definition fresh_observes ::
  "source_freshness_request \<Rightarrow> source_sync_ports \<Rightarrow> source_trace \<Rightarrow> current_source \<Rightarrow> validated_source_candidate \<Rightarrow> bool" where
  "fresh_observes request ports tr current observed \<longleftrightarrow>
     (\<exists>paths tr1 tr2 tr3 acquired. managed_paths (sfr_data_root request) (sfr_source request) = Inr paths
        \<and> read_current_source ports paths (cs_alias (sfr_source request)) tr = (tr1, Inr (Ok (Some current)))
        \<and> candidate (sfr_source request) (sfr_limits request) (sfr_timeout_seconds request) paths ports tr1 = (tr2, Inr (Ok acquired))
        \<and> validate_candidate ports acquired (sfr_executable_version request) (sfr_available_capabilities request) tr2
             = (tr3, Inr (Ok observed))
        \<and> vsc_candidate observed = acquired)"

text \<open>The verdict of a check that holds its lease: healthy or out of step exactly on observed evidence, with the age of the pointer.\<close>

definition fresh_verdict :: "source_freshness_request \<Rightarrow> source_sync_ports \<Rightarrow> source_trace \<Rightarrow> source_health \<Rightarrow> bool" where
  "fresh_verdict request ports tr health \<longleftrightarrow>
     (sh_status health = HEALTHY \<longleftrightarrow>
        (\<exists>current observed. fresh_observes request ports tr current observed \<and> same_evidence current observed))
     \<and> (sh_status health = NOT_SYNCHRONIZED \<longleftrightarrow>
        (\<exists>current observed. fresh_observes request ports tr current observed \<and> \<not> same_evidence current observed))
     \<and> sh_age_seconds health = map_option (\<lambda>c. freshness_age c (sfr_observed_at_epoch_seconds request)) (sh_current health)"

lemma mk_source_health_simps [simp]:
  "sh_status (mk_source_health st age cur ds) = st" "sh_age_seconds (mk_source_health st age cur ds) = age"
  "sh_current (mk_source_health st age cur ds) = cur"
  by (simp_all add: mk_source_health_def)

lemma check_freshness_locked_spec:
  assumes ready: "fresh_ready request"
  shows "\<exists>mid health. check_freshness_locked request ports tr = (tr @ mid, Inr (Ok health)) \<and> list_all query_call mid
    \<and> fresh_verdict request ports tr health"
proof -
  note ready = fresh_ready_simps[OF ready]
  obtain paths where paths: "managed_paths (sfr_data_root request) (sfr_source request) = Inr paths"
      "normalized_absolute (ssp_mirror paths)" "normalized_absolute (ssp_temporary_root paths)"
    using managed_paths_Inr[OF ready(1)] by metis
  define rd where "rd = \<lparr>csr_paths = paths, csr_alias = cs_alias (sfr_source request)\<rparr>"
  have read: "read_current_source ports paths (cs_alias (sfr_source request)) tr = (tr @ [SRead rd], Inr (ssp_read_current ports tr rd))"
    by (simp add: read_current_source_def rd_def)
  obtain c x where got: "candidate (sfr_source request) (sfr_limits request) (sfr_timeout_seconds request) paths ports (tr @ [SRead rd])
      = ((tr @ [SRead rd]) @ [c], Inr x)" "query_call c"
    using candidate_returns[OF ready(4,3) paths(2,3)] by metis
  define vr where "vr = (\<lambda>a. \<lparr>svr_candidate = a, svr_executable_version = sfr_executable_version request,
      svr_available_capabilities = sfr_available_capabilities request\<rparr>)"
  have validate: "validate_candidate ports a (sfr_executable_version request) (sfr_available_capabilities request) tr'
      = (tr' @ [SValidate (vr a)], Inr (ssp_validate ports tr' (vr a)))" for a tr'
    by (simp add: validate_candidate_def vr_def)
  have obs: "fresh_observes request ports tr cur w \<longleftrightarrow> ssp_read_current ports tr rd = Ok (Some cur) \<and> x = Ok (vsc_candidate w)
      \<and> ssp_validate ports (tr @ [SRead rd, c]) (vr (vsc_candidate w)) = Ok w" for cur w
    using paths(1) read got(1) by (auto simp: fresh_observes_def validate)
  note step = check_freshness_locked_def paths(1) read on_ok_def got(1) validate Let_def
  have answer: ?thesis if "check_freshness_locked request ports tr = (tr @ mid, Inr (Ok h))" "list_all query_call mid"
    "fresh_verdict request ports tr h" for mid h
    using that by blast
  show ?thesis
  proof (cases "ssp_read_current ports tr rd")
    case (Err ds)
    then show ?thesis by (intro answer[of "[SRead rd]"]) (simp_all add: step, simp add: fresh_verdict_def obs)
  next
    case cur: (Ok loaded)
    show ?thesis
    proof (cases loaded)
      case None
      then show ?thesis using cur by (intro answer[of "[SRead rd]"]) (simp_all add: step, simp add: fresh_verdict_def obs)
    next
      case (Some current)
      show ?thesis
      proof (cases x)
        case (Err ds)
        then show ?thesis using cur Some got(2)
          by (intro answer[of "[SRead rd, c]"]) (simp_all add: step, simp add: fresh_verdict_def obs)
      next
        case acq: (Ok acquired)
        have val: "fresh_observes request ports tr k w \<longleftrightarrow>
            k = current \<and> vsc_candidate w = acquired \<and> ssp_validate ports (tr @ [SRead rd, c]) (vr acquired) = Ok w" for k w
          using cur Some acq by (auto simp: obs)
        show ?thesis
        proof (cases "ssp_validate ports (tr @ [SRead rd, c]) (vr acquired)")
          case (Err ds)
          then show ?thesis using cur Some acq got(2)
            by (intro answer[of "[SRead rd, c, SValidate (vr acquired)]"]) (simp_all add: step, simp add: fresh_verdict_def val)
        next
          case (Ok w)
          then show ?thesis using cur Some acq got(2)
            by (cases "vsc_candidate w = acquired")
              (intro answer[of "[SRead rd, c, SValidate (vr acquired)]"], simp_all add: step, auto simp: fresh_verdict_def val)
        qed
      qed
    qed
  qed
qed

definition fresh_run ::
  "source_freshness_request \<Rightarrow> source_sync_ports \<Rightarrow> source_trace \<Rightarrow> source_health \<Rightarrow> bool" where
  "fresh_run request ports trace health \<longleftrightarrow>
     (\<exists>q ds rd. ssp_acquire_lock ports [] q = Err ds \<and> trace = [SLock q, SRead rd] \<and> sh_status health = CHECK_UNAVAILABLE)
     \<or> (\<exists>q lease mid. ssp_acquire_lock ports [] q = Ok lease \<and> trace = SLock q # mid @ [SRelease lease] \<and> list_all query_call mid
          \<and> (if is_ok (ssp_release_lock ports (SLock q # mid) lease) then fresh_verdict request ports [SLock q] health
             else sh_status health = CHECK_UNAVAILABLE))"

lemma check_source_freshness_run:
  assumes ready: "fresh_ready request" and run: "check_source_freshness request ports = (trace, result)"
  shows "\<exists>health. result = Inr (Ok health) \<and>
    (if cs_enabled (sfr_source request) then fresh_run request ports trace health
     else (\<exists>rd. trace = [SRead rd]) \<and> sh_status health \<in> {MISSING, HEALTHY, STALE, DEGRADED})"
proof -
  note ready' = fresh_ready_simps[OF ready]
  obtain paths where paths: "managed_paths (sfr_data_root request) (sfr_source request) = Inr paths" "normalized_absolute (ssp_lock_directory paths)"
    using managed_paths_Inr[OF ready'(1)] by metis
  define q where "q = \<lparr>solr_lock_directory = ssp_lock_directory paths, solr_timeout_seconds = sfr_lock_timeout_seconds request,
      solr_stale_after_seconds = sfr_lock_stale_after_seconds request\<rparr>"
  have q: "mk_source_lock_request (ssp_lock_directory paths) (sfr_lock_timeout_seconds request) (sfr_lock_stale_after_seconds request) = Inr q"
    using paths(2) ready'(5,6) by (simp add: mk_source_lock_request_def py_guard_def q_def)
  show ?thesis
  proof (cases "cs_enabled (sfr_source request)")
    case False
    then show ?thesis using run ready'(2)
      by (auto simp: check_source_freshness_def paths mk_source_status_request_def py_guard_def source_status_def
          assess_source_health_def Let_def split: result.splits option.splits)
  next
    case True
    show ?thesis
    proof (cases "ssp_acquire_lock ports [] q")
      case (Err ds)
      then show ?thesis using run True
        by (auto simp: check_source_freshness_def paths q on_ok_def Let_def fresh_run_def unavailable_health_def)
    next
      case (Ok lease)
      obtain mid health where body: "check_freshness_locked request ports [SLock q] = ([SLock q] @ mid, Inr (Ok health))"
          "list_all query_call mid" "fresh_verdict request ports [SLock q] health"
        using check_freshness_locked_spec[OF ready] by blast
      define out where "out = (case ssp_release_lock ports (SLock q # mid) lease of
          Err rds \<Rightarrow> mk_source_health CHECK_UNAVAILABLE (sh_age_seconds health) (sh_current health) (sh_diagnostics health @ rds)
        | Ok _ \<Rightarrow> health)"
      have "trace = SLock q # mid @ [SRelease lease]" "result = Inr (Ok out)"
        using run True Ok body(1) by (auto simp: check_source_freshness_def paths q on_ok_def Let_def out_def)
      moreover have "if is_ok (ssp_release_lock ports (SLock q # mid) lease) then fresh_verdict request ports [SLock q] out
             else sh_status out = CHECK_UNAVAILABLE"
        using body(3) by (auto simp: out_def is_ok_def split: result.split)
      ultimately show ?thesis using True Ok body(2) unfolding fresh_run_def by auto
    qed
  qed
qed

text \<open>
  A freshness check changes nothing and tells the truth. For a ready request it never raises and only ever reads, acquires and
  validates, under the lease it takes and gives back; with the lease held throughout it reports \<open>HEALTHY\<close>
  exactly when the origin still yields the published evidence and \<open>NOT_SYNCHRONIZED\<close> exactly when it yields other evidence; without the
  lease the check is reported as unavailable, and a disabled source is judged from the pointer alone.
\<close>

theorem check_source_freshness_exact:
  assumes "fresh_ready request" and "check_source_freshness request ports = (trace, result)"
  shows "\<exists>health. result = Inr (Ok health) \<and>
    (if cs_enabled (sfr_source request) then fresh_run request ports trace health
     else (\<exists>rd. trace = [SRead rd]) \<and> sh_status health \<in> {MISSING, HEALTHY, STALE, DEGRADED})"
  using assms by (rule check_source_freshness_run)

subsubsection \<open>The pointer of a source over its history\<close>

text \<open>
  The pointer to the current snapshot, as publications move it; \<open>pointer_store\<close> is what the store promises: reads return
  the pointer, and a publication that succeeds makes the pointer name the evidence of the command.
\<close>

fun pointer_after :: "source_sync_ports \<Rightarrow> source_trace \<Rightarrow> current_source option \<Rightarrow> source_trace \<Rightarrow> current_source option" where
  "pointer_after ports pre p [] = p"
| "pointer_after ports pre p (c # cs) =
     pointer_after ports (pre @ [c])
       (case c of SPublish cmd \<Rightarrow> (case ssp_publish ports pre cmd of Ok receipt \<Rightarrow> Some (spr_current receipt) | Err _ \<Rightarrow> p) | _ \<Rightarrow> p) cs"

fun pointer_discarded :: "source_discard_ports \<Rightarrow> source_trace \<Rightarrow> current_source option \<Rightarrow> source_trace \<Rightarrow> current_source option" where
  "pointer_discarded ports pre p [] = p"
| "pointer_discarded ports pre p (c # cs) =
     pointer_discarded ports (pre @ [c])
       (case c of SDiscard paths \<Rightarrow> (case sdp_discard ports pre paths of Ok _ \<Rightarrow> None | Err _ \<Rightarrow> p) | _ \<Rightarrow> p) cs"

definition quiet :: "source_trace \<Rightarrow> bool" where
  "quiet tr \<longleftrightarrow> list_all (\<lambda>c. case c of SPublish _ \<Rightarrow> False | _ \<Rightarrow> True) tr"

definition pointer_store :: "source_sync_ports \<Rightarrow> current_source option \<Rightarrow> bool" where
  "pointer_store ports p \<longleftrightarrow>
     (\<forall>tr rd current. quiet tr \<longrightarrow> ssp_read_current ports tr rd = Ok current \<longrightarrow> current = p)
     \<and> (\<forall>tr cmd receipt. ssp_publish ports tr cmd = Ok receipt \<longrightarrow> same_evidence (spr_current receipt) (spc_validated cmd))"

datatype source_label =
    Synced source_sync_request
  | Adopted source_adoption_request
  | Checked source_freshness_request
  | Discarded source_discard_request

inductive source_step :: "current_source option \<Rightarrow> source_label \<Rightarrow> current_source option \<Rightarrow> bool" where
  synced: "\<lbrakk>sync_ready request; pointer_store ports p; sync_source request ports = (trace, result)\<rbrakk>
    \<Longrightarrow> source_step p (Synced request) (pointer_after ports [] p trace)"
| adopted: "\<lbrakk>adopt_ready request; pointer_store ports p; adopt_source_identity request ports = (trace, result)\<rbrakk>
    \<Longrightarrow> source_step p (Adopted request) (pointer_after ports [] p trace)"
| checked: "\<lbrakk>fresh_ready request; pointer_store ports p; check_source_freshness request ports = (trace, result)\<rbrakk>
    \<Longrightarrow> source_step p (Checked request) (pointer_after ports [] p trace)"
| discarded: "discard_source request discard_ports = (trace, result)
    \<Longrightarrow> source_step p (Discarded request) (pointer_discarded discard_ports [] p trace)"

inductive source_history :: "current_source option \<Rightarrow> source_label list \<Rightarrow> current_source option \<Rightarrow> bool" where
  start: "source_history p [] p"
| step: "source_step p l p' \<Longrightarrow> source_history p' ls p'' \<Longrightarrow> source_history p (l # ls) p''"

text \<open>The transitions a history was asked to adopt, and a chain of transitions between two identities.\<close>

definition expected_transitions :: "source_label list \<Rightarrow> source_identity_transition list" where
  "expected_transitions ls = List.map_filter (\<lambda>l. case l of Adopted r \<Rightarrow> sar_expected r | _ \<Rightarrow> None) ls"

fun identity_chain :: "source_id \<Rightarrow> source_identity_transition list \<Rightarrow> source_id \<Rightarrow> bool" where
  "identity_chain a [] b \<longleftrightarrow> a = b"
| "identity_chain a (t # ts) b \<longleftrightarrow> tr_from_source_id t = a \<and> tr_to_source_id t \<noteq> a \<and> identity_chain (tr_to_source_id t) ts b"

lemma pointer_after_append: "pointer_after ports pre p (a @ b) = pointer_after ports (pre @ a) (pointer_after ports pre p a) b"
  by (induction a arbitrary: pre p) simp_all

lemma pointer_after_quiet: "quiet tr \<Longrightarrow> pointer_after ports pre p tr = p"
  by (induction tr arbitrary: pre) (simp_all add: quiet_def split: source_call.splits)

lemma quiet_simps [simp]:
  "quiet []" "quiet (SLock q # tr) = quiet tr" "quiet (SRelease e # tr) = quiet tr" "quiet (SRead rd # tr) = quiet tr"
  "quiet (SPruneSnapshots ps d # tr) = quiet tr" "quiet (tr @ tr') \<longleftrightarrow> quiet tr \<and> quiet tr'"
  by (simp_all add: quiet_def)

lemma quiet_queries: "list_all query_call tr \<Longrightarrow> quiet tr"
  by (auto simp: quiet_def list_all_iff query_call_def split: source_call.splits)

text \<open>A publication in the middle of an otherwise quiet trace moves the pointer to the published evidence, or leaves it.\<close>

lemma pointer_after_publish:
  assumes store: "pointer_store ports p" and "quiet a" "quiet b" "spc_validated cmd = validated"
  shows "pointer_after ports [] p (a @ SPublish cmd # b) = p
    \<or> (\<exists>c'. pointer_after ports [] p (a @ SPublish cmd # b) = Some c' \<and> same_evidence c' validated)"
  using assms by (cases "ssp_publish ports a cmd") (auto simp: pointer_after_append pointer_after_quiet pointer_store_def)

lemma pointer_read: "pointer_store ports p \<Longrightarrow> ssp_read_current ports [SLock q] rd = Ok current \<Longrightarrow> current = p"
  unfolding pointer_store_def using quiet_simps(1,2) by blast

lemma adopt_publishes_trace:
  assumes "adopt_publishes request ports tr mid out"
  shows "\<exists>queries cmd prunes current validated t. mid = queries @ SPublish cmd # prunes \<and> list_all query_call queries
    \<and> spc_validated cmd = validated \<and> adopt_observes request ports tr queries current validated
    \<and> sar_expected request = Some t \<and> describes t current validated \<and> quiet prunes"
proof -
  obtain current validated queries cmd t prunes where a: "adopt_observes request ports tr queries current validated"
    "list_all query_call queries" "sar_expected request = Some t" "describes t current validated" "spc_validated cmd = validated"
    "mid = queries @ SPublish cmd # prunes"
    and p: "case ssp_publish ports (tr @ queries) cmd of Err ds \<Rightarrow> prunes = [] \<and> out = Err ds
           | Ok receipt \<Rightarrow>
               if same_evidence (spr_current receipt) validated then
                 prunes = [SPruneSnapshots (spc_paths cmd) (sc_snapshot_digest (vsc_candidate validated))]
                 \<and> out = Ok \<lparr>sao_transition = t, sao_finalized = True, sao_current = spr_current receipt\<rparr>
               else prunes = [] \<and> is_err out"
    using assms unfolding adopt_publishes_def by blast
  have "quiet prunes" using p by (auto split: result.splits if_splits)
  then show ?thesis using a by blast
qed

lemma sync_keeps_identity:
  assumes ready: "sync_ready request" and store: "pointer_store ports (Some c)" and run: "sync_source request ports = (trace, result)"
  obtains c' where "pointer_after ports [] (Some c) trace = Some c'" "cur_declared_source_id c' = cur_declared_source_id c"
proof -
  obtain r where r: "result = Inr r" "if \<not> cs_enabled (ssr_source request) then trace = [] \<and> is_err r
     else under_source_lease ports (\<lambda>tr mid out. sync_publishes request ports tr mid out \<or> sync_declines request ports tr mid out) trace r"
    using sync_source_contract[OF ready run] by blast
  consider "quiet trace"
    | q queries cmd lease validated where "trace = SLock q # queries @ [SPublish cmd, SRelease lease]" "list_all query_call queries"
        "spc_validated cmd = validated" "\<exists>current. sync_admits request ports [SLock q] current validated"
    using r(2) by (auto simp: under_source_lease_def sync_publishes_def sync_declines_def quiet_queries split: if_splits)
  then show thesis
  proof cases
    case 1
    then show thesis using that by (simp add: pointer_after_quiet)
  next
    case (2 q queries cmd lease validated)
    then obtain current where admits: "sync_admits request ports [SLock q] current validated" by blast
    then obtain rd where "ssp_read_current ports [SLock q] rd = Ok current"
      by (auto simp: sync_admits_def read_current_source_def)
    then have "current = Some c" by (rule pointer_read[OF store])
    then have "cur_declared_source_id c = vsc_declared_source_id validated" using admits by (auto simp: sync_admits_def)
    then show thesis
      using that pointer_after_publish[OF store, of "SLock q # queries" "[SRelease lease]" cmd validated] 2 quiet_queries
      by (auto simp: same_evidence_def)
  qed
qed

lemma adoption_follows_review:
  assumes ready: "adopt_ready request" and store: "pointer_store ports (Some c)" and run: "adopt_source_identity request ports = (trace, result)"
  obtains c' where "pointer_after ports [] (Some c) trace = Some c'"
    "cur_declared_source_id c' = cur_declared_source_id c
      \<or> (\<exists>t. sar_expected request = Some t \<and> identity_chain (cur_declared_source_id c) [t] (cur_declared_source_id c'))"
proof -
  obtain r where r: "result = Inr r" "if \<not> cs_enabled (sar_source request) then trace = [] \<and> is_err r
     else under_source_lease ports (\<lambda>tr mid out. adopt_publishes request ports tr mid out \<or> adopt_reviews request ports tr mid out) trace r"
    using adopt_source_contract[OF ready run] by blast
  consider "quiet trace"
    | q queries cmd prunes lease current validated t where "trace = SLock q # queries @ SPublish cmd # prunes @ [SRelease lease]"
        "list_all query_call queries" "spc_validated cmd = validated" "adopt_observes request ports [SLock q] queries current validated"
        "sar_expected request = Some t" "describes t current validated" "quiet prunes"
  proof (cases "quiet trace")
    case False
    then obtain q lease mid out where "trace = SLock q # mid @ [SRelease lease]" "adopt_publishes request ports [SLock q] mid out"
      using r(2) by (auto simp: under_source_lease_def adopt_reviews_def quiet_queries split: if_splits)
    then show thesis using adopt_publishes_trace[of request ports "[SLock q]" mid out] that(2)[of q _ _ _ lease] by auto
  qed (rule that)
  then show thesis
  proof cases
    case 1
    then show thesis using that by (simp add: pointer_after_quiet)
  next
    case (2 q queries cmd prunes lease current validated t)
    then obtain rd where "ssp_read_current ports [SLock q] rd = Ok (Some current)"
      by (auto simp: adopt_observes_def read_current_source_def)
    then have "current = c" using pointer_read[OF store] by blast
    then show thesis
      using that pointer_after_publish[OF store, of "SLock q # queries" "prunes @ [SRelease lease]" cmd validated] 2 quiet_queries
        describes_ids[OF 2(6)] describes_differ[OF 2(6)]
      by (auto simp: same_evidence_def)
  qed
qed

lemma check_quiet:
  assumes "fresh_ready request" "check_source_freshness request ports = (trace, result)"
  shows "quiet trace"
  using check_source_freshness_run[OF assms] by (auto simp: fresh_run_def quiet_queries split: if_splits)

lemma source_step_identity:
  assumes "source_step (Some c) l p'" "\<And>r. l \<noteq> Discarded r"
  obtains c' ts where "p' = Some c'" "subseq ts (expected_transitions [l])"
    "identity_chain (cur_declared_source_id c) ts (cur_declared_source_id c')"
  using assms(1)
proof (cases rule: source_step.cases)
  case (synced request ports trace result)
  obtain c' where "p' = Some c'" "cur_declared_source_id c' = cur_declared_source_id c"
    using sync_keeps_identity[OF synced(3-5)] synced(2) by metis
  then show thesis using that[of c' "[]"] by simp
next
  case (adopted request ports trace result)
  obtain c' where c': "p' = Some c'" "cur_declared_source_id c' = cur_declared_source_id c
      \<or> (\<exists>t. sar_expected request = Some t \<and> identity_chain (cur_declared_source_id c) [t] (cur_declared_source_id c'))"
    using adoption_follows_review[OF adopted(3-5)] adopted(2) by metis
  then show thesis
  proof (elim disjE exE conjE)
    fix t assume "sar_expected request = Some t" "identity_chain (cur_declared_source_id c) [t] (cur_declared_source_id c')"
    then show thesis using that[of c' "[t]"] c'(1) adopted(1) by (auto simp: expected_transitions_def map_filter_simps)
  qed (use that[of c' "[]"] c'(1) in simp)
next
  case (checked request ports trace result)
  then show thesis using that[of c "[]"] check_quiet[OF checked(3,5)] by (simp add: pointer_after_quiet)
qed (use assms(2) in simp)

lemma identity_chain_append:
  "identity_chain a ts b \<Longrightarrow> identity_chain b us c \<Longrightarrow> identity_chain a (ts @ us) c"
  by (induction ts arbitrary: a) simp_all

lemma expected_transitions_Cons: "expected_transitions (l # ls) = expected_transitions [l] @ expected_transitions ls"
  by (simp add: expected_transitions_def map_filter_simps split: source_label.splits option.splits)

text \<open>
  C9. The identity of a subscription changes only through review. Over any history of synchronisations, adoptions and
  freshness checks of a store that keeps its pointer, the pointer is never lost, and the identity it declares at the
  end is reached from the one at the start by a chain of transitions, each of them named by an adoption request of the history, in order;
  without such a request the identity is the same.
\<close>

theorem source_history_identity:
  assumes "source_history (Some c) labels pointer" and "list_all (\<lambda>l. \<forall>r. l \<noteq> Discarded r) labels"
  shows "\<exists>c' ts. pointer = Some c' \<and> subseq ts (expected_transitions labels)
    \<and> identity_chain (cur_declared_source_id c) ts (cur_declared_source_id c')"
  using assms
proof (induction "Some c" labels pointer arbitrary: c rule: source_history.induct)
  case start
  then show ?case by (intro exI[of _ c] exI[of _ "[]"]) simp
next
  case (step l p' ls p'')
  have l: "l \<noteq> Discarded r" for r using step.prems by simp
  obtain c' ts where c': "p' = Some c'" "subseq ts (expected_transitions [l])"
      "identity_chain (cur_declared_source_id c) ts (cur_declared_source_id c')"
    using source_step_identity[OF step.hyps(1) l] by metis
  obtain c'' us where c'': "p'' = Some c''" "subseq us (expected_transitions ls)"
      "identity_chain (cur_declared_source_id c') us (cur_declared_source_id c'')"
    using step.hyps(3)[OF c'(1)] step.prems by auto
  have "subseq (ts @ us) (expected_transitions (l # ls))"
    by (subst expected_transitions_Cons) (rule list_emb_append_mono[OF c'(2) c''(2)])
  then show ?case using c''(1) identity_chain_append[OF c'(3) c''(3)] by blast
qed

subsubsection \<open>A sample source\<close>

definition sample_source :: configured_source where
  "sample_source = \<lparr>cs_alias = SourceAlias ''team'', cs_kind = SOURCE_LOCAL, cs_location = ''/srv/team'', cs_ref = None, cs_enabled = True\<rparr>"

definition sample_version :: semver where
  "sample_version = \<lparr>sv_major = 1, sv_minor = 0, sv_patch = 0, sv_prerelease = [], sv_build = []\<rparr>"

definition sample_candidate :: source_candidate where
  "sample_candidate = \<lparr>sc_instance_id = SourceInstanceId ''local-00'', sc_alias = SourceAlias ''team'', sc_resolved_revision = ''r1'',
     sc_snapshot_digest = ObjectDigest ''sha256'' (replicate 64 CHR ''a''),
     sc_snapshot = \<lparr>snap_origin = SO_LOCAL, snap_entries = []\<rparr>\<rparr>"

definition sample_current :: current_source where
  "sample_current = \<lparr>cur_candidate = sample_candidate, cur_declared_source_id = SourceId ''team'',
     cur_published_at_epoch_seconds = 100, cur_snapshot_root = ''/srv/aart''\<rparr>"

definition sample_source_ports :: "source_id \<Rightarrow> current_source option \<Rightarrow> source_sync_ports" where
  "sample_source_ports declared p =
     \<lparr>ssp_acquire_lock = (\<lambda>_ q. Ok \<lparr>soll_lock_directory = solr_lock_directory q, soll_token = ''t''\<rparr>), ssp_release_lock = (\<lambda>_ _. Ok ()),
      ssp_read_current = (\<lambda>_ _. Ok p), ssp_acquire_local = (\<lambda>_ _. Ok sample_candidate), ssp_acquire_git = (\<lambda>_ _. Err []),
      ssp_validate = (\<lambda>_ v. Ok \<lparr>vsc_candidate = svr_candidate v, vsc_declared_source_id = declared\<rparr>),
      ssp_publish = (\<lambda>_ cmd. Ok \<lparr>spr_current = sample_current\<lparr>cur_candidate := vsc_candidate (spc_validated cmd),
          cur_declared_source_id := vsc_declared_source_id (spc_validated cmd)\<rparr>, spr_created = True\<rparr>)\<rparr>"

definition sample_limits :: snapshot_limits where
  "sample_limits = \<lparr>sl_max_files = 100, sl_max_file_bytes = 1000, sl_max_total_bytes = 10000, sl_max_depth = 8\<rparr>"

definition sample_sync_request :: source_sync_request where
  "sample_sync_request = \<lparr>ssr_source = sample_source, ssr_data_root = ''/srv/aart'', ssr_executable_version = sample_version,
     ssr_available_capabilities = [], ssr_observed_at_epoch_seconds = 200, ssr_fallback = REQUIRE_FRESH, ssr_offline = False,
     ssr_timeout_seconds = 60, ssr_limits = sample_limits, ssr_lock_timeout_seconds = 30, ssr_lock_stale_after_seconds = 300\<rparr>"

definition sample_transition :: source_identity_transition where
  "sample_transition = \<lparr>tr_from_source_id = SourceId ''team'', tr_to_source_id = SourceId ''team2'', tr_from_revision = ''r1'',
     tr_to_revision = ''r1'', tr_from_digest = sc_snapshot_digest sample_candidate, tr_to_digest = sc_snapshot_digest sample_candidate\<rparr>"

definition sample_adoption_request :: source_adoption_request where
  "sample_adoption_request = \<lparr>sar_source = sample_source, sar_data_root = ''/srv/aart'', sar_executable_version = sample_version,
     sar_available_capabilities = [], sar_observed_at_epoch_seconds = 200, sar_expected = Some sample_transition,
     sar_timeout_seconds = 60, sar_limits = sample_limits, sar_lock_timeout_seconds = 30, sar_lock_stale_after_seconds = 300\<rparr>"

definition sample_freshness_request :: source_freshness_request where
  "sample_freshness_request = \<lparr>sfr_source = sample_source, sfr_data_root = ''/srv/aart'', sfr_executable_version = sample_version,
     sfr_available_capabilities = [], sfr_observed_at_epoch_seconds = 200, sfr_timeout_seconds = 60, sfr_limits = sample_limits,
     sfr_lock_timeout_seconds = 30, sfr_lock_stale_after_seconds = 300\<rparr>"

lemma sample_normalized: "normalized_absolute ''/srv/team''" "normalized_absolute ''/srv/aart''"
  by (simp_all add: normalized_absolute_def isabs_def normpath_def initial_slashes_def Let_def)

lemma sample_requests_ready:
  "sync_ready sample_sync_request" "adopt_ready sample_adoption_request" "fresh_ready sample_freshness_request"
  by (simp_all add: sync_ready_def adopt_ready_def fresh_ready_def sample_sync_request_def sample_adoption_request_def
      sample_freshness_request_def mk_source_sync_request_def mk_source_adoption_request_def mk_source_freshness_request_def
      acquirable_def sample_source_def sample_normalized py_guard_def)

lemma sample_pointer_store: "pointer_store (sample_source_ports declared p) p"
  by (simp add: pointer_store_def sample_source_ports_def same_evidence_def)

theorem sync_source_safe_witness:
  "\<exists>trace r. sync_source sample_sync_request (sample_source_ports (SourceId ''team'') None) = (trace, Inr r)
     \<and> under_source_lease (sample_source_ports (SourceId ''team'') None)
         (\<lambda>tr mid out. sync_publishes sample_sync_request (sample_source_ports (SourceId ''team'') None) tr mid out
            \<or> sync_declines sample_sync_request (sample_source_ports (SourceId ''team'') None) tr mid out) trace r"
proof -
  let ?ports = "sample_source_ports (SourceId ''team'') None"
  obtain trace result where run: "sync_source sample_sync_request ?ports = (trace, result)" by (cases "sync_source sample_sync_request ?ports")
  show ?thesis using sync_source_safe[OF sample_requests_ready(1) run] run
    by (auto simp: sample_sync_request_def sample_source_def)
qed

theorem adopt_source_identity_reviewed_witness:
  "\<exists>trace r. adopt_source_identity sample_adoption_request (sample_source_ports (SourceId ''team2'') (Some sample_current)) = (trace, Inr r)
     \<and> under_source_lease (sample_source_ports (SourceId ''team2'') (Some sample_current))
         (\<lambda>tr mid out. adopt_publishes sample_adoption_request (sample_source_ports (SourceId ''team2'') (Some sample_current)) tr mid out
            \<or> adopt_reviews sample_adoption_request (sample_source_ports (SourceId ''team2'') (Some sample_current)) tr mid out) trace r"
proof -
  let ?ports = "sample_source_ports (SourceId ''team2'') (Some sample_current)"
  obtain trace result where run: "adopt_source_identity sample_adoption_request ?ports = (trace, result)"
    by (cases "adopt_source_identity sample_adoption_request ?ports")
  show ?thesis using adopt_source_identity_reviewed[OF sample_requests_ready(2) run] run
    by (auto simp: sample_adoption_request_def sample_source_def)
qed

theorem check_source_freshness_exact_witness:
  "\<exists>trace health. check_source_freshness sample_freshness_request (sample_source_ports (SourceId ''team'') (Some sample_current)) = (trace, Inr (Ok health))
     \<and> fresh_run sample_freshness_request (sample_source_ports (SourceId ''team'') (Some sample_current)) trace health"
proof -
  let ?ports = "sample_source_ports (SourceId ''team'') (Some sample_current)"
  obtain trace result where run: "check_source_freshness sample_freshness_request ?ports = (trace, result)"
    by (cases "check_source_freshness sample_freshness_request ?ports")
  show ?thesis using check_source_freshness_exact[OF sample_requests_ready(3) run] run
    by (auto simp: sample_freshness_request_def sample_source_def)
qed

theorem source_history_identity_witness:
  "\<exists>pointer c' ts. source_history (Some sample_current) [Synced sample_sync_request, Adopted sample_adoption_request] pointer
     \<and> pointer = Some c' \<and> subseq ts [sample_transition] \<and> identity_chain (SourceId ''team'') ts (cur_declared_source_id c')"
proof -
  let ?ports = "sample_source_ports (SourceId ''team2'')"
  obtain t1 r1 where 1: "sync_source sample_sync_request (?ports (Some sample_current)) = (t1, r1)" by (metis surj_pair)
  define p where "p = pointer_after (?ports (Some sample_current)) [] (Some sample_current) t1"
  obtain t2 r2 where 2: "adopt_source_identity sample_adoption_request (?ports p) = (t2, r2)" by (metis surj_pair)
  have s1: "source_step (Some sample_current) (Synced sample_sync_request) p"
    unfolding p_def by (rule source_step.synced[OF sample_requests_ready(1) sample_pointer_store 1])
  have s2: "source_step p (Adopted sample_adoption_request) (pointer_after (?ports p) [] p t2)"
    by (rule source_step.adopted[OF sample_requests_ready(2) sample_pointer_store 2])
  have h: "source_history (Some sample_current) [Synced sample_sync_request, Adopted sample_adoption_request] (pointer_after (?ports p) [] p t2)"
    by (rule source_history.step[OF s1 source_history.step[OF s2 source_history.start]])
  have "expected_transitions [Synced sample_sync_request, Adopted sample_adoption_request] = [sample_transition]"
    by (simp add: expected_transitions_def map_filter_simps sample_adoption_request_def)
  moreover have "cur_declared_source_id sample_current = SourceId ''team''" by (simp add: sample_current_def)
  ultimately show ?thesis using source_history_identity[OF h] h by fastforce
qed

end
