(* ===== verification/Catalog.thy ===== *)
theory Catalog
  imports Selection SourceModel
begin

text \<open>
  The runtime marketplace (\<open>agent_artifacts/marketplace/model.py\<close>) and the queries on it
  (\<open>agent_artifacts/marketplace/catalog.py\<close>): source states and views, trust decisions, items, the catalog with its
  invariants, resolution of one artifact, search and listing.
\<close>

subsection \<open>Values\<close>

text \<open>\<open>_SLUG_RE\<close>: \<open>[a-z][a-z0-9]*(-[a-z0-9]+)*\<close>\<close>

definition slug_match :: "string \<Rightarrow> bool" where
  "slug_match s \<longleftrightarrow>
     (let parts = split_on CHR ''-'' s in
      list_all (\<lambda>p. p \<noteq> [] \<and> list_all lower_or_digit p) parts \<and> is_lower (hd s))"

definition ARTIFACT_KINDS :: "string list" where
  "ARTIFACT_KINDS = [''skill'', ''guideline'', ''mcp'', ''hook'', ''memory'']"

datatype trust_class = UNVERIFIED | LOCAL | DIRECT_SOURCE | REGISTRY_REVIEWED | COMPANY_REVIEWED

record marketplace_source_state =
  mss_configured :: configured_source
  mss_health :: source_health
  mss_display_order :: int

definition mk_marketplace_source_state ::
  "configured_source \<Rightarrow> source_health \<Rightarrow> int \<Rightarrow> marketplace_source_state py" where
  "mk_marketplace_source_state configured health display_order =
     py_guard (\<not> cs_enabled configured) ''marketplace source state must be enabled''
       (py_guard (display_order < 0) ''marketplace source state is invalid''
          (let current = sh_current health in
           py_guard ((sh_status health = MISSING \<and> current \<noteq> None)
               \<or> (sh_status health \<in> {HEALTHY, STALE, NOT_SYNCHRONIZED} \<and> current = None)
               \<or> (current = None \<and> sh_age_seconds health \<noteq> None)
               \<or> (current \<noteq> None \<and> sh_age_seconds health = None))
             ''marketplace source health/current state is inconsistent''
             (case current of
                None \<Rightarrow> Inr \<lparr>mss_configured = configured, mss_health = health, mss_display_order = display_order\<rparr>
              | Some c \<Rightarrow>
                  (case source_instance_id configured of
                     Inl e \<Rightarrow> Inl e
                   | Inr ident \<Rightarrow>
                       py_guard (sc_alias (cur_candidate c) \<noteq> cs_alias configured \<or> sc_instance_id (cur_candidate c) \<noteq> ident)
                         ''marketplace current source does not match its configuration''
                         (Inr \<lparr>mss_configured = configured, mss_health = health, mss_display_order = display_order\<rparr>)))))"

record marketplace_source_view =
  msv_alias :: source_alias
  msv_kind :: source_kind
  msv_source_id :: "source_id option"
  msv_origin :: string
  msv_resolved_revision :: "string option"
  msv_snapshot_digest :: "object_digest option"
  msv_health :: health_status
  msv_age_seconds :: "int option"
  msv_display_order :: int
  msv_is_default :: bool
  msv_diagnostics :: "diagnostic list"

definition mk_marketplace_source_view :: "marketplace_source_view \<Rightarrow> marketplace_source_view py" where
  "mk_marketplace_source_view v =
     (let has_current = (msv_source_id v \<noteq> None \<and> msv_resolved_revision v \<noteq> None \<and> msv_snapshot_digest v \<noteq> None);
          has_no_current = (msv_source_id v = None \<and> msv_resolved_revision v = None \<and> msv_snapshot_digest v = None) in
      py_guard (\<not> slug_match (alias_value (msv_alias v))
          \<or> \<not> one_line (msv_origin v)
          \<or> (case msv_source_id v of None \<Rightarrow> False | Some i \<Rightarrow> \<not> slug_match (source_id_value i))
          \<or> msv_display_order v < 0
          \<or> (case msv_age_seconds v of None \<Rightarrow> False | Some age \<Rightarrow> age < 0)
          \<or> \<not> (has_current \<or> has_no_current)
          \<or> (msv_health v = MISSING \<and> has_current)
          \<or> (msv_health v \<in> {HEALTHY, STALE, NOT_SYNCHRONIZED} \<and> has_no_current)
          \<or> has_current \<noteq> (msv_age_seconds v \<noteq> None)
          \<or> (case msv_snapshot_digest v of None \<Rightarrow> False | Some d \<Rightarrow> \<not> valid_digest d))
        ''marketplace source view is invalid''
        (Inr (v\<lparr>msv_diagnostics := sort_diagnostics (msv_diagnostics v)\<rparr>)))"

definition rank :: "marketplace_source_view \<Rightarrow> int \<times> int \<times> string" where
  "rank v = (if msv_is_default v then 0 else 1, msv_display_order v, alias_value (msv_alias v))"

record trust_decision =
  td_kind :: trust_class
  td_evidence_digest :: object_digest
  td_reasons :: "string list"

definition mk_trust_decision :: "trust_class \<Rightarrow> object_digest \<Rightarrow> string list \<Rightarrow> trust_decision py" where
  "mk_trust_decision kind digest reasons =
     py_guard (\<not> valid_digest digest \<or> reasons = [] \<or> list_ex (\<lambda>r. \<not> one_line r) reasons) ''marketplace trust decision is invalid''
       (Inr \<lparr>td_kind = kind, td_evidence_digest = digest, td_reasons = sorted_set reasons\<rparr>)"

record marketplace_item =
  mi_artifact :: marketplace_artifact
  mi_source :: marketplace_source_view
  mi_trust :: trust_decision

definition mk_marketplace_item ::
  "marketplace_artifact \<Rightarrow> marketplace_source_view \<Rightarrow> trust_decision \<Rightarrow> marketplace_item py" where
  "mk_marketplace_item artifact source trust =
     py_guard (ma_source_alias artifact \<noteq> msv_alias source \<or> msv_source_id source \<noteq> Some (ma_source_id artifact))
       ''marketplace item source identity is inconsistent''
       (Inr \<lparr>mi_artifact = artifact, mi_source = source, mi_trust = trust\<rparr>)"

definition mi_coordinate :: "marketplace_item \<Rightarrow> artifact_coordinate" where
  "mi_coordinate item = ma_coordinate (mi_artifact item)"

definition item_key :: "marketplace_item \<Rightarrow> int \<times> int \<times> string \<times> string \<times> string \<times> string" where
  "item_key item =
     (let (default, order, alias) = rank (mi_source item); c = mi_coordinate item in
      (default, order, alias, identity_kind (coord_artifact c), identity_name (coord_artifact c), or_empty (coord_version c)))"

record marketplace_catalog =
  cat_sources :: "marketplace_source_view list"
  cat_items :: "marketplace_item list"
  cat_collections :: "marketplace_collection list"
  cat_diagnostics :: "diagnostic list"

text \<open>The key of an item in a catalog: its source and its identity, without the version.\<close>

definition qualified_key :: "artifact_coordinate \<Rightarrow> artifact_key" where
  "qualified_key c = artifact_key (coord_source c) (coord_artifact c)"

definition mk_marketplace_catalog ::
  "marketplace_source_view list \<Rightarrow> marketplace_item list \<Rightarrow> marketplace_collection list \<Rightarrow> diagnostic list
     \<Rightarrow> marketplace_catalog py" where
  "mk_marketplace_catalog raw_sources raw_items raw_collections diagnostics =
     (let sources = sort_key rank raw_sources in
      py_guard (\<not> distinct (map msv_alias sources)) ''marketplace catalog source aliases must be unique''
        (let by_alias = dict_by msv_alias sources; items = sort_key item_key raw_items in
         py_guard (\<not> distinct (map (qualified_key \<circ> mi_coordinate) items)
             \<or> list_ex (\<lambda>item. dict_get by_alias (msv_alias (mi_source item)) \<noteq> Some (mi_source item)) items)
           ''marketplace catalog items must be qualified and source-bound''
           (let collections = sort_key mc_coordinate raw_collections in
            py_guard (\<not> distinct (map mc_coordinate collections)
                \<or> list_ex (\<lambda>c. cc_source (mc_coordinate c) \<notin> set (dict_keys by_alias)) collections
                \<or> list_ex (\<lambda>c. list_ex (\<lambda>m. m \<notin> set (map mi_coordinate items)) (mc_members c)) collections)
              ''marketplace catalog collections must be source-bound''
              (Inr \<lparr>cat_sources = sources, cat_items = items, cat_collections = collections,
                    cat_diagnostics = sort_diagnostics diagnostics\<rparr>))))"

subsection \<open>Queries\<close>

record artifact_query =
  aq_identity :: artifact_identity
  aq_source :: "source_alias option"
  aq_version :: "string option"

definition mk_artifact_query :: "artifact_identity \<Rightarrow> source_alias option \<Rightarrow> string option \<Rightarrow> artifact_query py" where
  "mk_artifact_query identity source version =
     py_guard (identity_kind identity \<notin> set ARTIFACT_KINDS
         \<or> \<not> slug_match (identity_name identity)
         \<or> (case source of None \<Rightarrow> False | Some a \<Rightarrow> \<not> slug_match (alias_value a))
         \<or> (case version of None \<Rightarrow> False | Some v \<Rightarrow> is_err (parse_semver v None)))
       ''marketplace artifact query is invalid''
       (Inr \<lparr>aq_identity = identity, aq_source = source, aq_version = version\<rparr>)"

record marketplace_query =
  mq_text :: string
  mq_kinds :: "string list"
  mq_sources :: "source_alias list"
  mq_include_removed :: bool

definition mk_marketplace_query ::
  "string \<Rightarrow> string list \<Rightarrow> source_alias list \<Rightarrow> bool \<Rightarrow> marketplace_query py" where
  "mk_marketplace_query text kinds sources include_removed =
     py_guard (512 < length text \<or> list_ex (\<lambda>k. k \<notin> set ARTIFACT_KINDS) kinds
         \<or> list_ex (\<lambda>a. \<not> slug_match (alias_value a)) sources)
       ''marketplace search query is invalid''
       (Inr \<lparr>mq_text = text, mq_kinds = sorted_set kinds, mq_sources = sorted_set sources, mq_include_removed = include_removed\<rparr>)"

definition ARTIFACT_AMBIGUOUS :: diagnostic_code where "ARTIFACT_AMBIGUOUS = ''artifact-ambiguous''"
definition SOURCE_UNAVAILABLE :: diagnostic_code where "SOURCE_UNAVAILABLE = ''source-unavailable''"
definition SOURCE_NOT_SYNCHRONIZED :: diagnostic_code where "SOURCE_NOT_SYNCHRONIZED = ''source-not-synchronized''"

definition catalog_error ::
  "diagnostic_code \<Rightarrow> string \<Rightarrow> string list \<Rightarrow> (string \<times> string) list \<Rightarrow> diagnostic" where
  "catalog_error code message remediation details =
     mk_diagnostic code ERROR (redact_text message) None remediation details"

definition resolution_failure :: "marketplace_catalog \<Rightarrow> artifact_query \<Rightarrow> bool \<Rightarrow> diagnostic" where
  "resolution_failure catalog query offline =
     (let identity = identity_str (aq_identity query);
          scope = (case aq_source query of
              None \<Rightarrow> cat_sources catalog | Some a \<Rightarrow> [s \<leftarrow> cat_sources catalog. msv_alias s = a]) in
      if scope = [] then
        catalog_error SOURCE_UNAVAILABLE
          (case aq_source query of
             None \<Rightarrow> ''no source is configured to resolve '' @ identity @ '' from''
           | Some a \<Rightarrow> ''source '' @ alias_value a @ '' is not configured, so '' @ identity @ '' cannot be resolved'')
          [''aart source add --alias '' @ (case aq_source query of None \<Rightarrow> ''<alias>'' | Some a \<Rightarrow> alias_value a)
             @ '' --kind registry-git --location <url>'',
           ''aart marketplace uninstall, if you are removing what this source installed''] []
      else if list_all (\<lambda>s. msv_snapshot_digest s = None) scope then
        (let aliases = join '', '' (map (alias_value \<circ> msv_alias) scope); first = alias_value (msv_alias (hd scope)) in
         if offline then
           catalog_error SOURCE_NOT_SYNCHRONIZED (''nothing is cached for '' @ aliases @ '', and --offline forbids fetching it'')
             [''re-run without --offline'', ''aart source sync --alias '' @ first @ '', while connected''] []
         else
           catalog_error SOURCE_NOT_SYNCHRONIZED (''no snapshot has been synchronized from '' @ aliases)
             [''aart source sync --alias '' @ first] [])
      else
        catalog_error ARTIFACT_NOT_FOUND
          (''artifact '' @ identity
             @ (case aq_source query of None \<Rightarrow> '''' | Some a \<Rightarrow> '' in source '' @ alias_value a) @ '' was not found'')
          [''aart marketplace list'' @ (case aq_source query of None \<Rightarrow> '''' | Some a \<Rightarrow> '' --source '' @ alias_value a)] [])"

definition query_matches :: "artifact_query \<Rightarrow> marketplace_item \<Rightarrow> bool" where
  "query_matches query item \<longleftrightarrow>
     ma_lifecycle (mi_artifact item) = AVAILABLE
     \<and> coord_artifact (mi_coordinate item) = aq_identity query
     \<and> (aq_source query = None \<or> aq_source query = Some (coord_source (mi_coordinate item)))
     \<and> (aq_version query = None \<or> coord_version (mi_coordinate item) = aq_version query)"

definition resolve_artifact :: "marketplace_catalog \<Rightarrow> artifact_query \<Rightarrow> bool \<Rightarrow> marketplace_item result" where
  "resolve_artifact catalog query offline =
     (case [item \<leftarrow> cat_items catalog. query_matches query item] of
        [] \<Rightarrow> mk_err [resolution_failure catalog query offline]
      | [item] \<Rightarrow> Ok item
      | items \<Rightarrow>
          (let coordinates = sort (map (coordinate_str \<circ> mi_coordinate) items) in
           mk_err [catalog_error ARTIFACT_AMBIGUOUS
             (''artifact '' @ identity_str (aq_identity query) @ '' is ambiguous; valid coordinates: '' @ join '', '' coordinates)
             [] [(''coordinates'', join '','' coordinates)]]))"

text \<open>
  \<open>str.casefold\<close> up to U+00FF. The micro sign folds to U+03BC, a character that no text of the model has; it stands for
  itself here, which leaves every comparison of folded texts as it is.
\<close>

definition casefold_char :: "char \<Rightarrow> string" where
  "casefold_char c =
     (let n = (of_char c :: nat) in
      if n = 223 then ''ss''
      else if (65 \<le> n \<and> n \<le> 90) \<or> (192 \<le> n \<and> n \<le> 222 \<and> n \<noteq> 215) then [char_of (n + 32)]
      else [c])"

definition casefold :: "string \<Rightarrow> string" where
  "casefold s = concat (map casefold_char s)"

fun contains :: "string \<Rightarrow> string \<Rightarrow> bool" where
  "contains needle [] = (needle = [])"
| "contains needle (c # s) = (take (length needle) (c # s) = needle \<or> contains needle s)"

definition haystack :: "marketplace_item \<Rightarrow> string" where
  "haystack item =
     (let artifact = ma_artifact (mi_artifact item) in
      casefold (join [CHR 0x0A]
        ([coordinate_str (mi_coordinate item), identity_name (ia_identity artifact), ia_summary artifact,
          alias_value (msv_alias (mi_source item)),
          (case msv_source_id (mi_source item) of None \<Rightarrow> '''' | Some i \<Rightarrow> source_id_value i)] @ ia_collections artifact)))"

definition search_marketplace :: "marketplace_catalog \<Rightarrow> marketplace_query \<Rightarrow> marketplace_item list" where
  "search_marketplace catalog query =
     (let needle = strip (casefold (mq_text query)) in
      [item \<leftarrow> cat_items catalog.
         (mq_include_removed query \<or> ma_lifecycle (mi_artifact item) \<noteq> REMOVED)
         \<and> (mq_kinds query = [] \<or> identity_kind (ia_identity (ma_artifact (mi_artifact item))) \<in> set (mq_kinds query))
         \<and> (mq_sources query = [] \<or> msv_alias (mi_source item) \<in> set (mq_sources query))
         \<and> (needle = [] \<or> contains needle (haystack item))])"

definition list_marketplace :: "marketplace_catalog \<Rightarrow> bool \<Rightarrow> marketplace_item list" where
  "list_marketplace catalog include_removed =
     [item \<leftarrow> cat_items catalog. include_removed \<or> ma_lifecycle (mi_artifact item) = AVAILABLE]"

end
