(* ===== verification/GitLocation.thy ===== *)
theory GitLocation
  imports Catalog
begin

text \<open>
  Git locations (\<open>_valid_repository_path\<close>, \<open>git_location_parts\<close> and \<open>git_origin_key\<close> of
  \<open>agent_artifacts/configuration/model.py\<close>), with the part of the standard library they use: \<open>urllib.parse.urlsplit\<close>, the
  \<open>username\<close>, \<open>password\<close> and \<open>hostname\<close> of its result, and the textual check of a bracketed host in \<open>ipaddress\<close>.
\<close>

subsection \<open>Text helpers of the standard library\<close>

text \<open>\<open>s.rpartition(c)\<close>: the text before the last \<open>c\<close>, if there is one, and the text after it.\<close>

definition rpartition_at :: "char \<Rightarrow> string \<Rightarrow> string option \<times> string" where
  "rpartition_at c s =
     (case partition_at c (rev s) of (r, None) \<Rightarrow> (None, s) | (r, Some l) \<Rightarrow> (Some (rev l), rev r))"

text \<open>\<open>str.lower\<close> up to U+00FF.\<close>

definition lower_char :: "char \<Rightarrow> char" where
  "lower_char c =
     (let n = (of_char c :: nat) in
      if (65 \<le> n \<and> n \<le> 90) \<or> (192 \<le> n \<and> n \<le> 222 \<and> n \<noteq> 215) then char_of (n + 32) else c)"

definition lower_str :: "string \<Rightarrow> string" where
  "lower_str s = map lower_char s"

definition removesuffix :: "string \<Rightarrow> string \<Rightarrow> string" where
  "removesuffix suffix s =
     (if suffix \<noteq> [] \<and> drop (length s - length suffix) s = suffix then take (length s - length suffix) s else s)"

subsection \<open>Bracketed hosts\<close>

definition ipv4_octet :: "string \<Rightarrow> bool" where
  "ipv4_octet s \<longleftrightarrow> s \<noteq> [] \<and> list_all is_digit s \<and> length s \<le> 3 \<and> \<not> (s \<noteq> ''0'' \<and> hd s = CHR ''0'') \<and> nat_of_digits s \<le> 255"

definition ipv4_address :: "string \<Rightarrow> bool" where
  "ipv4_address s \<longleftrightarrow>
     CHR ''/'' \<notin> set s \<and> (let octets = split_on CHR ''.'' s in length octets = 4 \<and> list_all ipv4_octet octets)"

definition ipv6_hextet :: "string \<Rightarrow> bool" where
  "ipv6_hextet s \<longleftrightarrow> s \<noteq> [] \<and> list_all is_hex s \<and> length s \<le> 4"

text \<open>The parts around the one \<open>::\<close>, which may also take up an empty end part.\<close>

definition ipv6_parts :: "string list \<Rightarrow> bool" where
  "ipv6_parts parts \<longleftrightarrow>
     length parts \<le> 9 \<and>
     (case [i \<leftarrow> [1..<length parts - 1]. parts ! i = []] of
        [] \<Rightarrow> length parts = 8 \<and> list_all ipv6_hextet parts
      | [skip] \<Rightarrow>
          (let high = (if hd parts = [] then skip - 1 else skip);
               low = (if last parts = [] then length parts - skip - 2 else length parts - skip - 1) in
           (hd parts = [] \<longrightarrow> high = 0) \<and> (last parts = [] \<longrightarrow> low = 0) \<and> high + low \<le> 7
           \<and> list_all ipv6_hextet (take high parts) \<and> list_all ipv6_hextet (drop (length parts - low) parts))
      | _ \<Rightarrow> False)"

text \<open>
  \<open>IPv6Address(s)\<close> succeeds. An IPv4 suffix stands for two hexadecimal parts; their value plays no role.
\<close>

definition ipv6_address :: "string \<Rightarrow> bool" where
  "ipv6_address s \<longleftrightarrow>
     CHR ''/'' \<notin> set s \<and>
     (case partition_at CHR ''%'' s of (address, zone) \<Rightarrow>
        (case zone of None \<Rightarrow> True | Some z \<Rightarrow> z \<noteq> [] \<and> CHR ''%'' \<notin> set z) \<and>
        (let parts = split_on CHR '':'' address in
         3 \<le> length parts \<and>
         (if CHR ''.'' \<in> set (last parts)
          then ipv4_address (last parts) \<and> ipv6_parts (butlast parts @ [''0'', ''0''])
          else ipv6_parts parts)))"

text \<open>\<open>\Av[a-fA-F0-9]+\..+\Z\<close> on a text without line ends\<close>

definition ipv_future :: "string \<Rightarrow> bool" where
  "ipv_future s \<longleftrightarrow>
     (case dropWhile is_hex (tl s) of
        c # r \<Rightarrow> takeWhile is_hex (tl s) \<noteq> [] \<and> c = CHR ''.'' \<and> r \<noteq> []
      | [] \<Rightarrow> False)"

definition bracketed_host :: "string \<Rightarrow> bool" where
  "bracketed_host host = (if take 1 host = ''v'' then ipv_future host else ipv6_address host)"

definition bracketed_netloc :: "string \<Rightarrow> bool" where
  "bracketed_netloc netloc =
     (let hostinfo = snd (rpartition_at CHR ''@'' netloc) in
      case partition_at CHR ''['' hostinfo of
        (before, Some bracketed) \<Rightarrow>
          before = [] \<and>
          (case partition_at CHR '']'' bracketed of (host, port) \<Rightarrow>
             (case port of None \<Rightarrow> True | Some p \<Rightarrow> p = [] \<or> hd p = CHR '':'') \<and> bracketed_host host)
      | (_, None) \<Rightarrow> bracketed_host (fst (partition_at CHR '':'' hostinfo)))"

subsection \<open>Splitting a URL\<close>

record split_result =
  sr_scheme :: string
  sr_netloc :: string
  sr_path :: string
  sr_query :: string
  sr_fragment :: string

definition scheme_char :: "char \<Rightarrow> bool" where
  "scheme_char c \<longleftrightarrow> is_letter c \<or> is_digit c \<or> c \<in> {CHR ''+'', CHR ''-'', CHR ''.''}"

definition clean_url :: "string \<Rightarrow> string" where
  "clean_url url = [c \<leftarrow> dropWhile (\<lambda>c. (of_char c :: nat) \<le> 32) url. c \<notin> {CHR 0x09, CHR 0x0D, CHR 0x0A}]"

definition split_scheme :: "string \<Rightarrow> string \<times> string" where
  "split_scheme url =
     (case partition_at CHR '':'' url of
        (scheme, Some rest) \<Rightarrow>
          if scheme \<noteq> [] \<and> is_letter (hd scheme) \<and> list_all scheme_char scheme then (lower_str scheme, rest) else ([], url)
      | (_, None) \<Rightarrow> ([], url))"

definition netloc_char :: "char \<Rightarrow> bool" where
  "netloc_char c \<longleftrightarrow> c \<notin> {CHR ''/'', CHR ''?'', CHR ''#''}"

definition split_netloc :: "string \<Rightarrow> string \<times> string" where
  "split_netloc url =
     (if take 2 url = ''//'' then (takeWhile netloc_char (drop 2 url), dropWhile netloc_char (drop 2 url)) else ([], url))"

definition split_tail :: "char \<Rightarrow> string \<Rightarrow> string \<times> string" where
  "split_tail c s = (case partition_at c s of (before, after) \<Rightarrow> (before, or_empty after))"

text \<open>
  \<open>urlsplit(url)\<close>; \<open>None\<close> is its \<open>ValueError\<close>. The NFKC check of the network location refuses nothing up to U+00FF: no such
  character normalises to one of \<open>/?#@:\<close>.
\<close>

definition urlsplit :: "string \<Rightarrow> split_result option" where
  "urlsplit url =
     (let (scheme, rest) = split_scheme (clean_url url);
          (netloc, rest) = split_netloc rest in
      if (CHR ''['' \<in> set netloc) \<noteq> (CHR '']'' \<in> set netloc) then None
      else if CHR ''['' \<in> set netloc \<and> \<not> bracketed_netloc netloc then None
      else
        (let (rest, fragment) = split_tail CHR ''#'' rest;
             (path, query) = split_tail CHR ''?'' rest in
         Some \<lparr>sr_scheme = scheme, sr_netloc = netloc, sr_path = path, sr_query = query, sr_fragment = fragment\<rparr>))"

definition url_username :: "split_result \<Rightarrow> string option" where
  "url_username r = map_option (\<lambda>u. fst (partition_at CHR '':'' u)) (fst (rpartition_at CHR ''@'' (sr_netloc r)))"

definition url_password :: "split_result \<Rightarrow> string option" where
  "url_password r =
     (case fst (rpartition_at CHR ''@'' (sr_netloc r)) of None \<Rightarrow> None | Some u \<Rightarrow> snd (partition_at CHR '':'' u))"

definition url_hostname :: "split_result \<Rightarrow> string option" where
  "url_hostname r =
     (let hostinfo = snd (rpartition_at CHR ''@'' (sr_netloc r));
          host = (case partition_at CHR ''['' hostinfo of
                    (_, Some bracketed) \<Rightarrow> fst (partition_at CHR '']'' bracketed)
                  | (_, None) \<Rightarrow> fst (partition_at CHR '':'' hostinfo)) in
      if host = [] then None
      else (case partition_at CHR ''%'' host of
              (name, zone) \<Rightarrow> Some (lower_str name @ (case zone of None \<Rightarrow> [] | Some z \<Rightarrow> CHR ''%'' # z))))"

subsection \<open>Git locations\<close>

definition valid_repository_path :: "string \<Rightarrow> string option" where
  "valid_repository_path raw =
     (let path = removesuffix ''.git'' (dropWhile (\<lambda>c. c = CHR ''/'') raw) in
      if path = [] \<or> last path = CHR ''/''
         \<or> list_ex (\<lambda>part. part \<in> {[], ''.'', ''..''}) (split_on CHR ''/'' path)
         \<or> list_ex (\<lambda>c. c = CHR 0x5C \<or> c = CHR ''%'') path
         \<or> list_ex (\<lambda>c. is_space c \<or> (of_char c :: nat) < 32) path
      then None else Some path)"

definition host_char :: "char \<Rightarrow> bool" where
  "host_char c \<longleftrightarrow> is_letter c \<or> is_digit c \<or> c = CHR ''.'' \<or> c = CHR ''-''"

definition scp_path_char :: "char \<Rightarrow> bool" where
  "scp_path_char c \<longleftrightarrow> \<not> is_space c \<and> c \<noteq> CHR ''?'' \<and> c \<noteq> CHR ''#''"

text \<open>\<open>_SCP_GIT_RE\<close>: the host and the path.\<close>

definition scp_match :: "string \<Rightarrow> (string \<times> string) option" where
  "scp_match location =
     (if take 4 location = ''git@'' then
        (case partition_at CHR '':'' (drop 4 location) of
           (host, Some path) \<Rightarrow>
             if host \<noteq> [] \<and> list_all host_char host \<and> path \<noteq> [] \<and> list_all scp_path_char path then Some (host, path) else None
         | (_, None) \<Rightarrow> None)
      else None)"

definition git_location_parts :: "string \<Rightarrow> (string \<times> string) option" where
  "git_location_parts location =
     (case scp_match location of
        Some (host, path) \<Rightarrow> map_option (\<lambda>p. (casefold host, p)) (valid_repository_path path)
      | None \<Rightarrow>
          (case urlsplit location of
             None \<Rightarrow> None
           | Some parsed \<Rightarrow>
               (case url_hostname parsed of
                  None \<Rightarrow> None
                | Some hostname \<Rightarrow>
                    if sr_scheme parsed \<notin> {''https'', ''ssh''} then None
                    else if url_password parsed \<noteq> None \<or> sr_query parsed \<noteq> [] \<or> sr_fragment parsed \<noteq> [] then None
                    else if sr_scheme parsed = ''https'' \<and> url_username parsed \<noteq> None then None
                    else if sr_scheme parsed = ''ssh'' \<and> url_username parsed \<notin> {None, Some ''git''} then None
                    else map_option (\<lambda>p. (casefold hostname, p)) (valid_repository_path (sr_path parsed)))))"

definition git_origin_key :: "source_kind \<Rightarrow> string \<Rightarrow> string list" where
  "git_origin_key kind location =
     (case git_location_parts location of
        Some (host, path) \<Rightarrow> [source_kind_value kind, host, path]
      | None \<Rightarrow> [source_kind_value kind, location])"


subsection \<open>One origin per repository\<close>

lemma host_char_simps:
  assumes "host_char c"
  shows "(of_char c :: nat) > 32" "c \<noteq> CHR ''/''" "c \<noteq> CHR ''?''" "c \<noteq> CHR ''#''" "c \<noteq> CHR ''@''" "c \<noteq> CHR '':''"
    "c \<noteq> CHR ''[''" "c \<noteq> CHR '']''" "c \<noteq> CHR ''%''" "c \<notin> {CHR 0x09, CHR 0x0D, CHR 0x0A}"
    "casefold_char (lower_char c) = casefold_char c"
proof -
  have n: "(of_char c :: nat) \<in> {45, 46} \<union> {48..57} \<union> {65..90} \<union> {97..122}"
    using assms unfolding host_char_def is_letter_def is_upper_def is_lower_def is_digit_def between_def less_eq_char_def
    by auto
  then show "(of_char c :: nat) > 32" by auto
  from n show "c \<noteq> CHR ''/''" "c \<noteq> CHR ''?''" "c \<noteq> CHR ''#''" "c \<noteq> CHR ''@''" "c \<noteq> CHR '':''"
    "c \<noteq> CHR ''[''" "c \<noteq> CHR '']''" "c \<noteq> CHR ''%''" "c \<notin> {CHR 0x09, CHR 0x0D, CHR 0x0A}"
    by auto
  from n show "casefold_char (lower_char c) = casefold_char c"
    by (auto simp: casefold_char_def lower_char_def Let_def)
qed

lemma host_not_in:
  assumes "list_all host_char host" "\<not> host_char x"
  shows "x \<notin> set host"
  using assms by (auto simp: list_all_iff)

lemma not_host_char:
  "\<not> host_char CHR ''/''" "\<not> host_char CHR ''?''" "\<not> host_char CHR ''#''" "\<not> host_char CHR ''@''" "\<not> host_char CHR '':''"
  "\<not> host_char CHR ''[''" "\<not> host_char CHR '']''" "\<not> host_char CHR ''%''"
  using host_char_simps by blast+

lemmas host_absent = not_host_char[THEN host_not_in[rotated]]

lemma casefold_lower: "list_all host_char s \<Longrightarrow> casefold (lower_str s) = casefold s"
  by (induction s) (auto simp: casefold_def lower_str_def host_char_simps)

lemma rpartition_absent: "c \<notin> set s \<Longrightarrow> rpartition_at c s = (None, s)"
  by (simp add: rpartition_at_def partition_at_absent)

lemma rpartition_present: "c \<notin> set r \<Longrightarrow> rpartition_at c (l @ c # r) = (Some l, r)"
  by (simp add: rpartition_at_def partition_at_present)

lemma split_netloc_text:
  assumes "list_all netloc_char netloc"
  shows "split_netloc (''//'' @ netloc @ CHR ''/'' # path) = (netloc, CHR ''/'' # path)"
  using assms by (simp add: split_netloc_def netloc_char_def takeWhile_tail list_all_iff takeWhile_append2 dropWhile_append2)

lemma scheme_chars: "list_all scheme_char ''https''" "list_all scheme_char ''ssh''" "lower_str ''https'' = ''https''" "lower_str ''ssh'' = ''ssh''"
  by code_simp+

lemma split_scheme_text:
  assumes "scheme \<in> {''https'', ''ssh''}"
  shows "split_scheme (scheme @ CHR '':'' # rest) = (scheme, rest)"
proof -
  have "CHR '':'' \<notin> set scheme" "scheme \<noteq> []" "is_letter (hd scheme)" "list_all scheme_char scheme" "lower_str scheme = scheme"
    using assms scheme_chars by (auto simp: is_letter_def is_lower_def between_def less_eq_char_def)
  then show ?thesis by (simp add: split_scheme_def partition_at_present)
qed

text \<open>The text of a URL: its scheme, its network location and its path.\<close>

definition url_text :: "string \<Rightarrow> string \<Rightarrow> string \<Rightarrow> string" where
  "url_text scheme netloc path = scheme @ ''://'' @ netloc @ ''/'' @ path"

definition line_free :: "string \<Rightarrow> bool" where
  "line_free s = list_all (\<lambda>c. c \<notin> {CHR 0x09, CHR 0x0D, CHR 0x0A}) s"

lemma line_free_simps [simp]:
  "line_free []" "line_free (c # s) \<longleftrightarrow> c \<noteq> CHR 0x09 \<and> c \<noteq> CHR 0x0D \<and> c \<noteq> CHR 0x0A \<and> line_free s"
  "line_free (s @ t) \<longleftrightarrow> line_free s \<and> line_free t"
  by (auto simp: line_free_def)

lemma clean_url_text:
  assumes "(of_char (hd s) :: nat) > 32" "line_free s"
  shows "clean_url s = s"
  using assms by (cases s) (auto simp: clean_url_def line_free_def list_all_iff filter_id_conv)

lemma urlsplit_text:
  assumes "scheme \<in> {''https'', ''ssh''}" "list_all netloc_char netloc" "line_free netloc" "line_free path"
    "CHR ''['' \<notin> set netloc" "CHR '']'' \<notin> set netloc" "CHR ''?'' \<notin> set path" "CHR ''#'' \<notin> set path"
  shows "urlsplit (url_text scheme netloc path) =
    Some \<lparr>sr_scheme = scheme, sr_netloc = netloc, sr_path = CHR ''/'' # path, sr_query = [], sr_fragment = []\<rparr>"
proof -
  have "clean_url (url_text scheme netloc path) = scheme @ CHR '':'' # (''//'' @ netloc @ CHR ''/'' # path)"
    using assms(1,3,4) clean_url_text[of "url_text scheme netloc path"] by (auto simp: url_text_def)
  then show ?thesis
    using assms by (simp add: urlsplit_def split_scheme_text split_netloc_text split_tail_def partition_at_absent or_empty_def
        del: append_Cons append.simps)
qed


lemma valid_repository_path_slash: "valid_repository_path (CHR ''/'' # path) = valid_repository_path path"
  by (simp add: valid_repository_path_def)

lemma scp_path_simps:
  assumes "list_all scp_path_char path"
  shows "CHR ''?'' \<notin> set path" "CHR ''#'' \<notin> set path" "line_free path"
proof -
  have "is_space CHR 0x09" "is_space CHR 0x0D" "is_space CHR 0x0A" by code_simp+
  with assms show "CHR ''?'' \<notin> set path" "CHR ''#'' \<notin> set path" "line_free path"
    by (auto simp: list_all_iff scp_path_char_def line_free_def)
qed

lemma host_netloc:
  assumes "list_all host_char host"
  shows "list_all netloc_char host" "line_free host"
  using assms host_char_simps by (auto simp: list_all_iff netloc_char_def line_free_def)

lemma scp_match_text:
  assumes "host \<noteq> []" "list_all host_char host" "list_all scp_path_char path"
  shows "scp_match (''git@'' @ host @ '':'' @ path) = (if path = [] then None else Some (host, path))"
  using assms by (simp add: scp_match_def partition_at_present host_absent)

lemma scp_match_url: "scheme \<in> {''https'', ''ssh''} \<Longrightarrow> scp_match (url_text scheme netloc path) = None"
  by (auto simp: scp_match_def url_text_def)

lemma hostname_text:
  assumes "host \<noteq> []" "list_all host_char host"
    "sr_netloc r \<in> {host, u @ CHR ''@'' # host}"
  shows "url_hostname r = Some (lower_str host)"
proof -
  have "snd (rpartition_at CHR ''@'' (sr_netloc r)) = host"
    using assms(3) host_absent[OF assms(2)] by (auto simp: rpartition_absent rpartition_present)
  with assms(1) host_absent[OF assms(2)] show ?thesis
    by (simp add: url_hostname_def Let_def partition_at_absent)
qed

lemma git_location_url:
  assumes "scheme \<in> {''https'', ''ssh''}" "host \<noteq> []" "list_all host_char host" "list_all scp_path_char path"
  shows "git_location_parts (url_text scheme host path) = map_option (Pair (casefold host)) (valid_repository_path path)"
proof -
  have "urlsplit (url_text scheme host path) =
      Some \<lparr>sr_scheme = scheme, sr_netloc = host, sr_path = CHR ''/'' # path, sr_query = [], sr_fragment = []\<rparr>"
    using assms host_netloc[OF assms(3)] scp_path_simps[OF assms(4)] host_absent[OF assms(3)] by (intro urlsplit_text) auto
  with assms host_absent[OF assms(3)] show ?thesis
    by (auto simp: git_location_parts_def scp_match_url hostname_text[where u = "[]"] url_password_def url_username_def
        rpartition_absent valid_repository_path_slash casefold_lower)
qed

lemma git_location_user:
  assumes "scheme \<in> {''https'', ''ssh''}" "host \<noteq> []" "list_all host_char host" "list_all scp_path_char path"
    "list_all netloc_char user" "line_free user" "CHR ''['' \<notin> set user" "CHR '']'' \<notin> set user"
  shows "git_location_parts (url_text scheme (user @ CHR ''@'' # host) path) =
    (if scheme = ''ssh'' \<and> user = ''git'' then map_option (Pair (casefold host)) (valid_repository_path path) else None)"
proof -
  let ?r = "\<lparr>sr_scheme = scheme, sr_netloc = user @ CHR ''@'' # host, sr_path = CHR ''/'' # path, sr_query = [], sr_fragment = []\<rparr>"
  have url: "urlsplit (url_text scheme (user @ CHR ''@'' # host) path) = Some ?r"
    using assms host_netloc[OF assms(3)] scp_path_simps[OF assms(4)] host_absent[OF assms(3)]
    by (intro urlsplit_text) (auto simp: line_free_def netloc_char_def)
  have host: "url_hostname ?r = Some (lower_str host)"
    using assms(2,3) by (intro hostname_text[where u = user]) auto
  obtain name password where user: "partition_at CHR '':'' user = (name, password)" by fastforce
  have "user = ''git'' \<longleftrightarrow> password = None \<and> name = ''git''"
    using user partition_at_absent[of "CHR '':''" "''git''"] by (cases password) (auto simp: partition_at_None)
  moreover have "url_username ?r = Some name" "url_password ?r = password"
    using host_absent[OF assms(3)] user by (simp_all add: url_username_def url_password_def rpartition_present)
  ultimately show ?thesis using assms(1,3) url host
    by (auto simp: git_location_parts_def scp_match_url valid_repository_path_slash casefold_lower)
qed

lemma git_location_scp:
  assumes "host \<noteq> []" "list_all host_char host" "list_all scp_path_char path"
  shows "git_location_parts (''git@'' @ host @ '':'' @ path) = map_option (Pair (casefold host)) (valid_repository_path path)"
proof (cases "path = []")
  case False
  then show ?thesis using scp_match_text[OF assms] by (simp add: git_location_parts_def)
next
  case True
  let ?l = "''git@'' @ host @ '':''"
  have "\<not> list_all scheme_char (''git@'' @ host)"
    by (simp add: scheme_char_def is_letter_def is_upper_def is_lower_def is_digit_def between_def less_eq_char_def)
  then have "split_scheme ?l = ([], ?l)"
    using host_absent[OF assms(2)] partition_at_present[of "CHR '':''" "''git@'' @ host" "[]"] by (simp add: split_scheme_def)
  moreover have "clean_url ?l = ?l" using host_netloc[OF assms(2)] by (intro clean_url_text) auto
  ultimately have "sr_scheme r = []" if "urlsplit ?l = Some r" for r
    using that by (auto simp: urlsplit_def split: prod.splits if_splits)
  then have "git_location_parts ?l = None"
    using assms scp_match_text[of host "[]"] by (auto simp: git_location_parts_def split: option.splits)
  then show ?thesis using True by (simp add: valid_repository_path_def removesuffix_def)
qed

text \<open>
  C35. Every spelling of a repository denotes one origin. For a host name and a repository path, the HTTPS
  URL, the SSH URL with or without the user \<open>git\<close> and the SCP form give the same parts: the case-folded host and the validated
  path. A URL that carries any other user information, and so any password, is refused, so no credential reaches the parts.
\<close>

theorem git_location_parts_one_origin:
  assumes "host \<noteq> []" "list_all host_char host" "list_all scp_path_char path"
    "list_all netloc_char user" "line_free user" "CHR ''['' \<notin> set user" "CHR '']'' \<notin> set user"
  defines "origin \<equiv> map_option (Pair (casefold host)) (valid_repository_path path)"
  shows "git_location_parts (url_text ''https'' host path) = origin
    \<and> git_location_parts (url_text ''ssh'' host path) = origin
    \<and> git_location_parts (''git@'' @ host @ '':'' @ path) = origin
    \<and> git_location_parts (url_text ''ssh'' (user @ ''@'' @ host) path) = (if user = ''git'' then origin else None)
    \<and> git_location_parts (url_text ''https'' (user @ ''@'' @ host) path) = None"
  using assms git_location_scp[OF assms(1-3)] by (simp add: git_location_url git_location_user)

theorem git_location_parts_one_origin_witness:
  "git_location_parts (url_text ''https'' ''GitHub.com'' ''acme/tools.git'') = Some (''github.com'', ''acme/tools'')
   \<and> git_location_parts (url_text ''ssh'' ''token:x@GitHub.com'' ''acme/tools.git'') = None"
proof -
  have "list_all host_char ''GitHub.com''" "list_all scp_path_char ''acme/tools.git''" "list_all netloc_char ''token:x''"
    "line_free ''token:x''" "map_option (Pair (casefold ''GitHub.com'')) (valid_repository_path ''acme/tools.git'')
      = Some (''github.com'', ''acme/tools'')"
    by code_simp+
  with git_location_parts_one_origin[of "''GitHub.com''" "''acme/tools.git''" "''token:x''"] show ?thesis by simp
qed

end
