(* ===== verification/InstallState.thy ===== *)
theory InstallState
  imports GitLocation
begin

text \<open>
  The installation manifest (\<open>agent_artifacts/install_state/model.py\<close>): evidence of what was installed, the proof of each effect,
  installation records and the manifest with its ownership invariant.
\<close>

definition stripped_line :: "string \<Rightarrow> bool" where
  "stripped_line s \<longleftrightarrow> s \<noteq> [] \<and> s = strip s \<and> CHR 0x0D \<notin> set s \<and> CHR 0x0A \<notin> set s"

definition identity_evidence_matches :: "json_value \<Rightarrow> object_digest \<Rightarrow> bool" where
  "identity_evidence_matches evidence digest \<longleftrightarrow> json_digest evidence = digest"

record source_evidence =
  sev_alias :: source_alias
  sev_declared_id :: source_id
  sev_kind :: source_kind
  sev_origin :: string
  sev_resolved_commit :: string
  sev_subscription_ref :: "string option"

definition ends_with :: "string \<Rightarrow> string \<Rightarrow> bool" where
  "ends_with suffix s \<longleftrightarrow> length suffix \<le> length s \<and> drop (length s - length suffix) s = suffix"

definition safe_git_ref :: "string \<Rightarrow> bool" where
  "safe_git_ref value \<longleftrightarrow>
     stripped_line value \<and> take 1 value \<noteq> ''-'' \<and> value \<notin> {''.'', ''..''}
     \<and> \<not> list_ex (\<lambda>suffix. ends_with suffix value) [''.'', ''/'', ''.lock'']
     \<and> \<not> list_ex (\<lambda>part. part \<in> {[], ''.'', ''..''}) (split_on CHR ''/'' value)
     \<and> \<not> list_ex (\<lambda>token. contains token value)
          [''..'', [CHR ''@'', CHR 0x7B], [CHR 0x5C], '' '', ''~'', ''^'', '':'', ''?'', ''*'', ''['']"

definition safe_git_identity :: "string \<Rightarrow> bool" where
  "safe_git_identity value \<longleftrightarrow>
     stripped_line value \<and> \<not> contains ''://'' value \<and> CHR ''@'' \<notin> set value \<and>
     (let parts = split_on CHR ''/'' value in
      2 \<le> length parts \<and> CHR ''.'' \<in> set (hd parts)
      \<and> list_all (\<lambda>part. part \<notin> {[], ''.'', ''..''}) parts
      \<and> \<not> list_ex (\<lambda>c. c \<in> set value) [CHR 0x5C, CHR ''?'', CHR ''#'', CHR ''%''])"

text \<open>\<open>_COMMIT_RE\<close> and \<open>_LOCAL_REVISION_RE\<close>\<close>

definition commit_re :: "string \<Rightarrow> bool" where
  "commit_re s \<longleftrightarrow> length s = 40 \<and> list_all is_lower_hex s"

definition local_revision_re :: "string \<Rightarrow> bool" where
  "local_revision_re s \<longleftrightarrow> s = ''local'' \<or> (take 6 s = ''local:'' \<and> length s = 70 \<and> list_all is_lower_hex (drop 6 s))"

definition mk_source_evidence :: "source_evidence \<Rightarrow> source_evidence py" where
  "mk_source_evidence e =
     py_guard (\<not> slug_match (alias_value (sev_alias e)) \<or> \<not> slug_match (source_id_value (sev_declared_id e))
         \<or> \<not> stripped_line (sev_origin e))
       ''installation source evidence is invalid''
       (if sev_kind e = SOURCE_LOCAL then
          py_guard (\<not> normalized_absolute (sev_origin e) \<or> \<not> local_revision_re (sev_resolved_commit e) \<or> sev_subscription_ref e \<noteq> None)
            ''local source origin must be a normalized absolute path'' (Inr e)
        else
          py_guard (\<not> commit_re (sev_resolved_commit e)
              \<or> (git_location_parts (sev_origin e) = None \<and> \<not> safe_git_identity (sev_origin e))
              \<or> \<not> safe_git_ref (or_empty (sev_subscription_ref e)))
            ''Git source origin/ref must be a credential-free Git location and safe subscription'' (Inr e))"

record artifact_evidence =
  aev_identity :: artifact_identity
  aev_version :: semver
  aev_manifest_digest :: object_digest
  aev_payload_digest :: object_digest
  aev_object_digest :: object_digest

definition mk_artifact_evidence :: "artifact_evidence \<Rightarrow> artifact_evidence py" where
  "mk_artifact_evidence e =
     py_guard (identity_kind (aev_identity e) \<notin> set ARTIFACT_KINDS \<or> \<not> slug_match (identity_name (aev_identity e))
         \<or> \<not> list_all valid_digest [aev_manifest_digest e, aev_payload_digest e, aev_object_digest e])
       ''installation artifact evidence is invalid'' (Inr e)"

definition EFFECT_KINDS :: "string list" where
  "EFFECT_KINDS = [''copy-tree'', ''write-file'', ''merge-json'', ''managed-block'', ''symlink-file'', ''symlink-tree'']"

text \<open>An absent identity evidence is \<open>None\<close>, which is also JSON's null.\<close>

record effect_proof =
  ep_kind :: string
  ep_destination :: string
  ep_actual_mode :: string
  ep_installed_digest :: object_digest
  ep_source_path :: "string option"
  ep_json_path :: "string option"
  ep_merge_mode :: "string option"
  ep_identity_digest :: "object_digest option"
  ep_identity_evidence :: json_value
  ep_link_target :: "string option"
  ep_link_semantics :: "string option"
  ep_created_destination :: bool
  ep_overwrote :: bool
  ep_restores_from :: "string option"

definition is_link :: "effect_proof \<Rightarrow> bool" where
  "is_link e \<longleftrightarrow> ep_kind e = ''symlink-file'' \<or> ep_kind e = ''symlink-tree''"

definition merge_check :: "effect_proof \<Rightarrow> unit py" where
  "merge_check e =
     (if ep_kind e = ''merge-json'' then
        py_guard (\<not> stripped_line (or_empty (ep_json_path e))
            \<or> ep_merge_mode e \<notin> {Some ''key'', Some ''list''}
            \<or> (case ep_identity_digest e of
                 None \<Rightarrow> True
               | Some d \<Rightarrow> \<not> valid_digest d
                   \<or> (ep_identity_evidence e \<noteq> JNull \<and> \<not> identity_evidence_matches (ep_identity_evidence e) d))
            \<or> ep_source_path e \<noteq> None \<or> ep_actual_mode e \<noteq> ''copy'')
          ''merge-json effect proof is incomplete'' (Inr ())
      else
        py_guard (ep_json_path e \<noteq> None \<or> ep_merge_mode e \<noteq> None \<or> ep_identity_digest e \<noteq> None \<or> ep_identity_evidence e \<noteq> JNull)
          ''non-merge effect proof cannot contain merge fields''
          (py_guard (ep_kind e \<in> {''copy-tree'', ''write-file'', ''symlink-file'', ''symlink-tree''} \<and> ep_source_path e = None)
             ''file/tree effect proof requires a source path'' (Inr ())))"

definition link_check :: "effect_proof \<Rightarrow> unit py" where
  "link_check e =
     (if is_link e then
        py_guard (ep_actual_mode e \<noteq> ''symlink''
            \<or> (case ep_link_target e of
                 None \<Rightarrow> True
               | Some t \<Rightarrow> \<not> stripped_line t \<or> \<not> normalized_absolute t \<or> t = ''/'')
            \<or> ep_link_semantics e \<notin> {Some ''immutable-object'', Some ''mutable-local''})
          ''symlink effect must record an absolute target and semantics'' (Inr ())
      else
        py_guard (ep_link_target e \<noteq> None \<or> ep_link_semantics e \<noteq> None)
          ''non-symlink effect proof cannot contain link fields'' (Inr ()))"

definition mk_effect_proof :: "effect_proof \<Rightarrow> effect_proof py" where
  "mk_effect_proof e =
     py_guard (ep_kind e \<notin> set EFFECT_KINDS \<or> \<not> stripped_line (ep_destination e)
         \<or> ep_actual_mode e \<notin> {''copy'', ''symlink''} \<or> \<not> valid_digest (ep_installed_digest e))
       ''installation effect proof is invalid''
       (py_guard (case ep_restores_from e of
             None \<Rightarrow> False
           | Some r \<Rightarrow> ep_kind e \<noteq> ''write-file'' \<or> \<not> stripped_line r \<or> r = ep_destination e)
          ''effect restore source must be a distinct write-file sibling''
          (py_guard (case ep_source_path e of None \<Rightarrow> False | Some p \<Rightarrow> \<not> is_ok (parse_relative_path p None))
             ''effect source path must be a safe relative path''
             (py_check (merge_check e)
                (py_check (link_check e)
                   (py_guard (\<not> is_link e \<and> ep_actual_mode e \<noteq> ''copy'') ''non-symlink effects must record copy mode'' (Inr e))))))"

definition locator :: "effect_proof \<Rightarrow> string \<times> string \<times> string" where
  "locator e =
     (ep_destination e, or_empty (ep_json_path e), (case ep_identity_digest e of None \<Rightarrow> '''' | Some d \<Rightarrow> digest_str d))"

record installation_record =
  ir_coordinate :: artifact_coordinate
  ir_source :: source_evidence
  ir_artifact :: artifact_evidence
  ir_profile :: string
  ir_profile_version :: int
  ir_scope :: string
  ir_requested_mode :: string
  ir_effects :: "effect_proof list"
  ir_memory_mode :: "string option"
  ir_setup_state_ref :: "string option"

text \<open>\<open>_SETUP_REF_RE\<close>\<close>

definition setup_ref_match :: "string \<Rightarrow> bool" where
  "setup_ref_match s \<longleftrightarrow> s \<noteq> [] \<and> length s \<le> 256 \<and> lower_or_digit (hd s)
     \<and> list_all (\<lambda>c. lower_or_digit c \<or> c = CHR ''.'' \<or> c = CHR ''_'' \<or> c = CHR ''-'') (tl s)"

fun check_destinations :: "string \<Rightarrow> effect_proof list \<Rightarrow> unit py" where
  "check_destinations scope [] = Inr ()"
| "check_destinations scope (e # es) =
     (if scope = ''project'' then
        py_guard (\<not> is_ok (parse_relative_path (ep_destination e) None)) ''project effect destination must be a safe relative path''
          (check_destinations scope es)
      else
        py_guard (\<not> normalized_absolute (ep_destination e)) ''user effect destination must be a normalized absolute path''
          (check_destinations scope es))"

definition mk_installation_record :: "installation_record \<Rightarrow> installation_record py" where
  "mk_installation_record r =
     (let is_memory = (identity_kind (aev_identity (ir_artifact r)) = ''memory'') in
      py_guard (coord_version (ir_coordinate r) \<noteq> None
          \<or> coord_source (ir_coordinate r) \<noteq> sev_alias (ir_source r)
          \<or> coord_artifact (ir_coordinate r) \<noteq> aev_identity (ir_artifact r)
          \<or> \<not> slug_match (ir_profile r)
          \<or> ir_profile_version r < 1 \<or> 2 ^ 63 - 1 < ir_profile_version r
          \<or> ir_scope r \<notin> {''project'', ''user''} \<or> ir_requested_mode r \<notin> {''copy'', ''symlink''}
          \<or> ir_effects r = []
          \<or> (is_memory \<and> ir_memory_mode r \<notin> {None, Some ''replace'', Some ''prepend'', Some ''append'', Some ''skip''})
          \<or> (\<not> is_memory \<and> ir_memory_mode r \<noteq> None)
          \<or> (case ir_setup_state_ref r of None \<Rightarrow> False | Some x \<Rightarrow> \<not> setup_ref_match x))
        ''installation record is invalid''
        (py_guard (\<not> distinct (map locator (ir_effects r))) ''installation effect locators must be unique''
           (py_check (check_destinations (ir_scope r) (ir_effects r)) (Inr r))))"

definition ir_key :: "installation_record \<Rightarrow> string \<times> string \<times> string" where
  "ir_key r = (coordinate_str (ir_coordinate r), ir_profile r, ir_scope r)"

record install_state =
  ist_schema_version :: int
  ist_installations :: "installation_record list"

definition effect_owner :: "installation_record \<Rightarrow> effect_proof \<Rightarrow> string \<times> string \<times> string \<times> string \<times> string" where
  "effect_owner r e =
     (let (destination, path, identity) = locator e in
      (ir_scope r, destination, path, identity,
       if identity_kind (aev_identity (ir_artifact r)) = ''memory'' \<and> ep_kind e = ''managed-block''
       then identity_str (aev_identity (ir_artifact r)) else ''''))"

definition effect_owners :: "installation_record list \<Rightarrow> (string \<times> string \<times> string \<times> string \<times> string) list" where
  "effect_owners rs = concat (map (\<lambda>r. map (effect_owner r) (ir_effects r)) rs)"

definition mk_install_state :: "int \<Rightarrow> installation_record list \<Rightarrow> install_state py" where
  "mk_install_state schema_version installations =
     py_guard (schema_version \<noteq> 2) ''installation manifest schema version must be 2''
       (let ordered = sort_key ir_key installations in
        py_guard (\<not> distinct (map ir_key ordered)) ''installation identities must be unique''
          (py_guard (\<not> distinct (effect_owners ordered)) ''installation effect ownership must be unique across the manifest''
             (Inr \<lparr>ist_schema_version = schema_version, ist_installations = ordered\<rparr>)))"

record managed_state_paths =
  isp_scope :: string
  isp_destination_path :: string
  isp_lock_path :: string

definition mk_install_state_paths :: "string \<Rightarrow> string \<Rightarrow> string \<Rightarrow> managed_state_paths py" where
  "mk_install_state_paths scope destination lock =
     py_guard (scope \<notin> {''project'', ''user''}) ''state scope is invalid''
       (py_guard (list_ex (\<lambda>p. \<not> normalized_absolute p) [destination, lock]) ''state paths must be normalized absolute paths''
          (py_guard (destination = lock) ''state data and lock paths must be distinct''
             (Inr \<lparr>isp_scope = scope, isp_destination_path = destination, isp_lock_path = lock\<rparr>)))"

definition require_absolute :: "string \<Rightarrow> string \<Rightarrow> unit py" where
  "require_absolute path label =
     py_guard (\<not> normalized_absolute path) (label @ '' must be a normalized absolute path'') (Inr ())"

definition install_state_paths :: "string \<Rightarrow> string \<Rightarrow> string \<Rightarrow> string \<Rightarrow> managed_state_paths py" where
  "install_state_paths scope project_root user_home data_root =
     py_check (require_absolute project_root ''project root'')
       (py_check (require_absolute user_home ''user home'')
          (py_check (require_absolute data_root ''data root'')
             (if scope = ''project'' then
                (let state_root = posix_join project_root ''.agent-artifacts'' in
                 mk_install_state_paths scope (posix_join state_root ''manifest.json'') (posix_join state_root ''state.lock''))
              else if scope = ''user'' then
                (let state_root = posix_join data_root ''state'' in
                 mk_install_state_paths scope (posix_join state_root ''manifest.json'') (posix_join state_root ''state.lock''))
              else Inl (ValueError (''state scope must be '' @ repr_str ''project'' @ '' or '' @ repr_str ''user'')))))"

end

