(* ===== verification/Consumer.thy ===== *)
theory Consumer
  imports InstallState
begin

text \<open>
  Selectors and their resolution (\<open>agent_artifacts/consumer/coordinates.py\<close> and \<open>agent_artifacts/consumer/resolution.py\<close>): the text a
  caller names an artifact with, its binding to exact coordinates of a catalog, the closure over declared
  dependencies, and the resolution of installed artifacts against the manifest.
\<close>

subsection \<open>Selectors\<close>

definition CONSUMER_INVALID :: diagnostic_code where "CONSUMER_INVALID = ''consumer-invalid''"

definition SELECTABLE_KINDS :: "string list" where
  "SELECTABLE_KINDS = [''skill'', ''guideline'', ''mcp'', ''hook'', ''memory'', ''collection'']"

definition GRAMMAR :: string where "GRAMMAR = ''<source>/<kind>/<name>[@<version>]''"

record requested_selector =
  rs_identity :: artifact_identity
  rs_source :: "source_alias option"
  rs_version :: "string option"

definition selector_str :: "requested_selector \<Rightarrow> string" where
  "selector_str s =
     (case rs_source s of None \<Rightarrow> '''' | Some a \<Rightarrow> alias_value a @ ''/'') @ identity_str (rs_identity s)
       @ (case rs_version s of None \<Rightarrow> '''' | Some v \<Rightarrow> ''@'' @ v)"

definition selector_invalid :: "string \<Rightarrow> string \<Rightarrow> string list \<Rightarrow> 'a result" where
  "selector_invalid raw detail remediation =
     mk_err [mk_diagnostic CONSUMER_INVALID ERROR (''artifact selector '' @ repr_str raw @ '' is invalid: '' @ detail) None
               (if remediation = [] then [''use '' @ GRAMMAR] else remediation) []]"

text \<open>\<open>s.rpartition(c)\<close> of a text that contains \<open>c\<close>, as the part before and the part after the last one.\<close>

definition rpartition :: "char \<Rightarrow> string \<Rightarrow> string \<times> string" where
  "rpartition c s = (let after = rev (takeWhile (\<lambda>x. x \<noteq> c) (rev s)) in (take (length s - length after - 1) s, after))"

definition split_version :: "string \<Rightarrow> (string \<times> string option) result" where
  "split_version raw =
     (if CHR ''@'' \<notin> set raw then Ok (raw, None)
      else (let (body, version) = rpartition CHR ''@'' raw in
        if body = [] \<or> version = [] then
          selector_invalid raw (''an '' @ repr_str ''@'' @ '' version suffix needs both a coordinate and a version'') []
        else Ok (body, Some version)))"

definition bind_selector :: "string \<Rightarrow> string option \<Rightarrow> string \<Rightarrow> string \<Rightarrow> string option \<Rightarrow> requested_selector result" where
  "bind_selector raw source kind name version =
     (if kind \<notin> set SELECTABLE_KINDS then
        selector_invalid raw (''unknown artifact kind '' @ repr_str kind) [''use one of: '' @ join '', '' (sort SELECTABLE_KINDS)]
      else if kind = ''collection'' \<and> version \<noteq> None then
        selector_invalid raw (''collections are not versioned; remove the '' @ repr_str ''@<version>'' @ '' suffix'') []
      else Ok \<lparr>rs_identity = ArtifactIdentity kind name, rs_source = map_option SourceAlias source, rs_version = version\<rparr>)"

definition parse_artifact_selector :: "string \<Rightarrow> requested_selector result" where
  "parse_artifact_selector raw =
     (let text = strip raw in
      if text = [] then selector_invalid raw ''a selector cannot be empty'' []
      else (case split_version text of
          Err ds \<Rightarrow> Err ds
        | Ok (body, version) \<Rightarrow>
            (let segments = split_on CHR ''/'' body in
             if list_ex (\<lambda>s. s = []) segments then selector_invalid raw (''every segment must be non-empty in '' @ GRAMMAR) []
             else (case segments of
                 [kind, name] \<Rightarrow> bind_selector raw None kind name version
               | [source, kind, name] \<Rightarrow> bind_selector raw (Some source) kind name version
               | _ \<Rightarrow> selector_invalid raw
                   (''expected '' @ GRAMMAR @ '' or <kind>/<name>, not '' @ str_nat (length segments) @ '' path segments'') []))))"

fun parse_selectors_loop ::
  "string list \<Rightarrow> requested_selector list \<Rightarrow> diagnostic list \<Rightarrow> requested_selector list \<times> diagnostic list" where
  "parse_selectors_loop [] selectors diagnostics = (selectors, diagnostics)"
| "parse_selectors_loop (entry # rest) selectors diagnostics =
     (case parse_artifact_selector entry of
        Err ds \<Rightarrow> parse_selectors_loop rest selectors (diagnostics @ ds)
      | Ok s \<Rightarrow> parse_selectors_loop rest (selectors @ [s]) diagnostics)"

definition parse_artifact_selectors :: "string list \<Rightarrow> requested_selector list result" where
  "parse_artifact_selectors raw =
     (case parse_selectors_loop raw [] [] of (selectors, diagnostics) \<Rightarrow>
        if diagnostics \<noteq> [] then mk_err diagnostics else Ok (sort_key selector_str (remdups selectors)))"

subsection \<open>Binding selectors to the catalog\<close>

definition COLLECTION_NOT_FOUND :: diagnostic_code where "COLLECTION_NOT_FOUND = ''collection-not-found''"
definition COLLECTION_AMBIGUOUS :: diagnostic_code where "COLLECTION_AMBIGUOUS = ''collection-ambiguous''"
definition DEPENDENCY_UNAVAILABLE :: diagnostic_code where "DEPENDENCY_UNAVAILABLE = ''dependency-unavailable''"
definition INSTALLATION_NOT_FOUND :: diagnostic_code where "INSTALLATION_NOT_FOUND = ''installation-not-found''"

definition collection_matches :: "requested_selector \<Rightarrow> marketplace_collection \<Rightarrow> bool" where
  "collection_matches selector c \<longleftrightarrow>
     cc_name (mc_coordinate c) = identity_name (rs_identity selector)
     \<and> (rs_source selector = None \<or> rs_source selector = Some (cc_source (mc_coordinate c)))"

definition resolve_collection :: "marketplace_catalog \<Rightarrow> requested_selector \<Rightarrow> artifact_coordinate list result" where
  "resolve_collection catalog selector =
     (let name = identity_name (rs_identity selector) in
      case [c \<leftarrow> cat_collections catalog. collection_matches selector c] of
        [] \<Rightarrow> mk_err [mk_diagnostic COLLECTION_NOT_FOUND ERROR
           (''collection '' @ name @ (case rs_source selector of None \<Rightarrow> '''' | Some a \<Rightarrow> '' in source '' @ alias_value a)
              @ '' was not found'') None [] []]
      | [c] \<Rightarrow> Ok (mc_members c)
      | cs \<Rightarrow>
          (let coordinates = sort (map (collection_str \<circ> mc_coordinate) cs) in
           mk_err [mk_diagnostic COLLECTION_AMBIGUOUS ERROR
             (''collection '' @ name @ '' is ambiguous; valid coordinates: '' @ join '', '' coordinates) None []
             [(''coordinates'', join '','' coordinates)]]))"

definition resolve_selector ::
  "marketplace_catalog \<Rightarrow> bool \<Rightarrow> requested_selector \<Rightarrow> artifact_coordinate list result py" where
  "resolve_selector catalog offline selector =
     (if identity_kind (rs_identity selector) = ''collection'' then Inr (resolve_collection catalog selector)
      else (case mk_artifact_query (rs_identity selector) (rs_source selector) (rs_version selector) of
          Inl e \<Rightarrow> Inl e
        | Inr query \<Rightarrow> Inr (case resolve_artifact catalog query offline of Err ds \<Rightarrow> Err ds | Ok item \<Rightarrow> Ok [mi_coordinate item])))"

fun resolve_loop ::
  "marketplace_catalog \<Rightarrow> bool \<Rightarrow> requested_selector list \<Rightarrow> artifact_coordinate list \<Rightarrow> diagnostic list
     \<Rightarrow> (artifact_coordinate list \<times> diagnostic list) py" where
  "resolve_loop catalog offline [] coordinates diagnostics = Inr (coordinates, diagnostics)"
| "resolve_loop catalog offline (selector # rest) coordinates diagnostics =
     (case resolve_selector catalog offline selector of
        Inl e \<Rightarrow> Inl e
      | Inr (Err ds) \<Rightarrow> resolve_loop catalog offline rest coordinates (diagnostics @ ds)
      | Inr (Ok cs) \<Rightarrow> resolve_loop catalog offline rest (coordinates @ cs) diagnostics)"

subsection \<open>The dependency closure\<close>

type_synonym item_table = "(artifact_key \<times> marketplace_item) list"

text \<open>The closure dictionary and the diagnostics that the nested function \<open>include\<close> extends.\<close>

record closure_state =
  clo_closure :: "(artifact_key \<times> artifact_coordinate) list"
  clo_diagnostics :: "diagnostic list"

definition complain :: "string \<Rightarrow> closure_state \<Rightarrow> closure_state" where
  "complain message st =
     st\<lparr>clo_diagnostics := clo_diagnostics st @ [mk_diagnostic DEPENDENCY_UNAVAILABLE ERROR message None [] []]\<rparr>"

definition item_version :: "marketplace_item \<Rightarrow> semver" where
  "item_version item = ia_version (ma_artifact (mi_artifact item))"

definition item_requires :: "marketplace_item \<Rightarrow> artifact_selector list" where
  "item_requires item = ia_requires (ma_artifact (mi_artifact item))"

definition dependency_of :: "item_table \<Rightarrow> marketplace_item \<Rightarrow> artifact_selector \<Rightarrow> marketplace_item option" where
  "dependency_of records item selector =
     (case dict_get records (artifact_key (coord_source (mi_coordinate item)) (sel_identity selector)) of
        None \<Rightarrow> None
      | Some dependency \<Rightarrow>
          (case sel_version selector of
             None \<Rightarrow> Some dependency
           | Some bounds \<Rightarrow> if allows bounds (item_version dependency) then Some dependency else None))"

definition known_coordinates :: "item_table \<Rightarrow> artifact_coordinate set" where
  "known_coordinates records = mi_coordinate ` set (dict_values records)"

function include_coordinate :: "item_table \<Rightarrow> artifact_coordinate \<Rightarrow> artifact_coordinate list \<Rightarrow> closure_state \<Rightarrow> closure_state"
  and include_requires ::
    "item_table \<Rightarrow> marketplace_item \<Rightarrow> artifact_coordinate list \<Rightarrow> artifact_selector list \<Rightarrow> closure_state \<Rightarrow> closure_state" where
  "include_coordinate records c trail st =
     (if c \<in> set trail then
        complain (''artifact dependency cycle: '' @ join '' -> '' (map coordinate_str (trail @ [c]))) st
      else if qualified_key c \<in> set (dict_keys (clo_closure st)) then st
      else (case dict_get records (qualified_key c) of
          None \<Rightarrow> complain (''required artifact is unavailable: '' @ coordinate_str c) st
        | Some item \<Rightarrow>
            if coord_version c \<noteq> None \<and> coord_version c \<noteq> Some (semver_str (item_version item)) then
              complain (''required artifact version is unavailable: '' @ coordinate_str c) st
            else include_requires records item (trail @ [c]) (item_requires item)
                   (st\<lparr>clo_closure := dict_set (qualified_key c) (mi_coordinate item) (clo_closure st)\<rparr>)))"
| "include_requires records item trail [] st = st"
| "include_requires records item trail (selector # rest) st =
     (case dependency_of records item selector of
        None \<Rightarrow>
          include_requires records item trail rest
            (complain (coordinate_str (mi_coordinate item) @ '' requires unavailable dependency ''
               @ alias_value (coord_source (mi_coordinate item)) @ ''/'' @ identity_str (sel_identity selector)) st)
      | Some dependency \<Rightarrow>
          include_requires records item trail rest (include_coordinate records (mi_coordinate dependency) trail st))"
  by pat_completeness auto
termination
proof (relation "measures
    [\<lambda>x. case x of Inl (records, c, trail, _) \<Rightarrow>
         2 * card (known_coordinates records - set trail) + (if c \<in> known_coordinates records then 0 else 1)
       | Inr (records, _, trail, _, _) \<Rightarrow> 2 * card (known_coordinates records - set trail),
     \<lambda>x. case x of Inl _ \<Rightarrow> 0 | Inr (_, _, _, rest, _) \<Rightarrow> Suc (length rest)]", goal_cases)
  case (2 records c trail st item)
  show ?case
  proof (cases "c \<in> known_coordinates records")
    case True
    then have "known_coordinates records - set (trail @ [c]) \<subset> known_coordinates records - set trail" using 2(1) by auto
    then have "card (known_coordinates records - set (trail @ [c])) < card (known_coordinates records - set trail)"
      by (intro psubset_card_mono) (auto simp: known_coordinates_def)
    then show ?thesis using True by simp
  next
    case False
    then have "known_coordinates records - set (trail @ [c]) = known_coordinates records - set trail" by auto
    then show ?thesis using False by simp
  qed
next
  case (4 records item trail selector rest st dependency)
  then have "mi_coordinate dependency \<in> known_coordinates records"
    by (force simp: dependency_of_def known_coordinates_def dest!: map_of_SomeD split: option.splits if_splits)
  then show ?case by simp
qed simp_all

declare include_coordinate.simps [simp del]

definition dependency_closure ::
  "marketplace_catalog \<Rightarrow> artifact_coordinate list \<Rightarrow> artifact_coordinate list result" where
  "dependency_closure catalog requested =
     (let records = dict_by (qualified_key \<circ> mi_coordinate) (cat_items catalog);
          st = fold (\<lambda>c. include_coordinate records c []) requested \<lparr>clo_closure = [], clo_diagnostics = []\<rparr> in
      if clo_diagnostics st \<noteq> [] then mk_err (sort_key diag_message (clo_diagnostics st))
      else Ok (sort_key coordinate_str (dict_values (clo_closure st))))"

definition resolve_selectors ::
  "marketplace_catalog \<Rightarrow> requested_selector list \<Rightarrow> bool \<Rightarrow> artifact_coordinate list result py" where
  "resolve_selectors catalog selectors offline =
     (case resolve_loop catalog offline selectors [] [] of
        Inl e \<Rightarrow> Inl e
      | Inr (coordinates, diagnostics) \<Rightarrow>
          Inr (if diagnostics \<noteq> [] then mk_err diagnostics
               else dependency_closure catalog (sort_key coordinate_str (remdups coordinates))))"

subsection \<open>Installed artifacts\<close>

definition record_matches :: "requested_selector \<Rightarrow> installation_record \<Rightarrow> bool" where
  "record_matches selector r \<longleftrightarrow>
     coord_artifact (ir_coordinate r) = rs_identity selector
     \<and> (rs_source selector = None \<or> rs_source selector = Some (coord_source (ir_coordinate r)))
     \<and> (rs_version selector = None \<or> rs_version selector = Some (semver_str (aev_version (ir_artifact r))))"

definition installed_coordinate :: "installation_record \<Rightarrow> artifact_coordinate" where
  "installed_coordinate r =
     ArtifactCoordinate (coord_source (ir_coordinate r)) (coord_artifact (ir_coordinate r))
       (Some (semver_str (aev_version (ir_artifact r))))"

definition resolve_installed :: "installation_record list \<Rightarrow> requested_selector \<Rightarrow> artifact_coordinate list result" where
  "resolve_installed records selector =
     (let installed = sort_key coordinate_str (remdups (map installed_coordinate [r \<leftarrow> records. record_matches selector r])) in
      if installed = [] then
        mk_err [mk_diagnostic INSTALLATION_NOT_FOUND ERROR (selector_str selector @ '' is not installed in this scope'') None
                  [''aart marketplace status''] []]
      else if 1 < length (remdups (map qualified_key installed)) then
        mk_err [mk_diagnostic ARTIFACT_AMBIGUOUS ERROR
                  (selector_str selector @ '' is ambiguous; installed coordinates: '' @ join '', '' (map coordinate_str installed)) None []
                  [(''coordinates'', join '','' (map coordinate_str installed))]]
      else Ok installed)"

fun resolve_installed_loop ::
  "installation_record list \<Rightarrow> marketplace_catalog \<Rightarrow> requested_selector list \<Rightarrow> artifact_coordinate list \<Rightarrow> diagnostic list
     \<Rightarrow> artifact_coordinate list \<times> diagnostic list" where
  "resolve_installed_loop records catalog [] coordinates diagnostics = (coordinates, diagnostics)"
| "resolve_installed_loop records catalog (selector # rest) coordinates diagnostics =
     (case (if identity_kind (rs_identity selector) = ''collection'' then resolve_collection catalog selector
            else resolve_installed records selector) of
        Err ds \<Rightarrow> resolve_installed_loop records catalog rest coordinates (diagnostics @ ds)
      | Ok cs \<Rightarrow> resolve_installed_loop records catalog rest (coordinates @ cs) diagnostics)"

definition resolve_installed_selectors ::
  "installation_record list \<Rightarrow> requested_selector list \<Rightarrow> marketplace_catalog \<Rightarrow> artifact_coordinate list result" where
  "resolve_installed_selectors records selectors catalog =
     (case resolve_installed_loop records catalog selectors [] [] of (coordinates, diagnostics) \<Rightarrow>
        if diagnostics \<noteq> [] then mk_err (sort_key diag_message diagnostics)
        else Ok (sort_key coordinate_str (remdups coordinates)))"

section \<open>Properties\<close>

subsection \<open>The graph of dependencies\<close>

definition items_ok :: "item_table \<Rightarrow> bool" where
  "items_ok records \<longleftrightarrow> (\<forall>k item. dict_get records k = Some item \<longrightarrow> qualified_key (mi_coordinate item) = k)
     \<and> distinct (dict_keys records)"

definition item_at :: "item_table \<Rightarrow> artifact_coordinate \<Rightarrow> marketplace_item \<Rightarrow> bool" where
  "item_at records c item \<longleftrightarrow> dict_get records (qualified_key c) = Some item \<and> mi_coordinate item = c"

definition needs :: "item_table \<Rightarrow> (artifact_coordinate \<times> artifact_coordinate) set" where
  "needs records = {(x, mi_coordinate dep) |x dep. \<exists>item sel. item_at records x item \<and> sel \<in> set (item_requires item)
     \<and> dependency_of records item sel = Some dep}"

definition satisfied :: "item_table \<Rightarrow> artifact_coordinate \<Rightarrow> bool" where
  "satisfied records x \<longleftrightarrow> (\<exists>item. item_at records x item \<and> (\<forall>sel \<in> set (item_requires item). dependency_of records item sel \<noteq> None))"

definition included :: "closure_state \<Rightarrow> artifact_coordinate set" where
  "included st = set (dict_values (clo_closure st))"

definition closure_ok :: "item_table \<Rightarrow> closure_state \<Rightarrow> bool" where
  "closure_ok records st \<longleftrightarrow> distinct (dict_keys (clo_closure st))
     \<and> (\<forall>(k, v) \<in> set (clo_closure st). k = qualified_key v \<and> v \<in> known_coordinates records)"

lemma items_okD: "items_ok records \<Longrightarrow> dict_get records k = Some item \<Longrightarrow> qualified_key (mi_coordinate item) = k"
  unfolding items_ok_def by blast

lemma known_item_at: "items_ok records \<Longrightarrow> c \<in> known_coordinates records \<longleftrightarrow> (\<exists>item. item_at records c item)"
proof
  assume ok: "items_ok records" and "c \<in> known_coordinates records"
  then obtain k item where "(k, item) \<in> set records" "mi_coordinate item = c" by (auto simp: known_coordinates_def)
  then have "dict_get records k = Some item" using ok by (simp add: items_ok_def)
  moreover from this have "qualified_key c = k" using items_okD[OF ok] \<open>mi_coordinate item = c\<close> by blast
  ultimately show "\<exists>item. item_at records c item" using \<open>mi_coordinate item = c\<close> by (auto simp: item_at_def)
next
  assume "\<exists>item. item_at records c item"
  then show "c \<in> known_coordinates records" by (force simp: item_at_def known_coordinates_def dest: map_of_SomeD)
qed

lemma dependency_known:
  assumes "items_ok records" "dependency_of records item sel = Some dep"
  shows "item_at records (mi_coordinate dep) dep" "mi_coordinate dep \<in> known_coordinates records"
proof -
  have "dict_get records (artifact_key (coord_source (mi_coordinate item)) (sel_identity sel)) = Some dep"
    using assms(2) by (simp add: dependency_of_def split: option.splits if_splits)
  then show "item_at records (mi_coordinate dep) dep" using items_okD[OF assms(1)] by (simp add: item_at_def)
  then show "mi_coordinate dep \<in> known_coordinates records" using known_item_at[OF assms(1)] by blast
qed

lemma key_in_closure:
  assumes "items_ok records" "closure_ok records st" "c \<in> known_coordinates records"
  shows "qualified_key c \<in> set (dict_keys (clo_closure st)) \<longleftrightarrow> c \<in> included st"
proof
  assume "qualified_key c \<in> set (dict_keys (clo_closure st))"
  then obtain v where v: "(qualified_key c, v) \<in> set (clo_closure st)" by auto
  then have "qualified_key v = qualified_key c" "v \<in> known_coordinates records" using assms(2) by (auto simp: closure_ok_def)
  then have "v = c" using known_item_at[OF assms(1)] assms(3) by (metis item_at_def option.inject)
  then show "c \<in> included st" using v by (force simp: included_def)
next
  assume "c \<in> included st"
  then obtain k where "(k, c) \<in> set (clo_closure st)" by (auto simp: included_def)
  moreover from this have "k = qualified_key c" using assms(2) by (auto simp: closure_ok_def)
  ultimately show "qualified_key c \<in> set (dict_keys (clo_closure st))" by force
qed

lemma complain_simps [simp]:
  "clo_closure (complain m st) = clo_closure st" "included (complain m st) = included st"
  "closure_ok records (complain m st) = closure_ok records st" "clo_diagnostics (complain m st) \<noteq> []"
  by (simp_all add: complain_def included_def closure_ok_def)

text \<open>Adding a known coordinate that is not yet in the closure.\<close>

definition added :: "artifact_coordinate \<Rightarrow> closure_state \<Rightarrow> closure_state" where
  "added c st = st\<lparr>clo_closure := dict_set (qualified_key c) c (clo_closure st)\<rparr>"

lemma added_simps [simp]: "clo_diagnostics (added c st) = clo_diagnostics st"
  by (simp add: added_def)

lemma added_closure:
  assumes "items_ok records" "closure_ok records st" "c \<in> known_coordinates records" "c \<notin> included st"
  shows "closure_ok records (added c st)" "included (added c st) = insert c (included st)"
proof -
  have "qualified_key c \<notin> set (dict_keys (clo_closure st))" using key_in_closure[OF assms(1-3)] assms(4) by simp
  then have e: "clo_closure (added c st) = clo_closure st @ [(qualified_key c, c)]"
    by (simp add: added_def dict_set_fresh)
  show "closure_ok records (added c st)"
    using assms(2,3) \<open>qualified_key c \<notin> _\<close> unfolding closure_ok_def e by auto
  show "included (added c st) = insert c (included st)" by (simp add: included_def e)
qed

text \<open>The three ways a call on a known coordinate can go.\<close>

lemma include_known:
  assumes ok: "items_ok records" "closure_ok records st" and c: "item_at records c item"
  shows "include_coordinate records c trail st =
    (if c \<in> set trail then complain (''artifact dependency cycle: '' @ join '' -> '' (map coordinate_str (trail @ [c]))) st
     else if c \<in> included st then st
     else include_requires records item (trail @ [c]) (item_requires item) (added c st))"
proof -
  have "c \<in> known_coordinates records" using known_item_at[OF ok(1)] c by blast
  moreover have "coord_version c = Some (semver_str (item_version item))"
    using c by (auto simp: item_at_def mi_coordinate_def ma_coordinate_def item_version_def)
  ultimately show ?thesis
    using c key_in_closure[OF ok, of c] by (subst include_coordinate.simps) (auto simp: item_at_def added_def)
qed

text \<open>What every call does: the closure and the diagnostics only grow, and only reachable coordinates are added.\<close>

definition extends_to :: "item_table \<Rightarrow> artifact_coordinate set \<Rightarrow> closure_state \<Rightarrow> closure_state \<Rightarrow> bool" where
  "extends_to records from st st' \<longleftrightarrow> closure_ok records st' \<and> included st \<subseteq> included st'
     \<and> included st' \<subseteq> included st \<union> (needs records)\<^sup>* `` from \<and> (\<exists>ds. clo_diagnostics st' = clo_diagnostics st @ ds)"

lemma extends_to_refl: "closure_ok records st \<Longrightarrow> extends_to records A st st"
  by (simp add: extends_to_def)

lemma extends_to_trans: "extends_to records A st st' \<Longrightarrow> extends_to records A st' st'' \<Longrightarrow> extends_to records A st st''"
  unfolding extends_to_def by (metis append.assoc sup.absorb_iff2 sup.assoc sup.mono sup_commute order_trans order_refl)

lemma extends_to_mono: "extends_to records A st st' \<Longrightarrow> (needs records)\<^sup>* `` A \<subseteq> (needs records)\<^sup>* `` B \<Longrightarrow> extends_to records B st st'"
  unfolding extends_to_def by blast

lemma extends_complain: "closure_ok records st \<Longrightarrow> extends_to records A st (complain m st)"
  by (simp add: extends_to_def) (simp add: complain_def)

lemma needs_intro:
  "item_at records x item \<Longrightarrow> sel \<in> set (item_requires item) \<Longrightarrow> dependency_of records item sel = Some dep
     \<Longrightarrow> (x, mi_coordinate dep) \<in> needs records"
  by (auto simp: needs_def)

lemma include_extends:
  shows "items_ok records \<Longrightarrow> closure_ok records st \<Longrightarrow> c \<in> known_coordinates records
      \<Longrightarrow> extends_to records {c} st (include_coordinate records c trail st)"
    and "items_ok records \<Longrightarrow> closure_ok records st \<Longrightarrow> item_at records (mi_coordinate item) item \<Longrightarrow> set rest \<subseteq> set (item_requires item)
      \<Longrightarrow> extends_to records {mi_coordinate item} st (include_requires records item trail rest st)"
proof (induction records c trail st and records item trail rest st rule: include_coordinate_include_requires.induct)
  case (1 records c trail st)
  obtain item where item: "item_at records c item" using known_item_at 1(2,4) by blast
  note run = include_known[OF 1(2,3) item, of trail]
  show ?case
  proof (cases "c \<in> set trail \<or> c \<in> included st")
    case True
    then show ?thesis using 1(3) by (auto simp: run extends_to_refl extends_complain)
  next
    case False
    have key: "qualified_key c \<notin> set (dict_keys (clo_closure st))" using key_in_closure[OF 1(2,3,4)] False by simp
    have c: "mi_coordinate item = c" "dict_get records (qualified_key c) = Some item" using item by (auto simp: item_at_def)
    have v: "coord_version c = Some (semver_str (item_version item))"
      using c(1) by (auto simp: mi_coordinate_def ma_coordinate_def item_version_def)
    note add = added_closure[OF 1(2,3,4)]
    have "extends_to records {c} (added c st) (include_requires records item (trail @ [c]) (item_requires item) (added c st))"
      using 1(1)[OF _ key c(2)] False v add 1(2) item c(1) by (simp add: added_def)
    moreover have "extends_to records {c} st (added c st)" using add False by (auto simp: extends_to_def)
    ultimately show ?thesis using False run by (simp add: extends_to_trans)
  qed
next
  case (3 records item trail selector rest st)
  show ?case
  proof (cases "dependency_of records item selector")
    case None
    then show ?thesis using 3 by (auto intro: extends_to_trans[OF extends_complain])
  next
    case (Some dep)
    let ?st = "include_coordinate records (mi_coordinate dep) trail st"
    have edge: "(mi_coordinate item, mi_coordinate dep) \<in> needs records" using 3(6,7) Some by (auto intro: needs_intro)
    have "extends_to records {mi_coordinate dep} st ?st" using 3(2) Some 3(4,5) dependency_known[OF 3(4) Some] by simp
    then have dep: "extends_to records {mi_coordinate item} st ?st"
      by (rule extends_to_mono) (use edge in \<open>auto intro: converse_rtrancl_into_rtrancl\<close>)
    then have "extends_to records {mi_coordinate item} ?st (include_requires records item trail rest ?st)"
      using 3(3) Some 3(4,6,7) by (simp add: extends_to_def)
    with dep show ?thesis using Some by (simp add: extends_to_trans)
  qed
qed (simp_all add: extends_to_refl)

text \<open>
  The coordinates that are in the closure and off the trail are finished: their requirements are available,
  in the closure and off the trail, and none of them depends on itself.
\<close>

definition finished :: "item_table \<Rightarrow> artifact_coordinate list \<Rightarrow> closure_state \<Rightarrow> bool" where
  "finished records trail st \<longleftrightarrow> set trail \<subseteq> included st
     \<and> (\<forall>x \<in> included st - set trail. satisfied records x \<and> needs records `` {x} \<subseteq> included st - set trail
          \<and> (x, x) \<notin> (needs records)\<^sup>+)"

lemma closed_trancl: "R `` F \<subseteq> F \<Longrightarrow> x \<in> F \<Longrightarrow> (x, y) \<in> R\<^sup>+ \<Longrightarrow> y \<in> F"
  by (erule trancl_induct) auto

lemma finish_coordinate:
  assumes fin: "finished records (trail @ [c]) st" and c: "c \<in> included st" "c \<notin> set trail" "item_at records c item"
    and deps: "\<And>sel. sel \<in> set (item_requires item) \<Longrightarrow>
      \<exists>dep. dependency_of records item sel = Some dep \<and> mi_coordinate dep \<in> included st - set (trail @ [c])"
  shows "finished records trail st"
proof -
  let ?F = "included st - set (trail @ [c])"
  have succ: "needs records `` {c} \<subseteq> ?F" using deps c(3) by (force simp: needs_def item_at_def)
  have closed: "needs records `` ?F \<subseteq> ?F" using fin by (auto simp: finished_def)
  have "(c, c) \<notin> (needs records)\<^sup>+"
  proof
    assume "(c, c) \<in> (needs records)\<^sup>+"
    then obtain y where y: "(c, y) \<in> needs records" "(y, c) \<in> (needs records)\<^sup>*" by (meson tranclD)
    have "y \<in> ?F" using succ y(1) by blast
    then have "c \<in> ?F" using rtranclD[OF y(2)] closed_trancl[OF closed] by metis
    then show False by simp
  qed
  moreover have "satisfied records c" using deps c(3) by (fastforce simp: satisfied_def)
  moreover have "included st - set trail = insert c ?F" using c(1,2) by auto
  ultimately show ?thesis using fin succ by (auto simp: finished_def)
qed

lemma include_sound:
  shows "items_ok records \<Longrightarrow> closure_ok records st \<Longrightarrow> c \<in> known_coordinates records \<Longrightarrow> finished records trail st
      \<Longrightarrow> clo_diagnostics (include_coordinate records c trail st) = []
      \<Longrightarrow> finished records trail (include_coordinate records c trail st)
        \<and> c \<in> included (include_coordinate records c trail st) - set trail"
    and "items_ok records \<Longrightarrow> closure_ok records st \<Longrightarrow> item_at records (mi_coordinate item) item \<Longrightarrow> set rest \<subseteq> set (item_requires item)
      \<Longrightarrow> finished records trail st \<Longrightarrow> clo_diagnostics (include_requires records item trail rest st) = []
      \<Longrightarrow> finished records trail (include_requires records item trail rest st)
        \<and> (\<forall>sel \<in> set rest. \<exists>dep. dependency_of records item sel = Some dep
             \<and> mi_coordinate dep \<in> included (include_requires records item trail rest st) - set trail)"
proof (induction records c trail st and records item trail rest st rule: include_coordinate_include_requires.induct)
  case (1 records c trail st)
  obtain item where item: "item_at records c item" using known_item_at 1(2,4) by blast
  note run = include_known[OF 1(2,3) item, of trail]
  have off: "c \<notin> set trail" using 1(6) run complain_simps(4) by (metis (full_types))
  show ?case
  proof (cases "c \<in> included st")
    case True
    then show ?thesis using off 1(5) by (simp add: run)
  next
    case False
    have key: "qualified_key c \<notin> set (dict_keys (clo_closure st))" using key_in_closure[OF 1(2,3,4)] False by simp
    have c: "mi_coordinate item = c" "dict_get records (qualified_key c) = Some item" using item by (auto simp: item_at_def)
    have v: "coord_version c = Some (semver_str (item_version item))"
      using c(1) by (auto simp: mi_coordinate_def ma_coordinate_def item_version_def)
    note add = added_closure[OF 1(2,3,4) False]
    define st' where "st' = include_requires records item (trail @ [c]) (item_requires item) (added c st)"
    have st': "include_coordinate records c trail st = st'" using off False by (simp add: run st'_def)
    have "finished records (trail @ [c]) (added c st)" using 1(5) add(2) False by (auto simp: finished_def)
    then have body: "finished records (trail @ [c]) st'"
        "\<forall>sel \<in> set (item_requires item). \<exists>dep. dependency_of records item sel = Some dep
           \<and> mi_coordinate dep \<in> included st' - set (trail @ [c])"
      using 1(1)[OF off key c(2)] v 1(2,6) add(1) item c(1) st' by (simp_all add: added_def st'_def)
    have "c \<in> included st'" using body(1) by (simp add: finished_def)
    then show ?thesis using finish_coordinate[OF body(1) _ off item] body(2) off st' by auto
  qed
next
  case (3 records item trail selector rest st)
  show ?case
  proof (cases "dependency_of records item selector")
    case None
    let ?st = "complain (coordinate_str (mi_coordinate item) @ '' requires unavailable dependency ''
        @ alias_value (coord_source (mi_coordinate item)) @ ''/'' @ identity_str (sel_identity selector)) st"
    have "extends_to records {mi_coordinate item} ?st (include_requires records item trail rest ?st)"
      using 3(4-7) by (intro include_extends(2)) simp_all
    then have "clo_diagnostics ?st = []" using 3(9) None by (auto simp: extends_to_def)
    then show ?thesis by simp
  next
    case (Some dep)
    let ?st = "include_coordinate records (mi_coordinate dep) trail st"
    note dep = dependency_known[OF 3(4) Some]
    have ext: "extends_to records {mi_coordinate dep} st ?st" by (rule include_extends(1)[OF 3(4,5) dep(2)])
    then have ok: "closure_ok records ?st" by (simp add: extends_to_def)
    have ext': "extends_to records {mi_coordinate item} ?st (include_requires records item trail rest ?st)"
      using 3(7) by (intro include_extends(2)[OF 3(4) ok 3(6)]) simp
    have "clo_diagnostics ?st = []" using ext' 3(9) Some by (auto simp: extends_to_def)
    then have first: "finished records trail ?st" "mi_coordinate dep \<in> included ?st - set trail"
      using 3(2)[OF Some 3(4,5) dep(2) 3(8)] by simp_all
    then show ?thesis using 3(3)[OF Some 3(4) ok 3(6) _ first(1)] 3(7,9) Some ext' by (auto simp: extends_to_def)
  qed
qed simp

text \<open>A coordinate from which everything is available and nothing depends on itself is included without complaint.\<close>

definition resolvable :: "item_table \<Rightarrow> artifact_coordinate set \<Rightarrow> bool" where
  "resolvable records A \<longleftrightarrow> (\<forall>x \<in> (needs records)\<^sup>* `` A. satisfied records x \<and> (x, x) \<notin> (needs records)\<^sup>+)"

lemma resolvable_step: "resolvable records {x} \<Longrightarrow> (x, y) \<in> needs records \<Longrightarrow> resolvable records {y}"
  unfolding resolvable_def by (auto intro: converse_rtrancl_into_rtrancl)

lemma include_complete:
  shows "items_ok records \<Longrightarrow> closure_ok records st \<Longrightarrow> c \<in> known_coordinates records \<Longrightarrow> resolvable records {c}
      \<Longrightarrow> \<forall>t \<in> set trail. (t, c) \<in> (needs records)\<^sup>+
      \<Longrightarrow> clo_diagnostics (include_coordinate records c trail st) = clo_diagnostics st"
    and "items_ok records \<Longrightarrow> closure_ok records st \<Longrightarrow> item_at records (mi_coordinate item) item \<Longrightarrow> set rest \<subseteq> set (item_requires item)
      \<Longrightarrow> resolvable records {mi_coordinate item} \<Longrightarrow> \<forall>t \<in> set trail. (t, mi_coordinate item) \<in> (needs records)\<^sup>*
      \<Longrightarrow> clo_diagnostics (include_requires records item trail rest st) = clo_diagnostics st"
proof (induction records c trail st and records item trail rest st rule: include_coordinate_include_requires.induct)
  case (1 records c trail st)
  obtain item where item: "item_at records c item" using known_item_at 1(2,4) by blast
  note run = include_known[OF 1(2,3) item, of trail]
  have off: "c \<notin> set trail" using 1(5,6) by (auto simp: resolvable_def)
  show ?case
  proof (cases "c \<in> included st")
    case True
    then show ?thesis using off by (simp add: run)
  next
    case False
    have key: "qualified_key c \<notin> set (dict_keys (clo_closure st))" using key_in_closure[OF 1(2,3,4)] False by simp
    have c: "mi_coordinate item = c" "dict_get records (qualified_key c) = Some item" using item by (auto simp: item_at_def)
    have v: "coord_version c = Some (semver_str (item_version item))"
      using c(1) by (auto simp: mi_coordinate_def ma_coordinate_def item_version_def)
    have trail: "\<forall>t \<in> set (trail @ [c]). (t, c) \<in> (needs records)\<^sup>*" using 1(6) by (auto simp: trancl_into_rtrancl)
    have "clo_diagnostics (include_requires records item (trail @ [c]) (item_requires item) (added c st)) = clo_diagnostics (added c st)"
      using 1(1)[OF off key c(2)] v 1(2,5) added_closure(1)[OF 1(2,3,4) False] item c(1) trail by (simp add: added_def)
    then show ?thesis using off False by (simp add: run)
  qed
next
  case (3 records item trail selector rest st)
  have "satisfied records (mi_coordinate item)" using 3(8) by (auto simp: resolvable_def)
  then obtain dep where Some: "dependency_of records item selector = Some dep"
    using 3(6,7) by (auto simp: satisfied_def item_at_def)
  let ?st = "include_coordinate records (mi_coordinate dep) trail st"
  note dep = dependency_known[OF 3(4) Some]
  have edge: "(mi_coordinate item, mi_coordinate dep) \<in> needs records" using 3(6,7) Some by (auto intro: needs_intro)
  have ok: "closure_ok records ?st" using include_extends(1)[OF 3(4,5) dep(2)] by (simp add: extends_to_def)
  have trail: "\<forall>t \<in> set trail. (t, mi_coordinate dep) \<in> (needs records)\<^sup>+" using 3(9) edge by (auto intro: rtrancl_into_trancl1)
  have "clo_diagnostics ?st = clo_diagnostics st"
    using 3(2)[OF Some 3(4,5) dep(2) resolvable_step[OF 3(8) edge] trail] .
  then show ?case using 3(3)[OF Some 3(4) ok 3(6) _ 3(8,9)] 3(7) Some by simp
qed simp

lemma include_all_extends:
  assumes "items_ok records" "closure_ok records st" "set cs \<subseteq> known_coordinates records"
  shows "extends_to records (set cs) st (fold (\<lambda>c. include_coordinate records c []) cs st)"
  using assms(2,3)
proof (induction cs arbitrary: st)
  case (Cons c cs)
  let ?st = "include_coordinate records c [] st"
  have first: "extends_to records {c} st ?st" using Cons.prems by (intro include_extends(1)[OF assms(1)]) simp_all
  then have "extends_to records (set cs) ?st (fold (\<lambda>c. include_coordinate records c []) cs ?st)"
    using Cons.prems(2) by (intro Cons.IH) (auto simp: extends_to_def)
  then have "extends_to records (set (c # cs)) ?st (fold (\<lambda>c. include_coordinate records c []) cs ?st)"
    by (rule extends_to_mono) auto
  with first show ?case by (auto intro: extends_to_trans extends_to_mono)
qed (simp add: extends_to_refl)

lemma include_all_sound:
  assumes "items_ok records" "closure_ok records st" "set cs \<subseteq> known_coordinates records" "finished records [] st"
    and "clo_diagnostics (fold (\<lambda>c. include_coordinate records c []) cs st) = []"
  shows "finished records [] (fold (\<lambda>c. include_coordinate records c []) cs st)
    \<and> set cs \<subseteq> included (fold (\<lambda>c. include_coordinate records c []) cs st)"
  using assms(2-5)
proof (induction cs arbitrary: st)
  case (Cons c cs)
  let ?st = "include_coordinate records c [] st"
  have ok: "closure_ok records ?st"
    using include_extends(1)[OF assms(1) Cons.prems(1), of c "[]"] Cons.prems(2) by (simp add: extends_to_def)
  have ext: "extends_to records (set cs) ?st (fold (\<lambda>c. include_coordinate records c []) cs ?st)"
    using Cons.prems(2) by (intro include_all_extends[OF assms(1) ok]) simp
  then have "clo_diagnostics ?st = []" using Cons.prems(4) by (auto simp: extends_to_def)
  then have "finished records [] ?st \<and> c \<in> included ?st"
    using include_sound(1)[OF assms(1) Cons.prems(1), of c "[]"] Cons.prems(2,3) by simp
  then show ?case using Cons.IH[OF ok] Cons.prems(2,4) ext by (auto simp: extends_to_def)
qed simp

lemma include_all_complete:
  assumes "items_ok records" "closure_ok records st" "set cs \<subseteq> known_coordinates records" "resolvable records (set cs)"
  shows "clo_diagnostics (fold (\<lambda>c. include_coordinate records c []) cs st) = clo_diagnostics st"
  using assms(2-4)
proof (induction cs arbitrary: st)
  case (Cons c cs)
  have "resolvable records {c}" "resolvable records (set cs)" using Cons.prems(3) by (auto simp: resolvable_def)
  then show ?case
    using include_complete(1)[OF assms(1) Cons.prems(1), of c "[]"] include_extends(1)[OF assms(1) Cons.prems(1), of c "[]"]
      Cons.IH Cons.prems(2) by (simp add: extends_to_def)
qed simp

definition catalog_table :: "marketplace_catalog \<Rightarrow> item_table" where
  "catalog_table catalog = dict_by (qualified_key \<circ> mi_coordinate) (cat_items catalog)"

definition catalog_ok :: "marketplace_catalog \<Rightarrow> bool" where
  "catalog_ok catalog \<longleftrightarrow>
     mk_marketplace_catalog (cat_sources catalog) (cat_items catalog) (cat_collections catalog) (cat_diagnostics catalog) = Inr catalog"

lemma catalog_keys: "catalog_ok catalog \<Longrightarrow> distinct (map (qualified_key \<circ> mi_coordinate) (cat_items catalog))"
  by (auto simp: catalog_ok_def mk_marketplace_catalog_def py_guard_def Let_def split: if_splits)

lemma catalog_members:
  "catalog_ok catalog \<Longrightarrow> c \<in> set (cat_collections catalog) \<Longrightarrow> set (mc_members c) \<subseteq> mi_coordinate ` set (cat_items catalog)"
  by (auto simp: catalog_ok_def mk_marketplace_catalog_def py_guard_def Let_def list_ex_iff split: if_splits)

lemma catalog_table_ok:
  assumes "catalog_ok catalog"
  shows "items_ok (catalog_table catalog)" "known_coordinates (catalog_table catalog) = mi_coordinate ` set (cat_items catalog)"
proof -
  let ?key = "qualified_key \<circ> mi_coordinate"
  have e: "catalog_table catalog = map (\<lambda>x. (?key x, x)) (cat_items catalog)"
    unfolding catalog_table_def by (rule dict_by_distinct[OF catalog_keys[OF assms]])
  have "qualified_key (mi_coordinate item) = k" if "dict_get (catalog_table catalog) k = Some item" for k item
    using map_of_SomeD[OF that] by (auto simp: e)
  moreover have "distinct (dict_keys (catalog_table catalog))" using catalog_keys[OF assms] by (simp add: e comp_def)
  ultimately show "items_ok (catalog_table catalog)" by (simp add: items_ok_def)
  show "known_coordinates (catalog_table catalog) = mi_coordinate ` set (cat_items catalog)"
    by (simp add: known_coordinates_def e comp_def image_comp)
qed

lemma dependency_closure_exact:
  assumes "catalog_ok catalog" "set requested \<subseteq> mi_coordinate ` set (cat_items catalog)"
  shows "if resolvable (catalog_table catalog) (set requested)
    then \<exists>cs. dependency_closure catalog requested = Ok cs \<and> set cs = (needs (catalog_table catalog))\<^sup>* `` set requested
      \<and> distinct cs \<and> sorted (map coordinate_str cs)
    else is_err (dependency_closure catalog requested)"
proof -
  let ?T = "catalog_table catalog" and ?st0 = "\<lparr>clo_closure = [], clo_diagnostics = []\<rparr>"
  define st where "st = fold (\<lambda>c. include_coordinate ?T c []) requested ?st0"
  note T = catalog_table_ok[OF assms(1)]
  have ok: "closure_ok ?T ?st0" "finished ?T [] ?st0" by (simp_all add: closure_ok_def finished_def included_def)
  have known: "set requested \<subseteq> known_coordinates ?T" using assms(2) T(2) by simp
  have ext: "extends_to ?T (set requested) ?st0 st" unfolding st_def by (rule include_all_extends[OF T(1) ok(1) known])
  have run: "dependency_closure catalog requested =
      (if clo_diagnostics st \<noteq> [] then mk_err (sort_key diag_message (clo_diagnostics st))
       else Ok (sort_key coordinate_str (dict_values (clo_closure st))))"
    by (simp add: dependency_closure_def st_def catalog_table_def)
  show ?thesis
  proof (cases "clo_diagnostics st = []")
    case True
    have fin: "finished ?T [] st" "set requested \<subseteq> included st"
      using include_all_sound[OF T(1) ok(1) known ok(2)] True by (simp_all add: st_def)
    have reach: "(needs ?T)\<^sup>* `` set requested \<subseteq> included st"
      using fin closed_trancl[of "needs ?T" "included st"] by (fastforce simp: finished_def dest: rtranclD)
    then have "resolvable ?T (set requested)" using fin(1) by (auto simp: resolvable_def finished_def)
    moreover have "included st = (needs ?T)\<^sup>* `` set requested"
      using ext reach by (auto simp: extends_to_def included_def)
    moreover have "distinct (dict_values (clo_closure st))"
    proof -
      have "dict_keys (clo_closure st) = map qualified_key (dict_values (clo_closure st))"
        using ext by (auto simp: extends_to_def closure_ok_def)
      then show ?thesis using ext by (metis extends_to_def closure_ok_def distinct_map)
    qed
    ultimately show ?thesis using True by (simp add: run included_def)
  next
    case False
    then have "\<not> resolvable ?T (set requested)"
      using include_all_complete[OF T(1) ok(1) known] by (auto simp: st_def)
    then show ?thesis using False by (simp add: run mk_err_def is_err_def)
  qed
qed

subsection \<open>Resolution of selectors\<close>

text \<open>A selector the catalog can be asked about, and the coordinates it names there when it names exactly one thing.\<close>

definition addressable :: "requested_selector \<Rightarrow> bool" where
  "addressable s \<longleftrightarrow> identity_kind (rs_identity s) = ''collection''
     \<or> (identity_kind (rs_identity s) \<in> set ARTIFACT_KINDS \<and> slug_match (identity_name (rs_identity s))
        \<and> (\<forall>a. rs_source s = Some a \<longrightarrow> slug_match (alias_value a))
        \<and> (\<forall>v. rs_version s = Some v \<longrightarrow> is_ok (parse_semver v None)))"

definition binds :: "marketplace_catalog \<Rightarrow> requested_selector \<Rightarrow> artifact_coordinate list \<Rightarrow> bool" where
  "binds catalog s cs \<longleftrightarrow>
     (if identity_kind (rs_identity s) = ''collection''
      then \<exists>c. {c \<in> set (cat_collections catalog). collection_matches s c} = {c} \<and> cs = mc_members c
      else \<exists>item. {item \<in> set (cat_items catalog).
             query_matches \<lparr>aq_identity = rs_identity s, aq_source = rs_source s, aq_version = rs_version s\<rparr> item} = {item}
           \<and> cs = [mi_coordinate item])"

definition bound_coordinates :: "marketplace_catalog \<Rightarrow> requested_selector list \<Rightarrow> artifact_coordinate set" where
  "bound_coordinates catalog selectors = {c. \<exists>s cs. s \<in> set selectors \<and> binds catalog s cs \<and> c \<in> set cs}"

lemma filter_singleton:
  "distinct xs \<Longrightarrow> {x \<in> set xs. P x} = {y} \<longleftrightarrow> filter P xs = [y]"
proof
  assume "distinct xs" "{x \<in> set xs. P x} = {y}"
  then have "set (filter P xs) = {y}" "distinct (filter P xs)" by auto
  then show "filter P xs = [y]" by (metis distinct_card card.empty card_insert_disjoint empty_iff finite.emptyI length_0_conv
        length_Suc_conv list.set(1,2) insert_absorb2 singleton_insert_inj_eq)
next
  assume "filter P xs = [y]"
  then have "set (filter P xs) = {y}" by simp
  then show "{x \<in> set xs. P x} = {y}" by simp
qed

lemma mk_artifact_query_addressable:
  assumes "identity_kind (rs_identity s) \<noteq> ''collection''"
  shows "mk_artifact_query (rs_identity s) (rs_source s) (rs_version s) =
    (if addressable s then Inr \<lparr>aq_identity = rs_identity s, aq_source = rs_source s, aq_version = rs_version s\<rparr>
     else Inl (ValueError ''marketplace artifact query is invalid''))"
  using assms by (auto simp: mk_artifact_query_def addressable_def py_guard_def is_err_def is_ok_def split: option.splits result.splits)

lemma catalog_distinct:
  assumes "catalog_ok catalog"
  shows "distinct (cat_items catalog)" "distinct (cat_collections catalog)"
proof -
  show "distinct (cat_items catalog)" using catalog_keys[OF assms] by (simp only: distinct_map)
  have "distinct (map mc_coordinate (sort_key mc_coordinate (cat_collections catalog)))"
    using assms by (auto simp: catalog_ok_def mk_marketplace_catalog_def py_guard_def Let_def split: if_splits)
  then show "distinct (cat_collections catalog)" by (simp add: distinct_map)
qed

lemma resolve_selector_exact:
  assumes ok: "catalog_ok catalog" and "addressable s"
  shows "\<exists>r. resolve_selector catalog offline s = Inr r \<and> (\<forall>cs. r = Ok cs \<longleftrightarrow> binds catalog s cs)
     \<and> (\<forall>ds. r = Err ds \<longrightarrow> ds \<noteq> [])"
proof (cases "identity_kind (rs_identity s) = ''collection''")
  case True
  then show ?thesis using filter_singleton[OF catalog_distinct(2)[OF ok], of "collection_matches s"]
    by (auto simp: resolve_selector_def resolve_collection_def binds_def mk_err_def Let_def split: list.splits)
next
  case False
  let ?q = "\<lparr>aq_identity = rs_identity s, aq_source = rs_source s, aq_version = rs_version s\<rparr>"
  show ?thesis using False assms(2) filter_singleton[OF catalog_distinct(1)[OF ok], of "query_matches ?q"]
    by (auto simp: resolve_selector_def mk_artifact_query_addressable resolve_artifact_def binds_def mk_err_def Let_def split: list.splits)
qed

lemma binds_unique: "binds catalog s cs \<Longrightarrow> binds catalog s cs' \<Longrightarrow> cs = cs'"
  by (auto simp: binds_def split: if_splits)

lemma binds_known:
  assumes "catalog_ok catalog" "binds catalog s cs"
  shows "set cs \<subseteq> mi_coordinate ` set (cat_items catalog)"
  using assms catalog_members[OF assms(1)] by (auto simp: binds_def split: if_splits)

lemma resolve_loop_raises:
  "\<not> list_all addressable selectors \<Longrightarrow> catalog_ok catalog \<Longrightarrow>
     resolve_loop catalog offline selectors cs ds = Inl (ValueError ''marketplace artifact query is invalid'')"
proof (induction selectors arbitrary: cs ds)
  case (Cons s selectors)
  show ?case
  proof (cases "addressable s")
    case True
    then show ?thesis using Cons resolve_selector_exact[OF Cons.prems(2) True, of offline] by (auto split: result.splits)
  next
    case False
    then have "identity_kind (rs_identity s) \<noteq> ''collection''" by (auto simp: addressable_def)
    then show ?thesis using False by (simp add: resolve_selector_def mk_artifact_query_addressable)
  qed
qed simp

lemma resolve_loop_exact:
  assumes "catalog_ok catalog" "list_all addressable selectors"
  shows "\<exists>cs ds. resolve_loop catalog offline selectors cs0 ds0 = Inr (cs0 @ cs, ds0 @ ds)
    \<and> (ds = [] \<longleftrightarrow> (\<forall>s \<in> set selectors. \<exists>cs. binds catalog s cs))
    \<and> set cs = bound_coordinates catalog selectors"
  using assms(2)
proof (induction selectors arbitrary: cs0 ds0)
  case (Cons s selectors)
  obtain r where r: "resolve_selector catalog offline s = Inr r" "\<And>cs. r = Ok cs \<longleftrightarrow> binds catalog s cs" "\<And>ds. r = Err ds \<Longrightarrow> ds \<noteq> []"
    using resolve_selector_exact[OF assms(1), of s offline] Cons.prems by auto
  show ?case
  proof (cases r)
    case (Ok c)
    obtain cs ds where "resolve_loop catalog offline selectors (cs0 @ c) ds0 = Inr ((cs0 @ c) @ cs, ds0 @ ds)"
        "ds = [] \<longleftrightarrow> (\<forall>s \<in> set selectors. \<exists>cs. binds catalog s cs)" "set cs = bound_coordinates catalog selectors"
      using Cons.IH[of "cs0 @ c" ds0] Cons.prems by auto
    moreover have "binds catalog s b \<longleftrightarrow> b = c" for b using r(2)[of c] Ok binds_unique by metis
    then have "bound_coordinates catalog (s # selectors) = set c \<union> bound_coordinates catalog selectors"
      by (auto simp: bound_coordinates_def)
    ultimately show ?thesis using r(1,2) Ok by (intro exI[of _ "c @ cs"] exI[of _ ds]) auto
  next
    case (Err d)
    obtain cs ds where "resolve_loop catalog offline selectors cs0 (ds0 @ d) = Inr (cs0 @ cs, (ds0 @ d) @ ds)"
        "set cs = bound_coordinates catalog selectors"
      using Cons.IH[of cs0 "ds0 @ d"] Cons.prems by auto
    moreover have "\<not> binds catalog s c" for c using r(2)[of c] Err by simp
    moreover from this have "bound_coordinates catalog (s # selectors) = bound_coordinates catalog selectors"
      by (auto simp: bound_coordinates_def)
    ultimately show ?thesis using r(1) r(3)[OF Err] Err by (intro exI[of _ cs] exI[of _ "d @ ds"]) auto
  qed
qed (simp add: bound_coordinates_def)

text \<open>
  C12. Resolution binds every selector to exactly one thing of the catalog and closes the result under dependencies. It raises
  exactly when some selector is not a well-formed query (the selector parser lets such text through). Otherwise it succeeds
  exactly when every selector names exactly one available artifact or collection, every
  declared dependency of the result is available at an allowed version, and no artifact depends on itself; the result is then
  exactly the artifacts reachable from the bound ones, without repetition, sorted by their text.
\<close>

theorem resolve_selectors_exact:
  assumes "catalog_ok catalog"
  shows "if \<not> list_all addressable selectors
    then resolve_selectors catalog selectors offline = Inl (ValueError ''marketplace artifact query is invalid'')
    else \<exists>r. resolve_selectors catalog selectors offline = Inr r \<and>
      (if (\<forall>s \<in> set selectors. \<exists>cs. binds catalog s cs) \<and> resolvable (catalog_table catalog) (bound_coordinates catalog selectors)
       then \<exists>cs. r = Ok cs \<and> set cs = (needs (catalog_table catalog))\<^sup>* `` bound_coordinates catalog selectors
         \<and> distinct cs \<and> sorted (map coordinate_str cs)
       else is_err r)"
proof (cases "list_all addressable selectors")
  case False
  then show ?thesis using resolve_loop_raises[OF False assms] by (simp add: resolve_selectors_def)
next
  case True
  obtain cs ds where run: "resolve_loop catalog offline selectors [] [] = Inr (cs, ds)"
    and ds: "ds = [] \<longleftrightarrow> (\<forall>s \<in> set selectors. \<exists>cs. binds catalog s cs)" and cs: "set cs = bound_coordinates catalog selectors"
    using resolve_loop_exact[OF assms True, of offline "[]" "[]"] by auto
  have "set cs \<subseteq> mi_coordinate ` set (cat_items catalog)"
    unfolding cs bound_coordinates_def using binds_known[OF assms] by blast
  then have "set (sort_key coordinate_str (remdups cs)) \<subseteq> mi_coordinate ` set (cat_items catalog)" by simp
  note closure = dependency_closure_exact[OF assms this]
  show ?thesis using True run ds closure cs by (auto simp: resolve_selectors_def mk_err_def is_err_def)
qed

definition sample_view :: marketplace_source_view where
  "sample_view = \<lparr>msv_alias = SourceAlias ''team'', msv_kind = REGISTRY_GIT, msv_source_id = Some (SourceId ''team''),
     msv_origin = ''host/team'', msv_resolved_revision = Some ''r1'',
     msv_snapshot_digest = Some (ObjectDigest ''sha256'' (replicate 64 CHR ''a'')), msv_health = HEALTHY, msv_age_seconds = Some 5,
     msv_display_order = 0, msv_is_default = True, msv_diagnostics = []\<rparr>"

definition sample_artifact :: "string \<Rightarrow> string list \<Rightarrow> marketplace_artifact" where
  "sample_artifact name requires =
     (let d = ObjectDigest ''sha256'' (replicate 64 CHR ''b'') in
      \<lparr>ma_source_alias = SourceAlias ''team'', ma_source_id = SourceId ''team'',
       ma_artifact = \<lparr>ia_source_id = SourceId ''team'', ia_identity = ArtifactIdentity ''skill'' name,
         ia_version = \<lparr>sv_major = 1, sv_minor = 0, sv_patch = 0, sv_prerelease = [], sv_build = []\<rparr>, ia_summary = ''s'',
         ia_manifest_digest = d, ia_payload_digest = d, ia_object_digest = d,
         ia_compatibility = \<lparr>comp_profiles = [], comp_platforms = []\<rparr>,
         ia_install = \<lparr>inst_scopes = [], inst_modes = [], inst_effects = []\<rparr>, ia_setup = None, ia_review = None,
         ia_provenance = None, ia_collections = [], ia_requires_aart = \<lparr>min_inclusive = None, max_exclusive = None\<rparr>,
         ia_requires = map (\<lambda>n. \<lparr>sel_identity = ArtifactIdentity ''skill'' n, sel_version = None\<rparr>) requires\<rparr>,
       ma_semantic_digest = d, ma_lifecycle = AVAILABLE\<rparr>)"

definition sample_item :: "string \<Rightarrow> string list \<Rightarrow> marketplace_item" where
  "sample_item name requires =
     \<lparr>mi_artifact = sample_artifact name requires, mi_source = sample_view,
      mi_trust = \<lparr>td_kind = REGISTRY_REVIEWED, td_evidence_digest = ObjectDigest ''sha256'' (replicate 64 CHR ''c''), td_reasons = [''r'']\<rparr>\<rparr>"

definition sample_catalog :: marketplace_catalog where
  "sample_catalog =
     \<lparr>cat_sources = [sample_view], cat_items = [sample_item ''a'' [''b''], sample_item ''b'' []], cat_collections = [], cat_diagnostics = []\<rparr>"

definition sample_selector :: "string \<Rightarrow> string option \<Rightarrow> requested_selector" where
  "sample_selector name version = \<lparr>rs_identity = ArtifactIdentity ''skill'' name, rs_source = None, rs_version = version\<rparr>"

lemma sample_catalog_ok: "catalog_ok sample_catalog"
  unfolding catalog_ok_def by code_simp

abbreviation sample_coordinate :: "string \<Rightarrow> artifact_coordinate" where
  "sample_coordinate n \<equiv> ArtifactCoordinate (SourceAlias ''team'') (ArtifactIdentity ''skill'' n) (Some ''1.0.0'')"

lemma sample_item_simps:
  "mi_coordinate (sample_item n r) = sample_coordinate n" "ma_lifecycle (mi_artifact (sample_item n r)) = AVAILABLE"
  "item_requires (sample_item n r) = map (\<lambda>n. \<lparr>sel_identity = ArtifactIdentity ''skill'' n, sel_version = None\<rparr>) r"
proof -
  have "semver_str \<lparr>sv_major = 1, sv_minor = 0, sv_patch = 0, sv_prerelease = [], sv_build = []\<rparr> = ''1.0.0''" by code_simp
  then show "mi_coordinate (sample_item n r) = sample_coordinate n"
    by (simp add: mi_coordinate_def ma_coordinate_def sample_item_def sample_artifact_def Let_def)
qed (simp_all add: sample_item_def sample_artifact_def item_requires_def Let_def)

lemma sample_binds: "binds sample_catalog (sample_selector ''a'' None) [sample_coordinate ''a'']"
  unfolding binds_def sample_selector_def
  by (auto simp: sample_catalog_def sample_item_simps query_matches_def intro!: exI[of _ "sample_item ''a'' [''b'']"])

lemma sample_table:
  "catalog_table sample_catalog =
     [((SourceAlias ''team'', ArtifactIdentity ''skill'' ''a''), sample_item ''a'' [''b'']),
      ((SourceAlias ''team'', ArtifactIdentity ''skill'' ''b''), sample_item ''b'' [])]"
  by (simp add: catalog_table_def sample_catalog_def dict_by_def sample_item_simps qualified_key_def artifact_key_def)

lemma sample_item_at:
  "item_at (catalog_table sample_catalog) x item \<longleftrightarrow>
     (x = sample_coordinate ''a'' \<and> item = sample_item ''a'' [''b'']) \<or> (x = sample_coordinate ''b'' \<and> item = sample_item ''b'' [])"
  by (cases x) (auto simp: item_at_def sample_table sample_item_simps qualified_key_def artifact_key_def split: if_splits)

lemma sample_dependency:
  "dependency_of (catalog_table sample_catalog) (sample_item ''a'' [''b''])
     \<lparr>sel_identity = ArtifactIdentity ''skill'' ''b'', sel_version = None\<rparr> = Some (sample_item ''b'' [])"
  by (simp add: dependency_of_def sample_table sample_item_simps artifact_key_def)

lemma sample_needs: "needs (catalog_table sample_catalog) = {(sample_coordinate ''a'', sample_coordinate ''b'')}"
  by (auto simp: needs_def sample_item_at sample_item_simps sample_dependency)

lemma sample_resolvable: "resolvable (catalog_table sample_catalog) {sample_coordinate ''a''}"
proof -
  have "x = sample_coordinate ''a'' \<and> y = sample_coordinate ''b''"
    if "(x, y) \<in> {(sample_coordinate ''a'', sample_coordinate ''b'')}\<^sup>+" for x y
    using that by (induction rule: trancl_induct) auto
  moreover have "satisfied (catalog_table sample_catalog) (sample_coordinate n)" if "n = ''a'' \<or> n = ''b''" for n
    using that by (auto simp: satisfied_def sample_item_at sample_item_simps sample_dependency)
  ultimately show ?thesis unfolding resolvable_def sample_needs by (fastforce dest: rtranclD)
qed

lemma sample_texts: "slug_match ''a''" "\<not> is_ok (parse_semver ''latest'' None)"
  by code_simp+

lemma sample_addressable:
  "\<not> addressable (sample_selector ''a'' (Some ''latest''))" "addressable (sample_selector ''a'' None)"
  by (simp_all add: addressable_def sample_selector_def ARTIFACT_KINDS_def sample_texts)

theorem resolve_selectors_exact_witness:
  "resolve_selectors sample_catalog [sample_selector ''a'' (Some ''latest'')] False
     = Inl (ValueError ''marketplace artifact query is invalid'')
   \<and> (\<exists>cs. resolve_selectors sample_catalog [sample_selector ''a'' None] False = Inr (Ok cs)
        \<and> set cs = {(sample_coordinate ''a'', sample_coordinate ''b'')}\<^sup>* `` {sample_coordinate ''a''})"
proof -
  have "binds sample_catalog (sample_selector ''a'' None) cs \<longleftrightarrow> cs = [sample_coordinate ''a'']" for cs
    using sample_binds binds_unique by metis
  then have "bound_coordinates sample_catalog [sample_selector ''a'' None] = {sample_coordinate ''a''}"
    by (auto simp: bound_coordinates_def)
  then have "\<exists>r. resolve_selectors sample_catalog [sample_selector ''a'' None] False = Inr r
      \<and> (\<exists>cs. r = Ok cs \<and> set cs = {(sample_coordinate ''a'', sample_coordinate ''b'')}\<^sup>* `` {sample_coordinate ''a''}
        \<and> distinct cs \<and> sorted (map coordinate_str cs))"
    using resolve_selectors_exact[OF sample_catalog_ok, of "[sample_selector ''a'' None]" False]
      sample_addressable(2) sample_binds sample_resolvable unfolding sample_needs by (simp split: if_splits) blast
  moreover have "resolve_selectors sample_catalog [sample_selector ''a'' (Some ''latest'')] False
     = Inl (ValueError ''marketplace artifact query is invalid'')"
    using resolve_selectors_exact[OF sample_catalog_ok, of "[sample_selector ''a'' (Some ''latest'')]" False] sample_addressable(1) by simp
  ultimately show ?thesis by blast
qed

subsection \<open>Reading selectors\<close>

lemma rpartition_iff:
  assumes "c \<in> set s"
  shows "rpartition c s = (b, a) \<longleftrightarrow> s = b @ c # a \<and> c \<notin> set a"
proof -
  obtain b0 a0 where s: "s = b0 @ c # a0" "c \<notin> set a0" using assms by (metis split_list_last)
  then have "takeWhile (\<lambda>x. x \<noteq> c) (rev s) = rev a0" by (auto simp: takeWhile_append)
  then have "rpartition c s = (b0, a0)" using s by (simp add: rpartition_def)
  moreover have "b0 = b \<and> a0 = a" if "b0 @ c # a0 = b @ c # a" "c \<notin> set a"
    using that s(2) by (auto simp: append_eq_append_conv2 append_eq_Cons_conv Cons_eq_append_conv)
  ultimately show ?thesis using s by auto
qed

definition selector_ok :: "requested_selector \<Rightarrow> bool" where
  "selector_ok s \<longleftrightarrow>
     (let kind = identity_kind (rs_identity s); name = identity_name (rs_identity s) in
      kind \<in> set SELECTABLE_KINDS \<and> name \<noteq> [] \<and> CHR ''/'' \<notin> set name
      \<and> (case rs_source s of None \<Rightarrow> True | Some a \<Rightarrow> alias_value a \<noteq> [] \<and> CHR ''/'' \<notin> set (alias_value a))
      \<and> (case rs_version s of
           None \<Rightarrow> CHR ''@'' \<notin> set name \<and> (case rs_source s of None \<Rightarrow> True | Some a \<Rightarrow> CHR ''@'' \<notin> set (alias_value a))
         | Some v \<Rightarrow> v \<noteq> [] \<and> CHR ''@'' \<notin> set v \<and> kind \<noteq> ''collection''))"

lemma selector_invalid_not_Ok [simp]: "selector_invalid raw m r \<noteq> Ok v"
  by (simp add: selector_invalid_def)

lemma split_version_Ok:
  "split_version raw = Ok (body, version) \<longleftrightarrow>
     (case version of
        None \<Rightarrow> raw = body \<and> CHR ''@'' \<notin> set body
      | Some v \<Rightarrow> raw = body @ CHR ''@'' # v \<and> CHR ''@'' \<notin> set v \<and> body \<noteq> [] \<and> v \<noteq> [])"
proof (cases "CHR ''@'' \<in> set raw")
  case True
  obtain b a where p: "rpartition CHR ''@'' raw = (b, a)" by (cases "rpartition CHR ''@'' raw")
  have iff: "raw = body @ CHR ''@'' # v \<and> CHR ''@'' \<notin> set v \<longleftrightarrow> b = body \<and> a = v" for v
    using rpartition_iff[OF True, of body v] by (auto simp: p)
  have run: "split_version raw = (if b = [] \<or> a = [] then
      selector_invalid raw (''an '' @ repr_str ''@'' @ '' version suffix needs both a coordinate and a version'') [] else Ok (b, Some a))"
    using True p by (simp add: split_version_def)
  show ?thesis
  proof (cases version)
    case None
    then show ?thesis using True by (auto simp: run)
  next
    case (Some v)
    have "split_version raw = Ok (body, Some v) \<longleftrightarrow> b = body \<and> a = v \<and> body \<noteq> [] \<and> v \<noteq> []" by (auto simp: run)
    also have "\<dots> \<longleftrightarrow> (raw = body @ CHR ''@'' # v \<and> CHR ''@'' \<notin> set v) \<and> body \<noteq> [] \<and> v \<noteq> []" unfolding iff by simp
    finally show ?thesis using Some by simp
  qed
next
  case False
  then show ?thesis by (cases version) (auto simp: split_version_def)
qed

lemma bind_selector_Ok:
  "bind_selector raw source kind name version = Ok s \<longleftrightarrow>
     kind \<in> set SELECTABLE_KINDS \<and> (kind = ''collection'' \<longrightarrow> version = None)
     \<and> s = \<lparr>rs_identity = ArtifactIdentity kind name, rs_source = map_option SourceAlias source, rs_version = version\<rparr>"
  by (auto simp: bind_selector_def)

lemma split_slash:
  "split_on CHR ''/'' body = [a, b] \<longleftrightarrow> body = a @ ''/'' @ b \<and> CHR ''/'' \<notin> set a \<and> CHR ''/'' \<notin> set b"
  "split_on CHR ''/'' body = [a, b, c] \<longleftrightarrow>
     body = a @ ''/'' @ b @ ''/'' @ c \<and> CHR ''/'' \<notin> set a \<and> CHR ''/'' \<notin> set b \<and> CHR ''/'' \<notin> set c"
proof -
  have *: "split_on CHR ''/'' body = xs \<longleftrightarrow> body = join ''/'' xs \<and> xs \<noteq> [] \<and> list_all (\<lambda>x. CHR ''/'' \<notin> set x) xs" for xs
    using join_split_on[of "CHR ''/''" body] split_on_join[of xs "CHR ''/''"] split_on_parts_no_sep[of _ "CHR ''/''" body]
    by (auto simp: list_all_iff)
  show "split_on CHR ''/'' body = [a, b] \<longleftrightarrow> body = a @ ''/'' @ b \<and> CHR ''/'' \<notin> set a \<and> CHR ''/'' \<notin> set b"
    "split_on CHR ''/'' body = [a, b, c] \<longleftrightarrow>
       body = a @ ''/'' @ b @ ''/'' @ c \<and> CHR ''/'' \<notin> set a \<and> CHR ''/'' \<notin> set b \<and> CHR ''/'' \<notin> set c"
    by (auto simp: *)
qed

definition selector_body :: "requested_selector \<Rightarrow> string" where
  "selector_body s = (case rs_source s of None \<Rightarrow> '''' | Some a \<Rightarrow> alias_value a @ ''/'') @ identity_str (rs_identity s)"

lemma selectable_kind: "k \<in> set SELECTABLE_KINDS \<Longrightarrow> k \<noteq> [] \<and> CHR ''/'' \<notin> set k \<and> CHR ''@'' \<notin> set k"
  by (auto simp: SELECTABLE_KINDS_def)

lemma parse_body_Ok:
  "(if list_ex (\<lambda>s. s = []) (split_on CHR ''/'' body) then selector_invalid raw m1 r1
    else (case split_on CHR ''/'' body of
        [kind, name] \<Rightarrow> bind_selector raw None kind name version
      | [source, kind, name] \<Rightarrow> bind_selector raw (Some source) kind name version
      | _ \<Rightarrow> selector_invalid raw m2 r2)) = Ok s
   \<longleftrightarrow> body = selector_body s \<and> rs_version s = version \<and> identity_kind (rs_identity s) \<in> set SELECTABLE_KINDS
     \<and> (identity_kind (rs_identity s) = ''collection'' \<longrightarrow> version = None)
     \<and> identity_name (rs_identity s) \<noteq> [] \<and> CHR ''/'' \<notin> set (identity_name (rs_identity s))
     \<and> (case rs_source s of None \<Rightarrow> True | Some a \<Rightarrow> alias_value a \<noteq> [] \<and> CHR ''/'' \<notin> set (alias_value a))"
  (is "?L \<longleftrightarrow> ?R")
proof
  assume L: ?L
  then consider kind name where "split_on CHR ''/'' body = [kind, name]" "bind_selector raw None kind name version = Ok s" "kind \<noteq> []" "name \<noteq> []"
    | source kind name where "split_on CHR ''/'' body = [source, kind, name]" "bind_selector raw (Some source) kind name version = Ok s"
        "source \<noteq> []" "kind \<noteq> []" "name \<noteq> []"
    by (auto split: if_splits list.splits)
  then show ?R
    by cases (auto simp: split_slash bind_selector_Ok selector_body_def identity_str_def)
next
  assume R: ?R
  obtain kind name where ident: "rs_identity s = ArtifactIdentity kind name" by (cases "rs_identity s")
  have kind: "kind \<noteq> []" "CHR ''/'' \<notin> set kind" using selectable_kind R ident by auto
  show ?L
  proof (cases "rs_source s")
    case None
    then have "split_on CHR ''/'' body = [kind, name]" using R kind ident by (auto simp: split_slash selector_body_def identity_str_def)
    then show ?thesis using R kind ident None by (auto simp: bind_selector_Ok)
  next
    case (Some a)
    then have "split_on CHR ''/'' body = [alias_value a, kind, name]" using R kind ident by (auto simp: split_slash selector_body_def identity_str_def)
    then show ?thesis using R kind ident Some by (auto simp: bind_selector_Ok)
  qed
qed

text \<open>
  C40. The selector parser accepts, up to surrounding white space, exactly the renderings of well-formed selectors and returns that
  selector: a known kind, non-empty segments, no version on a collection, and the version after the last at sign.
\<close>

theorem parse_artifact_selector_iff:
  "parse_artifact_selector raw = Ok s \<longleftrightarrow> strip raw = selector_str s \<and> selector_ok s"
proof -
  have str: "selector_str s = selector_body s @ (case rs_version s of None \<Rightarrow> '''' | Some v \<Rightarrow> ''@'' @ v)"
    by (simp add: selector_str_def selector_body_def)
  have body: "selector_body s \<noteq> []" by (simp add: selector_body_def identity_str_def split: option.split)
  let ?step = "\<lambda>body version. (if list_ex (\<lambda>s. s = []) (split_on CHR ''/'' body) then selector_invalid raw (''every segment must be non-empty in '' @ GRAMMAR) []
    else (case split_on CHR ''/'' body of
        [kind, name] \<Rightarrow> bind_selector raw None kind name version
      | [source, kind, name] \<Rightarrow> bind_selector raw (Some source) kind name version
      | _ \<Rightarrow> selector_invalid raw
          (''expected '' @ GRAMMAR @ '' or <kind>/<name>, not '' @ str_nat (length (split_on CHR ''/'' body)) @ '' path segments'') []))"
  have "parse_artifact_selector raw = Ok s \<longleftrightarrow>
      strip raw \<noteq> [] \<and> (\<exists>body version. split_version (strip raw) = Ok (body, version) \<and> ?step body version = Ok s)"
    by (auto simp: parse_artifact_selector_def Let_def split: result.splits)
  also have "\<dots> \<longleftrightarrow> strip raw \<noteq> [] \<and> split_version (strip raw) = Ok (selector_body s, rs_version s)
      \<and> identity_kind (rs_identity s) \<in> set SELECTABLE_KINDS \<and> (identity_kind (rs_identity s) = ''collection'' \<longrightarrow> rs_version s = None)
      \<and> identity_name (rs_identity s) \<noteq> [] \<and> CHR ''/'' \<notin> set (identity_name (rs_identity s))
      \<and> (case rs_source s of None \<Rightarrow> True | Some a \<Rightarrow> alias_value a \<noteq> [] \<and> CHR ''/'' \<notin> set (alias_value a))"
    unfolding parse_body_Ok by auto
  also have "\<dots> \<longleftrightarrow> strip raw = selector_str s \<and> selector_ok s"
    using body selectable_kind[of "identity_kind (rs_identity s)"]
    by (auto simp: str split_version_Ok selector_ok_def Let_def selector_body_def identity_str_def split: option.splits)
  finally show ?thesis .
qed

end
