(* ===== verification/Configuration.thy ===== *)
theory Configuration
  imports GitLocation
begin

text \<open>
  User configuration and organisation policy (\<open>agent_artifacts/configuration/model.py\<close>), the resolution of the configuration
  paths (\<open>configuration/paths.py\<close>) and the precedence of built-in, user, runtime and policy values with the policy checks
  (\<open>configuration/policy.py\<close>).
\<close>

subsection \<open>User configuration\<close>

datatype sync_mode = AUTO | MANUAL
datatype reporting_mode = DISABLED | PROMPT | AUTOMATIC

definition sync_mode_value :: "sync_mode \<Rightarrow> string" where
  "sync_mode_value m = (case m of AUTO \<Rightarrow> ''auto'' | MANUAL \<Rightarrow> ''manual'')"

definition reporting_mode_value :: "reporting_mode \<Rightarrow> string" where
  "reporting_mode_value m = (case m of DISABLED \<Rightarrow> ''disabled'' | PROMPT \<Rightarrow> ''prompt'' | AUTOMATIC \<Rightarrow> ''automatic'')"

definition TRUST_CLASSES :: "string list" where
  "TRUST_CLASSES = [''unverified'', ''local'', ''direct-source'', ''registry-reviewed'', ''company-reviewed'']"

record sync_settings =
  sy_mode :: sync_mode
  sy_max_age_seconds :: int

definition mk_sync_settings :: "sync_mode \<Rightarrow> int \<Rightarrow> sync_settings py" where
  "mk_sync_settings mode age =
     py_guard (\<not> (0 \<le> age \<and> age \<le> 2 ^ 31 - 1)) ''sync settings are invalid'' (Inr \<lparr>sy_mode = mode, sy_max_age_seconds = age\<rparr>)"

record reporting_settings =
  rs_mode :: reporting_mode
  rs_destination :: "source_alias option"

definition mk_reporting_settings :: "reporting_mode \<Rightarrow> source_alias option \<Rightarrow> reporting_settings py" where
  "mk_reporting_settings mode destination =
     py_guard (mode = AUTOMATIC \<and> destination = None) ''automatic reporting requires an explicit destination''
       (py_guard (case destination of None \<Rightarrow> False | Some d \<Rightarrow> alias_value d = []) ''reporting destination must be non-empty''
          (Inr \<lparr>rs_mode = mode, rs_destination = destination\<rparr>))"

record user_configuration =
  uc_schema_version :: int
  uc_sources :: "configured_source list"
  uc_default_registry :: "source_alias option"
  uc_sync :: sync_settings
  uc_reporting :: reporting_settings

definition git_origins :: "configured_source list \<Rightarrow> string list list" where
  "git_origins sources = map (\<lambda>s. git_origin_key (cs_kind s) (cs_location s) @ [or_empty (cs_ref s)]) [s \<leftarrow> sources. is_git s]"

definition mk_user_configuration ::
  "int \<Rightarrow> configured_source list \<Rightarrow> source_alias option \<Rightarrow> sync_settings \<Rightarrow> reporting_settings \<Rightarrow> user_configuration py" where
  "mk_user_configuration schema_version sources default_registry sync reporting =
     py_guard (schema_version \<noteq> 1) ''user configuration schema version must be 1''
       (let ordered = sort_key (alias_value \<circ> cs_alias) sources in
        py_guard (\<not> distinct (map cs_alias ordered)) ''configured source aliases must be unique''
          (py_guard (\<not> distinct (git_origins ordered)) ''each configured Git source origin and ref pair must be unique''
             (Inr \<lparr>uc_schema_version = schema_version, uc_sources = ordered, uc_default_registry = default_registry,
                   uc_sync = sync, uc_reporting = reporting\<rparr>)))"

definition default_user_configuration :: "user_configuration" where
  "default_user_configuration =
     \<lparr>uc_schema_version = 1, uc_sources = [], uc_default_registry = None,
      uc_sync = \<lparr>sy_mode = AUTO, sy_max_age_seconds = 900\<rparr>, uc_reporting = \<lparr>rs_mode = PROMPT, rs_destination = None\<rparr>\<rparr>"

subsection \<open>Organisation policy\<close>

record reporting_policy =
  rp_mode :: "reporting_mode option"
  rp_destination :: "source_alias option"
  rp_deny_public_destinations :: bool

definition mk_reporting_policy :: "reporting_mode option \<Rightarrow> source_alias option \<Rightarrow> bool \<Rightarrow> reporting_policy py" where
  "mk_reporting_policy mode destination deny =
     py_guard (case destination of None \<Rightarrow> False | Some d \<Rightarrow> alias_value d = []) ''reporting policy destination must be non-empty''
       (Inr \<lparr>rp_mode = mode, rp_destination = destination, rp_deny_public_destinations = deny\<rparr>)"

text \<open>\<open>_GIT_HOST_RE\<close>: \<open>[a-z0-9]([a-z0-9.-]*[a-z0-9])?\<close>\<close>

definition git_host_match :: "string \<Rightarrow> bool" where
  "git_host_match s \<longleftrightarrow> s \<noteq> [] \<and> lower_or_digit (hd s) \<and> lower_or_digit (last s)
     \<and> list_all (\<lambda>c. lower_or_digit c \<or> c = CHR ''.'' \<or> c = CHR ''-'') s"

record company_reviewed_source =
  crs_source_id :: source_id
  crs_git_host :: string
  crs_repository :: string

definition mk_company_reviewed_source :: "source_id \<Rightarrow> string \<Rightarrow> string \<Rightarrow> company_reviewed_source py" where
  "mk_company_reviewed_source source_id git_host repository =
     py_guard (take 1 repository = ''/'' \<or> list_ex (\<lambda>c. c \<in> set repository) ''?#'') ''company-reviewed source identity is invalid''
       (let host = casefold git_host in
        py_guard (\<not> slug_match (source_id_value source_id) \<or> \<not> git_host_match host \<or> valid_repository_path repository = None)
          ''company-reviewed source identity is invalid''
          (Inr \<lparr>crs_source_id = source_id, crs_git_host = host, crs_repository = or_empty (valid_repository_path repository)\<rparr>))"

definition crs_key :: "company_reviewed_source \<Rightarrow> source_id \<times> string \<times> string" where
  "crs_key c = (crs_source_id c, crs_git_host c, crs_repository c)"

record organization_policy =
  op_schema_version :: int
  op_recommended_sources :: "source_alias list"
  op_required_sources :: "source_alias list"
  op_allowed_git_hosts :: "string list option"
  op_allowed_repository_prefixes :: "string list option"
  op_allow_direct_sources :: "bool option"
  op_minimum_trust :: "string option"
  op_allowed_setup_capabilities :: "capability list option"
  op_allow_custom_setup_entrypoints :: "bool option"
  op_reporting :: reporting_policy
  op_company_reviewed_sources :: "company_reviewed_source list"

definition mk_organization_policy :: "organization_policy \<Rightarrow> organization_policy py" where
  "mk_organization_policy p =
     py_guard (op_schema_version p \<noteq> 1) ''organization policy schema version must be 1''
       (py_guard (case op_minimum_trust p of None \<Rightarrow> False | Some t \<Rightarrow> t \<notin> set TRUST_CLASSES)
          ''organization policy minimum trust is invalid''
          (let recommended = sorted_set (op_recommended_sources p);
               required = sorted_set (op_required_sources p);
               reviewed = sort_key crs_key (remdups (op_company_reviewed_sources p)) in
           py_guard (set recommended \<inter> set required \<noteq> {}) ''recommended and required sources must not overlap''
             (py_guard (length reviewed \<noteq> length (op_company_reviewed_sources p))
                ''company-reviewed source identities must be unique''
                (Inr (p\<lparr>op_recommended_sources := recommended, op_required_sources := required,
                        op_company_reviewed_sources := reviewed,
                        op_allowed_git_hosts := map_option sorted_set (op_allowed_git_hosts p),
                        op_allowed_repository_prefixes := map_option sorted_set (op_allowed_repository_prefixes p),
                        op_allowed_setup_capabilities := map_option sorted_set (op_allowed_setup_capabilities p)\<rparr>)))))"

definition default_organization_policy :: "organization_policy" where
  "default_organization_policy =
     \<lparr>op_schema_version = 1, op_recommended_sources = [], op_required_sources = [], op_allowed_git_hosts = None,
      op_allowed_repository_prefixes = None, op_allow_direct_sources = None, op_minimum_trust = None,
      op_allowed_setup_capabilities = None, op_allow_custom_setup_entrypoints = None,
      op_reporting = \<lparr>rp_mode = None, rp_destination = None, rp_deny_public_destinations = False\<rparr>,
      op_company_reviewed_sources = []\<rparr>"

subsection \<open>Configuration paths\<close>

datatype platform = DARWIN | LINUX

record path_overrides =
  po_config_root :: "string option"
  po_data_root :: "string option"
  po_cache_root :: "string option"
  po_policy_file :: "string option"

record config_paths =
  cp_user_config_file :: string
  cp_data_root :: string
  cp_cache_root :: string
  cp_policy_file :: string

definition mk_config_paths :: "config_paths \<Rightarrow> config_paths py" where
  "mk_config_paths p =
     py_guard (list_ex (\<lambda>path. \<not> normalized_absolute path)
         [cp_user_config_file p, cp_data_root p, cp_cache_root p, cp_policy_file p])
       ''configuration paths must be normalized absolute paths'' (Inr p)"

definition config_absolute :: "string \<Rightarrow> string \<Rightarrow> unit py" where
  "config_absolute path label =
     py_guard (\<not> normalized_absolute path) (label @ '' must be a normalized absolute path'') (Inr ())"

fun check_overrides :: "(string \<times> string option) list \<Rightarrow> unit py" where
  "check_overrides [] = Inr ()"
| "check_overrides ((label, value) # rest) =
     py_check (case value of None \<Rightarrow> Inr () | Some v \<Rightarrow> config_absolute v label) (check_overrides rest)"

definition config_lock_directory :: "config_paths \<Rightarrow> string" where
  "config_lock_directory p = cp_user_config_file p @ ''.lock''"

text \<open>\<open>x or y\<close> on an optional text: an empty text counts as absent.\<close>

definition or_else :: "string option \<Rightarrow> string \<Rightarrow> string" where
  "or_else x y = (case x of None \<Rightarrow> y | Some s \<Rightarrow> if s = [] then y else s)"

definition resolve_config_paths ::
  "platform \<Rightarrow> string \<Rightarrow> string option \<Rightarrow> string option \<Rightarrow> string option \<Rightarrow> path_overrides \<Rightarrow> config_paths py" where
  "resolve_config_paths platform home xdg_config_home xdg_data_home xdg_cache_home overrides =
     py_check (config_absolute home ''home'')
       (py_check (check_overrides
            [(''config override'', po_config_root overrides), (''data override'', po_data_root overrides),
             (''cache override'', po_cache_root overrides), (''policy override'', po_policy_file overrides),
             (''XDG config home'', xdg_config_home), (''XDG data home'', xdg_data_home), (''XDG cache home'', xdg_cache_home)])
          (let (config_root, data_root, cache_root, policy_file) =
             (case platform of
                DARWIN \<Rightarrow>
                  (let default_data = join_all home [''Library'', ''Application Support'', ''agent-artifacts''] in
                   (or_else (po_config_root overrides) default_data,
                    or_else (po_data_root overrides) default_data,
                    or_else (po_cache_root overrides) (join_all home [''Library'', ''Caches'', ''agent-artifacts'']),
                    or_else (po_policy_file overrides) ''/Library/Application Support/agent-artifacts/policy.json''))
              | LINUX \<Rightarrow>
                  (or_else (po_config_root overrides)
                     (posix_join (or_else xdg_config_home (posix_join home ''.config'')) ''agent-artifacts''),
                   or_else (po_data_root overrides)
                     (posix_join (or_else xdg_data_home (join_all home [''.local'', ''share''])) ''agent-artifacts''),
                   or_else (po_cache_root overrides)
                     (posix_join (or_else xdg_cache_home (posix_join home ''.cache'')) ''agent-artifacts''),
                   or_else (po_policy_file overrides) ''/etc/agent-artifacts/policy.json'')) in
           mk_config_paths \<lparr>cp_user_config_file = posix_join config_root ''config.json'', cp_data_root = data_root,
             cp_cache_root = cache_root, cp_policy_file = policy_file\<rparr>))"

subsection \<open>Precedence and policy\<close>

definition SOURCE_POLICY_DENIED :: diagnostic_code where "SOURCE_POLICY_DENIED = ''source-policy-denied''"
definition CONFIG_INVALID :: diagnostic_code where "CONFIG_INVALID = ''config-invalid''"

definition PUBLIC_GIT_HOSTS :: "string list" where
  "PUBLIC_GIT_HOSTS = [''github.com'', ''gitlab.com'', ''bitbucket.org'']"

record runtime_overrides =
  ro_default_registry :: "source_alias option"
  ro_sync_mode :: "sync_mode option"
  ro_max_age_seconds :: "int option"
  ro_reporting_mode :: "reporting_mode option"
  ro_reporting_destination :: "source_alias option"

definition no_overrides :: "runtime_overrides" where
  "no_overrides =
     \<lparr>ro_default_registry = None, ro_sync_mode = None, ro_max_age_seconds = None, ro_reporting_mode = None,
      ro_reporting_destination = None\<rparr>"

record effective_configuration =
  ec_configuration :: user_configuration
  ec_policy :: organization_policy
  ec_locked_fields :: "string list"

definition policy_denied :: "string \<Rightarrow> diagnostic" where
  "policy_denied message = error_diagnostic SOURCE_POLICY_DENIED (redact_text message)"

definition config_invalid :: "string \<Rightarrow> 'a result" where
  "config_invalid message = mk_err [error_diagnostic CONFIG_INVALID (redact_text message)]"

text \<open>A policy value that is set and differs from a runtime override that is set.\<close>

definition overrides_lock :: "'a option \<Rightarrow> 'a option \<Rightarrow> bool" where
  "overrides_lock locked override \<longleftrightarrow> locked \<noteq> None \<and> override \<noteq> None \<and> override \<noteq> locked"

definition locked_override_diagnostics :: "runtime_overrides \<Rightarrow> organization_policy \<Rightarrow> diagnostic list" where
  "locked_override_diagnostics overrides policy =
     (if overrides_lock (rp_mode (op_reporting policy)) (ro_reporting_mode overrides)
      then [policy_denied ''runtime override of policy-locked reporting.mode is denied''] else []) @
     (if overrides_lock (rp_destination (op_reporting policy)) (ro_reporting_destination overrides)
      then [policy_denied ''runtime override of policy-locked reporting.destination is denied''] else [])"

definition enabled_sources :: "user_configuration \<Rightarrow> (source_alias \<times> configured_source) list" where
  "enabled_sources configuration = dict_by cs_alias [s \<leftarrow> uc_sources configuration. cs_enabled s]"

definition source_diagnostics :: "organization_policy \<Rightarrow> configured_source \<Rightarrow> diagnostic list" where
  "source_diagnostics policy source =
     (if op_allow_direct_sources policy = Some False \<and> cs_kind source \<noteq> REGISTRY_GIT
      then [policy_denied (''direct source '' @ alias_value (cs_alias source) @ '' is denied by organization policy'')] else []) @
     (if \<not> is_git source then [] else
      case git_location_parts (cs_location source) of
        None \<Rightarrow> [policy_denied (''source '' @ alias_value (cs_alias source) @ '' has an invalid Git location'')]
      | Some (host, repository) \<Rightarrow>
          (if (case op_allowed_git_hosts policy of None \<Rightarrow> False | Some hosts \<Rightarrow> host \<notin> set hosts)
           then [policy_denied (''Git host for source '' @ alias_value (cs_alias source) @ '' is not allowed'')] else []) @
          (if (case op_allowed_repository_prefixes policy of None \<Rightarrow> False
               | Some prefixes \<Rightarrow> \<not> list_ex (\<lambda>p. take (length p) repository = p) prefixes)
           then [policy_denied (''repository path for source '' @ alias_value (cs_alias source) @ '' is not allowed'')] else []))"

definition destination_diagnostics :: "user_configuration \<Rightarrow> organization_policy \<Rightarrow> diagnostic list" where
  "destination_diagnostics configuration policy =
     (case rs_destination (uc_reporting configuration) of
        None \<Rightarrow> []
      | Some destination \<Rightarrow>
          (case dict_get (enabled_sources configuration) destination of
             None \<Rightarrow> [policy_denied ''reporting destination must be an enabled registry source'']
           | Some target \<Rightarrow>
               if \<not> is_registry target then [policy_denied ''reporting destination must be an enabled registry source'']
               else if rp_deny_public_destinations (op_reporting policy) then
                 (case git_location_parts (cs_location target) of
                    None \<Rightarrow> []
                  | Some (host, _) \<Rightarrow>
                      if host \<in> set PUBLIC_GIT_HOSTS then [policy_denied ''public reporting destinations are denied by policy'']
                      else [])
               else []))"

definition policy_diagnostics :: "user_configuration \<Rightarrow> organization_policy \<Rightarrow> bool \<Rightarrow> diagnostic list" where
  "policy_diagnostics configuration policy allow_missing_required_sources =
     (let enabled = enabled_sources configuration in
      (if allow_missing_required_sources then [] else
       map (\<lambda>r. policy_denied (''required source '' @ alias_value r @ '' is not configured and enabled''))
         [r \<leftarrow> op_required_sources policy. r \<notin> set (dict_keys enabled)]) @
      concat (map (source_diagnostics policy) (dict_values enabled)) @
      destination_diagnostics configuration policy)"

definition prefer_value :: "'a option \<Rightarrow> 'a \<Rightarrow> 'a" where
  "prefer_value x y = (case x of None \<Rightarrow> y | Some v \<Rightarrow> v)"

definition prefer_option :: "'a option \<Rightarrow> 'a option \<Rightarrow> 'a option" where
  "prefer_option x y = (case x of None \<Rightarrow> y | Some v \<Rightarrow> Some v)"

definition effective_settings ::
  "user_configuration \<Rightarrow> runtime_overrides \<Rightarrow> organization_policy \<Rightarrow> user_configuration py" where
  "effective_settings user overrides policy =
     (case mk_sync_settings (prefer_value (ro_sync_mode overrides) (sy_mode (uc_sync user)))
             (prefer_value (ro_max_age_seconds overrides) (sy_max_age_seconds (uc_sync user))) of
        Inl e \<Rightarrow> Inl e
      | Inr sync \<Rightarrow>
          (case mk_reporting_settings
                  (prefer_value (rp_mode (op_reporting policy)) (prefer_value (ro_reporting_mode overrides) (rs_mode (uc_reporting user))))
                  (prefer_option (rp_destination (op_reporting policy))
                     (prefer_option (ro_reporting_destination overrides) (rs_destination (uc_reporting user)))) of
             Inl e \<Rightarrow> Inl e
           | Inr reporting \<Rightarrow>
               mk_user_configuration (uc_schema_version user) (uc_sources user)
                 (prefer_option (ro_default_registry overrides) (uc_default_registry user)) sync reporting))"

definition py_message :: "py_error \<Rightarrow> string" where
  "py_message e = (case e of ValueError m \<Rightarrow> m | KeyError m \<Rightarrow> m | AssertionError \<Rightarrow> '''')"

definition locked_fields :: "organization_policy \<Rightarrow> string list" where
  "locked_fields policy =
     sort ((if rp_destination (op_reporting policy) \<noteq> None then [''reporting.destination''] else []) @
           (if rp_mode (op_reporting policy) \<noteq> None then [''reporting.mode''] else []))"

definition apply_configuration_with ::
  "user_configuration \<Rightarrow> runtime_overrides \<Rightarrow> organization_policy \<Rightarrow> bool \<Rightarrow> effective_configuration result" where
  "apply_configuration_with user overrides policy allow_missing_required_sources =
     (let locked_diagnostics = locked_override_diagnostics overrides policy in
      if locked_diagnostics \<noteq> [] then mk_err locked_diagnostics
      else
        (case effective_settings user overrides policy of
           Inl e \<Rightarrow> config_invalid (py_message e)
         | Inr effective \<Rightarrow>
             if (case uc_default_registry effective of
                   None \<Rightarrow> False
                 | Some alias \<Rightarrow>
                     (case dict_get (enabled_sources effective) alias of None \<Rightarrow> True | Some s \<Rightarrow> \<not> is_registry s))
             then config_invalid ''effective default registry must name an enabled registry''
             else
               (let diagnostics = policy_diagnostics effective policy allow_missing_required_sources in
                if diagnostics \<noteq> [] then mk_err diagnostics
                else Ok \<lparr>ec_configuration = effective, ec_policy = policy, ec_locked_fields = locked_fields policy\<rparr>)))"

definition apply_configuration ::
  "user_configuration \<Rightarrow> runtime_overrides \<Rightarrow> organization_policy \<Rightarrow> effective_configuration result" where
  "apply_configuration user overrides policy = apply_configuration_with user overrides policy False"

definition apply_configuration_for_source_management ::
  "user_configuration \<Rightarrow> organization_policy \<Rightarrow> runtime_overrides option \<Rightarrow> effective_configuration result" where
  "apply_configuration_for_source_management user policy overrides =
     apply_configuration_with user (case overrides of None \<Rightarrow> no_overrides | Some o' \<Rightarrow> o') policy True"


subsection \<open>What the policy permits\<close>

definition wf_user :: "user_configuration \<Rightarrow> bool" where
  "wf_user u \<longleftrightarrow> mk_user_configuration (uc_schema_version u) (uc_sources u) (uc_default_registry u) (uc_sync u) (uc_reporting u) = Inr u"

definition is_enabled :: "user_configuration \<Rightarrow> configured_source \<Rightarrow> bool" where
  "is_enabled u s \<longleftrightarrow> s \<in> set (uc_sources u) \<and> cs_enabled s"

text \<open>The effective values: a policy value wins over a runtime override, which wins over the user's value.\<close>

definition effective_for :: "user_configuration \<Rightarrow> runtime_overrides \<Rightarrow> organization_policy \<Rightarrow> user_configuration" where
  "effective_for u overrides policy =
     u\<lparr>uc_default_registry := prefer_option (ro_default_registry overrides) (uc_default_registry u),
       uc_sync := \<lparr>sy_mode = prefer_value (ro_sync_mode overrides) (sy_mode (uc_sync u)),
                  sy_max_age_seconds = prefer_value (ro_max_age_seconds overrides) (sy_max_age_seconds (uc_sync u))\<rparr>,
       uc_reporting :=
         \<lparr>rs_mode = prefer_value (rp_mode (op_reporting policy)) (prefer_value (ro_reporting_mode overrides) (rs_mode (uc_reporting u))),
          rs_destination = prefer_option (rp_destination (op_reporting policy))
            (prefer_option (ro_reporting_destination overrides) (rs_destination (uc_reporting u)))\<rparr>\<rparr>"

definition settings_valid :: "user_configuration \<Rightarrow> bool" where
  "settings_valid u \<longleftrightarrow>
     0 \<le> sy_max_age_seconds (uc_sync u) \<and> sy_max_age_seconds (uc_sync u) \<le> 2 ^ 31 - 1
     \<and> (rs_mode (uc_reporting u) = AUTOMATIC \<longrightarrow> rs_destination (uc_reporting u) \<noteq> None)
     \<and> rs_destination (uc_reporting u) \<noteq> Some (SourceAlias [])"

definition source_allowed :: "organization_policy \<Rightarrow> configured_source \<Rightarrow> bool" where
  "source_allowed policy s \<longleftrightarrow>
     (op_allow_direct_sources policy = Some False \<longrightarrow> cs_kind s = REGISTRY_GIT) \<and>
     (is_git s \<longrightarrow> (\<exists>host repository. git_location_parts (cs_location s) = Some (host, repository)
        \<and> (\<forall>hosts. op_allowed_git_hosts policy = Some hosts \<longrightarrow> host \<in> set hosts)
        \<and> (\<forall>prefixes. op_allowed_repository_prefixes policy = Some prefixes \<longrightarrow>
             (\<exists>p \<in> set prefixes. take (length p) repository = p))))"

definition names_registry :: "user_configuration \<Rightarrow> source_alias \<Rightarrow> bool" where
  "names_registry u alias \<longleftrightarrow> (\<exists>s. is_enabled u s \<and> cs_alias s = alias \<and> is_registry s)"

definition destination_allowed :: "user_configuration \<Rightarrow> organization_policy \<Rightarrow> bool" where
  "destination_allowed u policy \<longleftrightarrow>
     (\<forall>d. rs_destination (uc_reporting u) = Some d \<longrightarrow> names_registry u d \<and>
        (rp_deny_public_destinations (op_reporting policy) \<longrightarrow>
           (\<forall>s host repository. is_enabled u s \<longrightarrow> cs_alias s = d \<longrightarrow> git_location_parts (cs_location s) = Some (host, repository)
              \<longrightarrow> host \<notin> set PUBLIC_GIT_HOSTS)))"

definition required_present :: "user_configuration \<Rightarrow> organization_policy \<Rightarrow> bool" where
  "required_present u policy \<longleftrightarrow> (\<forall>r \<in> set (op_required_sources policy). \<exists>s. is_enabled u s \<and> cs_alias s = r)"

definition policy_permits :: "user_configuration \<Rightarrow> organization_policy \<Rightarrow> bool" where
  "policy_permits u policy \<longleftrightarrow>
     settings_valid u \<and> (\<forall>a. uc_default_registry u = Some a \<longrightarrow> names_registry u a)
     \<and> (\<forall>s. is_enabled u s \<longrightarrow> source_allowed policy s) \<and> destination_allowed u policy"

definition overrides_respect_locks :: "runtime_overrides \<Rightarrow> organization_policy \<Rightarrow> bool" where
  "overrides_respect_locks overrides policy \<longleftrightarrow>
     \<not> overrides_lock (rp_mode (op_reporting policy)) (ro_reporting_mode overrides)
     \<and> \<not> overrides_lock (rp_destination (op_reporting policy)) (ro_reporting_destination overrides)"

lemma wf_user_iff:
  "wf_user u \<longleftrightarrow> uc_schema_version u = 1 \<and> sort_key (alias_value \<circ> cs_alias) (uc_sources u) = uc_sources u
     \<and> distinct (map cs_alias (uc_sources u)) \<and> distinct (git_origins (uc_sources u))"
  by (cases u) (auto simp: wf_user_def mk_user_configuration_def py_ok Let_def)

lemma enabled_sources_eq:
  assumes "distinct (map cs_alias (uc_sources u))"
  shows "enabled_sources u = map (\<lambda>s. (cs_alias s, s)) [s \<leftarrow> uc_sources u. cs_enabled s]"
proof -
  have "distinct (map cs_alias [s \<leftarrow> uc_sources u. cs_enabled s])" using assms by (rule distinct_map_filter)
  then show ?thesis by (simp add: enabled_sources_def dict_by_distinct)
qed

lemma enabled_sources_values:
  assumes "distinct (map cs_alias (uc_sources u))"
  shows "set (dict_values (enabled_sources u)) = {s. is_enabled u s}"
    "set (dict_keys (enabled_sources u)) = cs_alias ` {s. is_enabled u s}"
  using assms by (auto simp: enabled_sources_eq is_enabled_def)

lemma enabled_sources_get:
  assumes "distinct (map cs_alias (uc_sources u))"
  shows "dict_get (enabled_sources u) a = Some s \<longleftrightarrow> is_enabled u s \<and> cs_alias s = a"
proof -
  have "distinct (map fst (enabled_sources u))"
    using distinct_map_filter[OF assms, of cs_enabled] by (simp add: enabled_sources_eq[OF assms] comp_def)
  then have "dict_get (enabled_sources u) a = Some s \<longleftrightarrow> (a, s) \<in> set (enabled_sources u)" by simp
  then show ?thesis by (auto simp: enabled_sources_eq[OF assms] is_enabled_def)
qed

lemma source_diagnostics_empty: "source_diagnostics policy s = [] \<longleftrightarrow> source_allowed policy s"
  by (auto simp: source_diagnostics_def source_allowed_def list_ex_iff split: option.splits if_splits)

lemma names_registry_get:
  assumes "distinct (map cs_alias (uc_sources u))"
  shows "names_registry u a \<longleftrightarrow> (\<exists>s. dict_get (enabled_sources u) a = Some s \<and> is_registry s)"
  using enabled_sources_get[OF assms] by (auto simp: names_registry_def)

lemma destination_diagnostics_empty:
  assumes "distinct (map cs_alias (uc_sources u))"
  shows "destination_diagnostics u policy = [] \<longleftrightarrow> destination_allowed u policy"
proof (cases "rs_destination (uc_reporting u)")
  case None
  then show ?thesis by (simp add: destination_diagnostics_def destination_allowed_def)
next
  case (Some d)
  show ?thesis
  proof (cases "dict_get (enabled_sources u) d")
    case None
    then show ?thesis using Some names_registry_get[OF assms] by (simp add: destination_diagnostics_def destination_allowed_def)
  next
    case (Some s)
    have s: "is_enabled u s" "cs_alias s = d" using enabled_sources_get[OF assms, of d s] Some by auto
    have "(\<forall>t host repository. is_enabled u t \<longrightarrow> cs_alias t = d \<longrightarrow> git_location_parts (cs_location t) = Some (host, repository)
        \<longrightarrow> host \<notin> set PUBLIC_GIT_HOSTS) \<longleftrightarrow>
      (\<forall>host repository. git_location_parts (cs_location s) = Some (host, repository) \<longrightarrow> host \<notin> set PUBLIC_GIT_HOSTS)"
      using s enabled_sources_get[OF assms, of d] Some by (metis option.inject)
    then show ?thesis
      using Some \<open>rs_destination _ = Some d\<close> names_registry_get[OF assms, of d]
      by (auto simp: destination_diagnostics_def destination_allowed_def split: option.splits)
  qed
qed

lemma concat_map_Nil: "concat (map f xs) = [] \<longleftrightarrow> (\<forall>x \<in> set xs. f x = [])"
  by auto

lemma policy_diagnostics_empty:
  assumes "distinct (map cs_alias (uc_sources u))"
  shows "policy_diagnostics u policy missing = [] \<longleftrightarrow>
    (missing \<or> required_present u policy) \<and> (\<forall>s. is_enabled u s \<longrightarrow> source_allowed policy s) \<and> destination_allowed u policy"
proof -
  have "concat (map (source_diagnostics policy) (dict_values (enabled_sources u))) = [] \<longleftrightarrow>
      (\<forall>s. is_enabled u s \<longrightarrow> source_allowed policy s)"
    using enabled_sources_values(1)[OF assms] by (simp only: concat_map_Nil source_diagnostics_empty) simp
  moreover have "[r \<leftarrow> op_required_sources policy. r \<notin> set (dict_keys (enabled_sources u))] = [] \<longleftrightarrow> required_present u policy"
    using enabled_sources_values(2)[OF assms] by (auto simp: required_present_def filter_empty_conv simp del: set_map)
  ultimately show ?thesis
    by (auto simp: policy_diagnostics_def Let_def destination_diagnostics_empty[OF assms] simp del: concat_eq_Nil_conv set_map)
qed

lemma effective_settings_eq:
  assumes "wf_user u"
  shows "effective_settings u overrides policy = Inr e \<longleftrightarrow>
    settings_valid (effective_for u overrides policy) \<and> e = effective_for u overrides policy"
  using assms by (cases u)
    (auto simp: effective_settings_def effective_for_def settings_valid_def mk_sync_settings_def mk_reporting_settings_def
      mk_user_configuration_def wf_user_iff Let_def py_guard_def source_alias.expand split: sum.splits option.splits if_splits)


lemma apply_configuration_with_Ok:
  assumes "wf_user u"
  shows "apply_configuration_with u overrides policy missing = Ok e \<longleftrightarrow>
    overrides_respect_locks overrides policy \<and> policy_permits (effective_for u overrides policy) policy
    \<and> (missing \<or> required_present (effective_for u overrides policy) policy)
    \<and> e = \<lparr>ec_configuration = effective_for u overrides policy, ec_policy = policy, ec_locked_fields = locked_fields policy\<rparr>"
proof -
  let ?e = "effective_for u overrides policy"
  have distinct: "distinct (map cs_alias (uc_sources ?e))" using assms by (simp add: wf_user_iff effective_for_def)
  have locks: "locked_override_diagnostics overrides policy = [] \<longleftrightarrow> overrides_respect_locks overrides policy"
    by (auto simp: locked_override_diagnostics_def overrides_respect_locks_def)
  have registry: "(case uc_default_registry ?e of None \<Rightarrow> False
      | Some a \<Rightarrow> (case dict_get (enabled_sources ?e) a of None \<Rightarrow> True | Some s \<Rightarrow> \<not> is_registry s)) \<longleftrightarrow>
    \<not> (\<forall>a. uc_default_registry ?e = Some a \<longrightarrow> names_registry ?e a)"
    by (auto simp: names_registry_get[OF distinct] split: option.splits)
  show ?thesis
  proof (cases "effective_settings u overrides policy")
    case (Inl err)
    then have "\<not> settings_valid ?e" using effective_settings_eq[OF assms, of overrides policy ?e] by auto
    then show ?thesis using Inl by (auto simp: apply_configuration_with_def Let_def policy_permits_def config_invalid_def mk_err_def)
  next
    case (Inr e')
    then have "settings_valid ?e" "e' = ?e" using effective_settings_eq[OF assms] by auto
    then show ?thesis using Inr locks registry policy_diagnostics_empty[OF distinct, of policy missing]
      by (auto simp: apply_configuration_with_def Let_def policy_permits_def config_invalid_def mk_err_def)
  qed
qed

text \<open>
  C13. Applying the configuration is exact. For a constructed user configuration, it succeeds exactly when
  no runtime override contradicts a policy-locked value, the effective settings are valid, the default registry and the reporting
  destination are enabled registries (not on a public host where the policy denies it), every enabled source is of a permitted kind,
  host and repository, and every required source is enabled; the result is then the configuration in which policy values win over
  runtime overrides and these over the user's values. Source management drops only the check of the required sources.
\<close>

theorem apply_configuration_exact:
  assumes "wf_user u"
  shows "(apply_configuration u overrides policy = Ok e \<longleftrightarrow>
      overrides_respect_locks overrides policy \<and> policy_permits (effective_for u overrides policy) policy
      \<and> required_present (effective_for u overrides policy) policy
      \<and> e = \<lparr>ec_configuration = effective_for u overrides policy, ec_policy = policy, ec_locked_fields = locked_fields policy\<rparr>)
    \<and> (apply_configuration_for_source_management u policy (Some overrides) = Ok e \<longleftrightarrow>
      overrides_respect_locks overrides policy \<and> policy_permits (effective_for u overrides policy) policy
      \<and> e = \<lparr>ec_configuration = effective_for u overrides policy, ec_policy = policy, ec_locked_fields = locked_fields policy\<rparr>)"
  by (simp add: apply_configuration_def apply_configuration_for_source_management_def apply_configuration_with_Ok[OF assms])

definition sample_source :: configured_source where
  "sample_source = \<lparr>cs_alias = SourceAlias ''team'', cs_kind = REGISTRY_GIT, cs_location = ''git@git.acme.io:org/registry'',
     cs_ref = Some ''main'', cs_enabled = True\<rparr>"

definition sample_user :: user_configuration where
  "sample_user = default_user_configuration\<lparr>uc_sources := [sample_source]\<rparr>"

definition sample_policy :: organization_policy where
  "sample_policy = default_organization_policy\<lparr>op_allowed_git_hosts := Some [''git.acme.io''], op_required_sources := [SourceAlias ''team'']\<rparr>"

theorem apply_configuration_exact_witness:
  "apply_configuration sample_user no_overrides sample_policy
     = Ok \<lparr>ec_configuration = sample_user, ec_policy = sample_policy, ec_locked_fields = []\<rparr>"
proof -
  let ?e = "\<lparr>ec_configuration = sample_user, ec_policy = sample_policy, ec_locked_fields = []\<rparr>"
  have "wf_user sample_user" by code_simp
  moreover have "effective_for sample_user no_overrides sample_policy = sample_user" "locked_fields sample_policy = []" by code_simp+
  moreover have "overrides_respect_locks no_overrides sample_policy" by code_simp
  moreover have on: "is_enabled sample_user s \<longleftrightarrow> s = sample_source" for s
    by (auto simp: is_enabled_def sample_user_def sample_source_def)
  moreover have "git_location_parts (cs_location sample_source) = Some (''git.acme.io'', ''org/registry'')" by code_simp
  ultimately show ?thesis
    using apply_configuration_exact[of sample_user no_overrides sample_policy ?e]
    by (simp add: policy_permits_def required_present_def settings_valid_def source_allowed_def destination_allowed_def
        sample_policy_def sample_user_def sample_source_def default_organization_policy_def default_user_configuration_def)
qed

end
