(* ===== verification/InstallSchema.thy ===== *)
theory InstallSchema
  imports InstallState Schema
begin

text \<open>
  The reader and the writer of the installation manifest (\<open>agent_artifacts/install_state/schema.py\<close>). A reader takes the path
  and the JSON pointer it reports; a field that a reader takes after the check of the required fields is present.
\<close>

definition STATE_INVALID :: diagnostic_code where "STATE_INVALID = ''install-state-invalid''"
definition INSTALL_STATE_LEGACY :: diagnostic_code where "INSTALL_STATE_LEGACY = ''install-state-legacy''"

definition state_location :: "string \<Rightarrow> string option \<Rightarrow> source_location" where
  "state_location path pointer =
     \<lparr>loc_source = None, loc_path = Some path, loc_pointer = pointer, loc_line = None, loc_column = None\<rparr>"

definition state_error :: "string \<Rightarrow> string \<Rightarrow> string option \<Rightarrow> 'a result" where
  "state_error message path pointer = mk_err [mk_diagnostic STATE_INVALID ERROR message (Some (state_location path pointer)) [] []]"

definition legacy_v01_error :: "string \<Rightarrow> 'a result" where
  "legacy_v01_error path =
     mk_err [mk_diagnostic INSTALL_STATE_LEGACY ERROR ''AART 0.1 installation state was detected.'' (Some (state_location path None))
       [''Remove the retired state file and reinstall: this revision is not converted at runtime'',
        ''Reinstall the artifacts you need with: aart marketplace install <coordinate> --profile <name>'']
       [(''detected_schema'', ''install-state-v0.1''), (''required_schema'', ''install-state-v2'')]]"

definition is_legacy_v01_envelope :: "json_value \<Rightarrow> bool" where
  "is_legacy_v01_envelope value =
     (case value of
        JObject es \<Rightarrow> set (json_keys es) = {''repo'', ''installed''}
          \<and> (case json_get es ''repo'' of Some (JStr _) \<Rightarrow> True | _ \<Rightarrow> False)
          \<and> (case json_get es ''installed'' of Some (JArray _) \<Rightarrow> True | _ \<Rightarrow> False)
      | _ \<Rightarrow> False)"

definition as_install_state_invalid :: "diagnostic list \<Rightarrow> 'a result" where
  "as_install_state_invalid ds =
     mk_err (map (\<lambda>d. mk_diagnostic STATE_INVALID (diag_severity d) (diag_message d) (diag_location d) (diag_remediation d) (diag_details d)) ds)"

subsection \<open>Reading values\<close>

text \<open>The field sets are disjoint constants, so that the validation raises for none of them.\<close>

definition state_object ::
  "json_value \<Rightarrow> string list \<Rightarrow> string list \<Rightarrow> string \<Rightarrow> string \<Rightarrow> json_entries result" where
  "state_object value required optional path pointer =
     (case value of
        JObject es \<Rightarrow>
          (case validate_object_fields es required optional False (Some (state_location path (Some pointer))) of
             Inr r \<Rightarrow> r
           | Inl _ \<Rightarrow> Ok es)
      | _ \<Rightarrow> state_error ''installation state value must be an object'' path (Some pointer))"

definition json_field :: "json_entries \<Rightarrow> string \<Rightarrow> json_value" where
  "json_field es name = (case json_get es name of None \<Rightarrow> JNull | Some v \<Rightarrow> v)"

definition state_string :: "json_value \<Rightarrow> string \<Rightarrow> string \<Rightarrow> string \<Rightarrow> string result" where
  "state_string value label path pointer =
     (case value of
        JStr s \<Rightarrow>
          if stripped_line s then Ok s
          else state_error (label @ '' must be a non-empty single-line string'') path (Some pointer)
      | _ \<Rightarrow> state_error (label @ '' must be a non-empty single-line string'') path (Some pointer))"

definition state_integer :: "json_value \<Rightarrow> string \<Rightarrow> string \<Rightarrow> string \<Rightarrow> int result" where
  "state_integer value label path pointer =
     (case value of JInt n \<Rightarrow> Ok n | _ \<Rightarrow> state_error (label @ '' must be an integer'') path (Some pointer))"

definition state_boolean :: "json_value \<Rightarrow> string \<Rightarrow> string \<Rightarrow> string \<Rightarrow> bool result" where
  "state_boolean value label path pointer =
     (case value of JBool b \<Rightarrow> Ok b | _ \<Rightarrow> state_error (label @ '' must be a boolean'') path (Some pointer))"

definition state_digest :: "json_value \<Rightarrow> string \<Rightarrow> string \<Rightarrow> string \<Rightarrow> object_digest result" where
  "state_digest value label path pointer =
     bind_result (state_string value label path pointer) (\<lambda>raw. parse_sha256 raw (Some (state_location path (Some pointer))))"

definition field_string :: "json_entries \<Rightarrow> string \<Rightarrow> string \<Rightarrow> string \<Rightarrow> string \<Rightarrow> string result" where
  "field_string es prefix name path pointer = state_string (json_field es name) (prefix @ name) path (pointer @ ''/'' @ name)"

definition optional_string :: "json_entries \<Rightarrow> string \<Rightarrow> string \<Rightarrow> string \<Rightarrow> string \<Rightarrow> string option result" where
  "optional_string es prefix name path pointer =
     (if name \<in> set (json_keys es) then map_ok (field_string es prefix name path pointer) Some else Ok None)"

definition field_digest :: "json_entries \<Rightarrow> string \<Rightarrow> string \<Rightarrow> string \<Rightarrow> object_digest result" where
  "field_digest es name path pointer = state_digest (json_field es name) name path (pointer @ ''/'' @ name)"

definition optional_digest :: "json_entries \<Rightarrow> string \<Rightarrow> string \<Rightarrow> string \<Rightarrow> object_digest option result" where
  "optional_digest es name path pointer =
     (if name \<in> set (json_keys es) then map_ok (field_digest es name path pointer) Some else Ok None)"

definition field_flag :: "json_entries \<Rightarrow> string \<Rightarrow> string \<Rightarrow> string \<Rightarrow> bool result" where
  "field_flag es name path pointer =
     (if name \<in> set (json_keys es) then state_boolean (json_field es name) name path (pointer @ ''/'' @ name) else Ok False)"

text \<open>\<open>try: ... except ValueError as error\<close> around a constructor\<close>

definition constructed :: "'a py \<Rightarrow> string \<Rightarrow> string option \<Rightarrow> 'a result" where
  "constructed r path pointer =
     (case r of
        Inr v \<Rightarrow> Ok v
      | Inl (ValueError message) \<Rightarrow> state_error message path pointer
      | Inl _ \<Rightarrow> state_error '''' path pointer)"

definition source_kind_of :: "string \<Rightarrow> source_kind py" where
  "source_kind_of s =
     (if s = ''registry-git'' then Inr REGISTRY_GIT else if s = ''source-git'' then Inr SOURCE_GIT
      else if s = ''source-local'' then Inr SOURCE_LOCAL
      else Inl (ValueError (repr_str s @ '' is not a valid SourceKind'')))"

definition read_source :: "json_value \<Rightarrow> string \<Rightarrow> string \<Rightarrow> source_evidence result" where
  "read_source value path pointer =
     bind_result (state_object value [''alias'', ''declared_id'', ''kind'', ''origin'', ''resolved_commit''] [''subscription_ref''] path pointer)
       (\<lambda>es. bind_result (field_string es ''source.'' ''alias'' path pointer)
       (\<lambda>alias. bind_result (field_string es ''source.'' ''declared_id'' path pointer)
       (\<lambda>declared_id. bind_result (field_string es ''source.'' ''kind'' path pointer)
       (\<lambda>kind. bind_result (field_string es ''source.'' ''origin'' path pointer)
       (\<lambda>origin. bind_result (field_string es ''source.'' ''resolved_commit'' path pointer)
       (\<lambda>resolved_commit. bind_result (optional_string es ''source.'' ''subscription_ref'' path pointer)
       (\<lambda>subscription_ref.
          constructed (case source_kind_of kind of
              Inl e \<Rightarrow> Inl e
            | Inr k \<Rightarrow>
                mk_source_evidence \<lparr>sev_alias = SourceAlias alias, sev_declared_id = SourceId declared_id, sev_kind = k,
                  sev_origin = origin, sev_resolved_commit = resolved_commit, sev_subscription_ref = subscription_ref\<rparr>)
            path (Some pointer))))))))"

definition read_artifact :: "json_value \<Rightarrow> string \<Rightarrow> string \<Rightarrow> artifact_evidence result" where
  "read_artifact value path pointer =
     bind_result (state_object value [''type'', ''name'', ''version'', ''manifest_digest'', ''payload_digest'', ''object_digest''] [] path pointer)
       (\<lambda>es. bind_result (field_string es ''artifact.'' ''type'' path pointer)
       (\<lambda>kind. bind_result (field_string es ''artifact.'' ''name'' path pointer)
       (\<lambda>name. bind_result (field_string es ''artifact.'' ''version'' path pointer)
       (\<lambda>raw_version. bind_result (parse_semver raw_version (Some (state_location path (Some (pointer @ ''/version'')))))
       (\<lambda>version. bind_result (field_digest es ''manifest_digest'' path pointer)
       (\<lambda>manifest_digest. bind_result (field_digest es ''payload_digest'' path pointer)
       (\<lambda>payload_digest. bind_result (field_digest es ''object_digest'' path pointer)
       (\<lambda>object_digest.
          constructed (mk_artifact_evidence
              \<lparr>aev_identity = ArtifactIdentity kind name, aev_version = version, aev_manifest_digest = manifest_digest,
               aev_payload_digest = payload_digest, aev_object_digest = object_digest\<rparr>)
            path (Some pointer)))))))))"

definition read_effect :: "json_value \<Rightarrow> string \<Rightarrow> string \<Rightarrow> effect_proof result" where
  "read_effect value path pointer =
     bind_result (state_object value [''kind'', ''destination'', ''actual_mode'', ''installed_digest'']
         [''source_path'', ''json_path'', ''merge_mode'', ''identity_digest'', ''identity_evidence'', ''link_target'', ''link_semantics'',
          ''created_destination'', ''overwrote'', ''restores_from''] path pointer)
       (\<lambda>es. bind_result (field_string es '''' ''kind'' path pointer)
       (\<lambda>kind. bind_result (field_string es '''' ''destination'' path pointer)
       (\<lambda>destination. bind_result (field_string es '''' ''actual_mode'' path pointer)
       (\<lambda>actual_mode. bind_result (field_digest es ''installed_digest'' path pointer)
       (\<lambda>installed. bind_result (optional_string es '''' ''source_path'' path pointer)
       (\<lambda>source_path. bind_result (optional_string es '''' ''json_path'' path pointer)
       (\<lambda>json_path. bind_result (optional_string es '''' ''merge_mode'' path pointer)
       (\<lambda>merge_mode. bind_result (optional_string es '''' ''link_target'' path pointer)
       (\<lambda>link_target. bind_result (optional_string es '''' ''link_semantics'' path pointer)
       (\<lambda>link_semantics. bind_result (optional_string es '''' ''restores_from'' path pointer)
       (\<lambda>restores_from. bind_result (optional_digest es ''identity_digest'' path pointer)
       (\<lambda>identity. bind_result (field_flag es ''created_destination'' path pointer)
       (\<lambda>created_destination. bind_result (field_flag es ''overwrote'' path pointer)
       (\<lambda>overwrote.
          constructed (mk_effect_proof
              \<lparr>ep_kind = kind, ep_destination = destination, ep_actual_mode = actual_mode, ep_installed_digest = installed,
               ep_source_path = source_path, ep_json_path = json_path, ep_merge_mode = merge_mode, ep_identity_digest = identity,
               ep_identity_evidence = json_field es ''identity_evidence'', ep_link_target = link_target,
               ep_link_semantics = link_semantics, ep_created_destination = created_destination, ep_overwrote = overwrote,
               ep_restores_from = restores_from\<rparr>)
            path (Some pointer)))))))))))))))"

definition read_coordinate :: "string \<Rightarrow> string \<Rightarrow> string \<Rightarrow> artifact_coordinate result" where
  "read_coordinate raw path pointer =
     (case split_on CHR ''/'' raw of
        [source, kind, name] \<Rightarrow> Ok (ArtifactCoordinate (SourceAlias source) (ArtifactIdentity kind name) None)
      | _ \<Rightarrow> state_error ''coordinate must be <source>/<type>/<name>'' path (Some pointer))"

text \<open>The loop over a JSON array: the first error ends it.\<close>

fun read_items :: "(json_value \<Rightarrow> nat \<Rightarrow> 'a result) \<Rightarrow> nat \<Rightarrow> json_value list \<Rightarrow> 'a list result" where
  "read_items reader i [] = Ok []"
| "read_items reader i (v # vs) = bind_result (reader v i) (\<lambda>x. map_ok (read_items reader (Suc i) vs) (Cons x))"

definition read_effects :: "json_value \<Rightarrow> string \<Rightarrow> string \<Rightarrow> effect_proof list result" where
  "read_effects value path pointer =
     (case value of
        JArray items \<Rightarrow>
          if items = [] then state_error ''effects must be a non-empty array'' path (Some (pointer @ ''/effects''))
          else read_items (\<lambda>v i. read_effect v path (pointer @ ''/effects/'' @ str_nat i)) 0 items
      | _ \<Rightarrow> state_error ''effects must be a non-empty array'' path (Some (pointer @ ''/effects'')))"

text \<open>The record reads its coordinate, source, artifact and version before it reports the first of their errors.\<close>

definition read_record :: "string \<Rightarrow> json_value \<Rightarrow> nat \<Rightarrow> installation_record result" where
  "read_record path value index =
     (let pointer = ''/installations/'' @ str_nat index in
      bind_result (state_object value
          [''coordinate'', ''source'', ''artifact'', ''profile'', ''profile_version'', ''scope'', ''requested_mode'', ''effects'']
          [''memory_mode'', ''setup_state_ref''] path pointer)
        (\<lambda>es. bind_result (field_string es '''' ''coordinate'' path pointer)
        (\<lambda>raw_coordinate. bind_result (field_string es '''' ''profile'' path pointer)
        (\<lambda>profile. bind_result (field_string es '''' ''scope'' path pointer)
        (\<lambda>scope. bind_result (field_string es '''' ''requested_mode'' path pointer)
        (\<lambda>requested_mode. bind_result (read_coordinate raw_coordinate path (pointer @ ''/coordinate''))
        (\<lambda>coordinate. bind_result (read_source (json_field es ''source'') path (pointer @ ''/source''))
        (\<lambda>source. bind_result (read_artifact (json_field es ''artifact'') path (pointer @ ''/artifact''))
        (\<lambda>artifact. bind_result (state_integer (json_field es ''profile_version'') ''profile_version'' path (pointer @ ''/profile_version''))
        (\<lambda>profile_version. bind_result (read_effects (json_field es ''effects'') path pointer)
        (\<lambda>effects. bind_result (optional_string es '''' ''setup_state_ref'' path pointer)
        (\<lambda>setup_ref. bind_result (optional_string es '''' ''memory_mode'' path pointer)
        (\<lambda>memory_mode.
           constructed (mk_installation_record
               \<lparr>ir_coordinate = coordinate, ir_source = source, ir_artifact = artifact, ir_profile = profile,
                ir_profile_version = profile_version, ir_scope = scope, ir_requested_mode = requested_mode, ir_effects = effects,
                ir_memory_mode = memory_mode, ir_setup_state_ref = setup_ref\<rparr>)
             path (Some pointer))))))))))))))"

definition parse_v2_install_state :: "json_value \<Rightarrow> string \<Rightarrow> install_state result" where
  "parse_v2_install_state value path =
     bind_result (state_object value [''schema_version'', ''installations''] [] path '''')
       (\<lambda>es. bind_result (state_integer (json_field es ''schema_version'') ''schema_version'' path ''/schema_version'')
       (\<lambda>schema_version.
          if schema_version \<noteq> 2 then state_error ''schema_version must be 2'' path (Some ''/schema_version'')
          else
            (case json_field es ''installations'' of
               JArray items \<Rightarrow>
                 bind_result (read_items (read_record path) 0 items) (\<lambda>records. constructed (mk_install_state 2 records) path None)
             | _ \<Rightarrow> state_error ''installations must be an array'' path (Some ''/installations''))))"

text \<open>\<open>None\<close> is a manifest with a character beyond U+00FF, which the model of the JSON reader does not cover.\<close>

definition parse_install_state :: "bytes \<Rightarrow> string \<Rightarrow> install_state result option" where
  "parse_install_state data path =
     (case parse_json data (Some (state_location path None)) MAX_DEPTH MAX_STRING_LENGTH of
        None \<Rightarrow> None
      | Some (Err ds) \<Rightarrow> Some (as_install_state_invalid ds)
      | Some (Ok value) \<Rightarrow>
          Some (if is_legacy_v01_envelope value then legacy_v01_error path
                else (case parse_v2_install_state value path of Ok s \<Rightarrow> Ok s | Err ds \<Rightarrow> as_install_state_invalid ds)))"

subsection \<open>Writing values\<close>

definition optional_member :: "string \<Rightarrow> ('a \<Rightarrow> json_value) \<Rightarrow> 'a option \<Rightarrow> json_entries" where
  "optional_member name enc x = (case x of None \<Rightarrow> [] | Some v \<Rightarrow> [(name, enc v)])"

abbreviation JDigest :: "object_digest \<Rightarrow> json_value" where
  "JDigest d \<equiv> JStr (digest_str d)"

definition effect_json :: "effect_proof \<Rightarrow> json_value" where
  "effect_json e =
     json_object
       ([(''kind'', JStr (ep_kind e)), (''destination'', JStr (ep_destination e)), (''actual_mode'', JStr (ep_actual_mode e)),
         (''installed_digest'', JDigest (ep_installed_digest e))] @
        optional_member ''source_path'' JStr (ep_source_path e) @
        optional_member ''json_path'' JStr (ep_json_path e) @
        optional_member ''merge_mode'' JStr (ep_merge_mode e) @
        optional_member ''identity_digest'' JDigest (ep_identity_digest e) @
        (if ep_identity_evidence e \<noteq> JNull then [(''identity_evidence'', ep_identity_evidence e)] else []) @
        optional_member ''link_target'' JStr (ep_link_target e) @
        optional_member ''link_semantics'' JStr (ep_link_semantics e) @
        optional_member ''restores_from'' JStr (ep_restores_from e) @
        [(''created_destination'', JBool (ep_created_destination e)), (''overwrote'', JBool (ep_overwrote e))])"

definition source_evidence_json :: "source_evidence \<Rightarrow> json_value" where
  "source_evidence_json s =
     json_object
       ([(''alias'', JStr (alias_value (sev_alias s))), (''declared_id'', JStr (source_id_value (sev_declared_id s))),
         (''kind'', JStr (source_kind_value (sev_kind s))), (''origin'', JStr (sev_origin s)),
         (''resolved_commit'', JStr (sev_resolved_commit s))] @
        optional_member ''subscription_ref'' JStr (sev_subscription_ref s))"

definition artifact_evidence_json :: "artifact_evidence \<Rightarrow> json_value" where
  "artifact_evidence_json a =
     json_object
       [(''type'', JStr (identity_kind (aev_identity a))), (''name'', JStr (identity_name (aev_identity a))),
        (''version'', JStr (semver_str (aev_version a))), (''manifest_digest'', JDigest (aev_manifest_digest a)),
        (''payload_digest'', JDigest (aev_payload_digest a)), (''object_digest'', JDigest (aev_object_digest a))]"

definition record_json :: "installation_record \<Rightarrow> json_value" where
  "record_json r =
     json_object
       ([(''coordinate'', JStr (coordinate_str (ir_coordinate r))), (''source'', source_evidence_json (ir_source r)),
         (''artifact'', artifact_evidence_json (ir_artifact r)), (''profile'', JStr (ir_profile r)),
         (''profile_version'', JInt (ir_profile_version r)), (''scope'', JStr (ir_scope r)),
         (''requested_mode'', JStr (ir_requested_mode r)), (''effects'', JArray (map effect_json (ir_effects r)))] @
        optional_member ''memory_mode'' JStr (ir_memory_mode r) @
        optional_member ''setup_state_ref'' JStr (ir_setup_state_ref r))"

definition install_state_to_json :: "install_state \<Rightarrow> json_value" where
  "install_state_to_json s =
     json_object [(''schema_version'', JInt (ist_schema_version s)), (''installations'', JArray (map record_json (ist_installations s)))]"

definition install_state_bytes :: "install_state \<Rightarrow> bytes" where
  "install_state_bytes s = canonical_json_bytes (install_state_to_json s)"


subsection \<open>Texts that the readers accept\<close>

lemma stripped_lineI:
  assumes "s \<noteq> []" "\<And>c. c \<in> set s \<Longrightarrow> \<not> is_space c"
  shows "stripped_line s"
proof -
  have "dropWhile is_space s = s" using assms by (cases s) auto
  moreover have "dropWhile is_space (rev s) = rev s" using assms by (cases "rev s") (auto simp: rev_swap)
  moreover have "is_space CHR 0x0D" "is_space CHR 0x0A" by code_simp+
  ultimately show ?thesis using assms by (auto simp: stripped_line_def strip_def)
qed

text \<open>The characters of slugs, digests, versions and references: none of them is white space.\<close>

definition plain_char :: "char \<Rightarrow> bool" where
  "plain_char c \<longleftrightarrow> is_lower c \<or> is_upper c \<or> is_digit c \<or> c \<in> set ''-._:+/''"

lemma plain_not_space: "plain_char c \<Longrightarrow> \<not> is_space c"
proof -
  have "list_all (\<lambda>c. \<not> is_space c) ''-._:+/''" by code_simp
  then show "plain_char c \<Longrightarrow> \<not> is_space c"
    unfolding plain_char_def is_lower_def is_upper_def is_digit_def between_def less_eq_char_def
    by (auto simp: is_space_def Let_def list_all_iff)
qed

lemma plain_stripped: "s \<noteq> [] \<Longrightarrow> list_all plain_char s \<Longrightarrow> stripped_line s"
  by (rule stripped_lineI) (auto simp: list_all_iff plain_not_space)

lemma plain_chars:
  "lower_or_digit c \<Longrightarrow> plain_char c" "is_lower_hex c \<Longrightarrow> plain_char c" "is_digit c \<Longrightarrow> plain_char c" "ident_char c \<Longrightarrow> plain_char c"
  by (auto simp: plain_char_def lower_or_digit_def is_lower_hex_def ident_char_def between_def is_lower_def less_eq_char_def)

lemma slug_chars:
  assumes "slug_match s"
  shows "s \<noteq> []" "c \<in> set s \<Longrightarrow> lower_or_digit c \<or> c = CHR ''-''"
proof -
  let ?p = "split_on CHR ''-'' s"
  have parts: "list_all (\<lambda>p. p \<noteq> [] \<and> list_all lower_or_digit p) ?p" using assms by (simp add: slug_match_def Let_def)
  then show "s \<noteq> []" by (cases s) auto
  have "set (join ''-'' ?p) \<subseteq> \<Union>(set ` set ?p) \<union> set ''-''" by (rule set_join)
  then show "c \<in> set s \<Longrightarrow> lower_or_digit c \<or> c = CHR ''-''" using parts by (fastforce simp: list_all_iff join_split_on)
qed


lemma slug_plain: "slug_match s \<Longrightarrow> s \<noteq> [] \<and> list_all plain_char s"
  using slug_chars[of s] plain_chars(1) by (auto simp: list_all_iff plain_char_def)

lemma digest_plain: "valid_digest d \<Longrightarrow> digest_str d \<noteq> [] \<and> list_all plain_char (digest_str d)"
  using plain_chars(2) by (auto simp: valid_digest_def digest_str_def list_all_iff plain_char_def is_lower_def is_digit_def between_def less_eq_char_def)

lemma commit_plain: "commit_re s \<Longrightarrow> s \<noteq> [] \<and> list_all plain_char s"
  using plain_chars(2) by (auto simp: commit_re_def list_all_iff)

lemma local_revision_plain:
  assumes "local_revision_re s"
  shows "s \<noteq> [] \<and> list_all plain_char s"
proof (cases "s = ''local''")
  case False
  with assms have "take 6 s = ''local:''" and hex: "list_all is_lower_hex (drop 6 s)" by (auto simp: local_revision_re_def)
  then have s: "s = ''local:'' @ drop 6 s" by (metis append_take_drop_id)
  moreover have "list_all plain_char ''local:''" by code_simp
  moreover have "list_all plain_char (drop 6 s)" using hex plain_chars(2) by (auto simp: list_all_iff)
  ultimately have "list_all plain_char s" by (metis list_all_append)
  with s show ?thesis by auto
next
  case True
  moreover have "list_all plain_char ''local''" by code_simp
  ultimately show ?thesis by simp
qed

lemma setup_ref_plain:
  assumes "setup_ref_match s"
  shows "s \<noteq> [] \<and> list_all plain_char s"
proof -
  obtain c t where s: "s = c # t" using assms by (cases s) (simp_all add: setup_ref_match_def)
  have "plain_char CHR ''.''" "plain_char CHR ''_''" "plain_char CHR ''-''" by code_simp+
  then have "plain_char x" if "lower_or_digit x \<or> x = CHR ''.'' \<or> x = CHR ''_'' \<or> x = CHR ''-''" for x
    using that plain_chars(1) by blast
  moreover have "lower_or_digit c"
    "list_all (\<lambda>x. lower_or_digit x \<or> x = CHR ''.'' \<or> x = CHR ''_'' \<or> x = CHR ''-'') t"
    using assms by (simp_all add: setup_ref_match_def s)
  ultimately show ?thesis unfolding s by (simp add: list_all_iff)
qed

lemma str_int_plain: "0 \<le> n \<Longrightarrow> list_all plain_char (str_int n)"
  using str_nat_digits[of "nat n"] plain_chars(3) by (auto simp: str_int_def list_all_iff)

lemma ids_plain:
  assumes "list_all valid_identifier ps" "plain_char c"
  shows "list_all plain_char (opt_part c (ids_text ps))"
proof -
  have "list_all plain_char (join ''.'' ps)"
    using assms(1) set_join[of "''.''" ps] plain_chars(4)
    by (fastforce simp: valid_identifier_def list_all_iff plain_char_def)
  with assms(2) show ?thesis by (simp add: opt_part_def ids_text_def)
qed

lemma semver_plain:
  assumes "valid_semver v"
  shows "semver_str v \<noteq> [] \<and> list_all plain_char (semver_str v)"
proof -
  have "list_all valid_identifier (map prerelease_str (sv_prerelease v))" "list_all valid_identifier (sv_build v)"
    using assms valid_prerelease_identifier by (auto simp: valid_semver_def list_all_iff)
  moreover have "list_all plain_char ''-+.''" by code_simp
  ultimately show ?thesis
    using assms ids_plain by (auto simp: semver_str_parts valid_semver_def valid_number_def str_int_plain)
qed

lemma coordinate_plain:
  assumes "slug_match (alias_value a)" "slug_match k" "slug_match n"
  shows "list_all plain_char (coordinate_str (ArtifactCoordinate a (ArtifactIdentity k n) None))"
  using assms[THEN slug_plain] by (simp add: coordinate_str_def identity_str_def) (simp add: plain_char_def)

lemmas plain_texts = slug_plain digest_plain commit_plain local_revision_plain setup_ref_plain semver_plain

lemma plain_text_stripped:
  "slug_match s \<Longrightarrow> stripped_line s" "valid_digest d \<Longrightarrow> stripped_line (digest_str d)" "commit_re s \<Longrightarrow> stripped_line s"
  "local_revision_re s \<Longrightarrow> stripped_line s" "setup_ref_match s \<Longrightarrow> stripped_line s" "valid_semver v \<Longrightarrow> stripped_line (semver_str v)"
  using plain_texts plain_stripped by blast+


subsection \<open>Reading back what was written\<close>

text \<open>
  A codec writes a value as JSON and reads it back at an array position. It reads back exactly the readable ones among the
  well-formed values, and then the value itself; so does the reader of an array of them.
\<close>

locale codec =
  fixes enc :: "'a \<Rightarrow> json_value" and reader :: "json_value \<Rightarrow> nat \<Rightarrow> 'a result" and ok :: "'a \<Rightarrow> bool" and readable :: "'a \<Rightarrow> bool"
  assumes read_enc: "ok x \<Longrightarrow> readable x \<Longrightarrow> reader (enc x) i = Ok x"
    and read_only: "ok x \<Longrightarrow> reader (enc x) i = Ok y \<Longrightarrow> readable x"
begin

lemma read_items_enc:
  "list_all ok xs \<Longrightarrow> list_all readable xs \<Longrightarrow> read_items reader i (map enc xs) = Ok xs"
  by (induction xs arbitrary: i) (simp_all add: bind_result_def map_ok_def read_enc)

lemma read_items_only:
  "list_all ok xs \<Longrightarrow> read_items reader i (map enc xs) = Ok ys \<Longrightarrow> list_all readable xs"
proof (induction xs arbitrary: i ys)
  case (Cons x xs)
  then obtain y zs where "reader (enc x) i = Ok y" "read_items reader (Suc i) (map enc xs) = Ok zs"
    by (auto simp: bind_result_def map_ok_def split: result.splits)
  with Cons show ?case using read_only by auto
qed simp

lemma read_items_iff:
  "list_all ok xs \<Longrightarrow> read_items reader i (map enc xs) = Ok ys \<longleftrightarrow> list_all readable xs \<and> ys = xs"
  using read_items_enc read_items_only by fastforce

end

lemma map_of_sort_key: "map_of (sort_key fst es) k = map_of es (k :: string)"
proof -
  have first: "map_of xs k = (case filter (\<lambda>e. fst e = k) xs of [] \<Rightarrow> None | e # _ \<Rightarrow> Some (snd e))" for xs :: "(string \<times> 'b) list"
    by (induction xs) auto
  show ?thesis
    by (simp add: first sort_key_stable)
qed

lemma json_get_object:
  assumes "distinct (map fst es)"
  shows "json_get (sort_key fst es) k = map_of es k"
proof -
  have d: "distinct (map fst (sort_key fst es))"
    by (rule mset_eq_imp_distinct_iff[THEN iffD2, OF _ assms]) simp
  have "map_of (sort_key fst es) = map_of es"
    using assms d by (subst map_of_inject_set) auto
  then show ?thesis by (simp add: json_get_def)
qed

lemma json_keys_object: "set (json_keys (sort_key fst es)) = fst ` set es"
  by (simp add: json_keys_def)

lemma json_get_None: "json_get es k = None \<longleftrightarrow> k \<notin> set (json_keys es)"
  by (simp add: json_get_def json_keys_def map_of_eq_None_iff image_iff)

lemma map_fst_optional: "map fst (optional_member n enc x) = (if x = None then [] else [n])"
  by (cases x) (simp_all add: optional_member_def)

lemma map_of_optional:
  "map_of (optional_member n enc x @ ys) k =
     (if k = n then (case x of None \<Rightarrow> map_of ys k | Some v \<Rightarrow> Some (enc v)) else map_of ys k)"
  "map_of (optional_member n enc x) k = (if k = n then map_option enc x else None)"
  by (cases x; simp add: optional_member_def)+

lemma fst_optional: "fst ` set (optional_member n enc x) = (if x = None then {} else {n})"
  by (cases x) (simp_all add: optional_member_def)

lemma case_option_map: "(case x of None \<Rightarrow> None | Some y \<Rightarrow> Some (f y)) = map_option f x"
  by (cases x) simp_all

lemma keys_optional: "fst ` set (optional_member n enc x @ ys) \<subseteq> A \<longleftrightarrow> (x = None \<or> n \<in> A) \<and> fst ` set ys \<subseteq> A"
  by (cases x) (auto simp: optional_member_def)

lemma state_object_Ok:
  assumes "set required \<subseteq> fst ` set es" "fst ` set es \<subseteq> set required \<union> set optional" "set required \<inter> set optional = {}"
  shows "state_object (json_object es) required optional path pointer = Ok (sort_key fst es)"
proof -
  have "fields_accepted (sort_key fst es) required optional False"
    using assms(1,2) by (auto simp: fields_accepted_def json_keys_def)
  then have "validate_object_fields (sort_key fst es) required optional False loc = Inr (Ok (sort_key fst es))" for loc
    using assms(3) by (simp add: validate_object_fields_Ok)
  then show ?thesis by (simp add: state_object_def json_object_def)
qed

lemma field_string_get:
  "json_get es name = Some (JStr s) \<Longrightarrow>
     field_string es prefix name path pointer =
       (if stripped_line s then Ok s
        else state_error ((prefix @ name) @ '' must be a non-empty single-line string'') path (Some (pointer @ ''/'' @ name)))"
  by (simp add: field_string_def json_field_def state_string_def)

lemma field_digest_get:
  assumes "json_get es name = Some (JDigest d)" "valid_digest d"
  shows "field_digest es name path pointer = Ok d"
  using assms plain_text_stripped(2)[OF assms(2)]
  by (simp add: field_digest_def json_field_def state_digest_def state_string_def bind_result_def parse_sha256_Ok_iff valid_digest_iff)

lemma field_flag_get:
  assumes "json_get es name = Some (JBool b)"
  shows "field_flag es name path pointer = Ok b"
  using assms json_get_None[of es name] by (auto simp: field_flag_def json_field_def state_boolean_def)

text \<open>The well-formed parts of a manifest: every constructor accepted them.\<close>

definition wf_effect :: "effect_proof \<Rightarrow> bool" where
  "wf_effect e \<longleftrightarrow> mk_effect_proof e = Inr e \<and> wf_json (ep_identity_evidence e)"

definition readable_effect :: "effect_proof \<Rightarrow> bool" where
  "readable_effect e \<longleftrightarrow> (case ep_source_path e of None \<Rightarrow> True | Some p \<Rightarrow> stripped_line p)"

definition effect_entries :: "effect_proof \<Rightarrow> json_entries" where
  "effect_entries e =
     [(''kind'', JStr (ep_kind e)), (''destination'', JStr (ep_destination e)), (''actual_mode'', JStr (ep_actual_mode e)),
      (''installed_digest'', JDigest (ep_installed_digest e))] @
     optional_member ''source_path'' JStr (ep_source_path e) @
     optional_member ''json_path'' JStr (ep_json_path e) @
     optional_member ''merge_mode'' JStr (ep_merge_mode e) @
     optional_member ''identity_digest'' JDigest (ep_identity_digest e) @
     optional_member ''identity_evidence'' id (if ep_identity_evidence e = JNull then None else Some (ep_identity_evidence e)) @
     optional_member ''link_target'' JStr (ep_link_target e) @
     optional_member ''link_semantics'' JStr (ep_link_semantics e) @
     optional_member ''restores_from'' JStr (ep_restores_from e) @
     [(''created_destination'', JBool (ep_created_destination e)), (''overwrote'', JBool (ep_overwrote e))]"

lemma effect_json_entries: "effect_json e = json_object (effect_entries e)"
  by (simp add: effect_json_def effect_entries_def optional_member_def)

lemma effect_entries_distinct: "distinct (map fst (effect_entries e))"
  by (simp add: effect_entries_def map_fst_optional)

lemma effect_entries_get:
  defines "get \<equiv> \<lambda>e. json_get (sort_key fst (effect_entries e))"
  shows "get e ''kind'' = Some (JStr (ep_kind e))" "get e ''destination'' = Some (JStr (ep_destination e))"
    "get e ''actual_mode'' = Some (JStr (ep_actual_mode e))" "get e ''installed_digest'' = Some (JDigest (ep_installed_digest e))"
    "get e ''source_path'' = map_option JStr (ep_source_path e)" "get e ''json_path'' = map_option JStr (ep_json_path e)"
    "get e ''merge_mode'' = map_option JStr (ep_merge_mode e)" "get e ''identity_digest'' = map_option JDigest (ep_identity_digest e)"
    "get e ''identity_evidence'' = (if ep_identity_evidence e = JNull then None else Some (ep_identity_evidence e))"
    "get e ''link_target'' = map_option JStr (ep_link_target e)" "get e ''link_semantics'' = map_option JStr (ep_link_semantics e)"
    "get e ''restores_from'' = map_option JStr (ep_restores_from e)"
    "get e ''created_destination'' = Some (JBool (ep_created_destination e))" "get e ''overwrote'' = Some (JBool (ep_overwrote e))"
  unfolding get_def json_get_object[OF effect_entries_distinct] by (simp_all add: effect_entries_def map_of_optional case_option_map del: map_of_append cong: option.case_cong)


lemma effect_object_Ok:
  "state_object (effect_json e) [''kind'', ''destination'', ''actual_mode'', ''installed_digest'']
     [''source_path'', ''json_path'', ''merge_mode'', ''identity_digest'', ''identity_evidence'', ''link_target'', ''link_semantics'',
      ''created_destination'', ''overwrote'', ''restores_from''] path pointer = Ok (sort_key fst (effect_entries e))"
  unfolding effect_json_entries by (rule state_object_Ok) (simp_all add: effect_entries_def keys_optional del: set_append)

lemma literal_stripped:
  "list_all stripped_line EFFECT_KINDS" "list_all stripped_line [''copy'', ''symlink'', ''key'', ''list'', ''immutable-object'', ''mutable-local'']"
  "list_all stripped_line [''project'', ''user'', ''replace'', ''prepend'', ''append'', ''skip'']"
  "list_all (\<lambda>k. stripped_line (source_kind_value k)) [REGISTRY_GIT, SOURCE_GIT, SOURCE_LOCAL]"
  by code_simp+

definition optional_ok :: "(string \<Rightarrow> bool) \<Rightarrow> string option \<Rightarrow> bool" where
  "optional_ok P x \<longleftrightarrow> (case x of None \<Rightarrow> True | Some s \<Rightarrow> P s)"

lemma wf_effect_texts:
  assumes "wf_effect e"
  shows "stripped_line (ep_kind e)" "stripped_line (ep_destination e)" "stripped_line (ep_actual_mode e)" "valid_digest (ep_installed_digest e)"
    "optional_ok stripped_line (ep_json_path e)" "optional_ok stripped_line (ep_merge_mode e)" "optional_ok stripped_line (ep_link_target e)"
    "optional_ok stripped_line (ep_link_semantics e)" "optional_ok stripped_line (ep_restores_from e)"
    "case ep_identity_digest e of None \<Rightarrow> True | Some d \<Rightarrow> valid_digest d"
proof -
  have mk: "mk_effect_proof e = Inr e" using assms by (simp add: wf_effect_def)
  then have base: "ep_kind e \<in> set EFFECT_KINDS" "stripped_line (ep_destination e)" "ep_actual_mode e \<in> {''copy'', ''symlink''}"
      "valid_digest (ep_installed_digest e)"
    and restores: "\<not> (case ep_restores_from e of None \<Rightarrow> False
             | Some r \<Rightarrow> ep_kind e \<noteq> ''write-file'' \<or> \<not> stripped_line r \<or> r = ep_destination e)"
    and merge: "merge_check e = Inr ()" and link: "link_check e = Inr ()"
    unfolding mk_effect_proof_def py_ok by auto
  show "stripped_line (ep_kind e)" "stripped_line (ep_destination e)" "stripped_line (ep_actual_mode e)" "valid_digest (ep_installed_digest e)"
    using base literal_stripped by (auto simp: list_all_iff)
  show "optional_ok stripped_line (ep_restores_from e)" using restores by (auto simp: optional_ok_def split: option.splits)
  show "optional_ok stripped_line (ep_link_target e)" "optional_ok stripped_line (ep_link_semantics e)"
    using link literal_stripped by (auto simp: optional_ok_def link_check_def py_ok split: option.splits if_splits)
  show "optional_ok stripped_line (ep_json_path e)" "optional_ok stripped_line (ep_merge_mode e)"
    "case ep_identity_digest e of None \<Rightarrow> True | Some d \<Rightarrow> valid_digest d"
    using merge literal_stripped by (auto simp: optional_ok_def merge_check_def or_empty_def py_ok split: option.splits if_splits)
qed

lemma optional_string_ok:
  assumes "json_get es name = map_option JStr x" "optional_ok stripped_line x"
  shows "optional_string es prefix name path pointer = Ok x"
  using assms json_get_None[of es name]
  by (cases x) (auto simp: optional_string_def field_string_get optional_ok_def map_ok_def)

lemma optional_string_only:
  assumes "json_get es name = map_option JStr x" "optional_string es prefix name path pointer = Ok y"
  shows "optional_ok stripped_line x"
  using assms json_get_None[of es name]
  by (cases x) (auto simp: optional_string_def field_string_get optional_ok_def map_ok_def state_error_def mk_err_def split: if_splits)

lemma optional_digest_ok:
  assumes "json_get es name = map_option JDigest x" "case x of None \<Rightarrow> True | Some d \<Rightarrow> valid_digest d"
  shows "optional_digest es name path pointer = Ok x"
  using assms json_get_None[of es name] by (cases x) (auto simp: optional_digest_def map_ok_def field_digest_get)

lemma bind_Ok [simp]: "bind_result (Ok x) f = f x"
  by (simp add: bind_result_def)

lemma bind_result_Ok: "bind_result r f = Ok y \<longleftrightarrow> (\<exists>x. r = Ok x \<and> f x = Ok y)"
  by (cases r) (simp_all add: bind_result_def)

lemma map_ok_Ok: "map_ok r f = Ok y \<longleftrightarrow> (\<exists>x. r = Ok x \<and> y = f x)"
  by (cases r) (auto simp: map_ok_def)

lemma constructed_Ok: "constructed r path pointer = Ok v \<longleftrightarrow> r = Inr v"
  by (auto simp: constructed_def state_error_def mk_err_def split: sum.splits py_error.splits)

lemma read_effect_written:
  assumes "wf_effect e"
  shows "read_effect (effect_json e) path pointer =
    bind_result (optional_string (sort_key fst (effect_entries e)) '''' ''source_path'' path pointer)
      (\<lambda>source_path. constructed (mk_effect_proof (e\<lparr>ep_source_path := source_path\<rparr>)) path (Some pointer))"
proof -
  let ?es = "sort_key fst (effect_entries e)"
  have evidence: "json_field ?es ''identity_evidence'' = ep_identity_evidence e"
    by (simp add: json_field_def effect_entries_get)
  note get = effect_entries_get[of e] and t = wf_effect_texts[OF assms]
  note reads = field_string_get[OF get(1)] field_string_get[OF get(2)] field_string_get[OF get(3)] field_digest_get[OF get(4) t(4)]
    optional_string_ok[OF get(6) t(5)] optional_string_ok[OF get(7) t(6)] optional_string_ok[OF get(10) t(7)]
    optional_string_ok[OF get(11) t(8)] optional_string_ok[OF get(12) t(9)] optional_digest_ok[OF get(8) t(10)]
    field_flag_get[OF get(13)] field_flag_get[OF get(14)]
  have upd: "e\<lparr>ep_source_path := p\<rparr> =
    \<lparr>ep_kind = ep_kind e, ep_destination = ep_destination e, ep_actual_mode = ep_actual_mode e, ep_installed_digest = ep_installed_digest e,
     ep_source_path = p, ep_json_path = ep_json_path e, ep_merge_mode = ep_merge_mode e, ep_identity_digest = ep_identity_digest e,
     ep_identity_evidence = ep_identity_evidence e, ep_link_target = ep_link_target e, ep_link_semantics = ep_link_semantics e,
     ep_created_destination = ep_created_destination e, ep_overwrote = ep_overwrote e, ep_restores_from = ep_restores_from e\<rparr>" for p
    by (cases e) simp
  show ?thesis unfolding read_effect_def effect_object_Ok bind_Ok reads evidence upd using t by simp
qed

lemma read_effect_iff:
  assumes "wf_effect e"
  shows "read_effect (effect_json e) path pointer = Ok x \<longleftrightarrow> readable_effect e \<and> x = e"
proof
  assume "read_effect (effect_json e) path pointer = Ok x"
  then obtain y where y: "optional_string (sort_key fst (effect_entries e)) '''' ''source_path'' path pointer = Ok y"
    and x: "constructed (mk_effect_proof (e\<lparr>ep_source_path := y\<rparr>)) path (Some pointer) = Ok x"
    unfolding read_effect_written[OF assms] bind_result_Ok by blast
  have ok: "optional_ok stripped_line (ep_source_path e)" using optional_string_only[OF effect_entries_get(5) y] .
  then have "y = ep_source_path e" using optional_string_ok[OF effect_entries_get(5) ok] y by simp
  then show "readable_effect e \<and> x = e"
    using ok x assms by (simp add: readable_effect_def optional_ok_def constructed_Ok wf_effect_def)
next
  assume "readable_effect e \<and> x = e"
  then show "read_effect (effect_json e) path pointer = Ok x"
    using assms by (simp add: read_effect_written optional_string_ok[OF effect_entries_get(5)] readable_effect_def optional_ok_def
        constructed_Ok wf_effect_def)
qed

interpretation effects: codec effect_json "\<lambda>v i. read_effect v path (pointer @ ''/effects/'' @ str_nat i)" wf_effect readable_effect
  for path pointer
  by unfold_locales (auto simp: read_effect_iff)


definition wf_source :: "source_evidence \<Rightarrow> bool" where
  "wf_source s \<longleftrightarrow> mk_source_evidence s = Inr s"

definition source_entries :: "source_evidence \<Rightarrow> json_entries" where
  "source_entries s =
     [(''alias'', JStr (alias_value (sev_alias s))), (''declared_id'', JStr (source_id_value (sev_declared_id s))),
      (''kind'', JStr (source_kind_value (sev_kind s))), (''origin'', JStr (sev_origin s)),
      (''resolved_commit'', JStr (sev_resolved_commit s))] @
     optional_member ''subscription_ref'' JStr (sev_subscription_ref s)"

lemma source_evidence_entries: "source_evidence_json s = json_object (source_entries s)"
  by (simp add: source_evidence_json_def source_entries_def)

lemma source_entries_get:
  defines "get \<equiv> \<lambda>s. json_get (sort_key fst (source_entries s))"
  shows "get s ''alias'' = Some (JStr (alias_value (sev_alias s)))" "get s ''declared_id'' = Some (JStr (source_id_value (sev_declared_id s)))"
    "get s ''kind'' = Some (JStr (source_kind_value (sev_kind s)))" "get s ''origin'' = Some (JStr (sev_origin s))"
    "get s ''resolved_commit'' = Some (JStr (sev_resolved_commit s))" "get s ''subscription_ref'' = map_option JStr (sev_subscription_ref s)"
proof -
  have "distinct (map fst (source_entries s))" by (simp add: source_entries_def map_fst_optional)
  note get = json_get_object[OF this]
  show "get s ''alias'' = Some (JStr (alias_value (sev_alias s)))" "get s ''declared_id'' = Some (JStr (source_id_value (sev_declared_id s)))"
    "get s ''kind'' = Some (JStr (source_kind_value (sev_kind s)))" "get s ''origin'' = Some (JStr (sev_origin s))"
    "get s ''resolved_commit'' = Some (JStr (sev_resolved_commit s))" "get s ''subscription_ref'' = map_option JStr (sev_subscription_ref s)"
    unfolding get_def get by (simp_all add: source_entries_def map_of_optional)
qed

lemma wf_source_texts:
  assumes "wf_source s"
  shows "stripped_line (alias_value (sev_alias s))" "stripped_line (source_id_value (sev_declared_id s))"
    "stripped_line (source_kind_value (sev_kind s))" "stripped_line (sev_origin s)" "stripped_line (sev_resolved_commit s)"
    "optional_ok stripped_line (sev_subscription_ref s)"
proof -
  have mk: "mk_source_evidence s = Inr s" using assms by (simp add: wf_source_def)
  then show "stripped_line (alias_value (sev_alias s))" "stripped_line (source_id_value (sev_declared_id s))" "stripped_line (sev_origin s)"
    unfolding mk_source_evidence_def py_ok by (auto intro: plain_text_stripped)
  show "stripped_line (source_kind_value (sev_kind s))" using literal_stripped(4) by (cases "sev_kind s") simp_all
  show "stripped_line (sev_resolved_commit s)"
    using mk unfolding mk_source_evidence_def py_ok by (auto simp: py_ok split: if_splits intro: plain_text_stripped)
  show "optional_ok stripped_line (sev_subscription_ref s)"
    using mk unfolding mk_source_evidence_def py_ok
    by (auto simp: py_ok optional_ok_def safe_git_ref_def or_empty_def split: if_splits option.splits)
qed

lemma source_kind_of_value: "source_kind_of (source_kind_value k) = Inr k"
  by (cases k) (simp_all add: source_kind_of_def source_kind_value_def)

lemma source_eta:
  "\<lparr>sev_alias = sev_alias s, sev_declared_id = sev_declared_id s, sev_kind = sev_kind s, sev_origin = sev_origin s,
    sev_resolved_commit = sev_resolved_commit s, sev_subscription_ref = sev_subscription_ref s\<rparr> = s"
  by simp

lemma artifact_eta:
  "\<lparr>aev_identity = aev_identity a, aev_version = aev_version a, aev_manifest_digest = aev_manifest_digest a,
    aev_payload_digest = aev_payload_digest a, aev_object_digest = aev_object_digest a\<rparr> = a"
  by simp

lemma read_source_written:
  assumes "wf_source s"
  shows "read_source (source_evidence_json s) path pointer = Ok s"
proof -
  let ?es = "sort_key fst (source_entries s)"
  have obj: "state_object (source_evidence_json s) [''alias'', ''declared_id'', ''kind'', ''origin'', ''resolved_commit''] [''subscription_ref''] path pointer
      = Ok ?es"
    unfolding source_evidence_entries by (rule state_object_Ok) (simp_all add: source_entries_def fst_optional image_Un)
  note get = source_entries_get[of s] and t = wf_source_texts[OF assms]
  note reads = field_string_get[OF get(1)] field_string_get[OF get(2)] field_string_get[OF get(3)] field_string_get[OF get(4)]
    field_string_get[OF get(5)] optional_string_ok[OF get(6) t(6)]
  show ?thesis unfolding read_source_def obj bind_Ok reads
    using t assms by (simp add: constructed_Ok source_kind_of_value wf_source_def source_eta)
qed

definition wf_artifact :: "artifact_evidence \<Rightarrow> bool" where
  "wf_artifact a \<longleftrightarrow> mk_artifact_evidence a = Inr a \<and> valid_semver (aev_version a)"

lemma artifact_kinds_slug: "k \<in> set ARTIFACT_KINDS \<Longrightarrow> slug_match k"
proof -
  have "list_all slug_match ARTIFACT_KINDS" by code_simp
  then show "k \<in> set ARTIFACT_KINDS \<Longrightarrow> slug_match k" by (simp add: list_all_iff)
qed

lemma wf_artifact_texts:
  assumes "wf_artifact a"
  shows "slug_match (identity_kind (aev_identity a))" "slug_match (identity_name (aev_identity a))" "valid_semver (aev_version a)"
    "valid_digest (aev_manifest_digest a)" "valid_digest (aev_payload_digest a)" "valid_digest (aev_object_digest a)"
  using assms artifact_kinds_slug by (auto simp: wf_artifact_def mk_artifact_evidence_def py_ok)

lemma read_artifact_written:
  assumes "wf_artifact a"
  shows "read_artifact (artifact_evidence_json a) path pointer = Ok a"
proof -
  let ?raw = "[(''type'', JStr (identity_kind (aev_identity a))), (''name'', JStr (identity_name (aev_identity a))),
        (''version'', JStr (semver_str (aev_version a))), (''manifest_digest'', JDigest (aev_manifest_digest a)),
        (''payload_digest'', JDigest (aev_payload_digest a)), (''object_digest'', JDigest (aev_object_digest a))]"
  define es where "es = sort_key fst ?raw"
  have obj: "state_object (artifact_evidence_json a) [''type'', ''name'', ''version'', ''manifest_digest'', ''payload_digest'', ''object_digest''] [] path pointer = Ok es"
    unfolding artifact_evidence_json_def es_def by (rule state_object_Ok) simp_all
  have "distinct (map fst ?raw)" by simp
  note get = json_get_object[OF this, folded es_def]
  have reads: "json_get es ''type'' = Some (JStr (identity_kind (aev_identity a)))" "json_get es ''name'' = Some (JStr (identity_name (aev_identity a)))"
    "json_get es ''version'' = Some (JStr (semver_str (aev_version a)))" "json_get es ''manifest_digest'' = Some (JDigest (aev_manifest_digest a))"
    "json_get es ''payload_digest'' = Some (JDigest (aev_payload_digest a))" "json_get es ''object_digest'' = Some (JDigest (aev_object_digest a))"
    unfolding get by simp_all
  note t = wf_artifact_texts[OF assms]
  have v: "parse_semver (semver_str (aev_version a)) loc = Ok (aev_version a)" for loc using t(3) by (simp add: parse_semver_Ok_iff)
  show ?thesis
    unfolding read_artifact_def obj bind_Ok field_string_get[OF reads(1)] field_string_get[OF reads(2)] field_string_get[OF reads(3)]
      field_digest_get[OF reads(4) t(4)] field_digest_get[OF reads(5) t(5)] field_digest_get[OF reads(6) t(6)]
    using t plain_text_stripped assms by (simp add: v constructed_Ok wf_artifact_def artifact_eta)
qed


definition wf_record :: "installation_record \<Rightarrow> bool" where
  "wf_record r \<longleftrightarrow> mk_installation_record r = Inr r \<and> wf_source (ir_source r) \<and> wf_artifact (ir_artifact r) \<and> list_all wf_effect (ir_effects r)"

definition readable_record :: "installation_record \<Rightarrow> bool" where
  "readable_record r = list_all readable_effect (ir_effects r)"

definition record_entries :: "installation_record \<Rightarrow> json_entries" where
  "record_entries r =
     [(''coordinate'', JStr (coordinate_str (ir_coordinate r))), (''source'', source_evidence_json (ir_source r)),
      (''artifact'', artifact_evidence_json (ir_artifact r)), (''profile'', JStr (ir_profile r)),
      (''profile_version'', JInt (ir_profile_version r)), (''scope'', JStr (ir_scope r)),
      (''requested_mode'', JStr (ir_requested_mode r)), (''effects'', JArray (map effect_json (ir_effects r)))] @
     optional_member ''memory_mode'' JStr (ir_memory_mode r) @
     optional_member ''setup_state_ref'' JStr (ir_setup_state_ref r)"

lemma record_json_entries: "record_json r = json_object (record_entries r)"
  by (simp add: record_json_def record_entries_def)

lemma record_entries_distinct: "distinct (map fst (record_entries r))"
  by (simp add: record_entries_def map_fst_optional)

lemma record_entries_get:
  defines "get \<equiv> \<lambda>r. json_get (sort_key fst (record_entries r))"
  shows "get r ''coordinate'' = Some (JStr (coordinate_str (ir_coordinate r)))" "get r ''source'' = Some (source_evidence_json (ir_source r))"
    "get r ''artifact'' = Some (artifact_evidence_json (ir_artifact r))" "get r ''profile'' = Some (JStr (ir_profile r))"
    "get r ''profile_version'' = Some (JInt (ir_profile_version r))" "get r ''scope'' = Some (JStr (ir_scope r))"
    "get r ''requested_mode'' = Some (JStr (ir_requested_mode r))" "get r ''effects'' = Some (JArray (map effect_json (ir_effects r)))"
    "get r ''memory_mode'' = map_option JStr (ir_memory_mode r)" "get r ''setup_state_ref'' = map_option JStr (ir_setup_state_ref r)"
  unfolding get_def json_get_object[OF record_entries_distinct]
  by (simp_all add: record_entries_def map_of_optional case_option_map del: map_of_append cong: option.case_cong)

lemma wf_record_facts:
  assumes "wf_record r"
  shows "coord_version (ir_coordinate r) = None" "coord_source (ir_coordinate r) = sev_alias (ir_source r)"
    "coord_artifact (ir_coordinate r) = aev_identity (ir_artifact r)" "stripped_line (ir_profile r)" "stripped_line (ir_scope r)"
    "stripped_line (ir_requested_mode r)" "ir_effects r \<noteq> []" "optional_ok stripped_line (ir_memory_mode r)"
    "optional_ok stripped_line (ir_setup_state_ref r)"
proof -
  have "mk_installation_record r = Inr r" using assms by (simp add: wf_record_def)
  note g = this[unfolded mk_installation_record_def Let_def py_ok de_Morgan_disj not_not, THEN conjunct1]
  show "coord_version (ir_coordinate r) = None" "coord_source (ir_coordinate r) = sev_alias (ir_source r)"
    "coord_artifact (ir_coordinate r) = aev_identity (ir_artifact r)" "ir_effects r \<noteq> []"
    using g by blast+
  show "stripped_line (ir_profile r)" using g plain_text_stripped(1) by blast
  have "ir_scope r \<in> {''project'', ''user''}" "ir_requested_mode r \<in> {''copy'', ''symlink''}" using g by blast+
  then show "stripped_line (ir_scope r)" "stripped_line (ir_requested_mode r)"
    using literal_stripped(2,3) by auto
  have "ir_memory_mode r \<in> {None, Some ''replace'', Some ''prepend'', Some ''append'', Some ''skip''}" using g by blast
  then show "optional_ok stripped_line (ir_memory_mode r)" using literal_stripped(3) by (auto simp: optional_ok_def)
  have "\<not> (case ir_setup_state_ref r of None \<Rightarrow> False | Some x \<Rightarrow> \<not> setup_ref_match x)" using g by blast
  then show "optional_ok stripped_line (ir_setup_state_ref r)"
    using plain_text_stripped(5) by (cases "ir_setup_state_ref r") (simp_all add: optional_ok_def)
qed

lemma coordinate_read:
  assumes "slug_match (alias_value (coord_source c))" "slug_match (identity_kind (coord_artifact c))"
    "slug_match (identity_name (coord_artifact c))" "coord_version c = None"
  shows "read_coordinate (coordinate_str c) path pointer = Ok c" "stripped_line (coordinate_str c)"
proof -
  obtain a k n where c: "c = ArtifactCoordinate (SourceAlias a) (ArtifactIdentity k n) None"
    using assms(4) by (metis artifact_coordinate.collapse artifact_identity.collapse source_alias.collapse)
  have slash: "CHR ''/'' \<notin> set s" if "slug_match s" for s
    using slug_chars(2)[OF that, of "CHR ''/''"] by (auto simp: lower_or_digit_def is_lower_def is_digit_def between_def less_eq_char_def)
  have "split_on CHR ''/'' (coordinate_str c) = [a, k, n]"
    using assms slash by (simp add: c coordinate_str_def identity_str_def split_on_append split_on_no_sep)
  then show "read_coordinate (coordinate_str c) path pointer = Ok c" by (simp add: read_coordinate_def c)
  show "stripped_line (coordinate_str c)"
    using assms coordinate_plain[of "SourceAlias a" k n] by (intro plain_stripped) (simp_all add: c coordinate_str_def)
qed

lemma record_eta:
  "\<lparr>ir_coordinate = ir_coordinate r, ir_source = ir_source r, ir_artifact = ir_artifact r, ir_profile = ir_profile r,
    ir_profile_version = ir_profile_version r, ir_scope = ir_scope r, ir_requested_mode = ir_requested_mode r, ir_effects = ir_effects r,
    ir_memory_mode = ir_memory_mode r, ir_setup_state_ref = ir_setup_state_ref r\<rparr> = r"
  by simp

lemma read_effects_iff:
  assumes "list_all wf_effect es" "es \<noteq> []"
  shows "read_effects (JArray (map effect_json es)) path pointer = Ok ys \<longleftrightarrow> list_all readable_effect es \<and> ys = es"
  using assms effects.read_items_iff[of es path pointer 0 ys] by (simp add: read_effects_def)

lemma read_record_iff:
  assumes "wf_record r"
  shows "read_record path (record_json r) i = Ok x \<longleftrightarrow> readable_record r \<and> x = r"
proof -
  let ?es = "sort_key fst (record_entries r)" and ?p = "''/installations/'' @ str_nat i"
  have obj: "state_object (record_json r)
      [''coordinate'', ''source'', ''artifact'', ''profile'', ''profile_version'', ''scope'', ''requested_mode'', ''effects'']
      [''memory_mode'', ''setup_state_ref''] path ?p = Ok ?es"
    unfolding record_json_entries by (rule state_object_Ok) (simp_all add: record_entries_def keys_optional fst_optional del: set_append)
  note get = record_entries_get[of r] and f = wf_record_facts[OF assms]
  have parts: "wf_source (ir_source r)" "wf_artifact (ir_artifact r)" "list_all wf_effect (ir_effects r)"
    and mk: "mk_installation_record r = Inr r" using assms by (simp_all add: wf_record_def)
  have c: "read_coordinate (coordinate_str (ir_coordinate r)) path q = Ok (ir_coordinate r)" "stripped_line (coordinate_str (ir_coordinate r))" for q
    using coordinate_read[of "ir_coordinate r"] f(1-3) parts(1) wf_artifact_texts(1,2)[OF parts(2)]
    by (simp_all add: wf_source_def mk_source_evidence_def py_ok)
  have fields: "json_field ?es ''source'' = source_evidence_json (ir_source r)" "json_field ?es ''artifact'' = artifact_evidence_json (ir_artifact r)"
    "json_field ?es ''profile_version'' = JInt (ir_profile_version r)" "json_field ?es ''effects'' = JArray (map effect_json (ir_effects r))"
    by (simp_all add: json_field_def get)
  have "read_record path (record_json r) i =
    bind_result (read_effects (JArray (map effect_json (ir_effects r))) path ?p)
      (\<lambda>effects. constructed (mk_installation_record (r\<lparr>ir_effects := effects\<rparr>)) path (Some ?p))"
    unfolding read_record_def Let_def obj bind_Ok field_string_get[OF get(1)] field_string_get[OF get(4)] field_string_get[OF get(6)]
      field_string_get[OF get(7)] fields optional_string_ok[OF get(9) f(8)] optional_string_ok[OF get(10) f(9)]
      read_source_written[OF parts(1)] read_artifact_written[OF parts(2)] state_integer_def
    using f c by (cases r) simp
  then show ?thesis
    using read_effects_iff[OF parts(3) f(7)] mk
    by (auto simp: bind_result_Ok constructed_Ok readable_record_def)
qed

interpretation records: codec record_json "read_record path" wf_record readable_record for path
  by unfold_locales (auto simp: read_record_iff)


subsection \<open>The manifest\<close>

definition wf_state :: "install_state \<Rightarrow> bool" where
  "wf_state s \<longleftrightarrow> mk_install_state (ist_schema_version s) (ist_installations s) = Inr s \<and> list_all wf_record (ist_installations s)"

lemma wf_state_version: "wf_state s \<Longrightarrow> ist_schema_version s = 2"
  by (auto simp: wf_state_def mk_install_state_def py_ok)

lemma wf_json_optional: "(\<And>v. x = Some v \<Longrightarrow> wf_json (enc v)) \<Longrightarrow> list_all (\<lambda>e. wf_json (snd e)) (optional_member n enc x)"
  by (cases x) (simp_all add: optional_member_def)

lemma wf_effect_json: "wf_effect e \<Longrightarrow> wf_json (effect_json e)"
  unfolding effect_json_entries
  by (rule wf_json_object[OF effect_entries_distinct])
     (auto simp: effect_entries_def wf_effect_def intro!: wf_json_optional)

lemma wf_source_json: "wf_json (source_evidence_json s)"
  unfolding source_evidence_entries
  by (rule wf_json_object) (auto simp: source_entries_def map_fst_optional intro!: wf_json_optional)

lemma wf_artifact_json: "wf_json (artifact_evidence_json a)"
  unfolding artifact_evidence_json_def by (rule wf_json_object) simp_all

lemma wf_record_json:
  assumes "wf_record r"
  shows "wf_json (record_json r)"
proof -
  have "mk_installation_record r = Inr r" "list_all wf_effect (ir_effects r)" using assms by (simp_all add: wf_record_def)
  moreover from this(1) have "1 \<le> ir_profile_version r" "ir_profile_version r \<le> 2 ^ 63 - 1"
    unfolding mk_installation_record_def Let_def py_ok de_Morgan_disj by linarith+
  moreover have "list_all (\<lambda>e. wf_json (snd e)) (optional_member n JStr x)" for n x by (rule wf_json_optional) simp
  moreover have "protocol_int (ir_profile_version r)"
    using calculation(3,4) by (simp add: protocol_int_def MIN_PROTOCOL_INTEGER_def MAX_PROTOCOL_INTEGER_def)
  moreover have "\<forall>v \<in> set (map effect_json (ir_effects r)). wf_json v" using calculation(2) wf_effect_json by (auto simp: list_all_iff)
  ultimately show ?thesis
    unfolding record_json_entries
    by (intro wf_json_object[OF record_entries_distinct]) (simp add: record_entries_def wf_source_json wf_artifact_json)
qed

lemma wf_state_json: "wf_state s \<Longrightarrow> wf_json (install_state_to_json s)"
  unfolding install_state_to_json_def
  by (rule wf_json_object)
     (auto simp: wf_state_version wf_state_def list_all_iff wf_record_json protocol_int_def MIN_PROTOCOL_INTEGER_def MAX_PROTOCOL_INTEGER_def)

lemma parse_v2_written:
  assumes "wf_state s"
  shows "parse_v2_install_state (install_state_to_json s) path = Ok x \<longleftrightarrow> list_all readable_record (ist_installations s) \<and> x = s"
proof -
  let ?raw = "[(''schema_version'', JInt (ist_schema_version s)), (''installations'', JArray (map record_json (ist_installations s)))]"
  define es where "es = sort_key fst ?raw"
  have obj: "state_object (install_state_to_json s) [''schema_version'', ''installations''] [] path '''' = Ok es"
    unfolding install_state_to_json_def es_def by (rule state_object_Ok) simp_all
  have "distinct (map fst ?raw)" by simp
  note get = json_get_object[OF this, folded es_def]
  have fields: "json_field es ''schema_version'' = JInt 2" "json_field es ''installations'' = JArray (map record_json (ist_installations s))"
    using wf_state_version[OF assms] by (simp_all add: json_field_def get)
  have records: "list_all wf_record (ist_installations s)" "mk_install_state 2 (ist_installations s) = Inr s"
    using assms wf_state_version[OF assms] by (simp_all add: wf_state_def)
  show ?thesis
    unfolding parse_v2_install_state_def obj bind_Ok fields state_integer_def
    using records.read_items_iff[OF records(1), of path 0] records(2)
    by (auto simp: bind_result_Ok constructed_Ok)
qed

lemma written_not_legacy: "\<not> is_legacy_v01_envelope (install_state_to_json s)"
proof -
  let ?es = "sort_key fst [(''schema_version'', JInt (ist_schema_version s)), (''installations'', JArray (map record_json (ist_installations s)))]"
  have "''schema_version'' \<in> set (json_keys ?es)" unfolding json_keys_object by simp
  moreover have "''schema_version'' \<notin> {''repo'', ''installed''}" by simp
  ultimately have "set (json_keys ?es) \<noteq> {''repo'', ''installed''}" by metis
  then show ?thesis
    by (simp only: install_state_to_json_def json_object_def is_legacy_v01_envelope_def json_value.case simp_thms)
qed

lemma wf_source_path:
  assumes "wf_effect e" "ep_source_path e = Some p"
  shows "stripped_line p \<longleftrightarrow> strip p = p"
proof -
  have "is_ok (parse_relative_path p None)"
    using assms by (simp add: wf_effect_def mk_effect_proof_def py_ok)
  then have p: "p \<noteq> []" "\<not> list_ex is_control p"
    by (auto simp: parse_relative_path_def path_invalid_def mk_err_def is_ok_def Let_def split: if_splits)
  have "is_control CHR 0x0D" "is_control CHR 0x0A" by code_simp+
  with p show ?thesis by (auto simp: stripped_line_def list_ex_iff)
qed

lemma readable_records:
  assumes "wf_state s"
  shows "list_all readable_record (ist_installations s) \<longleftrightarrow>
    (\<forall>r \<in> set (ist_installations s). \<forall>e \<in> set (ir_effects r). \<forall>p. ep_source_path e = Some p \<longrightarrow> strip p = p)"
proof -
  have "readable_effect e \<longleftrightarrow> (\<forall>p. ep_source_path e = Some p \<longrightarrow> strip p = p)"
    if "r \<in> set (ist_installations s)" "e \<in> set (ir_effects r)" for r e
  proof -
    have "wf_effect e" using assms that by (auto simp: wf_state_def wf_record_def list_all_iff)
    then show ?thesis using wf_source_path by (auto simp: readable_effect_def split: option.splits)
  qed
  then show ?thesis by (simp add: readable_record_def list_all_iff)
qed

text \<open>
  C14. The manifest round trip. The bytes written for a well-formed manifest (one whose every part a
  constructor accepted) are read back as that manifest exactly when the document is within the reader's bounds on nesting and string
  length and no effect records a source path with white space at an end; the model accepts such a path, the reader does not.
\<close>

theorem install_state_roundtrip:
  assumes "wf_state s"
  shows "parse_install_state (install_state_bytes s) path = Some (Ok s) \<longleftrightarrow>
    fits 0 MAX_DEPTH MAX_STRING_LENGTH (install_state_to_json s)
    \<and> (\<forall>r \<in> set (ist_installations s). \<forall>e \<in> set (ir_effects r). \<forall>p. ep_source_path e = Some p \<longrightarrow> strip p = p)"
proof -
  let ?v = "install_state_to_json s"
  let ?parsed = "parse_json (canonical_json_bytes ?v) (Some (state_location path None)) MAX_DEPTH MAX_STRING_LENGTH"
  have "parse_install_state (install_state_bytes s) path = Some (Ok s) \<longleftrightarrow>
      (\<exists>v. ?parsed = Some (Ok v) \<and> \<not> is_legacy_v01_envelope v \<and> parse_v2_install_state v path = Ok s)"
    by (auto simp: parse_install_state_def install_state_bytes_def as_install_state_invalid_def legacy_v01_error_def mk_err_def
        split: option.splits result.splits if_splits)
  also have "\<dots> \<longleftrightarrow> fits 0 MAX_DEPTH MAX_STRING_LENGTH ?v \<and> list_all readable_record (ist_installations s)"
    using parse_canonical_iff[OF wf_state_json[OF assms]] written_not_legacy parse_v2_written[OF assms, of path s] by auto
  finally show ?thesis using readable_records[OF assms] by simp
qed


definition sample_digest :: object_digest where
  "sample_digest = ObjectDigest ''sha256'' (replicate 64 CHR ''a'')"

definition sample_effect :: "string \<Rightarrow> effect_proof" where
  "sample_effect source_path =
     \<lparr>ep_kind = ''write-file'', ep_destination = ''.claude/rules/style.md'', ep_actual_mode = ''copy'', ep_installed_digest = sample_digest,
      ep_source_path = Some source_path, ep_json_path = None, ep_merge_mode = None, ep_identity_digest = None, ep_identity_evidence = JNull,
      ep_link_target = None, ep_link_semantics = None, ep_created_destination = True, ep_overwrote = False, ep_restores_from = None\<rparr>"

definition sample_record :: "string \<Rightarrow> installation_record" where
  "sample_record source_path =
     \<lparr>ir_coordinate = ArtifactCoordinate (SourceAlias ''team'') (ArtifactIdentity ''guideline'' ''style'') None,
      ir_source = \<lparr>sev_alias = SourceAlias ''team'', sev_declared_id = SourceId ''team'', sev_kind = SOURCE_LOCAL,
        sev_origin = ''/srv/team'', sev_resolved_commit = ''local'', sev_subscription_ref = None\<rparr>,
      ir_artifact = \<lparr>aev_identity = ArtifactIdentity ''guideline'' ''style'',
        aev_version = \<lparr>sv_major = 1, sv_minor = 0, sv_patch = 0, sv_prerelease = [], sv_build = []\<rparr>,
        aev_manifest_digest = sample_digest, aev_payload_digest = sample_digest, aev_object_digest = sample_digest\<rparr>,
      ir_profile = ''claude'', ir_profile_version = 1, ir_scope = ''project'', ir_requested_mode = ''copy'',
      ir_effects = [sample_effect source_path], ir_memory_mode = None, ir_setup_state_ref = None\<rparr>"

definition sample_state :: "string \<Rightarrow> install_state" where
  "sample_state source_path = \<lparr>ist_schema_version = 2, ist_installations = [sample_record source_path]\<rparr>"

lemma sample_texts_ok:
  "slug_match ''team''" "slug_match ''style''" "slug_match ''claude''" "stripped_line ''/srv/team''" "stripped_line ''.claude/rules/style.md''"
  "normalized_absolute ''/srv/team''" "valid_digest sample_digest"
  "valid_semver \<lparr>sv_major = 1, sv_minor = 0, sv_patch = 0, sv_prerelease = [], sv_build = []\<rparr>"
  by code_simp+

lemma relative_path_ok: "safe_path (SafeRelativePath ps) \<Longrightarrow> is_ok (parse_relative_path (join ''/'' ps) None)"
  using parse_relative_path_Ok_iff[of "join ''/'' ps" None "SafeRelativePath ps"] by (simp add: path_str_def is_ok_def)

lemma sample_relative_ok:
  "is_ok (parse_relative_path ''payload/style.md'' None)" "is_ok (parse_relative_path ''payload/style.md '' None)"
  "is_ok (parse_relative_path ''.claude/rules/style.md'' None)"
proof -
  have "safe_path (SafeRelativePath [''payload'', ''style.md''])" "safe_path (SafeRelativePath [''payload'', ''style.md ''])"
    "safe_path (SafeRelativePath [''.claude'', ''rules'', ''style.md''])"
    by code_simp+
  from this[THEN relative_path_ok] show "is_ok (parse_relative_path ''payload/style.md'' None)"
    "is_ok (parse_relative_path ''payload/style.md '' None)" "is_ok (parse_relative_path ''.claude/rules/style.md'' None)"
    by simp_all
qed

lemma sample_state_wf: "wf_state (sample_state ''payload/style.md'')" "wf_state (sample_state ''payload/style.md '')"
proof -
  have "wf_state (sample_state p)" if p: "is_ok (parse_relative_path p None)" for p
  proof -
    have "wf_effect (sample_effect p)"
      using p by (simp add: wf_effect_def mk_effect_proof_def sample_effect_def py_ok EFFECT_KINDS_def sample_texts_ok merge_check_def
          link_check_def is_link_def)
    moreover have "local_revision_re ''local''" by (simp add: local_revision_re_def)
    ultimately have "wf_record (sample_record p)"
      by (simp add: wf_record_def sample_record_def mk_installation_record_def py_ok Let_def sample_texts_ok wf_source_def
          mk_source_evidence_def wf_artifact_def mk_artifact_evidence_def ARTIFACT_KINDS_def sample_effect_def sample_relative_ok)
    then show ?thesis
      by (simp add: wf_state_def sample_state_def mk_install_state_def py_ok effect_owners_def)
        (simp add: sample_record_def)
  qed
  then show "wf_state (sample_state ''payload/style.md'')" "wf_state (sample_state ''payload/style.md '')"
    using sample_relative_ok(1,2) by blast+
qed

lemma sample_strip: "strip ''payload/style.md'' = ''payload/style.md''" "strip ''payload/style.md '' \<noteq> ''payload/style.md ''"
  by code_simp+

lemma fits_json_object: "fits d md ml (json_object es) \<longleftrightarrow> d \<le> md \<and> (\<forall>(k, v) \<in> set es. length k \<le> ml \<and> fits (Suc d) md ml v)"
  by (simp add: json_object_def)

lemma sample_semver: "semver_str \<lparr>sv_major = 1, sv_minor = 0, sv_patch = 0, sv_prerelease = [], sv_build = []\<rparr> = ''1.0.0''"
  by code_simp

lemma sample_state_fits: "fits 0 MAX_DEPTH MAX_STRING_LENGTH (install_state_to_json (sample_state ''payload/style.md''))"
  by (simp add: install_state_to_json_def sample_state_def sample_record_def sample_effect_def record_json_def effect_json_def source_evidence_json_def
      artifact_evidence_json_def fits_json_object optional_member_def coordinate_str_def identity_str_def digest_str_def sample_digest_def
      source_kind_value_def sample_semver)

theorem install_state_roundtrip_witness:
  "parse_install_state (install_state_bytes (sample_state ''payload/style.md'')) ''manifest.json'' = Some (Ok (sample_state ''payload/style.md''))
   \<and> parse_install_state (install_state_bytes (sample_state ''payload/style.md '')) ''manifest.json'' \<noteq> Some (Ok (sample_state ''payload/style.md ''))"
proof -
  have path: "ist_installations (sample_state p) = [sample_record p]" "ir_effects (sample_record p) = [sample_effect p]"
    "ep_source_path (sample_effect p) = Some p" for p
    by (simp_all add: sample_state_def sample_record_def sample_effect_def)
  show ?thesis
    unfolding install_state_roundtrip[OF sample_state_wf(1)] install_state_roundtrip[OF sample_state_wf(2)]
    using sample_state_fits sample_strip by (simp add: path)
qed


lemma sample_state_read:
  "parse_install_state (install_state_bytes (sample_state ''payload/style.md'')) path = Some (Ok (sample_state ''payload/style.md''))"
proof -
  have "strip p = p" if "r \<in> set (ist_installations (sample_state ''payload/style.md''))" "e \<in> set (ir_effects r)" "ep_source_path e = Some p" for r e p
    using that sample_strip by (auto simp: sample_state_def sample_record_def sample_effect_def)
  then have "list_all readable_record (ist_installations (sample_state ''payload/style.md''))"
    using readable_records[OF sample_state_wf(1)] by blast
  then have "parse_v2_install_state (install_state_to_json (sample_state ''payload/style.md'')) path = Ok (sample_state ''payload/style.md'')"
    using parse_v2_written[OF sample_state_wf(1)] by simp
  moreover have "parse_json (install_state_bytes (sample_state ''payload/style.md'')) (Some (state_location path None)) MAX_DEPTH MAX_STRING_LENGTH
      = Some (Ok (install_state_to_json (sample_state ''payload/style.md'')))"
    unfolding install_state_bytes_def using parse_canonical_json[OF wf_state_json[OF sample_state_wf(1)] sample_state_fits] .
  ultimately show ?thesis
    using written_not_legacy by (simp add: parse_install_state_def)
qed

subsection \<open>What the reader accepts\<close>

lemma mk_same:
  "mk_source_evidence s = Inr s' \<Longrightarrow> s' = s" "mk_artifact_evidence a = Inr a' \<Longrightarrow> a' = a" "mk_effect_proof e = Inr e' \<Longrightarrow> e' = e"
  "mk_installation_record r = Inr r' \<Longrightarrow> r' = r"
  by (auto simp: mk_source_evidence_def mk_artifact_evidence_def mk_effect_proof_def mk_installation_record_def py_ok Let_def split: if_splits)

lemma state_object_entries: "state_object v required optional path pointer = Ok es \<Longrightarrow> set required \<inter> set optional = {} \<Longrightarrow> v = JObject es"
  by (auto simp: state_object_def state_error_def mk_err_def validate_object_fields_def Let_def split: json_value.splits if_splits)

lemma wf_json_field: "wf_json (JObject es) \<Longrightarrow> wf_json (json_field es name)"
  by (auto simp: json_field_def json_get_def split: option.splits dest!: map_of_SomeD)

lemma optional_string_stripped: "optional_string es prefix name path pointer = Ok (Some s) \<Longrightarrow> stripped_line s"
  by (auto simp: optional_string_def map_ok_def field_string_def state_string_def state_error_def mk_err_def
      split: if_splits result.splits json_value.splits)

lemma read_source_wf: "read_source v path pointer = Ok s \<Longrightarrow> wf_source s"
  unfolding read_source_def bind_result_Ok constructed_Ok wf_source_def
  by (elim exE conjE, split sum.split_asm) (auto, frule mk_same(1), simp)

lemma read_artifact_wf: "read_artifact v path pointer = Ok a \<Longrightarrow> wf_artifact a"
  by (auto simp: read_artifact_def bind_result_Ok constructed_Ok wf_artifact_def parse_semver_Ok_iff dest: mk_same(2))

lemma read_effect_parts:
  "read_effect v path pointer = Ok e \<Longrightarrow>
     \<exists>es. v = JObject es \<and> optional_string es '''' ''source_path'' path pointer = Ok (ep_source_path e)
       \<and> mk_effect_proof e = Inr e \<and> ep_identity_evidence e = json_field es ''identity_evidence''"
  unfolding read_effect_def bind_result_Ok constructed_Ok
  by (elim exE conjE, frule mk_same(3), drule state_object_entries) simp_all

lemma read_effect_wf:
  assumes "read_effect v path pointer = Ok e" "wf_json v"
  shows "wf_effect e \<and> readable_effect e"
proof -
  have "\<exists>es. v = JObject es \<and> optional_string es '''' ''source_path'' path pointer = Ok (ep_source_path e)
      \<and> mk_effect_proof e = Inr e \<and> ep_identity_evidence e = json_field es ''identity_evidence''"
    using assms(1) by (rule read_effect_parts)
  then show ?thesis
    using assms(2) wf_json_field optional_string_stripped
    by (auto simp: wf_effect_def readable_effect_def split: option.splits)
qed

lemma read_items_all:
  assumes "read_items reader i vs = Ok xs" "\<And>v i x. v \<in> set vs \<Longrightarrow> reader v i = Ok x \<Longrightarrow> P x"
  shows "list_all P xs"
  using assms
proof (induction vs arbitrary: i xs)
  case (Cons v vs)
  then obtain x ys where "reader v i = Ok x" "read_items reader (Suc i) vs = Ok ys" "xs = x # ys"
    by (auto simp: bind_result_Ok map_ok_Ok)
  moreover have "P x" using Cons.prems(2)[of v i x] calculation(1) by simp
  moreover have "list_all P ys" using Cons.prems(2) calculation(2) by (intro Cons.IH[of "Suc i"]) auto
  ultimately show ?case by simp
qed simp

lemma read_effects_wf:
  assumes "read_effects v path pointer = Ok es" "wf_json v"
  shows "list_all wf_effect es \<and> list_all readable_effect es"
proof -
  obtain items where "v = JArray items" "read_items (\<lambda>v i. read_effect v path (pointer @ ''/effects/'' @ str_nat i)) 0 items = Ok es"
    using assms(1) by (auto simp: read_effects_def state_error_def mk_err_def split: json_value.splits if_splits)
  moreover from this(1) assms(2) have "\<forall>x \<in> set items. wf_json x" by simp
  ultimately show ?thesis
    using read_items_all[of _ 0 items es wf_effect] read_items_all[of _ 0 items es readable_effect] read_effect_wf by blast
qed

lemma read_record_parts:
  "read_record path v i = Ok r \<Longrightarrow>
     \<exists>es. v = JObject es \<and> read_source (json_field es ''source'') path ((''/installations/'' @ str_nat i) @ ''/source'') = Ok (ir_source r)
       \<and> read_artifact (json_field es ''artifact'') path ((''/installations/'' @ str_nat i) @ ''/artifact'') = Ok (ir_artifact r)
       \<and> read_effects (json_field es ''effects'') path (''/installations/'' @ str_nat i) = Ok (ir_effects r) \<and> mk_installation_record r = Inr r"
  unfolding read_record_def Let_def bind_result_Ok constructed_Ok
  by (elim exE conjE, frule mk_same(4), drule state_object_entries) simp_all

lemma read_record_wf:
  assumes "read_record path v i = Ok r" "wf_json v"
  shows "wf_record r \<and> readable_record r"
proof -
  let ?p = "''/installations/'' @ str_nat i"
  obtain es where "v = JObject es" "read_source (json_field es ''source'') path (?p @ ''/source'') = Ok (ir_source r)"
    "read_artifact (json_field es ''artifact'') path (?p @ ''/artifact'') = Ok (ir_artifact r)"
    "read_effects (json_field es ''effects'') path ?p = Ok (ir_effects r)" "mk_installation_record r = Inr r"
    using read_record_parts[OF assms(1)] by blast
  then show ?thesis
    using read_source_wf read_artifact_wf read_effects_wf wf_json_field assms(2)
    unfolding wf_record_def readable_record_def by blast
qed

lemma mk_install_state_again: "mk_install_state v rs = Inr s \<Longrightarrow> mk_install_state (ist_schema_version s) (ist_installations s) = Inr s \<and> set (ist_installations s) = set rs"
  by (auto simp: mk_install_state_def py_ok Let_def)

lemma parse_install_state_records:
  assumes "parse_install_state data path = Some (Ok s)"
  obtains v es items records where "wf_json v" "v = JObject es" "json_field es ''installations'' = JArray items"
    "read_items (read_record path) 0 items = Ok records" "mk_install_state 2 records = Inr s"
proof -
  obtain v where v: "parse_json data (Some (state_location path None)) MAX_DEPTH MAX_STRING_LENGTH = Some (Ok v)"
    and s: "parse_v2_install_state v path = Ok s"
    using assms by (auto simp: parse_install_state_def as_install_state_invalid_def legacy_v01_error_def mk_err_def
        split: option.splits result.splits if_splits)
  obtain es items records where "v = JObject es" "json_field es ''installations'' = JArray items"
    "read_items (read_record path) 0 items = Ok records" "mk_install_state 2 records = Inr s"
    using s unfolding parse_v2_install_state_def bind_result_Ok
    by (auto simp: state_error_def mk_err_def bind_result_Ok constructed_Ok split: if_splits json_value.splits dest!: state_object_entries)
  moreover have "wf_json v" using parse_json_wf[OF v] by simp
  ultimately show thesis using that by blast
qed

lemma mk_install_state_distinct:
  "mk_install_state v rs = Inr s \<Longrightarrow> sorted (map ir_key (ist_installations s)) \<and> distinct (map ir_key (ist_installations s))
     \<and> distinct (effect_owners (ist_installations s))"
  by (auto simp: mk_install_state_def py_ok Let_def simp del: distinct_map)

text \<open>
  C34. What the manifest reader accepts is well-formed. Whatever the bytes, a manifest that the reader
  returns has every part as its constructor accepts it, unique installation identities in sorted order, no effect owned by two
  installations, and evidence digests that match; and its source paths are such that writing and reading it again is not refused for them.
\<close>

theorem parse_install_state_wf:
  assumes "parse_install_state data path = Some (Ok s)"
  shows "wf_state s \<and> list_all readable_record (ist_installations s)
    \<and> sorted (map ir_key (ist_installations s)) \<and> distinct (map ir_key (ist_installations s)) \<and> distinct (effect_owners (ist_installations s))"
proof -
  obtain v es items records where v: "wf_json v" "v = JObject es" "json_field es ''installations'' = JArray items"
    and items: "read_items (read_record path) 0 items = Ok records" and mk: "mk_install_state 2 records = Inr s"
    using parse_install_state_records[OF assms] .
  then have "wf_json (JArray items)" using wf_json_field by metis
  then have "list_all (\<lambda>r. wf_record r \<and> readable_record r) records"
    using read_items_all[OF items] read_record_wf by simp
  moreover note again = mk_install_state_again[OF mk]
  ultimately have "wf_state s" "list_all readable_record (ist_installations s)" by (auto simp: wf_state_def list_all_iff)
  then show ?thesis using mk_install_state_distinct[OF mk] by simp
qed

theorem parse_install_state_wf_witness:
  "wf_state (sample_state ''payload/style.md'') \<and> distinct (effect_owners (ist_installations (sample_state ''payload/style.md'')))"
  using parse_install_state_wf[OF sample_state_read[of "''manifest.json''"]] by simp

end
