(* ===== verification/InstallModel.thy ===== *)
theory InstallModel
  imports InstallSchema Store
begin

text \<open>
  The values of reviewed installation plans (\<open>agent_artifacts/installation/model.py\<close>): locations and requests, observed paths with
  the digests that bind them, the four kinds of operations, the install plan with everything its review digest covers, and the state
  of a managed link.
\<close>

subsection \<open>Standard library\<close>

text \<open>\<open>posixpath.dirname\<close>\<close>

definition posix_dirname :: "string \<Rightarrow> string" where
  "posix_dirname path =
     (case fst (rpartition_at CHR ''/'' path) of
        None \<Rightarrow> []
      | Some head \<Rightarrow> if list_all (\<lambda>c. c = CHR ''/'') head then head @ ''/'' else rev (dropWhile (\<lambda>c. c = CHR ''/'') (rev head)))"

fun common_prefix :: "'a list \<Rightarrow> 'a list \<Rightarrow> 'a list" where
  "common_prefix (x # xs) (y # ys) = (if x = y then x # common_prefix xs ys else [])"
| "common_prefix _ _ = []"

text \<open>\<open>posixpath.commonpath\<close> of two absolute paths\<close>

definition commonpath :: "string \<Rightarrow> string \<Rightarrow> string" where
  "commonpath a b =
     (let parts = (\<lambda>p. [c \<leftarrow> split_on CHR ''/'' p. c \<noteq> [] \<and> c \<noteq> ''.'']) in ''/'' @ join ''/'' (common_prefix (parts a) (parts b)))"

text \<open>Equality of JSON values in Python, where a truth value equals the number it stands for.\<close>

fun json_norm :: "json_value \<Rightarrow> json_value" where
  "json_norm JNull = JNull"
| "json_norm (JBool b) = JInt (of_bool b)"
| "json_norm (JInt n) = JInt n"
| "json_norm (JStr s) = JStr s"
| "json_norm (JObject es) = JObject (map (\<lambda>(k, v). (k, json_norm v)) es)"
| "json_norm (JArray vs) = JArray (map json_norm vs)"

definition json_same :: "json_value \<Rightarrow> json_value \<Rightarrow> bool" where
  "json_same a b \<longleftrightarrow> json_norm a = json_norm b"

subsection \<open>Locations and requests\<close>

definition single_path :: "string \<Rightarrow> bool" where
  "single_path path \<longleftrightarrow> normalized_absolute path \<and> path \<noteq> ''/'' \<and> CHR 0x00 \<notin> set path \<and> CHR 0x0D \<notin> set path \<and> CHR 0x0A \<notin> set path"

definition install_absolute :: "string \<Rightarrow> string \<Rightarrow> unit py" where
  "install_absolute path label = py_guard (\<not> single_path path) (label @ '' must be a normalized non-root absolute path'') (Inr ())"

definition install_relative :: "string \<Rightarrow> string \<Rightarrow> unit py" where
  "install_relative path label =
     (case parse_relative_path path None of
        Err _ \<Rightarrow> Inl (ValueError (label @ '' must be a safe relative path''))
      | Ok p \<Rightarrow> py_guard (path_str p \<noteq> path) (label @ '' must be a canonical relative path'') (Inr ()))"

record install_location =
  il_project_root :: string
  il_user_home :: string
  il_data_root :: string

definition mk_install_location :: "string \<Rightarrow> string \<Rightarrow> string \<Rightarrow> install_location py" where
  "mk_install_location project_root user_home data_root =
     py_check (install_absolute project_root ''project root'')
       (py_check (install_absolute user_home ''user home'')
          (py_check (install_absolute data_root ''data root'')
             (Inr \<lparr>il_project_root = project_root, il_user_home = user_home, il_data_root = data_root\<rparr>)))"

record install_request =
  iq_identity :: artifact_identity
  iq_source :: "source_alias option"
  iq_version :: "string option"
  iq_profile :: string
  iq_profile_version :: int
  iq_platform :: string
  iq_scope :: string
  iq_mode :: string
  iq_force :: bool
  iq_offline :: bool
  iq_memory_mode :: string
  iq_mutable_root :: "string option"

definition mk_install_request :: "install_request \<Rightarrow> install_request py" where
  "mk_install_request q =
     py_guard (identity_kind (iq_identity q) \<notin> set ARTIFACT_KINDS \<or> \<not> slug_match (identity_name (iq_identity q))
         \<or> (case iq_source q of None \<Rightarrow> False | Some a \<Rightarrow> \<not> slug_match (alias_value a))
         \<or> (case iq_version q of None \<Rightarrow> False | Some v \<Rightarrow> \<not> is_ok (parse_semver v None))
         \<or> \<not> slug_match (iq_profile q)
         \<or> \<not> (1 \<le> iq_profile_version q \<and> iq_profile_version q \<le> 2 ^ 63 - 1)
         \<or> iq_platform q = [] \<or> CHR 0x0A \<in> set (iq_platform q)
         \<or> iq_scope q \<notin> {''project'', ''user''} \<or> iq_mode q \<notin> {''copy'', ''symlink''}
         \<or> iq_memory_mode q \<notin> {''replace'', ''prepend'', ''append'', ''skip''}
         \<or> (case iq_mutable_root q of None \<Rightarrow> False | Some r \<Rightarrow> iq_mode q \<noteq> ''symlink'' \<or> \<not> single_path r))
       ''canonical install request is invalid'' (Inr q)"

record install_provenance =
  pv_origin_url :: string
  pv_resolved_commit :: string
  pv_path :: safe_relative_path

definition canonical_path_check :: "safe_relative_path \<Rightarrow> string \<Rightarrow> unit py" where
  "canonical_path_check path label =
     (case parse_relative_path (path_str path) None of
        Err _ \<Rightarrow> Inl (ValueError (label @ '' path is invalid''))
      | Ok p \<Rightarrow> py_guard (p \<noteq> path) (label @ '' path is not canonical'') (Inr ()))"

definition mk_install_provenance :: "install_provenance \<Rightarrow> install_provenance py" where
  "mk_install_provenance p =
     py_guard (pv_origin_url p = [] \<or> pv_origin_url p \<noteq> strip (pv_origin_url p)
         \<or> CHR 0x0D \<in> set (pv_origin_url p) \<or> CHR 0x0A \<in> set (pv_origin_url p)
         \<or> contains ''://'' (pv_origin_url p) \<or> CHR ''@'' \<in> set (pv_origin_url p) \<or> CHR ''/'' \<notin> set (pv_origin_url p)
         \<or> \<not> commit_re (pv_resolved_commit p))
       ''install provenance is invalid''
       (py_check (canonical_path_check (pv_path p) ''install provenance'') (Inr p))"

subsection \<open>Observed paths\<close>

record tree_member =
  tm_path :: safe_relative_path
  tm_kind :: string
  tm_content :: bytes
  tm_executable :: bool

definition mk_tree_member :: "tree_member \<Rightarrow> tree_member py" where
  "mk_tree_member m =
     py_check (canonical_path_check (tm_path m) ''tree member'')
       (if tm_kind m = ''directory'' then
          py_guard (tm_content m \<noteq> [] \<or> tm_executable m) ''tree directory cannot contain file metadata'' (Inr m)
        else py_guard (tm_kind m \<noteq> ''file'') ''tree member kind is invalid'' (Inr m))"

definition member_entry :: "tree_member \<Rightarrow> tree_entry" where
  "member_entry m =
     (if tm_kind m = ''directory'' then directory_entry (tm_path m) else file_entry (tm_path m) (tm_content m) (tm_executable m))"

definition tree_members_digest :: "tree_member list \<Rightarrow> object_digest py" where
  "tree_members_digest members =
     (case tree_digest (map member_entry members) of
        Ok d \<Rightarrow> Inr d
      | Err _ \<Rightarrow> Inl (ValueError ''tree members cannot be hashed''))"

definition file_snapshot_payload :: "bytes \<Rightarrow> bool \<Rightarrow> bytes" where
  "file_snapshot_payload content executable =
     utf8_encode ''file'' @ [0] @ utf8_encode (if executable then ''x'' else ''-'') @ to_bytes_be 8 (length content) @ content"

definition file_snapshot_digest :: "bytes \<Rightarrow> bool \<Rightarrow> object_digest" where
  "file_snapshot_digest content executable = sha256_bytes (file_snapshot_payload content executable)"

definition link_snapshot_digest :: "string \<Rightarrow> object_digest py" where
  "link_snapshot_digest target =
     py_guard (target = [] \<or> CHR 0x00 \<in> set target \<or> CHR 0x0D \<in> set target \<or> CHR 0x0A \<in> set target)
       ''link target must be one non-empty path'' (Inr (sha256_bytes (utf8_encode ''symlink'' @ [0] @ utf8_encode target)))"

record path_snapshot =
  ps_path :: string
  ps_kind :: string
  ps_digest :: "object_digest option"
  ps_content :: bytes
  ps_executable :: bool
  ps_members :: "tree_member list"
  ps_link_target :: "string option"
  ps_target_exists :: "bool option"

definition no_file :: "path_snapshot \<Rightarrow> bool" where
  "no_file s \<longleftrightarrow> ps_content s = [] \<and> \<not> ps_executable s"

definition no_link :: "path_snapshot \<Rightarrow> bool" where
  "no_link s \<longleftrightarrow> ps_link_target s = None \<and> ps_target_exists s = None"

definition snapshot_valid :: "path_snapshot \<Rightarrow> bool py" where
  "snapshot_valid s =
     (if ps_kind s = ''absent'' then Inr (ps_digest s = None \<and> no_file s \<and> ps_members s = [] \<and> no_link s)
      else if ps_kind s = ''file'' then
        Inr (ps_digest s = Some (file_snapshot_digest (ps_content s) (ps_executable s)) \<and> ps_members s = [] \<and> no_link s)
      else if ps_kind s = ''tree'' then
        (if ps_members s \<noteq> [] \<and> sort_key (path_str \<circ> tm_path) (ps_members s) = ps_members s then
           (case tree_members_digest (ps_members s) of
              Inl e \<Rightarrow> Inl e
            | Inr d \<Rightarrow> Inr (ps_digest s = Some d \<and> no_file s \<and> no_link s))
         else Inr False)
      else if ps_kind s = ''symlink'' then
        (case ps_link_target s of
           None \<Rightarrow> Inr False
         | Some target \<Rightarrow>
             (case link_snapshot_digest target of
                Inl e \<Rightarrow> Inl e
              | Inr d \<Rightarrow> Inr (ps_digest s = Some d \<and> ps_target_exists s \<noteq> None \<and> no_file s \<and> ps_members s = [])))
      else if ps_kind s = ''special'' then
        Inr ((case ps_digest s of None \<Rightarrow> False | Some d \<Rightarrow> valid_digest d) \<and> no_file s \<and> ps_members s = [] \<and> no_link s)
      else Inr False)"

definition mk_path_snapshot :: "path_snapshot \<Rightarrow> path_snapshot py" where
  "mk_path_snapshot s =
     py_check (install_absolute (ps_path s) ''snapshot path'')
       (case snapshot_valid s of
          Inl e \<Rightarrow> Inl e
        | Inr valid \<Rightarrow> py_guard (\<not> valid) ''path snapshot does not bind its exact observed state'' (Inr s))"

definition empty_snapshot :: "string \<Rightarrow> string \<Rightarrow> path_snapshot" where
  "empty_snapshot path kind =
     \<lparr>ps_path = path, ps_kind = kind, ps_digest = None, ps_content = [], ps_executable = False, ps_members = [],
      ps_link_target = None, ps_target_exists = None\<rparr>"

definition snapshot_absent :: "string \<Rightarrow> path_snapshot py" where
  "snapshot_absent path = mk_path_snapshot (empty_snapshot path ''absent'')"

definition snapshot_file :: "string \<Rightarrow> bytes \<Rightarrow> bool \<Rightarrow> path_snapshot py" where
  "snapshot_file path content executable =
     mk_path_snapshot ((empty_snapshot path ''file'')\<lparr>ps_digest := Some (file_snapshot_digest content executable), ps_content := content,
       ps_executable := executable\<rparr>)"

definition tree_snapshot :: "string \<Rightarrow> tree_member list \<Rightarrow> path_snapshot py" where
  "tree_snapshot path members =
     (let ordered = sort_key (path_str \<circ> tm_path) members in
      case tree_members_digest ordered of
        Inl e \<Rightarrow> Inl e
      | Inr d \<Rightarrow> mk_path_snapshot ((empty_snapshot path ''tree'')\<lparr>ps_digest := Some d, ps_members := ordered\<rparr>))"

definition snapshot_symlink :: "string \<Rightarrow> string \<Rightarrow> bool \<Rightarrow> path_snapshot py" where
  "snapshot_symlink path target exists =
     (case link_snapshot_digest target of
        Inl e \<Rightarrow> Inl e
      | Inr d \<Rightarrow> mk_path_snapshot ((empty_snapshot path ''symlink'')\<lparr>ps_digest := Some d, ps_link_target := Some target,
                   ps_target_exists := Some exists\<rparr>))"

subsection \<open>Operations\<close>

record copy_tree_operation =
  ct_source_path :: string
  ct_destination :: string
  ct_absolute_destination :: string
  ct_members :: "tree_member list"
  ct_desired_digest :: object_digest
  ct_precondition :: path_snapshot
  ct_overwrote :: bool

definition mk_copy_tree_operation :: "copy_tree_operation \<Rightarrow> copy_tree_operation py" where
  "mk_copy_tree_operation o' =
     py_check (install_relative (ct_source_path o') ''copy source path'')
       (py_check (install_absolute (ct_absolute_destination o') ''copy destination'')
          (if ps_path (ct_precondition o') \<noteq> ct_absolute_destination o' \<or> ct_members o' = []
              \<or> sort_key (path_str \<circ> tm_path) (ct_members o') \<noteq> ct_members o'
           then Inl (ValueError ''copy-tree operation is not exactly bound'')
           else
             (case tree_members_digest (ct_members o') of
                Inl e \<Rightarrow> Inl e
              | Inr d \<Rightarrow> py_guard (d \<noteq> ct_desired_digest o') ''copy-tree operation is not exactly bound'' (Inr o'))))"

record write_file_operation =
  wf_source_path :: string
  wf_destination :: string
  wf_absolute_destination :: string
  wf_content :: bytes
  wf_executable :: bool
  wf_desired_digest :: object_digest
  wf_precondition :: path_snapshot
  wf_effect_kind :: string
  wf_overwrote :: bool
  wf_restores_from :: "string option"

definition mk_write_file_operation :: "write_file_operation \<Rightarrow> write_file_operation py" where
  "mk_write_file_operation o' =
     py_check (install_relative (wf_source_path o') ''file source path'')
       (py_check (install_absolute (wf_absolute_destination o') ''file destination'')
          (py_guard (ps_path (wf_precondition o') \<noteq> wf_absolute_destination o'
              \<or> wf_desired_digest o' \<noteq> file_snapshot_digest (wf_content o') (wf_executable o')
              \<or> wf_effect_kind o' \<notin> {''write-file'', ''managed-block''}
              \<or> wf_restores_from o' = Some (wf_destination o'))
             ''write-file operation is not exactly bound'' (Inr o')))"

record link_operation =
  lk_source_path :: string
  lk_destination :: string
  lk_absolute_destination :: string
  lk_target :: string
  lk_target_kind :: string
  lk_semantics :: string
  lk_target_content_digest :: object_digest
  lk_desired_digest :: object_digest
  lk_target_precondition :: path_snapshot
  lk_precondition :: path_snapshot
  lk_overwrote :: bool

definition mk_link_operation :: "link_operation \<Rightarrow> link_operation py" where
  "mk_link_operation o' =
     py_check (install_relative (lk_source_path o') ''link source path'')
       (py_check (install_absolute (lk_absolute_destination o') ''link destination'')
          (py_check (install_absolute (lk_target o') ''link target'')
             (py_guard (ps_path (lk_precondition o') \<noteq> lk_absolute_destination o'
                 \<or> ps_path (lk_target_precondition o') \<noteq> lk_target o'
                 \<or> ps_kind (lk_target_precondition o') \<noteq> lk_target_kind o'
                 \<or> ps_digest (lk_target_precondition o') \<noteq> Some (lk_target_content_digest o')
                 \<or> lk_target_kind o' \<notin> {''file'', ''tree''}
                 \<or> lk_semantics o' \<notin> {''immutable-object'', ''mutable-local''}
                 \<or> \<not> valid_digest (lk_target_content_digest o')
                 \<or> link_snapshot_digest (lk_target o') \<noteq> Inr (lk_desired_digest o'))
                ''link operation is not exactly bound'' (Inr o'))))"

record merge_json_operation =
  mj_destination :: string
  mj_absolute_destination :: string
  mj_json_path :: string
  mj_merge_mode :: string
  mj_identity :: "string list"
  mj_identity_evidence :: json_value
  mj_value_digest :: object_digest
  mj_identity_digest :: object_digest
  mj_content :: bytes
  mj_desired_digest :: object_digest
  mj_precondition :: path_snapshot
  mj_overwrote :: bool

definition mk_merge_json_operation :: "merge_json_operation \<Rightarrow> merge_json_operation py" where
  "mk_merge_json_operation o' =
     py_check (install_absolute (mj_absolute_destination o') ''merge destination'')
       (py_guard (ps_path (mj_precondition o') \<noteq> mj_absolute_destination o' \<or> mj_json_path o' = []
           \<or> mj_merge_mode o' \<notin> {''key'', ''list''} \<or> mj_identity o' = []
           \<or> list_ex (\<lambda>item. item = [] \<or> CHR 0x0A \<in> set item) (mj_identity o')
           \<or> mj_desired_digest o' \<noteq> file_snapshot_digest (mj_content o') False
           \<or> mj_identity_digest o' \<noteq> json_digest (mj_identity_evidence o'))
          ''merge-json operation is not exactly bound'' (Inr o'))"

datatype install_operation =
    CopyTree copy_tree_operation
  | WriteFile write_file_operation
  | Link link_operation
  | MergeJson merge_json_operation

definition iop_destination :: "install_operation \<Rightarrow> string" where
  "iop_destination o' =
     (case o' of CopyTree c \<Rightarrow> ct_destination c | WriteFile w \<Rightarrow> wf_destination w | Link l \<Rightarrow> lk_destination l
      | MergeJson m \<Rightarrow> mj_destination m)"

definition iop_absolute_destination :: "install_operation \<Rightarrow> string" where
  "iop_absolute_destination o' =
     (case o' of CopyTree c \<Rightarrow> ct_absolute_destination c | WriteFile w \<Rightarrow> wf_absolute_destination w
      | Link l \<Rightarrow> lk_absolute_destination l | MergeJson m \<Rightarrow> mj_absolute_destination m)"

definition iop_desired_digest :: "install_operation \<Rightarrow> object_digest" where
  "iop_desired_digest o' =
     (case o' of CopyTree c \<Rightarrow> ct_desired_digest c | WriteFile w \<Rightarrow> wf_desired_digest w | Link l \<Rightarrow> lk_desired_digest l
      | MergeJson m \<Rightarrow> mj_desired_digest m)"

definition iop_precondition :: "install_operation \<Rightarrow> path_snapshot" where
  "iop_precondition o' =
     (case o' of CopyTree c \<Rightarrow> ct_precondition c | WriteFile w \<Rightarrow> wf_precondition w | Link l \<Rightarrow> lk_precondition l
      | MergeJson m \<Rightarrow> mj_precondition m)"

definition iop_overwrote :: "install_operation \<Rightarrow> bool" where
  "iop_overwrote o' =
     (case o' of CopyTree c \<Rightarrow> ct_overwrote c | WriteFile w \<Rightarrow> wf_overwrote w | Link l \<Rightarrow> lk_overwrote l
      | MergeJson m \<Rightarrow> mj_overwrote m)"

definition operation_is_current :: "install_operation \<Rightarrow> bool" where
  "operation_is_current o' =
     (case o' of
        Link l \<Rightarrow>
          ps_kind (lk_precondition l) = ''symlink'' \<and> ps_digest (lk_precondition l) = Some (lk_desired_digest l)
          \<and> ps_link_target (lk_precondition l) = Some (lk_target l) \<and> ps_target_exists (lk_precondition l) = Some True
      | _ \<Rightarrow> ps_digest (iop_precondition o') = Some (iop_desired_digest o'))"

subsection \<open>Managed links\<close>

datatype link_status = L_CURRENT | L_MUTABLE_LOCAL | L_BROKEN | L_RETARGETED | L_REPLACED

definition classify_link :: "effect_proof \<Rightarrow> path_snapshot \<Rightarrow> link_status py" where
  "classify_link effect observed =
     py_guard (\<not> is_link effect \<or> ep_link_target effect = None) ''link status requires a managed link effect''
       (Inr (if ps_kind observed \<noteq> ''symlink'' then L_REPLACED
             else if ps_link_target observed \<noteq> ep_link_target effect then L_RETARGETED
             else if ps_target_exists observed \<noteq> Some True then L_BROKEN
             else if ep_link_semantics effect = Some ''mutable-local'' then L_MUTABLE_LOCAL
             else L_CURRENT))"


subsection \<open>Install plans\<close>

definition JOpt :: "('a \<Rightarrow> json_value) \<Rightarrow> 'a option \<Rightarrow> json_value" where
  "JOpt enc x = (case x of None \<Rightarrow> JNull | Some v \<Rightarrow> enc v)"

definition path_snapshot_json :: "path_snapshot \<Rightarrow> json_value" where
  "path_snapshot_json s =
     json_object
       [(''path'', JStr (ps_path s)), (''kind'', JStr (ps_kind s)), (''digest'', JOpt JDigest (ps_digest s)),
        (''link_target'', JOpt JStr (ps_link_target s)), (''target_exists'', JOpt JBool (ps_target_exists s))]"

definition operation_json :: "install_operation \<Rightarrow> json_value" where
  "operation_json o' =
     (let common =
        [(''destination'', JStr (iop_destination o')), (''absolute_destination'', JStr (iop_absolute_destination o')),
         (''desired_digest'', JDigest (iop_desired_digest o')), (''precondition'', path_snapshot_json (iop_precondition o')),
         (''overwrote'', JBool (iop_overwrote o'))] in
      case o' of
        CopyTree c \<Rightarrow> json_object ([(''kind'', JStr ''copy-tree''), (''source_path'', JStr (ct_source_path c))] @ common)
      | WriteFile w \<Rightarrow>
          json_object ([(''kind'', JStr (wf_effect_kind w)), (''source_path'', JStr (wf_source_path w)),
            (''restores_from'', JOpt JStr (wf_restores_from w))] @ common)
      | Link l \<Rightarrow>
          json_object ([(''kind'', JStr (if lk_target_kind l = ''tree'' then ''symlink-tree'' else ''symlink-file'')),
            (''source_path'', JStr (lk_source_path l)), (''target'', JStr (lk_target l)), (''target_kind'', JStr (lk_target_kind l)),
            (''semantics'', JStr (lk_semantics l)), (''target_content_digest'', JDigest (lk_target_content_digest l)),
            (''target_precondition'', path_snapshot_json (lk_target_precondition l))] @ common)
      | MergeJson m \<Rightarrow>
          json_object ([(''kind'', JStr ''merge-json''), (''json_path'', JStr (mj_json_path m)), (''merge_mode'', JStr (mj_merge_mode m)),
            (''identity'', JArray (map JStr (mj_identity m))), (''identity_evidence'', mj_identity_evidence m),
            (''value_digest'', JDigest (mj_value_digest m)), (''identity_digest'', JDigest (mj_identity_digest m))] @ common))"

record install_plan =
  ip_request :: install_request
  ip_coordinate :: artifact_coordinate
  ip_source :: source_evidence
  ip_source_health :: string
  ip_source_age_seconds :: int
  ip_source_snapshot_digest :: object_digest
  ip_artifact :: artifact_evidence
  ip_trust :: string
  ip_trust_evidence_digest :: object_digest
  ip_policy_digest :: object_digest
  ip_object_store_paths :: object_store_paths
  ip_object_candidate :: object_candidate
  ip_object_root :: string
  ip_object_digest :: object_digest
  ip_provenance :: "install_provenance option"
  ip_operations :: "install_operation list"
  ip_state_path :: string
  ip_state_lock_path :: string
  ip_state_precondition :: path_snapshot
  ip_replacement_state :: install_state
  ip_replacement_state_digest :: object_digest
  ip_reference_owner :: string
  ip_review_digest :: object_digest

definition provenance_json :: "install_provenance \<Rightarrow> json_value" where
  "provenance_json p =
     json_object [(''origin_url'', JStr (pv_origin_url p)), (''resolved_commit'', JStr (pv_resolved_commit p)), (''path'', JStr (path_str (pv_path p)))]"

definition plan_review_value :: "install_plan \<Rightarrow> json_value" where
  "plan_review_value p =
     (let q = ip_request p in
      json_object
        [(''schema_version'', JInt 1),
         (''coordinate'', JStr (coordinate_str (ip_coordinate p))),
         (''requested_identity'', JStr (identity_str (iq_identity q))),
         (''requested_source'', JOpt (JStr \<circ> alias_value) (iq_source q)),
         (''requested_version'', JOpt JStr (iq_version q)),
         (''profile'', JStr (iq_profile q)),
         (''profile_version'', JInt (iq_profile_version q)),
         (''platform'', JStr (iq_platform q)),
         (''scope'', JStr (iq_scope q)),
         (''mode'', JStr (iq_mode q)),
         (''force'', JBool (iq_force q)),
         (''offline'', JBool (iq_offline q)),
         (''memory_mode'', JStr (iq_memory_mode q)),
         (''mutable_local_payload_root'', JOpt JStr (iq_mutable_root q)),
         (''source_alias'', JStr (alias_value (sev_alias (ip_source p)))),
         (''source_id'', JStr (source_id_value (sev_declared_id (ip_source p)))),
         (''source_kind'', JStr (source_kind_value (sev_kind (ip_source p)))),
         (''source_origin'', JStr (sev_origin (ip_source p))),
         (''resolved_commit'', JStr (sev_resolved_commit (ip_source p))),
         (''subscription_ref'', JOpt JStr (sev_subscription_ref (ip_source p))),
         (''source_snapshot_digest'', JDigest (ip_source_snapshot_digest p)),
         (''artifact_version'', JStr (semver_str (aev_version (ip_artifact p)))),
         (''manifest_digest'', JDigest (aev_manifest_digest (ip_artifact p))),
         (''payload_digest'', JDigest (aev_payload_digest (ip_artifact p))),
         (''object_digest'', JDigest (ip_object_digest p)),
         (''object_store_root'', JStr (osp_root (ip_object_store_paths p))),
         (''object_root'', JStr (ip_object_root p)),
         (''provenance'', JOpt provenance_json (ip_provenance p)),
         (''trust'', JStr (ip_trust p)),
         (''trust_evidence_digest'', JDigest (ip_trust_evidence_digest p)),
         (''policy_digest'', JDigest (ip_policy_digest p)),
         (''operations'', JArray (map operation_json (ip_operations p))),
         (''state_path'', JStr (ip_state_path p)),
         (''state_lock_path'', JStr (ip_state_lock_path p)),
         (''state_precondition'', path_snapshot_json (ip_state_precondition p)),
         (''replacement_state_digest'', JDigest (ip_replacement_state_digest p)),
         (''reference_owner'', JStr (ip_reference_owner p))])"

definition effect_matches_operation :: "effect_proof \<Rightarrow> install_operation \<Rightarrow> bool" where
  "effect_matches_operation e o' \<longleftrightarrow>
     ep_destination e = iop_destination o' \<and>
     (case o' of
        Link l \<Rightarrow>
          ep_kind e = (if lk_target_kind l = ''tree'' then ''symlink-tree'' else ''symlink-file'') \<and> ep_actual_mode e = ''symlink''
          \<and> ep_installed_digest e = lk_target_content_digest l \<and> ep_source_path e = Some (lk_source_path l)
          \<and> ep_link_target e = Some (lk_target l) \<and> ep_link_semantics e = Some (lk_semantics l) \<and> ep_json_path e = None
      | CopyTree c \<Rightarrow>
          ep_actual_mode e = ''copy'' \<and> ep_kind e = ''copy-tree'' \<and> ep_installed_digest e = ct_desired_digest c
          \<and> ep_source_path e = Some (ct_source_path c) \<and> ep_json_path e = None
      | WriteFile w \<Rightarrow>
          ep_actual_mode e = ''copy'' \<and> ep_kind e = wf_effect_kind w \<and> ep_installed_digest e = wf_desired_digest w
          \<and> ep_source_path e = (if wf_effect_kind w = ''write-file'' then Some (wf_source_path w) else None) \<and> ep_json_path e = None
      | MergeJson m \<Rightarrow>
          ep_actual_mode e = ''copy'' \<and> ep_kind e = ''merge-json'' \<and> ep_installed_digest e = mj_value_digest m \<and> ep_source_path e = None
          \<and> ep_json_path e = Some (mj_json_path m) \<and> ep_merge_mode e = Some (mj_merge_mode m)
          \<and> ep_identity_digest e = Some (mj_identity_digest m) \<and> json_same (ep_identity_evidence e) (mj_identity_evidence m))"

definition replacement_record :: "install_plan \<Rightarrow> installation_record option" where
  "replacement_record p =
     List.find (\<lambda>r. coord_source (ir_coordinate r) = coord_source (ip_coordinate p)
         \<and> coord_artifact (ir_coordinate r) = coord_artifact (ip_coordinate p)
         \<and> ir_profile r = iq_profile (ip_request p) \<and> ir_scope r = iq_scope (ip_request p))
       (ist_installations (ip_replacement_state p))"

definition copies_tree :: "install_operation \<Rightarrow> bool" where
  "copies_tree o' = (case o' of CopyTree _ \<Rightarrow> True | Link l \<Rightarrow> lk_target_kind l = ''tree'' | _ \<Rightarrow> False)"

definition writes_file :: "install_operation \<Rightarrow> bool" where
  "writes_file o' = (case o' of WriteFile _ \<Rightarrow> True | Link l \<Rightarrow> lk_target_kind l = ''file'' | _ \<Rightarrow> False)"

definition merges_json :: "install_operation \<Rightarrow> bool" where
  "merges_json o' = (case o' of MergeJson _ \<Rightarrow> True | _ \<Rightarrow> False)"

definition operations_match_artifact :: "string \<Rightarrow> install_operation list \<Rightarrow> bool" where
  "operations_match_artifact kind operations =
     (if kind = ''skill'' then (case operations of [o'] \<Rightarrow> copies_tree o' | _ \<Rightarrow> False)
      else if kind = ''guideline'' then (case operations of [o'] \<Rightarrow> writes_file o' | _ \<Rightarrow> False)
      else if kind = ''mcp'' then (case operations of [o'] \<Rightarrow> merges_json o' | _ \<Rightarrow> False)
      else if kind = ''hook'' then (case operations of [a, b] \<Rightarrow> copies_tree a \<and> merges_json b | _ \<Rightarrow> False)
      else
        (case operations of
           [WriteFile _] \<Rightarrow> True
         | [WriteFile sidecar, WriteFile destination] \<Rightarrow>
             wf_restores_from sidecar = None \<and> wf_restores_from destination = Some (wf_destination sidecar)
         | _ \<Rightarrow> False))"

definition plan_links :: "install_operation list \<Rightarrow> link_operation list" where
  "plan_links operations = concat (map (\<lambda>o'. case o' of Link l \<Rightarrow> [l] | _ \<Rightarrow> []) operations)"

definition destinations_are_scoped :: "string \<Rightarrow> string \<Rightarrow> (string \<times> string) list \<Rightarrow> bool" where
  "destinations_are_scoped scope state_path destinations =
     (let project_root = posix_dirname (posix_dirname state_path) in
      list_all (\<lambda>(absolute, destination).
        absolute = (if scope = ''project'' then posix_join project_root destination else destination)) destinations)"

definition expected_link_target :: "install_plan \<Rightarrow> link_operation \<Rightarrow> string option" where
  "expected_link_target p l =
     (case (if lk_semantics l = ''immutable-object'' then Some (posix_join (ip_object_root p) ''payload'') else iq_mutable_root (ip_request p)) of
        None \<Rightarrow> None
      | Some base \<Rightarrow>
          if lk_source_path l = ''payload'' then Some base
          else if take 8 (lk_source_path l) = ''payload/'' then Some (posix_join base (drop 8 (lk_source_path l)))
          else None)"

definition install_owner_char :: "char \<Rightarrow> bool" where
  "install_owner_char c \<longleftrightarrow> is_letter c \<or> is_digit c \<or> c \<in> set ''._:/@+-''"

text \<open>\<open>_REFERENCE_OWNER_RE\<close>\<close>

definition reference_owner_re :: "string \<Rightarrow> bool" where
  "reference_owner_re s \<longleftrightarrow> s \<noteq> [] \<and> (is_letter (hd s) \<or> is_digit (hd s)) \<and> length s \<le> 512 \<and> list_all install_owner_char (tl s)"

definition UNREVIEWED_INSTALL :: object_digest where
  "UNREVIEWED_INSTALL = sha256_bytes (utf8_encode ''unreviewed-install-plan'')"

definition plan_unbound :: "install_plan \<Rightarrow> bool" where
  "plan_unbound p \<longleftrightarrow>
     (let q = ip_request p; links = plan_links (ip_operations p); digest = ip_object_digest p in
      coord_source (ip_coordinate p) \<noteq> sev_alias (ip_source p)
      \<or> coord_artifact (ip_coordinate p) \<noteq> aev_identity (ip_artifact p)
      \<or> coord_version (ip_coordinate p) \<noteq> Some (semver_str (aev_version (ip_artifact p)))
      \<or> oc_digest (ip_object_candidate p) \<noteq> digest
      \<or> aev_object_digest (ip_artifact p) \<noteq> digest
      \<or> \<not> list_all valid_digest [ip_trust_evidence_digest p, ip_policy_digest p, ip_source_snapshot_digest p, digest,
            ip_replacement_state_digest p, ip_review_digest p]
      \<or> ip_object_root p \<noteq> join_all (osp_objects (ip_object_store_paths p)) [take 2 (digest_value digest), drop 2 (digest_value digest)]
      \<or> ip_source_health p \<notin> {''healthy'', ''stale'', ''degraded''}
      \<or> ip_source_age_seconds p < 0
      \<or> ip_trust p \<notin> {''unverified'', ''local'', ''direct-source'', ''registry-reviewed'', ''company-reviewed''}
      \<or> ip_operations p = []
      \<or> \<not> operations_match_artifact (identity_kind (iq_identity q)) (ip_operations p)
      \<or> \<not> distinct (map iop_absolute_destination (ip_operations p))
      \<or> \<not> destinations_are_scoped (iq_scope q) (ip_state_path p)
            (map (\<lambda>o'. (iop_absolute_destination o', iop_destination o')) (ip_operations p))
      \<or> (iq_mode q = ''copy'' \<and> links \<noteq> [])
      \<or> (iq_mutable_root q \<noteq> None \<and> links = [])
      \<or> list_ex (\<lambda>l. lk_semantics l \<noteq> (if iq_mutable_root q \<noteq> None then ''mutable-local'' else ''immutable-object'')) links
      \<or> \<not> (case iq_mutable_root q of
            None \<Rightarrow> True
          | Some r \<Rightarrow> sev_kind (ip_source p) = SOURCE_LOCAL \<and> commonpath (sev_origin (ip_source p)) r = sev_origin (ip_source p))
      \<or> \<not> list_all (\<lambda>l. Some (lk_target l) = expected_link_target p l) links
      \<or> ps_path (ip_state_precondition p) \<noteq> ip_state_path p
      \<or> sha256_bytes (install_state_bytes (ip_replacement_state p)) \<noteq> ip_replacement_state_digest p
      \<or> \<not> reference_owner_re (ip_reference_owner p)
      \<or> length (ip_reference_owner p) > 499
      \<or> (case replacement_record p of
           None \<Rightarrow> True
         | Some r \<Rightarrow>
             ir_source r \<noteq> ip_source p \<or> ir_artifact r \<noteq> ip_artifact p
             \<or> ir_profile_version r \<noteq> iq_profile_version q \<or> ir_requested_mode r \<noteq> iq_mode q
             \<or> ir_memory_mode r \<noteq> (if identity_kind (iq_identity q) = ''memory'' then Some (iq_memory_mode q) else None)
             \<or> length (ir_effects r) \<noteq> length (ip_operations p)
             \<or> \<not> list_all2 effect_matches_operation (ir_effects r) (ip_operations p))
      \<or> ip_review_digest p \<notin> {UNREVIEWED_INSTALL, json_digest (plan_review_value p)})"

definition mk_install_plan :: "install_plan \<Rightarrow> install_plan py" where
  "mk_install_plan p =
     py_check (install_absolute (ip_object_root p) ''object root'')
       (py_check (install_absolute (ip_state_path p) ''state path'')
          (py_check (install_absolute (ip_state_lock_path p) ''state lock path'')
             (py_guard (plan_unbound p) ''canonical install plan is not exactly review-bound''
                (Inr (if ip_review_digest p = UNREVIEWED_INSTALL then p\<lparr>ip_review_digest := json_digest (plan_review_value p)\<rparr> else p)))))"

datatype install_status = I_APPLIED | I_CURRENT | I_CONFLICTED | I_FAILED

record effect_outcome =
  eo_kind :: string
  eo_destination :: string
  eo_status :: string
  eo_detail :: "string option"

record install_outcome =
  io_review_digest :: object_digest
  io_status :: install_status
  io_effects :: "effect_outcome list"
  io_state_written :: bool

definition io_changed :: "install_outcome \<Rightarrow> nat" where
  "io_changed o' = length [e \<leftarrow> io_effects o'. eo_status e = ''changed'']"

end
