(* ===== verification/Lifecycle.thy ===== *)
theory Lifecycle
  imports InstallModel Configuration "HOL-Library.Sublist"
begin

text \<open>
  Installed artifacts over their life (\<open>agent_artifacts/lifecycle/model.py\<close> and \<open>agent_artifacts/lifecycle/application.py\<close>): the
  status of every recorded effect, the comparison with the current marketplace, and the reviewed plan that removes an installation.
  The file system and the stores are behind ports, which are parameters here. A function that reads file contents returns \<open>None\<close>
  for a text beyond U+00FF, which the model does not cover.
\<close>

subsection \<open>Values\<close>

datatype lifecycle_status =
    LS_CURRENT | LS_UPDATE_AVAILABLE | LS_CHANGED | LS_REMOVED | LS_REMOVED_UPSTREAM | LS_SOURCE_UNAVAILABLE | LS_IDENTITY_CHANGED
  | LS_MISSING | LS_DRIFTED | LS_BROKEN | LS_RETARGETED | LS_REPLACED | LS_CONFLICT | LS_FAILED | LS_SKIPPED

definition lifecycle_status_value :: "lifecycle_status \<Rightarrow> string" where
  "lifecycle_status_value s =
     (case s of
        LS_CURRENT \<Rightarrow> ''current'' | LS_UPDATE_AVAILABLE \<Rightarrow> ''update-available'' | LS_CHANGED \<Rightarrow> ''changed'' | LS_REMOVED \<Rightarrow> ''removed''
      | LS_REMOVED_UPSTREAM \<Rightarrow> ''removed-upstream'' | LS_SOURCE_UNAVAILABLE \<Rightarrow> ''source-unavailable''
      | LS_IDENTITY_CHANGED \<Rightarrow> ''identity-changed'' | LS_MISSING \<Rightarrow> ''missing'' | LS_DRIFTED \<Rightarrow> ''drifted'' | LS_BROKEN \<Rightarrow> ''broken''
      | LS_RETARGETED \<Rightarrow> ''retargeted'' | LS_REPLACED \<Rightarrow> ''replaced'' | LS_CONFLICT \<Rightarrow> ''conflict'' | LS_FAILED \<Rightarrow> ''failed''
      | LS_SKIPPED \<Rightarrow> ''skipped'')"

record lifecycle_key =
  lkey_coordinate :: artifact_coordinate
  lkey_profile :: string
  lkey_scope :: string

definition mk_lifecycle_key :: "artifact_coordinate \<Rightarrow> string \<Rightarrow> string \<Rightarrow> lifecycle_key py" where
  "mk_lifecycle_key coordinate profile scope =
     py_guard (\<not> slug_match profile \<or> scope \<notin> {''project'', ''user''}) ''lifecycle key is invalid''
       (Inr \<lparr>lkey_coordinate = coordinate, lkey_profile = profile, lkey_scope = scope\<rparr>)"

definition key_from_record :: "installation_record \<Rightarrow> lifecycle_key py" where
  "key_from_record r = mk_lifecycle_key (ir_coordinate r) (ir_profile r) (ir_scope r)"

record lifecycle_selection =
  lsel_scope :: string
  lsel_coordinates :: "artifact_coordinate list"
  lsel_profiles :: "string list"

definition mk_lifecycle_selection :: "string \<Rightarrow> artifact_coordinate list \<Rightarrow> string list \<Rightarrow> lifecycle_selection py" where
  "mk_lifecycle_selection scope coordinates profiles =
     py_guard (scope \<notin> {''project'', ''user''}) ''lifecycle selection is invalid''
       (let ordered = sort_key coordinate_str (remdups coordinates); names = sorted_set profiles in
        py_guard (length ordered \<noteq> length coordinates \<or> length names \<noteq> length profiles \<or> list_ex (\<lambda>p. \<not> slug_match p) names)
          ''lifecycle selection is invalid''
          (Inr \<lparr>lsel_scope = scope, lsel_coordinates = ordered, lsel_profiles = names\<rparr>))"

definition select_installations :: "install_state \<Rightarrow> lifecycle_selection \<Rightarrow> installation_record list" where
  "select_installations state selection =
     [r \<leftarrow> ist_installations state.
        ir_scope r = lsel_scope selection
        \<and> (lsel_coordinates selection = [] \<or> ir_coordinate r \<in> set (lsel_coordinates selection))
        \<and> (lsel_profiles selection = [] \<or> ir_profile r \<in> set (lsel_profiles selection))]"

record lifecycle_effect =
  le_kind :: string
  le_destination :: string
  le_status :: lifecycle_status
  le_detail :: string

definition mk_lifecycle_effect :: "string \<Rightarrow> string \<Rightarrow> lifecycle_status \<Rightarrow> string \<Rightarrow> lifecycle_effect py" where
  "mk_lifecycle_effect kind destination status detail =
     py_guard (kind = [] \<or> destination = [] \<or> CHR 0x0D \<in> set detail) ''lifecycle effect outcome is invalid''
       (Inr \<lparr>le_kind = kind, le_destination = destination, le_status = status, le_detail = detail\<rparr>)"

record lifecycle_item =
  li_key :: lifecycle_key
  li_status :: lifecycle_status
  li_effects :: "lifecycle_effect list"
  li_detail :: string

definition mk_lifecycle_item :: "lifecycle_key \<Rightarrow> lifecycle_status \<Rightarrow> lifecycle_effect list \<Rightarrow> string \<Rightarrow> lifecycle_item py" where
  "mk_lifecycle_item key status effects detail =
     py_guard (CHR 0x0D \<in> set detail) ''lifecycle item outcome is invalid''
       (Inr \<lparr>li_key = key, li_status = status, li_effects = effects, li_detail = detail\<rparr>)"

record lifecycle_outcome =
  lo_action :: string
  lo_selected :: nat
  lo_items :: "lifecycle_item list"

definition mk_lifecycle_outcome :: "string \<Rightarrow> nat \<Rightarrow> lifecycle_item list \<Rightarrow> lifecycle_outcome py" where
  "mk_lifecycle_outcome action selected items =
     py_guard (action \<notin> {''status'', ''check'', ''update'', ''uninstall''} \<or> selected \<noteq> length items \<or> \<not> distinct (map li_key items))
       ''lifecycle outcome must contain one terminal item per selection''
       (Inr \<lparr>lo_action = action, lo_selected = selected, lo_items = items\<rparr>)"

definition absolute_effect_path :: "effect_proof \<Rightarrow> string \<Rightarrow> install_location \<Rightarrow> string py" where
  "absolute_effect_path effect scope location =
     (if scope = ''user'' then
        py_guard (\<not> isabs (ep_destination effect)) ''user lifecycle destination must be absolute'' (Inr (ep_destination effect))
      else
        py_guard (isabs (ep_destination effect)) ''project lifecycle destination must be relative''
          (Inr (normpath (posix_join (il_project_root location) (ep_destination effect)))))"

record scope_teardown =
  st_state_path :: string
  st_state_lock_path :: string
  st_state_root :: string
  st_directories :: "string list"
  st_reclaims_state :: bool

definition depth_key :: "string \<Rightarrow> int \<times> string" where
  "depth_key path = (- int (length [c \<leftarrow> path. c = CHR ''/'']), path)"

definition mk_scope_teardown :: "scope_teardown \<Rightarrow> scope_teardown py" where
  "mk_scope_teardown t =
     py_guard (list_ex (\<lambda>p. \<not> normalized_absolute p \<or> p = ''/'')
           ([st_state_path t, st_state_lock_path t, st_state_root t] @ st_directories t)
         \<or> st_state_root t \<noteq> posix_dirname (st_state_path t)
         \<or> st_state_root t \<noteq> posix_dirname (st_state_lock_path t)
         \<or> \<not> distinct (st_directories t)
         \<or> st_directories t \<noteq> sort_key depth_key (st_directories t))
       ''scope teardown is invalid'' (Inr t)"

definition rstrip_slash :: "string \<Rightarrow> string" where
  "rstrip_slash s = rev (dropWhile (\<lambda>c. c = CHR ''/'') (rev s))"

definition prunable_ancestors :: "string \<Rightarrow> string \<Rightarrow> string list" where
  "prunable_ancestors destination root' =
     (let prefix = rstrip_slash root' @ ''/'' in
      if take (length prefix) destination \<noteq> prefix then []
      else
        (let parts = split_on CHR ''/'' (drop (length prefix) destination) in
         map (\<lambda>depth. join_all root' (take depth parts)) (rev [2..<length parts])))"

record uninstall_operation =
  uo_effect :: effect_proof
  uo_absolute_destination :: string
  uo_precondition :: path_snapshot
  uo_mutation :: string
  uo_replacement_content :: bytes

definition mk_uninstall_operation ::
  "effect_proof \<Rightarrow> string \<Rightarrow> path_snapshot \<Rightarrow> string \<Rightarrow> bytes \<Rightarrow> uninstall_operation py" where
  "mk_uninstall_operation effect absolute precondition mutation content =
     py_guard (\<not> normalized_absolute absolute \<or> absolute = ''/'' \<or> ps_path precondition \<noteq> absolute
         \<or> mutation \<notin> {''none'', ''remove'', ''write''} \<or> (mutation \<noteq> ''write'' \<and> content \<noteq> []))
       ''uninstall operation is invalid''
       (Inr \<lparr>uo_effect = effect, uo_absolute_destination = absolute, uo_precondition = precondition, uo_mutation = mutation,
             uo_replacement_content = content\<rparr>)"

definition scope_teardown_of ::
  "installation_record \<Rightarrow> uninstall_operation list \<Rightarrow> string \<Rightarrow> string \<Rightarrow> install_location \<Rightarrow> bool \<Rightarrow> scope_teardown py" where
  "scope_teardown_of record' operations state_path state_lock_path location reclaims_state =
     (let root' = (if ir_scope record' = ''project'' then il_project_root location else il_user_home location);
          directories = remdups (concat (map (\<lambda>o'. if uo_mutation o' = ''remove'' then prunable_ancestors (uo_absolute_destination o') root' else [])
            operations)) in
      mk_scope_teardown \<lparr>st_state_path = state_path, st_state_lock_path = state_lock_path, st_state_root = posix_dirname state_path,
        st_directories = sort_key depth_key directories, st_reclaims_state = reclaims_state\<rparr>)"

definition reference_owner :: "installation_record \<Rightarrow> string" where
  "reference_owner r =
     ir_scope r @ ''/'' @ alias_value (coord_source (ir_coordinate r)) @ ''/'' @ identity_kind (aev_identity (ir_artifact r)) @ ''/''
       @ identity_name (aev_identity (ir_artifact r)) @ ''/'' @ ir_profile r"


subsection \<open>Reading file contents\<close>

text \<open>A computation that may raise, or meet a text outside the model.\<close>

type_synonym 'a run = "'a py option"

definition run_bind :: "'a run \<Rightarrow> ('a \<Rightarrow> 'b run) \<Rightarrow> 'b run" where
  "run_bind r f = (case r of None \<Rightarrow> None | Some (Inl e) \<Rightarrow> Some (Inl e) | Some (Inr v) \<Rightarrow> f v)"

abbreviation run_return :: "'a \<Rightarrow> 'a run" where
  "run_return v \<equiv> Some (Inr v)"

abbreviation read_json :: "bytes \<Rightarrow> json_value result option" where
  "read_json data \<equiv> parse_json data None MAX_DEPTH MAX_STRING_LENGTH"

text \<open>\<open>text.find(needle)\<close> and \<open>text.count(needle)\<close> for a non-empty needle\<close>

fun str_find :: "string \<Rightarrow> string \<Rightarrow> nat option" where
  "str_find needle [] = (if needle = [] then Some 0 else None)"
| "str_find needle (c # s) = (if starts needle (c # s) then Some 0 else map_option Suc (str_find needle s))"

function str_count :: "string \<Rightarrow> string \<Rightarrow> nat" where
  "str_count needle s =
     (if needle = [] \<or> s = [] then 0
      else if starts needle s then Suc (str_count needle (drop (length needle) s))
      else str_count needle (tl s))"
  by pat_completeness auto
termination by (relation "measure (\<lambda>(needle, s). length s)") auto

declare str_count.simps [simp del]

subsection \<open>Merged JSON members\<close>

definition object_member :: "json_entries \<Rightarrow> string \<Rightarrow> json_value option" where
  "object_member es key = json_get es key"

fun navigate_parts :: "json_value \<Rightarrow> string list \<Rightarrow> json_value option" where
  "navigate_parts node [] = Some node"
| "navigate_parts node (part # parts) =
     (case node of
        JObject es \<Rightarrow> (case object_member es part of None \<Rightarrow> None | Some child \<Rightarrow> navigate_parts child parts)
      | _ \<Rightarrow> None)"

definition navigate_member :: "json_value \<Rightarrow> string \<Rightarrow> json_value option" where
  "navigate_member node path = (if path = [] then Some node else navigate_parts node (split_on CHR ''.'' path))"

text \<open>Python's \<open>None\<close> is JSON's null.\<close>

definition navigate :: "json_value \<Rightarrow> string \<Rightarrow> json_value" where
  "navigate node path = (case navigate_member node path of None \<Rightarrow> JNull | Some v \<Rightarrow> v)"

fun identity_value :: "string \<Rightarrow> json_value \<Rightarrow> json_value option"
  and identity_entries :: "string \<Rightarrow> json_entries \<Rightarrow> json_value option"
  and identity_items :: "string \<Rightarrow> json_value list \<Rightarrow> json_value option" where
  "identity_value field (JObject es) = (case object_member es field of Some v \<Rightarrow> Some v | None \<Rightarrow> identity_entries field es)"
| "identity_value field (JArray vs) = identity_items field vs"
| "identity_value field _ = None"
| "identity_entries field [] = None"
| "identity_entries field ((k, v) # es) = (case identity_value field v of Some x \<Rightarrow> Some x | None \<Rightarrow> identity_entries field es)"
| "identity_items field [] = None"
| "identity_items field (v # vs) = (case identity_value field v of Some x \<Rightarrow> Some x | None \<Rightarrow> identity_items field vs)"

fun identity_fields :: "json_value \<Rightarrow> json_entries \<Rightarrow> json_entries option" where
  "identity_fields value [] = Some []"
| "identity_fields value ((field, expected) # es) =
     (case identity_value field value of
        None \<Rightarrow> None
      | Some actual \<Rightarrow> if json_same actual expected then map_option (Cons (field, actual)) (identity_fields value es) else None)"

definition identity_projection :: "json_value \<Rightarrow> json_entries \<Rightarrow> json_value option" where
  "identity_projection value evidence = map_option json_object (identity_fields value evidence)"

datatype merge_identity = MergeKey string | MergeIndex nat

definition identity_match :: "json_entries \<Rightarrow> json_value \<Rightarrow> bool" where
  "identity_match evidence v =
     (case identity_projection v evidence of None \<Rightarrow> False | Some p \<Rightarrow> json_same p (JObject evidence))"

definition merge_matches :: "effect_proof \<Rightarrow> json_value \<Rightarrow> (string \<times> merge_identity \<times> json_value) list" where
  "merge_matches effect node =
     (let path = or_empty (ep_json_path effect) in
      case (ep_merge_mode effect, ep_identity_evidence effect) of
        (Some mode, JArray items) \<Rightarrow>
          if mode \<noteq> ''key'' then []
          else
            (case items of
               [JStr key] \<Rightarrow>
                 (case navigate node path of
                    JObject es \<Rightarrow> (case object_member es key of None \<Rightarrow> [] | Some value \<Rightarrow> [(path, MergeKey key, value)])
                  | _ \<Rightarrow> [])
             | _ \<Rightarrow> [])
      | (Some mode, JObject evidence) \<Rightarrow>
          if mode \<noteq> ''list'' then []
          else
            (case navigate node path of
               JArray values \<Rightarrow>
                 map (\<lambda>(i, v). (path, MergeIndex i, v)) [(i, v) \<leftarrow> enumerate 0 values. identity_match evidence v]
             | _ \<Rightarrow> [])
      | _ \<Rightarrow> [])"

text \<open>A replacement is an object or an array, never null.\<close>

function replace_at :: "json_value \<Rightarrow> string \<Rightarrow> json_value \<Rightarrow> json_value option" where
  "replace_at node path replacement =
     (if path = [] then Some replacement
      else
        (case node of
           JObject es \<Rightarrow>
             (case partition_at CHR ''.'' path of (head, tail) \<Rightarrow>
                (case object_member es head of
                   None \<Rightarrow> None
                 | Some child \<Rightarrow>
                     (case replace_at child (or_empty tail) replacement of
                        None \<Rightarrow> None
                      | Some updated \<Rightarrow> Some (json_object (map (\<lambda>(k, v). (k, if k = head then updated else v)) es)))))
         | _ \<Rightarrow> None))"
  by pat_completeness auto
termination
proof (relation "measure (\<lambda>(node, path, replacement). length path)")
  fix node :: json_value and path head :: string and tail replacement
  assume "path \<noteq> []" "(head, tail) = partition_at CHR ''.'' path"
  then have "length (or_empty tail) < length path"
    by (cases tail) (auto simp: or_empty_def dest!: sym[of "(_, _)"] simp: partition_at_Some)
  then show "((child, or_empty tail, replacement), node, path, replacement) \<in> measure (\<lambda>(node, path, replacement). length path)" for child
    by simp
qed simp

declare replace_at.simps [simp del]

definition remove_merge_identity :: "effect_proof \<Rightarrow> json_value \<Rightarrow> json_value option \<times> string" where
  "remove_merge_identity effect node =
     (case merge_matches effect node of
        [] \<Rightarrow> (Some node, ''missing'')
      | [(path, identity, _)] \<Rightarrow>
          (case (case (identity, navigate node path) of
                   (MergeKey key, JObject es) \<Rightarrow> Some (json_object [e \<leftarrow> es. fst e \<noteq> key])
                 | (MergeIndex index, JArray values) \<Rightarrow> Some (JArray (map snd [(i, v) \<leftarrow> enumerate 0 values. i \<noteq> index]))
                 | _ \<Rightarrow> None) of
             None \<Rightarrow> (None, ''invalid'')
           | Some replacement \<Rightarrow>
               (case replace_at node path replacement of
                  None \<Rightarrow> (None, ''invalid'')
                | Some updated \<Rightarrow> (Some updated, ''removed'')))
      | _ \<Rightarrow> (None, ''ambiguous''))"

definition merge_effect_status :: "effect_proof \<Rightarrow> path_snapshot \<Rightarrow> lifecycle_status option" where
  "merge_effect_status effect snapshot =
     (if ps_kind snapshot = ''absent'' then Some LS_MISSING
      else if ps_kind snapshot \<noteq> ''file'' \<or> ep_identity_evidence effect = JNull then Some LS_DRIFTED
      else
        (case read_json (ps_content snapshot) of
           None \<Rightarrow> None
         | Some (Err _) \<Rightarrow> Some LS_DRIFTED
         | Some (Ok document) \<Rightarrow>
             Some (case merge_matches effect document of
                [] \<Rightarrow>
                  (case navigate_member document (or_empty (ep_json_path effect)) of
                     None \<Rightarrow> LS_MISSING
                   | Some container \<Rightarrow>
                       if ep_merge_mode effect = Some ''list'' then
                         (case container of JArray items \<Rightarrow> if items \<noteq> [] then LS_DRIFTED else LS_MISSING | _ \<Rightarrow> LS_DRIFTED)
                       else (case container of JObject _ \<Rightarrow> LS_MISSING | _ \<Rightarrow> LS_DRIFTED))
              | [(_, _, value)] \<Rightarrow> if json_digest value = ep_installed_digest effect then LS_CURRENT else LS_DRIFTED
              | _ \<Rightarrow> LS_DRIFTED)))"

subsection \<open>Managed blocks\<close>

definition begin_marker :: "string \<Rightarrow> string" where
  "begin_marker name = ''<!-- >>> agent-artifacts memory:'' @ name @ '' >>> -->''"

definition end_marker :: "string \<Rightarrow> string" where
  "end_marker name = ''<!-- <<< agent-artifacts memory:'' @ name @ '' <<< -->''"

abbreviation memory_name :: "installation_record \<Rightarrow> string" where
  "memory_name r \<equiv> identity_name (aev_identity (ir_artifact r))"

definition memory_markers :: "installation_record \<Rightarrow> string \<times> string" where
  "memory_markers r = (begin_marker (memory_name r), end_marker (memory_name r))"

definition block_status :: "string \<Rightarrow> string \<Rightarrow> string \<Rightarrow> lifecycle_status" where
  "block_status begin' end' text =
     (case (str_find begin' text, str_find end' text) of
        (None, None) \<Rightarrow> LS_MISSING
      | (Some b, Some e) \<Rightarrow> if e < b then LS_DRIFTED else if str_count begin' text = 1 \<and> str_count end' text = 1 then LS_CURRENT else LS_DRIFTED
      | _ \<Rightarrow> LS_DRIFTED)"

definition managed_block_status :: "installation_record \<Rightarrow> path_snapshot \<Rightarrow> lifecycle_status option" where
  "managed_block_status r snapshot =
     (if ps_kind snapshot = ''absent'' then Some LS_MISSING
      else if ps_kind snapshot \<noteq> ''file'' then Some LS_DRIFTED
      else
        (case utf8_decode (ps_content snapshot) of
           DecodeError \<Rightarrow> Some LS_DRIFTED
         | BeyondLatin \<Rightarrow> None
         | Text text \<Rightarrow> (case memory_markers r of (begin', end') \<Rightarrow> Some (block_status begin' end' text))))"


subsection \<open>Status of an installation\<close>

definition link_lifecycle :: "link_status \<Rightarrow> lifecycle_status" where
  "link_lifecycle s =
     (case s of L_CURRENT \<Rightarrow> LS_CURRENT | L_MUTABLE_LOCAL \<Rightarrow> LS_CURRENT | L_BROKEN \<Rightarrow> LS_BROKEN | L_RETARGETED \<Rightarrow> LS_RETARGETED
      | L_REPLACED \<Rightarrow> LS_REPLACED)"

definition owns_copy :: "effect_proof \<Rightarrow> path_snapshot \<Rightarrow> bool" where
  "owns_copy effect snapshot \<longleftrightarrow>
     ps_kind snapshot = (if ep_kind effect = ''copy-tree'' then ''tree'' else ''file'') \<and> ps_digest snapshot = Some (ep_installed_digest effect)"

definition effect_status :: "installation_record \<Rightarrow> effect_proof \<Rightarrow> path_snapshot \<Rightarrow> lifecycle_status run" where
  "effect_status r effect snapshot =
     (if is_link effect then
        (if ps_kind snapshot = ''absent'' then run_return LS_MISSING
         else run_bind (Some (classify_link effect snapshot)) (\<lambda>linked. run_return (link_lifecycle linked)))
      else if ep_kind effect = ''merge-json'' then map_option Inr (merge_effect_status effect snapshot)
      else if ep_kind effect = ''managed-block'' then map_option Inr (managed_block_status r snapshot)
      else if ps_kind snapshot = ''absent'' then run_return LS_MISSING
      else run_return (if owns_copy effect snapshot then LS_CURRENT else LS_DRIFTED))"

text \<open>\<open>_STATUS_PRIORITY\<close>\<close>

definition status_priority :: "lifecycle_status \<Rightarrow> nat option" where
  "status_priority s =
     (case s of LS_CURRENT \<Rightarrow> Some 0 | LS_MISSING \<Rightarrow> Some 1 | LS_BROKEN \<Rightarrow> Some 2 | LS_DRIFTED \<Rightarrow> Some 3 | LS_RETARGETED \<Rightarrow> Some 4
      | LS_REPLACED \<Rightarrow> Some 5 | LS_FAILED \<Rightarrow> Some 6 | _ \<Rightarrow> None)"

text \<open>\<open>max\<close> with a key keeps the first of the largest.\<close>

fun max_status :: "lifecycle_status \<Rightarrow> nat \<Rightarrow> lifecycle_effect list \<Rightarrow> lifecycle_status py" where
  "max_status best priority [] = Inr best"
| "max_status best priority (e # es) =
     (case status_priority (le_status e) of
        None \<Rightarrow> Inl (KeyError (lifecycle_status_value (le_status e)))
      | Some p \<Rightarrow> if priority < p then max_status (le_status e) p es else max_status best priority es)"

definition aggregate_status :: "lifecycle_effect list \<Rightarrow> lifecycle_status py" where
  "aggregate_status effects =
     (case effects of
        [] \<Rightarrow> Inl (ValueError ''max() iterable argument is empty'')
      | e # es \<Rightarrow>
          (case status_priority (le_status e) of
             None \<Rightarrow> Inl (KeyError (lifecycle_status_value (le_status e)))
           | Some p \<Rightarrow> max_status (le_status e) p es))"

definition LIFECYCLE_INVALID :: diagnostic_code where "LIFECYCLE_INVALID = ''lifecycle-invalid''"
definition LIFECYCLE_REVIEW_MISMATCH :: diagnostic_code where "LIFECYCLE_REVIEW_MISMATCH = ''lifecycle-review-mismatch''"

definition lifecycle_error :: "diagnostic_code \<Rightarrow> string \<Rightarrow> 'a result" where
  "lifecycle_error code message = mk_err [error_diagnostic code message]"

text \<open>Inspecting one effect; \<open>Err\<close> ends the whole status, a failed inspection is the effect's status.\<close>

definition inspect_effect ::
  "(string \<Rightarrow> path_snapshot result) \<Rightarrow> install_location \<Rightarrow> installation_record \<Rightarrow> effect_proof \<Rightarrow> lifecycle_effect result run" where
  "inspect_effect inspect location r effect =
     (case absolute_effect_path effect (ir_scope r) location of
        Inl e \<Rightarrow> run_return (lifecycle_error LIFECYCLE_INVALID (py_message e))
      | Inr absolute \<Rightarrow>
          (case inspect absolute of
             Err ds \<Rightarrow>
               run_bind (Some (mk_lifecycle_effect (ep_kind effect) (ep_destination effect) LS_FAILED (join ''; '' (map diag_message ds))))
                 (\<lambda>e. run_return (Ok e))
           | Ok snapshot \<Rightarrow>
               run_bind (effect_status r effect snapshot)
                 (\<lambda>status. run_bind (Some (mk_lifecycle_effect (ep_kind effect) (ep_destination effect) status '''')) (\<lambda>e. run_return (Ok e)))))"

fun inspect_effects ::
  "(string \<Rightarrow> path_snapshot result) \<Rightarrow> install_location \<Rightarrow> installation_record \<Rightarrow> effect_proof list \<Rightarrow> lifecycle_effect list result run" where
  "inspect_effects inspect location r [] = run_return (Ok [])"
| "inspect_effects inspect location r (e # es) =
     run_bind (inspect_effect inspect location r e)
       (\<lambda>first. case first of
          Err ds \<Rightarrow> run_return (Err ds)
        | Ok x \<Rightarrow> run_bind (inspect_effects inspect location r es) (\<lambda>rest. run_return (map_ok rest (Cons x))))"

definition status_item ::
  "(string \<Rightarrow> path_snapshot result) \<Rightarrow> install_location \<Rightarrow> installation_record \<Rightarrow> lifecycle_item result run" where
  "status_item inspect location r =
     run_bind (inspect_effects inspect location r (ir_effects r))
       (\<lambda>inspected. case inspected of
          Err ds \<Rightarrow> run_return (Err ds)
        | Ok effects \<Rightarrow>
            run_bind (Some (key_from_record r))
              (\<lambda>key. run_bind (Some (aggregate_status effects))
                 (\<lambda>status. run_bind (Some (mk_lifecycle_item key status effects '''')) (\<lambda>item. run_return (Ok item)))))"

fun status_items ::
  "(string \<Rightarrow> path_snapshot result) \<Rightarrow> install_location \<Rightarrow> installation_record list \<Rightarrow> lifecycle_item list result run" where
  "status_items inspect location [] = run_return (Ok [])"
| "status_items inspect location (r # rs) =
     run_bind (status_item inspect location r)
       (\<lambda>first. case first of
          Err ds \<Rightarrow> run_return (Err ds)
        | Ok x \<Rightarrow> run_bind (status_items inspect location rs) (\<lambda>rest. run_return (map_ok rest (Cons x))))"

definition outcome_of :: "string \<Rightarrow> lifecycle_item list \<Rightarrow> lifecycle_outcome py" where
  "outcome_of action items = mk_lifecycle_outcome action (length items) items"

definition status_installations ::
  "install_state \<Rightarrow> lifecycle_selection \<Rightarrow> install_location \<Rightarrow> (string \<Rightarrow> path_snapshot result) \<Rightarrow> lifecycle_outcome result run" where
  "status_installations state selection location inspect =
     run_bind (status_items inspect location (select_installations state selection))
       (\<lambda>items. case items of
          Err ds \<Rightarrow> run_return (Err ds)
        | Ok xs \<Rightarrow> run_bind (Some (outcome_of ''status'' xs)) (\<lambda>outcome. run_return (Ok outcome)))"

subsection \<open>Comparison with the marketplace\<close>

definition recorded_source :: "installation_record \<Rightarrow> marketplace_catalog \<Rightarrow> marketplace_source_view option" where
  "recorded_source r catalog = List.find (\<lambda>s. msv_alias s = sev_alias (ir_source r)) (cat_sources catalog)"

definition configured_origin :: "configured_source \<Rightarrow> string option" where
  "configured_origin configured =
     (if cs_kind configured = SOURCE_LOCAL then Some (cs_location configured)
      else map_option (\<lambda>(host, path). host @ ''/'' @ path) (git_location_parts (cs_location configured)))"

definition recorded_subscription_current :: "installation_record \<Rightarrow> marketplace_catalog \<Rightarrow> effective_configuration \<Rightarrow> bool" where
  "recorded_subscription_current r catalog effective =
     (case (List.find (\<lambda>s. cs_alias s = sev_alias (ir_source r) \<and> cs_enabled s) (uc_sources (ec_configuration effective)),
            recorded_source r catalog) of
        (Some configured, Some source) \<Rightarrow>
          cs_kind configured = sev_kind (ir_source r) \<and> configured_origin configured = Some (sev_origin (ir_source r))
          \<and> msv_kind source = sev_kind (ir_source r) \<and> msv_origin source = sev_origin (ir_source r)
          \<and> cs_ref configured = sev_subscription_ref (ir_source r)
          \<and> msv_resolved_revision source \<noteq> None \<and> msv_snapshot_digest source \<noteq> None
          \<and> msv_health source \<in> {HEALTHY, STALE, DEGRADED}
      | _ \<Rightarrow> False)"

definition recorded_identity_changed :: "installation_record \<Rightarrow> marketplace_catalog \<Rightarrow> bool" where
  "recorded_identity_changed r catalog =
     (case recorded_source r catalog of None \<Rightarrow> False | Some s \<Rightarrow> msv_source_id s \<noteq> Some (sev_declared_id (ir_source r)))"

definition current_item :: "installation_record \<Rightarrow> marketplace_catalog \<Rightarrow> marketplace_item option" where
  "current_item r catalog =
     List.find (\<lambda>i. coord_source (mi_coordinate i) = coord_source (ir_coordinate r)
         \<and> coord_artifact (mi_coordinate i) = coord_artifact (ir_coordinate r)) (cat_items catalog)"

definition artifact_unchanged :: "installation_record \<Rightarrow> marketplace_item \<Rightarrow> bool" where
  "artifact_unchanged r item \<longleftrightarrow>
     (let artifact = ma_artifact (mi_artifact item); recorded = ir_artifact r in
      ia_version artifact = aev_version recorded \<and> ia_manifest_digest artifact = aev_manifest_digest recorded
      \<and> ia_payload_digest artifact = aev_payload_digest recorded \<and> ia_object_digest artifact = aev_object_digest recorded)"

definition check_status :: "installation_record \<Rightarrow> marketplace_catalog \<Rightarrow> effective_configuration \<Rightarrow> lifecycle_status \<times> string" where
  "check_status r catalog effective =
     (if \<not> recorded_subscription_current r catalog effective then (LS_SOURCE_UNAVAILABLE, ''recorded source unavailable'')
      else if recorded_identity_changed r catalog then
        (LS_IDENTITY_CHANGED,
         ''installed under '' @ source_id_value (sev_declared_id (ir_source r)) @ ''; '' @ alias_value (sev_alias (ir_source r)) @ '' now declares ''
         @ (case recorded_source r catalog of
              None \<Rightarrow> []
            | Some s \<Rightarrow> (case msv_source_id s of None \<Rightarrow> ''None'' | Some i \<Rightarrow> source_id_value i)))
      else
        (case current_item r catalog of
           None \<Rightarrow> (LS_REMOVED_UPSTREAM, ''removed from recorded source'')
         | Some item \<Rightarrow> (if artifact_unchanged r item then LS_CURRENT else LS_UPDATE_AVAILABLE, '''')))"

fun check_items :: "marketplace_catalog \<Rightarrow> effective_configuration \<Rightarrow> installation_record list \<Rightarrow> lifecycle_item list py" where
  "check_items catalog effective [] = Inr []"
| "check_items catalog effective (r # rs) =
     (case key_from_record r of
        Inl e \<Rightarrow> Inl e
      | Inr key \<Rightarrow>
          (case check_status r catalog effective of (status, detail) \<Rightarrow>
             (case mk_lifecycle_item key status [] detail of
                Inl e \<Rightarrow> Inl e
              | Inr item \<Rightarrow> map_sum id (Cons item) (check_items catalog effective rs))))"

definition check_installations ::
  "install_state \<Rightarrow> lifecycle_selection \<Rightarrow> marketplace_catalog \<Rightarrow> effective_configuration \<Rightarrow> lifecycle_outcome py" where
  "check_installations state selection catalog effective =
     (case check_items catalog effective (select_installations state selection) of
        Inl e \<Rightarrow> Inl e
      | Inr items \<Rightarrow> outcome_of ''check'' items)"

text \<open>\<open>KeyError\<close> is a local item without a remote one.\<close>

definition reconcile_item :: "(lifecycle_key \<times> lifecycle_item) list \<Rightarrow> lifecycle_item \<Rightarrow> lifecycle_item py" where
  "reconcile_item remote_by_key item =
     (case dict_get remote_by_key (li_key item) of
        None \<Rightarrow> Inl (KeyError (coordinate_str (lkey_coordinate (li_key item))))
      | Some remote \<Rightarrow>
          if li_status item = LS_CURRENT then mk_lifecycle_item (li_key item) (li_status remote) (li_effects item) (li_detail remote)
          else
            (let suffix = (if li_detail remote \<noteq> [] then li_detail remote else lifecycle_status_value (li_status remote));
                 detail = (if li_status remote = LS_CURRENT then li_detail item
                           else if li_detail item \<noteq> [] then li_detail item @ ''; upstream '' @ suffix
                           else ''upstream '' @ suffix) in
             mk_lifecycle_item (li_key item) (li_status item) (li_effects item) detail))"

fun reconcile_items :: "(lifecycle_key \<times> lifecycle_item) list \<Rightarrow> lifecycle_item list \<Rightarrow> lifecycle_item list py" where
  "reconcile_items remote_by_key [] = Inr []"
| "reconcile_items remote_by_key (i # is) =
     (case reconcile_item remote_by_key i of
        Inl e \<Rightarrow> Inl e
      | Inr x \<Rightarrow> map_sum id (Cons x) (reconcile_items remote_by_key is))"

definition reconcile_installations ::
  "install_state \<Rightarrow> lifecycle_selection \<Rightarrow> marketplace_catalog \<Rightarrow> effective_configuration \<Rightarrow> install_location
    \<Rightarrow> (string \<Rightarrow> path_snapshot result) \<Rightarrow> lifecycle_outcome result run" where
  "reconcile_installations state selection catalog effective location inspect =
     run_bind (status_installations state selection location inspect)
       (\<lambda>local. case local of
          Err ds \<Rightarrow> run_return (Err ds)
        | Ok outcome \<Rightarrow>
            run_bind (Some (check_installations state selection catalog effective))
              (\<lambda>upstream. run_bind (Some (reconcile_items (dict_by li_key (lo_items upstream)) (lo_items outcome)))
                 (\<lambda>items. run_bind (Some (outcome_of ''status'' items)) (\<lambda>result. run_return (Ok result)))))"


subsection \<open>Planning a removal\<close>

definition newline :: char where
  "newline = CHR 0x0A"

text \<open>\<open>None\<close> is a conflict: the markers are not one pair in order.\<close>

definition strip_block :: "string \<Rightarrow> string \<Rightarrow> string \<Rightarrow> string option" where
  "strip_block begin' end' text =
     (case (str_find begin' text, str_find end' text) of
        (None, None) \<Rightarrow> Some text
      | (Some start, _) \<Rightarrow>
          if str_count begin' text \<noteq> 1 \<or> str_count end' text \<noteq> 1 then None
          else
            (case str_find end' (drop start text) of
               None \<Rightarrow> None
             | Some offset \<Rightarrow>
                 (let after = drop (start + offset + length end') text;
                      stripped = take start text @ (if take 1 after = [newline] then drop 1 after else after);
                      stripped = (if ends_with [newline, newline] stripped then butlast stripped else stripped) in
                  Some (if take 1 stripped = [newline] then drop 1 stripped else stripped)))
      | (None, Some _) \<Rightarrow> None)"

definition strip_managed_block :: "installation_record \<Rightarrow> bytes \<Rightarrow> bytes option option" where
  "strip_managed_block r content =
     (case utf8_decode content of
        DecodeError \<Rightarrow> Some None
      | BeyondLatin \<Rightarrow> None
      | Text text \<Rightarrow> (case memory_markers r of (begin', end') \<Rightarrow> Some (map_option utf8_encode (strip_block begin' end' text))))"

fun bare_container_chain :: "json_value \<Rightarrow> string list \<Rightarrow> bool" where
  "bare_container_chain node [] = (case node of JObject es \<Rightarrow> es = [] | JArray items \<Rightarrow> items = [] | _ \<Rightarrow> False)"
| "bare_container_chain node (part # parts) =
     (case node of JObject [(key, child)] \<Rightarrow> key = part \<and> bare_container_chain child parts | _ \<Rightarrow> False)"

definition is_bare_container_chain :: "json_value \<Rightarrow> string \<Rightarrow> bool" where
  "is_bare_container_chain document json_path =
     bare_container_chain document (if json_path = [] then [] else split_on CHR ''.'' json_path)"

datatype removal = Planned uninstall_operation | Conflict string

definition plan_operation :: "effect_proof \<Rightarrow> string \<Rightarrow> path_snapshot \<Rightarrow> string \<Rightarrow> bytes \<Rightarrow> removal run" where
  "plan_operation effect absolute snapshot mutation content =
     Some (map_sum id Planned (mk_uninstall_operation effect absolute snapshot mutation content))"

definition plan_link_removal ::
  "installation_record \<Rightarrow> effect_proof \<Rightarrow> string \<Rightarrow> path_snapshot \<Rightarrow> bool \<Rightarrow> removal run" where
  "plan_link_removal r effect absolute snapshot force =
     run_bind (effect_status r effect snapshot)
       (\<lambda>status.
          if status = LS_MISSING then plan_operation effect absolute snapshot ''none'' []
          else if status = LS_CURRENT \<or> status = LS_BROKEN then plan_operation effect absolute snapshot ''remove'' []
          else if \<not> force then run_return (Conflict (''managed link is '' @ lifecycle_status_value status @ '': '' @ ep_destination effect))
          else plan_operation effect absolute snapshot ''remove'' [])"

text \<open>An identity that is gone while its container is of another type, or a list of other values.\<close>

definition merge_identity_drifted :: "effect_proof \<Rightarrow> json_value \<Rightarrow> bool" where
  "merge_identity_drifted effect document =
     (case navigate_member document (or_empty (ep_json_path effect)) of
        None \<Rightarrow> False
      | Some (JArray items) \<Rightarrow> if ep_merge_mode effect = Some ''list'' then items \<noteq> [] else True
      | Some (JObject _) \<Rightarrow> ep_merge_mode effect = Some ''list''
      | Some _ \<Rightarrow> True)"

definition plan_merge_removal :: "effect_proof \<Rightarrow> string \<Rightarrow> path_snapshot \<Rightarrow> bool \<Rightarrow> removal run" where
  "plan_merge_removal effect absolute snapshot force =
     (if ps_kind snapshot = ''absent'' then plan_operation effect absolute snapshot ''none'' []
      else if ps_kind snapshot \<noteq> ''file'' \<or> ep_identity_evidence effect = JNull then
        run_return (Conflict (''managed merge cannot be proven: '' @ ep_destination effect))
      else
        (case read_json (ps_content snapshot) of
           None \<Rightarrow> None
         | Some (Err _) \<Rightarrow> run_return (Conflict (''managed merge JSON is invalid: '' @ ep_destination effect))
         | Some (Ok document) \<Rightarrow>
             (case merge_matches effect document of
                [] \<Rightarrow>
                  if merge_identity_drifted effect document \<and> \<not> force
                  then run_return (Conflict (''managed merge identity drifted: '' @ ep_destination effect))
                  else plan_operation effect absolute snapshot ''none'' []
              | [(_, _, value)] \<Rightarrow>
                  if json_digest value \<noteq> ep_installed_digest effect \<and> \<not> force
                  then run_return (Conflict (''managed merge drifted: '' @ ep_destination effect))
                  else
                    (case remove_merge_identity effect document of
                       (Some updated, result) \<Rightarrow>
                         if result \<noteq> ''removed'' then run_return (Conflict (''managed merge cannot be reversed: '' @ ep_destination effect))
                         else if ep_created_destination effect \<and> is_bare_container_chain updated (or_empty (ep_json_path effect))
                         then plan_operation effect absolute snapshot ''remove'' []
                         else plan_operation effect absolute snapshot ''write'' (canonical_json_bytes updated)
                     | (None, _) \<Rightarrow> run_return (Conflict (''managed merge cannot be reversed: '' @ ep_destination effect)))
              | _ \<Rightarrow> run_return (Conflict (''managed merge identity is ambiguous: '' @ ep_destination effect)))))"

definition plan_block_removal :: "installation_record \<Rightarrow> effect_proof \<Rightarrow> string \<Rightarrow> path_snapshot \<Rightarrow> removal run" where
  "plan_block_removal r effect absolute snapshot =
     (if ps_kind snapshot = ''absent'' then plan_operation effect absolute snapshot ''none'' []
      else if ps_kind snapshot \<noteq> ''file'' then run_return (Conflict (''managed block destination changed type: '' @ ep_destination effect))
      else
        (case strip_managed_block r (ps_content snapshot) of
           None \<Rightarrow> None
         | Some None \<Rightarrow> run_return (Conflict (''managed block markers drifted: '' @ ep_destination effect))
         | Some (Some stripped) \<Rightarrow>
             if stripped = ps_content snapshot then plan_operation effect absolute snapshot ''none'' []
             else if stripped = [] then plan_operation effect absolute snapshot ''remove'' []
             else plan_operation effect absolute snapshot ''write'' stripped))"

definition plan_copy_removal :: "effect_proof \<Rightarrow> string \<Rightarrow> path_snapshot \<Rightarrow> bool \<Rightarrow> path_snapshot option \<Rightarrow> removal run" where
  "plan_copy_removal effect absolute snapshot force restore =
     (if ps_kind snapshot = ''absent'' then plan_operation effect absolute snapshot ''none'' []
      else if \<not> owns_copy effect snapshot \<and> \<not> force then
        run_return (Conflict (''managed Copy destination drifted: '' @ ep_destination effect))
      else
        (case ep_restores_from effect of
           None \<Rightarrow> plan_operation effect absolute snapshot ''remove'' []
         | Some sidecar \<Rightarrow>
             (case restore of
                None \<Rightarrow> run_return (Conflict (''replaced memory backup is missing: '' @ sidecar))
              | Some s \<Rightarrow>
                  if ps_kind s \<noteq> ''file'' then run_return (Conflict (''replaced memory backup is missing: '' @ sidecar))
                  else plan_operation effect absolute snapshot ''write'' (ps_content s))))"

definition plan_removal ::
  "installation_record \<Rightarrow> effect_proof \<Rightarrow> string \<Rightarrow> path_snapshot \<Rightarrow> bool \<Rightarrow> path_snapshot option \<Rightarrow> removal run" where
  "plan_removal r effect absolute snapshot force restore =
     (if ps_kind snapshot = ''special'' then run_return (Conflict (''unsafe special destination: '' @ ep_destination effect))
      else if is_link effect then plan_link_removal r effect absolute snapshot force
      else if ep_kind effect = ''merge-json'' then plan_merge_removal effect absolute snapshot force
      else if ep_kind effect = ''managed-block'' then plan_block_removal r effect absolute snapshot
      else plan_copy_removal effect absolute snapshot force restore)"



subsection \<open>Searching for a marker\<close>

text \<open>
  A marker is a non-empty text within one line. Its occurrences in a file are those in the lines before a line break and those in
  the lines after it.
\<close>

lemma starts_prefix: "starts p s \<longleftrightarrow> prefix p s"
  by (auto simp: starts_def prefix_def) (metis append_take_drop_id)

lemma str_count_Cons:
  "needle \<noteq> [] \<Longrightarrow> str_count needle (c # s) =
     (if starts needle (c # s) then Suc (str_count needle (drop (length needle) (c # s))) else str_count needle s)"
  by (simp add: str_count.simps)

lemma str_count_Nil [simp]: "str_count needle [] = 0"
  by (simp add: str_count.simps)

lemma str_find_None: "needle \<noteq> [] \<Longrightarrow> str_find needle s = None \<longleftrightarrow> \<not> sublist needle s"
  by (induction s) (auto simp: starts_prefix sublist_Cons_right)

lemma str_count_zero: "needle \<noteq> [] \<Longrightarrow> str_count needle s = 0 \<longleftrightarrow> \<not> sublist needle s"
  by (induction s) (auto simp: str_count_Cons starts_prefix sublist_Cons_right)

lemma str_find_self: "needle \<noteq> [] \<Longrightarrow> str_find needle (needle @ s) = Some 0"
  by (cases needle) (auto simp: starts_prefix)

lemma str_count_self: "needle \<noteq> [] \<Longrightarrow> str_count needle (needle @ s) = Suc (str_count needle s)"
  by (cases needle) (auto simp: str_count_Cons starts_prefix)

lemma starts_line: "c \<notin> set needle \<Longrightarrow> starts needle (a @ c # b) \<longleftrightarrow> starts needle a"
  by (auto simp: starts_prefix prefix_append prefix_Cons)

lemma starts_length: "starts needle s \<Longrightarrow> length needle \<le> length s"
  by (simp add: starts_prefix prefix_length_le)

lemma str_find_line:
  assumes "needle \<noteq> []" "c \<notin> set needle"
  shows "str_find needle (a @ c # b) =
     (case str_find needle a of Some i \<Rightarrow> Some i | None \<Rightarrow> map_option (\<lambda>i. length a + 1 + i) (str_find needle b))"
proof (induction a)
  case Nil
  show ?case
    using assms starts_line[OF assms(2), of "[]" b] by (cases needle) (auto simp: starts_prefix option.map_comp fun_eq_iff intro!: option.map_cong)
next
  case (Cons d a)
  then show ?case
    using starts_line[OF assms(2), of "d # a" b] by (cases "str_find needle b") (auto split: option.splits)
qed

lemma str_count_line:
  assumes "needle \<noteq> []" "c \<notin> set needle"
  shows "str_count needle (a @ c # b) = str_count needle a + str_count needle b"
proof (induction "length a" arbitrary: a rule: less_induct)
  case less
  show ?case
  proof (cases a)
    case Nil
    then show ?thesis
      using assms starts_line[OF assms(2), of "[]" b] by (cases needle) (auto simp: str_count_Cons starts_prefix)
  next
    case (Cons d a')
    note starts = starts_line[OF assms(2), of a b]
    show ?thesis
    proof (cases "starts needle a")
      case True
      then have "str_count needle (drop (length needle) a @ c # b) = str_count needle (drop (length needle) a) + str_count needle b"
        using Cons assms(1) by (intro less) simp
      moreover have "str_count needle a = Suc (str_count needle (drop (length needle) a))"
        using True Cons str_count_Cons[OF assms(1), of d a'] by simp
      moreover have "str_count needle (a @ c # b) = Suc (str_count needle (drop (length needle) a @ c # b))"
        using True starts Cons starts_length[OF True] str_count_Cons[OF assms(1), of d "a' @ c # b"] drop_append[of "length needle" a "c # b"]
        by simp
      ultimately show ?thesis
        by simp
    next
      case False
      with less[of a'] starts assms Cons show ?thesis
        by (simp add: str_count_Cons)
    qed
  qed
qed



subsection \<open>Replacing a member of a document\<close>

lemma map_of_replace:
  "map_of (map (\<lambda>(k, v). (k, if k = head then u else v)) es) key =
     (if key = head then map_option (\<lambda>_. u) (map_of es head) else map_of es key)"
  by (induction es) auto

lemma map_of_remove: "map_of [e \<leftarrow> es. fst e \<noteq> key] k = (if k = key then None else map_of es k)"
  by (induction es) auto

lemmas member_simps = object_member_def json_get_def json_object_def map_of_sort_key map_of_replace map_of_remove

text \<open>A dotted path, and the part after its first dot; a path that ends with a dot is cut short by \<open>replace_at\<close>.\<close>

definition member_parts :: "string \<Rightarrow> string list" where
  "member_parts path = (if path = [] then [] else split_on CHR ''.'' path)"

definition proper_path :: "string \<Rightarrow> bool" where
  "proper_path path \<longleftrightarrow> path = [] \<or> last path \<noteq> CHR ''.''"

lemma navigate_member_parts: "navigate_member node path = navigate_parts node (member_parts path)"
  by (simp add: navigate_member_def member_parts_def)

lemma member_parts_step:
  assumes "path \<noteq> []" "proper_path path" "partition_at CHR ''.'' path = (head, tail)"
  shows "member_parts path = head # member_parts (or_empty tail)" and "proper_path (or_empty tail)"
proof -
  have "member_parts path = head # member_parts (or_empty tail) \<and> proper_path (or_empty tail)"
  proof (cases tail)
    case None
    with assms show ?thesis
      by (auto simp: partition_at_None or_empty_def member_parts_def proper_path_def split_on_no_sep)
  next
    case (Some t)
    with assms have "path = head @ CHR ''.'' # t" "CHR ''.'' \<notin> set head"
      by (simp_all add: partition_at_Some)
    moreover from this assms(2) have "t \<noteq> []"
      by (auto simp: proper_path_def)
    ultimately show ?thesis
      using Some assms(2) by (simp add: or_empty_def member_parts_def proper_path_def split_on_append)
  qed
  then show "member_parts path = head # member_parts (or_empty tail)" and "proper_path (or_empty tail)"
    by simp_all
qed

lemma navigate_step:
  assumes "path \<noteq> []" "partition_at CHR ''.'' path = (head, tail)" "navigate_member node path = Some v"
  obtains es child where "node = JObject es" "object_member es head = Some child"
    "or_empty tail \<noteq> [] \<Longrightarrow> navigate_member child (or_empty tail) = Some v"
proof -
  obtain rest where "member_parts path = head # rest" "or_empty tail \<noteq> [] \<Longrightarrow> rest = member_parts (or_empty tail)"
  proof (cases tail)
    case None
    with assms that[of "[]"] show ?thesis
      by (auto simp: partition_at_None or_empty_def member_parts_def split_on_no_sep)
  next
    case (Some t)
    with assms that[of "split_on CHR ''.'' t"] show ?thesis
      by (auto simp: partition_at_Some or_empty_def member_parts_def split_on_append)
  qed
  with assms(3) that show ?thesis
    by (auto simp: navigate_member_parts split: json_value.splits option.splits)
qed

lemma replace_at_defined: "navigate_member node path = Some v \<Longrightarrow> \<exists>u. replace_at node path r = Some u"
proof (induction node path r rule: replace_at.induct)
  case (1 node path r)
  show ?case
  proof (cases "path = []")
    case False
    obtain head tail where part: "partition_at CHR ''.'' path = (head, tail)"
      by fastforce
    obtain es child where node: "node = JObject es" "object_member es head = Some child"
      "or_empty tail \<noteq> [] \<Longrightarrow> navigate_member child (or_empty tail) = Some v"
      using navigate_step[OF False part 1(2)] by blast
    have "\<exists>u. replace_at child (or_empty tail) r = Some u"
      using 1(1)[OF False node(1) part[symmetric] node(2)] node(3) by (cases "or_empty tail = []") (auto simp: replace_at.simps)
    with False node part show ?thesis
      by (auto simp: replace_at.simps[of "JObject es"])
  qed (simp add: replace_at.simps)
qed

lemma replace_at_object:
  assumes "path \<noteq> []" "partition_at CHR ''.'' path = (head, tail)" "replace_at node path r = Some u"
  obtains es child updated where "node = JObject es" "object_member es head = Some child"
    "replace_at child (or_empty tail) r = Some updated"
    "u = json_object (map (\<lambda>(k, v). (k, if k = head then updated else v)) es)"
  using assms(1,2) assms(3)[unfolded replace_at.simps[of node path r]] that
  by (cases node) (auto split: option.splits)

lemma replace_at_frame:
  assumes "replace_at node path r = Some u" "proper_path path"
  shows "navigate_parts u (member_parts path @ p) = navigate_parts r p \<and>
    (\<not> prefix (member_parts path) q \<longrightarrow> \<not> prefix q (member_parts path) \<longrightarrow> navigate_parts u q = navigate_parts node q)"
  using assms
proof (induction node path r arbitrary: u q rule: replace_at.induct)
  case (1 node path r)
  show ?case
  proof (cases "path = []")
    case True
    with 1 show ?thesis by (simp add: replace_at.simps member_parts_def)
  next
    case False
    obtain head tail where part: "partition_at CHR ''.'' path = (head, tail)"
      by fastforce
    obtain es child updated where node: "node = JObject es" "object_member es head = Some child"
      "replace_at child (or_empty tail) r = Some updated"
      "u = json_object (map (\<lambda>(k, v). (k, if k = head then updated else v)) es)"
      by (rule replace_at_object[OF False part 1(2)])
    note step = member_parts_step[OF False 1(3) part]
    note inner = 1(1)[OF False node(1) part[symmetric] node(2,3) step(2)]
    have "navigate_parts u q = navigate_parts node q"
      if "\<not> prefix (member_parts path) q" "\<not> prefix q (member_parts path)"
      using that inner node(2) by (cases q) (auto simp: step(1) node(1,4) member_simps split: option.splits)
    with inner node(2) show ?thesis
      by (auto simp: step(1) node(1,4) member_simps)
  qed
qed


subsection \<open>Removing a merged identity\<close>

lemma navigate_parts_append:
  "navigate_parts node (p @ q) = (case navigate_parts node p of None \<Rightarrow> None | Some n \<Rightarrow> navigate_parts n q)"
  by (induction node p rule: navigate_parts.induct) (auto split: json_value.splits option.splits)

lemma navigate_Some: "navigate node path = v \<Longrightarrow> v \<noteq> JNull \<Longrightarrow> navigate_parts node (member_parts path) = Some v"
  by (auto simp: navigate_def navigate_member_parts split: option.splits)

lemma enumerate_without: "map snd [(i, v) \<leftarrow> enumerate n vs. i \<noteq> n + index] = take index vs @ drop (Suc index) vs"
proof (induction vs arbitrary: n index)
  case (Cons v vs)
  have "map snd [(i, v) \<leftarrow> enumerate (Suc n) vs. i \<noteq> n] = vs"
    by (subst filter_True) (auto simp: in_set_enumerate_eq)
  with Cons[of "Suc n" "index - 1"] show ?case
    by (cases index) auto
qed simp

lemma enumerate_filter_single:
  assumes "[(i, v) \<leftarrow> enumerate 0 vs. P v] = [(k, x)]"
  shows "k < length vs \<and> x = vs ! k" and "v \<in> set (take k vs @ drop (Suc k) vs) \<Longrightarrow> \<not> P v"
proof -
  have in_iff: "(i, v) \<in> set (enumerate 0 vs) \<and> P v \<longleftrightarrow> (i, v) = (k, x)" for i v
    using arg_cong[OF assms, of set] by auto
  from in_iff[of k x] show "k < length vs \<and> x = vs ! k"
    by (auto simp: in_set_enumerate_eq)
  assume "v \<in> set (take k vs @ drop (Suc k) vs)"
  then obtain j where "j < length vs" "j \<noteq> k" "v = vs ! j"
    by (auto simp: in_set_conv_nth) (metis add_leD1 add_Suc less_diff_conv nat_neq_iff not_less_eq_eq Suc_n_not_le_n le_add1 add.commute)
  then show "\<not> P v"
    using in_iff[of j v] by (simp add: in_set_enumerate_eq)
qed

lemma enumerate_filter_None: "[(i, v) \<leftarrow> enumerate n vs. P v] = [] \<longleftrightarrow> (\<forall>v \<in> set vs. \<not> P v)"
  by (induction vs arbitrary: n) auto

text \<open>The only match of an effect in a document.\<close>

lemma merge_match_cases:
  assumes "merge_matches effect doc = [(path, identity, value)]"
  obtains (by_key) key es where "identity = MergeKey key" "ep_merge_mode effect = Some ''key''" "ep_identity_evidence effect = JArray [JStr key]"
      "navigate doc path = JObject es" "object_member es key = Some value" "path = or_empty (ep_json_path effect)"
    | (by_index) evidence vs i where "identity = MergeIndex i" "ep_merge_mode effect = Some ''list''" "ep_identity_evidence effect = JObject evidence"
      "navigate doc path = JArray vs" "[(i, v) \<leftarrow> enumerate 0 vs. identity_match evidence v] = [(i, value)]"
      "path = or_empty (ep_json_path effect)"
proof -
  from assms consider items mode where "ep_merge_mode effect = Some mode" "ep_identity_evidence effect = JArray items"
    | evidence mode where "ep_merge_mode effect = Some mode" "ep_identity_evidence effect = JObject evidence"
    by (auto simp: merge_matches_def Let_def split: option.splits json_value.splits)
  then show thesis
  proof cases
    case 1
    with assms that(1) show thesis
      by (auto simp: merge_matches_def Let_def split: if_splits list.splits json_value.splits option.splits)
  next
    case 2
    with assms that(2) show thesis
      by (auto simp: merge_matches_def Let_def map_eq_Cons_conv split: if_splits json_value.splits)
  qed
qed

lemma remove_merge_identity_cases:
  assumes "remove_merge_identity effect doc = (Some updated, ''removed'')"
  obtains path identity v replacement where "merge_matches effect doc = [(path, identity, v)]"
    "replace_at doc path replacement = Some updated"
    "case (identity, navigate doc path) of
       (MergeKey key, JObject es) \<Rightarrow> replacement = json_object [e \<leftarrow> es. fst e \<noteq> key]
     | (MergeIndex index, JArray vs) \<Rightarrow> replacement = JArray (take index vs @ drop (Suc index) vs)
     | _ \<Rightarrow> False"
  using assms
  by (auto simp: remove_merge_identity_def enumerate_without[of 0, simplified] split: list.splits prod.splits option.splits merge_identity.splits json_value.splits)


lemma merge_matches_key:
  "ep_merge_mode effect = Some ''key'' \<Longrightarrow> ep_identity_evidence effect = JArray [JStr key] \<Longrightarrow>
   merge_matches effect doc =
     (case navigate doc (or_empty (ep_json_path effect)) of
        JObject es \<Rightarrow> (case object_member es key of None \<Rightarrow> [] | Some v \<Rightarrow> [(or_empty (ep_json_path effect), MergeKey key, v)])
      | _ \<Rightarrow> [])"
  by (simp add: merge_matches_def Let_def)

lemma merge_matches_list:
  "ep_merge_mode effect = Some ''list'' \<Longrightarrow> ep_identity_evidence effect = JObject evidence \<Longrightarrow>
   navigate doc (or_empty (ep_json_path effect)) = JArray vs \<Longrightarrow>
   merge_matches effect doc = map (\<lambda>(i, v). (or_empty (ep_json_path effect), MergeIndex i, v)) [(i, v) \<leftarrow> enumerate 0 vs. identity_match evidence v]"
  by (simp add: merge_matches_def Let_def)

lemma navigate_of_parts: "navigate_parts node (member_parts path) = Some v \<Longrightarrow> navigate node path = v"
  by (simp add: navigate_def navigate_member_parts)

text \<open>What a removal leaves at the path of the effect: the object without its key, or the list without its element.\<close>

definition removed_at :: "merge_identity \<Rightarrow> json_value \<Rightarrow> string list \<Rightarrow> json_value \<Rightarrow> json_value \<Rightarrow> bool" where
  "removed_at identity container parts doc updated \<longleftrightarrow>
     (case (identity, container) of
        (MergeKey key, JObject es) \<Rightarrow>
          (\<forall>k rest. navigate_parts updated (parts @ k # rest) = (if k = key then None else navigate_parts doc (parts @ k # rest)))
      | (MergeIndex i, JArray vs) \<Rightarrow> navigate_parts updated parts = Some (JArray (take i vs @ drop (Suc i) vs))
      | _ \<Rightarrow> False)"

text \<open>
  C17. Removing a merged identity from a document. When the planner reverses a merge there was exactly one match, the document that it
  writes has none, the container at the effect's path is the old one without the matched key or element, and every path that leaves
  the effect's path keeps its value. (A path that ends with a dot is excluded: the code cuts it short.)
\<close>

theorem merge_removal_exact:
  assumes "remove_merge_identity effect doc = (Some updated, ''removed'')" "proper_path (or_empty (ep_json_path effect))"
  shows "merge_matches effect updated = [] \<and>
    (\<exists>identity v. merge_matches effect doc = [(or_empty (ep_json_path effect), identity, v)]
       \<and> removed_at identity (navigate doc (or_empty (ep_json_path effect))) (member_parts (or_empty (ep_json_path effect))) doc updated) \<and>
    (\<forall>q. \<not> prefix (member_parts (or_empty (ep_json_path effect))) q \<and> \<not> prefix q (member_parts (or_empty (ep_json_path effect)))
       \<longrightarrow> navigate_parts updated q = navigate_parts doc q)"
proof -
  let ?path = "or_empty (ep_json_path effect)"
  obtain path identity v replacement where one: "merge_matches effect doc = [(path, identity, v)]"
    and replaced: "replace_at doc path replacement = Some updated"
    and replacement: "case (identity, navigate doc path) of
       (MergeKey key, JObject es) \<Rightarrow> replacement = json_object [e \<leftarrow> es. fst e \<noteq> key]
     | (MergeIndex index, JArray vs) \<Rightarrow> replacement = JArray (take index vs @ drop (Suc index) vs)
     | _ \<Rightarrow> False"
    using assms(1) by (rule remove_merge_identity_cases)
  from one have path: "path = ?path"
    by (rule merge_match_cases) simp_all
  note frame = replace_at_frame[OF replaced[unfolded path] assms(2)]
  have at_path: "navigate updated ?path = replacement"
    using frame[of "[]"] by (simp add: navigate_of_parts)
  from one have "merge_matches effect updated = [] \<and> removed_at identity (navigate doc ?path) (member_parts ?path) doc updated"
  proof (cases rule: merge_match_cases)
    case (by_key key es)
    then have "replacement = json_object [e \<leftarrow> es. fst e \<noteq> key]" "navigate_parts doc (member_parts ?path) = Some (JObject es)"
      using replacement path by (auto intro: navigate_Some)
    then show ?thesis
      using by_key path at_path frame
      by (auto simp: merge_matches_key removed_at_def navigate_parts_append member_simps)
  next
    case (by_index evidence vs i)
    note none = enumerate_filter_single(2)[OF by_index(5)]
    have "replacement = JArray (take i vs @ drop (Suc i) vs)"
      using replacement path by_index by simp
    then show ?thesis
      using by_index path at_path frame[of "[]"] none
      by (auto simp: merge_matches_list enumerate_filter_None removed_at_def)
  qed
  with one path frame show ?thesis
    by auto
qed


definition sample_merge :: effect_proof where
  "sample_merge = (sample_effect ''payload'')
     \<lparr>ep_kind := ''merge-json'', ep_source_path := None, ep_json_path := Some ''servers'', ep_merge_mode := Some ''key'',
      ep_identity_evidence := JArray [JStr ''a'']\<rparr>"

theorem merge_removal_exact_witness:
  "merge_matches sample_merge (JObject [(''note'', JInt 3), (''servers'', JObject [(''b'', JInt 2)])]) = [] \<and>
   navigate_parts (JObject [(''note'', JInt 3), (''servers'', JObject [(''b'', JInt 2)])]) [''note''] = Some (JInt 3)"
proof -
  have "remove_merge_identity sample_merge (JObject [(''note'', JInt 3), (''servers'', JObject [(''a'', JInt 1), (''b'', JInt 2)])])
      = (Some (JObject [(''note'', JInt 3), (''servers'', JObject [(''b'', JInt 2)])]), ''removed'')"
    by code_simp
  moreover have "proper_path (or_empty (ep_json_path sample_merge))"
    by code_simp
  moreover have "member_parts (or_empty (ep_json_path sample_merge)) = [''servers'']"
    by code_simp
  ultimately show ?thesis
    using merge_removal_exact[of sample_merge "JObject [(''note'', JInt 3), (''servers'', JObject [(''a'', JInt 1), (''b'', JInt 2)])]"]
    by (auto dest!: spec[of _ "[''note'']"] simp: member_simps)
qed


subsection \<open>What a plan may touch\<close>

text \<open>Strict decoding is injective: the text that was read is written back as the same bytes.\<close>

lemma char_units:
  assumes "p < 256"
  shows "map unat (utf8_char (char_of p)) = (if p < 128 then [p] else [192 + p div 64, 128 + p mod 64])"
proof -
  have "192 + p div 64 < 256" "128 + p mod 64 < 256"
    using assms by (simp_all add: div_less_dividend less_mult_imp_div_less)
  with assms show ?thesis
    by (simp add: utf8_char_def Let_def del: of_nat_add)
qed

lemma utf8_points_units:
  "utf8_points ns = Some ps \<Longrightarrow> list_all (\<lambda>p. p < 256) ps \<Longrightarrow> concat (map (\<lambda>p. map unat (utf8_char (char_of p))) ps) = ns"
proof (induction ns arbitrary: ps rule: utf8_points.induct)
  case (2 b bs)
  consider "b < 128" | "\<not> b < 128" "194 \<le> b" "b \<le> 223" | "224 \<le> b"
    using 2(5) by (cases "b < 128"; cases "b \<le> 223") (auto split: if_splits)
  then show ?case
  proof cases
    case 1
    with 2 show ?thesis by (auto simp: char_units)
  next
    case 2
    then obtain c cs qs p where bs: "bs = c # cs" "is_cont c" "utf8_points cs = Some qs" "ps = p # qs" "p = (b - 192) * 64 + (c - 128)"
      using "2.prems" by (auto split: list.splits if_splits)
    have "b = 192 + (b - 192)" "c = 128 + (c - 128)" "c - 128 < 64" "2 \<le> b - 192"
      using bs(2) 2(2) unfolding is_cont_def by linarith+
    then obtain m k where "b = 192 + m" "c = 128 + k" "k < 64" "2 \<le> m"
      by blast
    moreover from this have "p = m * 64 + k"
      using bs(5) by (simp only: add_diff_cancel_left')
    ultimately have p: "192 + p div 64 = b" "128 + p mod 64 = c" "\<not> p < 128"
      by simp_all
    have "p < 256"
      using "2.prems"(2) bs(4) by simp
    with char_units[of p] p have "map unat (utf8_char (char_of p)) = [b, c]"
      by (simp only: if_False)
    moreover have "concat (map (\<lambda>p. map unat (utf8_char (char_of p))) qs) = cs"
    proof (rule "2.IH"(2)[OF 2(1) _ bs(1,2,3)])
      show "list_all (\<lambda>p. p < 256) qs"
        using "2.prems"(2) bs(4) by simp
    qed (use 2 in simp)
    ultimately show ?thesis
      unfolding bs(1,4) by simp
  next
    case 3
    show ?thesis
    proof (cases "b \<le> 239")
      case True
      with 3 "2.prems"(1) obtain c d qs where p: "ps = ((b - 224) * 4096 + (c - 128) * 64 + (d - 128)) # qs" "b = 224 \<longrightarrow> 160 \<le> c"
        by (auto split: list.splits if_splits)
      have "256 \<le> (b - 224) * 4096 + (c - 128) * 64 + (d - 128)"
        using 3 p(2) by (cases "b = 224") linarith+
      with "2.prems"(2) p(1) show ?thesis by simp
    next
      case False
      with "2.prems"(1) obtain c d e qs where
        p: "ps = ((b - 240) * 262144 + (c - 128) * 4096 + (d - 128) * 64 + (e - 128)) # qs" "b = 240 \<longrightarrow> 144 \<le> c"
        by (auto split: list.splits if_splits)
      have "256 \<le> (b - 240) * 262144 + (c - 128) * 4096 + (d - 128) * 64 + (e - 128)"
        using False p(2) by (cases "b = 240") linarith+
      with "2.prems"(2) p(1) show ?thesis by simp
    qed
  qed
qed simp

lemma utf8_encode_decoded: "utf8_decode data = Text t \<Longrightarrow> utf8_encode t = data"
proof -
  assume "utf8_decode data = Text t"
  then obtain ps where ps: "utf8_points (map unat data) = Some ps" "list_all (\<lambda>p. p < 256) ps" "t = map char_of ps"
    by (auto simp: utf8_decode_def split: option.splits if_splits)
  have "map unat (utf8_encode t) = map unat data"
    using utf8_points_units[OF ps(1,2)] by (simp add: ps(3) utf8_encode_def map_concat comp_def)
  then show ?thesis
    by (simp add: inj_map_eq_map[OF inj_onI] word_unat_eq_iff)
qed


text \<open>The first occurrence of a marker, and the ones after it.\<close>

lemma str_find_first_at:
  "needle \<noteq> [] \<Longrightarrow> str_find needle s = Some i \<Longrightarrow>
     starts needle (drop i s) \<and> str_count needle s = Suc (str_count needle (drop (i + length needle) s))"
proof (induction s arbitrary: i)
  case (Cons c s)
  show ?case
  proof (cases "starts needle (c # s)")
    case True
    with Cons.prems show ?thesis by (simp add: str_count_Cons)
  next
    case False
    with Cons.prems obtain j where "str_find needle s = Some j" "i = Suc j" by auto
    with Cons.IH[of j] Cons.prems(1) False show ?thesis by (simp add: str_count_Cons)
  qed
qed simp

lemma str_find_before: "needle \<noteq> [] \<Longrightarrow> starts needle (drop j s) \<Longrightarrow> \<exists>i\<le>j. str_find needle s = Some i"
proof (induction s arbitrary: j)
  case (Cons c s)
  show ?case
  proof (cases "starts needle (c # s)")
    case False
    with Cons.prems obtain k where k: "j = Suc k" by (cases j) auto
    with Cons.IH[of k] Cons.prems obtain i where "i \<le> k" "str_find needle s = Some i" by auto
    with False k show ?thesis by auto
  qed auto
qed (simp add: starts_def)

lemma starts_count:
  assumes "needle \<noteq> []" "starts needle (drop j s)" "i \<le> j"
  shows "str_count needle (drop i s) \<noteq> 0"
proof -
  have "starts needle (drop (j - i) (drop i s))"
    using assms(2,3) by simp
  then have "str_find needle (drop i s) \<noteq> None"
    using str_find_before[OF assms(1)] by blast
  then show ?thesis
    by (metis assms(1) str_count_zero str_find_None)
qed

text \<open>Occurrences of a marker that begins with two characters of which the second is not repeated do not overlap.\<close>

definition opens_once :: "string \<Rightarrow> bool" where
  "opens_once needle \<longleftrightarrow> (case needle of c # d # rest \<Rightarrow> rest \<noteq> [] \<and> d \<notin> set rest \<and> last rest \<noteq> c | _ \<Rightarrow> False)"

lemma opens_once_apart:
  assumes "opens_once needle" "starts needle (drop i s)" "starts needle (drop j s)" "i < j"
  shows "i + length needle \<le> j"
proof (rule ccontr)
  assume close: "\<not> i + length needle \<le> j"
  obtain c d rest where needle: "needle = c # d # rest" "rest \<noteq> []" "d \<notin> set rest" "last rest \<noteq> c"
    using assms(1) by (auto simp: opens_once_def split: list.splits)
  have nth: "s ! (k + m) = needle ! m" if "starts needle (drop k s)" "m < length needle" for k m
  proof -
    have "k \<le> length s"
      using that by (cases "k \<le> length s") (auto simp: starts_def)
    then have "s ! (k + m) = take (length needle) (drop k s) ! m"
      using that(2) by simp
    then show ?thesis
      using that(1) by (simp add: starts_def)
  qed
  define k where "k = j - i"
  have k: "0 < k" "k < length needle" "j = i + k"
    using assms(4) close by (simp_all add: k_def)
  have first: "needle ! k = c"
    using nth[OF assms(2) k(2)] nth[OF assms(3), of 0] k(3) by (simp add: needle(1))
  show False
  proof (cases "Suc k = length needle")
    case True
    then have "needle ! k = last rest"
      by (simp add: needle(1,2) last_conv_nth nth_Cons' k(1))
    with first needle(4) show False by simp
  next
    case False
    with k have "Suc k < length needle" by simp
    then have "needle ! Suc k = d"
      using nth[OF assms(2), of "Suc k"] nth[OF assms(3), of 1] k(3) by (simp add: needle(1))
    moreover have "needle ! Suc k = rest ! (k - 1)" "k - 1 < length rest"
      using k(1) \<open>Suc k < length needle\<close> by (auto simp: needle(1) nth_Cons')
    ultimately show False
      using needle(3) by (metis nth_mem)
  qed
qed

lemma stripped_current:
  assumes "strip_block b e text = Some s" "s \<noteq> text" "b \<noteq> []" "opens_once e"
  shows "block_status b e text = LS_CURRENT"
proof -
  have "e \<noteq> []"
    using assms(4) by (auto simp: opens_once_def)
  from assms obtain start offset where found: "str_find b text = Some start" "str_count b text = 1" "str_count e text = 1"
    "str_find e (drop start text) = Some offset"
    by (auto simp: strip_block_def split: option.splits if_splits)
  have at: "starts e (drop (start + offset) text)"
    using str_find_first_at[OF \<open>e \<noteq> []\<close> found(4)] by (simp add: add.commute)
  then obtain i where i: "str_find e text = Some i"
    using str_find_before[OF \<open>e \<noteq> []\<close>] by blast
  note first = str_find_first_at[OF \<open>e \<noteq> []\<close> i]
  have "\<not> i < start"
  proof
    assume "i < start"
    with opens_once_apart[OF assms(4) conjunct1[OF first] at] have "i + length e \<le> start + offset" by simp
    then have "str_count e (drop (i + length e) text) \<noteq> 0"
      by (rule starts_count[OF \<open>e \<noteq> []\<close> at])
    with first found(3) show False by simp
  qed
  with found i show ?thesis
    by (simp add: block_status_def)
qed

lemma current_stripped:
  assumes "block_status b e text = LS_CURRENT" "b \<noteq> []" "e \<noteq> []"
  obtains s where "strip_block b e text = Some s" "length s < length text"
proof -
  from assms(1) obtain start i where found: "str_find b text = Some start" "str_find e text = Some i" "\<not> i < start"
    "str_count b text = 1" "str_count e text = 1"
    by (auto simp: block_status_def split: option.splits if_splits)
  have "starts e (drop (i - start) (drop start text))"
    using str_find_first_at[OF assms(3) found(2)] found(3) by simp
  then obtain offset where offset: "str_find e (drop start text) = Some offset"
    using str_find_before[OF assms(3)] by blast
  have fits: "start + offset + length e \<le> length text"
    using str_find_first_at[OF assms(3) offset] starts_length[of e "drop offset (drop start text)"] assms(3) by (cases e) auto
  define after where "after = drop (start + offset + length e) text"
  define joined where "joined = take start text @ (if take 1 after = [newline] then drop 1 after else after)"
  define cut where "cut = (if ends_with [newline, newline] joined then butlast joined else joined)"
  have "strip_block b e text = Some (if take 1 cut = [newline] then drop 1 cut else cut)"
    using found(1,4,5) offset by (simp add: strip_block_def Let_def after_def joined_def cut_def)
  moreover have "length joined < length text"
  proof -
    have "0 < length e"
      using assms(3) by simp
    then have "start + length after < length text"
      using fits by (simp only: after_def length_drop)
    then show ?thesis by (auto simp: joined_def)
  qed
  then have "length (if take 1 cut = [newline] then drop 1 cut else cut) < length text"
    by (auto simp: cut_def)
  ultimately show thesis
    by (rule that)
qed


subsection \<open>Planned removals and recorded status\<close>

lemma plan_operation_planned:
  "plan_operation effect absolute s mutation content = run_return (Planned op) \<Longrightarrow>
   op = \<lparr>uo_effect = effect, uo_absolute_destination = absolute, uo_precondition = s, uo_mutation = mutation, uo_replacement_content = content\<rparr>"
  by (auto simp: plan_operation_def mk_uninstall_operation_def py_guard_def split: if_splits)

lemma plan_operation_defined:
  assumes "normalized_absolute absolute" "absolute \<noteq> ''/''" "ps_path s = absolute" "mutation \<in> {''none'', ''remove'', ''write''}"
    "mutation = ''write'' \<or> content = []"
  shows "plan_operation effect absolute s mutation content = run_return (Planned
    \<lparr>uo_effect = effect, uo_absolute_destination = absolute, uo_precondition = s, uo_mutation = mutation, uo_replacement_content = content\<rparr>)"
  using assms by (simp add: plan_operation_def mk_uninstall_operation_def py_guard_def)

lemma plan_link_removal_proof:
  assumes "plan_link_removal r e absolute s False = run_return (Planned op)" "uo_mutation op \<noteq> ''none''"
  shows "uo_precondition op = s \<and> uo_absolute_destination op = absolute
    \<and> (effect_status r e s = run_return LS_CURRENT \<or> effect_status r e s = run_return LS_BROKEN)"
proof -
  obtain status where "effect_status r e s = run_return status" "status = LS_CURRENT \<or> status = LS_BROKEN"
    "plan_operation e absolute s ''remove'' [] = run_return (Planned op)"
    using assms
    by (auto simp: plan_link_removal_def run_bind_def dest: plan_operation_planned split: option.splits sum.splits if_splits)
  then show ?thesis
    by (auto dest: plan_operation_planned)
qed

lemma plan_merge_removal_proof:
  assumes "plan_merge_removal e absolute s False = run_return (Planned op)" "uo_mutation op \<noteq> ''none''"
  shows "uo_precondition op = s \<and> uo_absolute_destination op = absolute \<and> merge_effect_status e s = Some LS_CURRENT"
  using assms
  by (auto simp: plan_merge_removal_def merge_effect_status_def dest!: plan_operation_planned
      split: if_splits option.splits result.splits list.splits prod.splits)

lemma markers_open_once: "CHR ''!'' \<notin> set (memory_name r) \<Longrightarrow> begin_marker (memory_name r) \<noteq> [] \<and> opens_once (end_marker (memory_name r))"
  by (simp add: begin_marker_def end_marker_def opens_once_def)

lemma plan_block_removal_proof:
  assumes "plan_block_removal r e absolute s = run_return (Planned op)" "uo_mutation op \<noteq> ''none''" "CHR ''!'' \<notin> set (memory_name r)"
  shows "uo_precondition op = s \<and> uo_absolute_destination op = absolute \<and> managed_block_status r s = Some LS_CURRENT"
proof -
  from assms obtain stripped where s: "ps_kind s = ''file''" "strip_managed_block r (ps_content s) = Some (Some stripped)"
    "stripped \<noteq> ps_content s"
    by (auto simp: plan_block_removal_def dest!: plan_operation_planned split: if_splits option.splits)
  then obtain read t where chars: "utf8_decode (ps_content s) = Text read" "stripped = utf8_encode t"
    "strip_block (begin_marker (memory_name r)) (end_marker (memory_name r)) read = Some t"
    by (auto simp: strip_managed_block_def memory_markers_def split: decoded.splits)
  then have "t \<noteq> read"
    using s(3) utf8_encode_decoded by blast
  then have "managed_block_status r s = Some LS_CURRENT"
    using stripped_current[OF chars(3)] markers_open_once[OF assms(3)] s(1) chars(1)
    by (simp add: managed_block_status_def memory_markers_def)
  moreover have "uo_precondition op = s \<and> uo_absolute_destination op = absolute"
    using assms(1) by (auto simp: plan_block_removal_def dest!: plan_operation_planned split: if_splits option.splits)
  ultimately show ?thesis by simp
qed

lemma plan_copy_removal_proof:
  assumes "plan_copy_removal e absolute s False restore = run_return (Planned op)" "uo_mutation op \<noteq> ''none''"
  shows "uo_precondition op = s \<and> uo_absolute_destination op = absolute \<and> ps_kind s \<noteq> ''absent'' \<and> owns_copy e s
    \<and> (case ep_restores_from e of
         None \<Rightarrow> uo_mutation op = ''remove''
       | Some _ \<Rightarrow> (case restore of None \<Rightarrow> False
                 | Some x \<Rightarrow> ps_kind x = ''file'' \<and> uo_mutation op = ''write'' \<and> uo_replacement_content op = ps_content x))"
  using assms by (auto simp: plan_copy_removal_def dest!: plan_operation_planned split: if_splits option.splits)

text \<open>A copy is any effect but a link, a merge and a managed block.\<close>

definition is_copy :: "effect_proof \<Rightarrow> bool" where
  "is_copy e \<longleftrightarrow> \<not> is_link e \<and> ep_kind e \<noteq> ''merge-json'' \<and> ep_kind e \<noteq> ''managed-block''"

definition gives_back :: "effect_proof \<Rightarrow> path_snapshot option \<Rightarrow> uninstall_operation \<Rightarrow> bool" where
  "gives_back e restore op \<longleftrightarrow>
     (case ep_restores_from e of
        None \<Rightarrow> uo_mutation op = ''remove''
      | Some _ \<Rightarrow> (case restore of None \<Rightarrow> False
                | Some x \<Rightarrow> ps_kind x = ''file'' \<and> uo_mutation op = ''write'' \<and> uo_replacement_content op = ps_content x))"

text \<open>
  C8. Removal without force touches only what the installation still owns. A planned operation that changes a destination is bound to
  the observed snapshot of that destination, which is no special file, and the status of the effect there is current (or, for a link,
  broken); a copy that displaced an operator's file puts the observed sidecar back and any other copy is removed.
\<close>

theorem removal_needs_proof:
  assumes "plan_removal r e absolute s False restore = run_return (Planned op)" "uo_mutation op \<noteq> ''none''"
    and "CHR ''!'' \<notin> set (memory_name r)"
  shows "uo_precondition op = s \<and> uo_absolute_destination op = absolute \<and> ps_kind s \<noteq> ''special''
    \<and> (effect_status r e s = run_return LS_CURRENT \<or> is_link e \<and> effect_status r e s = run_return LS_BROKEN)
    \<and> (is_copy e \<longrightarrow> gives_back e restore op)"
proof -
  have "ps_kind s \<noteq> ''special''"
    using assms(1) by (auto simp: plan_removal_def)
  then show ?thesis
    using assms
    by (auto simp: plan_removal_def is_copy_def gives_back_def effect_status_def split: if_splits
        dest!: plan_link_removal_proof plan_merge_removal_proof plan_block_removal_proof plan_copy_removal_proof)
qed

lemma merge_match_removable:
  assumes "merge_matches effect doc = [(path, identity, v)]"
  obtains updated where "remove_merge_identity effect doc = (Some updated, ''removed'')"
proof -
  have "navigate doc path \<noteq> JNull"
    by (cases rule: merge_match_cases[OF assms]) auto
  then have defined: "\<exists>u. replace_at doc path x = Some u" for x
    using replace_at_defined[of doc path _ x] navigate_Some[of doc path] by (auto simp: navigate_member_parts)
  show thesis
  proof (cases rule: merge_match_cases[OF assms])
    case (1 key es)
    with defined[of "json_object [e \<leftarrow> es. fst e \<noteq> key]"] assms show thesis
      by (auto simp: remove_merge_identity_def intro: that)
  next
    case (2 evidence vs i)
    with defined[of "JArray (map snd [(j, v) \<leftarrow> enumerate 0 vs. j \<noteq> i])"] assms show thesis
      by (auto simp: remove_merge_identity_def intro: that)
  qed
qed

text \<open>The sidecar was observed and is a file.\<close>

definition present_file :: "path_snapshot option \<Rightarrow> bool" where
  "present_file restore \<longleftrightarrow> (\<exists>x. restore = Some x \<and> ps_kind x = ''file'')"

text \<open>
  C15. An installation that is reported as current can be removed. When the status of an effect is current (or broken, for a
  link), planning its removal succeeds with and without force, with an operation that changes the destination under the precondition
  that it is as observed. The one exception: when a copied file displaced another and the sidecar that holds it is not there as
  a file, the removal is refused, and the conflict names the missing backup.
\<close>

theorem current_effect_removable:
  assumes "effect_status r e s = run_return LS_CURRENT \<or> is_link e \<and> effect_status r e s = run_return LS_BROKEN"
    and "normalized_absolute absolute" "absolute \<noteq> ''/''" "ps_path s = absolute"
  shows "(\<forall>sidecar. is_copy e \<longrightarrow> ep_restores_from e = Some sidecar \<longrightarrow> \<not> present_file restore \<longrightarrow>
      plan_removal r e absolute s force restore = run_return (Conflict (''replaced memory backup is missing: '' @ sidecar)))
    \<and> (\<not> is_copy e \<or> ep_restores_from e = None \<or> present_file restore \<longrightarrow>
      (\<exists>op. plan_removal r e absolute s force restore = run_return (Planned op) \<and> uo_mutation op \<noteq> ''none'' \<and> uo_precondition op = s))"
proof -
  note planned = plan_operation_defined[OF assms(2,3,4)]
  consider (link) "is_link e" | (merge) "\<not> is_link e" "ep_kind e = ''merge-json''" "merge_effect_status e s = Some LS_CURRENT"
    | (block) "\<not> is_link e" "ep_kind e = ''managed-block''" "managed_block_status r s = Some LS_CURRENT"
    | (copy) "is_copy e" "ps_kind s \<noteq> ''absent''" "owns_copy e s"
    using assms(1) by (auto simp: effect_status_def is_copy_def split: if_splits)
  then show ?thesis
  proof cases
    case link
    then have "ps_kind s \<noteq> ''special''"
      using assms(1) by (auto simp: effect_status_def run_bind_def classify_link_def py_guard_def link_lifecycle_def split: if_splits)
    with link assms(1) planned show ?thesis
      by (auto simp: is_copy_def plan_removal_def plan_link_removal_def run_bind_def)
  next
    case merge
    then obtain doc path identity v where doc: "ps_kind s = ''file''" "ep_identity_evidence e \<noteq> JNull"
      "read_json (ps_content s) = Some (Ok doc)" "merge_matches e doc = [(path, identity, v)]" "json_digest v = ep_installed_digest e"
      by (auto simp: merge_effect_status_def split: if_splits option.splits result.splits list.splits prod.splits json_value.splits)
    obtain updated where "remove_merge_identity e doc = (Some updated, ''removed'')"
      using merge_match_removable[OF doc(4)] .
    with merge doc planned show ?thesis
      by (simp add: is_copy_def plan_removal_def plan_merge_removal_def)
  next
    case block
    then obtain read where chars: "ps_kind s = ''file''" "utf8_decode (ps_content s) = Text read"
      "block_status (begin_marker (memory_name r)) (end_marker (memory_name r)) read = LS_CURRENT"
      by (auto simp: managed_block_status_def memory_markers_def split: if_splits decoded.splits)
    obtain t where "strip_block (begin_marker (memory_name r)) (end_marker (memory_name r)) read = Some t" "length t < length read"
      using current_stripped[OF chars(3)] by (auto simp: begin_marker_def end_marker_def)
    moreover from this have "utf8_encode t \<noteq> ps_content s"
      using chars(2) by (metis decoded.inject less_irrefl utf8_decode_encode)
    ultimately show ?thesis
      using block chars planned by (simp add: is_copy_def plan_removal_def plan_block_removal_def strip_managed_block_def memory_markers_def)
  next
    case copy
    then have "ps_kind s \<noteq> ''special''"
      by (auto simp: owns_copy_def)
    with copy planned show ?thesis
      by (auto simp: plan_removal_def plan_copy_removal_def is_copy_def present_file_def split: option.splits)
  qed
qed


definition sample_snapshot :: path_snapshot where
  "sample_snapshot = \<lparr>ps_path = ''/w/style.md'', ps_kind = ''file'', ps_digest = Some sample_digest, ps_content = [], ps_executable = False,
     ps_members = [], ps_link_target = None, ps_target_exists = None\<rparr>"

lemma sample_copy:
  "is_copy (sample_effect ''payload'') \<and> ep_restores_from (sample_effect ''payload'') = None
   \<and> effect_status (sample_record ''payload'') (sample_effect ''payload'') sample_snapshot = run_return LS_CURRENT
   \<and> normalized_absolute ''/w/style.md'' \<and> ps_path sample_snapshot = ''/w/style.md''"
  by (simp add: is_copy_def is_link_def sample_effect_def effect_status_def sample_snapshot_def owns_copy_def normalized_absolute_def) code_simp

theorem removal_needs_proof_witness:
  "ps_kind sample_snapshot \<noteq> ''special'' \<and> gives_back (sample_effect ''payload'') None
     \<lparr>uo_effect = sample_effect ''payload'', uo_absolute_destination = ''/w/style.md'', uo_precondition = sample_snapshot,
      uo_mutation = ''remove'', uo_replacement_content = []\<rparr>"
proof -
  have "plan_removal (sample_record ''payload'') (sample_effect ''payload'') ''/w/style.md'' sample_snapshot False None = run_return (Planned
     \<lparr>uo_effect = sample_effect ''payload'', uo_absolute_destination = ''/w/style.md'', uo_precondition = sample_snapshot,
      uo_mutation = ''remove'', uo_replacement_content = []\<rparr>)"
    using sample_copy
    by (simp add: plan_removal_def is_copy_def plan_copy_removal_def plan_operation_defined owns_copy_def effect_status_def sample_snapshot_def
        sample_effect_def)
  moreover have "CHR ''!'' \<notin> set (memory_name (sample_record ''payload''))"
    by (simp add: sample_record_def)
  ultimately show ?thesis
    using removal_needs_proof[of "sample_record ''payload''" "sample_effect ''payload''" "''/w/style.md''" sample_snapshot None] sample_copy
    by fastforce
qed

definition displacing_effect :: effect_proof where
  "displacing_effect = (sample_effect ''payload'')\<lparr>ep_restores_from := Some ''style.md.orig''\<rparr>"

text \<open>
  The file of the sample displaced another: removing it puts the sidecar back, and is refused without it.
\<close>

theorem current_effect_removable_witness:
  "(\<exists>op. plan_removal (sample_record ''payload'') displacing_effect ''/w/style.md'' sample_snapshot False (Some sample_snapshot)
         = run_return (Planned op)
       \<and> uo_mutation op \<noteq> ''none'' \<and> uo_precondition op = sample_snapshot)
   \<and> plan_removal (sample_record ''payload'') displacing_effect ''/w/style.md'' sample_snapshot True None
       = run_return (Conflict ''replaced memory backup is missing: style.md.orig'')"
proof -
  have e: "is_copy displacing_effect" "ep_restores_from displacing_effect = Some ''style.md.orig''"
    "effect_status (sample_record ''payload'') displacing_effect sample_snapshot = run_return LS_CURRENT"
    by (simp_all add: displacing_effect_def is_copy_def is_link_def sample_effect_def effect_status_def sample_snapshot_def owns_copy_def)
  have restore: "present_file (Some sample_snapshot)" "\<not> present_file None"
    by (simp_all add: present_file_def sample_snapshot_def)
  show ?thesis
    using current_effect_removable[of "sample_record ''payload''" displacing_effect sample_snapshot "''/w/style.md''" "Some sample_snapshot" False]
      current_effect_removable[of "sample_record ''payload''" displacing_effect sample_snapshot "''/w/style.md''" None True]
      e restore sample_copy by simp
qed

end
