(* ===== verification/Uninstall.thy ===== *)
theory Uninstall
  imports Lifecycle
begin

text \<open>
  The reviewed removal of one installation (\<open>UninstallPlan\<close> and \<open>UpdatePlan\<close> of \<open>agent_artifacts/lifecycle/model.py\<close>,
  \<open>prepare_uninstall\<close> and \<open>finalize_uninstall\<close> of \<open>agent_artifacts/lifecycle/application.py\<close>) and the managed block
  that an installation writes (\<open>_memory_block\<close> of \<open>agent_artifacts/installation/application.py\<close>). The ports that read the
  manifest, the file system and the object references, and the one that applies a plan, are parameters.
\<close>

subsection \<open>Equality of recorded values\<close>

text \<open>Dataclass equality of records and manifests compares identity evidence as Python values.\<close>

definition effect_norm :: "effect_proof \<Rightarrow> effect_proof" where
  "effect_norm e = e\<lparr>ep_identity_evidence := json_norm (ep_identity_evidence e)\<rparr>"

definition record_norm :: "installation_record \<Rightarrow> installation_record" where
  "record_norm r = r\<lparr>ir_effects := map effect_norm (ir_effects r)\<rparr>"

definition record_same :: "installation_record \<Rightarrow> installation_record \<Rightarrow> bool" where
  "record_same a b \<longleftrightarrow> record_norm a = record_norm b"

definition state_same :: "install_state \<Rightarrow> install_state \<Rightarrow> bool" where
  "state_same a b \<longleftrightarrow> ist_schema_version a = ist_schema_version b \<and> map record_norm (ist_installations a) = map record_norm (ist_installations b)"

definition record_present :: "installation_record \<Rightarrow> install_state \<Rightarrow> bool" where
  "record_present r state = list_ex (\<lambda>x. record_same x r) (ist_installations state)"

subsection \<open>The uninstall plan\<close>

record uninstall_plan =
  up_record :: installation_record
  up_force :: bool
  up_operations :: "uninstall_operation list"
  up_state_path :: string
  up_state_lock_path :: string
  up_state_precondition :: path_snapshot
  up_replacement_state :: install_state
  up_replacement_state_digest :: object_digest
  up_object_store_paths :: object_store_paths
  up_reference_owner :: string
  up_reference_precondition :: reference_index
  up_reference_replacement :: reference_index
  up_terminal :: "lifecycle_status option"
  up_detail :: string
  up_review_digest :: object_digest
  up_teardown :: "scope_teardown option"

definition uninstall_operation_json :: "uninstall_operation \<Rightarrow> json_value" where
  "uninstall_operation_json o' =
     json_object
       [(''destination'', JStr (uo_absolute_destination o')),
        (''effect_kind'', JStr (ep_kind (uo_effect o'))),
        (''mutation'', JStr (uo_mutation o')),
        (''precondition'', path_snapshot_json (uo_precondition o')),
        (''replacement_digest'', JDigest (sha256_bytes (uo_replacement_content o')))]"

text \<open>Bytes that the model wrote from a text decode to it; \<open>decode_text\<close> stands for \<open>.decode("utf-8")\<close> on them.\<close>

definition decode_text :: "bytes \<Rightarrow> string" where
  "decode_text data = (case utf8_decode data of Text t \<Rightarrow> t | _ \<Rightarrow> [])"

definition record_text :: "installation_record \<Rightarrow> string" where
  "record_text r = decode_text (install_state_bytes \<lparr>ist_schema_version = 2, ist_installations = [r]\<rparr>)"

definition uninstall_review_value :: "uninstall_plan \<Rightarrow> json_value" where
  "uninstall_review_value p =
     json_object
       [(''action'', JStr ''uninstall''),
        (''force'', JBool (up_force p)),
        (''record'', JStr (record_text (up_record p))),
        (''state_path'', JStr (up_state_path p)),
        (''state_lock_path'', JStr (up_state_lock_path p)),
        (''state_precondition'', path_snapshot_json (up_state_precondition p)),
        (''replacement_state_digest'', JDigest (up_replacement_state_digest p)),
        (''reference_owner'', JStr (up_reference_owner p)),
        (''object_store_root'', JStr (osp_root (up_object_store_paths p))),
        (''references_file'', JStr (osp_references_file (up_object_store_paths p))),
        (''reference_precondition'', JStr (decode_text (reference_index_bytes (up_reference_precondition p)))),
        (''reference_replacement'', JStr (decode_text (reference_index_bytes (up_reference_replacement p)))),
        (''operations'', JArray (map uninstall_operation_json (up_operations p))),
        (''terminal'', JOpt (JStr \<circ> lifecycle_status_value) (up_terminal p)),
        (''detail'', JStr (up_detail p))]"

definition uninstall_review_digest :: "uninstall_plan \<Rightarrow> object_digest" where
  "uninstall_review_digest p = json_digest (uninstall_review_value p)"

definition UNREVIEWED_UNINSTALL :: object_digest where
  "UNREVIEWED_UNINSTALL = sha256_bytes (utf8_encode ''unreviewed-uninstall-plan'')"

definition without_record :: "installation_record \<Rightarrow> install_state \<Rightarrow> install_state py" where
  "without_record r state = mk_install_state 2 [x \<leftarrow> ist_installations state. ir_key x \<noteq> ir_key r]"

definition without_owner :: "string \<Rightarrow> reference_index \<Rightarrow> reference_index py" where
  "without_owner owner index =
     mk_reference_index 1 [x \<leftarrow> ri_references index. \<not> (ref_kind x = INSTALLED \<and> ref_owner x = owner)]"

text \<open>The manifest that the plan expects; \<open>None\<close> within when the snapshot is not one that holds the record.\<close>

definition expected_state :: "uninstall_plan \<Rightarrow> install_state option run" where
  "expected_state p =
     (if ps_kind (up_state_precondition p) \<noteq> ''file'' then run_return None
      else
        (case parse_install_state (ps_content (up_state_precondition p)) (up_state_path p) of
           None \<Rightarrow> None
         | Some (Err _) \<Rightarrow> run_return None
         | Some (Ok current) \<Rightarrow>
             if record_present (up_record p) current then Some (map_sum id Some (without_record (up_record p) current)) else run_return None))"

definition uninstall_unbound :: "uninstall_plan \<Rightarrow> install_state option \<Rightarrow> bool" where
  "uninstall_unbound p expected \<longleftrightarrow>
     \<not> isabs (up_state_path p)
     \<or> \<not> isabs (up_state_lock_path p)
     \<or> ps_path (up_state_precondition p) \<noteq> up_state_path p
     \<or> up_state_lock_path p \<noteq> posix_join (posix_dirname (up_state_path p)) ''state.lock''
     \<or> sha256_bytes (install_state_bytes (up_replacement_state p)) \<noteq> up_replacement_state_digest p
     \<or> (case expected of None \<Rightarrow> True | Some s \<Rightarrow> \<not> state_same s (up_replacement_state p))
     \<or> up_reference_owner p \<noteq> reference_owner (up_record p)
     \<or> up_terminal p \<notin> {None, Some LS_CONFLICT}
     \<or> (up_terminal p = None \<and> length (up_operations p) \<noteq> length (ir_effects (up_record p)))
     \<or> (up_terminal p \<noteq> None \<and> up_operations p \<noteq> [])
     \<or> \<not> destinations_are_scoped (ir_scope (up_record p)) (up_state_path p)
           (map (\<lambda>o'. (uo_absolute_destination o', ep_destination (uo_effect o'))) (up_operations p))
     \<or> (up_terminal p = None \<and> map (effect_norm \<circ> uo_effect) (up_operations p) \<noteq> map effect_norm (ir_effects (up_record p)))"

definition teardown_unbound :: "uninstall_plan \<Rightarrow> bool" where
  "teardown_unbound p \<longleftrightarrow>
     (case up_teardown p of
        None \<Rightarrow> False
      | Some t \<Rightarrow>
          up_terminal p \<noteq> None \<or> st_state_path t \<noteq> up_state_path p \<or> st_state_lock_path t \<noteq> up_state_lock_path p
          \<or> st_reclaims_state t \<noteq> (ist_installations (up_replacement_state p) = []))"

definition mk_uninstall_plan :: "uninstall_plan \<Rightarrow> uninstall_plan run" where
  "mk_uninstall_plan p =
     run_bind (expected_state p)
       (\<lambda>expected. Some
          (py_guard (uninstall_unbound p expected) ''uninstall plan is not exactly bound''
             (case without_owner (up_reference_owner p) (up_reference_precondition p) of
                Inl e \<Rightarrow> Inl e
              | Inr replacement \<Rightarrow>
                  py_guard (up_reference_replacement p \<noteq> replacement \<or> teardown_unbound p) ''uninstall plan is not exactly bound''
                    (py_guard (up_review_digest p \<notin> {UNREVIEWED_UNINSTALL, uninstall_review_digest p})
                       ''uninstall review digest does not bind the plan''
                       (Inr (if up_review_digest p = UNREVIEWED_UNINSTALL then p\<lparr>up_review_digest := uninstall_review_digest p\<rparr> else p))))))"


subsection \<open>Preparing and finalizing an uninstall\<close>

record lifecycle_read_ports =
  lrp_read_state :: "string \<Rightarrow> install_state option result"
  lrp_inspect_path :: "string \<Rightarrow> path_snapshot result"
  lrp_read_references :: "object_store_paths \<Rightarrow> reference_index result"

text \<open>The sidecar of a displaced file, observed beside its destination. \<open>replace\<close> checks the proof again.\<close>

definition observe_sidecar ::
  "lifecycle_read_ports \<Rightarrow> install_location \<Rightarrow> installation_record \<Rightarrow> effect_proof \<Rightarrow> path_snapshot option result run" where
  "observe_sidecar ports location r effect =
     (case ep_restores_from effect of
        None \<Rightarrow> run_return (Ok None)
      | Some sidecar \<Rightarrow>
          run_bind (Some (mk_effect_proof (effect\<lparr>ep_destination := sidecar, ep_restores_from := None\<rparr>)))
            (\<lambda>proof. run_bind (Some (absolute_effect_path proof (ir_scope r) location))
               (\<lambda>path. run_return (map_ok (lrp_inspect_path ports path) Some))))"

definition prepare_effect ::
  "lifecycle_read_ports \<Rightarrow> install_location \<Rightarrow> installation_record \<Rightarrow> bool \<Rightarrow> effect_proof \<Rightarrow> removal result run" where
  "prepare_effect ports location r force effect =
     (case absolute_effect_path effect (ir_scope r) location of
        Inl e \<Rightarrow> run_return (lifecycle_error LIFECYCLE_INVALID (py_message e))
      | Inr absolute \<Rightarrow>
          (case lrp_inspect_path ports absolute of
             Err ds \<Rightarrow> run_return (Err ds)
           | Ok observed \<Rightarrow>
               run_bind (observe_sidecar ports location r effect)
                 (\<lambda>sidecar. case sidecar of
                    Err ds \<Rightarrow> run_return (Err ds)
                  | Ok restore \<Rightarrow> run_bind (plan_removal r effect absolute observed force restore) (\<lambda>planned. run_return (Ok planned)))))"

fun prepare_effects ::
  "lifecycle_read_ports \<Rightarrow> install_location \<Rightarrow> installation_record \<Rightarrow> bool \<Rightarrow> effect_proof list \<Rightarrow> removal list result run" where
  "prepare_effects ports location r force [] = run_return (Ok [])"
| "prepare_effects ports location r force (e # es) =
     run_bind (prepare_effect ports location r force e)
       (\<lambda>first. case first of
          Err ds \<Rightarrow> run_return (Err ds)
        | Ok x \<Rightarrow> run_bind (prepare_effects ports location r force es) (\<lambda>rest. run_return (map_ok rest (Cons x))))"

definition planned_operations :: "removal list \<Rightarrow> uninstall_operation list" where
  "planned_operations removals = concat (map (\<lambda>x. case x of Planned o' \<Rightarrow> [o'] | Conflict _ \<Rightarrow> []) removals)"

definition planned_conflicts :: "removal list \<Rightarrow> string list" where
  "planned_conflicts removals = concat (map (\<lambda>x. case x of Planned _ \<Rightarrow> [] | Conflict c \<Rightarrow> [c]) removals)"

text \<open>\<open>except ValueError\<close> around the construction of the plan\<close>

definition reviewed_plan :: "uninstall_plan run \<Rightarrow> uninstall_plan result run" where
  "reviewed_plan plan =
     (case plan of
        None \<Rightarrow> None
      | Some (Inl (ValueError m)) \<Rightarrow> run_return (lifecycle_error LIFECYCLE_INVALID (''uninstall plan is invalid: '' @ m))
      | Some (Inl e) \<Rightarrow> Some (Inl e)
      | Some (Inr p) \<Rightarrow> run_return (Ok p))"

definition bind_uninstall ::
  "installation_record \<Rightarrow> install_state \<Rightarrow> install_location \<Rightarrow> object_store_paths \<Rightarrow> bool \<Rightarrow> managed_state_paths \<Rightarrow> path_snapshot
    \<Rightarrow> reference_index \<Rightarrow> reference_index \<Rightarrow> removal list \<Rightarrow> uninstall_plan result run" where
  "bind_uninstall r state location store_paths force paths snapshot references replacement_references removals =
     (let operations = planned_operations removals; conflicts = planned_conflicts removals in
      run_bind (Some (without_record r state))
        (\<lambda>replacement_state.
           run_bind (if conflicts \<noteq> [] then run_return None
                     else Some (map_sum id Some (scope_teardown_of r operations (isp_destination_path paths) (isp_lock_path paths) location
                                                   (ist_installations replacement_state = []))))
             (\<lambda>teardown. reviewed_plan (mk_uninstall_plan
                \<lparr>up_record = r, up_force = force, up_operations = (if conflicts \<noteq> [] then [] else operations),
                 up_state_path = isp_destination_path paths, up_state_lock_path = isp_lock_path paths, up_state_precondition = snapshot,
                 up_replacement_state = replacement_state,
                 up_replacement_state_digest = sha256_bytes (install_state_bytes replacement_state),
                 up_object_store_paths = store_paths, up_reference_owner = reference_owner r, up_reference_precondition = references,
                 up_reference_replacement = replacement_references,
                 up_terminal = (if conflicts \<noteq> [] then Some LS_CONFLICT else None), up_detail = join ''; '' conflicts,
                 up_review_digest = UNREVIEWED_UNINSTALL, up_teardown = teardown\<rparr>))))"

definition prepare_uninstall ::
  "installation_record \<Rightarrow> install_state \<Rightarrow> install_location \<Rightarrow> object_store_paths \<Rightarrow> lifecycle_read_ports \<Rightarrow> bool
    \<Rightarrow> uninstall_plan result run" where
  "prepare_uninstall r state location store_paths ports force =
     (if \<not> record_present r state then
        run_return (lifecycle_error LIFECYCLE_INVALID ''uninstall record is not present in installation state'')
      else
        run_bind (Some (install_state_paths (ir_scope r) (il_project_root location) (il_user_home location) (il_data_root location)))
          (\<lambda>paths.
             case (lrp_read_state ports (isp_destination_path paths), lrp_inspect_path ports (isp_destination_path paths)) of
               (Err ds, _) \<Rightarrow> run_return (Err ds)
             | (Ok _, Err ds) \<Rightarrow> run_return (Err ds)
             | (Ok loaded, Ok snapshot) \<Rightarrow>
                 if \<not> (case loaded of None \<Rightarrow> False | Some s \<Rightarrow> state_same s state) \<or> ps_kind snapshot \<noteq> ''file'' then
                   run_return (lifecycle_error LIFECYCLE_INVALID ''installation state changed before uninstall review'')
                 else
                   (case parse_install_state (ps_content snapshot) (isp_destination_path paths) of
                      None \<Rightarrow> None
                    | Some parsed \<Rightarrow>
                        if \<not> (case parsed of Err _ \<Rightarrow> False | Ok s \<Rightarrow> state_same s state) then
                          run_return (lifecycle_error LIFECYCLE_INVALID ''installation state snapshot does not match parsed state'')
                        else
                          (case lrp_read_references ports store_paths of
                             Err ds \<Rightarrow> run_return (Err ds)
                           | Ok references \<Rightarrow>
                               run_bind (Some (without_owner (reference_owner r) references))
                                 (\<lambda>replacement_references.
                                    run_bind (prepare_effects ports location r force (ir_effects r))
                                      (\<lambda>prepared. case prepared of
                                         Err ds \<Rightarrow> run_return (Err ds)
                                       | Ok removals \<Rightarrow>
                                           bind_uninstall r state location store_paths force paths snapshot references
                                             replacement_references removals))))))"

definition finalize_uninstall ::
  "uninstall_plan \<Rightarrow> object_digest \<Rightarrow> (uninstall_plan \<Rightarrow> lifecycle_item result) \<Rightarrow> lifecycle_item result py" where
  "finalize_uninstall plan reviewed_digest apply_uninstall_plan =
     (if reviewed_digest \<noteq> up_review_digest plan then
        Inr (lifecycle_error LIFECYCLE_REVIEW_MISMATCH ''uninstall digest does not match reviewed plan'')
      else
        (case up_terminal plan of
           Some terminal \<Rightarrow>
             (case key_from_record (up_record plan) of
                Inl e \<Rightarrow> Inl e
              | Inr key \<Rightarrow> map_sum id Ok (mk_lifecycle_item key terminal [] (up_detail plan)))
         | None \<Rightarrow> Inr (apply_uninstall_plan plan)))"

subsection \<open>The update plan\<close>

record update_plan =
  dp_record :: installation_record
  dp_prune :: bool
  dp_install_plan :: "install_plan option"
  dp_uninstall_plan :: "uninstall_plan option"
  dp_terminal :: "lifecycle_item option"
  dp_review_digest :: object_digest

definition update_review_value :: "update_plan \<Rightarrow> json_value" where
  "update_review_value p =
     json_object
       [(''action'', JStr ''update''),
        (''record'', JStr (record_text (dp_record p))),
        (''prune'', JBool (dp_prune p)),
        (''nested_review'',
         (case (dp_install_plan p, dp_uninstall_plan p, dp_terminal p) of
            (Some i, _, _) \<Rightarrow> JDigest (ip_review_digest i)
          | (None, Some u, _) \<Rightarrow> JDigest (up_review_digest u)
          | (None, None, Some t) \<Rightarrow> JStr (lifecycle_status_value (li_status t))
          | (None, None, None) \<Rightarrow> JStr ''invalid'')),
        (''detail'', JStr (case dp_terminal p of None \<Rightarrow> [] | Some t \<Rightarrow> li_detail t))]"

definition update_review_digest :: "update_plan \<Rightarrow> object_digest" where
  "update_review_digest p = json_digest (update_review_value p)"

definition UNREVIEWED_UPDATE :: object_digest where
  "UNREVIEWED_UPDATE = sha256_bytes (utf8_encode ''unreviewed-update-plan'')"

definition update_choices :: "update_plan \<Rightarrow> nat" where
  "update_choices p = of_bool (dp_install_plan p \<noteq> None) + of_bool (dp_uninstall_plan p \<noteq> None) + of_bool (dp_terminal p \<noteq> None)"

definition install_outside_record :: "installation_record \<Rightarrow> install_plan \<Rightarrow> bool" where
  "install_outside_record r i \<longleftrightarrow>
     (let q = ip_request i in
      coord_source (ip_coordinate i) \<noteq> coord_source (ir_coordinate r)
      \<or> coord_artifact (ip_coordinate i) \<noteq> coord_artifact (ir_coordinate r)
      \<or> iq_profile q \<noteq> ir_profile r
      \<or> iq_profile_version q \<noteq> ir_profile_version r
      \<or> iq_scope q \<noteq> ir_scope r
      \<or> iq_mode q \<noteq> ir_requested_mode r
      \<or> iq_identity q \<noteq> aev_identity (ir_artifact r)
      \<or> iq_source q \<noteq> Some (sev_alias (ir_source r))
      \<or> iq_memory_mode q \<noteq> (case ir_memory_mode r of None \<Rightarrow> ''prepend'' | Some m \<Rightarrow> if m = [] then ''prepend'' else m))"

text \<open>\<open>from_record\<close> raises for a record whose profile or scope is not one.\<close>

definition mk_update_plan :: "update_plan \<Rightarrow> update_plan py" where
  "mk_update_plan p =
     py_guard (update_choices p \<noteq> 1
         \<or> (dp_uninstall_plan p \<noteq> None \<and> \<not> dp_prune p)
         \<or> (case dp_install_plan p of None \<Rightarrow> False | Some i \<Rightarrow> install_outside_record (dp_record p) i)
         \<or> (case dp_uninstall_plan p of None \<Rightarrow> False | Some u \<Rightarrow> \<not> record_same (up_record u) (dp_record p)))
       ''update plan is not exactly bound''
       (py_check (case dp_terminal p of
             None \<Rightarrow> Inr ()
           | Some t \<Rightarrow>
               (case key_from_record (dp_record p) of
                  Inl e \<Rightarrow> Inl e
                | Inr key \<Rightarrow> py_guard (li_key t \<noteq> key) ''update plan is not exactly bound'' (Inr ())))
          (py_guard (dp_review_digest p \<notin> {UNREVIEWED_UPDATE, update_review_digest p}) ''update plan is not exactly bound''
             (Inr (if dp_review_digest p = UNREVIEWED_UPDATE then p\<lparr>dp_review_digest := update_review_digest p\<rparr> else p))))"

definition terminal_update :: "installation_record \<Rightarrow> lifecycle_status \<Rightarrow> string \<Rightarrow> bool \<Rightarrow> update_plan py" where
  "terminal_update r status detail prune =
     (case key_from_record r of
        Inl e \<Rightarrow> Inl e
      | Inr key \<Rightarrow>
          (case mk_lifecycle_item key status [] detail of
             Inl e \<Rightarrow> Inl e
           | Inr item \<Rightarrow>
               mk_update_plan \<lparr>dp_record = r, dp_prune = prune, dp_install_plan = None, dp_uninstall_plan = None, dp_terminal = Some item,
                               dp_review_digest = UNREVIEWED_UPDATE\<rparr>))"

definition retired_detail :: "installation_record \<Rightarrow> string list \<Rightarrow> string" where
  "retired_detail r retired =
     (let scope = (if ir_scope r = ''user'' then '' --scope user'' else ''''); coordinate = coordinate_str (ir_coordinate r) in
      ''update would orphan recorded effects at '' @ join '', '' retired
      @ ''; migrate transactionally with `aart marketplace uninstall '' @ coordinate @ '' --profile '' @ ir_profile r @ scope
      @ '' --yes`, then `aart marketplace install '' @ coordinate @ '' --profile '' @ ir_profile r @ scope @ '' --yes`'')"

definition retired_effects :: "installation_record \<Rightarrow> installation_record \<Rightarrow> string list" where
  "retired_effects r replacement =
     sort (map ep_destination [e \<leftarrow> ir_effects r. locator e \<notin> locator ` set (ir_effects replacement)])"

definition retired_effect_update :: "installation_record \<Rightarrow> install_plan \<Rightarrow> update_plan option py" where
  "retired_effect_update r install =
     (case List.find (\<lambda>x. ir_key x = ir_key r) (ist_installations (ip_replacement_state install)) of
        None \<Rightarrow> map_sum id Some (terminal_update r LS_FAILED ''replacement installation record is unavailable'' False)
      | Some replacement \<Rightarrow>
          if retired_effects r replacement = [] then Inr None
          else map_sum id Some (terminal_update r LS_CONFLICT (retired_detail r (retired_effects r replacement)) False))"

definition state_for_record ::
  "installation_record \<Rightarrow> install_location \<Rightarrow> (string \<Rightarrow> install_state option result) \<Rightarrow> install_state result py" where
  "state_for_record r location read_state =
     (case install_state_paths (ir_scope r) (il_project_root location) (il_user_home location) (il_data_root location) of
        Inl e \<Rightarrow> Inl e
      | Inr paths \<Rightarrow>
          Inr (case read_state (isp_destination_path paths) of
             Err ds \<Rightarrow> Err ds
           | Ok None \<Rightarrow> lifecycle_error LIFECYCLE_INVALID ''recorded installation state is unavailable''
           | Ok (Some s) \<Rightarrow>
               if record_present r s then Ok s else lifecycle_error LIFECYCLE_INVALID ''recorded installation state is unavailable''))"

definition payload_candidate :: "string \<Rightarrow> nat \<Rightarrow> string" where
  "payload_candidate target parts = (posix_dirname ^^ parts) target"

definition mutable_payload_roots :: "effect_proof list \<Rightarrow> string list" where
  "mutable_payload_roots effects =
     remdups (concat (map (\<lambda>e.
       case ep_link_target e of
         None \<Rightarrow> []
       | Some target \<Rightarrow>
           if ep_link_semantics e \<noteq> Some ''mutable-local'' then []
           else
             (let source_path = (case ep_source_path e of None \<Rightarrow> ''payload'' | Some p \<Rightarrow> if p = [] then ''payload'' else p) in
              if source_path = ''payload'' then [target]
              else if take 8 source_path = ''payload/'' then
                [payload_candidate target (length (split_on CHR ''/'' (drop 8 source_path)))]
              else [])) effects))"

definition mutable_payload_root :: "installation_record \<Rightarrow> string option" where
  "mutable_payload_root r =
     (if sev_kind (ir_source r) \<noteq> SOURCE_LOCAL then None
      else (case mutable_payload_roots (ir_effects r) of [x] \<Rightarrow> Some x | _ \<Rightarrow> None))"

subsection \<open>The managed block of an installation\<close>

definition managed_block :: "string \<Rightarrow> string \<Rightarrow> string" where
  "managed_block name body = begin_marker name @ [newline] @ rev (dropWhile (\<lambda>c. c = newline) (rev body)) @ [newline] @ end_marker name"

definition memory_block :: "string option \<Rightarrow> string \<Rightarrow> string \<Rightarrow> string \<Rightarrow> string" where
  "memory_block existing name body position =
     (let block = managed_block name body; base = or_empty existing in
      case str_find (begin_marker name) base of
        Some start \<Rightarrow>
          (case str_find (end_marker name) (drop start base) of
             Some offset \<Rightarrow>
               (let tail = drop (start + offset + length (end_marker name)) base;
                    tail = (if take 1 tail = [newline] then drop 1 tail else tail) in
                take start base @ block @ (if tail \<noteq> [] then newline # tail else [newline]))
           | None \<Rightarrow> take start base @ block @ [newline])
      | None \<Rightarrow>
          if base = [] then block @ [newline]
          else
            (let base = (if ends_with [newline] base then base else base @ [newline]) in
             if position = ''top'' then block @ [newline, newline] @ base else base @ [newline] @ block @ [newline]))"



subsection \<open>A managed block in a file\<close>

lemma str_find_first: "needle \<noteq> [] \<Longrightarrow> c \<notin> set needle \<Longrightarrow> \<not> sublist needle a \<Longrightarrow>
    str_find needle (a @ c # b) = map_option (\<lambda>i. length a + 1 + i) (str_find needle b)"
  using str_find_None[of needle a] by (cases "str_find needle b") (simp_all add: str_find_line)

lemma str_count_break: "needle \<noteq> [] \<Longrightarrow> c \<notin> set needle \<Longrightarrow> str_count needle (c # b) = str_count needle b"
  using str_count_line[of needle c "[]" b] by simp

lemma str_count_first: "needle \<noteq> [] \<Longrightarrow> c \<notin> set needle \<Longrightarrow> \<not> sublist needle a \<Longrightarrow>
    str_count needle (a @ c # b) = str_count needle b"
  using str_count_zero[of needle a] by (simp add: str_count_line)

text \<open>Whole lines before the block: nothing, or a text that ends its last line.\<close>

definition whole_lines :: "string \<Rightarrow> bool" where
  "whole_lines s \<longleftrightarrow> s = [] \<or> last s = newline"

lemma whole_lines_cases:
  assumes "whole_lines s"
  obtains "s = []" | p where "s = p @ [newline]"
  using assms by (metis append_butlast_last_id whole_lines_def)

lemma str_after_lines:
  assumes "needle \<noteq> []" "newline \<notin> set needle" "whole_lines pre" "\<not> sublist needle pre"
  shows "str_find needle (pre @ s) = map_option (\<lambda>i. length pre + i) (str_find needle s)"
    and "str_count needle (pre @ s) = str_count needle s"
proof -
  have "str_find needle (pre @ s) = map_option (\<lambda>i. length pre + i) (str_find needle s) \<and> str_count needle (pre @ s) = str_count needle s"
    using assms(3)
  proof (cases rule: whole_lines_cases)
    case (2 p)
    moreover have "\<not> sublist needle p"
      using assms(4) 2 by (simp add: sublist_append)
    ultimately show ?thesis
      using assms(1,2) by (cases "str_find needle s") (simp_all add: str_find_first str_count_first)
  qed (cases "str_find needle s"; simp)
  then show "str_find needle (pre @ s) = map_option (\<lambda>i. length pre + i) (str_find needle s)"
    and "str_count needle (pre @ s) = str_count needle s"
    by simp_all
qed

definition block_text :: "string \<Rightarrow> string \<Rightarrow> string \<Rightarrow> string \<Rightarrow> string \<Rightarrow> string" where
  "block_text b e pre body post = pre @ b @ newline # body @ newline # e @ newline # post"

definition marker_pair :: "string \<Rightarrow> string \<Rightarrow> bool" where
  "marker_pair b e \<longleftrightarrow> b \<noteq> [] \<and> e \<noteq> [] \<and> newline \<notin> set b \<and> newline \<notin> set e \<and> \<not> sublist b e \<and> \<not> sublist e b"

definition free_of :: "string \<Rightarrow> string \<Rightarrow> string \<Rightarrow> bool" where
  "free_of b e s \<longleftrightarrow> \<not> sublist b s \<and> \<not> sublist e s"

lemma block_text_search:
  assumes "marker_pair b e" "whole_lines pre" "free_of b e pre" "free_of b e body" "free_of b e post"
  shows "str_find b (block_text b e pre body post) = Some (length pre)"
    and "str_find e (block_text b e pre body post) = Some (length pre + length b + length body + 2)"
    and "str_find e (drop (length pre) (block_text b e pre body post)) = Some (length b + length body + 2)"
    and "str_count b (block_text b e pre body post) = 1"
    and "str_count e (block_text b e pre body post) = 1"
proof -
  have zero: "str_count x y = 0" if "x \<in> {b, e}" "y \<in> {body, post}" for x y
    using that assms str_count_zero by (auto simp: marker_pair_def free_of_def)
  have "str_count b e = 0" "str_count e b = 0"
    using assms str_count_zero by (auto simp: marker_pair_def)
  with assms zero show "str_count b (block_text b e pre body post) = 1" "str_count e (block_text b e pre body post) = 1"
    by (simp_all add: block_text_def marker_pair_def free_of_def str_after_lines str_count_break str_count_line str_count_self)
qed (use assms in \<open>simp_all add: block_text_def marker_pair_def free_of_def str_after_lines str_find_first str_find_self\<close>)

lemma block_text_current:
  assumes "marker_pair b e" "whole_lines pre" "free_of b e pre" "free_of b e body" "free_of b e post"
  shows "block_status b e (block_text b e pre body post) = LS_CURRENT"
  using block_text_search[OF assms] by (simp add: block_status_def)

definition tidied :: "string \<Rightarrow> string" where
  "tidied s =
     (let s = (if ends_with [newline, newline] s then butlast s else s) in if take 1 s = [newline] then drop 1 s else s)"

lemma block_text_stripped:
  assumes "marker_pair b e" "whole_lines pre" "free_of b e pre" "free_of b e body" "free_of b e post"
  shows "strip_block b e (block_text b e pre body post) = Some (tidied (pre @ post))"
proof -
  have "drop (length pre + (length b + length body + 2) + length e) (block_text b e pre body post) = newline # post"
    by (simp add: block_text_def)
  moreover have "take (length pre) (block_text b e pre body post) = pre"
    by (simp add: block_text_def)
  ultimately show ?thesis
    using block_text_search[OF assms] by (simp add: strip_block_def tidied_def Let_def)
qed


lemma markers_pair: "newline \<notin> set name \<Longrightarrow> marker_pair (begin_marker name) (end_marker name)"
proof -
  assume "newline \<notin> set name"
  moreover have "\<not> sublist x y" if "length x = length y" "x \<noteq> y" for x y :: string
    using that by (auto simp: sublist_def)
  ultimately show ?thesis
    by (auto simp: marker_pair_def begin_marker_def end_marker_def newline_def)
qed

definition line_ended :: "string \<Rightarrow> string" where
  "line_ended s = (if ends_with [newline] s then s else s @ [newline])"

definition trimmed_end :: "string \<Rightarrow> string" where
  "trimmed_end s = rev (dropWhile (\<lambda>c. c = newline) (rev s))"

lemma line_ended_last: "line_ended s \<noteq> [] \<and> last (line_ended s) = newline \<and> ends_with [newline] (line_ended s)"
  by (cases s rule: rev_cases) (auto simp: line_ended_def ends_with_def)

lemma trimmed_end_prefix: "prefix (trimmed_end s) s"
proof -
  have "s = rev (dropWhile (\<lambda>c. c = newline) (rev s)) @ rev (takeWhile (\<lambda>c. c = newline) (rev s))"
    by (simp add: rev_append[symmetric] del: rev_append)
  then show ?thesis
    unfolding trimmed_end_def prefix_def by blast
qed

lemma free_of_mono: "free_of b e s \<Longrightarrow> sublist t s \<Longrightarrow> free_of b e t"
  unfolding free_of_def by (meson sublist_order.order.trans)

lemma free_of_newline: "marker_pair b e \<Longrightarrow> free_of b e s \<Longrightarrow> free_of b e (s @ [newline])"
  using str_count_line[of b newline s "[]"] str_count_line[of e newline s "[]"]
  by (simp add: free_of_def marker_pair_def flip: str_count_zero)

lemma free_of_newline_front: "marker_pair b e \<Longrightarrow> free_of b e s \<Longrightarrow> free_of b e (newline # s)"
  by (simp add: free_of_def marker_pair_def str_count_break flip: str_count_zero)

lemma free_of_Nil: "marker_pair b e \<Longrightarrow> free_of b e []"
  by (simp add: free_of_def marker_pair_def)

lemma free_of_line_ended: "marker_pair b e \<Longrightarrow> free_of b e s \<Longrightarrow> free_of b e (line_ended s)"
  by (simp add: line_ended_def free_of_newline)

text \<open>Where the block goes in a file that does not have it.\<close>

definition lines_before :: "string \<Rightarrow> string \<Rightarrow> string" where
  "lines_before base position = (if base = [] \<or> position = ''top'' then [] else line_ended base @ [newline])"

definition lines_after :: "string \<Rightarrow> string \<Rightarrow> string" where
  "lines_after base position = (if base \<noteq> [] \<and> position = ''top'' then newline # line_ended base else [])"

lemma memory_block_fresh:
  assumes "free_of (begin_marker name) (end_marker name) base"
  shows "memory_block (Some base) name body position =
    block_text (begin_marker name) (end_marker name) (lines_before base position) (trimmed_end body) (lines_after base position)"
proof -
  have "str_find (begin_marker name) base = None"
    using assms by (simp add: str_find_None free_of_def begin_marker_def)
  then show ?thesis
    by (simp add: memory_block_def managed_block_def block_text_def lines_before_def lines_after_def trimmed_end_def line_ended_def
        or_empty_def Let_def)
qed

lemma memory_block_update:
  assumes "marker_pair (begin_marker name) (end_marker name)" "whole_lines pre" "free_of (begin_marker name) (end_marker name) pre"
    "free_of (begin_marker name) (end_marker name) body" "free_of (begin_marker name) (end_marker name) post"
  shows "memory_block (Some (block_text (begin_marker name) (end_marker name) pre body post)) name body' position =
    block_text (begin_marker name) (end_marker name) pre (trimmed_end body') post"
proof -
  let ?text = "block_text (begin_marker name) (end_marker name) pre body post"
  have "drop (length pre + (length (begin_marker name) + length body + 2) + length (end_marker name)) ?text = newline # post"
    and "take (length pre) ?text = pre"
    by (simp_all add: block_text_def)
  then show ?thesis
    using block_text_search[OF assms] unfolding memory_block_def
    by (simp add: managed_block_def trimmed_end_def or_empty_def Let_def) (simp add: block_text_def)
qed

lemma tidied_fresh:
  "tidied (lines_before base position @ lines_after base position) =
     (if base = [] then []
      else if position = ''top'' then
        (if ends_with [newline, newline] (newline # line_ended base) then butlast (line_ended base) else line_ended base)
      else (if take 1 (line_ended base) = [newline] then drop 1 (line_ended base) else line_ended base))"
proof -
  obtain s where s: "line_ended base = s @ [newline]"
    using line_ended_last[of base] by (metis append_butlast_last_id)
  show ?thesis
    by (auto simp: tidied_def lines_before_def lines_after_def s ends_with_def Let_def butlast_append)
qed

text \<open>
  C16. The managed block of a memory artifact through its life. Installing it into a file that does not have it gives a file whose
  block is reported as current; installing again replaces the body in place and leaves the rest alone; uninstalling gives back what
  the file held, with its last line ended, less one of two line breaks at its end when the block was put at the top, and less a line
  break at its start when it was put at the bottom. A file that was absent or empty becomes empty, which the plan removes.
\<close>

theorem memory_block_lifecycle:
  assumes "newline \<notin> set name"
    and "free_of (begin_marker name) (end_marker name) base" "free_of (begin_marker name) (end_marker name) body"
  shows "block_status (begin_marker name) (end_marker name) (memory_block (Some base) name body position) = LS_CURRENT
    \<and> memory_block (Some (memory_block (Some base) name body position)) name body' position' = memory_block (Some base) name body' position
    \<and> strip_block (begin_marker name) (end_marker name) (memory_block (Some base) name body position) =
        Some (if base = [] then []
              else if position = ''top'' then
                (if ends_with [newline, newline] (newline # line_ended base) then butlast (line_ended base) else line_ended base)
              else (if take 1 (line_ended base) = [newline] then drop 1 (line_ended base) else line_ended base))"
proof -
  note pair = markers_pair[OF assms(1)]
  have body: "free_of (begin_marker name) (end_marker name) (trimmed_end body)"
    using assms(3) trimmed_end_prefix by (blast intro: free_of_mono prefix_imp_sublist)
  have "whole_lines (lines_before base position)" "free_of (begin_marker name) (end_marker name) (lines_before base position)"
    "free_of (begin_marker name) (end_marker name) (lines_after base position)"
    using pair assms(2)
    by (simp_all add: lines_before_def lines_after_def whole_lines_def free_of_Nil free_of_newline free_of_newline_front free_of_line_ended)
  note block = pair this(1,2) body this(3)
  show ?thesis
    using block_text_current[OF block] block_text_stripped[OF block] memory_block_update[OF block]
    by (simp add: memory_block_fresh[OF assms(2)] tidied_fresh)
qed

theorem memory_block_lifecycle_witness:
  "strip_block (begin_marker ''style'') (end_marker ''style'')
     (memory_block (Some (''notes'' @ [newline, newline])) ''style'' ''rules'' ''top'') = Some (''notes'' @ [newline])
   \<and> strip_block (begin_marker ''style'') (end_marker ''style'')
     (memory_block (Some (newline # ''notes'')) ''style'' ''rules'' ''bottom'') = Some (''notes'' @ [newline])"
proof -
  have "newline \<notin> set ''style''"
    by (simp add: newline_def)
  moreover have "free_of (begin_marker ''style'') (end_marker ''style'') s"
    if "s \<in> {''rules'', ''notes'' @ [newline, newline], newline # ''notes''}" for s
    using that by (auto simp: free_of_def begin_marker_def end_marker_def dest: sublist_length_le)
  ultimately show ?thesis
    using memory_block_lifecycle[of "''style''" "''notes'' @ [newline, newline]" "''rules''" "''top''"]
      memory_block_lifecycle[of "''style''" "newline # ''notes''" "''rules''" "''bottom''"]
    by (simp add: ends_with_def line_ended_def newline_def)
qed


subsection \<open>All or nothing\<close>

lemma run_bind_return: "run_bind x f = run_return v \<longleftrightarrow> (\<exists>y. x = run_return y \<and> f y = run_return v)"
  by (auto simp: run_bind_def split: option.splits sum.splits)

lemma result_case_return:
  "(case y of Err ds \<Rightarrow> run_return (Err ds) | Ok x \<Rightarrow> f x) = run_return (Ok v) \<longleftrightarrow> (\<exists>x. y = Ok x \<and> f x = run_return (Ok v))"
  "(case y of Ok x \<Rightarrow> f x | Err ds \<Rightarrow> run_return (Err ds)) = run_return (Ok v) \<longleftrightarrow> (\<exists>x. y = Ok x \<and> f x = run_return (Ok v))"
  by (cases y; simp)+

lemma reviewed_plan_return: "reviewed_plan x = run_return (Ok p) \<longleftrightarrow> x = run_return p"
  by (auto simp: reviewed_plan_def lifecycle_error_def mk_err_def split: option.splits sum.splits py_error.splits)

lemmas run_returns = run_bind_return result_case_return reviewed_plan_return map_ok_Ok

lemma prepare_effects_each:
  "prepare_effects ports location r force es = run_return (Ok removals) \<longleftrightarrow>
     list_all2 (\<lambda>e x. prepare_effect ports location r force e = run_return (Ok x)) es removals"
  by (induction es arbitrary: removals)
    (auto simp: run_returns list_all2_Cons1)

lemma planned_length: "planned_conflicts removals = [] \<Longrightarrow> length (planned_operations removals) = length removals"
  by (induction removals) (auto simp: planned_conflicts_def planned_operations_def split: removal.splits)

lemma review_digest_irrelevant: "uninstall_review_digest (p\<lparr>up_review_digest := d\<rparr>) = uninstall_review_digest p"
  by (simp add: uninstall_review_digest_def uninstall_review_value_def)

text \<open>What the review does not show: plans that differ in the directories they tear down have one digest.\<close>

lemma review_omits_teardown: "uninstall_review_digest (p\<lparr>up_teardown := t\<rparr>) = uninstall_review_digest p"
  by (simp add: uninstall_review_digest_def uninstall_review_value_def)

lemma mk_uninstall_plan_reviewed:
  assumes "mk_uninstall_plan p = run_return q" "up_review_digest p = UNREVIEWED_UNINSTALL"
  shows "q = p\<lparr>up_review_digest := uninstall_review_digest p\<rparr>"
  using assms by (auto simp: mk_uninstall_plan_def run_bind_return py_guard_def split: if_splits sum.splits)

lemma bind_uninstall_plan:
  assumes "bind_uninstall r state location store_paths force paths snapshot references rewritten removals = run_return (Ok plan)"
  obtains rest teardown where "without_record r state = Inr rest" "planned_conflicts removals \<noteq> [] \<Longrightarrow> teardown = None"
    "up_record plan = r" "up_replacement_state plan = rest" "up_reference_precondition plan = references"
    "up_reference_replacement plan = rewritten" "up_review_digest plan = uninstall_review_digest plan" "up_teardown plan = teardown"
    "up_operations plan = (if planned_conflicts removals \<noteq> [] then [] else planned_operations removals)"
    "up_terminal plan = (if planned_conflicts removals \<noteq> [] then Some LS_CONFLICT else None)"
proof -
  let ?plan = "\<lambda>rest teardown. \<lparr>up_record = r, up_force = force,
                 up_operations = (if planned_conflicts removals \<noteq> [] then [] else planned_operations removals),
                 up_state_path = isp_destination_path paths, up_state_lock_path = isp_lock_path paths, up_state_precondition = snapshot,
                 up_replacement_state = rest,
                 up_replacement_state_digest = sha256_bytes (install_state_bytes rest),
                 up_object_store_paths = store_paths, up_reference_owner = reference_owner r, up_reference_precondition = references,
                 up_reference_replacement = rewritten,
                 up_terminal = (if planned_conflicts removals \<noteq> [] then Some LS_CONFLICT else None),
                 up_detail = join ''; '' (planned_conflicts removals),
                 up_review_digest = UNREVIEWED_UNINSTALL, up_teardown = teardown\<rparr>"
  obtain rest teardown where p: "without_record r state = Inr rest"
    "(if planned_conflicts removals \<noteq> [] then run_return None
      else Some (map_sum id Some (scope_teardown_of r (planned_operations removals) (isp_destination_path paths) (isp_lock_path paths)
             location (ist_installations rest = [])))) = run_return teardown"
    "mk_uninstall_plan (?plan rest teardown) = run_return plan"
    using assms unfolding bind_uninstall_def Let_def run_returns by blast
  define p' where "p' = ?plan rest teardown"
  have plan: "plan = p'\<lparr>up_review_digest := uninstall_review_digest p'\<rparr>"
    using mk_uninstall_plan_reviewed[OF p(3)] by (simp add: p'_def)
  moreover have "up_review_digest plan = uninstall_review_digest plan"
    unfolding plan review_digest_irrelevant by simp
  ultimately show thesis
    using p(1,2) by (intro that[of rest teardown]) (auto simp: p'_def)
qed

lemma prepare_uninstall_steps:
  assumes "prepare_uninstall r state location store_paths ports force = run_return (Ok plan)"
  obtains paths snapshot current references rewritten removals where "record_present r state"
    "parse_install_state (ps_content snapshot) (isp_destination_path paths) = Some (Ok current)" "state_same current state"
    "lrp_read_references ports store_paths = Ok references" "without_owner (reference_owner r) references = Inr rewritten"
    "prepare_effects ports location r force (ir_effects r) = run_return (Ok removals)"
    "bind_uninstall r state location store_paths force paths snapshot references rewritten removals = run_return (Ok plan)"
  using assms
  by (auto simp: prepare_uninstall_def run_returns lifecycle_error_def mk_err_def split: if_split_asm option.split_asm result.split_asm
      intro: that)

text \<open>What leaves the manifest: of the records of a manifest that was read, no two share a key.\<close>

lemma ir_key_norm: "ir_key (record_norm x) = ir_key x"
  by (simp add: ir_key_def record_norm_def)

lemma state_same_keys: "state_same a b \<Longrightarrow> map ir_key (ist_installations a) = map ir_key (ist_installations b)"
  by (metis (no_types, lifting) state_same_def ir_key_norm map_map o_apply map_eq_conv)

lemma mset_filter_key:
  assumes "distinct (map f xs)" "x \<in> set xs"
  shows "mset xs = add_mset x (mset [y \<leftarrow> xs. f y \<noteq> f x])"
  using assms
proof (induction xs)
  case (Cons a xs)
  show ?case
  proof (cases "x = a")
    case True
    then have "[y \<leftarrow> xs. f y \<noteq> f x] = xs" using Cons.prems(1) by (intro filter_True) (auto simp: image_iff)
    then show ?thesis using True by simp
  next
    case False
    then have "f a \<noteq> f x" using Cons.prems by force
    then show ?thesis using Cons False by simp
  qed
qed simp

lemma without_record_exact:
  assumes "without_record r state = Inr rest" "distinct (map ir_key (ist_installations state))" "record_present r state"
  shows "ist_schema_version rest = 2 \<and> sorted (map ir_key (ist_installations rest)) \<and> ir_key r \<notin> ir_key ` set (ist_installations rest)
    \<and> (\<exists>x. record_same x r \<and> mset (ist_installations state) = add_mset x (mset (ist_installations rest)))"
proof -
  have rest: "rest = \<lparr>ist_schema_version = 2, ist_installations = sort_key ir_key [x \<leftarrow> ist_installations state. ir_key x \<noteq> ir_key r]\<rparr>"
    using assms(1) by (auto simp: without_record_def mk_install_state_def Let_def py_ok simp del: distinct_map)
  obtain x where x: "x \<in> set (ist_installations state)" "record_same x r"
    using assms(3) by (auto simp: record_present_def list_ex_iff)
  then have "ir_key x = ir_key r" by (metis record_same_def ir_key_norm)
  then show ?thesis
    using mset_filter_key[OF assms(2) x(1)] x(2) by (auto simp: rest)
qed

lemma without_owner_exact:
  assumes "without_owner owner index = Inr rest"
  shows "ri_schema_version rest = 1 \<and> sorted (ri_references rest)
    \<and> mset (ri_references rest) = filter_mset (\<lambda>x. \<not> (ref_kind x = INSTALLED \<and> ref_owner x = owner)) (mset (ri_references index))"
  using assms by (auto simp: without_owner_def mk_reference_index_def Let_def py_ok)

text \<open>
  C7. An uninstall is all or nothing. A prepared plan is about the given record: the manifest that it leaves is the given one less exactly that
  record (compared as Python compares records), with no record of the same key and in the order of the keys; the references that it leaves are those
  of the index that was read less exactly the installed references of the record's owner, in order; and its review digest is the digest
  of what it shows. If planning some effect
  was refused the plan is a conflict, holds no operation and no teardown, and finalizing it never reaches the port that applies plans;
  otherwise it holds one operation for each effect, and it is applied exactly when the reviewed digest is that of the plan.
\<close>

theorem uninstall_all_or_nothing:
  assumes "prepare_uninstall r state location store_paths ports force = run_return (Ok plan)"
  shows "up_record plan = r
    \<and> ist_schema_version (up_replacement_state plan) = 2 \<and> sorted (map ir_key (ist_installations (up_replacement_state plan)))
    \<and> ir_key r \<notin> ir_key ` set (ist_installations (up_replacement_state plan))
    \<and> (\<exists>x. record_same x r \<and> mset (ist_installations state) = add_mset x (mset (ist_installations (up_replacement_state plan))))
    \<and> lrp_read_references ports store_paths = Ok (up_reference_precondition plan)
    \<and> ri_schema_version (up_reference_replacement plan) = 1 \<and> sorted (ri_references (up_reference_replacement plan))
    \<and> mset (ri_references (up_reference_replacement plan)) =
        filter_mset (\<lambda>x. \<not> (ref_kind x = INSTALLED \<and> ref_owner x = reference_owner r)) (mset (ri_references (up_reference_precondition plan)))
    \<and> up_review_digest plan = uninstall_review_digest plan
    \<and> (\<exists>removals. list_all2 (\<lambda>e x. prepare_effect ports location r force e = run_return (Ok x)) (ir_effects r) removals
        \<and> (if planned_conflicts removals = []
           then up_operations plan = planned_operations removals \<and> length (up_operations plan) = length (ir_effects r)
             \<and> finalize_uninstall plan (up_review_digest plan) apply_plan = Inr (apply_plan plan)
           else up_terminal plan = Some LS_CONFLICT \<and> up_operations plan = [] \<and> up_teardown plan = None
             \<and> finalize_uninstall plan reviewed apply_plan = finalize_uninstall plan reviewed other_apply))
    \<and> (reviewed \<noteq> up_review_digest plan \<longrightarrow>
         finalize_uninstall plan reviewed apply_plan
           = Inr (lifecycle_error LIFECYCLE_REVIEW_MISMATCH ''uninstall digest does not match reviewed plan''))"
proof -
  obtain paths snapshot current references rewritten removals where steps: "record_present r state"
    "parse_install_state (ps_content snapshot) (isp_destination_path paths) = Some (Ok current)" "state_same current state"
    "lrp_read_references ports store_paths = Ok references" "without_owner (reference_owner r) references = Inr rewritten"
    "prepare_effects ports location r force (ir_effects r) = run_return (Ok removals)"
    "bind_uninstall r state location store_paths force paths snapshot references rewritten removals = run_return (Ok plan)"
    using assms by (rule prepare_uninstall_steps)
  have "distinct (map ir_key (ist_installations current))"
    using parse_install_state_records[OF steps(2)] mk_install_state_distinct by blast
  then have distinct: "distinct (map ir_key (ist_installations state))"
    using state_same_keys[OF steps(3)] by metis
  have each: "list_all2 (\<lambda>e x. prepare_effect ports location r force e = run_return (Ok x)) (ir_effects r) removals"
    using steps(6) by (simp add: prepare_effects_each)
  then have "length removals = length (ir_effects r)"
    by (simp add: list_all2_lengthD)
  with each steps(1,4) planned_length[of removals] without_owner_exact[OF steps(5)] show ?thesis
    by (cases rule: bind_uninstall_plan[OF steps(7)])
      (drule without_record_exact[OF _ distinct steps(1)], auto simp: finalize_uninstall_def intro!: exI[of _ removals])
qed


definition sample_location :: install_location where
  "sample_location = \<lparr>il_project_root = ''/w'', il_user_home = ''/home/u'', il_data_root = ''/home/u/data''\<rparr>"

definition sample_missing :: "string \<Rightarrow> path_snapshot" where
  "sample_missing path = \<lparr>ps_path = path, ps_kind = ''absent'', ps_digest = None, ps_content = [], ps_executable = False,
     ps_members = [], ps_link_target = None, ps_target_exists = None\<rparr>"

definition sample_manifest :: path_snapshot where
  "sample_manifest = \<lparr>ps_path = ''/w/.agent-artifacts/manifest.json'', ps_kind = ''file'', ps_digest = None,
     ps_content = install_state_bytes (sample_state ''payload/style.md''), ps_executable = False, ps_members = [], ps_link_target = None,
     ps_target_exists = None\<rparr>"

text \<open>The index of the sample: a reference of the installation and one that another owner retains.\<close>

definition sample_references :: "object_reference list \<Rightarrow> reference_index" where
  "sample_references owned = \<lparr>ri_schema_version = 1, ri_references = owned @ [ObjectReference RETAINED ''team'' sample_digest]\<rparr>"

definition owned_reference :: object_reference where
  "owned_reference = ObjectReference INSTALLED ''project/team/guideline/style/claude'' sample_digest"

definition sample_ports :: lifecycle_read_ports where
  "sample_ports =
     \<lparr>lrp_read_state = (\<lambda>_. Ok (Some (sample_state ''payload/style.md''))),
      lrp_inspect_path = (\<lambda>path. Ok (if path = ''/w/.agent-artifacts/manifest.json'' then sample_manifest else sample_missing path)),
      lrp_read_references = (\<lambda>_. Ok (sample_references [owned_reference]))\<rparr>"

lemma sample_paths:
  "install_state_paths ''project'' ''/w'' ''/home/u'' ''/home/u/data'' = Inr
     \<lparr>isp_scope = ''project'', isp_destination_path = ''/w/.agent-artifacts/manifest.json'', isp_lock_path = ''/w/.agent-artifacts/state.lock''\<rparr>"
  "absolute_effect_path (sample_effect ''payload/style.md'') ''project'' sample_location = Inr ''/w/.claude/rules/style.md''"
  "normalized_absolute ''/w/.claude/rules/style.md''"
  by code_simp+

lemma sample_prepared:
  "prepare_effects sample_ports sample_location (sample_record ''payload/style.md'') False [sample_effect ''payload/style.md''] = run_return (Ok [Planned
     \<lparr>uo_effect = sample_effect ''payload/style.md'', uo_absolute_destination = ''/w/.claude/rules/style.md'',
      uo_precondition = sample_missing ''/w/.claude/rules/style.md'', uo_mutation = ''none'', uo_replacement_content = []\<rparr>])"
proof -
  have "ir_scope (sample_record ''payload/style.md'') = ''project''" "ep_kind (sample_effect ''payload/style.md'') = ''write-file''"
    "ep_restores_from (sample_effect ''payload/style.md'') = None"
    by (simp_all add: sample_record_def sample_effect_def)
  then have "prepare_effect sample_ports sample_location (sample_record ''payload/style.md'') False (sample_effect ''payload/style.md'') = run_return (Ok (Planned
     \<lparr>uo_effect = sample_effect ''payload/style.md'', uo_absolute_destination = ''/w/.claude/rules/style.md'',
      uo_precondition = sample_missing ''/w/.claude/rules/style.md'', uo_mutation = ''none'', uo_replacement_content = []\<rparr>))"
    by (simp add: prepare_effect_def sample_paths sample_ports_def observe_sidecar_def run_bind_def plan_removal_def plan_copy_removal_def
        plan_operation_defined sample_missing_def is_link_def)
  then show ?thesis
    by (simp add: run_bind_def map_ok_def)
qed


definition sample_store_paths :: object_store_paths where
  "sample_store_paths = \<lparr>osp_root = ''/s'', osp_objects = ''/s/objects'', osp_state = ''/s/state'', osp_references_file = ''/s/state/references.json'',
     osp_lock_directory = ''/s/lock'', osp_temporary_root = ''/s/tmp'', osp_quarantine = ''/s/quarantine''\<rparr>"

theorem uninstall_all_or_nothing_witness:
  "\<exists>plan. prepare_uninstall (sample_record ''payload/style.md'') (sample_state ''payload/style.md'') sample_location sample_store_paths sample_ports False
       = run_return (Ok plan)
     \<and> ist_installations (up_replacement_state plan) = []
     \<and> ri_references (up_reference_replacement plan) = [ObjectReference RETAINED ''team'' sample_digest]"
proof -
  let ?r = "sample_record ''payload/style.md''" and ?s = "sample_state ''payload/style.md''"
  have r: "ir_scope ?r = ''project''" "ir_effects ?r = [sample_effect ''payload/style.md'']" "ist_installations ?s = [?r]"
    "ep_destination (sample_effect ''payload/style.md'') = ''.claude/rules/style.md''"
    by (simp_all add: sample_record_def sample_state_def sample_effect_def)
  have rest: "without_record ?r ?s = Inr \<lparr>ist_schema_version = 2, ist_installations = []\<rparr>"
    by (simp add: without_record_def mk_install_state_def py_guard_def r effect_owners_def)
  have owner: "reference_owner ?r = ''project/team/guideline/style/claude''"
    by (simp add: reference_owner_def sample_record_def)
  have refs: "without_owner (reference_owner ?r) (sample_references [owned_reference]) = Inr (sample_references [])"
    by (simp add: without_owner_def mk_reference_index_def py_guard_def owner sample_references_def owned_reference_def MAX_REFERENCES_def)
  have paths: "posix_dirname ''/w/.agent-artifacts/manifest.json'' = ''/w/.agent-artifacts''"
    "posix_dirname ''/w/.agent-artifacts'' = ''/w''"
    "posix_dirname ''/w/.agent-artifacts/state.lock'' = ''/w/.agent-artifacts''"
    "posix_join ''/w/.agent-artifacts'' ''state.lock'' = ''/w/.agent-artifacts/state.lock''"
    "posix_join ''/w'' ''.claude/rules/style.md'' = ''/w/.claude/rules/style.md''"
    "normalized_absolute ''/w/.agent-artifacts/manifest.json''" "normalized_absolute ''/w/.agent-artifacts/state.lock''"
    "normalized_absolute ''/w/.agent-artifacts''" "isabs ''/w/.agent-artifacts/manifest.json''" "isabs ''/w/.agent-artifacts/state.lock''"
    by code_simp+
  have "\<exists>plan. bind_uninstall ?r ?s sample_location sample_store_paths False
      \<lparr>isp_scope = ''project'', isp_destination_path = ''/w/.agent-artifacts/manifest.json'', isp_lock_path = ''/w/.agent-artifacts/state.lock''\<rparr>
      sample_manifest (sample_references [owned_reference]) (sample_references [])
      [Planned \<lparr>uo_effect = sample_effect ''payload/style.md'', uo_absolute_destination = ''/w/.claude/rules/style.md'',
         uo_precondition = sample_missing ''/w/.claude/rules/style.md'', uo_mutation = ''none'', uo_replacement_content = []\<rparr>] = run_return (Ok plan)"
    by (simp add: bind_uninstall_def Let_def planned_operations_def planned_conflicts_def run_bind_def rest refs reviewed_plan_return
        scope_teardown_of_def mk_scope_teardown_def py_guard_def paths mk_uninstall_plan_def expected_state_def sample_manifest_def
        sample_state_read uninstall_unbound_def teardown_unbound_def destinations_are_scoped_def record_present_def record_same_def r
        state_same_def sample_location_def reviewed_plan_def)
  moreover have "record_present ?r ?s" "state_same ?s ?s"
    by (simp_all add: record_present_def record_same_def state_same_def r)
  moreover have "install_state_paths (ir_scope ?r) (il_project_root sample_location) (il_user_home sample_location) (il_data_root sample_location)
      = Inr \<lparr>isp_scope = ''project'', isp_destination_path = ''/w/.agent-artifacts/manifest.json'',
             isp_lock_path = ''/w/.agent-artifacts/state.lock''\<rparr>"
    by (simp add: sample_location_def r sample_paths)
  moreover have "lrp_read_state sample_ports path = Ok (Some ?s)"
    "lrp_inspect_path sample_ports ''/w/.agent-artifacts/manifest.json'' = Ok sample_manifest"
    "lrp_read_references sample_ports sample_store_paths = Ok (sample_references [owned_reference])" for path
    by (simp_all add: sample_ports_def)
  moreover have "ps_kind sample_manifest = ''file''" "ps_content sample_manifest = install_state_bytes ?s"
    by (simp_all add: sample_manifest_def)
  ultimately have "\<exists>plan. prepare_uninstall ?r ?s sample_location sample_store_paths sample_ports False = run_return (Ok plan)"
    using sample_prepared by (simp add: prepare_uninstall_def run_bind_def sample_state_read refs r(2))
  then obtain plan where plan: "prepare_uninstall ?r ?s sample_location sample_store_paths sample_ports False = run_return (Ok plan)" ..
  have left: "lrp_read_references sample_ports sample_store_paths = Ok (up_reference_precondition plan)"
    "mset (ri_references (up_reference_replacement plan)) =
       filter_mset (\<lambda>x. \<not> (ref_kind x = INSTALLED \<and> ref_owner x = reference_owner ?r)) (mset (ri_references (up_reference_precondition plan)))"
    "\<exists>x. mset (ist_installations ?s) = add_mset x (mset (ist_installations (up_replacement_state plan)))"
    using uninstall_all_or_nothing[OF plan] by blast+
  have "up_reference_precondition plan = sample_references [owned_reference]"
    using left(1) by (simp add: sample_ports_def)
  with left(2) have "mset (ri_references (up_reference_replacement plan)) = {#ObjectReference RETAINED ''team'' sample_digest#}"
    by (simp add: sample_references_def owned_reference_def owner)
  moreover have "mset (ist_installations (up_replacement_state plan)) = {#}"
    using left(3) by (auto simp: r)
  ultimately show ?thesis using plan by simp
qed

end
