(* ===== verification/NativeSchema.thy ===== *)
theory NativeSchema
  imports InstallSchema
begin

text \<open>
  The readers and writers of the native source protocol (\<open>agent_artifacts/protocol/native_schema.py\<close>): source, artifact and
  collection manifests and the provenance record. A reader returns \<open>None\<close> for a document with a character beyond U+00FF. The
  field sets given to \<open>validate_object_fields\<close> are disjoint, so that it never raises here.
\<close>

definition ARTIFACT_INVALID :: diagnostic_code where "ARTIFACT_INVALID = ''artifact-invalid''"
definition PROVENANCE_INVALID :: diagnostic_code where "PROVENANCE_INVALID = ''provenance-invalid''"
definition COLLECTION_INVALID :: diagnostic_code where "COLLECTION_INVALID = ''collection-invalid''"

abbreviation native_location :: "string \<Rightarrow> string option \<Rightarrow> source_location" where
  "native_location \<equiv> state_location"

definition native_error :: "diagnostic_code \<Rightarrow> string \<Rightarrow> string \<Rightarrow> 'a result" where
  "native_error code message path = mk_err [mk_diagnostic code ERROR message (Some (native_location path None)) [] []]"

subsection \<open>Values of a document\<close>

definition native_object :: "json_value \<Rightarrow> diagnostic_code \<Rightarrow> string \<Rightarrow> string \<Rightarrow> json_entries result" where
  "native_object value code label path =
     (case value of JObject es \<Rightarrow> Ok es | _ \<Rightarrow> native_error code (label @ '' must be an object'') path)"

definition native_fields :: "json_entries \<Rightarrow> string list \<Rightarrow> string list \<Rightarrow> bool \<Rightarrow> string \<Rightarrow> json_entries result" where
  "native_fields es required optional allow_extensions path =
     (case validate_object_fields es required optional allow_extensions (Some (native_location path None)) of Inr r \<Rightarrow> r | Inl _ \<Rightarrow> Ok es)"

definition native_document :: "bytes \<Rightarrow> diagnostic_code \<Rightarrow> string \<Rightarrow> json_entries result option" where
  "native_document data code path =
     map_option (\<lambda>parsed. bind_result parsed (\<lambda>value. native_object value code ''protocol document'' path))
       (parse_json data (Some (native_location path None)) MAX_DEPTH MAX_STRING_LENGTH)"

definition native_string :: "json_value \<Rightarrow> diagnostic_code \<Rightarrow> string \<Rightarrow> string \<Rightarrow> bool \<Rightarrow> string result" where
  "native_string value code label path single_line =
     (case value of
        JStr s \<Rightarrow>
          if s = [] \<or> s \<noteq> strip s then native_error code (label @ '' must be non-empty without surrounding whitespace'') path
          else if single_line \<and> (CHR 0x0A \<in> set s \<or> CHR 0x0D \<in> set s) then native_error code (label @ '' must be one line'') path
          else Ok s
      | _ \<Rightarrow> native_error code (label @ '' must be a string'') path)"

definition native_integer :: "json_value \<Rightarrow> diagnostic_code \<Rightarrow> string \<Rightarrow> string \<Rightarrow> int result" where
  "native_integer value code label path =
     (case value of JInt n \<Rightarrow> Ok n | _ \<Rightarrow> native_error code (label @ '' must be an integer'') path)"

text \<open>The loop over the values of an array: the first error ends it.\<close>

fun read_each :: "('b \<Rightarrow> 'a result) \<Rightarrow> 'b list \<Rightarrow> 'a list result" where
  "read_each reader [] = Ok []"
| "read_each reader (v # vs) = bind_result (reader v) (\<lambda>x. map_ok (read_each reader vs) (Cons x))"

lemma list_all2_set2_witness: "list_all2 P xs ys \<Longrightarrow> y \<in> set ys \<Longrightarrow> \<exists>x\<in>set xs. P x y"
  by (induction rule: list_all2_induct) auto

lemma list_all2_set1_witness: "list_all2 P xs ys \<Longrightarrow> x \<in> set xs \<Longrightarrow> \<exists>y\<in>set ys. P x y"
  by (induction rule: list_all2_induct) auto

definition native_strings :: "json_value \<Rightarrow> diagnostic_code \<Rightarrow> string \<Rightarrow> string \<Rightarrow> bool \<Rightarrow> string list result" where
  "native_strings value code label path allow_empty =
     (case value of
        JArray items \<Rightarrow>
          if \<not> allow_empty \<and> items = [] then native_error code (label @ '' must not be empty'') path
          else map_ok (read_each (\<lambda>item. native_string item code (label @ '' item'') path True) items) sorted_set
      | _ \<Rightarrow> native_error code (label @ '' must be an array'') path)"

definition native_bound :: "json_entries \<Rightarrow> string \<Rightarrow> diagnostic_code \<Rightarrow> string \<Rightarrow> semver option result" where
  "native_bound es name code path =
     (if name \<in> set (json_keys es) then
        bind_result (native_string (json_field es name) code name path False)
          (\<lambda>raw. map_ok (parse_semver raw (Some (native_location path (Some (''/'' @ name))))) Some)
      else Ok None)"

definition native_bounds :: "json_value \<Rightarrow> diagnostic_code \<Rightarrow> string \<Rightarrow> version_bounds result" where
  "native_bounds value code path =
     bind_result (native_object value code ''version bounds'' path)
       (\<lambda>object. bind_result (native_fields object [] [''min_inclusive'', ''max_exclusive''] False path)
       (\<lambda>es. bind_result (native_bound es ''min_inclusive'' code path)
       (\<lambda>minimum. bind_result (native_bound es ''max_exclusive'' code path)
       (\<lambda>maximum. mk_version_bounds minimum maximum (Some (native_location path None))))))"

definition native_paths :: "json_value \<Rightarrow> diagnostic_code \<Rightarrow> string \<Rightarrow> string \<Rightarrow> bool \<Rightarrow> safe_relative_path list result" where
  "native_paths value code label path allow_empty =
     bind_result (native_strings value code label path allow_empty)
       (\<lambda>raws. map_ok (read_each (\<lambda>raw. parse_relative_path raw (Some (native_location path None))) raws) sorted_set)"

definition native_extensions :: "json_entries \<Rightarrow> string list \<Rightarrow> extensions" where
  "native_extensions es known = [e \<leftarrow> es. fst e \<notin> set known]"

definition native_version_one :: "json_entries \<Rightarrow> string \<Rightarrow> diagnostic_code \<Rightarrow> string \<Rightarrow> int result" where
  "native_version_one es name code path =
     bind_result (native_integer (json_field es name) code name path)
       (\<lambda>n. if n \<noteq> 1 then native_error code (''unsupported '' @ name @ '' '' @ str_int n) path else Ok n)"

definition native_field :: "json_entries \<Rightarrow> string \<Rightarrow> diagnostic_code \<Rightarrow> string \<Rightarrow> bool \<Rightarrow> string result" where
  "native_field es name code path single_line = native_string (json_field es name) code name path single_line"

subsection \<open>Source manifests\<close>

definition SOURCE_FIELDS :: "string list" where
  "SOURCE_FIELDS = [''schema_version'', ''protocol_version'', ''source_id'', ''display_name'', ''requires_aart'', ''required_capabilities'',
     ''artifact_roots'']"

text \<open>\<open>shorter, longer = sorted((root.parts, other.parts), key=len)\<close>\<close>

definition roots_nest :: "safe_relative_path \<Rightarrow> safe_relative_path \<Rightarrow> bool" where
  "roots_nest a b \<longleftrightarrow>
     (let (shorter, longer) = (if length (path_parts b) < length (path_parts a) then (path_parts b, path_parts a) else (path_parts a, path_parts b)) in
      take (length shorter) longer = shorter)"

fun roots_nested :: "safe_relative_path list \<Rightarrow> bool" where
  "roots_nested [] = False"
| "roots_nested (r # rs) = (list_ex (roots_nest r) rs \<or> roots_nested rs)"

definition read_source_manifest :: "json_entries \<Rightarrow> string \<Rightarrow> source_manifest result" where
  "read_source_manifest document path =
     bind_result (native_fields document SOURCE_FIELDS [''collection_roots''] True path)
       (\<lambda>es. bind_result (native_version_one es ''schema_version'' SOURCE_INVALID path)
       (\<lambda>schema_version. bind_result (native_version_one es ''protocol_version'' SOURCE_INVALID path)
       (\<lambda>protocol_version. bind_result (native_field es ''source_id'' SOURCE_INVALID path False)
       (\<lambda>source_id'.
          if \<not> slug_match source_id' then native_error SOURCE_INVALID ''source_id must be a lowercase slug'' path
          else bind_result (native_field es ''display_name'' SOURCE_INVALID path True)
       (\<lambda>display_name. bind_result (native_bounds (json_field es ''requires_aart'') SOURCE_INVALID path)
       (\<lambda>bounds. bind_result (native_strings (json_field es ''required_capabilities'') SOURCE_INVALID ''required_capabilities'' path True)
       (\<lambda>names. bind_result (read_each (\<lambda>raw. parse_capability raw (Some (native_location path None))) names)
       (\<lambda>capabilities. bind_result (native_paths (json_field es ''artifact_roots'') SOURCE_INVALID ''artifact_roots'' path False)
       (\<lambda>artifact_roots. bind_result
            (if ''collection_roots'' \<in> set (json_keys es)
             then native_paths (json_field es ''collection_roots'') SOURCE_INVALID ''collection_roots'' path True else Ok [])
       (\<lambda>collection_roots.
          if set artifact_roots \<inter> set collection_roots \<noteq> {} then
            native_error SOURCE_INVALID ''artifact and collection roots must not overlap'' path
          else if roots_nested (artifact_roots @ collection_roots) then
            native_error SOURCE_INVALID ''source roots must not be nested'' path
          else
            Ok \<lparr>sm_schema_version = schema_version, sm_protocol_version = protocol_version, sm_source_id = SourceId source_id',
                sm_display_name = display_name, sm_requires_aart = bounds, sm_required_capabilities = sorted_set capabilities,
                sm_artifact_roots = artifact_roots, sm_collection_roots = collection_roots,
                sm_extensions = native_extensions es (SOURCE_FIELDS @ [''collection_roots''])\<rparr>))))))))))"

definition parse_source_manifest :: "bytes \<Rightarrow> string \<Rightarrow> source_manifest result option" where
  "parse_source_manifest data path =
     map_option (\<lambda>document. bind_result document (\<lambda>es. read_source_manifest es path)) (native_document data SOURCE_INVALID path)"


subsection \<open>Artifact manifests\<close>

fun rejected_name :: "string list option \<Rightarrow> string list \<Rightarrow> string option" where
  "rejected_name allowed [] = None"
| "rejected_name allowed (s # ss) =
     (if \<not> slug_match s \<or> (case allowed of None \<Rightarrow> False | Some xs \<Rightarrow> s \<notin> set xs) then Some s else rejected_name allowed ss)"

definition native_names ::
  "json_value \<Rightarrow> diagnostic_code \<Rightarrow> string \<Rightarrow> string list option \<Rightarrow> string \<Rightarrow> bool \<Rightarrow> string list result" where
  "native_names value code label allowed path allow_empty =
     bind_result (native_strings value code label path allow_empty)
       (\<lambda>names. case rejected_name allowed names of
          Some s \<Rightarrow> native_error code (''unsupported '' @ label @ '' value '' @ repr_str s) path
        | None \<Rightarrow> Ok names)"

definition payload_format_of :: "string \<Rightarrow> string" where
  "payload_format_of kind = or_empty (dict_get PAYLOAD_FORMAT_BY_TYPE kind)"

definition read_payload_spec :: "json_value \<Rightarrow> string \<Rightarrow> string \<Rightarrow> payload_spec result" where
  "read_payload_spec value artifact_type path =
     bind_result (native_object value ARTIFACT_INVALID ''payload'' path)
       (\<lambda>object. bind_result (native_fields object [''root'', ''format''] [] False path)
       (\<lambda>es. bind_result (native_string (json_field es ''root'') ARTIFACT_INVALID ''payload.root'' path False)
       (\<lambda>root_raw. bind_result (parse_relative_path root_raw (Some (native_location path (Some ''/payload/root''))))
       (\<lambda>root'.
          if path_str root' \<noteq> ''payload'' then native_error ARTIFACT_INVALID ''payload.root must be 'payload' in protocol v1'' path
          else bind_result (native_string (json_field es ''format'') ARTIFACT_INVALID ''payload.format'' path False)
       (\<lambda>payload_format.
          if payload_format \<noteq> payload_format_of artifact_type then
            native_error ARTIFACT_INVALID (artifact_type @ '' requires payload format '' @ repr_str (payload_format_of artifact_type)) path
          else Ok \<lparr>pay_root = root', pay_format = payload_format\<rparr>)))))"

definition read_compatibility :: "json_value \<Rightarrow> string \<Rightarrow> compatibility_spec result" where
  "read_compatibility value path =
     bind_result (native_object value ARTIFACT_INVALID ''compatibility'' path)
       (\<lambda>object. bind_result (native_fields object [''profiles'', ''platforms''] [] False path)
       (\<lambda>es. bind_result (native_names (json_field es ''profiles'') ARTIFACT_INVALID ''profile'' None path False)
       (\<lambda>profiles. map_ok (native_names (json_field es ''platforms'') ARTIFACT_INVALID ''platform'' None path False)
          (\<lambda>platforms. \<lparr>comp_profiles = profiles, comp_platforms = platforms\<rparr>))))"

definition read_install_spec :: "json_value \<Rightarrow> string \<Rightarrow> install_spec result" where
  "read_install_spec value path =
     bind_result (native_object value ARTIFACT_INVALID ''install'' path)
       (\<lambda>object. bind_result (native_fields object [''scopes'', ''modes'', ''effects''] [] False path)
       (\<lambda>es. bind_result (native_names (json_field es ''scopes'') ARTIFACT_INVALID ''scope'' (Some [''project'', ''user'']) path False)
       (\<lambda>scopes. bind_result (native_names (json_field es ''modes'') ARTIFACT_INVALID ''mode'' (Some [''copy'', ''symlink'']) path False)
       (\<lambda>modes. map_ok (native_names (json_field es ''effects'') ARTIFACT_INVALID ''effect''
                          (Some [''copy-tree'', ''write-file'', ''merge-json'', ''managed-block'']) path False)
          (\<lambda>effects. \<lparr>inst_scopes = scopes, inst_modes = modes, inst_effects = effects\<rparr>)))))"

definition read_setup_reference :: "json_value \<Rightarrow> compatibility_spec \<Rightarrow> string \<Rightarrow> setup_reference result" where
  "read_setup_reference value compatibility path =
     bind_result (native_object value ARTIFACT_INVALID ''setup'' path)
       (\<lambda>object. bind_result (native_fields object [''recipe'', ''platforms''] [] False path)
       (\<lambda>es. bind_result (native_string (json_field es ''recipe'') ARTIFACT_INVALID ''setup.recipe'' path False)
       (\<lambda>recipe_raw. bind_result (parse_relative_path recipe_raw (Some (native_location path (Some ''/setup/recipe''))))
       (\<lambda>recipe.
          if take 1 (path_parts recipe) \<noteq> [''setup''] then native_error ARTIFACT_INVALID ''setup recipe must be below setup/'' path
          else bind_result (native_names (json_field es ''platforms'') ARTIFACT_INVALID ''setup platform'' None path False)
       (\<lambda>platforms.
          if \<not> set platforms \<subseteq> set (comp_platforms compatibility) then
            native_error ARTIFACT_INVALID ''setup platforms must be a subset of artifact platforms'' path
          else Ok \<lparr>set_recipe = recipe, set_platforms = platforms\<rparr>)))))"

definition read_artifact_selector :: "json_value \<Rightarrow> string \<Rightarrow> artifact_selector result" where
  "read_artifact_selector value path =
     bind_result (native_object value COLLECTION_INVALID ''artifact selector'' path)
       (\<lambda>object. bind_result (native_fields object [''type'', ''name''] [''version''] False path)
       (\<lambda>es. bind_result (native_field es ''type'' COLLECTION_INVALID path False)
       (\<lambda>raw_type. bind_result (native_field es ''name'' COLLECTION_INVALID path False)
       (\<lambda>name.
          if raw_type \<notin> set (dict_keys PAYLOAD_FORMAT_BY_TYPE) \<or> \<not> slug_match name then
            native_error COLLECTION_INVALID ''selector identity is invalid'' path
          else if ''version'' \<in> set (json_keys es) then
            map_ok (native_bounds (json_field es ''version'') COLLECTION_INVALID path)
              (\<lambda>bounds. \<lparr>sel_identity = ArtifactIdentity raw_type name, sel_version = Some bounds\<rparr>)
          else Ok \<lparr>sel_identity = ArtifactIdentity raw_type name, sel_version = None\<rparr>))))"

definition no_whitespace_url :: "string \<Rightarrow> bool" where
  "no_whitespace_url raw \<longleftrightarrow> CHR ''?'' \<notin> set raw \<and> CHR ''#'' \<notin> set raw \<and> \<not> list_ex is_space raw"

definition safe_https_url :: "string \<Rightarrow> bool" where
  "safe_https_url raw \<longleftrightarrow>
     starts ''https://'' raw \<and>
     (let authority = fst (partition_at CHR ''/'' (drop 8 raw)) in authority \<noteq> [] \<and> CHR 0x40 \<notin> set authority \<and> no_whitespace_url raw)"

text \<open>\<open>_SCP_GIT_RE\<close>: \<open>git@[A-Za-z0-9.-]+:[^\s?#]+\<close>; the host has no colon.\<close>

definition scp_git_re :: "string \<Rightarrow> bool" where
  "scp_git_re raw \<longleftrightarrow>
     starts [CHR ''g'', CHR ''i'', CHR ''t'', CHR 0x40] raw \<and>
     (case partition_at CHR '':'' (drop 4 raw) of
        (host, Some path) \<Rightarrow>
          host \<noteq> [] \<and> list_all (\<lambda>c. is_letter c \<or> is_digit c \<or> c = CHR ''.'' \<or> c = CHR ''-'') host \<and> path \<noteq> [] \<and> no_whitespace_url path
      | _ \<Rightarrow> False)"

definition safe_git_url :: "string \<Rightarrow> bool" where
  "safe_git_url raw \<longleftrightarrow> scp_git_re raw \<or> safe_https_url raw"

definition ARTIFACT_FIELDS :: "string list" where
  "ARTIFACT_FIELDS = [''schema_version'', ''type'', ''name'', ''version'', ''summary'', ''payload'', ''compatibility'', ''install'']"

definition ARTIFACT_OPTIONAL :: "string list" where
  "ARTIFACT_OPTIONAL = [''setup'', ''authors'', ''license'', ''homepage'', ''requires_aart'', ''requires'']"

definition install_effects_of :: "string \<Rightarrow> string list" where
  "install_effects_of kind = (case dict_get INSTALL_EFFECTS_BY_TYPE kind of None \<Rightarrow> [] | Some es \<Rightarrow> es)"

definition read_requires :: "json_entries \<Rightarrow> artifact_identity \<Rightarrow> string \<Rightarrow> artifact_selector list result" where
  "read_requires es identity path =
     (if ''requires'' \<notin> set (json_keys es) then Ok []
      else
        (case json_field es ''requires'' of
           JArray items \<Rightarrow>
             bind_result (read_each (\<lambda>item. bind_result (read_artifact_selector item path)
                 (\<lambda>s. if sel_identity s = identity then native_error ARTIFACT_INVALID ''artifact must not require itself'' path else Ok s)) items)
               (\<lambda>selectors.
                  if \<not> distinct (map sel_identity selectors) then
                    native_error ARTIFACT_INVALID ''requires contains duplicate artifact selectors'' path
                  else Ok (sort_key (identity_str \<circ> sel_identity) selectors))
         | _ \<Rightarrow> native_error ARTIFACT_INVALID ''requires must be an array'' path))"

definition optional_read :: "json_entries \<Rightarrow> string \<Rightarrow> (json_value \<Rightarrow> 'a result) \<Rightarrow> 'a option result" where
  "optional_read es name reader = (if name \<in> set (json_keys es) then map_ok (reader (json_field es name)) Some else Ok None)"

definition read_homepage :: "json_value \<Rightarrow> string \<Rightarrow> string result" where
  "read_homepage value path =
     bind_result (native_string value ARTIFACT_INVALID ''homepage'' path False)
       (\<lambda>url. if \<not> safe_https_url url then native_error ARTIFACT_INVALID ''homepage must use credential-free HTTPS'' path else Ok url)"

definition read_artifact_manifest :: "json_entries \<Rightarrow> string \<Rightarrow> artifact_manifest result" where
  "read_artifact_manifest document path =
     bind_result (native_fields document ARTIFACT_FIELDS ARTIFACT_OPTIONAL True path)
       (\<lambda>es. bind_result (native_version_one es ''schema_version'' ARTIFACT_INVALID path)
       (\<lambda>schema_version. bind_result (native_field es ''type'' ARTIFACT_INVALID path False)
       (\<lambda>artifact_type.
          if artifact_type \<notin> set (dict_keys PAYLOAD_FORMAT_BY_TYPE) then
            native_error ARTIFACT_INVALID (''unsupported artifact type '' @ repr_str artifact_type) path
          else bind_result (native_field es ''name'' ARTIFACT_INVALID path False)
       (\<lambda>name.
          if \<not> slug_match name then native_error ARTIFACT_INVALID ''artifact name must be a lowercase slug'' path
          else bind_result (native_field es ''version'' ARTIFACT_INVALID path False)
       (\<lambda>raw_version. bind_result (parse_semver raw_version (Some (native_location path (Some ''/version''))))
       (\<lambda>version. bind_result (native_field es ''summary'' ARTIFACT_INVALID path True)
       (\<lambda>summary. bind_result (read_payload_spec (json_field es ''payload'') artifact_type path)
       (\<lambda>payload. bind_result (read_compatibility (json_field es ''compatibility'') path)
       (\<lambda>compatibility. bind_result (read_install_spec (json_field es ''install'') path)
       (\<lambda>install.
          if \<not> set (inst_effects install) \<subseteq> set (install_effects_of artifact_type) then
            native_error ARTIFACT_INVALID (''install effects are incompatible with artifact type '' @ repr_str artifact_type) path
          else bind_result (optional_read es ''requires_aart'' (\<lambda>v. native_bounds v ARTIFACT_INVALID path))
       (\<lambda>bounds. bind_result (read_requires es (ArtifactIdentity artifact_type name) path)
       (\<lambda>requires. bind_result (optional_read es ''setup'' (\<lambda>v. read_setup_reference v compatibility path))
       (\<lambda>setup. bind_result (optional_read es ''authors'' (\<lambda>v. native_strings v ARTIFACT_INVALID ''authors'' path True))
       (\<lambda>authors. bind_result (optional_read es ''license'' (\<lambda>v. native_string v ARTIFACT_INVALID ''license'' path True))
       (\<lambda>license. map_ok (optional_read es ''homepage'' (\<lambda>v. read_homepage v path))
       (\<lambda>homepage.
          \<lparr>am_schema_version = schema_version, am_identity = ArtifactIdentity artifact_type name, am_version = version,
           am_summary = summary, am_payload = payload, am_compatibility = compatibility, am_install = install, am_setup = setup,
           am_authors = (case authors of None \<Rightarrow> [] | Some xs \<Rightarrow> xs), am_license = license, am_homepage = homepage,
           am_extensions = native_extensions es (ARTIFACT_FIELDS @ ARTIFACT_OPTIONAL),
           am_requires_aart = (case bounds of None \<Rightarrow> any_version | Some b \<Rightarrow> b), am_requires = requires\<rparr>))))))))))))))))"

definition parse_artifact_manifest :: "bytes \<Rightarrow> string \<Rightarrow> artifact_manifest result option" where
  "parse_artifact_manifest data path =
     map_option (\<lambda>document. bind_result document (\<lambda>es. read_artifact_manifest es path)) (native_document data ARTIFACT_INVALID path)"

subsection \<open>Provenance and collections\<close>

definition as_native_error :: "'a result \<Rightarrow> diagnostic_code \<Rightarrow> string \<Rightarrow> string \<Rightarrow> 'a result" where
  "as_native_error r code message path = (case r of Ok v \<Rightarrow> Ok v | Err _ \<Rightarrow> native_error code message path)"

definition read_origin :: "json_entries \<Rightarrow> string \<Rightarrow> origin_provenance result" where
  "read_origin es path =
     bind_result (native_string (json_field es ''kind'') PROVENANCE_INVALID ''origin.kind'' path False)
       (\<lambda>kind. bind_result (native_string (json_field es ''url'') PROVENANCE_INVALID ''origin.url'' path False)
       (\<lambda>url. bind_result (native_field es ''resolved_commit'' PROVENANCE_INVALID path False)
       (\<lambda>commit. bind_result (native_string (json_field es ''path'') PROVENANCE_INVALID ''origin.path'' path False)
       (\<lambda>path_raw.
          if kind \<noteq> ''git'' \<or> \<not> safe_git_url url \<or> \<not> commit_re commit then
            native_error PROVENANCE_INVALID ''origin must be a pinned credential-free Git source'' path
          else bind_result (as_native_error (parse_relative_path path_raw (Some (native_location path (Some ''/origin/path''))))
                 PROVENANCE_INVALID ''origin.path must be a safe relative path'' path)
       (\<lambda>origin_path. bind_result (native_field es ''input_digest'' PROVENANCE_INVALID path False)
       (\<lambda>digest_raw. map_ok (as_native_error (parse_sha256 digest_raw (Some (native_location path None)))
                 PROVENANCE_INVALID ''input_digest must be canonical SHA-256'' path)
       (\<lambda>digest. \<lparr>op_kind = ''git'', op_url = url, op_resolved_commit = commit, op_path = origin_path, op_input_digest = digest\<rparr>)))))))"

definition read_importer :: "json_entries \<Rightarrow> string \<Rightarrow> importer_provenance result" where
  "read_importer es path =
     bind_result (native_string (json_field es ''id'') PROVENANCE_INVALID ''importer.id'' path False)
       (\<lambda>importer_id. bind_result (native_string (json_field es ''version'') PROVENANCE_INVALID ''importer.version'' path False)
       (\<lambda>version_raw. bind_result (native_field es ''options_digest'' PROVENANCE_INVALID path False)
       (\<lambda>digest_raw.
          if \<not> slug_match importer_id then native_error PROVENANCE_INVALID ''importer.id must be a lowercase slug'' path
          else bind_result (as_native_error (parse_semver version_raw (Some (native_location path None)))
                 PROVENANCE_INVALID ''importer.version must be SemVer'' path)
       (\<lambda>version. map_ok (as_native_error (parse_sha256 digest_raw (Some (native_location path None)))
                 PROVENANCE_INVALID ''options_digest must be canonical SHA-256'' path)
       (\<lambda>digest. \<lparr>ip_id = importer_id, ip_version = version, ip_options_digest = digest\<rparr>)))))"

definition PROVENANCE_FIELDS :: "string list" where
  "PROVENANCE_FIELDS = [''schema_version'', ''origin'', ''importer'', ''warnings'']"

definition read_provenance :: "json_entries \<Rightarrow> string \<Rightarrow> provenance result" where
  "read_provenance document path =
     bind_result (native_fields document PROVENANCE_FIELDS [] True path)
       (\<lambda>es. bind_result (native_version_one es ''schema_version'' PROVENANCE_INVALID path)
       (\<lambda>schema_version. bind_result (native_object (json_field es ''origin'') PROVENANCE_INVALID ''origin'' path)
       (\<lambda>origin_object. bind_result (native_fields origin_object [''kind'', ''url'', ''resolved_commit'', ''path'', ''input_digest''] [] False path)
       (\<lambda>origin_es. bind_result (read_origin origin_es path)
       (\<lambda>origin. bind_result (native_object (json_field es ''importer'') PROVENANCE_INVALID ''importer'' path)
       (\<lambda>importer_object. bind_result (native_fields importer_object [''id'', ''version'', ''options_digest''] [] False path)
       (\<lambda>importer_es. bind_result (read_importer importer_es path)
       (\<lambda>importer. map_ok (native_strings (json_field es ''warnings'') PROVENANCE_INVALID ''warnings'' path True)
       (\<lambda>warnings.
          \<lparr>prov_schema_version = schema_version, prov_origin = origin, prov_importer = importer, prov_warnings = warnings,
           prov_extensions = native_extensions es PROVENANCE_FIELDS\<rparr>)))))))))"

definition parse_provenance :: "bytes \<Rightarrow> string \<Rightarrow> provenance result option" where
  "parse_provenance data path =
     map_option (\<lambda>document. bind_result document (\<lambda>es. read_provenance es path)) (native_document data PROVENANCE_INVALID path)"

definition COLLECTION_FIELDS :: "string list" where
  "COLLECTION_FIELDS = [''schema_version'', ''name'', ''summary'', ''artifacts'']"

definition read_collection_manifest :: "json_entries \<Rightarrow> string \<Rightarrow> collection_manifest result" where
  "read_collection_manifest document path =
     bind_result (native_fields document COLLECTION_FIELDS [''collections''] True path)
       (\<lambda>es. bind_result (native_version_one es ''schema_version'' COLLECTION_INVALID path)
       (\<lambda>schema_version. bind_result (native_field es ''name'' COLLECTION_INVALID path False)
       (\<lambda>name. bind_result (native_field es ''summary'' COLLECTION_INVALID path True)
       (\<lambda>summary.
          if \<not> slug_match name then native_error COLLECTION_INVALID ''collection name must be a lowercase slug'' path
          else
            (case json_field es ''artifacts'' of
               JArray items \<Rightarrow>
                 bind_result (read_each (\<lambda>item. read_artifact_selector item path) items)
                 (\<lambda>artifacts.
                    if \<not> distinct (map (identity_str \<circ> sel_identity) artifacts) then
                      native_error COLLECTION_INVALID ''collection contains duplicate artifact selectors'' path
                    else bind_result (optional_read es ''collections'' (\<lambda>v. native_names v COLLECTION_INVALID ''collection'' None path True))
                 (\<lambda>named.
                    let collections = (case named of None \<Rightarrow> [] | Some xs \<Rightarrow> xs) in
                    if name \<in> set collections then native_error COLLECTION_INVALID ''collection must not directly reference itself'' path
                    else if artifacts = [] \<and> collections = [] then
                      native_error COLLECTION_INVALID ''collection must contain at least one member'' path
                    else
                      Ok \<lparr>cm_schema_version = schema_version, cm_name = name, cm_summary = summary,
                          cm_artifacts = sort_key (identity_str \<circ> sel_identity) artifacts, cm_collections = collections,
                          cm_extensions = native_extensions es (COLLECTION_FIELDS @ [''collections''])\<rparr>))
             | _ \<Rightarrow> native_error COLLECTION_INVALID ''artifacts must be an array'' path)))))"

definition parse_collection_manifest :: "bytes \<Rightarrow> string \<Rightarrow> collection_manifest result option" where
  "parse_collection_manifest data path =
     map_option (\<lambda>document. bind_result document (\<lambda>es. read_collection_manifest es path)) (native_document data COLLECTION_INVALID path)"


subsection \<open>Writers\<close>

abbreviation JStrings :: "string list \<Rightarrow> json_value" where
  "JStrings ss \<equiv> JArray (map JStr ss)"

definition bounds_to_json :: "version_bounds \<Rightarrow> json_value" where
  "bounds_to_json b =
     json_object (optional_member ''min_inclusive'' (JStr \<circ> semver_str) (min_inclusive b)
       @ optional_member ''max_exclusive'' (JStr \<circ> semver_str) (max_exclusive b))"

definition nonempty_member :: "string \<Rightarrow> ('a list \<Rightarrow> json_value) \<Rightarrow> 'a list \<Rightarrow> json_entries" where
  "nonempty_member name enc xs = (if xs = [] then [] else [(name, enc xs)])"

definition source_manifest_to_json :: "source_manifest \<Rightarrow> json_value" where
  "source_manifest_to_json m =
     json_object
       ([(''schema_version'', JInt (sm_schema_version m)), (''protocol_version'', JInt (sm_protocol_version m)),
         (''source_id'', JStr (source_id_value (sm_source_id m))), (''display_name'', JStr (sm_display_name m)),
         (''requires_aart'', bounds_to_json (sm_requires_aart m)),
         (''required_capabilities'', JStrings (map capability_value (sm_required_capabilities m))),
         (''artifact_roots'', JStrings (map path_str (sm_artifact_roots m)))]
        @ nonempty_member ''collection_roots'' (JStrings \<circ> map path_str) (sm_collection_roots m)
        @ sm_extensions m)"

definition selector_to_json :: "artifact_selector \<Rightarrow> json_value" where
  "selector_to_json s =
     json_object
       ([(''type'', JStr (identity_kind (sel_identity s))), (''name'', JStr (identity_name (sel_identity s)))]
        @ optional_member ''version'' bounds_to_json (sel_version s))"

definition setup_to_json :: "setup_reference \<Rightarrow> json_value" where
  "setup_to_json s = json_object [(''recipe'', JStr (path_str (set_recipe s))), (''platforms'', JStrings (set_platforms s))]"

definition artifact_manifest_to_json :: "artifact_manifest \<Rightarrow> json_value" where
  "artifact_manifest_to_json m =
     json_object
       ([(''schema_version'', JInt (am_schema_version m)), (''type'', JStr (identity_kind (am_identity m))),
         (''name'', JStr (identity_name (am_identity m))), (''version'', JStr (semver_str (am_version m))),
         (''summary'', JStr (am_summary m)),
         (''payload'', json_object [(''root'', JStr (path_str (pay_root (am_payload m)))), (''format'', JStr (pay_format (am_payload m)))]),
         (''compatibility'', json_object [(''profiles'', JStrings (comp_profiles (am_compatibility m))),
                                          (''platforms'', JStrings (comp_platforms (am_compatibility m)))]),
         (''install'', json_object [(''scopes'', JStrings (inst_scopes (am_install m))), (''modes'', JStrings (inst_modes (am_install m))),
                                    (''effects'', JStrings (inst_effects (am_install m)))])]
        @ optional_member ''setup'' setup_to_json (am_setup m)
        @ nonempty_member ''authors'' JStrings (am_authors m)
        @ optional_member ''license'' JStr (am_license m)
        @ optional_member ''homepage'' JStr (am_homepage m)
        @ (if am_requires_aart m = any_version then [] else [(''requires_aart'', bounds_to_json (am_requires_aart m))])
        @ nonempty_member ''requires'' (JArray \<circ> map selector_to_json) (am_requires m)
        @ am_extensions m)"

definition provenance_to_json :: "provenance \<Rightarrow> json_value" where
  "provenance_to_json p =
     json_object
       ([(''importer'', json_object [(''id'', JStr (ip_id (prov_importer p))),
                                     (''options_digest'', JStr (digest_str (ip_options_digest (prov_importer p)))),
                                     (''version'', JStr (semver_str (ip_version (prov_importer p))))]),
         (''origin'', json_object [(''input_digest'', JStr (digest_str (op_input_digest (prov_origin p)))),
                                   (''kind'', JStr (op_kind (prov_origin p))), (''path'', JStr (path_str (op_path (prov_origin p)))),
                                   (''resolved_commit'', JStr (op_resolved_commit (prov_origin p))), (''url'', JStr (op_url (prov_origin p)))]),
         (''schema_version'', JInt (prov_schema_version p)),
         (''warnings'', JStrings (prov_warnings p))]
        @ prov_extensions p)"

definition collection_manifest_to_json :: "collection_manifest \<Rightarrow> json_value" where
  "collection_manifest_to_json m =
     json_object
       ([(''artifacts'', JArray (map selector_to_json (cm_artifacts m))), (''name'', JStr (cm_name m)),
         (''schema_version'', JInt (cm_schema_version m)), (''summary'', JStr (cm_summary m))]
        @ nonempty_member ''collections'' JStrings (cm_collections m)
        @ cm_extensions m)"

end
