(* ===== verification/NativeTree.thy ===== *)
theory NativeTree
  imports NativeSchema CompilerModel GitLocation
begin

text \<open>
  Native packages and native sources over an acquired tree (\<open>agent_artifacts/protocol/native_tree.py\<close>). The setup protocol
  (\<open>agent_artifacts/setup.py\<close>) is a parameter: the record \<open>setup_codec\<close> holds the three functions of it that package
  validation calls and the two fields of a parsed installer that it reads. As elsewhere \<open>None\<close> stands for a document with a character beyond
  U+00FF.
\<close>

definition SOURCE_MARKER_MISSING :: diagnostic_code where "SOURCE_MARKER_MISSING = ''source-marker-missing''"
definition SOURCE_TREE_INVALID :: diagnostic_code where "SOURCE_TREE_INVALID = ''source-tree-invalid''"

record 'i setup_codec =
  sx_custom_entrypoint_name :: "bytes \<Rightarrow> string + string option"
  sx_parse_installer :: "bytes \<Rightarrow> string \<Rightarrow> string \<Rightarrow> bytes option \<Rightarrow> string + 'i"
  sx_has_manual_setup_header :: "bytes \<Rightarrow> bool"
  sx_manual_path :: "'i \<Rightarrow> string"
  sx_platforms :: "'i \<Rightarrow> string list"

record 'i native_package =
  np_manifest :: artifact_manifest
  np_provenance :: "provenance option"
  np_manifest_digest :: object_digest
  np_payload_digest :: object_digest
  np_setup_installer :: "'i option"

record 'i native_source =
  ns_manifest :: source_manifest
  ns_artifacts :: "'i native_package list"
  ns_collections :: "collection_manifest list"
  ns_manifest_digest :: object_digest

abbreviation np_identity :: "'i native_package \<Rightarrow> artifact_identity" where
  "np_identity p \<equiv> am_identity (np_manifest p)"

type_synonym tree_table = "(string \<times> snapshot_entry) list"

definition tree_diagnostic :: "diagnostic_code \<Rightarrow> string \<Rightarrow> string option \<Rightarrow> diagnostic" where
  "tree_diagnostic code message path =
     mk_diagnostic code ERROR message (Some \<lparr>loc_source = None, loc_path = path, loc_pointer = None, loc_line = None, loc_column = None\<rparr>) [] []"

definition tree_error :: "diagnostic_code \<Rightarrow> string \<Rightarrow> string option \<Rightarrow> 'a result" where
  "tree_error code message path = mk_err [tree_diagnostic code message path]"

text \<open>Continue a read: a text beyond the model and an error end it.\<close>

definition read_bind :: "'a result option \<Rightarrow> ('a \<Rightarrow> 'b result option) \<Rightarrow> 'b result option" where
  "read_bind r f = (case r of None \<Rightarrow> None | Some (Err ds) \<Rightarrow> Some (Err ds) | Some (Ok v) \<Rightarrow> f v)"

lemma read_bind_Ok: "read_bind r f = Some (Ok y) \<longleftrightarrow> (\<exists>x. r = Some (Ok x) \<and> f x = Some (Ok y))"
  by (auto simp: read_bind_def split: option.splits result.splits)

text \<open>The text of the source has em dashes where this one has two hyphens: they are outside the characters of the model.\<close>

definition DEPENDENCY_SCOPE_REMEDIATION :: "string list" where
  "DEPENDENCY_SCOPE_REMEDIATION =
     [''Publish the dependency in this registry -- `aart registry scaffold --help` -- or copy the upstream content into an artifact this registry owns.'',
      ''`aart registry promote-native --help` offers a foreign package to consumers; it does not make that package a `requires` target.'']"

definition dependency_scope_error ::
  "diagnostic_code \<Rightarrow> artifact_identity \<Rightarrow> artifact_identity \<Rightarrow> string option \<Rightarrow> 'a result" where
  "dependency_scope_error code requiring dependency referenced_from =
     mk_err [mk_diagnostic code ERROR
       (case referenced_from of
          None \<Rightarrow> identity_str requiring @ '' requires '' @ identity_str dependency
                    @ '', which this registry does not publish; requires resolves inside one registry''
        | Some origin \<Rightarrow> identity_str requiring @ '' requires '' @ identity_str dependency @ '', which this registry references from ''
                    @ origin @ '' rather than owning; requires resolves against artifacts this registry owns'')
       None DEPENDENCY_SCOPE_REMEDIATION []]"

subsection \<open>Entries of a tree\<close>

text \<open>The table of entries by path; the entries after the checked ones are added in their order.\<close>

fun validated_entries :: "snapshot_entry list \<Rightarrow> tree_table \<Rightarrow> tree_table result" where
  "validated_entries [] entries = Ok entries"
| "validated_entries (entry # rest) entries =
     (let raw = path_str (sne_path entry) in
      if parse_relative_path raw None \<noteq> Ok (sne_path entry) then
        tree_error SOURCE_TREE_INVALID (''snapshot path is not canonical: '' @ repr_str raw) None
      else if raw \<in> set (dict_keys entries) then
        tree_error SOURCE_TREE_INVALID (''duplicate snapshot path: '' @ raw) (Some raw)
      else if sne_kind entry = SE_DIRECTORY \<and> (sne_content entry \<noteq> [] \<or> sne_executable entry) then
        tree_error SOURCE_TREE_INVALID (''directory has file metadata: '' @ raw) (Some raw)
      else validated_entries rest (entries @ [(raw, entry)]))"

definition path_under :: "string \<Rightarrow> safe_relative_path \<Rightarrow> string list option" where
  "path_under path root' =
     (let root_parts = path_parts root'; parsed = split_on CHR ''/'' path in
      if take (length root_parts) parsed \<noteq> root_parts then None else Some (drop (length root_parts) parsed))"

definition declared_content :: "source_manifest \<Rightarrow> string \<Rightarrow> bool" where
  "declared_content manifest path \<longleftrightarrow>
     path = ''aart-source.json'' \<or> list_ex (\<lambda>r. path_under path r \<noteq> None) (sm_artifact_roots manifest @ sm_collection_roots manifest)"

fun validate_protocol_entry_kinds :: "tree_table \<Rightarrow> source_manifest \<Rightarrow> unit result" where
  "validate_protocol_entry_kinds [] manifest = Ok ()"
| "validate_protocol_entry_kinds ((path, entry) # rest) manifest =
     (if declared_content manifest path \<and> (sne_kind entry = SE_SYMLINK \<or> sne_kind entry = SE_SPECIAL) then
        tree_error SOURCE_TREE_INVALID
          (''protocol v1 forbids '' @ snapshot_kind_value (sne_kind entry) @ '' entries in declared content: '' @ path) (Some path)
      else validate_protocol_entry_kinds rest manifest)"

definition PACKAGE_KINDS :: "string list" where
  "PACKAGE_KINDS = [''skill'', ''guideline'', ''mcp'', ''hook'', ''memory'']"

type_synonym package_key = "safe_relative_path \<times> string \<times> string"

text \<open>The inner loop over the entries of the tree, for one artifact root.\<close>

fun root_candidates :: "tree_table \<Rightarrow> safe_relative_path \<Rightarrow> package_key list \<Rightarrow> package_key list result" where
  "root_candidates [] root' candidates = Ok candidates"
| "root_candidates ((path, entry) # rest) root' candidates =
     (case path_under path root' of
        None \<Rightarrow> root_candidates rest root' candidates
      | Some [] \<Rightarrow> root_candidates rest root' candidates
      | Some [single] \<Rightarrow>
          if sne_kind entry = SE_DIRECTORY then root_candidates rest root' candidates
          else tree_error SOURCE_TREE_INVALID (''artifact root entries must use <type>/<name>/...: '' @ path) (Some path)
      | Some (artifact_type # name # below) \<Rightarrow>
          if artifact_type \<notin> set PACKAGE_KINDS then
            tree_error SOURCE_TREE_INVALID (''unsupported artifact type directory '' @ repr_str artifact_type) (Some path)
          else root_candidates rest root' (candidates @ [(root', artifact_type, name)]))"

fun all_candidates :: "tree_table \<Rightarrow> safe_relative_path list \<Rightarrow> package_key list \<Rightarrow> package_key list result" where
  "all_candidates entries [] candidates = Ok candidates"
| "all_candidates entries (r # roots) candidates =
     bind_result (root_candidates entries r candidates) (\<lambda>found. all_candidates entries roots found)"

definition package_key_order :: "package_key \<Rightarrow> string \<times> string \<times> string" where
  "package_key_order k = (case k of (r, kind, name) \<Rightarrow> (path_str r, kind, name))"

definition package_candidates :: "tree_table \<Rightarrow> source_manifest \<Rightarrow> package_key list result" where
  "package_candidates entries manifest =
     bind_result (all_candidates entries (sm_artifact_roots manifest) [])
       (\<lambda>candidates.
          if candidates = [] then tree_error SOURCE_TREE_INVALID ''native source contains no canonical artifact packages'' None
          else Ok (sort_key package_key_order (remdups candidates)))"

definition relative_package_entries :: "tree_table \<Rightarrow> string \<Rightarrow> tree_table" where
  "relative_package_entries entries base =
     [(drop (length base + 1) path, entry). (path, entry) \<leftarrow> entries, starts (base @ ''/'') path]"

subsection \<open>One package\<close>

definition payload_files :: "tree_table \<Rightarrow> tree_table" where
  "payload_files entries = [e \<leftarrow> entries. starts ''payload/'' (fst e) \<and> sne_kind (snd e) = SE_FILE]"

definition text_readable :: "snapshot_entry \<Rightarrow> bool" where
  "text_readable entry \<longleftrightarrow> utf8_decode (sne_content entry) \<noteq> DecodeError"

definition texts_checked :: "snapshot_entry list \<Rightarrow> string \<Rightarrow> unit result option" where
  "texts_checked text_files manifest_path =
     Some (if list_all text_readable text_files then Ok ()
           else tree_error ARTIFACT_INVALID ''text payload must be valid UTF-8'' (Some manifest_path))"

definition nonempty_text :: "json_value option \<Rightarrow> bool" where
  "nonempty_text v \<longleftrightarrow> (case v of Some (JStr s) \<Rightarrow> s \<noteq> [] | _ \<Rightarrow> False)"

definition validate_descriptor :: "string \<Rightarrow> tree_table \<Rightarrow> string \<Rightarrow> unit result option" where
  "validate_descriptor artifact_type files manifest_path =
     (let primary_path = (if artifact_type = ''mcp'' then ''payload/mcp.json'' else ''payload/hook.json'') in
      case dict_get files primary_path of
        None \<Rightarrow> Some (tree_error ARTIFACT_INVALID (artifact_type @ '' payload requires '' @ primary_path) (Some manifest_path))
      | Some primary \<Rightarrow>
          (case parse_json (sne_content primary) (Some (native_location primary_path None)) MAX_DEPTH MAX_STRING_LENGTH of
             None \<Rightarrow> None
           | Some (Ok (JObject es)) \<Rightarrow>
               if artifact_type = ''hook'' \<and> \<not> (nonempty_text (json_get es ''name'') \<and> nonempty_text (json_get es ''command'')) then
                 Some (tree_error ARTIFACT_INVALID ''payload/hook.json requires non-empty string name and command fields'' (Some primary_path))
               else texts_checked [] manifest_path
           | Some _ \<Rightarrow> Some (tree_error ARTIFACT_INVALID (primary_path @ '' must be a strict JSON object'') (Some primary_path))))"

definition validate_primary_payload :: "artifact_manifest \<Rightarrow> tree_table \<Rightarrow> string \<Rightarrow> unit result option" where
  "validate_primary_payload manifest package_entries manifest_path =
     (let files = payload_files package_entries; artifact_type = identity_kind (am_identity manifest) in
      if files = [] then Some (tree_error ARTIFACT_INVALID ''payload contains no files'' (Some manifest_path))
      else if artifact_type = ''skill'' then
        (case dict_get files ''payload/SKILL.md'' of
           None \<Rightarrow> Some (tree_error ARTIFACT_INVALID ''skill payload requires payload/SKILL.md'' (Some manifest_path))
         | Some required \<Rightarrow> texts_checked [required] manifest_path)
      else if artifact_type = ''guideline'' \<or> artifact_type = ''memory'' then
        (let markdown = [e \<leftarrow> files. ends_with ''.md'' (fst e)] in
         if length files \<noteq> 1 \<or> length markdown \<noteq> 1 then
           Some (tree_error ARTIFACT_INVALID (artifact_type @ '' payload requires exactly one Markdown document'') (Some manifest_path))
         else texts_checked (map snd markdown) manifest_path)
      else if artifact_type = ''mcp'' \<or> artifact_type = ''hook'' then validate_descriptor artifact_type files manifest_path
      else Some (tree_error ARTIFACT_INVALID (''unsupported artifact type '' @ repr_str artifact_type) (Some manifest_path)))"

text \<open>The proper ancestors of a path, as texts: \<open>parts[:length]\<close> for \<open>length\<close> from 1.\<close>

definition parent_paths :: "safe_relative_path \<Rightarrow> string list" where
  "parent_paths p = [join ''/'' (take n (path_parts p)). n \<leftarrow> [1..<length (path_parts p)]]"

fun payload_tree_files :: "tree_table \<Rightarrow> string \<Rightarrow> tree_entry list result" where
  "payload_tree_files [] manifest_path = Ok []"
| "payload_tree_files ((path, entry) # rest) manifest_path =
     (case parse_relative_path (drop 8 path) None of
        Err _ \<Rightarrow> tree_error ARTIFACT_INVALID (''invalid payload path: '' @ drop 8 path) (Some manifest_path)
      | Ok p \<Rightarrow> map_ok (payload_tree_files rest manifest_path) (Cons (file_entry p (sne_content entry) (sne_executable entry))))"

fun payload_tree_directories :: "string list \<Rightarrow> string \<Rightarrow> tree_entry list result" where
  "payload_tree_directories [] manifest_path = Ok []"
| "payload_tree_directories (directory # rest) manifest_path =
     (case parse_relative_path directory None of
        Err _ \<Rightarrow> tree_error ARTIFACT_INVALID (''invalid payload directory: '' @ directory) (Some manifest_path)
      | Ok p \<Rightarrow> map_ok (payload_tree_directories rest manifest_path) (Cons (directory_entry p)))"

definition native_payload_digest :: "tree_table \<Rightarrow> string \<Rightarrow> object_digest result" where
  "native_payload_digest package_entries manifest_path =
     bind_result (payload_tree_files (payload_files package_entries) manifest_path)
       (\<lambda>files. bind_result (payload_tree_directories (sorted_set (concat (map (parent_paths \<circ> te_path) files))) manifest_path)
       (\<lambda>directories.
          (case tree_digest (files @ directories) of
             Err _ \<Rightarrow> tree_error ARTIFACT_INVALID ''payload tree cannot be hashed'' (Some manifest_path)
           | Ok digest \<Rightarrow> Ok digest)))"


definition setup_entrypoint :: "string option \<Rightarrow> tree_table \<Rightarrow> snapshot_entry option result" where
  "setup_entrypoint custom_name package_entries =
     (case custom_name of
        None \<Rightarrow> Ok None
      | Some name \<Rightarrow>
          (let custom_path = ''setup/'' @ name in
           case dict_get package_entries custom_path of
             Some entry \<Rightarrow>
               if sne_kind entry = SE_FILE \<and> sne_executable entry then Ok (Some entry)
               else tree_error ARTIFACT_INVALID ''custom setup entrypoint must be an executable regular file below setup/'' (Some custom_path)
           | None \<Rightarrow>
               tree_error ARTIFACT_INVALID ''custom setup entrypoint must be an executable regular file below setup/'' (Some custom_path)))"

definition validate_manual ::
  "'i setup_codec \<Rightarrow> artifact_manifest \<Rightarrow> tree_table \<Rightarrow> string option \<Rightarrow> snapshot_entry option \<Rightarrow> 'i \<Rightarrow> 'i result option" where
  "validate_manual sx manifest package_entries custom_name custom_entry installer =
     (let manual_path = sx_manual_path sx installer; recipe_path = (case am_setup manifest of None \<Rightarrow> [] | Some s \<Rightarrow> path_str (set_recipe s)) in
      case dict_get package_entries manual_path of
        None \<Rightarrow> Some (tree_error ARTIFACT_INVALID ''setup requires a regular package-root SETUP.md file'' (Some manual_path))
      | Some manual \<Rightarrow>
          if sne_kind manual \<noteq> SE_FILE then
            Some (tree_error ARTIFACT_INVALID ''setup requires a regular package-root SETUP.md file'' (Some manual_path))
          else (case utf8_decode (sne_content manual) of
             BeyondLatin \<Rightarrow> None
           | DecodeError \<Rightarrow> Some (tree_error ARTIFACT_INVALID ''SETUP.md must be valid UTF-8'' (Some manual_path))
           | Text manual_text \<Rightarrow>
               Some
                 (if strip manual_text = [] \<or> CHR 0x00 \<in> set manual_text then
                    tree_error ARTIFACT_INVALID ''SETUP.md must be non-empty safe UTF-8 text'' (Some manual_path)
                  else if (case custom_entry of None \<Rightarrow> False | Some e \<Rightarrow> \<not> sx_has_manual_setup_header sx (sne_content e)) then
                    tree_error ARTIFACT_INVALID ''custom setup entrypoint lacks the SETUP.md header''
                      (Some (''setup/'' @ (case custom_name of None \<Rightarrow> ''None'' | Some n \<Rightarrow> n)))
                  else if Some (sx_platforms sx installer) \<noteq> map_option set_platforms (am_setup manifest) then
                    tree_error ARTIFACT_INVALID ''setup recipe platforms do not match the artifact manifest'' (Some recipe_path)
                  else Ok installer)))"

definition validate_setup_package ::
  "'i setup_codec \<Rightarrow> artifact_manifest \<Rightarrow> setup_reference \<Rightarrow> tree_table \<Rightarrow> string \<Rightarrow> 'i result option" where
  "validate_setup_package sx manifest reference package_entries manifest_path =
     (let recipe_path = path_str (set_recipe reference) in
      case dict_get package_entries recipe_path of
        None \<Rightarrow> Some (tree_error ARTIFACT_INVALID (''declared setup recipe is missing: '' @ recipe_path) (Some manifest_path))
      | Some recipe \<Rightarrow>
          if sne_kind recipe \<noteq> SE_FILE then
            Some (tree_error ARTIFACT_INVALID (''declared setup recipe is missing: '' @ recipe_path) (Some manifest_path))
          else (case sx_custom_entrypoint_name sx (sne_content recipe) of
             Inl reason \<Rightarrow> Some (tree_error ARTIFACT_INVALID reason (Some recipe_path))
           | Inr custom_name \<Rightarrow>
               read_bind (Some (setup_entrypoint custom_name package_entries))
                 (\<lambda>custom_entry.
                    (case sx_parse_installer sx (sne_content recipe) (identity_str (am_identity manifest)) recipe_path
                            (map_option sne_content custom_entry) of
                       Inl reason \<Rightarrow> Some (tree_error ARTIFACT_INVALID reason (Some recipe_path))
                     | Inr installer \<Rightarrow> validate_manual sx manifest package_entries custom_name custom_entry installer))))"

definition PACKAGE_ROOTS :: "string list" where
  "PACKAGE_ROOTS = [''artifact.json'', ''README.md'', ''SETUP.md'', ''provenance.json'', ''payload'', ''setup'']"

definition package_part :: "string \<Rightarrow> string" where
  "package_part path = fst (partition_at CHR ''/'' path)"

definition package_location :: "string \<Rightarrow> string \<Rightarrow> string" where
  "package_location package_root relative = (if package_root = [] then relative else package_root @ ''/'' @ relative)"

definition check_package_paths :: "tree_table \<Rightarrow> string \<Rightarrow> unit result" where
  "check_package_paths package_entries package_root =
     (case filter (\<lambda>p. package_part p \<notin> set PACKAGE_ROOTS) (map fst package_entries) of
        [] \<Rightarrow> Ok ()
      | path # _ \<Rightarrow> tree_error ARTIFACT_INVALID (''unexpected canonical package path: '' @ path) (Some (package_location package_root path)))"

definition package_setup :: "'i setup_codec \<Rightarrow> artifact_manifest \<Rightarrow> tree_table \<Rightarrow> string \<Rightarrow> 'i option result option" where
  "package_setup sx manifest package_entries manifest_path =
     (case am_setup manifest of
        Some reference \<Rightarrow>
          map_option (\<lambda>r. map_ok r Some) (validate_setup_package sx manifest reference package_entries manifest_path)
      | None \<Rightarrow>
          Some (if list_ex (\<lambda>p. p = ''SETUP.md'' \<or> starts ''setup/'' p) (map fst package_entries)
                then tree_error ARTIFACT_INVALID ''setup content requires a declared setup reference'' (Some manifest_path)
                else Ok None))"

definition package_provenance :: "tree_table \<Rightarrow> string \<Rightarrow> string \<Rightarrow> provenance option result option" where
  "package_provenance package_entries package_root manifest_path =
     (case dict_get package_entries ''provenance.json'' of
        None \<Rightarrow> Some (Ok None)
      | Some entry \<Rightarrow>
          if sne_kind entry \<noteq> SE_FILE then Some (tree_error ARTIFACT_INVALID ''provenance.json must be a file'' (Some manifest_path))
          else map_option (\<lambda>r. map_ok r Some) (parse_provenance (sne_content entry) (package_location package_root ''provenance.json'')))"

definition compile_package_entries ::
  "'i setup_codec \<Rightarrow> tree_table \<Rightarrow> artifact_identity option \<Rightarrow> string \<Rightarrow> 'i native_package result option" where
  "compile_package_entries sx package_entries expected_identity manifest_path =
     (case dict_get package_entries ''artifact.json'' of
        None \<Rightarrow> Some (tree_error ARTIFACT_INVALID ''required file is missing: artifact.json'' (Some manifest_path))
      | Some manifest_file \<Rightarrow>
          if sne_kind manifest_file \<noteq> SE_FILE then
            Some (tree_error ARTIFACT_INVALID ''required file is missing: artifact.json'' (Some manifest_path))
          else read_bind (parse_artifact_manifest (sne_content manifest_file) manifest_path)
       (\<lambda>manifest.
          if (case expected_identity of None \<Rightarrow> False | Some i \<Rightarrow> am_identity manifest \<noteq> i) then
            Some (tree_error ARTIFACT_INVALID
              (''manifest identity '' @ identity_str (am_identity manifest) @ '' does not match package path ''
                 @ (case expected_identity of None \<Rightarrow> ''None'' | Some i \<Rightarrow> identity_str i)) (Some manifest_path))
          else
            (let package_root = removesuffix ''/artifact.json'' manifest_path in
             read_bind (Some (check_package_paths package_entries package_root))
       (\<lambda>_. read_bind (validate_primary_payload manifest package_entries manifest_path)
       (\<lambda>_. read_bind (package_setup sx manifest package_entries manifest_path)
       (\<lambda>installer. read_bind (package_provenance package_entries package_root manifest_path)
       (\<lambda>provenance'. Some (map_ok (native_payload_digest package_entries manifest_path)
          (\<lambda>digest.
             \<lparr>np_manifest = manifest, np_provenance = provenance',
              np_manifest_digest = json_digest (artifact_manifest_to_json manifest),
              np_payload_digest = digest, np_setup_installer = installer\<rparr>)))))))))"

text \<open>The loop of \<open>compile_native_package\<close>.\<close>

fun package_table :: "snapshot_entry list \<Rightarrow> tree_table \<Rightarrow> tree_table result" where
  "package_table [] entries = Ok entries"
| "package_table (entry # rest) entries =
     (let raw = path_str (sne_path entry) in
      if parse_relative_path raw None \<noteq> Ok (sne_path entry) then
        tree_error ARTIFACT_INVALID (''package path is not canonical: '' @ repr_str raw) (Some raw)
      else if raw \<in> set (dict_keys entries) then
        tree_error ARTIFACT_INVALID (''duplicate package path: '' @ raw) (Some raw)
      else if sne_kind entry = SE_SYMLINK \<or> sne_kind entry = SE_SPECIAL then
        tree_error ARTIFACT_INVALID (''canonical package forbids '' @ snapshot_kind_value (sne_kind entry) @ '' entries: '' @ raw) (Some raw)
      else if sne_kind entry = SE_DIRECTORY \<and> (sne_content entry \<noteq> [] \<or> sne_executable entry) then
        tree_error ARTIFACT_INVALID (''directory has file metadata: '' @ raw) (Some raw)
      else package_table rest (entries @ [(raw, entry)]))"

definition compile_native_package ::
  "'i setup_codec \<Rightarrow> snapshot_entry list \<Rightarrow> artifact_identity option \<Rightarrow> 'i native_package result option" where
  "compile_native_package sx entries expected_identity =
     read_bind (Some (package_table entries []))
       (\<lambda>package_entries. compile_package_entries sx package_entries expected_identity ''artifact.json'')"

definition package_base :: "package_key \<Rightarrow> string" where
  "package_base k = (case k of (r, kind, name) \<Rightarrow> path_str r @ ''/'' @ kind @ ''/'' @ name)"

definition load_package :: "'i setup_codec \<Rightarrow> tree_table \<Rightarrow> package_key \<Rightarrow> 'i native_package result option" where
  "load_package sx entries key =
     (case key of (r, expected_type, expected_name) \<Rightarrow>
        compile_package_entries sx (relative_package_entries entries (package_base key))
          (Some (ArtifactIdentity expected_type expected_name)) (package_base key @ ''/artifact.json''))"

text \<open>
  A standalone package has no leading directory, so the suffix is not there to remove: the locations that the code reports for it are below
  \<open>artifact.json/\<close>.
\<close>

lemma standalone_package_location:
  "package_location (removesuffix ''/artifact.json'' ''artifact.json'') ''provenance.json'' = ''artifact.json/provenance.json''"
  by (simp add: package_location_def removesuffix_def)

subsection \<open>Collections\<close>

fun root_collections ::
  "tree_table \<Rightarrow> safe_relative_path \<Rightarrow> collection_manifest list \<Rightarrow> collection_manifest list result option" where
  "root_collections [] root' collections = Some (Ok collections)"
| "root_collections ((path, entry) # rest) root' collections =
     (case path_under path root' of
        None \<Rightarrow> root_collections rest root' collections
      | Some [] \<Rightarrow> root_collections rest root' collections
      | Some (leaf # deeper) \<Rightarrow>
          if sne_kind entry = SE_DIRECTORY then root_collections rest root' collections
          else if deeper \<noteq> [] \<or> \<not> ends_with ''.json'' leaf then
            Some (tree_error COLLECTION_INVALID
              (''collection files must be direct JSON children of '' @ path_str root' @ '': '' @ path) (Some path))
          else read_bind (parse_collection_manifest (sne_content entry) path)
            (\<lambda>parsed.
               if cm_name parsed \<noteq> removesuffix ''.json'' leaf then
                 Some (tree_error COLLECTION_INVALID
                   (''collection name '' @ repr_str (cm_name parsed) @ '' does not match '' @ repr_str (removesuffix ''.json'' leaf)) (Some path))
               else if cm_name parsed \<in> set (map cm_name collections) then
                 Some (tree_error COLLECTION_INVALID (''duplicate collection identity: '' @ cm_name parsed) (Some path))
               else root_collections rest root' (collections @ [parsed])))"

fun all_collections ::
  "tree_table \<Rightarrow> safe_relative_path list \<Rightarrow> collection_manifest list \<Rightarrow> collection_manifest list result option" where
  "all_collections entries [] collections = Some (Ok collections)"
| "all_collections entries (r # roots) collections =
     read_bind (root_collections entries r collections) (\<lambda>found. all_collections entries roots found)"

definition load_collections :: "tree_table \<Rightarrow> source_manifest \<Rightarrow> collection_manifest list result option" where
  "load_collections entries manifest =
     map_option (\<lambda>r. map_ok r (sort_key cm_name)) (all_collections entries (sm_collection_roots manifest) [])"

definition native_compatibility_diagnostics :: "source_manifest \<Rightarrow> semver \<Rightarrow> capability list \<Rightarrow> diagnostic list" where
  "native_compatibility_diagnostics manifest executable_version available =
     (let missing = cd_missing_required (negotiate_capabilities (sm_required_capabilities manifest) [] available) in
      (if allows (sm_requires_aart manifest) executable_version then []
       else [tree_diagnostic ''source-incompatible''
               (''AART '' @ semver_str executable_version @ '' is outside source compatibility bounds'') (Some ''aart-source.json'')])
      @ (if missing = [] then []
         else [tree_diagnostic ''source-incompatible''
                 (''source requires unavailable capabilities: '' @ join '', '' (map capability_value missing)) (Some ''aart-source.json'')]))"



subsection \<open>Declared dependencies\<close>

type_synonym identity_table = "(artifact_identity \<times> artifact_identity list) list"

definition packages_by_identity :: "'i native_package list \<Rightarrow> (artifact_identity \<times> 'i native_package) list" where
  "packages_by_identity packages = dict_by np_identity packages"

text \<open>The inner loop: the selectors of one package.\<close>

fun resolve_requires ::
  "(artifact_identity \<times> 'i native_package) list \<Rightarrow> (artifact_identity \<times> string) list \<Rightarrow> artifact_identity
     \<Rightarrow> artifact_selector list \<Rightarrow> artifact_identity list result" where
  "resolve_requires by_identity elsewhere requiring [] = Ok []"
| "resolve_requires by_identity elsewhere requiring (s # ss) =
     (case dict_get by_identity (sel_identity s) of
        None \<Rightarrow> dependency_scope_error ARTIFACT_INVALID requiring (sel_identity s) (dict_get elsewhere (sel_identity s))
      | Some dependency \<Rightarrow>
          if (case sel_version s of None \<Rightarrow> False | Some bounds \<Rightarrow> \<not> allows bounds (am_version (np_manifest dependency))) then
            tree_error ARTIFACT_INVALID
              (identity_str requiring @ '' excludes available dependency '' @ identity_str (sel_identity s)) None
          else map_ok (resolve_requires by_identity elsewhere requiring ss) (Cons (sel_identity s)))"

fun dependency_table ::
  "(artifact_identity \<times> 'i native_package) list \<Rightarrow> (artifact_identity \<times> string) list \<Rightarrow> 'i native_package list
     \<Rightarrow> identity_table \<Rightarrow> identity_table result" where
  "dependency_table by_identity elsewhere [] table = Ok table"
| "dependency_table by_identity elsewhere (p # ps) table =
     bind_result (resolve_requires by_identity elsewhere (np_identity p) (am_requires (np_manifest p)))
       (\<lambda>resolved. dependency_table by_identity elsewhere ps (dict_set (np_identity p) (sort_key identity_str resolved) table))"

text \<open>
  \<open>dependencies[identity]\<close>: every identity of the walk is a package of the tree, so that the lookup does not raise.
\<close>

definition dependencies_of :: "identity_table \<Rightarrow> artifact_identity \<Rightarrow> artifact_identity list" where
  "dependencies_of table identity = (case dict_get table identity of None \<Rightarrow> [] | Some ds \<Rightarrow> ds)"

text \<open>
  The depth-first walk; the result carries the set \<open>visited\<close>, which the code shares between the calls. The trail
  holds no identity twice, so the walk ends.
\<close>

definition untrodden :: "identity_table \<Rightarrow> artifact_identity list \<Rightarrow> nat" where
  "untrodden table trail = length [k \<leftarrow> dict_keys table. k \<notin> set trail]"

lemma untrodden_step:
  assumes "dict_get table identity = Some ds" "identity \<notin> set trail"
  shows "untrodden table (trail @ [identity]) < untrodden table trail"
proof -
  have k: "identity \<in> set (dict_keys table)"
    using assms(1) by (auto dest: map_of_SomeD intro: rev_image_eqI)
  have "[k \<leftarrow> dict_keys table. k \<notin> set (trail @ [identity])] = [k \<leftarrow> [k \<leftarrow> dict_keys table. k \<notin> set trail]. k \<noteq> identity]"
    by (auto intro: filter_cong)
  moreover have "identity \<in> set [k \<leftarrow> dict_keys table. k \<notin> set trail]"
    using k assms(2) by simp
  ultimately show ?thesis
    unfolding untrodden_def by (metis (mono_tags, lifting) length_filter_less)
qed

lemma untrodden_le: "untrodden table (trail @ [identity]) \<le> untrodden table trail"
proof -
  have "[k \<leftarrow> dict_keys table. k \<notin> set (trail @ [identity])] = [k \<leftarrow> [k \<leftarrow> dict_keys table. k \<notin> set trail]. k \<noteq> identity]"
    by (auto intro: filter_cong)
  then show ?thesis
    unfolding untrodden_def by (metis length_filter_le)
qed

function (sequential) visit_dependency ::
    "identity_table \<Rightarrow> artifact_identity list \<Rightarrow> artifact_identity \<Rightarrow> artifact_identity list \<Rightarrow> artifact_identity list result"
  and visit_dependencies ::
    "identity_table \<Rightarrow> artifact_identity list \<Rightarrow> artifact_identity list \<Rightarrow> artifact_identity list \<Rightarrow> artifact_identity list result" where
  "visit_dependency table trail identity visited =
     (if identity \<in> set trail then
        tree_error ARTIFACT_INVALID (''artifact dependency cycle: '' @ join '' -> '' (map identity_str (trail @ [identity]))) None
      else if identity \<in> set visited then Ok visited
      else map_ok (visit_dependencies table (trail @ [identity]) (dependencies_of table identity) visited) (Cons identity))"
| "visit_dependencies table trail [] visited = Ok visited"
| "visit_dependencies table trail (d # ds) visited =
     bind_result (visit_dependency table trail d visited) (\<lambda>visited'. visit_dependencies table trail ds visited')"
  by pat_completeness auto

termination
proof (relation "measures [\<lambda>x. case x of Inl (table, trail, _) \<Rightarrow> untrodden table trail | Inr (table, trail, _) \<Rightarrow> untrodden table trail,
     \<lambda>x. case x of Inl _ \<Rightarrow> 1 | Inr (_, _, ds, _) \<Rightarrow> 2 * length ds]")
  fix table :: identity_table and trail visited and identity :: artifact_identity
  assume off: "identity \<notin> set trail"
  show "(Inr (table, trail @ [identity], dependencies_of table identity, visited), Inl (table, trail, identity, visited))
     \<in> measures [\<lambda>x. case x of Inl (table, trail, _) \<Rightarrow> untrodden table trail | Inr (table, trail, _) \<Rightarrow> untrodden table trail,
          \<lambda>x. case x of Inl _ \<Rightarrow> 1 | Inr (_, _, ds, _) \<Rightarrow> 2 * length ds]"
  proof (cases "dict_get table identity")
    case None
    then show ?thesis
      using untrodden_le[of table trail identity] by (auto simp: dependencies_of_def)
  next
    case (Some ds)
    then show ?thesis
      using untrodden_step[OF Some off] by simp
  qed
qed auto

text \<open>The loop over the packages in the order of their identities.\<close>

definition walk_dependencies :: "identity_table \<Rightarrow> unit result" where
  "walk_dependencies table =
     map_ok (visit_dependencies table [] (sort_key identity_str (dict_keys table)) []) (\<lambda>_. ())"

definition validate_declared_dependencies ::
  "'i native_package list \<Rightarrow> (artifact_identity \<times> string) list option \<Rightarrow> unit result" where
  "validate_declared_dependencies packages referenced_origins =
     bind_result (dependency_table (packages_by_identity packages)
         (case referenced_origins of None \<Rightarrow> [] | Some origins \<Rightarrow> origins) packages [])
       walk_dependencies"

subsection \<open>Sources\<close>

text \<open>The loop over the candidates, with the identities seen so far.\<close>

fun load_packages ::
  "'i setup_codec \<Rightarrow> tree_table \<Rightarrow> package_key list \<Rightarrow> 'i native_package list \<Rightarrow> 'i native_package list result option" where
  "load_packages sx entries [] packages = Some (Ok packages)"
| "load_packages sx entries (key # keys) packages =
     read_bind (load_package sx entries key)
       (\<lambda>package.
          if np_identity package \<in> set (map np_identity packages) then
            Some (tree_error ARTIFACT_INVALID (''duplicate artifact identity: '' @ identity_str (np_identity package)) None)
          else load_packages sx entries keys (packages @ [package]))"

definition load_native_source ::
  "'i setup_codec \<Rightarrow> source_snapshot \<Rightarrow> semver \<Rightarrow> capability list \<Rightarrow> (artifact_identity \<times> string) list option
     \<Rightarrow> 'i native_source result option" where
  "load_native_source sx snapshot executable_version available referenced_origins =
     read_bind (Some (validated_entries (snap_entries snapshot) []))
       (\<lambda>entries.
          (case dict_get entries ''aart-source.json'' of
             None \<Rightarrow> Some (tree_error SOURCE_MARKER_MISSING ''native source requires aart-source.json at the acquired tree root'' None)
           | Some marker \<Rightarrow>
               if sne_kind marker \<noteq> SE_FILE then
                 Some (tree_error SOURCE_MARKER_MISSING ''native source requires aart-source.json at the acquired tree root'' None)
               else read_bind (parse_source_manifest (sne_content marker) ''aart-source.json'')
       (\<lambda>manifest. read_bind (Some (validate_protocol_entry_kinds entries manifest))
       (\<lambda>_.
          let diagnostics = native_compatibility_diagnostics manifest executable_version available in
          if diagnostics \<noteq> [] then Some (mk_err diagnostics)
          else read_bind (Some (package_candidates entries manifest))
       (\<lambda>candidates. read_bind (load_packages sx entries candidates [])
       (\<lambda>packages. read_bind (Some (validate_declared_dependencies packages referenced_origins))
       (\<lambda>_. read_bind (load_collections entries manifest)
       (\<lambda>collections.
          Some (Ok \<lparr>ns_manifest = manifest, ns_artifacts = sort_key (identity_str \<circ> np_identity) packages,
                    ns_collections = collections, ns_manifest_digest = json_digest (source_manifest_to_json manifest)\<rparr>)))))))))"


end
