(* ===== verification/ManifestCodec.thy ===== *)
theory ManifestCodec
  imports NativeSchema
begin

text \<open>
  The artifact manifest and its canonical projection: whatever document the reader accepts, the projection that the manifest digest is
  computed from is accepted again and read as the same manifest.
\<close>

subsection \<open>Texts and lists of texts\<close>

abbreviation fits_at :: "nat \<Rightarrow> json_value \<Rightarrow> bool" where
  "fits_at d v \<equiv> fits d MAX_DEPTH MAX_STRING_LENGTH v"

definition good_json :: "nat \<Rightarrow> json_value \<Rightarrow> bool" where
  "good_json d v \<longleftrightarrow> wf_json v \<and> fits_at d v"

lemma field_fits: "fits_at d (JObject es) \<Longrightarrow> json_field es n \<noteq> JNull \<Longrightarrow> fits_at (Suc d) (json_field es n)"
  by (auto simp: json_field_def json_get_def split: option.splits dest!: map_of_SomeD)

definition text_ok :: "bool \<Rightarrow> string \<Rightarrow> bool" where
  "text_ok single s \<longleftrightarrow> s \<noteq> [] \<and> strip s = s \<and> (single \<longrightarrow> CHR 0x0A \<notin> set s \<and> CHR 0x0D \<notin> set s) \<and> length s \<le> MAX_STRING_LENGTH"

lemma native_error_not_Ok [simp]: "native_error code message path \<noteq> Ok v"
  by (simp add: native_error_def mk_err_def)

lemma native_string_text: "text_ok single s \<Longrightarrow> native_string (JStr s) code label path single = Ok s"
  by (simp add: native_string_def text_ok_def)

lemma native_string_Ok:
  "native_string v code label path single = Ok s \<Longrightarrow> fits_at d v \<Longrightarrow> v = JStr s \<and> text_ok single s"
  by (auto simp: native_string_def text_ok_def split: json_value.splits if_splits)

lemma native_string_field:
  assumes "native_string (json_field es n) code label path single = Ok s" "fits_at d (JObject es)"
  shows "json_field es n = JStr s \<and> text_ok single s"
proof (rule native_string_Ok[OF assms(1)], rule field_fits[OF assms(2)])
  show "json_field es n \<noteq> JNull"
    using assms(1) by (auto simp: native_string_def)
qed

lemma native_field_Ok:
  "native_field es n code path single = Ok s \<Longrightarrow> fits_at d (JObject es) \<Longrightarrow> json_field es n = JStr s \<and> text_ok single s"
  unfolding native_field_def by (rule native_string_field)

lemma read_each_Ok: "read_each reader vs = Ok xs \<longleftrightarrow> list_all2 (\<lambda>v x. reader v = Ok x) vs xs"
  by (induction vs arbitrary: xs) (auto simp: bind_result_Ok map_ok_Ok list_all2_Cons1)

definition texts_ok :: "bool \<Rightarrow> string list \<Rightarrow> bool" where
  "texts_ok allow_empty xs \<longleftrightarrow> (allow_empty \<or> xs \<noteq> []) \<and> sorted xs \<and> distinct xs \<and> list_all (text_ok True) xs"

lemma native_strings_texts:
  assumes "texts_ok allow_empty xs"
  shows "native_strings (JArray (map JStr xs)) code label path allow_empty = Ok xs"
proof -
  have "read_each (\<lambda>item. native_string item code (label @ '' item'') path True) (map JStr xs) = Ok xs"
    using assms by (auto simp: read_each_Ok list_all2_conv_all_nth texts_ok_def list_all_length native_string_text)
  then show ?thesis
    using assms by (auto simp: native_strings_def texts_ok_def map_ok_Ok sorted_set_id)
qed

lemma native_strings_Ok:
  assumes "native_strings v code label path allow_empty = Ok xs" "fits_at d v"
  shows "texts_ok allow_empty xs"
proof -
  obtain items ys where v: "v = JArray items" "allow_empty \<or> items \<noteq> []" "xs = sorted_set ys"
    and ys: "list_all2 (\<lambda>v x. native_string v code (label @ '' item'') path True = Ok x) items ys"
    using assms(1) by (auto simp: native_strings_def map_ok_Ok read_each_Ok split: json_value.splits if_splits)
  have "text_ok True y" if y: "y \<in> set ys" for y
  proof -
    obtain item where "item \<in> set items" "native_string item code (label @ '' item'') path True = Ok y"
      using list_all2_set2_witness[OF ys y] by blast
    then show ?thesis
      using native_string_Ok[of item code _ path True y "Suc d"] assms(2) v(1) by auto
  qed
  moreover have "ys = [] \<longleftrightarrow> items = []"
    using ys by auto
  ultimately show ?thesis
    using v(2,3) by (auto simp: texts_ok_def list_all_iff)
qed

definition names_ok :: "string list option \<Rightarrow> bool \<Rightarrow> string list \<Rightarrow> bool" where
  "names_ok allowed allow_empty xs \<longleftrightarrow> texts_ok allow_empty xs \<and> rejected_name allowed xs = None"

lemma native_names_ok: "names_ok allowed allow_empty xs \<Longrightarrow> native_names (JArray (map JStr xs)) code label allowed path allow_empty = Ok xs"
  by (simp add: names_ok_def native_names_def native_strings_texts bind_result_Ok)

lemma native_names_Ok: "native_names v code label allowed path allow_empty = Ok xs \<Longrightarrow> fits_at d v \<Longrightarrow> names_ok allowed allow_empty xs"
  by (auto simp: names_ok_def native_names_def bind_result_Ok split: option.splits dest: native_strings_Ok)

lemma good_strings: "list_all (text_ok single) xs \<Longrightarrow> d < MAX_DEPTH \<Longrightarrow> good_json d (JArray (map JStr xs))"
  by (auto simp: good_json_def list_all_iff text_ok_def)

lemma good_texts: "texts_ok allow_empty xs \<Longrightarrow> d < MAX_DEPTH \<Longrightarrow> good_json d (JArray (map JStr xs))"
  using good_strings[of True] by (simp add: texts_ok_def)

lemma good_object:
  assumes "distinct (map fst es)" "d \<le> MAX_DEPTH" "\<And>k v. (k, v) \<in> set es \<Longrightarrow> length k \<le> MAX_STRING_LENGTH \<and> good_json (Suc d) v"
  shows "good_json d (json_object es)"
  using assms wf_json_object[OF assms(1)] by (auto simp: good_json_def json_object_def list_all_iff)

lemma text_length: "text_ok single s \<Longrightarrow> length s \<le> MAX_STRING_LENGTH"
  by (simp add: text_ok_def)

lemma good_text [simp]: "good_json d (JStr s) \<longleftrightarrow> d \<le> MAX_DEPTH \<and> length s \<le> MAX_STRING_LENGTH"
  by (simp add: good_json_def)

text \<open>A written object is read field by field.\<close>

lemma native_object_fields:
  assumes "fields_accepted es required optional ext" "set required \<inter> set optional = {}"
  shows "native_fields es required optional ext path = Ok es"
  using assms validate_object_fields_Ok[of es required optional ext _ es] by (simp add: native_fields_def)

lemma native_fields_Ok:
  assumes "native_fields es required optional ext path = Ok fs" "set required \<inter> set optional = {}"
  shows "fs = es" "fields_accepted es required optional ext"
proof -
  obtain r where r: "validate_object_fields es required optional ext (Some (native_location path None)) = Inr r"
    using assms(2) by (auto simp: validate_object_fields_def Let_def py_ok split: if_splits)
  then show "fs = es" "fields_accepted es required optional ext"
    using assms(1) validate_object_fields_Ok[of es required optional ext _ fs] by (simp_all add: native_fields_def)
qed

lemma field_written: "json_field (sort_key fst E) n = (case map_of E n of None \<Rightarrow> JNull | Some v \<Rightarrow> v)"
  by (simp add: json_field_def json_get_def map_of_sort_key)

lemma field_object: "json_object E = JObject es \<Longrightarrow> json_field es n = (case map_of E n of None \<Rightarrow> JNull | Some v \<Rightarrow> v)"
  by (auto simp: json_object_def field_written)

text \<open>A value is written back when the reader accepts the written value, under every path, as the same value.\<close>

definition reread :: "(json_value \<Rightarrow> string \<Rightarrow> 'a result) \<Rightarrow> nat \<Rightarrow> json_value \<Rightarrow> 'a \<Rightarrow> bool" where
  "reread reader d v x \<longleftrightarrow> good_json d v \<and> (\<forall>path. reader v path = Ok x)"

subsection \<open>Version bounds\<close>

lemma native_bound_absent: "n \<notin> set (json_keys es) \<Longrightarrow> native_bound es n code path = Ok None"
  by (simp add: native_bound_def)

lemma native_bound_Ok:
  assumes "native_bound es n code path = Ok b" "fits_at d (JObject es)"
  shows "b = None \<or> (\<exists>v. b = Some v \<and> valid_semver v \<and> text_ok False (semver_str v))"
  using assms native_string_field[of es n code n path False _ d]
  by (auto simp: native_bound_def bind_result_Ok map_ok_Ok parse_semver_Ok_iff split: if_splits)

lemma bounds_good:
  assumes "\<And>v. min_inclusive b = Some v \<or> max_exclusive b = Some v \<Longrightarrow> text_ok False (semver_str v)" "d < MAX_DEPTH"
  shows "good_json d (bounds_to_json b)"
  unfolding bounds_to_json_def
proof (rule good_object)
  show "length k \<le> MAX_STRING_LENGTH \<and> good_json (Suc d) v"
    if "(k, v) \<in> set (optional_member ''min_inclusive'' (JStr \<circ> semver_str) (min_inclusive b)
       @ optional_member ''max_exclusive'' (JStr \<circ> semver_str) (max_exclusive b))" for k v
    using that assms(2) assms(1)[THEN text_length] by (auto simp: optional_member_def split: option.splits)
qed (use assms(2) in \<open>auto simp: map_fst_optional\<close>)

lemma native_bounds_reread:
  assumes "native_bounds v code path = Ok b" "fits_at d v" "d < MAX_DEPTH"
  shows "reread (\<lambda>v. native_bounds v code) d (bounds_to_json b) b"
proof -
  obtain es where v: "v = JObject es" and d: "fits_at d (JObject es)"
    using assms by (auto simp: native_bounds_def native_object_def bind_result_Ok split: json_value.splits)
  obtain lo hi where lo: "native_bound es ''min_inclusive'' code path = Ok lo" and hi: "native_bound es ''max_exclusive'' code path = Ok hi"
    and b: "mk_version_bounds lo hi (Some (native_location path None)) = Ok b"
    using assms(1) v by (auto simp: native_bounds_def native_object_def bind_result_Ok dest!: native_fields_Ok(1))
  have w: "min_inclusive b = lo" "max_exclusive b = hi" "\<And>l. mk_version_bounds lo hi l = Ok b"
    using b by (auto simp: mk_version_bounds_Ok)
  note ends = native_bound_Ok[OF lo d] native_bound_Ok[OF hi d]
  obtain es' where es': "bounds_to_json b = JObject es'"
    by (simp add: bounds_to_json_def json_object_def)
  let ?es = "optional_member ''min_inclusive'' (JStr \<circ> semver_str) lo @ optional_member ''max_exclusive'' (JStr \<circ> semver_str) hi"
  have E: "json_object ?es = JObject es'" "es' = sort_key fst ?es"
    using es' w by (simp_all add: bounds_to_json_def json_object_def)
  have keys: "set (json_keys es') = set (map fst ?es)"
    using E(2) json_keys_object[of ?es] by (simp add: image_Un)
  have "native_bound es' ''min_inclusive'' code p = Ok lo" "native_bound es' ''max_exclusive'' code p = Ok hi" for p
    using ends by (auto simp: native_bound_def keys field_object[OF E(1)] optional_member_def native_string_text bind_result_Ok map_ok_Ok
        parse_semver_Ok_iff split: option.splits)
  moreover have "native_fields es' [] [''min_inclusive'', ''max_exclusive''] False p = Ok es'" for p
    by (rule native_object_fields) (auto simp: fields_accepted_def keys optional_member_def split: option.splits)
  ultimately have "native_bounds (bounds_to_json b) code p = Ok b" for p
    using w(3) by (simp add: native_bounds_def es' native_object_def bind_result_Ok)
  moreover have "good_json d (bounds_to_json b)"
    using ends assms(3) w by (intro bounds_good) auto
  ultimately show ?thesis
    by (simp add: reread_def)
qed


subsection \<open>The parts of a manifest\<close>

lemma fixed_fields:
  "set (map fst es) \<subseteq> set required \<Longrightarrow> set required \<subseteq> set (map fst es) \<Longrightarrow> native_fields es required [] False path = Ok es"
  by (rule native_object_fields) (auto simp: fields_accepted_def json_keys_def)

lemma field_read: "map_of es n = Some v \<Longrightarrow> json_field es n = v"
  by (simp add: json_field_def json_get_def)

lemma native_string_field_text:
  "map_of es n = Some (JStr s) \<Longrightarrow> text_ok single s \<Longrightarrow> native_string (json_field es n) code label path single = Ok s"
  by (simp add: field_read native_string_text)

lemma native_names_field:
  "map_of es n = Some (JStrings xs) \<Longrightarrow> names_ok allowed allow_empty xs \<Longrightarrow>
     native_names (json_field es n) code label allowed path allow_empty = Ok xs"
  by (simp add: field_read native_names_ok)

lemma native_names_read:
  assumes "native_names (json_field es n) code label allowed path allow_empty = Ok xs" "fits_at d (JObject es)"
  shows "names_ok allowed allow_empty xs"
proof (rule native_names_Ok[OF assms(1)], rule field_fits[OF assms(2)])
  show "json_field es n \<noteq> JNull"
    using assms(1) by (auto simp: native_names_def native_strings_def bind_result_Ok)
qed

lemma good_names: "names_ok allowed allow_empty xs \<Longrightarrow> d < MAX_DEPTH \<Longrightarrow> good_json d (JStrings xs)"
  by (auto simp: names_ok_def intro: good_texts)

abbreviation payload_json :: "payload_spec \<Rightarrow> json_value" where
  "payload_json p \<equiv> json_object [(''root'', JStr (path_str (pay_root p))), (''format'', JStr (pay_format p))]"

lemma payload_written:
  assumes "text_ok False (path_str (pay_root p))" "text_ok False (pay_format p)" "d < MAX_DEPTH"
    and "safe_path (pay_root p)" "path_str (pay_root p) = ''payload''" "pay_format p = payload_format_of kind"
  shows "reread (\<lambda>v. read_payload_spec v kind) d (payload_json p) p"
proof -
  have "good_json d (payload_json p)"
    by (rule good_object) (use assms(1,2)[THEN text_length] assms(3) in auto)
  moreover have "read_payload_spec (payload_json p) kind path' = Ok p" for path'
    using assms
    by (cases p) (auto simp: read_payload_spec_def native_object_def json_object_def fixed_fields bind_result_Ok native_string_field_text
        parse_relative_path_Ok_iff intro!: exI[of _ "pay_root p"])
  ultimately show ?thesis
    by (simp add: reread_def)
qed

lemma payload_reread:
  assumes "read_payload_spec v kind path = Ok p" "fits_at d v" "d < MAX_DEPTH"
  shows "reread (\<lambda>v. read_payload_spec v kind) d (payload_json p) p"
proof -
  obtain es where v: "v = JObject es" and d: "fits_at d (JObject es)"
    using assms by (auto simp: read_payload_spec_def native_object_def bind_result_Ok split: json_value.splits)
  show ?thesis
    by (rule payload_written[OF _ _ assms(3)])
      (use assms(1) v d in \<open>auto simp: read_payload_spec_def native_object_def bind_result_Ok parse_relative_path_Ok_iff
        dest!: native_fields_Ok(1) native_string_field split: if_splits\<close>)
qed

abbreviation compatibility_json :: "compatibility_spec \<Rightarrow> json_value" where
  "compatibility_json c \<equiv> json_object [(''profiles'', JStrings (comp_profiles c)), (''platforms'', JStrings (comp_platforms c))]"

lemma compatibility_reread:
  assumes "read_compatibility v path = Ok c" "fits_at d v" "Suc d < MAX_DEPTH"
  shows "reread read_compatibility d (compatibility_json c) c"
proof -
  obtain es where v: "v = JObject es" and d: "fits_at d (JObject es)"
    using assms by (auto simp: read_compatibility_def native_object_def bind_result_Ok split: json_value.splits)
  have names: "names_ok None False (comp_profiles c)" "names_ok None False (comp_platforms c)"
    using assms(1) v d
    by (auto simp: read_compatibility_def native_object_def bind_result_Ok map_ok_Ok dest!: native_fields_Ok(1) native_names_read)
  have "good_json d (compatibility_json c)"
    by (rule good_object) (use names[THEN good_names] assms(3) in auto)
  moreover have "read_compatibility (compatibility_json c) path' = Ok c" for path'
    using names by (simp add: read_compatibility_def native_object_def json_object_def fixed_fields bind_result_Ok map_ok_Ok native_names_field)
  ultimately show ?thesis
    by (simp add: reread_def)
qed

abbreviation install_spec_json :: "install_spec \<Rightarrow> json_value" where
  "install_spec_json i \<equiv>
     json_object [(''scopes'', JStrings (inst_scopes i)), (''modes'', JStrings (inst_modes i)), (''effects'', JStrings (inst_effects i))]"

lemma install_spec_reread:
  assumes "read_install_spec v path = Ok i" "fits_at d v" "Suc d < MAX_DEPTH"
  shows "reread read_install_spec d (install_spec_json i) i"
proof -
  obtain es where v: "v = JObject es" and d: "fits_at d (JObject es)"
    using assms by (auto simp: read_install_spec_def native_object_def bind_result_Ok split: json_value.splits)
  have names: "names_ok (Some [''project'', ''user'']) False (inst_scopes i)" "names_ok (Some [''copy'', ''symlink'']) False (inst_modes i)"
    "names_ok (Some [''copy-tree'', ''write-file'', ''merge-json'', ''managed-block'']) False (inst_effects i)"
    using assms(1) v d
    by (auto simp: read_install_spec_def native_object_def bind_result_Ok map_ok_Ok dest!: native_fields_Ok(1) native_names_read)
  have "good_json d (install_spec_json i)"
    by (rule good_object) (use names[THEN good_names] assms(3) in auto)
  moreover have "read_install_spec (install_spec_json i) path' = Ok i" for path'
    using names by (simp add: read_install_spec_def native_object_def json_object_def fixed_fields bind_result_Ok map_ok_Ok native_names_field)
  ultimately show ?thesis
    by (simp add: reread_def)
qed

lemma setup_reread:
  assumes "read_setup_reference v compatibility path = Ok s" "fits_at d v" "Suc d < MAX_DEPTH"
  shows "reread (\<lambda>v. read_setup_reference v compatibility) d (setup_to_json s) s"
proof -
  obtain es where v: "v = JObject es" and d: "fits_at d (JObject es)"
    using assms by (auto simp: read_setup_reference_def native_object_def bind_result_Ok split: json_value.splits)
  have recipe: "text_ok False (path_str (set_recipe s))" and names: "names_ok None False (set_platforms s)"
    and s: "safe_path (set_recipe s)" "take 1 (path_parts (set_recipe s)) = [''setup'']" "set (set_platforms s) \<subseteq> set (comp_platforms compatibility)"
    using assms(1) v d
    by (auto simp: read_setup_reference_def native_object_def bind_result_Ok parse_relative_path_Ok_iff
        dest!: native_fields_Ok(1) native_names_read native_string_field split: if_splits)
  have "good_json d (setup_to_json s)"
    unfolding setup_to_json_def
    by (rule good_object) (use good_names[OF names] text_length[OF recipe] assms(3) in auto)
  moreover have "read_setup_reference (setup_to_json s) compatibility path' = Ok s" for path'
    using names recipe s
    by (cases s) (auto simp: read_setup_reference_def setup_to_json_def native_object_def json_object_def fixed_fields bind_result_Ok
        native_names_field native_string_field_text parse_relative_path_Ok_iff intro!: exI[of _ "set_recipe s"])
  ultimately show ?thesis
    by (simp add: reread_def)
qed


subsection \<open>Selectors\<close>

lemma selector_reread:
  assumes "read_artifact_selector v path = Ok s" "fits_at d v" "Suc d < MAX_DEPTH"
  shows "reread read_artifact_selector d (selector_to_json s) s"
proof -
  obtain es where v: "v = JObject es" and d: "fits_at d (JObject es)"
    using assms by (auto simp: read_artifact_selector_def native_object_def bind_result_Ok split: json_value.splits)
  obtain kind name where s: "sel_identity s = ArtifactIdentity kind name" "kind \<in> set (dict_keys PAYLOAD_FORMAT_BY_TYPE)" "slug_match name"
    and texts: "text_ok False kind" "text_ok False name"
    and version: "case sel_version s of None \<Rightarrow> True
       | Some b \<Rightarrow> native_bounds (json_field es ''version'') COLLECTION_INVALID path = Ok b"
    using assms(1) v d
    by (auto simp: read_artifact_selector_def native_object_def bind_result_Ok map_ok_Ok
        dest!: native_fields_Ok(1) native_field_Ok split: if_splits simp del: set_map del: imageE)
  have bounds: "reread (\<lambda>v. native_bounds v COLLECTION_INVALID) (Suc d) (bounds_to_json b) b" if b: "sel_version s = Some b" for b
  proof (rule native_bounds_reread[OF _ _ assms(3)])
    show read: "native_bounds (json_field es ''version'') COLLECTION_INVALID path = Ok b"
      using version b by simp
    show "fits_at (Suc d) (json_field es ''version'')"
      by (rule field_fits[OF d]) (use read in \<open>auto simp: native_bounds_def native_object_def bind_result_Ok\<close>)
  qed
  have "good_json d (selector_to_json s)"
    unfolding selector_to_json_def s(1)
    by (rule good_object) (use texts[THEN text_length] assms(3) bounds in \<open>auto simp: optional_member_def reread_def split: option.splits\<close>)
  moreover have "read_artifact_selector (selector_to_json s) path' = Ok s" for path'
  proof (cases "sel_version s")
    case None
    let ?es = "[(''name'', JStr name), (''type'', JStr kind)]"
    have "native_fields ?es [''type'', ''name''] [''version''] False path' = Ok ?es"
      by (rule native_object_fields) (auto simp: fields_accepted_def json_keys_def)
    then show ?thesis
      using None s texts
      by (cases s) (simp add: read_artifact_selector_def selector_to_json_def optional_member_def native_object_def json_object_def
          bind_result_Ok native_field_def native_string_field_text json_keys_def)
  next
    case (Some b)
    let ?es = "[(''name'', JStr name), (''type'', JStr kind), (''version'', bounds_to_json b)]"
    have "native_fields ?es [''type'', ''name''] [''version''] False path' = Ok ?es"
      by (rule native_object_fields) (auto simp: fields_accepted_def json_keys_def)
    moreover have "native_bounds (json_field ?es ''version'') COLLECTION_INVALID path' = Ok b"
      using bounds[OF Some] by (simp add: field_read reread_def)
    ultimately show ?thesis
      using Some s texts
      by (cases s) (simp add: read_artifact_selector_def selector_to_json_def optional_member_def native_object_def json_object_def
          bind_result_Ok map_ok_Ok native_field_def native_string_field_text json_keys_def)
  qed
  ultimately show ?thesis
    by (simp add: reread_def)
qed

lemma read_each_written: "(\<And>x. x \<in> set xs \<Longrightarrow> reader (write x) = Ok x) \<Longrightarrow> read_each reader (map write xs) = Ok xs"
  by (induction xs) (simp_all add: bind_result_def map_ok_def)

abbreviation selector_key :: "artifact_selector \<Rightarrow> string" where
  "selector_key \<equiv> identity_str \<circ> sel_identity"

definition requires_ok :: "artifact_identity \<Rightarrow> artifact_selector list \<Rightarrow> bool" where
  "requires_ok identity xs \<longleftrightarrow> sorted (map selector_key xs) \<and> distinct (map sel_identity xs) \<and>
     list_all (\<lambda>s. sel_identity s \<noteq> identity \<and> reread read_artifact_selector 2 (selector_to_json s) s) xs"

lemma requires_read:
  assumes "read_requires es identity path = Ok xs" "fits_at 0 (JObject es)"
  shows "requires_ok identity xs"
proof (cases "''requires'' \<in> set (json_keys es)")
  case False
  then show ?thesis
    using assms(1) by (simp add: read_requires_def requires_ok_def)
next
  case True
  define own where "own item = bind_result (read_artifact_selector item path)
     (\<lambda>s. if sel_identity s = identity then native_error ARTIFACT_INVALID ''artifact must not require itself'' path else Ok s)" for item
  have own: "own v = Ok s \<longleftrightarrow> read_artifact_selector v path = Ok s \<and> sel_identity s \<noteq> identity" for v s
    by (auto simp: own_def bind_result_Ok split: if_splits)
  obtain items ys where items: "json_field es ''requires'' = JArray items" and xs: "xs = sort_key selector_key ys" "distinct (map sel_identity ys)"
    and "list_all2 (\<lambda>v s. own v = Ok s) items ys"
    using assms(1) True unfolding read_requires_def own_def[symmetric]
    by (auto simp: bind_result_Ok[where r="read_each _ _"] read_each_Ok split: json_value.splits if_splits)
  then have ys: "list_all2 (\<lambda>v s. read_artifact_selector v path = Ok s \<and> sel_identity s \<noteq> identity) items ys"
    by (simp add: own)
  have "fits_at (Suc 0) (JArray items)"
    using field_fits[OF assms(2), of "''requires''"] items by simp
  then have "reread read_artifact_selector 2 (selector_to_json s) s \<and> sel_identity s \<noteq> identity" if s: "s \<in> set ys" for s
    using list_all2_set2_witness[OF ys s] selector_reread[of _ path s 2] by (auto simp: numeral_2_eq_2)
  moreover have "distinct (map sel_identity (sort_key selector_key ys)) \<longleftrightarrow> distinct (map sel_identity ys)"
    by (rule mset_eq_imp_distinct_iff) simp
  ultimately show ?thesis
    using xs by (auto simp: requires_ok_def list_all_iff)
qed

lemma requires_written:
  assumes "requires_ok identity xs" "map_of es ''requires'' = (if xs = [] then None else Some (JArray (map selector_to_json xs)))"
  shows "read_requires es identity path = Ok xs"
proof (cases "xs = []")
  case True
  then show ?thesis
    using assms(2) by (simp add: read_requires_def json_keys_def map_of_eq_None_iff)
next
  case False
  have "''requires'' \<in> set (json_keys es)"
    using assms(2) False by (auto simp: json_keys_def dest: map_of_SomeD intro: rev_image_eqI)
  moreover have "read_each (\<lambda>item. bind_result (read_artifact_selector item path)
       (\<lambda>s. if sel_identity s = identity then native_error ARTIFACT_INVALID ''artifact must not require itself'' path else Ok s))
       (map selector_to_json xs) = Ok xs"
    by (rule read_each_written) (use assms(1) in \<open>auto simp: requires_ok_def list_all_iff reread_def bind_result_def\<close>)
  ultimately show ?thesis
    using assms False by (simp add: read_requires_def field_read requires_ok_def bind_result_Ok sort_key_id_if_sorted)
qed


lemma requires_good: "requires_ok identity xs \<Longrightarrow> good_json 1 (JArray (map selector_to_json xs))"
  by (auto simp: requires_ok_def good_json_def reread_def list_all_iff numeral_2_eq_2)

subsection \<open>Extensions\<close>

definition extensions_ok :: "string list \<Rightarrow> extensions \<Rightarrow> bool" where
  "extensions_ok known xs \<longleftrightarrow> sorted (map fst xs) \<and> distinct (map fst xs) \<and>
     list_all (\<lambda>e. fst e \<notin> set known \<and> is_namespaced_extension (fst e) \<and> length (fst e) \<le> MAX_STRING_LENGTH \<and> good_json 1 (snd e)) xs"

lemma extensions_read:
  assumes "good_json 0 (JObject es)" "fields_accepted es required optional True"
  shows "extensions_ok (required @ optional) (native_extensions es (required @ optional))"
proof -
  let ?xs = "native_extensions es (required @ optional)"
  have "sorted (map fst ?xs)" "distinct (map fst ?xs)"
    using assms(1) by (auto simp: good_json_def native_extensions_def sorted_filter distinct_map_filter)
  moreover have "is_namespaced_extension k \<and> length k \<le> MAX_STRING_LENGTH \<and> good_json 1 v" if "(k, v) \<in> set ?xs" for k v
    using that assms by (auto simp: good_json_def native_extensions_def fields_accepted_def json_keys_def)
  ultimately show ?thesis
    by (auto simp: extensions_ok_def list_all_iff native_extensions_def)
qed

lemma extensions_written:
  assumes "extensions_ok known xs" "fst ` set E \<subseteq> set known"
  shows "native_extensions (sort_key fst (E @ xs)) known = xs" "n \<in> set known \<Longrightarrow> map_of (sort_key fst (E @ xs)) n = map_of E n"
proof -
  have "filter (\<lambda>e. fst e \<notin> set known) E = []" "filter (\<lambda>e. fst e \<notin> set known) xs = xs"
    using assms by (auto simp: filter_empty_conv filter_id_conv extensions_ok_def list_all_iff)
  then show "native_extensions (sort_key fst (E @ xs)) known = xs"
    using assms(1) by (simp add: native_extensions_def filter_sort extensions_ok_def sort_key_id_if_sorted)
  assume "n \<in> set known"
  then have "map_of xs n = None"
    using assms(1) by (auto simp: map_of_eq_None_iff extensions_ok_def list_all_iff)
  then show "map_of (sort_key fst (E @ xs)) n = map_of E n"
    by (simp add: map_of_sort_key map_add_def split: option.splits)
qed

lemma extended_fields:
  assumes "extensions_ok (required @ optional) xs" "fst ` set E \<subseteq> set (required @ optional)" "set required \<subseteq> fst ` set E"
    "set required \<inter> set optional = {}"
  shows "native_fields (sort_key fst (E @ xs)) required optional True path = Ok (sort_key fst (E @ xs))"
  by (rule native_object_fields) (use assms in \<open>auto simp: fields_accepted_def json_keys_object extensions_ok_def list_all_iff\<close>)

lemma extended_good:
  assumes "extensions_ok known xs" "fst ` set E \<subseteq> set known" "distinct (map fst E)"
    "\<And>k v. (k, v) \<in> set E \<Longrightarrow> length k \<le> MAX_STRING_LENGTH \<and> good_json 1 v"
  shows "good_json 0 (json_object (E @ xs))"
  by (rule good_object) (use assms in \<open>force simp: extensions_ok_def list_all_iff\<close>)+

subsection \<open>Artifact manifests\<close>

lemma optional_read_Ok:
  "optional_read es n reader = Ok x \<longleftrightarrow>
     (if n \<in> set (json_keys es) then \<exists>y. reader (json_field es n) = Ok y \<and> x = Some y else x = None)"
  by (auto simp: optional_read_def map_ok_Ok)

lemma optional_read_written:
  assumes "map_of es n = map_option write x" "\<And>y. x = Some y \<Longrightarrow> reader (write y) = Ok y"
  shows "optional_read es n reader = Ok x"
  using assms by (cases x) (auto simp: optional_read_def field_read json_keys_def map_of_eq_None_iff map_ok_def dest: map_of_SomeD intro: rev_image_eqI)

definition manifest_ok :: "artifact_manifest \<Rightarrow> bool" where
  "manifest_ok m \<longleftrightarrow>
     am_schema_version m = 1 \<and>
     (case am_identity m of ArtifactIdentity kind name \<Rightarrow>
        kind \<in> set (dict_keys PAYLOAD_FORMAT_BY_TYPE) \<and> slug_match name \<and> text_ok False kind \<and> text_ok False name \<and>
        reread (\<lambda>v. read_payload_spec v kind) 1 (payload_json (am_payload m)) (am_payload m) \<and>
        set (inst_effects (am_install m)) \<subseteq> set (install_effects_of kind)) \<and>
     valid_semver (am_version m) \<and> text_ok False (semver_str (am_version m)) \<and> text_ok True (am_summary m) \<and>
     reread read_compatibility 1 (compatibility_json (am_compatibility m)) (am_compatibility m) \<and>
     reread read_install_spec 1 (install_spec_json (am_install m)) (am_install m) \<and>
     (am_requires_aart m \<noteq> any_version \<longrightarrow>
        reread (\<lambda>v. native_bounds v ARTIFACT_INVALID) 1 (bounds_to_json (am_requires_aart m)) (am_requires_aart m)) \<and>
     requires_ok (am_identity m) (am_requires m) \<and>
     (\<forall>s. am_setup m = Some s \<longrightarrow> reread (\<lambda>v. read_setup_reference v (am_compatibility m)) 1 (setup_to_json s) s) \<and>
     texts_ok True (am_authors m) \<and>
     (\<forall>s. am_license m = Some s \<longrightarrow> text_ok True s) \<and>
     (\<forall>s. am_homepage m = Some s \<longrightarrow> text_ok False s \<and> safe_https_url s) \<and>
     extensions_ok (ARTIFACT_FIELDS @ ARTIFACT_OPTIONAL) (am_extensions m)"


lemma readers_of_null [simp]:
  "native_object JNull code label path \<noteq> Ok es" "native_string JNull code label path single \<noteq> Ok s"
  "native_strings JNull code label path allow_empty \<noteq> Ok xs"
  by (simp_all add: native_object_def native_string_def native_strings_def)

lemma part_readers_of_null [simp]:
  "read_payload_spec JNull kind path \<noteq> Ok p" "read_compatibility JNull path \<noteq> Ok c" "read_install_spec JNull path \<noteq> Ok i"
  "native_bounds JNull code path \<noteq> Ok b" "read_setup_reference JNull c path \<noteq> Ok s"
  by (simp_all add: read_payload_spec_def read_compatibility_def read_install_spec_def native_bounds_def read_setup_reference_def bind_result_Ok)

lemma manifest_read:
  assumes "read_artifact_manifest es path = Ok m" "good_json 0 (JObject es)"
  shows "manifest_ok m"
proof -
  have d: "fits_at 0 (JObject es)"
    using assms(2) by (simp add: good_json_def)
  have disjoint: "set ARTIFACT_FIELDS \<inter> set ARTIFACT_OPTIONAL = {}"
    by (simp add: ARTIFACT_FIELDS_def ARTIFACT_OPTIONAL_def)
  obtain fs where "native_fields es ARTIFACT_FIELDS ARTIFACT_OPTIONAL True path = Ok fs"
    using assms(1) by (auto simp: read_artifact_manifest_def bind_result_Ok)
  note f = native_fields_Ok[OF this disjoint] this[unfolded native_fields_Ok(1)[OF this disjoint]]
  obtain kind name bounds authors where
    head: "am_schema_version m = 1" "am_identity m = ArtifactIdentity kind name" "kind \<in> set (dict_keys PAYLOAD_FORMAT_BY_TYPE)" "slug_match name"
      "native_field es ''type'' ARTIFACT_INVALID path False = Ok kind" "native_field es ''name'' ARTIFACT_INVALID path False = Ok name" and
    version: "native_field es ''version'' ARTIFACT_INVALID path False = Ok (semver_str (am_version m))" "valid_semver (am_version m)" and
    summary: "native_field es ''summary'' ARTIFACT_INVALID path True = Ok (am_summary m)" and
    payload: "read_payload_spec (json_field es ''payload'') kind path = Ok (am_payload m)" and
    compatibility: "read_compatibility (json_field es ''compatibility'') path = Ok (am_compatibility m)" and
    install: "read_install_spec (json_field es ''install'') path = Ok (am_install m)" "set (inst_effects (am_install m)) \<subseteq> set (install_effects_of kind)" and
    bounds: "optional_read es ''requires_aart'' (\<lambda>v. native_bounds v ARTIFACT_INVALID path) = Ok bounds"
      "am_requires_aart m = (case bounds of None \<Rightarrow> any_version | Some b \<Rightarrow> b)" and
    requires: "read_requires es (am_identity m) path = Ok (am_requires m)" and
    recipe: "optional_read es ''setup'' (\<lambda>v. read_setup_reference v (am_compatibility m) path) = Ok (am_setup m)" and
    authors: "optional_read es ''authors'' (\<lambda>v. native_strings v ARTIFACT_INVALID ''authors'' path True) = Ok authors"
      "am_authors m = (case authors of None \<Rightarrow> [] | Some xs \<Rightarrow> xs)" and
    license: "optional_read es ''license'' (\<lambda>v. native_string v ARTIFACT_INVALID ''license'' path True) = Ok (am_license m)" and
    homepage: "optional_read es ''homepage'' (\<lambda>v. read_homepage v path) = Ok (am_homepage m)" and
    extensions: "am_extensions m = native_extensions es (ARTIFACT_FIELDS @ ARTIFACT_OPTIONAL)"
    using assms(1) unfolding read_artifact_manifest_def f(3)
    by (clarsimp simp: bind_result_Ok map_ok_Ok parse_semver_Ok_iff native_version_one_def split: if_splits simp del: set_map)
  have exts: "extensions_ok (ARTIFACT_FIELDS @ ARTIFACT_OPTIONAL) (am_extensions m)"
    unfolding extensions by (rule extensions_read[OF assms(2) f(2)])
  have member: "fits_at 1 (json_field es n)" if "json_field es n \<noteq> JNull" for n
    using field_fits[OF d that] by simp
  have deep: "(1 :: nat) < MAX_DEPTH" "Suc 1 < MAX_DEPTH"
    by simp_all
  have part1: "reread (\<lambda>v. read_payload_spec v kind) 1 (payload_json (am_payload m)) (am_payload m)"
    by (rule payload_reread[OF payload member deep(1)]) (use payload in auto)
  have part2: "reread read_compatibility 1 (compatibility_json (am_compatibility m)) (am_compatibility m)"
    by (rule compatibility_reread[OF compatibility member deep(2)]) (use compatibility in auto)
  have part3: "reread read_install_spec 1 (install_spec_json (am_install m)) (am_install m)"
    by (rule install_spec_reread[OF install(1) member deep(2)]) (use install in auto)
  have aart: "reread (\<lambda>v. native_bounds v ARTIFACT_INVALID) 1 (bounds_to_json (am_requires_aart m)) (am_requires_aart m)"
    if "am_requires_aart m \<noteq> any_version"
  proof -
    have b: "native_bounds (json_field es ''requires_aart'') ARTIFACT_INVALID path = Ok (am_requires_aart m)"
      using bounds that by (auto simp: optional_read_Ok split: if_splits)
    show ?thesis
      by (rule native_bounds_reread[OF b member deep(1)]) (use b in auto)
  qed
  have reference: "reread (\<lambda>v. read_setup_reference v (am_compatibility m)) 1 (setup_to_json s) s" if "am_setup m = Some s" for s
  proof -
    have r: "read_setup_reference (json_field es ''setup'') (am_compatibility m) path = Ok s"
      using recipe that by (auto simp: optional_read_Ok split: if_splits)
    show ?thesis
      by (rule setup_reread[OF r member deep(2)]) (use r in auto)
  qed
  have "texts_ok allow_empty xs" if r: "native_strings (json_field es n) ARTIFACT_INVALID n path allow_empty = Ok xs" for n allow_empty xs
    by (rule native_strings_Ok[OF r member]) (use r in auto)
  then have "texts_ok True (am_authors m)"
    using authors by (auto simp: optional_read_Ok texts_ok_def[of True "[]"] split: if_splits)
  moreover have "text_ok True s" if "am_license m = Some s" for s
    using license that native_string_field[OF _ d] by (auto simp: optional_read_Ok split: if_splits)
  moreover have "text_ok False s \<and> safe_https_url s" if "am_homepage m = Some s" for s
    using homepage that native_string_field[OF _ d] by (auto simp: optional_read_Ok read_homepage_def bind_result_Ok split: if_splits)
  ultimately show ?thesis
    unfolding manifest_ok_def
    using head version(2) part1 part2 part3 aart reference requires_read[OF requires d] exts install(2)
      native_field_Ok[OF head(5) d] native_field_Ok[OF head(6) d] native_field_Ok[OF version(1) d] native_field_Ok[OF summary d]
    by (simp del: set_map)
qed

definition good_member :: "string \<times> json_value \<Rightarrow> bool" where
  "good_member e \<longleftrightarrow> length (fst e) \<le> MAX_STRING_LENGTH \<and> good_json 1 (snd e)"

lemma good_optional:
  "(\<And>y. x = Some y \<Longrightarrow> good_json 1 (write y)) \<Longrightarrow> length n \<le> MAX_STRING_LENGTH \<Longrightarrow> list_all good_member (optional_member n write x)"
  by (cases x) (simp_all add: optional_member_def good_member_def)

lemma good_nonempty:
  "good_json 1 (write xs) \<Longrightarrow> length n \<le> MAX_STRING_LENGTH \<Longrightarrow> list_all good_member (nonempty_member n write xs)"
  by (simp add: nonempty_member_def good_member_def)

lemma manifest_written:
  assumes "manifest_ok m"
  shows "good_json 0 (artifact_manifest_to_json m)"
    "artifact_manifest_to_json m = JObject es \<Longrightarrow> read_artifact_manifest es path = Ok m"
proof -
  obtain kind name where identity: "am_identity m = ArtifactIdentity kind name"
    by (cases "am_identity m")
  define E where "E = [(''schema_version'', JInt (am_schema_version m)), (''type'', JStr kind), (''name'', JStr name),
       (''version'', JStr (semver_str (am_version m))), (''summary'', JStr (am_summary m)), (''payload'', payload_json (am_payload m)),
       (''compatibility'', compatibility_json (am_compatibility m)), (''install'', install_spec_json (am_install m))]
     @ optional_member ''setup'' setup_to_json (am_setup m) @ nonempty_member ''authors'' JStrings (am_authors m)
     @ optional_member ''license'' JStr (am_license m) @ optional_member ''homepage'' JStr (am_homepage m)
     @ (if am_requires_aart m = any_version then [] else [(''requires_aart'', bounds_to_json (am_requires_aart m))])
     @ nonempty_member ''requires'' (JArray \<circ> map selector_to_json) (am_requires m)"
  let ?known = "ARTIFACT_FIELDS @ ARTIFACT_OPTIONAL"
  have w: "artifact_manifest_to_json m = json_object (E @ am_extensions m)"
    by (simp add: artifact_manifest_to_json_def E_def identity)
  have keys: "fst ` set E \<subseteq> set ?known" "set ARTIFACT_FIELDS \<subseteq> fst ` set E" "distinct (map fst E)"
    by (auto simp: E_def ARTIFACT_FIELDS_def ARTIFACT_OPTIONAL_def optional_member_def nonempty_member_def split: option.splits)
  note ok = assms[unfolded manifest_ok_def identity, simplified]
  have exts: "extensions_ok ?known (am_extensions m)"
    using ok by simp
  have one: "good_json 1 (JInt 1)"
    by (simp add: good_json_def protocol_int_def MIN_PROTOCOL_INTEGER_def MAX_PROTOCOL_INTEGER_def)
  have "list_all good_member E"
    unfolding E_def list_all_append
    using ok one requires_good[of "ArtifactIdentity kind name" "am_requires m"]
    by (intro conjI good_optional good_nonempty) (auto simp: good_member_def reread_def text_length intro: good_texts)
  then have members: "length k \<le> MAX_STRING_LENGTH \<and> good_json 1 v" if "(k, v) \<in> set E" for k v
    using that by (auto simp: list_all_iff good_member_def)
  show "good_json 0 (artifact_manifest_to_json m)"
    unfolding w by (rule extended_good[OF exts keys(1,3) members])
  let ?es = "sort_key fst (E @ am_extensions m)"
  have get: "map_of ?es ''schema_version'' = Some (JInt 1)" "map_of ?es ''type'' = Some (JStr kind)" "map_of ?es ''name'' = Some (JStr name)"
    "map_of ?es ''version'' = Some (JStr (semver_str (am_version m)))" "map_of ?es ''summary'' = Some (JStr (am_summary m))"
    "map_of ?es ''payload'' = Some (payload_json (am_payload m))"
    "map_of ?es ''compatibility'' = Some (compatibility_json (am_compatibility m))"
    "map_of ?es ''install'' = Some (install_spec_json (am_install m))"
    "map_of ?es ''setup'' = map_option setup_to_json (am_setup m)"
    "map_of ?es ''authors'' = map_option JStrings (if am_authors m = [] then None else Some (am_authors m))"
    "map_of ?es ''license'' = map_option JStr (am_license m)" "map_of ?es ''homepage'' = map_option JStr (am_homepage m)"
    "map_of ?es ''requires_aart'' = map_option bounds_to_json (if am_requires_aart m = any_version then None else Some (am_requires_aart m))"
    "map_of ?es ''requires'' = (if am_requires m = [] then None else Some (JArray (map selector_to_json (am_requires m))))"
    by (subst extensions_written(2)[OF exts keys(1)], simp add: ARTIFACT_FIELDS_def ARTIFACT_OPTIONAL_def,
        use ok in \<open>simp add: E_def optional_member_def nonempty_member_def split: option.splits\<close>)+
  have f: "native_fields ?es ARTIFACT_FIELDS ARTIFACT_OPTIONAL True path = Ok ?es"
    by (rule extended_fields[OF exts keys(1,2)]) (simp add: ARTIFACT_FIELDS_def ARTIFACT_OPTIONAL_def)
  have texts: "native_field ?es ''type'' ARTIFACT_INVALID path False = Ok kind" "native_field ?es ''name'' ARTIFACT_INVALID path False = Ok name"
    "native_field ?es ''version'' ARTIFACT_INVALID path False = Ok (semver_str (am_version m))"
    "native_field ?es ''summary'' ARTIFACT_INVALID path True = Ok (am_summary m)"
    unfolding native_field_def using ok get by (simp_all add: native_string_field_text)
  have version: "parse_semver (semver_str (am_version m)) l = Ok (am_version m)" for l
    using ok by (simp add: parse_semver_Ok_iff)
  have parts: "native_version_one ?es ''schema_version'' ARTIFACT_INVALID path = Ok 1"
    "read_payload_spec (json_field ?es ''payload'') kind path = Ok (am_payload m)"
    "read_compatibility (json_field ?es ''compatibility'') path = Ok (am_compatibility m)"
    "read_install_spec (json_field ?es ''install'') path = Ok (am_install m)"
    using ok get by (simp_all add: field_read native_version_one_def native_integer_def bind_result_Ok reread_def)
  have opt1: "optional_read ?es ''requires_aart'' (\<lambda>v. native_bounds v ARTIFACT_INVALID path)
       = Ok (if am_requires_aart m = any_version then None else Some (am_requires_aart m))"
    by (rule optional_read_written[OF get(13)]) (use ok in \<open>auto simp: reread_def native_strings_texts native_string_text read_homepage_def bind_result_Ok split: if_splits\<close>)
  have opt2: "optional_read ?es ''setup'' (\<lambda>v. read_setup_reference v (am_compatibility m) path) = Ok (am_setup m)"
    by (rule optional_read_written[OF get(9)]) (use ok in \<open>auto simp: reread_def native_strings_texts native_string_text read_homepage_def bind_result_Ok split: if_splits\<close>)
  have opt3: "optional_read ?es ''authors'' (\<lambda>v. native_strings v ARTIFACT_INVALID ''authors'' path True)
       = Ok (if am_authors m = [] then None else Some (am_authors m))"
    by (rule optional_read_written[OF get(10)]) (use ok in \<open>auto simp: reread_def native_strings_texts native_string_text read_homepage_def bind_result_Ok split: if_splits\<close>)
  have opt4: "optional_read ?es ''license'' (\<lambda>v. native_string v ARTIFACT_INVALID ''license'' path True) = Ok (am_license m)"
    by (rule optional_read_written[OF get(11)]) (use ok in \<open>auto simp: reread_def native_strings_texts native_string_text read_homepage_def bind_result_Ok split: if_splits\<close>)
  have opt5: "optional_read ?es ''homepage'' (\<lambda>v. read_homepage v path) = Ok (am_homepage m)"
    by (rule optional_read_written[OF get(12)]) (use ok in \<open>auto simp: reread_def native_strings_texts native_string_text read_homepage_def bind_result_Ok split: if_splits\<close>)
  note optional = opt1 opt2 opt3 opt4 opt5
  have requires: "read_requires ?es (ArtifactIdentity kind name) path = Ok (am_requires m)"
    using ok by (intro requires_written[OF _ get(14)]) simp
  show "read_artifact_manifest es path = Ok m" if "artifact_manifest_to_json m = JObject es"
  proof -
    have es: "es = ?es"
      using that w by (simp add: json_object_def)
    show ?thesis
      unfolding read_artifact_manifest_def es f texts version parts optional requires bind_result_def map_ok_def result.case
      using ok identity extensions_written(1)[OF exts keys(1)] by (cases m) (auto simp: texts version parts optional requires)
  qed
qed

lemma native_document_Ok:
  "native_document data code path = Some (Ok es) \<longleftrightarrow>
     parse_json data (Some (native_location path None)) MAX_DEPTH MAX_STRING_LENGTH = Some (Ok (JObject es))"
proof -
  have "native_object v code label path = Ok es \<longleftrightarrow> v = JObject es" for v label
    by (cases v) (simp_all add: native_object_def)
  then show ?thesis
    by (auto simp: native_document_def bind_result_Ok)
qed

lemma parsed_manifest_ok:
  assumes "parse_artifact_manifest data path = Some (Ok m)"
  shows "manifest_ok m"
proof -
  obtain es where es: "native_document data ARTIFACT_INVALID path = Some (Ok es)" "read_artifact_manifest es path = Ok m"
    using assms by (auto simp: parse_artifact_manifest_def bind_result_Ok)
  show ?thesis
    by (rule manifest_read[OF es(2)]) (use parse_json_wf[OF es(1)[unfolded native_document_Ok]] in \<open>simp add: good_json_def\<close>)
qed

lemma manifest_reparsed:
  assumes "manifest_ok m"
  shows "parse_artifact_manifest (canonical_json_bytes (artifact_manifest_to_json m)) path = Some (Ok m)"
proof -
  obtain es where es: "artifact_manifest_to_json m = JObject es"
    by (simp add: artifact_manifest_to_json_def json_object_def)
  have "native_document (canonical_json_bytes (JObject es)) ARTIFACT_INVALID path = Some (Ok es)"
    unfolding native_document_Ok using manifest_written(1)[OF assms] es by (intro parse_canonical_json) (simp_all add: good_json_def)
  then show ?thesis
    using manifest_written(2)[OF assms es] by (simp add: es parse_artifact_manifest_def bind_result_def)
qed

definition sample_artifact_manifest :: artifact_manifest where
  "sample_artifact_manifest =
     \<lparr>am_schema_version = 1, am_identity = ArtifactIdentity ''memory'' ''notes'',
      am_version = \<lparr>sv_major = 1, sv_minor = 0, sv_patch = 0, sv_prerelease = [], sv_build = []\<rparr>, am_summary = ''Notes'',
      am_payload = \<lparr>pay_root = SafeRelativePath [''payload''], pay_format = payload_format_of ''memory''\<rparr>,
      am_compatibility = \<lparr>comp_profiles = [''claude''], comp_platforms = [''linux'']\<rparr>,
      am_install = \<lparr>inst_scopes = [''user''], inst_modes = [''copy''], inst_effects = [''managed-block'']\<rparr>, am_setup = None,
      am_authors = [''Ada''], am_license = Some ''MIT'', am_homepage = None, am_extensions = [(''org.example'', JInt 3)],
      am_requires_aart = any_version, am_requires = []\<rparr>"

lemma text_ok_eval: "s \<noteq> [] \<Longrightarrow> strip s = s \<Longrightarrow> \<not> list_ex (\<lambda>c. c = CHR 0x0A \<or> c = CHR 0x0D) s \<Longrightarrow> length s \<le> MAX_STRING_LENGTH \<Longrightarrow> text_ok single s"
  by (auto simp: text_ok_def list_ex_iff)

lemma sample_parts_read:
  "read_compatibility (compatibility_json (am_compatibility sample_artifact_manifest)) ''x'' = Ok (am_compatibility sample_artifact_manifest)"
  "read_install_spec (install_spec_json (am_install sample_artifact_manifest)) ''x'' = Ok (am_install sample_artifact_manifest)"
  "strip ''1.0.0'' = ''1.0.0''" "semver_str (am_version sample_artifact_manifest) = ''1.0.0''" "strip ''Notes'' = ''Notes''" "strip ''MIT'' = ''MIT''"
  "strip ''memory'' = ''memory''" "strip ''notes'' = ''notes''" "strip ''Ada'' = ''Ada''" "slug_match ''notes''"
  "''memory'' \<in> set (dict_keys PAYLOAD_FORMAT_BY_TYPE)" "set [''managed-block''] \<subseteq> set (install_effects_of ''memory'')"
  "valid_semver (am_version sample_artifact_manifest)" "is_namespaced_extension ''org.example''"
  "''org.example'' \<notin> set (ARTIFACT_FIELDS @ ARTIFACT_OPTIONAL)"
  "payload_format_of ''memory'' = ''aart-memory-v1''" "strip ''payload'' = ''payload''" "strip ''aart-memory-v1'' = ''aart-memory-v1''"
  "safe_path (SafeRelativePath [''payload''])" "path_str (SafeRelativePath [''payload'']) = ''payload''"
  by code_simp+

lemma sample_artifact_manifest_ok: "manifest_ok sample_artifact_manifest"
proof -
  have "reread (\<lambda>v. read_payload_spec v ''memory'') 1 (payload_json (am_payload sample_artifact_manifest)) (am_payload sample_artifact_manifest)"
    by (rule payload_written) (simp_all add: sample_artifact_manifest_def sample_parts_read text_ok_eval)
  moreover have "reread read_compatibility 1 (compatibility_json (am_compatibility sample_artifact_manifest)) (am_compatibility sample_artifact_manifest)"
    by (rule compatibility_reread[OF sample_parts_read(1)]) (simp_all add: sample_artifact_manifest_def json_object_def)
  moreover have "reread read_install_spec 1 (install_spec_json (am_install sample_artifact_manifest)) (am_install sample_artifact_manifest)"
    by (rule install_spec_reread[OF sample_parts_read(2)]) (simp_all add: sample_artifact_manifest_def json_object_def)
  moreover have "text_ok False (semver_str (am_version sample_artifact_manifest))" "text_ok True ''Notes''"
    "text_ok True ''MIT''" "text_ok False ''memory''" "text_ok False ''notes''" "texts_ok True [''Ada'']"
    by (simp_all add: sample_parts_read text_ok_eval texts_ok_def)
  moreover have "extensions_ok (ARTIFACT_FIELDS @ ARTIFACT_OPTIONAL) [(''org.example'', JInt 3)]"
    using sample_parts_read(14,15)
    by (simp add: extensions_ok_def good_json_def protocol_int_def MIN_PROTOCOL_INTEGER_def MAX_PROTOCOL_INTEGER_def)
  ultimately show ?thesis
    using sample_parts_read(10-13) by (simp add: sample_artifact_manifest_def manifest_ok_def requires_ok_def del: set_map)
qed

text \<open>
  C28. An accepted artifact manifest is determined by its canonical projection: the bytes that the manifest digest is computed from are
  accepted again under every path and read as the same manifest, and two accepted manifests with equal digests are equal unless they
  exhibit a SHA-256 collision.
\<close>

theorem artifact_manifest_projection:
  assumes "parse_artifact_manifest data path = Some (Ok m)" and "parse_artifact_manifest data' path' = Some (Ok m')"
  shows "parse_artifact_manifest (canonical_json_bytes (artifact_manifest_to_json m)) other = Some (Ok m) \<and>
    (json_digest (artifact_manifest_to_json m) = json_digest (artifact_manifest_to_json m') \<longrightarrow>
      m = m' \<or> (canonical_json_bytes (artifact_manifest_to_json m) \<noteq> canonical_json_bytes (artifact_manifest_to_json m') \<and>
        sha256_digest (canonical_json_bytes (artifact_manifest_to_json m)) = sha256_digest (canonical_json_bytes (artifact_manifest_to_json m'))))"
proof -
  note ok = assms[THEN parsed_manifest_ok]
  have same: "m = m'" if "artifact_manifest_to_json m = artifact_manifest_to_json m'"
    using trans[OF sym[OF manifest_reparsed[OF ok(1), of path, unfolded that]] manifest_reparsed[OF ok(2), of path]] by (simp only: option.inject result.inject)
  have wf: "wf_json (artifact_manifest_to_json m)" "wf_json (artifact_manifest_to_json m')"
    using ok[THEN manifest_written(1)] by (simp_all add: good_json_def)
  show ?thesis
    using manifest_reparsed[OF ok(1)] json_digest_eq[OF wf] same by blast
qed

theorem artifact_manifest_projection_witness:
  "parse_artifact_manifest (canonical_json_bytes (artifact_manifest_to_json sample_artifact_manifest)) ''artifact.json'' = Some (Ok sample_artifact_manifest)"
  by (rule artifact_manifest_projection[OF manifest_reparsed manifest_reparsed, THEN conjunct1]; rule sample_artifact_manifest_ok)

end
