(* ===== verification/NativeSource.thy ===== *)
theory NativeSource
  imports NativeTree ManifestCodec
begin

text \<open>
  What an accepted native source guarantees: its dependency graph is complete and acyclic, and its packages are exactly those of its
  declared roots.
\<close>

subsection \<open>The dependency walk\<close>

definition requires_rel :: "identity_table \<Rightarrow> (artifact_identity \<times> artifact_identity) set" where
  "requires_rel table = {(a, b). b \<in> set (dependencies_of table a)}"

lemma requires_rel_iff: "(a, b) \<in> requires_rel table \<longleftrightarrow> b \<in> set (dependencies_of table a)"
  by (simp add: requires_rel_def)

text \<open>Closed under dependencies and off every cycle.\<close>

definition settled :: "identity_table \<Rightarrow> artifact_identity set \<Rightarrow> bool" where
  "settled table V \<longleftrightarrow> requires_rel table `` V \<subseteq> V \<and> (\<forall>x \<in> V. (x, x) \<notin> (requires_rel table)\<^sup>+)"

lemma closed_reach: "(x, y) \<in> R\<^sup>* \<Longrightarrow> R `` V \<subseteq> V \<Longrightarrow> x \<in> V \<Longrightarrow> y \<in> V"
  by (induction rule: rtrancl_induct) auto

lemma settled_insert:
  assumes "settled table V" "i \<notin> V" "set (dependencies_of table i) \<subseteq> V"
  shows "settled table (insert i V)"
proof -
  have "(i, i) \<notin> (requires_rel table)\<^sup>+"
  proof
    assume "(i, i) \<in> (requires_rel table)\<^sup>+"
    then obtain d where "(i, d) \<in> requires_rel table" "(d, i) \<in> (requires_rel table)\<^sup>*"
      by (metis tranclD)
    then have "i \<in> V"
      using assms(1,3) closed_reach[of d i "requires_rel table" V] by (auto simp: settled_def requires_rel_iff)
    with assms(2) show False
      by simp
  qed
  then show ?thesis
    using assms(1,3) by (auto simp: settled_def requires_rel_iff)
qed

lemma visited_settled:
  shows "visit_dependency table trail i V = Ok V' \<Longrightarrow> settled table (set V) \<Longrightarrow>
      settled table (set V') \<and> set V \<subseteq> set V' \<and> i \<in> set V' \<and> set V' \<inter> set trail \<subseteq> set V"
    and "visit_dependencies table trail ds V = Ok V' \<Longrightarrow> settled table (set V) \<Longrightarrow>
      settled table (set V') \<and> set V \<subseteq> set V' \<and> set ds \<subseteq> set V' \<and> set V' \<inter> set trail \<subseteq> set V"
proof (induction table trail i V and table trail ds V arbitrary: V' and V' rule: visit_dependency_visit_dependencies.induct)
  case (1 table trail i V)
  show ?case
  proof (cases "i \<in> set V")
    case True
    then show ?thesis
      using 1(2,3) by (auto simp: tree_error_def mk_err_def split: if_splits)
  next
    case False
    obtain W where off: "i \<notin> set trail" and W: "visit_dependencies table (trail @ [i]) (dependencies_of table i) V = Ok W" "V' = i # W"
      using 1(2) False by (auto simp: tree_error_def mk_err_def map_ok_Ok split: if_splits)
    note ih = 1(1)[OF off False W(1) 1(3)]
    have "i \<notin> set W"
      using ih False by auto
    then show ?thesis
      using ih W(2) off settled_insert[of table "set W" i] by auto
  qed
next
  case (2 table trail V)
  then show ?case
    by simp
next
  case (3 table trail d ds V)
  obtain W where W: "visit_dependency table trail d V = Ok W" "visit_dependencies table trail ds W = Ok V'"
    using 3(3) by (auto simp: bind_result_Ok)
  note first = 3(1)[OF W(1) 3(4)]
  show ?case
    using first 3(2)[OF W(2)] by auto
qed

lemma acyclic_visited:
  shows "acyclic (requires_rel table) \<Longrightarrow> \<forall>t \<in> set trail. (t, i) \<in> (requires_rel table)\<^sup>+ \<Longrightarrow> \<exists>V'. visit_dependency table trail i V = Ok V'"
    and "acyclic (requires_rel table) \<Longrightarrow> \<forall>t \<in> set trail. \<forall>d \<in> set ds. (t, d) \<in> (requires_rel table)\<^sup>+ \<Longrightarrow>
      \<exists>V'. visit_dependencies table trail ds V = Ok V'"
proof (induction table trail i V and table trail ds V rule: visit_dependency_visit_dependencies.induct)
  case (1 table trail i V)
  have off: "i \<notin> set trail"
    using 1(2,3) by (auto simp: acyclic_def)
  have "(t, d) \<in> (requires_rel table)\<^sup>+" if "t \<in> set (trail @ [i])" "d \<in> set (dependencies_of table i)" for t d
    using that 1(3) trancl_into_trancl[of t i _ d] by (auto simp: requires_rel_iff)
  then show ?case
    using 1(1)[OF off] 1(2) off by (cases "i \<in> set V") (fastforce simp: map_ok_def)+
next
  case (2 table trail V)
  then show ?case
    by simp
next
  case (3 table trail d ds V)
  then show ?case
    by (fastforce simp: bind_result_def split: result.splits)
qed

lemma walk_acyclic: "walk_dependencies table = Ok () \<longleftrightarrow> acyclic (requires_rel table)"
proof
  assume "walk_dependencies table = Ok ()"
  then obtain V where V: "visit_dependencies table [] (sort_key identity_str (dict_keys table)) [] = Ok V"
    by (auto simp: walk_dependencies_def map_ok_Ok)
  have v: "settled table (set V)" "fst ` set table \<subseteq> set V"
    using visited_settled(2)[OF V] by (auto simp: settled_def)
  show "acyclic (requires_rel table)"
    unfolding acyclic_def
  proof (intro allI notI)
    fix x assume cycle: "(x, x) \<in> (requires_rel table)\<^sup>+"
    then obtain d where "d \<in> set (dependencies_of table x)"
      by (metis tranclD requires_rel_iff)
    then have "x \<in> fst ` set table"
      by (cases "dict_get table x") (auto simp: dependencies_of_def dest: map_of_SomeD intro: rev_image_eqI)
    then show False
      using v cycle by (auto simp: settled_def)
  qed
next
  assume "acyclic (requires_rel table)"
  then show "walk_dependencies table = Ok ()"
    using acyclic_visited(2)[of table "[]" "sort_key identity_str (dict_keys table)" "[]"] by (auto simp: walk_dependencies_def map_ok_def)
qed


subsection \<open>The declared dependencies\<close>

definition satisfies :: "artifact_selector \<Rightarrow> 'i native_package \<Rightarrow> bool" where
  "satisfies s q \<longleftrightarrow> np_identity q = sel_identity s \<and>
     (case sel_version s of None \<Rightarrow> True | Some bounds \<Rightarrow> allows bounds (am_version (np_manifest q)))"

abbreviation np_requires :: "'i native_package \<Rightarrow> artifact_selector list" where
  "np_requires p \<equiv> am_requires (np_manifest p)"

definition requires_edges :: "'i native_package list \<Rightarrow> (artifact_identity \<times> artifact_identity) set" where
  "requires_edges packages = {(np_identity p, sel_identity s) | p s. p \<in> set packages \<and> s \<in> set (np_requires p)}"

lemma requires_edges_simps:
  "requires_edges [] = {}"
  "requires_edges (p # ps) = (\<lambda>s. (np_identity p, sel_identity s)) ` set (np_requires p) \<union> requires_edges ps"
  by (auto simp: requires_edges_def)

lemma packages_by_identity_get:
  assumes "distinct (map np_identity packages)"
  shows "dict_get (packages_by_identity packages) i = Some q \<longleftrightarrow> q \<in> set packages \<and> np_identity q = i"
proof -
  have "packages_by_identity packages = map (\<lambda>p. (np_identity p, p)) packages"
    using assms by (simp add: packages_by_identity_def dict_by_distinct)
  then show ?thesis
    using assms by (auto simp: map_of_eq_Some_iff comp_def)
qed

lemma resolve_requires_Ok:
  assumes "distinct (map np_identity packages)"
  shows "resolve_requires (packages_by_identity packages) elsewhere requiring ss = Ok r \<longleftrightarrow>
     r = map sel_identity ss \<and> (\<forall>s \<in> set ss. \<exists>q \<in> set packages. satisfies s q)"
proof (induction ss arbitrary: r)
  case Nil
  then show ?case
    by auto
next
  case (Cons s ss)
  show ?case
  proof (cases "dict_get (packages_by_identity packages) (sel_identity s)")
    case None
    then have "\<not> satisfies s q" if "q \<in> set packages" for q
      using that packages_by_identity_get[OF assms, of "sel_identity s" q] by (auto simp: satisfies_def)
    then show ?thesis
      using None by (auto simp: dependency_scope_error_def mk_err_def)
  next
    case (Some q)
    have q: "q \<in> set packages" "np_identity q = sel_identity s"
      using Some packages_by_identity_get[OF assms] by auto
    have same: "q' = q" if "q' \<in> set packages" "np_identity q' = sel_identity s" for q'
      using that Some packages_by_identity_get[OF assms, of "sel_identity s" q'] by simp
    have "(\<exists>q' \<in> set packages. satisfies s q') \<longleftrightarrow> satisfies s q"
    proof
      assume "\<exists>q' \<in> set packages. satisfies s q'"
      then obtain q' where q': "q' \<in> set packages" "satisfies s q'"
        by blast
      then have "q' = q"
        by (intro same) (simp_all add: satisfies_def)
      then show "satisfies s q"
        using q'(2) by simp
    qed (use q(1) in blast)
    moreover have "satisfies s q \<longleftrightarrow> \<not> (case sel_version s of None \<Rightarrow> False | Some bounds \<Rightarrow> \<not> allows bounds (am_version (np_manifest q)))"
      using q(2) by (simp add: satisfies_def split: option.splits)
    ultimately show ?thesis
      using Cons.IH by (simp add: Some tree_error_def mk_err_def map_ok_Ok) blast
  qed
qed

lemma dependency_table_Ok:
  assumes "distinct (map np_identity packages)" "distinct (map np_identity ps)" "fst ` set acc \<inter> np_identity ` set ps = {}"
  shows "dependency_table (packages_by_identity packages) elsewhere ps acc = Ok table \<longleftrightarrow>
     table = acc @ map (\<lambda>p. (np_identity p, sort_key identity_str (map sel_identity (np_requires p)))) ps \<and>
     (\<forall>p \<in> set ps. \<forall>s \<in> set (np_requires p). \<exists>q \<in> set packages. satisfies s q)"
  using assms(2,3)
proof (induction ps arbitrary: acc)
  case Nil
  then show ?case
    by auto
next
  case (Cons p ps)
  then have "dict_set (np_identity p) ds acc = acc @ [(np_identity p, ds)]" for ds :: "artifact_identity list"
    by (intro dict_set_fresh) simp
  moreover have "fst ` set (acc @ [(np_identity p, ds)]) \<inter> np_identity ` set ps = {}" for ds :: "artifact_identity list"
    using Cons.prems by auto
  ultimately show ?case
    using Cons.prems(1) by (auto simp: bind_result_Ok resolve_requires_Ok[OF assms(1)] Cons.IH)
qed

lemma walk_exact:
  assumes "distinct (map np_identity packages)"
  shows "validate_declared_dependencies packages origins = Ok () \<longleftrightarrow>
    (\<forall>p \<in> set packages. \<forall>s \<in> set (np_requires p). \<exists>q \<in> set packages. satisfies s q) \<and> acyclic (requires_edges packages)"
proof -
  let ?table = "map (\<lambda>p. (np_identity p, sort_key identity_str (map sel_identity (np_requires p)))) packages"
  have "dict_get ?table a = Some ds \<longleftrightarrow> (\<exists>p \<in> set packages. np_identity p = a \<and> ds = sort_key identity_str (map sel_identity (np_requires p)))" for a ds
    using assms by (subst map_of_eq_Some_iff) (auto simp: comp_def)
  moreover have "(a, b) \<in> requires_rel ?table \<longleftrightarrow> (\<exists>ds. dict_get ?table a = Some ds \<and> b \<in> set ds)" for a b
    unfolding requires_rel_iff dependencies_of_def by (cases "dict_get ?table a") simp_all
  ultimately have "(a, b) \<in> requires_rel ?table \<longleftrightarrow> (\<exists>p \<in> set packages. np_identity p = a \<and> b \<in> sel_identity ` set (np_requires p))" for a b
    by auto
  then have "requires_rel ?table = requires_edges packages"
    unfolding requires_edges_def by (intro set_eqI) (simp only: split_paired_all mem_Collect_eq, blast)
  then show ?thesis
    using walk_acyclic[of ?table] dependency_table_Ok[OF assms assms, of "[]"]
    by (auto simp: validate_declared_dependencies_def bind_result_Ok)
qed



text \<open>
  C18. The dependency check of a native source always ends, and it accepts exactly the package lists in which every declared dependency
  is a package of the source at an allowed version and no package depends on itself, directly or through others.
\<close>

theorem declared_dependencies_exact:
  assumes "distinct (map np_identity packages)"
  shows "validate_declared_dependencies packages origins = Ok () \<longleftrightarrow>
    (\<forall>p \<in> set packages. \<forall>s \<in> set (np_requires p). \<exists>q \<in> set packages. satisfies s q) \<and> acyclic (requires_edges packages)"
  by (rule walk_exact[OF assms])

definition sample_package :: "string \<Rightarrow> artifact_selector list \<Rightarrow> unit native_package" where
  "sample_package name requires =
     \<lparr>np_manifest = sample_artifact_manifest\<lparr>am_identity := ArtifactIdentity ''memory'' name, am_requires := requires\<rparr>,
      np_provenance = None, np_manifest_digest = ObjectDigest ''sha256'' [], np_payload_digest = ObjectDigest ''sha256'' [], np_setup_installer = None\<rparr>"

definition sample_requirement :: "string \<Rightarrow> artifact_selector" where
  "sample_requirement name = \<lparr>sel_identity = ArtifactIdentity ''memory'' name, sel_version = None\<rparr>"

theorem declared_dependencies_exact_witness:
  "validate_declared_dependencies [sample_package ''a'' [sample_requirement ''b''], sample_package ''b'' []] None = Ok () \<and>
   validate_declared_dependencies [sample_package ''a'' [sample_requirement ''b''], sample_package ''b'' [sample_requirement ''a'']] None \<noteq> Ok ()"
proof (intro conjI)
  let ?a = "ArtifactIdentity ''memory'' ''a''" and ?b = "ArtifactIdentity ''memory'' ''b''"
  have one: "requires_edges [sample_package ''a'' [sample_requirement ''b''], sample_package ''b'' []] = {(?a, ?b)}"
    by (simp add: requires_edges_simps sample_package_def sample_requirement_def)
  have two: "requires_edges [sample_package ''a'' [sample_requirement ''b''], sample_package ''b'' [sample_requirement ''a'']] = {(?a, ?b), (?b, ?a)}"
    by (auto simp: requires_edges_simps sample_package_def sample_requirement_def)
  have "acyclic {(?a, ?b)}"
    by (simp add: acyclic_insert wf_acyclic)
  then show "validate_declared_dependencies [sample_package ''a'' [sample_requirement ''b''], sample_package ''b'' []] None = Ok ()"
    by (subst declared_dependencies_exact) (simp_all only: one, simp_all add: sample_package_def sample_requirement_def satisfies_def)
  have "\<not> acyclic {(?a, ?b), (?b, ?a)}"
    by (auto simp: acyclic_insert)
  then show "validate_declared_dependencies [sample_package ''a'' [sample_requirement ''b''], sample_package ''b'' [sample_requirement ''a'']] None \<noteq> Ok ()"
    by (subst declared_dependencies_exact) (simp_all only: two, simp_all add: sample_package_def sample_requirement_def)
qed

subsection \<open>The tables of a tree\<close>

lemma tree_error_not_Ok [simp]: "tree_error code message path \<noteq> Ok v"
  by (simp add: tree_error_def mk_err_def)

lemma validated_entries_Ok:
  "validated_entries es acc = Ok t \<Longrightarrow> distinct (map fst acc) \<Longrightarrow>
     t = acc @ map (\<lambda>e. (path_str (sne_path e), e)) es \<and> distinct (map fst t) \<and> (\<forall>e \<in> set es. safe_path (sne_path e))"
proof (induction es arbitrary: acc)
  case (Cons e es)
  have e: "safe_path (sne_path e)" "path_str (sne_path e) \<notin> set (map fst acc)"
    and rest: "validated_entries es (acc @ [(path_str (sne_path e), e)]) = Ok t"
    using Cons.prems(1) by (auto simp: Let_def parse_relative_path_Ok_iff split: if_splits)
  have "distinct (map fst (acc @ [(path_str (sne_path e), e)]))"
    using e(2) Cons.prems(2) by simp
  note ih = Cons.IH[OF rest this]
  show ?case
  proof (intro conjI)
    show "t = acc @ map (\<lambda>e. (path_str (sne_path e), e)) (e # es)"
      using ih by simp
    show "distinct (map fst t)"
      using ih by blast
    show "\<forall>e \<in> set (e # es). safe_path (sne_path e)"
      using ih e(1) by simp
  qed
qed simp

definition holds_package :: "tree_table \<Rightarrow> package_key \<Rightarrow> bool" where
  "holds_package entries k \<longleftrightarrow>
     (case k of (r, kind, name) \<Rightarrow> \<exists>e \<in> set entries. \<exists>below. path_under (fst e) r = Some (kind # name # below))"

lemma holds_package_Cons:
  "holds_package (e # entries) k \<longleftrightarrow>
     (case k of (r, kind, name) \<Rightarrow> \<exists>below. path_under (fst e) r = Some (kind # name # below)) \<or> holds_package entries k"
  by (auto simp: holds_package_def)

lemma root_candidates_Ok:
  "root_candidates entries r acc = Ok cs \<Longrightarrow> set cs = set acc \<union> {k. fst k = r \<and> holds_package entries k}"
proof (induction entries arbitrary: acc)
  case Nil
  then show ?case
    by (auto simp: holds_package_def)
next
  case (Cons e entries)
  consider (none) "path_under (fst e) r = None" | (same) "path_under (fst e) r = Some []" | (child) x where "path_under (fst e) r = Some [x]"
    | (package) kind name below where "path_under (fst e) r = Some (kind # name # below)"
    by (metis list.exhaust option.exhaust)
  then show ?case
  proof cases
    case (package kind name below)
    then have rest: "root_candidates entries r (acc @ [(r, kind, name)]) = Ok cs"
      using Cons.prems by (cases e) (auto split: if_splits)
    show ?thesis
      unfolding Cons.IH[OF rest] using package by (auto simp: holds_package_Cons)
  next
    case (child x)
    then have rest: "root_candidates entries r acc = Ok cs"
      using Cons.prems by (cases e) (simp split: if_splits)
    show ?thesis
      unfolding Cons.IH[OF rest] using child by (auto simp: holds_package_Cons)
  next
    case same
    then have rest: "root_candidates entries r acc = Ok cs"
      using Cons.prems by (cases e) simp
    show ?thesis
      unfolding Cons.IH[OF rest] using same by (auto simp: holds_package_Cons)
  next
    case none
    then have rest: "root_candidates entries r acc = Ok cs"
      using Cons.prems by (cases e) simp
    show ?thesis
      unfolding Cons.IH[OF rest] using none by (auto simp: holds_package_Cons)
  qed
qed

lemma all_candidates_Ok:
  "all_candidates entries roots acc = Ok cs \<Longrightarrow> set cs = set acc \<union> {k. fst k \<in> set roots \<and> holds_package entries k}"
proof (induction roots arbitrary: acc)
  case (Cons r roots)
  obtain found where found: "root_candidates entries r acc = Ok found" "all_candidates entries roots found = Ok cs"
    using Cons.prems by (auto simp: bind_result_Ok)
  show ?case
    unfolding Cons.IH[OF found(2)] root_candidates_Ok[OF found(1)] by auto
qed simp

lemma load_packages_Ok:
  "load_packages sx entries keys acc = Some (Ok ps) \<Longrightarrow> distinct (map np_identity acc) \<Longrightarrow>
     distinct (map np_identity ps) \<and> (\<exists>new. ps = acc @ new \<and> list_all2 (\<lambda>k p. load_package sx entries k = Some (Ok p)) keys new)"
proof (induction keys arbitrary: acc)
  case (Cons key keys)
  obtain p where p: "load_package sx entries key = Some (Ok p)" "np_identity p \<notin> set (map np_identity acc)"
      "load_packages sx entries keys (acc @ [p]) = Some (Ok ps)"
    using Cons.prems(1) by (auto simp: read_bind_Ok split: if_splits)
  have "distinct (map np_identity ps) \<and> (\<exists>new. ps = (acc @ [p]) @ new \<and> list_all2 (\<lambda>k p. load_package sx entries k = Some (Ok p)) keys new)"
    by (rule Cons.IH[OF p(3)]) (use p(2) Cons.prems(2) in auto)
  then show ?case
    using p(1) by auto
qed simp

lemma entry_kinds_Ok:
  "validate_protocol_entry_kinds entries manifest = Ok () \<Longrightarrow>
     list_all (\<lambda>e. declared_content manifest (fst e) \<longrightarrow> sne_kind (snd e) = SE_FILE \<or> sne_kind (snd e) = SE_DIRECTORY) entries"
proof (induction entries)
  case (Cons e entries)
  then show ?case
    by (cases e; cases "sne_kind (snd e)") (auto split: if_splits)
qed simp

lemma compile_package_Ok:
  assumes "compile_package_entries sx entries expected path = Some (Ok p)"
  obtains f where "dict_get entries ''artifact.json'' = Some f" "sne_kind f = SE_FILE"
    "parse_artifact_manifest (sne_content f) path = Some (Ok (np_manifest p))" "expected = None \<or> expected = Some (np_identity p)"
    "native_payload_digest entries path = Ok (np_payload_digest p)" "np_manifest_digest p = json_digest (artifact_manifest_to_json (np_manifest p))"
    "list_all (\<lambda>q. package_part q \<in> set PACKAGE_ROOTS) (map fst entries)" "payload_files entries \<noteq> []"
proof -
  obtain f where f: "dict_get entries ''artifact.json'' = Some f"
    using assms by (auto simp: compile_package_entries_def split: option.splits)
  have kind: "sne_kind f = SE_FILE"
    using assms f by (auto simp: compile_package_entries_def split: if_splits)
  obtain m root' where m: "parse_artifact_manifest (sne_content f) path = Some (Ok m)" "expected = None \<or> expected = Some (am_identity m)"
    and paths: "check_package_paths entries root' = Ok ()" and primary: "validate_primary_payload m entries path = Some (Ok ())"
    and digest: "native_payload_digest entries path = Ok (np_payload_digest p)"
    and p: "np_manifest p = m" "np_manifest_digest p = json_digest (artifact_manifest_to_json m)"
    using assms f kind
    by (auto simp: compile_package_entries_def read_bind_Ok map_ok_Ok Let_def split: if_splits option.splits)
  have "list_all (\<lambda>q. package_part q \<in> set PACKAGE_ROOTS) (map fst entries)"
    using paths by (auto simp: check_package_paths_def list_all_iff filter_empty_conv split: list.splits)
  moreover have "payload_files entries \<noteq> []"
    using primary by (auto simp: validate_primary_payload_def Let_def)
  ultimately show ?thesis
    using that f kind m digest p by blast
qed


lemma starts_split: "starts (base @ s) path \<Longrightarrow> path = base @ s @ drop (length base + length s) path"
  by (auto simp: starts_def) (metis append_assoc append_take_drop_id length_append)

lemma relative_entry:
  assumes "dict_get (relative_package_entries entries base) name = Some f"
  shows "(base @ ''/'' @ name, f) \<in> set entries"
proof -
  have "(name, f) \<in> set (relative_package_entries entries base)"
    using assms by (rule map_of_SomeD)
  then obtain path where "(path, f) \<in> set entries" "starts (base @ ''/'') path" "name = drop (length base + 1) path"
    by (auto simp: relative_package_entries_def split: if_splits)
  then show ?thesis
    using starts_split[of base "''/''" path] by simp
qed

subsection \<open>Accepted sources\<close>

text \<open>The package stands at its place below a declared root: its manifest file is there and reads as its manifest.\<close>

definition at_its_place :: "snapshot_entry list \<Rightarrow> source_manifest \<Rightarrow> 'i native_package \<Rightarrow> bool" where
  "at_its_place es manifest p \<longleftrightarrow>
     (\<exists>r \<in> set (sm_artifact_roots manifest). \<exists>e \<in> set es.
        (let path = package_base (r, identity_kind (np_identity p), identity_name (np_identity p)) @ ''/artifact.json'' in
         path_str (sne_path e) = path \<and> sne_kind e = SE_FILE \<and> parse_artifact_manifest (sne_content e) path = Some (Ok (np_manifest p))))"

lemma load_package_place:
  assumes "load_package sx (map (\<lambda>e. (path_str (sne_path e), e)) es) k = Some (Ok p)" "fst k \<in> set (sm_artifact_roots manifest)"
  shows "np_identity p = ArtifactIdentity (fst (snd k)) (snd (snd k))" "at_its_place es manifest p"
proof -
  obtain r kind name where k: "k = (r, kind, name)"
    by (cases k)
  let ?entries = "map (\<lambda>e. (path_str (sne_path e), e)) es"
  have c: "compile_package_entries sx (relative_package_entries ?entries (package_base k)) (Some (ArtifactIdentity kind name))
       (package_base k @ ''/artifact.json'') = Some (Ok p)"
    using assms(1) by (simp add: load_package_def k)
  obtain f where f: "dict_get (relative_package_entries ?entries (package_base k)) ''artifact.json'' = Some f" "sne_kind f = SE_FILE"
    "parse_artifact_manifest (sne_content f) (package_base k @ ''/artifact.json'') = Some (Ok (np_manifest p))"
    and identity: "np_identity p = ArtifactIdentity kind name"
    by (rule compile_package_Ok[OF c]) auto
  have "f \<in> set es" "path_str (sne_path f) = package_base k @ ''/artifact.json''"
    using relative_entry[OF f(1)] by auto
  then show "at_its_place es manifest p"
    using f(2,3) assms(2) identity by (auto simp: at_its_place_def Let_def k)
  show "np_identity p = ArtifactIdentity (fst (snd k)) (snd (snd k))"
    using identity by (simp add: k)
qed

text \<open>
  C1. An accepted native source leaves nothing of its declared content out and takes nothing else in: the marker file reads as its
  manifest, whose version bounds and required capabilities the executable meets; no link or special file stands in the declared roots;
  every package stands at its place below a declared root with its manifest, and every directory of a package there is one of the packages;
  the identities are distinct, every declared dependency is met inside the source, and none is circular.
\<close>

theorem load_native_source_exact:
  assumes "load_native_source sx snapshot version available origins = Some (Ok source)"
  shows "(\<exists>marker \<in> set (snap_entries snapshot). path_str (sne_path marker) = ''aart-source.json'' \<and> sne_kind marker = SE_FILE
      \<and> parse_source_manifest (sne_content marker) ''aart-source.json'' = Some (Ok (ns_manifest source)))
    \<and> allows (sm_requires_aart (ns_manifest source)) version
    \<and> set (sm_required_capabilities (ns_manifest source)) \<subseteq> set available
    \<and> (\<forall>e \<in> set (snap_entries snapshot). declared_content (ns_manifest source) (path_str (sne_path e)) \<longrightarrow>
         sne_kind e = SE_FILE \<or> sne_kind e = SE_DIRECTORY)
    \<and> distinct (map np_identity (ns_artifacts source))
    \<and> (\<forall>p \<in> set (ns_artifacts source). at_its_place (snap_entries snapshot) (ns_manifest source) p)
    \<and> (\<forall>e \<in> set (snap_entries snapshot). \<forall>r \<in> set (sm_artifact_roots (ns_manifest source)). \<forall>kind name below.
         path_under (path_str (sne_path e)) r = Some (kind # name # below) \<longrightarrow>
         ArtifactIdentity kind name \<in> np_identity ` set (ns_artifacts source))
    \<and> (\<forall>p \<in> set (ns_artifacts source). \<forall>s \<in> set (np_requires p). \<exists>q \<in> set (ns_artifacts source). satisfies s q)
    \<and> acyclic (requires_edges (ns_artifacts source))"
proof -
  let ?es = "snap_entries snapshot" and ?m = "ns_manifest source"
  let ?table = "map (\<lambda>e. (path_str (sne_path e), e)) ?es"
  obtain entries where entries: "validated_entries ?es [] = Ok entries"
    using assms by (auto simp: load_native_source_def read_bind_Ok)
  have t: "entries = ?table"
    using validated_entries_Ok[OF entries] by simp
  obtain marker where marker: "dict_get ?table ''aart-source.json'' = Some marker" "sne_kind marker = SE_FILE"
    using assms entries by (auto simp: load_native_source_def read_bind_Ok t split: option.splits if_splits)
  obtain manifest candidates packages collections where
    m: "parse_source_manifest (sne_content marker) ''aart-source.json'' = Some (Ok manifest)"
    and kinds: "validate_protocol_entry_kinds ?table manifest = Ok ()"
    and compatible: "native_compatibility_diagnostics manifest version available = []"
    and candidates: "package_candidates ?table manifest = Ok candidates"
    and packages: "load_packages sx ?table candidates [] = Some (Ok packages)"
    and dependencies: "validate_declared_dependencies packages origins = Ok ()"
    and source: "ns_manifest source = manifest" "ns_artifacts source = sort_key (identity_str \<circ> np_identity) packages"
    using assms entries marker
    by (auto simp: load_native_source_def read_bind_Ok t Let_def mk_err_def split: if_splits)
  have artifacts: "set (ns_artifacts source) = set packages"
    by (simp add: source)
  obtain keys where keys: "candidates = sort_key package_key_order (remdups keys)" "set keys = {k. fst k \<in> set (sm_artifact_roots manifest) \<and> holds_package ?table k}"
    using candidates all_candidates_Ok[of ?table "sm_artifact_roots manifest" "[]"]
    by (auto simp: package_candidates_def bind_result_Ok split: if_splits)
  have loaded: "distinct (map np_identity packages)" "list_all2 (\<lambda>k p. load_package sx ?table k = Some (Ok p)) candidates packages"
    using load_packages_Ok[OF packages] by simp_all
  have "distinct (map np_identity (ns_artifacts source))"
    unfolding source using loaded(1) by (simp add: distinct_map)
  moreover have "\<exists>marker \<in> set ?es. path_str (sne_path marker) = ''aart-source.json'' \<and> sne_kind marker = SE_FILE
      \<and> parse_source_manifest (sne_content marker) ''aart-source.json'' = Some (Ok ?m)"
    using marker m map_of_SomeD[OF marker(1)] by (auto simp: source)
  moreover have "allows (sm_requires_aart ?m) version" "set (sm_required_capabilities ?m) \<subseteq> set available"
    using compatible negotiate_sets(5)[of "sm_required_capabilities manifest" "[]" available]
    by (auto simp: native_compatibility_diagnostics_def Let_def source split: if_splits)
  moreover have "\<forall>e \<in> set ?es. declared_content ?m (path_str (sne_path e)) \<longrightarrow> sne_kind e = SE_FILE \<or> sne_kind e = SE_DIRECTORY"
    using entry_kinds_Ok[OF kinds] by (simp add: source list_all_iff)
  moreover have "at_its_place ?es ?m p" if p: "p \<in> set (ns_artifacts source)" for p
  proof -
    obtain k where k: "k \<in> set candidates" "load_package sx ?table k = Some (Ok p)"
      using list_all2_set2_witness[OF loaded(2)] p unfolding artifacts by blast
    then show ?thesis
      using load_package_place(2)[OF k(2), of manifest] keys by (simp add: source)
  qed
  moreover have "ArtifactIdentity kind name \<in> np_identity ` set (ns_artifacts source)"
    if "e \<in> set ?es" "r \<in> set (sm_artifact_roots ?m)" "path_under (path_str (sne_path e)) r = Some (kind # name # below)" for e r kind name below
  proof -
    have "(r, kind, name) \<in> set candidates"
      using that by (auto simp: keys holds_package_def source)
    then obtain p where "p \<in> set packages" "load_package sx ?table (r, kind, name) = Some (Ok p)"
      using list_all2_set1_witness[OF loaded(2)] by blast
    then show ?thesis
      using load_package_place(1)[of sx ?es "(r, kind, name)" p ?m] that(2) by (auto simp: artifacts intro: rev_image_eqI)
  qed
  moreover have "\<forall>p \<in> set (ns_artifacts source). \<forall>s \<in> set (np_requires p). \<exists>q \<in> set (ns_artifacts source). satisfies s q"
    "acyclic (requires_edges (ns_artifacts source))"
    using dependencies unfolding walk_exact[OF loaded(1)] by (simp_all add: artifacts requires_edges_def)
  ultimately show ?thesis
    by blast
qed

text \<open>A source with one memory.\<close>

definition sample_source_entries :: json_entries where
  "sample_source_entries =
     sort_key fst [(''schema_version'', JInt 1), (''protocol_version'', JInt 1), (''source_id'', JStr ''org''), (''display_name'', JStr ''Org''),
       (''requires_aart'', JObject []), (''required_capabilities'', JArray []), (''artifact_roots'', JArray [JStr ''kit''])]"

definition sample_source_manifest :: source_manifest where
  "sample_source_manifest =
     \<lparr>sm_schema_version = 1, sm_protocol_version = 1, sm_source_id = SourceId ''org'', sm_display_name = ''Org'', sm_requires_aart = any_version,
      sm_required_capabilities = [], sm_artifact_roots = [SafeRelativePath [''kit'']], sm_collection_roots = [], sm_extensions = []\<rparr>"

lemma sample_path_parse:
  "parse_relative_path ''kit'' l = Ok (SafeRelativePath [''kit''])"
  by (simp add: parse_relative_path_Ok_iff) code_simp

lemma sample_fields_read:
  "native_fields sample_source_entries SOURCE_FIELDS [''collection_roots''] True ''aart-source.json'' = Ok sample_source_entries"
  "native_version_one sample_source_entries ''schema_version'' SOURCE_INVALID ''aart-source.json'' = Ok 1"
  "native_version_one sample_source_entries ''protocol_version'' SOURCE_INVALID ''aart-source.json'' = Ok 1"
  "native_field sample_source_entries ''source_id'' SOURCE_INVALID ''aart-source.json'' False = Ok ''org''"
  "native_field sample_source_entries ''display_name'' SOURCE_INVALID ''aart-source.json'' True = Ok ''Org''"
  "slug_match ''org''"
  "native_bounds (json_field sample_source_entries ''requires_aart'') SOURCE_INVALID ''aart-source.json'' = Ok any_version"
  "native_strings (json_field sample_source_entries ''required_capabilities'') SOURCE_INVALID ''required_capabilities'' ''aart-source.json'' True = Ok []"
  "native_strings (json_field sample_source_entries ''artifact_roots'') SOURCE_INVALID ''artifact_roots'' ''aart-source.json'' False = Ok [''kit'']"
  "''collection_roots'' \<notin> set (json_keys sample_source_entries)"
  "native_extensions sample_source_entries (SOURCE_FIELDS @ [''collection_roots'']) = []"
  by code_simp+

lemma sample_source_read: "read_source_manifest sample_source_entries ''aart-source.json'' = Ok sample_source_manifest"
  unfolding read_source_manifest_def
  by (simp add: sample_fields_read native_paths_def sample_path_parse bind_result_def map_ok_def sample_source_manifest_def sorted_set_def)

definition sample_file :: "string list \<Rightarrow> bytes \<Rightarrow> snapshot_entry" where
  "sample_file parts content = \<lparr>sne_path = SafeRelativePath parts, sne_kind = SE_FILE, sne_content = content, sne_executable = False\<rparr>"

definition sample_source_tree :: source_snapshot where
  "sample_source_tree =
     \<lparr>snap_origin = SO_LOCAL,
      snap_entries =
        [sample_file [''aart-source.json''] (canonical_json_bytes (JObject sample_source_entries)),
         sample_file [''kit'', ''memory'', ''notes'', ''artifact.json''] (canonical_json_bytes (artifact_manifest_to_json sample_artifact_manifest)),
         sample_file [''kit'', ''memory'', ''notes'', ''payload'', ''notes.md''] []]\<rparr>"

definition sample_setup :: "unit setup_codec" where
  "sample_setup =
     \<lparr>sx_custom_entrypoint_name = \<lambda>_. Inr None, sx_parse_installer = \<lambda>_ _ _ _. Inr (), sx_has_manual_setup_header = \<lambda>_. True,
      sx_manual_path = \<lambda>_. ''SETUP.md'', sx_platforms = \<lambda>_. []\<rparr>"

lemma sample_marker_read:
  "parse_source_manifest (canonical_json_bytes (JObject sample_source_entries)) ''aart-source.json'' = Some (Ok sample_source_manifest)"
proof -
  have "native_document (canonical_json_bytes (JObject sample_source_entries)) SOURCE_INVALID ''aart-source.json'' = Some (Ok sample_source_entries)"
    unfolding native_document_Ok
    by (rule parse_canonical_json)
      (simp_all add: sample_source_entries_def protocol_int_def MIN_PROTOCOL_INTEGER_def MAX_PROTOCOL_INTEGER_def)
  then show ?thesis
    by (simp add: parse_source_manifest_def bind_result_def sample_source_read)
qed

lemma sample_paths_safe:
  "safe_path (SafeRelativePath [''aart-source.json''])" "safe_path (SafeRelativePath [''kit'', ''memory'', ''notes'', ''artifact.json''])"
  "safe_path (SafeRelativePath [''kit'', ''memory'', ''notes'', ''payload'', ''notes.md''])" "safe_path (SafeRelativePath [''notes.md''])"
  "path_str (SafeRelativePath [''aart-source.json'']) = ''aart-source.json''"
  "path_str (SafeRelativePath [''kit'', ''memory'', ''notes'', ''artifact.json'']) = ''kit/memory/notes/artifact.json''"
  "path_str (SafeRelativePath [''kit'', ''memory'', ''notes'', ''payload'', ''notes.md'']) = ''kit/memory/notes/payload/notes.md''"
  "path_str (SafeRelativePath [''notes.md'']) = ''notes.md''" "path_str (SafeRelativePath [''kit'']) = ''kit''"
  "path_under ''aart-source.json'' (SafeRelativePath [''kit'']) = None"
  "path_under ''kit/memory/notes/artifact.json'' (SafeRelativePath [''kit'']) = Some [''memory'', ''notes'', ''artifact.json'']"
  "path_under ''kit/memory/notes/payload/notes.md'' (SafeRelativePath [''kit'']) = Some [''memory'', ''notes'', ''payload'', ''notes.md'']"
  "package_part ''artifact.json'' = ''artifact.json''" "package_part ''payload/notes.md'' = ''payload''"
  "ends_with ''.md'' ''payload/notes.md''" "starts ''payload/'' ''payload/notes.md''" "\<not> starts ''payload/'' ''artifact.json''"
  by code_simp+

definition sample_package_table :: tree_table where
  "sample_package_table =
     [(''artifact.json'', sample_file [''kit'', ''memory'', ''notes'', ''artifact.json''] (canonical_json_bytes (artifact_manifest_to_json sample_artifact_manifest))),
      (''payload/notes.md'', sample_file [''kit'', ''memory'', ''notes'', ''payload'', ''notes.md''] [])]"

lemma sample_payload_digest: "\<exists>d. native_payload_digest sample_package_table path = Ok d"
proof -
  have p: "parse_relative_path ''notes.md'' None = Ok (SafeRelativePath [''notes.md''])"
    using sample_paths_safe by (simp add: parse_relative_path_Ok_iff)
  have "\<exists>d. tree_digest [file_entry (SafeRelativePath [''notes.md'']) [] False] = Ok d"
    using sample_paths_safe(4) by (auto simp: tree_digest_Ok tree_payload_Ok intro: file_entry_valid)
  then show ?thesis
    using p by (auto simp: native_payload_digest_def sample_package_table_def payload_files_def sample_paths_safe sample_file_def bind_result_def map_ok_def
        parent_paths_def file_entry_def sorted_set_def)
qed

lemma sample_compiled:
  "\<exists>p. compile_package_entries sample_setup sample_package_table (Some (ArtifactIdentity ''memory'' ''notes'')) ''kit/memory/notes/artifact.json'' = Some (Ok p) \<and>
     np_manifest p = sample_artifact_manifest"
proof -
  obtain d where d: "native_payload_digest sample_package_table ''kit/memory/notes/artifact.json'' = Ok d"
    using sample_payload_digest by blast
  have m: "am_identity sample_artifact_manifest = ArtifactIdentity ''memory'' ''notes''" "am_setup sample_artifact_manifest = None"
    by (simp_all add: sample_artifact_manifest_def)
  have "validate_primary_payload sample_artifact_manifest sample_package_table ''kit/memory/notes/artifact.json'' = Some (Ok ())"
    by (simp add: validate_primary_payload_def sample_package_table_def m payload_files_def sample_paths_safe sample_file_def
        texts_checked_def text_readable_def utf8_decode_def)
  moreover have "dict_get sample_package_table ''artifact.json'' =
       Some (sample_file [''kit'', ''memory'', ''notes'', ''artifact.json''] (canonical_json_bytes (artifact_manifest_to_json sample_artifact_manifest)))"
    "check_package_paths sample_package_table r = Ok ()" "package_setup sample_setup sample_artifact_manifest sample_package_table q = Some (Ok None)"
    "package_provenance sample_package_table r q = Some (Ok None)" for r q
    by (simp_all add: sample_package_table_def check_package_paths_def sample_paths_safe PACKAGE_ROOTS_def package_setup_def m package_provenance_def starts_def)
  ultimately show ?thesis
    using d manifest_reparsed[OF sample_artifact_manifest_ok]
    by (simp add: compile_package_entries_def read_bind_def Let_def map_ok_def sample_file_def m)
qed

definition any_release :: semver where
  "any_release = \<lparr>sv_major = 1, sv_minor = 0, sv_patch = 0, sv_prerelease = [], sv_build = []\<rparr>"

lemma sample_loaded: "\<exists>source. load_native_source sample_setup sample_source_tree any_release [] None = Some (Ok source)"
proof -
  let ?manifest_file = "sample_file [''kit'', ''memory'', ''notes'', ''artifact.json''] (canonical_json_bytes (artifact_manifest_to_json sample_artifact_manifest))"
  let ?table = "[(''aart-source.json'', sample_file [''aart-source.json''] (canonical_json_bytes (JObject sample_source_entries))),
     (''kit/memory/notes/artifact.json'', ?manifest_file),
     (''kit/memory/notes/payload/notes.md'', sample_file [''kit'', ''memory'', ''notes'', ''payload'', ''notes.md''] [])]"
  have table: "validated_entries (snap_entries sample_source_tree) [] = Ok ?table"
    by (simp add: sample_source_tree_def sample_file_def sample_paths_safe Let_def parse_relative_path_Ok_iff)
  let ?key = "(SafeRelativePath [''kit''], ''memory'', ''notes'')"
  have roots: "sm_artifact_roots sample_source_manifest = [SafeRelativePath [''kit'']]" "sm_collection_roots sample_source_manifest = []"
    "native_compatibility_diagnostics sample_source_manifest any_release [] = []"
    by (simp_all add: sample_source_manifest_def native_compatibility_diagnostics_def any_version_def allows_def negotiate_capabilities_def Let_def sorted_set_def)
  have kinds: "validate_protocol_entry_kinds ?table sample_source_manifest = Ok ()"
    by (simp add: sample_file_def)
  have candidates: "package_candidates ?table sample_source_manifest = Ok [?key]"
    by (simp add: package_candidates_def roots sample_paths_safe bind_result_def PACKAGE_KINDS_def sample_file_def)
  have "relative_package_entries ?table (package_base ?key) = sample_package_table"
    by (simp add: relative_package_entries_def package_base_def sample_paths_safe starts_def sample_package_table_def)
  then obtain p where p: "load_package sample_setup ?table ?key = Some (Ok p)" "np_manifest p = sample_artifact_manifest"
    using sample_compiled by (auto simp: load_package_def package_base_def sample_paths_safe)
  have "validate_declared_dependencies [p] None = Ok ()"
    by (subst walk_exact) (simp_all add: requires_edges_simps p(2) sample_artifact_manifest_def wf_acyclic)
  then show ?thesis
    using p(1) table kinds candidates roots sample_marker_read
    by (simp add: load_native_source_def read_bind_def Let_def load_collections_def map_ok_def sample_file_def)
qed

theorem load_native_source_exact_witness:
  "\<exists>source. load_native_source sample_setup sample_source_tree any_release [] None = Some (Ok source) \<and>
     ArtifactIdentity ''memory'' ''notes'' \<in> np_identity ` set (ns_artifacts source)"
proof -
  obtain source where source: "load_native_source sample_setup sample_source_tree any_release [] None = Some (Ok source)"
    using sample_loaded by blast
  note exact = load_native_source_exact[OF source]
  from exact obtain marker where marker: "marker \<in> set (snap_entries sample_source_tree)" "path_str (sne_path marker) = ''aart-source.json''"
    "parse_source_manifest (sne_content marker) ''aart-source.json'' = Some (Ok (ns_manifest source))"
    by blast
  then have "ns_manifest source = sample_source_manifest"
    using sample_marker_read by (auto simp: sample_source_tree_def sample_file_def sample_paths_safe)
  then have "SafeRelativePath [''kit''] \<in> set (sm_artifact_roots (ns_manifest source))"
    by (simp add: sample_source_manifest_def)
  moreover obtain e where "e \<in> set (snap_entries sample_source_tree)"
    "path_under (path_str (sne_path e)) (SafeRelativePath [''kit'']) = Some [''memory'', ''notes'', ''artifact.json'']"
    by (rule that[of "sample_file [''kit'', ''memory'', ''notes'', ''artifact.json''] (canonical_json_bytes (artifact_manifest_to_json sample_artifact_manifest))"])
      (simp add: sample_source_tree_def, simp add: sample_file_def sample_paths_safe)
  ultimately have "ArtifactIdentity ''memory'' ''notes'' \<in> np_identity ` set (ns_artifacts source)"
    using exact by blast
  then show ?thesis
    using source by blast
qed

end
