(* ===== verification/Spec2Isabelle.thy ===== *)
theory Spec2Isabelle
  imports Schema Compiler Selection StoreLimits Store Redaction Sources Consumer Configuration InstallSchema Uninstall NativeSource
begin

text \<open>
  Verification of AART (package \<open>agent_artifacts\<close>), a marketplace for agent artifacts: sources
  publish packages (skills, agents, plugins and the like) described by strict JSON manifests; a compiler
  turns acquired sources into an immutable, digest-bound marketplace graph; consumers select artifacts
  of that graph that their target can install.

  \<^bold>\<open>Parts and theories.\<close>

  \<^item> \<open>Prelude\<close>: strings, decimal numerals, dictionaries in insertion order, sorting by key, the
    exceptions of Python (\<open>py\<close>), and the lemma collections of the development.
  \<^item> \<open>Domain\<close> (\<open>domain/\<close>): identifiers, diagnostics with their total order, the \<open>Result\<close> algebra,
    key-sorted tuples as tables (locale \<open>keyed_table\<close>), terminal outcomes.
  \<^item> \<open>Semver\<close>, \<open>Paths\<close>, \<open>Capabilities\<close>, \<open>Bytes\<close>, \<open>Json\<close>, \<open>Sha256\<close>, \<open>Hashing\<close>, \<open>Schema\<close>, \<open>Models\<close>
    (\<open>protocol/\<close>): version precedence and bounds (locale \<open>precedence\<close>), safe relative paths, capability
    negotiation, UTF-8, the strict JSON reader and the canonical writer, SHA-256, the framed tree
    digest (locale \<open>prefix_code\<close>), object field validation, and the records of manifests and
    indexes.
  \<^item> \<open>CompilerModel\<close> and \<open>Compiler\<close> (\<open>compiler/model.py\<close>, \<open>application/compiler.py\<close>): the values of a
    compilation with every constructor check, and the nine phases with the acquire, materialize and
    publish ports as parameters. A run returns the trace of port calls beside its result, so that
    ordering of effects is a statement on that trace.
  \<^item> \<open>Graph\<close>, \<open>Collections\<close>, \<open>Marketplace\<close>, \<open>Selection\<close> (\<open>compiler/graph.py\<close>): graph values and the semantic
    digest, memoised expansion of nested collections, version history and graph compilation,
    compatibility and selection.
  \<^item> \<open>Base64\<close>, \<open>StoreModel\<close>, \<open>StoreLimits\<close>, \<open>Store\<close> (\<open>store/\<close>, \<open>application/store.py\<close>): the managed layout, normalisation of object
    trees, the canonical object envelope and the reference index (locale \<open>canonical_codec\<close>, interpreted for both),
    reference replacement and garbage collection under the store lease.
  \<^item> \<open>Redaction\<close> (\<open>redaction.py\<close>): the five patterns on a backtracking matcher with the semantics of the standard
    library's regular expressions.
  \<^item> \<open>SourceModel\<close> and \<open>Sources\<close> (\<open>sources/model.py\<close>, \<open>application/sources.py\<close>): managed sources, their health, and
    synchronise, adopt, discard, check and status with their ports as parameters; the operations that hold the lease share the locale
    \<open>leased_body\<close>, and the pointer of a source over its history is the step relation \<open>source_step\<close>.
  \<^item> \<open>Catalog\<close>, \<open>InstallState\<close>, \<open>Consumer\<close> (\<open>marketplace/\<close>, \<open>install_state/model.py\<close>, \<open>consumer/coordinates.py\<close>,
    \<open>consumer/resolution.py\<close>): the runtime catalog, the installation manifest, selectors and their resolution
    with the closure over declared dependencies.
  \<^item> \<open>GitLocation\<close> and \<open>Configuration\<close> (\<open>configuration/\<close>, \<open>application/configuration.py\<close>): Git locations with the
    URL splitting of the standard library (CPython 3.12), configuration paths, and the precedence of organisation policy, overrides and
    user configuration.
  \<^item> \<open>InstallSchema\<close>, \<open>InstallModel\<close>, \<open>Lifecycle\<close>, \<open>Uninstall\<close> (\<open>install_state/schema.py\<close>, \<open>installation/model.py\<close>,
    \<open>lifecycle/\<close>): the reader and writer of the installation manifest, snapshots and reviewed plans, status, check, reconcile and
    removal of installed effects, and uninstallation from its preparation to the call of the port that applies it.
  \<^item> \<open>NativeSchema\<close>, \<open>ManifestCodec\<close>, \<open>NativeTree\<close>, \<open>NativeSource\<close> (\<open>protocol/native_schema.py\<close>, \<open>protocol/native_tree.py\<close>):
    the readers and writers of native manifests, the canonical projection of an artifact manifest, packages and the loader of a
    native source with its dependency walk. The setup protocol that a package is checked against is the parameter \<open>setup_codec\<close>.

  \<^bold>\<open>What the lemmas show.\<close> The readers accept exactly what the writers produce (versions, paths, JSON, digests,
  envelopes, indexes, selectors). Digests bind what they are computed from, up to a collision of SHA-256, which stays visible in the
  statements. The compiler, the store and the sources change state only under their leases, at most once, and only
  with validated values; over any history the marketplace loses no artifact and lowers no version, and a
  subscription changes its identity only by review. Resolution, expansion and selection return exactly the
  reachable or installable artifacts. A native source is accepted only when it holds exactly the packages of its declared roots and its
  dependency graph is complete and acyclic. An effect is removed only on proof that it is the installed one, an uninstallation is all or
  nothing, and whatever is reported current can be removed, unless the backup of the file that it displaced is missing. Where the code can raise in spite of its \<open>Result\<close> type, the theorem says
  exactly when (\<open>make_object_candidate\<close>, \<open>replace_references\<close>, \<open>resolve_selectors\<close>).

  \<^bold>\<open>Conventions.\<close> A frozen dataclass is a record (or a datatype with a linear order where the class
  is ordered); its \<open>__post_init__\<close> is a constructor function \<open>mk_...\<close> that returns \<open>Inl\<close> the exception
  it raises. A \<open>dict\<close> is an association list in insertion order, \<open>sorted(set(xs))\<close> is \<open>sorted_set\<close>.
  Text is a list of 8-bit characters: code points above U+00FF are outside the model, and
  the JSON reader answers \<open>None\<close> on an input that denotes one. The reader's recursion carries fuel;
  twice the length of the input plus two is enough (lemma \<open>read_enough_fuel\<close>), so \<open>NoFuel\<close> is unreachable
  from \<open>json_loads\<close>. Unicode normalisation is the identity on the characters of the model, where it is.
  The interpreter's recursion limit is not modelled. Code outside the sources (git, the
  file system, the clock) appears only as port parameters.

  \<^bold>\<open>Not modelled.\<close> The user interfaces (\<open>tui.py\<close>, \<open>cli.py\<close>, \<open>wizard.py\<close>, \<open>commands/\<close>) and the process and file system
  adapters (\<open>io/\<close>, \<open>sources/git.py\<close>, the engine of \<open>setup*.py\<close>): their behaviour is the operating system's. Preparing and
  finalizing installations and updates (\<open>installation/application.py\<close> apart from the managed block) and the reader of the configuration
  files: their data, their plans and the parts they call are modelled, their composition is not. The registry schemas and authoring
  planners, security assessment, reporting and the legacy profiles.
\<close>

end
